(* ===== verification/Prelude.thy ===== *)
theory Prelude
  imports Complex_Main "HOL-Library.AList" "HOL-Library.Char_ord" "HOL-Library.List_Lexorder"
    "HOL-Library.Product_Lexorder"
begin

text \<open>
  What every component of the development shares.

  Python strings are HOL strings.  The string methods the services use (strip, upper, lower,
  replace of one character, split on one character, startswith) are written out for ASCII text,
  which is the alphabet of every identifier, key, plan and topic name the program compares.  White
  space is recognised in all of Latin-1, which is what a header value may hold.

  Python dictionaries that keep their insertion order, and \<open>OrderedDict\<close>, are association
  lists, oldest entry first.  Assigning to a present key keeps its position, assigning to a fresh
  key appends: this is \<open>AList.update\<close>.

  Python floats are rationals: sums, products and comparisons are exact here.  Rounding is the
  half-even rule of the built-in \<open>round\<close>.

  JSON values, and the dynamically typed values the services receive before they are validated,
  are the datatype \<open>json\<close>.  Exceptions are values: a call that may raise returns a sum whose
  left side is the exception.
\<close>

named_theorems od_simps
named_theorems str_simps

section \<open>Exceptions of the language\<close>

datatype py_exn =
    ValueError
  | TypeErrorExn
  | KeyErrorExn
  | IndexErrorExn
  | AttributeErrorExn
  | RuntimeErrorExn
  | OSErrorExn
  | JSONDecodeErrorExn
  | ValidationErrorExn
  | CancelledErrorExn
  | OverflowErrorExn

type_synonym 'a raises = "py_exn + 'a"

definition bind_r :: "'e + 'a \<Rightarrow> ('a \<Rightarrow> 'e + 'b) \<Rightarrow> 'e + 'b" where
  "bind_r m f = (case m of Inl e \<Rightarrow> Inl e | Inr a \<Rightarrow> f a)"

lemma bind_r_simps [simp]:
  "bind_r (Inl e) f = Inl e"
  "bind_r (Inr a) f = f a"
  by (simp_all add: bind_r_def)

lemma bind_r_Inr_iff: "bind_r m f = Inr b \<longleftrightarrow> (\<exists>a. m = Inr a \<and> f a = Inr b)"
  by (cases m) auto

lemma bind_r_Inl_iff:
  "bind_r m f = Inl e \<longleftrightarrow> m = Inl e \<or> (\<exists>a. m = Inr a \<and> f a = Inl e)"
  by (cases m) auto

fun map_r :: "('a \<Rightarrow> 'e + 'b) \<Rightarrow> 'a list \<Rightarrow> 'e + 'b list" where
  "map_r f [] = Inr []"
| "map_r f (x # xs) = bind_r (f x) (\<lambda>y. bind_r (map_r f xs) (\<lambda>ys. Inr (y # ys)))"

lemma map_r_Inr_length: "map_r f xs = Inr ys \<Longrightarrow> length ys = length xs"
  by (induction xs arbitrary: ys) (auto simp: bind_r_Inr_iff)

lemma map_r_Inr_list_all2: "map_r f xs = Inr ys \<Longrightarrow> list_all2 (\<lambda>x y. f x = Inr y) xs ys"
  by (induction xs arbitrary: ys) (auto simp: bind_r_Inr_iff)

section \<open>Strings\<close>

definition is_space :: "char \<Rightarrow> bool" where
  "is_space c \<longleftrightarrow> (let n = (of_char c :: nat) in 9 \<le> n \<and> n \<le> 13 \<or> 28 \<le> n \<and> n \<le> 32 \<or> n = 133 \<or> n = 160)"

definition upper_char :: "char \<Rightarrow> char" where
  "upper_char c = (let n = (of_char c :: nat) in if 97 \<le> n \<and> n \<le> 122 then char_of (n - 32) else c)"

definition lower_char :: "char \<Rightarrow> char" where
  "lower_char c = (let n = (of_char c :: nat) in if 65 \<le> n \<and> n \<le> 90 then char_of (n + 32) else c)"

definition str_strip :: "string \<Rightarrow> string" where
  "str_strip s = rev (dropWhile is_space (rev (dropWhile is_space s)))"

definition str_upper :: "string \<Rightarrow> string" where
  "str_upper = map upper_char"

definition str_lower :: "string \<Rightarrow> string" where
  "str_lower = map lower_char"

definition is_alnum :: "char \<Rightarrow> bool" where
  "is_alnum c \<longleftrightarrow>
     (let n = (of_char c :: nat) in 48 \<le> n \<and> n \<le> 57 \<or> 65 \<le> n \<and> n \<le> 90 \<or> 97 \<le> n \<and> n \<le> 122)"

definition str_replace :: "char \<Rightarrow> char \<Rightarrow> string \<Rightarrow> string" where
  "str_replace a b = map (\<lambda>c. if c = a then b else c)"

fun str_split :: "char \<Rightarrow> string \<Rightarrow> string list" where
  "str_split sep [] = [[]]"
| "str_split sep (c # cs) =
     (if c = sep then [] # str_split sep cs
      else (case str_split sep cs of [] \<Rightarrow> [[c]] | w # ws \<Rightarrow> (c # w) # ws))"

definition str_startswith :: "string \<Rightarrow> string \<Rightarrow> bool" where
  "str_startswith s p \<longleftrightarrow> take (length p) s = p"

definition str_rstrip_char :: "char \<Rightarrow> string \<Rightarrow> string" where
  "str_rstrip_char c s = rev (dropWhile (\<lambda>d. d = c) (rev s))"

fun str_join :: "string \<Rightarrow> string list \<Rightarrow> string" where
  "str_join sep [] = []"
| "str_join sep [w] = w"
| "str_join sep (w # ws) = w @ sep @ str_join sep ws"

lemma of_char_less_256: "(of_char c :: nat) < 256"
  by (metis mod_less_divisor of_char_mod_256 zero_less_numeral)

lemma of_char_upper_char:
  "of_char (upper_char c) =
     (if 97 \<le> (of_char c :: nat) \<and> of_char c \<le> (122 :: nat) then of_char c - 32 else (of_char c :: nat))"
  by (auto simp: upper_char_def Let_def)

lemma is_space_upper_char [str_simps]: "is_space (upper_char c) = is_space c"
  by (auto simp: is_space_def of_char_upper_char Let_def)

lemma upper_char_idem [str_simps]: "upper_char (upper_char c) = upper_char c"
proof -
  have "upper_char d = d" if "\<not> (97 \<le> (of_char d :: nat) \<and> of_char d \<le> (122 :: nat))" for d
    using that by (auto simp: upper_char_def Let_def)
  moreover have "\<not> (97 \<le> (of_char (upper_char c) :: nat) \<and> of_char (upper_char c) \<le> (122 :: nat))"
    by (auto simp: of_char_upper_char)
  ultimately show ?thesis by blast
qed

text \<open>The character classes by enumeration, for evaluation.\<close>

lemma char_range: "c \<in> set (map char_of [a..<b]) \<longleftrightarrow> a \<le> (of_char c :: nat) \<and> (of_char c :: nat) < b" if "b \<le> 256"
proof
  assume "c \<in> set (map char_of [a..<b])"
  then obtain n where n: "a \<le> n" "n < b" "c = char_of n" by auto
  then have "of_char c = n" using that by (simp add: of_char_of)
  then show "a \<le> (of_char c :: nat) \<and> (of_char c :: nat) < b" using n by simp
next
  assume "a \<le> (of_char c :: nat) \<and> (of_char c :: nat) < b"
  then have "(of_char c :: nat) \<in> set [a..<b]" by simp
  then show "c \<in> set (map char_of [a..<b])" by (metis char_of_char image_eqI list.set_map)
qed

lemma letters: "map char_of [97..<123 :: nat] = ''abcdefghijklmnopqrstuvwxyz''"
  "map char_of [65..<91 :: nat] = ''ABCDEFGHIJKLMNOPQRSTUVWXYZ''"
  "map char_of [48..<58 :: nat] = ''0123456789''"
  by code_simp+

lemma lower_char_code [code]:
  "lower_char c = (case map_of (zip ''ABCDEFGHIJKLMNOPQRSTUVWXYZ'' ''abcdefghijklmnopqrstuvwxyz'') c of None \<Rightarrow> c | Some d \<Rightarrow> d)"
proof (cases "c \<in> set ''ABCDEFGHIJKLMNOPQRSTUVWXYZ''")
  case True
  have "list_all (\<lambda>c. lower_char c = (case map_of (zip ''ABCDEFGHIJKLMNOPQRSTUVWXYZ'' ''abcdefghijklmnopqrstuvwxyz'') c of
      None \<Rightarrow> c | Some d \<Rightarrow> d)) ''ABCDEFGHIJKLMNOPQRSTUVWXYZ''"
    by code_simp
  then show ?thesis using True unfolding list_all_iff by blast
next
  case False
  then have l: "lower_char c = c"
    using char_range [of 91 c 65] unfolding lower_char_def Let_def letters by auto
  have "map fst (zip ''ABCDEFGHIJKLMNOPQRSTUVWXYZ'' ''abcdefghijklmnopqrstuvwxyz'') = ''ABCDEFGHIJKLMNOPQRSTUVWXYZ''"
    by code_simp
  then have "map_of (zip ''ABCDEFGHIJKLMNOPQRSTUVWXYZ'' ''abcdefghijklmnopqrstuvwxyz'') c = None"
    using False unfolding map_of_eq_None_iff list.set_map [symmetric] by (simp only: not_False_eq_True)
  then show ?thesis by (simp only: l option.case)
qed
lemma is_space_code [code]:
  "is_space c \<longleftrightarrow>
     c = CHR 0x20 \<or> c = CHR 0x0A \<or> c = CHR 0x09 \<or> c = CHR 0x0B \<or> c = CHR 0x0C \<or> c = CHR 0x0D \<or>
     c = CHR 0x1C \<or> c = CHR 0x1D \<or> c = CHR 0x1E \<or> c = CHR 0x1F \<or> c = CHR 0x85 \<or> c = CHR 0xA0"
proof -
  have "is_space c \<longleftrightarrow> (of_char c :: nat) \<in> {32, 10, 9, 11, 12, 13, 28, 29, 30, 31, 133, 160}"
    by (auto simp: is_space_def Let_def)
  moreover have "(of_char c :: nat) = k \<longleftrightarrow> c = char_of k" if "k < 256" for k using that by auto
  moreover have "char_of (32 :: nat) = CHR 0x20" "char_of (10 :: nat) = CHR 0x0A" "char_of (9 :: nat) = CHR 0x09"
    "char_of (11 :: nat) = CHR 0x0B" "char_of (12 :: nat) = CHR 0x0C" "char_of (13 :: nat) = CHR 0x0D"
    "char_of (28 :: nat) = CHR 0x1C" "char_of (29 :: nat) = CHR 0x1D" "char_of (30 :: nat) = CHR 0x1E"
    "char_of (31 :: nat) = CHR 0x1F" "char_of (133 :: nat) = CHR 0x85" "char_of (160 :: nat) = CHR 0xA0"
    by code_simp+
  ultimately show ?thesis by simp
qed

lemma dropWhile_hd_False: "s = [] \<or> \<not> P (hd s) \<Longrightarrow> dropWhile P s = s"
  by (cases s) auto

lemma str_strip_id:
  assumes "s = [] \<or> \<not> is_space (hd s) \<and> \<not> is_space (last s)"
  shows "str_strip s = s"
proof -
  have "dropWhile is_space s = s" "dropWhile is_space (rev s) = rev s"
    using assms by (auto intro!: dropWhile_hd_False simp: hd_rev)
  then show ?thesis by (simp add: str_strip_def)
qed

lemma hd_dropWhile_not: "dropWhile P xs \<noteq> [] \<Longrightarrow> \<not> P (hd (dropWhile P xs))"
  by (rule hd_dropWhile)

lemma str_strip_ends:
  "str_strip s = [] \<or> \<not> is_space (hd (str_strip s)) \<and> \<not> is_space (last (str_strip s))"
proof (cases "str_strip s = []")
  case False
  let ?t = "dropWhile is_space s"
  let ?u = "dropWhile is_space (rev ?t)"
  have ne: "?u \<noteq> []" using False by (simp add: str_strip_def)
  have l: "\<not> is_space (last (str_strip s))"
    using hd_dropWhile_not [OF ne] ne by (simp add: str_strip_def last_rev)
  obtain pre where pre: "rev ?t = pre @ ?u"
    using takeWhile_dropWhile_id [of is_space "rev ?t"] by metis
  have "?t = rev ?u @ rev pre" using arg_cong [OF pre, of rev] by simp
  then have h: "hd (rev ?u) = hd ?t" and n: "?t \<noteq> []"
    using ne by (metis hd_append2 rev_is_Nil_conv, metis append_is_Nil_conv ne rev_is_Nil_conv)
  then have "\<not> is_space (hd (str_strip s))"
    using hd_dropWhile_not [OF n] by (simp add: str_strip_def)
  then show ?thesis using l by blast
qed simp

lemma str_strip_idem [simp]: "str_strip (str_strip s) = str_strip s"
  using str_strip_ends [of s] by (rule str_strip_id)

lemma set_dropWhile_keep: "c \<in> set s \<Longrightarrow> \<not> P c \<Longrightarrow> c \<in> set (dropWhile P s)"
  by (induction s) auto

lemma str_strip_nonempty:
  assumes "c \<in> set s" "\<not> is_space c"
  shows "str_strip s \<noteq> []"
proof -
  have "c \<in> set (rev (dropWhile is_space s))" using assms set_dropWhile_keep [of c s is_space] by simp
  then have "c \<in> set (dropWhile is_space (rev (dropWhile is_space s)))"
    using assms(2) by (rule set_dropWhile_keep)
  then have "dropWhile is_space (rev (dropWhile is_space s)) \<noteq> []" by (metis empty_iff empty_set)
  then show ?thesis by (simp only: str_strip_def rev_is_Nil_conv not_False_eq_True)
qed

lemma str_strip_empty [simp]: "str_strip [] = []"
  by (simp add: str_strip_def)

lemma str_replace_not_in: "a \<noteq> b \<Longrightarrow> a \<notin> set (str_replace a b s)"
  by (auto simp: str_replace_def)

lemma str_replace_id: "a \<notin> set s \<Longrightarrow> str_replace a b s = s"
  by (induction s) (auto simp: str_replace_def)

lemma split_at_sep:
  "x @ c # y = x' @ c # y' \<Longrightarrow> c \<notin> set x \<Longrightarrow> c \<notin> set x' \<Longrightarrow> x = x' \<and> y = y'"
proof (induction x arbitrary: x')
  case Nil
  then show ?case by (cases x') auto
next
  case (Cons a x)
  then show ?case by (cases x') auto
qed

section \<open>Ordered dictionaries\<close>

text \<open>
  Lookup is \<open>map_of\<close>, assignment is \<open>AList.update\<close>, \<open>pop\<close> is
  \<open>AList.delete\<close>.  Three operations of \<open>OrderedDict\<close> are added.
\<close>

type_synonym ('k, 'v) odict = "('k \<times> 'v) list"

definition od_move_to_end :: "'k \<Rightarrow> ('k, 'v) odict \<Rightarrow> ('k, 'v) odict" where
  "od_move_to_end k d = (case map_of d k of None \<Rightarrow> d | Some v \<Rightarrow> AList.delete k d @ [(k, v)])"

text \<open>The loop that pops the oldest entry while the dictionary is over its bound.\<close>

fun od_evict :: "nat \<Rightarrow> ('k, 'v) odict \<Rightarrow> ('k, 'v) odict" where
  "od_evict cap [] = []"
| "od_evict cap (e # d) = (if length (e # d) > cap then od_evict cap d else e # d)"

definition od_keys :: "('k, 'v) odict \<Rightarrow> 'k list" where
  "od_keys d = map fst d"

lemma od_evict_drop [od_simps]: "od_evict cap d = drop (length d - cap) d"
  by (induction d) (auto simp: Suc_diff_le not_less_eq_eq)

lemma od_move_to_end_map_of [od_simps]: "map_of (od_move_to_end k d) = map_of d"
proof (cases "map_of d k")
  case None
  then show ?thesis by (simp add: od_move_to_end_def)
next
  case (Some v)
  have "map_of (AList.delete k d @ [(k, v)]) = (map_of [(k, v)]) ++ map_of (AList.delete k d)"
    by (rule map_of_append)
  also have "\<dots> = map_of d"
    using Some by (auto simp: delete_conv map_add_def fun_eq_iff split: option.splits)
  finally show ?thesis using Some by (simp add: od_move_to_end_def)
qed

lemma od_set_then_move [od_simps]:
  "od_move_to_end k (AList.update k v d) = AList.delete k d @ [(k, v)]"
proof -
  have "AList.delete k (AList.update k v d) = AList.delete k d"
    by (induction d) (auto simp: AList.delete_eq)
  then show ?thesis by (simp add: od_move_to_end_def update_conv)
qed

lemma od_keys_append [od_simps]: "od_keys (d @ e) = od_keys d @ od_keys e"
  by (simp add: od_keys_def)

lemma od_keys_Cons [od_simps]: "od_keys (e # d) = fst e # od_keys d" "od_keys [] = []"
  by (simp_all add: od_keys_def)

lemma od_keys_delete [od_simps]: "od_keys (AList.delete k d) = filter (\<lambda>j. j \<noteq> k) (od_keys d)"
  by (induction d) (auto simp: od_keys_def AList.delete_eq)

lemma map_of_od_None: "map_of d k = None \<longleftrightarrow> k \<notin> set (od_keys d)"
  by (simp add: od_keys_def map_of_eq_None_iff)

lemma distinct_od_keys_update [intro]: "distinct (od_keys d) \<Longrightarrow> distinct (od_keys (AList.update k v d))"
  unfolding od_keys_def by (rule distinct_update)

lemma distinct_od_keys_delete [intro]: "distinct (od_keys d) \<Longrightarrow> distinct (od_keys (AList.delete k d))"
  by (simp add: od_simps)

lemma distinct_od_keys_drop [intro]: "distinct (od_keys d) \<Longrightarrow> distinct (od_keys (drop n d))"
  by (simp add: od_keys_def flip: drop_map)

lemma distinct_od_keys_move [intro]: "distinct (od_keys d) \<Longrightarrow> distinct (od_keys (od_move_to_end k d))"
proof (cases "map_of d k")
  case (Some v)
  have "od_keys (AList.delete k d @ [(k, v)]) = od_keys (AList.delete k d) @ [k]"
    by (simp add: od_keys_def)
  moreover assume "distinct (od_keys d)"
  ultimately show ?thesis using Some by (simp add: od_move_to_end_def od_keys_delete)
qed (simp add: od_move_to_end_def)

lemma length_delete_present:
  "distinct (od_keys d) \<Longrightarrow> map_of d k = Some v \<Longrightarrow> length (AList.delete k d) = length d - 1"
proof (induction d)
  case (Cons e d)
  show ?case
  proof (cases "fst e = k")
    case True
    then have "k \<notin> set (od_keys d)" using Cons.prems by (auto simp: od_keys_def)
    then have "AList.delete k d = d" by (simp add: od_keys_def delete_idem)
    then show ?thesis using True by (cases e) simp
  next
    case False
    then have m: "map_of d k = Some v" and "d \<noteq> []" using Cons.prems by (auto simp: fun_upd_def split: if_splits)
    then show ?thesis using False Cons by (cases d) (auto simp: od_keys_def AList.delete_eq)
  qed
qed simp

section \<open>Dynamically typed values\<close>

datatype json =
    JNull
  | JBool bool
  | JInt int
  | JFloat rat
  | JStr string
  | JList "json list"
  | JObj "(string \<times> json) list"

fun py_truthy :: "json \<Rightarrow> bool" where
  "py_truthy JNull = False"
| "py_truthy (JBool b) = b"
| "py_truthy (JInt i) = (i \<noteq> 0)"
| "py_truthy (JFloat x) = (x \<noteq> 0)"
| "py_truthy (JStr s) = (s \<noteq> [])"
| "py_truthy (JList xs) = (xs \<noteq> [])"
| "py_truthy (JObj kvs) = (kvs \<noteq> [])"

text \<open>\<open>d.get(k)\<close>, \<open>d.get(k, default)\<close> and \<open>d[k]\<close> on a JSON object.\<close>

definition j_get :: "(string \<times> json) list \<Rightarrow> string \<Rightarrow> json" where
  "j_get d k = (case map_of d k of None \<Rightarrow> JNull | Some v \<Rightarrow> v)"

definition j_get_default :: "(string \<times> json) list \<Rightarrow> string \<Rightarrow> json \<Rightarrow> json" where
  "j_get_default d k v0 = (case map_of d k of None \<Rightarrow> v0 | Some v \<Rightarrow> v)"

definition j_item :: "(string \<times> json) list \<Rightarrow> string \<Rightarrow> json raises" where
  "j_item d k = (case map_of d k of None \<Rightarrow> Inl KeyErrorExn | Some v \<Rightarrow> Inr v)"

definition py_or :: "json \<Rightarrow> json raises \<Rightarrow> json raises" where
  "py_or a b = (if py_truthy a then Inr a else b)"

text \<open>The decimal text of an integer, as \<open>str(n)\<close> gives it.\<close>

fun nat_digits :: "nat \<Rightarrow> string" where
  "nat_digits n =
     (if n < 10 then [char_of (48 + n)] else nat_digits (n div 10) @ [char_of (48 + n mod 10)])"

declare nat_digits.simps [simp del]

definition int_str :: "int \<Rightarrow> string" where
  "int_str i = (if i < 0 then ''-'' @ nat_digits (nat (- i)) else nat_digits (nat i))"

lemma nat_digits_chars: "c \<in> set (nat_digits n) \<Longrightarrow> 48 \<le> (of_char c :: nat) \<and> of_char c \<le> (57 :: nat)"
proof (induction n rule: nat_digits.induct)
  case (1 n)
  show ?case
  proof (cases "n < 10")
    case True
    then have "c = char_of (48 + n)" using "1.prems" by (subst (asm) nat_digits.simps) simp
    then show ?thesis using True by simp
  next
    case False
    have m: "n mod 10 < 10" by simp
    have "c \<in> set (nat_digits (n div 10)) \<or> c = char_of (48 + n mod 10)"
      using "1.prems" False by (subst (asm) nat_digits.simps) auto
    then show ?thesis
    proof
      assume "c \<in> set (nat_digits (n div 10))"
      then show ?thesis using "1.IH" False by blast
    next
      assume "c = char_of (48 + n mod 10)"
      then show ?thesis using m by simp
    qed
  qed
qed

text \<open>
  The built-ins \<open>str(v)\<close> and \<open>int(v)\<close>.  The text of a float, a list or an object is the
  argument \<open>repr_of\<close>.
\<close>

fun digits_value :: "string \<Rightarrow> nat \<Rightarrow> nat option" where
  "digits_value [] acc = Some acc"
| "digits_value (c # cs) acc =
     (let n = of_char c in if 48 \<le> n \<and> n \<le> 57 then digits_value cs (10 * acc + (n - 48)) else None)"

definition py_int_of_str :: "string \<Rightarrow> int option" where
  "py_int_of_str s =
     (let t = str_strip s;
          neg = (t \<noteq> [] \<and> hd t = CHR ''-'');
          u = (if t \<noteq> [] \<and> (hd t = CHR ''-'' \<or> hd t = CHR ''+'') then tl t else t)
      in if [] \<in> set (str_split (CHR ''_'') u) then None
         else map_option (\<lambda>n. if neg then - int n else int n)
                (digits_value (concat (str_split (CHR ''_'') u)) 0))"

fun py_int :: "json \<Rightarrow> int raises" where
  "py_int (JInt i) = Inr i"
| "py_int (JBool b) = Inr (if b then 1 else 0)"
| "py_int (JFloat x) = Inr (if x < 0 then \<lceil>x\<rceil> else \<lfloor>x\<rfloor>)"
| "py_int (JStr s) = (case py_int_of_str s of None \<Rightarrow> Inl ValueError | Some i \<Rightarrow> Inr i)"
| "py_int _ = Inl TypeErrorExn"

lemma digits_value_append:
  "digits_value (s @ [char_of (48 + d)]) acc =
     (case digits_value s acc of None \<Rightarrow> None | Some v \<Rightarrow> if d < 10 then Some (10 * v + d) else
        digits_value [char_of (48 + d)] v)"
  by (induction s arbitrary: acc) (auto simp: Let_def)

lemma digits_value_nat_digits: "digits_value (nat_digits n) 0 = Some n"
proof (induction n rule: nat_digits.induct)
  case (1 n)
  show ?case
  proof (cases "n < 10")
    case True
    then show ?thesis by (subst nat_digits.simps) (simp add: Let_def)
  next
    case False
    have "digits_value (nat_digits n) 0 = digits_value (nat_digits (n div 10) @ [char_of (48 + n mod 10)]) 0"
      using False by (subst nat_digits.simps) simp
    also have "\<dots> = Some (10 * (n div 10) + n mod 10)"
      using 1 False by (simp only: digits_value_append) simp
    finally show ?thesis by simp
  qed
qed

lemma nat_digits_inj: "nat_digits m = nat_digits n \<longleftrightarrow> m = n"
  by (metis digits_value_nat_digits option.inject)

text \<open>The first of the least elements by a key, as \<open>min(xs, key=...)\<close> picks it.\<close>

fun py_min_by :: "('a \<Rightarrow> int) \<Rightarrow> 'a list \<Rightarrow> 'a option" where
  "py_min_by f [] = None"
| "py_min_by f (x # xs) =
     (case py_min_by f xs of None \<Rightarrow> Some x | Some y \<Rightarrow> if f y < f x then Some y else Some x)"

fun py_str :: "(json \<Rightarrow> string) \<Rightarrow> json \<Rightarrow> string" where
  "py_str repr_of JNull = ''None''"
| "py_str repr_of (JBool b) = (if b then ''True'' else ''False'')"
| "py_str repr_of (JInt i) = int_str i"
| "py_str repr_of (JStr s) = s"
| "py_str repr_of v = repr_of v"

section \<open>Numbers\<close>

text \<open>Where a float may be infinite or not a number, it is one of these.\<close>

datatype pyfloat = Fin rat | PInf | MInf | NaN

fun is_finite :: "pyfloat \<Rightarrow> bool" where
  "is_finite (Fin x) = True"
| "is_finite _ = False"

text \<open>\<open>max(lo, min(hi, x))\<close> and the built-in \<open>round(x, n)\<close>: half-even.\<close>

definition clamp :: "'a::linorder \<Rightarrow> 'a \<Rightarrow> 'a \<Rightarrow> 'a" where
  "clamp lo hi x = max lo (min hi x)"

lemma clamp_bounds: "lo \<le> hi \<Longrightarrow> lo \<le> clamp lo hi x \<and> clamp lo hi x \<le> hi"
  by (auto simp: clamp_def)

definition round_half_even :: "rat \<Rightarrow> int" where
  "round_half_even x =
     (let f = \<lfloor>x\<rfloor>; r = x - of_int f in
      if r < 1/2 then f else if r > 1/2 then f + 1 else if even f then f else f + 1)"

definition py_round :: "rat \<Rightarrow> nat \<Rightarrow> rat" where
  "py_round x n = of_int (round_half_even (x * 10 ^ n)) / 10 ^ n"

lemma round_half_even_of_int [simp]: "round_half_even (of_int i) = i"
  by (simp add: round_half_even_def)

lemma round_half_even_le: "x \<le> of_int i \<Longrightarrow> round_half_even x \<le> i"
proof -
  assume a: "x \<le> of_int i"
  show ?thesis
  proof (cases "\<lfloor>x\<rfloor> = i")
    case True
    then have "x = of_int i" using a by linarith
    then show ?thesis by simp
  next
    case False
    then have "\<lfloor>x\<rfloor> < i" using a by (simp add: floor_le_iff order.strict_iff_order)
    then show ?thesis by (auto simp: round_half_even_def Let_def)
  qed
qed

lemma round_half_even_ge: "of_int i \<le> x \<Longrightarrow> i \<le> round_half_even x"
proof -
  assume "of_int i \<le> x"
  then have "i \<le> \<lfloor>x\<rfloor>" by (simp add: le_floor_iff)
  then show ?thesis by (auto simp: round_half_even_def Let_def)
qed

lemma py_round_int_bounds:
  assumes "of_int a \<le> x" "x \<le> of_int b"
  shows "of_int a \<le> py_round x n \<and> py_round x n \<le> of_int b"
proof -
  have p: "(0::rat) < 10 ^ n" by simp
  have "of_int (a * 10 ^ n) \<le> x * 10 ^ n" "x * 10 ^ n \<le> of_int (b * 10 ^ n)"
    using assms by (auto intro: mult_right_mono)
  then have "a * 10 ^ n \<le> round_half_even (x * 10 ^ n)" "round_half_even (x * 10 ^ n) \<le> b * 10 ^ n"
    using round_half_even_ge round_half_even_le by blast+
  then have "(of_int (a * 10 ^ n) :: rat) \<le> of_int (round_half_even (x * 10 ^ n))"
    "(of_int (round_half_even (x * 10 ^ n)) :: rat) \<le> of_int (b * 10 ^ n)"
    by (simp_all only: of_int_le_iff)
  then show ?thesis using p by (simp add: py_round_def field_simps)
qed

lemma py_round_unit_bounds: "0 \<le> x \<Longrightarrow> x \<le> 1 \<Longrightarrow> 0 \<le> py_round x n \<and> py_round x n \<le> 1"
  using py_round_int_bounds [of 0 x 1 n] by simp

end
