(* ===== verification/Replay_Store.thy ===== *)
theory Replay_Store
  imports Prelude
begin

text \<open>
  The stores that make a redelivered mutation answer with the plan already issued for it.

  The interface is the locale lru_store: a bounded dictionary ordered by recency, with a lookup
  that refreshes and an insertion that evicts.  Its two implementations are CommandCache of the
  GraphRAG interceptor and PlanCache of the AI interceptor, both process local; the interpretations
  at the end of the file discharge the laws for them.  RedisPlanStore, the shared implementation,
  is modelled over the replies of the Redis client, which is not code of the repository: a reply is
  either a transport error or a value.
\<close>

section \<open>The interface\<close>

datatype ('k, 'v) store_op = OpGet 'k | OpPut 'k 'v

fun op_key :: "('k, 'v) store_op \<Rightarrow> 'k" where
  "op_key (OpGet k) = k"
| "op_key (OpPut k v) = k"

fun puts_key :: "'k \<Rightarrow> ('k, 'v) store_op \<Rightarrow> bool" where
  "puts_key k (OpGet j) = False"
| "puts_key k (OpPut j v) = (j = k)"

text \<open>
  A recency list in which the entry of a key has only entries of a set of keys after it.
\<close>

definition recent_within :: "'k \<Rightarrow> 'v \<Rightarrow> 'k set \<Rightarrow> ('k, 'v) odict \<Rightarrow> bool" where
  "recent_within k v K d \<longleftrightarrow>
     (\<exists>pre post. d = pre @ (k, v) # post \<and> set (od_keys post) \<subseteq> K \<and> k \<notin> set (od_keys pre) \<and>
        distinct (od_keys post))"

lemma map_of_after_absent: "k \<notin> set (od_keys pre) \<Longrightarrow> map_of (pre @ (k, v) # post) k = Some v"
  by (induction pre) (auto simp: od_keys_def)

lemma recent_within_lookup: "recent_within k v K d \<Longrightarrow> map_of d k = Some v"
  unfolding recent_within_def using map_of_after_absent by fastforce

lemma recent_within_mono: "recent_within k v K d \<Longrightarrow> K \<subseteq> L \<Longrightarrow> recent_within k v L d"
  unfolding recent_within_def by blast

lemma recent_within_push_self: "recent_within k v K (AList.delete k d @ [(k, v)])"
proof -
  have "k \<notin> set (od_keys (AList.delete k d))" by (simp add: od_simps)
  then show ?thesis unfolding recent_within_def
    by (intro exI [of _ "AList.delete k d"] exI [of _ "[]"]) (simp add: od_keys_def)
qed

lemma recent_within_push_other:
  assumes "recent_within k v K d" and "j \<noteq> k"
  shows "recent_within k v (insert j K) (AList.delete j d @ [(j, w)])"
proof -
  obtain pre post where d: "d = pre @ (k, v) # post" "set (od_keys post) \<subseteq> K"
    "k \<notin> set (od_keys pre)" "distinct (od_keys post)"
    using assms(1) by (auto simp: recent_within_def)
  have "AList.delete j d @ [(j, w)] = AList.delete j pre @ (k, v) # (AList.delete j post @ [(j, w)])"
    using d(1) assms(2) by (simp add: AList.delete_eq)
  moreover have "od_keys (AList.delete j post @ [(j, w)]) = od_keys (AList.delete j post) @ [j]"
    by (simp add: od_keys_def)
  ultimately show ?thesis unfolding recent_within_def
    using d by (intro exI [of _ "AList.delete j pre"] exI [of _ "AList.delete j post @ [(j, w)]"])
      (auto simp: od_keys_delete)
qed

lemma recent_within_evict:
  assumes "recent_within k v K d" and "finite K" and "card K < cap"
  shows "recent_within k v K (od_evict cap d)"
proof -
  obtain pre post where d: "d = pre @ (k, v) # post" "set (od_keys post) \<subseteq> K"
    "k \<notin> set (od_keys pre)" "distinct (od_keys post)"
    using assms(1) by (auto simp: recent_within_def)
  have "length post = card (set (od_keys post))"
    using distinct_card [OF d(4)] by (simp add: od_keys_def)
  also have "\<dots> \<le> card K" using d(2) assms(2) by (rule card_mono [rotated])
  finally have "length d - cap \<le> length pre" using d(1) assms(3) by simp
  then have "od_evict cap d = drop (length d - cap) pre @ (k, v) # post"
    using d(1) by (simp add: od_evict_drop)
  moreover have "k \<notin> set (od_keys (drop (length d - cap) pre))"
    using d(3) by (auto simp: od_keys_def dest: in_set_dropD)
  ultimately show ?thesis unfolding recent_within_def using d by blast
qed

locale lru_store =
  fixes getv :: "'k \<Rightarrow> 's \<Rightarrow> 'v option \<times> 's"
    and putv :: "'k \<Rightarrow> 'v \<Rightarrow> 's \<Rightarrow> 's"
    and entries :: "'s \<Rightarrow> ('k, 'v) odict"
    and bound :: "'s \<Rightarrow> nat"
  assumes get_value: "0 < bound s \<Longrightarrow> fst (getv k s) = map_of (entries s) k"
    and get_entries: "0 < bound s \<Longrightarrow> entries (snd (getv k s)) = od_move_to_end k (entries s)"
    and put_entries: "0 < bound s \<Longrightarrow>
      entries (putv k v s) = od_evict (bound s) (AList.delete k (entries s) @ [(k, v)])"
    and get_bound: "bound (snd (getv k s)) = bound s"
    and put_bound: "bound (putv k v s) = bound s"
begin

fun apply_op :: "('k, 'v) store_op \<Rightarrow> 's \<Rightarrow> 's" where
  "apply_op (OpGet k) s = snd (getv k s)"
| "apply_op (OpPut k v) s = putv k v s"

lemma apply_op_bound: "bound (apply_op x s) = bound s"
  by (cases x) (simp_all add: get_bound put_bound)

lemma apply_get_recent:
  assumes "0 < bound s" "recent_within k v K (entries s)"
  shows "recent_within k v (insert j K - {k} \<union> K) (entries (apply_op (OpGet j) s))"
proof (cases "j = k")
  case True
  have "od_move_to_end k (entries s) = AList.delete k (entries s) @ [(k, v)]"
    using recent_within_lookup [OF assms(2)] by (simp add: od_move_to_end_def)
  then have "recent_within k v {} (entries (apply_op (OpGet j) s))"
    using assms(1) True recent_within_push_self [of k v "{}" "entries s"] by (simp add: get_entries)
  then show ?thesis by (rule recent_within_mono) simp
next
  case False
  show ?thesis
  proof (cases "map_of (entries s) j")
    case None
    then show ?thesis using assms by (auto simp: get_entries od_move_to_end_def intro: recent_within_mono)
  next
    case (Some w)
    then have "recent_within k v (insert j K) (entries (apply_op (OpGet j) s))"
      using assms False by (auto simp: get_entries od_move_to_end_def intro: recent_within_push_other)
    then show ?thesis using False by (auto intro: recent_within_mono)
  qed
qed

lemma apply_op_recent:
  assumes "0 < bound s" "recent_within k v K (entries s)" "\<not> puts_key k x"
    and "finite K" "card (K \<union> (insert (op_key x) {} - {k})) < bound s"
  shows "recent_within k v (K \<union> (insert (op_key x) {} - {k})) (entries (apply_op x s))"
proof (cases x)
  case (OpGet j)
  then show ?thesis using apply_get_recent [OF assms(1,2), of j] by (auto elim: recent_within_mono)
next
  case (OpPut j w)
  then have jk: "j \<noteq> k" using assms(3) by simp
  let ?K = "K \<union> (insert (op_key x) {} - {k})"
  have "recent_within k v ?K (AList.delete j (entries s) @ [(j, w)])"
    using recent_within_push_other [OF assms(2) jk] jk OpPut by simp
  then have "recent_within k v ?K (od_evict (bound s) (AList.delete j (entries s) @ [(j, w)]))"
    using assms(4,5) by (intro recent_within_evict) auto
  then show ?thesis using OpPut assms(1) by (simp add: put_entries)
qed

lemma fold_recent:
  assumes "0 < bound s" "recent_within k v K (entries s)" "\<forall>x \<in> set xs. \<not> puts_key k x"
    and "finite K" "card (K \<union> (op_key ` set xs - {k})) < bound s"
  shows "recent_within k v (K \<union> (op_key ` set xs - {k})) (entries (fold apply_op xs s))"
  using assms
proof (induction xs arbitrary: s K)
  case (Cons x xs)
  let ?K = "K \<union> (insert (op_key x) {} - {k})"
  have eq: "K \<union> (op_key ` set (x # xs) - {k}) = ?K \<union> (op_key ` set xs - {k})" by auto
  have "card ?K \<le> card (?K \<union> (op_key ` set xs - {k}))"
    using Cons.prems(4) by (intro card_mono) auto
  then have c: "card ?K < bound s" using Cons.prems(5) eq by simp
  have "recent_within k v ?K (entries (apply_op x s))"
    using Cons.prems c by (intro apply_op_recent) auto
  then show ?case
    using Cons.prems eq Cons.IH [of "apply_op x s" ?K] by (simp add: apply_op_bound)
qed simp

text \<open>
  Replay stability: after a plan is stored, any mix of lookups and insertions that touches fewer
  other keys than the store has room for still finds that plan.
\<close>

lemma replay_stable:
  assumes "\<forall>x \<in> set xs. \<not> puts_key k x" "card (op_key ` set xs - {k}) < bound s"
  shows "fst (getv k (fold apply_op xs (putv k v s))) = Some v"
proof -
  have b: "0 < bound s" using assms(2) by linarith
  have "recent_within k v {} (AList.delete k (entries s) @ [(k, v)])" by (rule recent_within_push_self)
  then have "recent_within k v {} (entries (putv k v s))"
    using b by (simp add: put_entries recent_within_evict)
  then have "recent_within k v ({} \<union> (op_key ` set xs - {k})) (entries (fold apply_op xs (putv k v s)))"
    using assms b by (intro fold_recent) (auto simp: put_bound)
  then have "map_of (entries (fold apply_op xs (putv k v s))) k = Some v"
    by (rule recent_within_lookup)
  moreover have "bound (fold apply_op xs t) = bound t" for t
    by (induction xs arbitrary: t) (simp_all add: apply_op_bound)
  ultimately show ?thesis using b by (simp add: get_value put_bound)
qed

lemma put_length: "0 < bound s \<Longrightarrow> length (entries (putv k v s)) \<le> bound s"
  by (simp add: put_entries od_simps)

lemma get_length: "0 < bound s \<Longrightarrow> distinct (od_keys (entries s)) \<Longrightarrow>
    length (entries (snd (getv k s))) = length (entries s)"
  by (cases "map_of (entries s) k")
    (auto simp: get_entries od_move_to_end_def length_delete_present Suc_diff_1
      dest: map_of_SomeD intro!: Suc_pred length_pos_if_in_set)

end

section \<open>CommandCache (GraphRAG interceptor)\<close>

type_synonym event_key = "string \<times> string"

record 'v command_cache =
  cc_max :: nat
  cc_data :: "(event_key, 'v) odict"

definition command_cache_get :: "event_key \<Rightarrow> 'v command_cache \<Rightarrow> 'v option \<times> 'v command_cache" where
  "command_cache_get k c =
     (if cc_max c = 0 then (None, c)
      else (case map_of (cc_data c) k of
              None \<Rightarrow> (None, c)
            | Some v \<Rightarrow> (Some v, c\<lparr>cc_data := od_move_to_end k (cc_data c)\<rparr>)))"

definition command_cache_put :: "event_key \<Rightarrow> 'v \<Rightarrow> 'v command_cache \<Rightarrow> 'v command_cache" where
  "command_cache_put k v c =
     (if cc_max c = 0 then c
      else c\<lparr>cc_data := od_evict (cc_max c) (od_move_to_end k (AList.update k v (cc_data c)))\<rparr>)"

lemma command_cache_put_data: "0 < cc_max c \<Longrightarrow>
    cc_data (command_cache_put k v c) = od_evict (cc_max c) (AList.delete k (cc_data c) @ [(k, v)])"
  by (simp add: command_cache_put_def od_set_then_move)

lemma command_cache_get_data: "0 < cc_max c \<Longrightarrow>
    fst (command_cache_get k c) = map_of (cc_data c) k \<and>
    cc_data (snd (command_cache_get k c)) = od_move_to_end k (cc_data c)"
  by (simp add: command_cache_get_def od_move_to_end_def split: option.splits)

interpretation command_lru: lru_store command_cache_get command_cache_put cc_data cc_max
  by unfold_locales
    (simp_all add: command_cache_get_data command_cache_put_data,
     simp_all add: command_cache_get_def command_cache_put_def split: option.splits)

section \<open>PlanCache (AI interceptor)\<close>

record 'v plan_cache =
  pc_max :: nat
  pc_data :: "(event_key, 'v) odict"
  pc_hits :: nat
  pc_misses :: nat
  pc_stores :: nat

definition plan_cache_get :: "event_key \<Rightarrow> 'v plan_cache \<Rightarrow> 'v option \<times> 'v plan_cache" where
  "plan_cache_get k c =
     (if pc_max c = 0 then (None, c)
      else (case map_of (pc_data c) k of
              None \<Rightarrow> (None, c\<lparr>pc_misses := Suc (pc_misses c)\<rparr>)
            | Some v \<Rightarrow> (Some v, c\<lparr>pc_data := od_move_to_end k (pc_data c), pc_hits := Suc (pc_hits c)\<rparr>)))"

definition plan_cache_put :: "event_key \<Rightarrow> 'v \<Rightarrow> 'v plan_cache \<Rightarrow> 'v plan_cache" where
  "plan_cache_put k v c =
     (if pc_max c = 0 then c
      else c\<lparr>pc_data := od_evict (pc_max c) (od_move_to_end k (AList.update k v (pc_data c))),
             pc_stores := Suc (pc_stores c)\<rparr>)"

lemma plan_cache_put_data: "0 < pc_max c \<Longrightarrow>
    pc_data (plan_cache_put k v c) = od_evict (pc_max c) (AList.delete k (pc_data c) @ [(k, v)])"
  by (simp add: plan_cache_put_def od_set_then_move)

lemma plan_cache_get_data: "0 < pc_max c \<Longrightarrow>
    fst (plan_cache_get k c) = map_of (pc_data c) k \<and>
    pc_data (snd (plan_cache_get k c)) = od_move_to_end k (pc_data c)"
  by (simp add: plan_cache_get_def od_move_to_end_def split: option.splits)

interpretation plan_lru: lru_store plan_cache_get plan_cache_put pc_data pc_max
  by unfold_locales
    (simp_all add: plan_cache_get_data plan_cache_put_data,
     simp_all add: plan_cache_get_def plan_cache_put_def split: option.splits)

section \<open>RedisPlanStore\<close>

text \<open>Percent encoding with no safe characters beyond the unreserved ones.\<close>

definition unreserved :: "char \<Rightarrow> bool" where
  "unreserved c \<longleftrightarrow>
     (let n = (of_char c :: nat) in
        65 \<le> n \<and> n \<le> 90 \<or> 97 \<le> n \<and> n \<le> 122 \<or> 48 \<le> n \<and> n \<le> 57 \<or> n = 45 \<or> n = 46 \<or> n = 95 \<or> n = 126)"

definition hex_digit :: "nat \<Rightarrow> char" where
  "hex_digit n = (if n < 10 then char_of (48 + n) else char_of (55 + n))"

definition quote_char :: "char \<Rightarrow> string" where
  "quote_char c =
     (if unreserved c then [c]
      else [CHR ''%'', hex_digit (of_char c div 16), hex_digit (of_char c mod 16)])"

definition quote :: "string \<Rightarrow> string" where
  "quote s = concat (map quote_char s)"

definition plan_key_for :: "string \<Rightarrow> event_key \<Rightarrow> string" where
  "plan_key_for prefix k = prefix @ ''v1'' @ '':'' @ quote (fst k) @ '':'' @ quote (snd k)"

datatype 'a redis_reply = TransportError | Reply 'a

record redis_plan_store =
  rs_prefix :: string
  rs_ttl_ms :: int
  rs_fail_open :: bool
  rs_hits :: nat
  rs_misses :: nat
  rs_stores :: nat
  rs_conflicts :: nat
  rs_write_errors :: nat
  rs_read_errors :: nat
  rs_failed_open :: nat
  rs_failed_closed :: nat

datatype store_error = PlanStoreUnavailable

text \<open>
  The reply of the client, and the JSON decoder, are arguments: the decoder answers None where
  \<open>json.loads\<close> raises.  The result is the exception or the record, with the counters.
\<close>

definition redis_plan_get ::
    "(string \<Rightarrow> json option) \<Rightarrow> (string \<Rightarrow> string option redis_reply) \<Rightarrow> event_key
      \<Rightarrow> redis_plan_store \<Rightarrow> (store_error + (string \<times> json) list option) \<times> redis_plan_store" where
  "redis_plan_get loads client k s =
     (case client (plan_key_for (rs_prefix s) k) of
        TransportError \<Rightarrow>
          (let s1 = s\<lparr>rs_read_errors := Suc (rs_read_errors s)\<rparr> in
           if rs_fail_open s then (Inr None, s1\<lparr>rs_failed_open := Suc (rs_failed_open s1)\<rparr>)
           else (Inl PlanStoreUnavailable, s1\<lparr>rs_failed_closed := Suc (rs_failed_closed s1)\<rparr>))
      | Reply None \<Rightarrow> (Inr None, s\<lparr>rs_misses := Suc (rs_misses s)\<rparr>)
      | Reply (Some raw) \<Rightarrow>
          (case loads raw of
             None \<Rightarrow> (Inr None, s\<lparr>rs_read_errors := Suc (rs_read_errors s)\<rparr>)
           | Some (JObj kvs) \<Rightarrow> (Inr (Some kvs), s\<lparr>rs_hits := Suc (rs_hits s)\<rparr>)
           | Some _ \<Rightarrow> (Inr None, s\<lparr>rs_read_errors := Suc (rs_read_errors s)\<rparr>)))"

definition redis_plan_put ::
    "(string \<Rightarrow> string \<Rightarrow> int \<Rightarrow> bool redis_reply) \<Rightarrow> (json \<Rightarrow> string) \<Rightarrow> event_key
      \<Rightarrow> (string \<times> json) list \<Rightarrow> redis_plan_store \<Rightarrow> redis_plan_store" where
  "redis_plan_put client dumps k v s =
     (case client (plan_key_for (rs_prefix s) k) (dumps (JObj v)) (rs_ttl_ms s) of
        TransportError \<Rightarrow> s\<lparr>rs_write_errors := Suc (rs_write_errors s)\<rparr>
      | Reply stored \<Rightarrow>
          (if stored then s\<lparr>rs_stores := Suc (rs_stores s)\<rparr>
           else s\<lparr>rs_conflicts := Suc (rs_conflicts s)\<rparr>))"

text \<open>The decoder the injectivity of the record keys rests on.\<close>

definition unhex :: "char \<Rightarrow> nat" where
  "unhex c = (let n = of_char c in if n \<le> 57 then n - 48 else n - 55)"

fun unquote :: "string \<Rightarrow> string" where
  "unquote [] = []"
| "unquote (c # cs) =
     (if c = CHR ''%'' then
        (case cs of a # b # rest \<Rightarrow> char_of (16 * unhex a + unhex b) # unquote rest | _ \<Rightarrow> [])
      else c # unquote cs)"

lemma unhex_hex_digit: "n < 16 \<Longrightarrow> unhex (hex_digit n) = n"
  by (auto simp: unhex_def hex_digit_def)

lemma unquote_quote_char: "unquote (quote_char c @ s) = c # unquote s"
proof (cases "unreserved c")
  case True
  have "\<not> unreserved (CHR ''%'')" by (simp add: unreserved_def)
  then have "c \<noteq> CHR ''%''" using True by metis
  then show ?thesis using True by (simp add: quote_char_def)
next
  case False
  have "(of_char c :: nat) < 256" by (rule of_char_less_256)
  then have "(of_char c :: nat) div 16 < 16" by (simp add: less_mult_imp_div_less)
  then show ?thesis using False by (simp add: quote_char_def unhex_hex_digit)
qed

lemma unquote_quote: "unquote (quote s) = s"
  by (induction s) (simp_all add: quote_def unquote_quote_char)

lemma hex_digit_no_colon: "n < 16 \<Longrightarrow> hex_digit n \<noteq> CHR '':''"
proof -
  assume n: "n < 16"
  have "(of_char (hex_digit n) :: nat) = (if n < 10 then 48 + n else 55 + n)"
    using n by (simp add: hex_digit_def)
  then have "(of_char (hex_digit n) :: nat) \<noteq> 58" using n by (auto split: if_splits)
  then show ?thesis by auto
qed

lemma quote_no_colon: "CHR '':'' \<notin> set (quote s)"
proof -
  have "CHR '':'' \<notin> set (quote_char c)" for c
  proof (cases "unreserved c")
    case True
    have "\<not> unreserved (CHR '':'')" by (simp add: unreserved_def)
    then show ?thesis using True by (auto simp: quote_char_def)
  next
    case False
    have "(of_char c :: nat) < 256" by (rule of_char_less_256)
    then have "(of_char c :: nat) div 16 < 16" by (simp add: less_mult_imp_div_less)
    then show ?thesis using False hex_digit_no_colon by (auto simp: quote_char_def dest: sym)
  qed
  then show ?thesis by (auto simp: quote_def)
qed

lemma plan_key_for_inj: "plan_key_for p k = plan_key_for p j \<longleftrightarrow> k = j"
proof
  assume "plan_key_for p k = plan_key_for p j"
  then have "quote (fst k) @ CHR '':'' # quote (snd k) = quote (fst j) @ CHR '':'' # quote (snd j)"
    by (simp add: plan_key_for_def)
  then have "quote (fst k) = quote (fst j) \<and> quote (snd k) = quote (snd j)"
    by (rule split_at_sep) (rule quote_no_colon)+
  then show "k = j" by (metis unquote_quote prod_eqI)
qed simp

end
