(* ===== verification/Worker_Settings.thy ===== *)
theory Worker_Settings
  imports Prelude
begin

text \<open>
  The subscription vocabulary and the configuration of the command worker
  (class Settings, key_digest, CANONICAL_PLANS, PLAN_ALIASES and normalise_plan in
  command_worker.py).  The environment supplies the raw record; the field validators and the
  checks after construction are the functions here.  The SHA-256 digest is an argument wherever
  it is used.
\<close>

section \<open>Plans\<close>

definition key_digest :: "(string \<Rightarrow> string) \<Rightarrow> string \<Rightarrow> string" where
  "key_digest sha plaintext = sha (str_strip plaintext)"

definition CANONICAL_PLANS :: "string list" where
  "CANONICAL_PLANS = [''ENTERPRISE'', ''STANDARD'', ''COMMUNITY'']"

definition PLAN_ALIASES :: "(string \<times> string) list" where
  "PLAN_ALIASES =
     [(''SMALL_BUSINESS'', ''STANDARD''),
      (''SMALLBUSINESS'', ''STANDARD''),
      (''SMB'', ''STANDARD''),
      (''BUSINESS'', ''STANDARD''),
      (''FREE'', ''COMMUNITY''),
      (''OSS'', ''COMMUNITY'')]"

definition AUTONOMOUS_PLANS :: "string list" where
  "AUTONOMOUS_PLANS = [''ENTERPRISE'']"

text \<open>strip, upper, and the two replacements, as both services spell them.\<close>

definition fold_name :: "string \<Rightarrow> string" where
  "fold_name v = str_replace (CHR '' '') (CHR ''_'') (str_replace (CHR ''-'') (CHR ''_'') (str_upper (str_strip v)))"

definition normalise_plan :: "string \<Rightarrow> string" where
  "normalise_plan value =
     (let plan = fold_name value in
      case map_of PLAN_ALIASES plan of None \<Rightarrow> plan | Some p \<Rightarrow> p)"

definition fold_char :: "char \<Rightarrow> char" where
  "fold_char c = (if c = CHR ''-'' \<or> c = CHR '' '' then CHR ''_'' else c)"

lemma fold_char_cases: "fold_char c = CHR ''_'' \<or> fold_char c = c"
  by (simp add: fold_char_def)

lemma fold_char_underscore:
  "fold_char (CHR ''_'') = CHR ''_''" "upper_char (CHR ''_'') = CHR ''_''" "\<not> is_space (CHR ''_'')"
  by (simp_all add: fold_char_def upper_char_def is_space_def)

lemma fold_char_idem: "fold_char (fold_char c) = fold_char c"
  by (simp add: fold_char_def)

lemma fold_char_upper: "upper_char c = c \<Longrightarrow> upper_char (fold_char c) = fold_char c"
  using fold_char_cases [of c] fold_char_underscore by metis

lemma fold_char_space: "\<not> is_space c \<Longrightarrow> \<not> is_space (fold_char c)"
  using fold_char_cases [of c] fold_char_underscore by metis

lemmas fold_char_simps = fold_char_idem fold_char_upper fold_char_space

lemma fold_name_map: "fold_name v = map (\<lambda>c. fold_char (upper_char c)) (str_strip v)"
proof -
  have "str_replace (CHR '' '') (CHR ''_'') (str_replace (CHR ''-'') (CHR ''_'') t) = map fold_char t" for t
    by (induction t) (simp_all add: str_replace_def fold_char_def)
  then show ?thesis by (simp add: fold_name_def str_upper_def)
qed

lemma fold_name_fixpoint: "fold_name (fold_name v) = fold_name v"
proof -
  have keep: "\<not> is_space (fold_char (upper_char c))" if "\<not> is_space c" for c
    using that by (simp add: fold_char_simps is_space_upper_char)
  have "fold_name v = [] \<or> \<not> is_space (hd (fold_name v)) \<and> \<not> is_space (last (fold_name v))"
  proof (cases "str_strip v = []")
    case True
    then show ?thesis by (simp add: fold_name_map)
  next
    case False
    then show ?thesis using str_strip_ends [of v] keep by (simp add: fold_name_map hd_map last_map)
  qed
  then have "str_strip (fold_name v) = fold_name v" by (rule str_strip_id)
  then have "fold_name (fold_name v) = map (\<lambda>c. fold_char (upper_char c)) (fold_name v)"
    by (simp add: fold_name_map [of "fold_name v"])
  also have "\<dots> = fold_name v"
    by (simp add: fold_name_map fold_char_simps upper_char_idem)
  finally show ?thesis .
qed

lemma alias_target:
  assumes "map_of PLAN_ALIASES p = Some q"
  shows "fold_name q = q \<and> map_of PLAN_ALIASES q = None"
proof -
  have "q = ''STANDARD'' \<or> q = ''COMMUNITY''"
    using assms by (auto simp: PLAN_ALIASES_def split: if_splits)
  moreover have "fold_name ''STANDARD'' = ''STANDARD''" "fold_name ''COMMUNITY'' = ''COMMUNITY''"
    by code_simp+
  moreover have "map_of PLAN_ALIASES ''STANDARD'' = None" "map_of PLAN_ALIASES ''COMMUNITY'' = None"
    by code_simp+
  ultimately show ?thesis by auto
qed

lemma normalise_plan_fixpoint: "normalise_plan (normalise_plan v) = normalise_plan v"
  by (cases "map_of PLAN_ALIASES (fold_name v)")
    (simp_all add: normalise_plan_def fold_name_fixpoint alias_target)

section \<open>Settings\<close>

datatype interceptor_mode = ModeStub | ModeHttp

text \<open>Where a group without a committed offset starts to read.\<close>

datatype offset_reset = Earliest | Latest

record settings =
  s_log_level :: string
  s_http_port :: int
  s_kafka_bootstrap_servers :: string
  s_mutations_topic :: string
  s_commands_topic :: string
  s_commands_dlq_topic :: string
  s_consumer_group :: string
  s_consumer_workers :: int
  s_auto_offset_reset :: offset_reset
  s_kafka_session_timeout_ms :: int
  s_kafka_request_timeout_ms :: int
  s_kafka_max_poll_records :: int
  s_producer_linger_ms :: int
  s_consumer_restart_backoff_seconds :: rat
  s_license_header :: string
  s_license_key :: "string option"
  s_license_cache_ttl_seconds :: int
  s_license_cache_max_entries :: int
  s_allowed_plans :: string
  s_interceptor_mode :: interceptor_mode
  s_interceptor_url :: string
  s_interceptor_path :: string
  s_enterprise_interceptor_url :: string
  s_enterprise_interceptor_tiers :: string
  s_enterprise_license_key :: string
  s_interceptor_license_path :: string
  s_interceptor_timeout_seconds :: rat
  s_interceptor_connect_timeout_seconds :: rat
  s_interceptor_simulated_latency_ms :: int
  s_interceptor_max_concurrency :: int
  s_interceptor_max_rpm :: int
  s_interceptor_rate_margin :: rat
  s_interceptor_retry_after_cap_seconds :: rat
  s_interceptor_preflight :: bool
  s_interceptor_preflight_strict :: bool
  s_interceptor_preflight_attempts :: int
  s_max_attempts :: int
  s_retry_base_seconds :: rat
  s_retry_max_seconds :: rat
  s_transient_backoff_max_seconds :: rat
  s_max_commands :: int
  s_default_deadline_seconds :: int

text \<open>The bounds declared on the fields.\<close>

definition settings_fields_ok :: "settings \<Rightarrow> bool" where
  "settings_fields_ok s \<longleftrightarrow>
     1 \<le> s_http_port s \<and> s_http_port s \<le> 65535 \<and>
     0 \<le> s_consumer_workers s \<and> s_consumer_workers s \<le> 32 \<and>
     1000 \<le> s_kafka_session_timeout_ms s \<and> s_kafka_session_timeout_ms s \<le> 300000 \<and>
     1000 \<le> s_kafka_request_timeout_ms s \<and> s_kafka_request_timeout_ms s \<le> 300000 \<and>
     1 \<le> s_kafka_max_poll_records s \<and> s_kafka_max_poll_records s \<le> 500 \<and>
     0 \<le> s_producer_linger_ms s \<and> s_producer_linger_ms s \<le> 1000 \<and>
     0 < s_consumer_restart_backoff_seconds s \<and> s_consumer_restart_backoff_seconds s \<le> 60 \<and>
     1 \<le> s_license_cache_ttl_seconds s \<and> s_license_cache_ttl_seconds s \<le> 86400 \<and>
     1 \<le> s_license_cache_max_entries s \<and> s_license_cache_max_entries s \<le> 100000 \<and>
     0 < s_interceptor_timeout_seconds s \<and> s_interceptor_timeout_seconds s \<le> 300 \<and>
     0 < s_interceptor_connect_timeout_seconds s \<and> s_interceptor_connect_timeout_seconds s \<le> 60 \<and>
     0 \<le> s_interceptor_simulated_latency_ms s \<and> s_interceptor_simulated_latency_ms s \<le> 5000 \<and>
     1 \<le> s_interceptor_max_concurrency s \<and> s_interceptor_max_concurrency s \<le> 256 \<and>
     0 \<le> s_interceptor_max_rpm s \<and> s_interceptor_max_rpm s \<le> 600000 \<and>
     0 < s_interceptor_rate_margin s \<and> s_interceptor_rate_margin s \<le> 1 \<and>
     0 < s_interceptor_retry_after_cap_seconds s \<and> s_interceptor_retry_after_cap_seconds s \<le> 300 \<and>
     1 \<le> s_interceptor_preflight_attempts s \<and> s_interceptor_preflight_attempts s \<le> 100 \<and>
     1 \<le> s_max_attempts s \<and> s_max_attempts s \<le> 10 \<and>
     0 < s_retry_base_seconds s \<and> s_retry_base_seconds s \<le> 30 \<and>
     0 < s_retry_max_seconds s \<and> s_retry_max_seconds s \<le> 120 \<and>
     0 < s_transient_backoff_max_seconds s \<and> s_transient_backoff_max_seconds s \<le> 300 \<and>
     1 \<le> s_max_commands s \<and> s_max_commands s \<le> 20 \<and>
     1 \<le> s_default_deadline_seconds s \<and> s_default_deadline_seconds s \<le> 604800"

definition normalise_log_level :: "string \<Rightarrow> string raises" where
  "normalise_log_level value =
     (let level = str_upper (str_strip value) in
      if level \<notin> {''DEBUG'', ''INFO'', ''WARNING'', ''ERROR'', ''CRITICAL''} then Inl ValueError
      else Inr level)"

definition non_empty_topic :: "string \<Rightarrow> string raises" where
  "non_empty_topic value =
     (let topic = str_strip value in if topic = [] then Inl ValueError else Inr topic)"

definition trim_url :: "string \<Rightarrow> string" where
  "trim_url value = str_rstrip_char (CHR ''/'') (str_strip value)"

definition absolute_path :: "string \<Rightarrow> string raises" where
  "absolute_path value =
     (let path = str_strip value in if str_startswith path ''/'' then Inr path else Inl ValueError)"

definition bootstrap_servers :: "settings \<Rightarrow> string list" where
  "bootstrap_servers s =
     [str_strip item. item \<leftarrow> str_split (CHR '','') (s_kafka_bootstrap_servers s), str_strip item \<noteq> []]"

definition entitled_plans :: "settings \<Rightarrow> string set" where
  "entitled_plans s =
     set [normalise_plan item. item \<leftarrow> str_split (CHR '','') (s_allowed_plans s), str_strip item \<noteq> []]"

definition interceptor_endpoint :: "settings \<Rightarrow> string" where
  "interceptor_endpoint s = s_interceptor_url s @ s_interceptor_path s"

definition enterprise_endpoint :: "settings \<Rightarrow> string" where
  "enterprise_endpoint s =
     (if s_enterprise_interceptor_url s = [] then []
      else str_rstrip_char (CHR ''/'') (s_enterprise_interceptor_url s) @ s_interceptor_path s)"

definition enterprise_tiers :: "settings \<Rightarrow> string set" where
  "enterprise_tiers s =
     set [str_upper (str_strip tier). tier \<leftarrow> str_split (CHR '','') (s_enterprise_interceptor_tiers s),
            str_strip tier \<noteq> []]"

definition routes_to_enterprise :: "settings \<Rightarrow> string \<Rightarrow> bool" where
  "routes_to_enterprise s tier \<longleftrightarrow>
     enterprise_endpoint s \<noteq> [] \<and> str_upper (str_strip tier) \<in> enterprise_tiers s"

definition interceptor_license_endpoint :: "settings \<Rightarrow> string" where
  "interceptor_license_endpoint s = s_interceptor_url s @ s_interceptor_license_path s"

definition settings_post_init :: "settings \<Rightarrow> settings raises" where
  "settings_post_init s =
     (if s_commands_topic s = s_mutations_topic s then Inl ValueError
      else if s_commands_dlq_topic s = s_commands_topic s then Inl ValueError
      else if bootstrap_servers s = [] then Inl ValueError
      else if entitled_plans s = {} then Inl ValueError
      else if s_interceptor_mode s = ModeHttp \<and> s_license_key s = None then Inl ValueError
      else Inr s)"

text \<open>Construction: field bounds, field validators, then the cross-field checks.\<close>

definition make_settings :: "settings \<Rightarrow> settings raises" where
  "make_settings raw =
     (if \<not> settings_fields_ok raw then Inl ValidationErrorExn
      else bind_r (normalise_log_level (s_log_level raw)) (\<lambda>level.
           bind_r (non_empty_topic (s_mutations_topic raw)) (\<lambda>mutations.
           bind_r (non_empty_topic (s_commands_topic raw)) (\<lambda>commands.
           bind_r (non_empty_topic (s_commands_dlq_topic raw)) (\<lambda>dlq.
           bind_r (absolute_path (s_interceptor_path raw)) (\<lambda>path.
           bind_r (absolute_path (s_interceptor_license_path raw)) (\<lambda>license_path.
             settings_post_init
               (raw\<lparr>s_log_level := level, s_mutations_topic := mutations, s_commands_topic := commands,
                    s_commands_dlq_topic := dlq, s_interceptor_url := trim_url (s_interceptor_url raw),
                    s_interceptor_path := path, s_interceptor_license_path := license_path\<rparr>))))))))"

definition settings_wf :: "settings \<Rightarrow> bool" where
  "settings_wf s \<longleftrightarrow>
     settings_fields_ok s \<and>
     s_mutations_topic s \<noteq> [] \<and> s_commands_topic s \<noteq> [] \<and> s_commands_dlq_topic s \<noteq> [] \<and>
     s_commands_topic s \<noteq> s_mutations_topic s \<and> s_commands_dlq_topic s \<noteq> s_commands_topic s \<and>
     bootstrap_servers s \<noteq> [] \<and> entitled_plans s \<noteq> {} \<and>
     str_startswith (s_interceptor_path s) ''/'' \<and> str_startswith (s_interceptor_license_path s) ''/'' \<and>
     (s_interceptor_mode s = ModeHttp \<longrightarrow> s_license_key s \<noteq> None)"

lemma settings_post_init_Inr:
  "settings_post_init s = Inr t \<longleftrightarrow>
     t = s \<and> s_commands_topic s \<noteq> s_mutations_topic s \<and> s_commands_dlq_topic s \<noteq> s_commands_topic s \<and>
     bootstrap_servers s \<noteq> [] \<and> entitled_plans s \<noteq> {} \<and>
     \<not> (s_interceptor_mode s = ModeHttp \<and> s_license_key s = None)"
  by (auto simp: settings_post_init_def)

lemma make_settings_Inr:
  assumes "make_settings raw = Inr s"
  shows "settings_fields_ok raw \<and> settings_post_init s = Inr s \<and> settings_fields_ok s \<and>
    non_empty_topic (s_mutations_topic raw) = Inr (s_mutations_topic s) \<and>
    non_empty_topic (s_commands_topic raw) = Inr (s_commands_topic s) \<and>
    non_empty_topic (s_commands_dlq_topic raw) = Inr (s_commands_dlq_topic s) \<and>
    absolute_path (s_interceptor_path raw) = Inr (s_interceptor_path s) \<and>
    absolute_path (s_interceptor_license_path raw) = Inr (s_interceptor_license_path s)"
proof -
  obtain level m c d p l where ok: "settings_fields_ok raw"
    and v: "non_empty_topic (s_mutations_topic raw) = Inr m" "non_empty_topic (s_commands_topic raw) = Inr c"
      "non_empty_topic (s_commands_dlq_topic raw) = Inr d" "absolute_path (s_interceptor_path raw) = Inr p"
      "absolute_path (s_interceptor_license_path raw) = Inr l"
    and post: "settings_post_init (raw\<lparr>s_log_level := level, s_mutations_topic := m, s_commands_topic := c,
                    s_commands_dlq_topic := d, s_interceptor_url := trim_url (s_interceptor_url raw),
                    s_interceptor_path := p, s_interceptor_license_path := l\<rparr>) = Inr s"
    using assms by (auto simp: make_settings_def bind_r_Inr_iff split: if_splits)
  have s: "s = raw\<lparr>s_log_level := level, s_mutations_topic := m, s_commands_topic := c,
                    s_commands_dlq_topic := d, s_interceptor_url := trim_url (s_interceptor_url raw),
                    s_interceptor_path := p, s_interceptor_license_path := l\<rparr>"
    using post by (simp only: settings_post_init_Inr)
  have "settings_fields_ok s" using ok unfolding settings_fields_ok_def s by simp
  then show ?thesis using ok v post unfolding s by simp
qed

lemma make_settings_wf_raw:
  assumes "make_settings raw = Inr s"
  shows "settings_wf s"
proof -
  have t: "non_empty_topic x = Inr y \<Longrightarrow> y \<noteq> []" for x y
    by (auto simp: non_empty_topic_def Let_def split: if_splits)
  have p: "absolute_path x = Inr y \<Longrightarrow> str_startswith y ''/''" for x y
    unfolding absolute_path_def Let_def by (cases "str_startswith (str_strip x) ''/''") auto
  show ?thesis
    using make_settings_Inr [OF assms] t p by (auto simp: settings_wf_def settings_post_init_Inr)
qed

section \<open>Properties\<close>

text \<open>
  Folding a plan name is idempotent: whatever spelling a billing export uses, the stored name
  is a fixed point of normalise_plan and is never itself one of the legacy aliases.
\<close>
theorem normalise_plan_idempotent:
  "normalise_plan (normalise_plan v) = normalise_plan v \<and> map_of PLAN_ALIASES (normalise_plan v) = None"
proof (cases "map_of PLAN_ALIASES (fold_name v)")
  case None
  then show ?thesis by (simp add: normalise_plan_def fold_name_fixpoint)
next
  case (Some q)
  then show ?thesis using alias_target [OF Some] by (simp add: normalise_plan_def)
qed

text \<open>
  A configuration that is accepted is usable: the field bounds hold, the three topics are
  non-empty and the worker never consumes or dead-letters into its own command topic, at least one
  broker and one entitled plan are named, endpoint paths are absolute, and the HTTP mode has a key.
\<close>
theorem make_settings_wf:
  "make_settings raw = Inr s \<Longrightarrow> settings_wf s"
  by (rule make_settings_wf_raw)

definition default_settings :: settings where
  "default_settings =
     \<lparr>s_log_level = ''INFO'', s_http_port = 8082, s_kafka_bootstrap_servers = ''localhost:9092'',
      s_mutations_topic = ''ontology.mutations'', s_commands_topic = ''ontology.commands'',
      s_commands_dlq_topic = ''ontology.commands.dlq'', s_consumer_group = ''ontology-command-worker'',
      s_consumer_workers = 2, s_auto_offset_reset = Earliest,
      s_kafka_session_timeout_ms = 30000, s_kafka_request_timeout_ms = 40000,
      s_kafka_max_poll_records = 50, s_producer_linger_ms = 10, s_consumer_restart_backoff_seconds = 3,
      s_license_header = ''X-License-Key'', s_license_key = None, s_license_cache_ttl_seconds = 300,
      s_license_cache_max_entries = 1024, s_allowed_plans = ''STANDARD,ENTERPRISE'',
      s_interceptor_mode = ModeHttp, s_interceptor_url = ''http://ai-interceptor:8000'',
      s_interceptor_path = ''/v1/intercept'', s_enterprise_interceptor_url = [],
      s_enterprise_interceptor_tiers = ''ENTERPRISE'', s_enterprise_license_key = [],
      s_interceptor_license_path = ''/v1/license'', s_interceptor_timeout_seconds = 35,
      s_interceptor_connect_timeout_seconds = 5, s_interceptor_simulated_latency_ms = 15,
      s_interceptor_max_concurrency = 8, s_interceptor_max_rpm = 0, s_interceptor_rate_margin = 0.9,
      s_interceptor_retry_after_cap_seconds = 30, s_interceptor_preflight = True,
      s_interceptor_preflight_strict = False, s_interceptor_preflight_attempts = 10,
      s_max_attempts = 4, s_retry_base_seconds = 0.25, s_retry_max_seconds = 5,
      s_transient_backoff_max_seconds = 30, s_max_commands = 6, s_default_deadline_seconds = 900\<rparr>"

lemma default_fields_ok: "settings_fields_ok default_settings"
  by (simp add: settings_fields_ok_def default_settings_def)

lemma default_strings:
  "str_strip ''ontology.mutations'' = ''ontology.mutations''"
  "str_strip ''ontology.commands'' = ''ontology.commands''"
  "str_strip ''ontology.commands.dlq'' = ''ontology.commands.dlq''"
  "str_strip ''/v1/intercept'' = ''/v1/intercept''"
  "str_strip ''/v1/license'' = ''/v1/license''"
  "str_upper (str_strip ''INFO'') = ''INFO''"
  "trim_url ''http://ai-interceptor:8000'' = ''http://ai-interceptor:8000''"
  by code_simp+

definition keyed_settings :: "string option \<Rightarrow> settings" where
  "keyed_settings key = default_settings\<lparr>s_license_key := key\<rparr>"

lemma keyed_fields:
  "settings_fields_ok (keyed_settings key)"
  "s_license_key (keyed_settings key) = key"
  "s_license_header (keyed_settings key) = ''X-License-Key''"
  "s_interceptor_mode (keyed_settings key) = ModeHttp"
  using default_fields_ok
  by (simp_all add: settings_fields_ok_def keyed_settings_def default_settings_def)

lemma keyed_entitled: "entitled_plans (keyed_settings key) = {''STANDARD'', ''ENTERPRISE''}"
proof -
  have "[normalise_plan item. item \<leftarrow> str_split (CHR '','') ''STANDARD,ENTERPRISE'', str_strip item \<noteq> []] =
      [''STANDARD'', ''ENTERPRISE'']" by code_simp
  then show ?thesis by (simp add: entitled_plans_def keyed_settings_def default_settings_def)
qed

lemma keyed_make: "make_settings (keyed_settings key) =
    (if key = None then Inl ValueError else Inr (keyed_settings key))"
proof -
  have "bootstrap_servers default_settings \<noteq> []"
  proof -
    have "[str_strip item. item \<leftarrow> str_split (CHR '','') ''localhost:9092'', str_strip item \<noteq> []] =
        [''localhost:9092'']" by code_simp
    then show ?thesis by (simp add: bootstrap_servers_def default_settings_def)
  qed
  then have b: "bootstrap_servers (keyed_settings key) \<noteq> []"
    by (simp add: bootstrap_servers_def keyed_settings_def)
  have f: "s_log_level (keyed_settings key) = ''INFO''" "s_mutations_topic (keyed_settings key) = ''ontology.mutations''"
    "s_commands_topic (keyed_settings key) = ''ontology.commands''"
    "s_commands_dlq_topic (keyed_settings key) = ''ontology.commands.dlq''"
    "s_interceptor_path (keyed_settings key) = ''/v1/intercept''"
    "s_interceptor_license_path (keyed_settings key) = ''/v1/license''"
    "s_interceptor_url (keyed_settings key) = ''http://ai-interceptor:8000''"
    by (simp_all add: keyed_settings_def default_settings_def)
  let ?raw = "(keyed_settings key)\<lparr>s_log_level := ''INFO'', s_mutations_topic := ''ontology.mutations'',
      s_commands_topic := ''ontology.commands'', s_commands_dlq_topic := ''ontology.commands.dlq'',
      s_interceptor_url := ''http://ai-interceptor:8000'', s_interceptor_path := ''/v1/intercept'',
      s_interceptor_license_path := ''/v1/license''\<rparr>"
  have eq: "?raw = keyed_settings key"
    by (simp add: keyed_settings_def default_settings_def)
  have "make_settings (keyed_settings key) = settings_post_init ?raw"
    by (simp add: make_settings_def keyed_fields f normalise_log_level_def non_empty_topic_def
        absolute_path_def str_startswith_def default_strings)
  also have "\<dots> = settings_post_init (keyed_settings key)"
    by (rule arg_cong [OF eq])
  also have "\<dots> = (if key = None then Inl ValueError else Inr (keyed_settings key))"
    using b by (simp add: settings_post_init_def keyed_entitled keyed_fields f)
  finally show ?thesis .
qed

theorem make_settings_wf_witness: "settings_wf (keyed_settings (Some ''oo-live-enterprise-demo-key''))"
proof (rule make_settings_wf)
  show "make_settings (keyed_settings (Some ''oo-live-enterprise-demo-key'')) =
      Inr (keyed_settings (Some ''oo-live-enterprise-demo-key''))"
    by (simp add: keyed_make)
qed

end
