(* ===== verification/Licensing.thy ===== *)
theory Licensing
  imports Worker_Settings
begin

text \<open>
  The commercial gatekeeper of the command worker: subscriptions, their registry, the TTL and LRU
  bounded cache in front of it, and the four checks every payload passes (Subscription,
  SubscriptionRegistry, LicenseCache and LicenseGatekeeper in command_worker.py).

  The interface is the locale cached_lookup: a lookup that goes through a cache whose state it
  threads, with the law that the answer is the one of the backing store.  The gatekeeper's
  correctness is proved in it once; the interpretation at the end is on LicenseCache.
\<close>

section \<open>Subscriptions\<close>

text \<open>
  A datetime that carries an offset is compared with the clock; one without raises TypeError in
  that comparison.
\<close>

datatype py_datetime = Aware rat | Naive rat

record subscription =
  sub_key_id :: string
  sub_key_digest :: string
  sub_tenant :: string
  sub_plan :: string
  sub_seats :: int
  sub_active :: bool
  sub_expires_at :: py_datetime

definition datetime_expired :: "rat \<Rightarrow> py_datetime \<Rightarrow> bool raises" where
  "datetime_expired now e = (case e of Aware t \<Rightarrow> Inr (now \<ge> t) | Naive _ \<Rightarrow> Inl TypeErrorExn)"

definition is_expired :: "rat \<Rightarrow> subscription \<Rightarrow> bool raises" where
  "is_expired now s = datetime_expired now (sub_expires_at s)"

definition autonomous_execution_allowed :: "subscription \<Rightarrow> bool" where
  "autonomous_execution_allowed s \<longleftrightarrow> sub_plan s \<in> set AUTONOMOUS_PLANS"

section \<open>The registry\<close>

type_synonym sub_registry = "(string, subscription) odict"

text \<open>The dictionary comprehension: a later subscription with the same digest replaces an earlier one.\<close>

definition registry_of :: "subscription list \<Rightarrow> sub_registry" where
  "registry_of subs = fold (\<lambda>s d. AList.update (sub_key_digest s) s d) subs []"

definition registry_lookup :: "sub_registry \<Rightarrow> string \<Rightarrow> subscription option" where
  "registry_lookup reg digest =
     (case map_of reg digest of
        None \<Rightarrow> None
      | Some record \<Rightarrow> if sub_key_digest record = digest then Some record else None)"

datatype file_text = FileUnreadable | FileNotUtf8 | FileNotJson | FileJson json

definition load_subscription ::
    "(string \<Rightarrow> string) \<Rightarrow> (json \<Rightarrow> string) \<Rightarrow> (string \<Rightarrow> py_datetime option) \<Rightarrow> json \<Rightarrow> subscription raises" where
  "load_subscription sha repr_of fromisoformat entry =
     (case entry of
        JObj e \<Rightarrow>
          bind_r (py_or (j_get e ''key_digest'')
                    (bind_r (j_item e ''key'') (\<lambda>k. case k of JStr p \<Rightarrow> Inr (JStr (key_digest sha p))
                                                         | _ \<Rightarrow> Inl AttributeErrorExn))) (\<lambda>digest.
          bind_r (py_or (j_get e ''plan'') (j_item e ''tier'')) (\<lambda>level.
          bind_r (j_item e ''key_id'') (\<lambda>key_id.
          bind_r (j_item e ''tenant'') (\<lambda>tenant.
          bind_r (py_int (j_get_default e ''seats'' (JInt 1))) (\<lambda>seats.
          bind_r (j_item e ''expires_at'') (\<lambda>expires.
          bind_r (case expires of JStr t \<Rightarrow> (case fromisoformat t of None \<Rightarrow> Inl ValueError | Some x \<Rightarrow> Inr x)
                              | _ \<Rightarrow> Inl TypeErrorExn) (\<lambda>expires_at.
            Inr \<lparr>sub_key_id = py_str repr_of key_id,
                 sub_key_digest = py_str repr_of digest,
                 sub_tenant = py_str repr_of tenant,
                 sub_plan = normalise_plan (py_str repr_of level),
                 sub_seats = seats,
                 sub_active = py_truthy (j_get_default e ''active'' (JBool True)),
                 sub_expires_at = expires_at\<rparr>)))))))
      | _ \<Rightarrow> Inl AttributeErrorExn)"

definition registry_from_file ::
    "(string \<Rightarrow> string) \<Rightarrow> (json \<Rightarrow> string) \<Rightarrow> (string \<Rightarrow> py_datetime option) \<Rightarrow> file_text \<Rightarrow> sub_registry raises" where
  "registry_from_file sha repr_of fromisoformat file =
     (case file of
        FileUnreadable \<Rightarrow> Inl RuntimeErrorExn
      | FileNotUtf8 \<Rightarrow> Inl ValueError
      | FileNotJson \<Rightarrow> Inl RuntimeErrorExn
      | FileJson (JList raw) \<Rightarrow>
          bind_r (map_r (\<lambda>entry. case load_subscription sha repr_of fromisoformat entry of
                                   Inl _ \<Rightarrow> Inl RuntimeErrorExn | Inr s \<Rightarrow> Inr s) raw)
                 (\<lambda>subs. Inr (registry_of subs))
      | FileJson _ \<Rightarrow> Inl RuntimeErrorExn)"

definition fixture_list :: "(string \<Rightarrow> string) \<Rightarrow> rat \<Rightarrow> subscription list" where
  "fixture_list sha now =
     (let far_future = Aware (now + 365 * 86400); yesterday = Aware (now - 86400) in
      [\<lparr>sub_key_id = ''lic_enterprise_demo'', sub_key_digest = key_digest sha ''oo-live-enterprise-demo-key'',
        sub_tenant = ''northwind-aerospace'', sub_plan = ''ENTERPRISE'', sub_seats = 500,
        sub_active = True, sub_expires_at = far_future\<rparr>,
       \<lparr>sub_key_id = ''lic_standard_demo'', sub_key_digest = key_digest sha ''oo-live-standard-demo-key'',
        sub_tenant = ''rotterdam-polymers'', sub_plan = ''STANDARD'', sub_seats = 25,
        sub_active = True, sub_expires_at = far_future\<rparr>,
       \<lparr>sub_key_id = ''lic_community_demo'', sub_key_digest = key_digest sha ''oo-live-community-demo-key'',
        sub_tenant = ''community-user'', sub_plan = ''COMMUNITY'', sub_seats = 1,
        sub_active = True, sub_expires_at = far_future\<rparr>,
       \<lparr>sub_key_id = ''lic_expired_demo'', sub_key_digest = key_digest sha ''oo-live-expired-demo-key'',
        sub_tenant = ''lapsed-customer'', sub_plan = ''STANDARD'', sub_seats = 25,
        sub_active = True, sub_expires_at = yesterday\<rparr>,
       \<lparr>sub_key_id = ''lic_suspended_demo'', sub_key_digest = key_digest sha ''oo-live-suspended-demo-key'',
        sub_tenant = ''arrears-industrial'', sub_plan = ''STANDARD'', sub_seats = 25,
        sub_active = False, sub_expires_at = far_future\<rparr>])"

definition fixtures :: "(string \<Rightarrow> string) \<Rightarrow> rat \<Rightarrow> sub_registry" where
  "fixtures sha now = registry_of (fixture_list sha now)"

section \<open>The cache\<close>

record license_cache =
  lc_registry :: sub_registry
  lc_ttl :: rat
  lc_max_entries :: nat
  lc_entries :: "(string, subscription option \<times> rat) odict"
  lc_hits :: nat
  lc_misses :: nat
  lc_evictions :: nat

definition license_cache_init :: "sub_registry \<Rightarrow> rat \<Rightarrow> nat \<Rightarrow> license_cache" where
  "license_cache_init reg ttl max_entries =
     \<lparr>lc_registry = reg, lc_ttl = ttl, lc_max_entries = max_entries, lc_entries = [],
      lc_hits = 0, lc_misses = 0, lc_evictions = 0\<rparr>"

definition license_cache_miss :: "rat \<Rightarrow> string \<Rightarrow> license_cache \<Rightarrow> subscription option \<times> license_cache" where
  "license_cache_miss now digest c =
     (let subscription = registry_lookup (lc_registry c) digest;
          filled = od_move_to_end digest
                     (AList.update digest (subscription, now + lc_ttl c) (lc_entries c));
          kept = od_evict (lc_max_entries c) filled
      in (subscription,
          c\<lparr>lc_entries := kept, lc_misses := Suc (lc_misses c),
            lc_evictions := lc_evictions c + (length filled - length kept)\<rparr>))"

definition license_cache_resolve ::
    "rat \<Rightarrow> string \<Rightarrow> license_cache \<Rightarrow> (subscription option \<times> bool) \<times> license_cache" where
  "license_cache_resolve now digest c =
     (case map_of (lc_entries c) digest of
        Some entry \<Rightarrow>
          if snd entry > now then
            ((fst entry, True),
             c\<lparr>lc_entries := od_move_to_end digest (lc_entries c), lc_hits := Suc (lc_hits c)\<rparr>)
          else (let (s, c') = license_cache_miss now digest c in ((s, False), c'))
      | None \<Rightarrow> (let (s, c') = license_cache_miss now digest c in ((s, False), c')))"

definition license_cache_invalidate :: "string \<Rightarrow> license_cache \<Rightarrow> license_cache" where
  "license_cache_invalidate digest c = c\<lparr>lc_entries := AList.delete digest (lc_entries c)\<rparr>"

record cache_stats =
  st_entries :: nat
  st_max_entries :: nat
  st_ttl_seconds :: rat
  st_hits :: nat
  st_misses :: nat
  st_evictions :: nat
  st_hit_ratio :: rat
  st_registry_size :: nat

definition license_cache_stats :: "license_cache \<Rightarrow> cache_stats" where
  "license_cache_stats c =
     (let total = lc_hits c + lc_misses c in
      \<lparr>st_entries = length (lc_entries c), st_max_entries = lc_max_entries c,
       st_ttl_seconds = lc_ttl c, st_hits = lc_hits c, st_misses = lc_misses c,
       st_evictions = lc_evictions c,
       st_hit_ratio = (if total \<noteq> 0 then py_round (of_nat (lc_hits c) / of_nat total) 6 else 0),
       st_registry_size = length (lc_registry c)\<rparr>)"

section \<open>The gatekeeper\<close>

text \<open>The exceptions authorize lets through: the structured rejection with its code, or another one.\<close>

datatype auth_error = LicenseRejected string | AuthRaised py_exn

record gatekeeper =
  gk_settings :: settings
  gk_cache :: license_cache

definition gk_default_key :: "gatekeeper \<Rightarrow> string option" where
  "gk_default_key g = s_license_key (gk_settings g)"

definition key_fields :: "string \<Rightarrow> string list" where
  "key_fields header =
     concat (map (\<lambda>f. [f, str_lower f]) [''license_key'', ''licence_key'', ''key'', header])"

definition key_candidates :: "string \<Rightarrow> (string \<times> json) list \<Rightarrow> json list" where
  "key_candidates header payload =
     [j_get payload ''license_key'', j_get payload ''licence_key''] @
     concat (map (\<lambda>name. case j_get payload name of
                           JObj container \<Rightarrow> map (j_get container) (key_fields header)
                         | _ \<Rightarrow> [])
               [''license'', ''licence'', ''headers'', ''meta''])"

fun first_key :: "json list \<Rightarrow> string option" where
  "first_key [] = None"
| "first_key (JStr s # cs) = (if str_strip s \<noteq> [] then Some (str_strip s) else first_key cs)"
| "first_key (c # cs) = first_key cs"

definition extract_key :: "settings \<Rightarrow> (string \<times> json) list \<Rightarrow> bool \<Rightarrow> string option" where
  "extract_key s payload allow_fallback =
     (case first_key (key_candidates (s_license_header s) payload) of
        Some k \<Rightarrow> Some k
      | None \<Rightarrow>
          (case s_license_key s of
             Some k \<Rightarrow> if allow_fallback \<and> str_strip k \<noteq> [] then Some (str_strip k) else None
           | None \<Rightarrow> None))"

text \<open>The checks after the lookup: authenticity, liveness, entitlement.\<close>

definition check_subscription ::
    "settings \<Rightarrow> rat \<Rightarrow> subscription option \<Rightarrow> auth_error + subscription" where
  "check_subscription s now found =
     (case found of
        None \<Rightarrow> Inl (LicenseRejected ''license_key_invalid'')
      | Some subscription \<Rightarrow>
          if \<not> sub_active subscription then Inl (LicenseRejected ''license_suspended'')
          else (case is_expired now subscription of
                  Inl e \<Rightarrow> Inl (AuthRaised e)
                | Inr True \<Rightarrow> Inl (LicenseRejected ''license_expired'')
                | Inr False \<Rightarrow>
                    if sub_plan subscription \<notin> entitled_plans s
                    then Inl (LicenseRejected ''plan_not_entitled'')
                    else Inr subscription))"

text \<open>
  The monotonic clock of the cache and the wall clock of the expiry check are separate arguments.
\<close>

definition authorize ::
    "(string \<Rightarrow> string) \<Rightarrow> rat \<Rightarrow> rat \<Rightarrow> json \<Rightarrow> bool \<Rightarrow> gatekeeper
      \<Rightarrow> (auth_error + subscription) \<times> gatekeeper" where
  "authorize sha mono_now now payload allow_fallback g =
     (case payload of
        JObj p \<Rightarrow>
          (case extract_key (gk_settings g) p allow_fallback of
             None \<Rightarrow> (Inl (LicenseRejected ''license_key_missing''), g)
           | Some presented \<Rightarrow>
               (let (found, c) = license_cache_resolve mono_now (key_digest sha presented) (gk_cache g)
                in (check_subscription (gk_settings g) now (fst found), g\<lparr>gk_cache := c\<rparr>)))
      | _ \<Rightarrow> (Inl (LicenseRejected ''payload_not_an_object''), g))"

definition build_gatekeeper ::
    "(string \<Rightarrow> string) \<Rightarrow> rat \<Rightarrow> sub_registry raises option \<Rightarrow> settings \<Rightarrow> gatekeeper raises" where
  "build_gatekeeper sha now file s =
     bind_r (case file of Some reg \<Rightarrow> reg | None \<Rightarrow> Inr (fixtures sha now)) (\<lambda>registry.
       Inr \<lparr>gk_settings = s,
            gk_cache = license_cache_init registry (of_int (s_license_cache_ttl_seconds s))
                         (nat (s_license_cache_max_entries s))\<rparr>)"

definition validate_enterprise_license ::
    "(string \<Rightarrow> string) \<Rightarrow> rat \<Rightarrow> rat \<Rightarrow> json \<Rightarrow> gatekeeper \<Rightarrow> (auth_error + bool) \<times> gatekeeper" where
  "validate_enterprise_license sha mono_now now payload g =
     (case authorize sha mono_now now payload True g of
        (Inl e, g') \<Rightarrow> (Inl e, g')
      | (Inr _, g') \<Rightarrow> (Inr True, g'))"

section \<open>The cache answers as the registry does\<close>

locale cached_lookup =
  fixes resolve :: "rat \<Rightarrow> 'k \<Rightarrow> 'c \<Rightarrow> ('v option \<times> bool) \<times> 'c"
    and invalidate :: "'k \<Rightarrow> 'c \<Rightarrow> 'c"
    and backing :: "'c \<Rightarrow> 'k \<Rightarrow> 'v option"
    and ok :: "'c \<Rightarrow> bool"
  assumes resolve_value: "ok c \<Longrightarrow> fst (fst (resolve t k c)) = backing c k"
    and resolve_ok: "ok c \<Longrightarrow> ok (snd (resolve t k c))"
    and resolve_backing: "backing (snd (resolve t k c)) = backing c"
    and invalidate_ok: "ok c \<Longrightarrow> ok (invalidate k c)"
    and invalidate_backing: "backing (invalidate k c) = backing c"
begin

lemma resolve_then_resolve:
  "ok c \<Longrightarrow> fst (fst (resolve t' j (snd (resolve t k c)))) = backing c j"
  by (simp add: resolve_value resolve_ok resolve_backing)

lemma invalidate_then_resolve:
  "ok c \<Longrightarrow> fst (fst (resolve t j (invalidate k c))) = backing c j"
  by (simp add: resolve_value invalidate_ok invalidate_backing)

end

definition entries_agree :: "license_cache \<Rightarrow> bool" where
  "entries_agree c \<longleftrightarrow>
     list_all (\<lambda>e. fst (snd e) = registry_lookup (lc_registry c) (fst e)) (lc_entries c)"

definition license_cache_ok :: "license_cache \<Rightarrow> bool" where
  "license_cache_ok c \<longleftrightarrow>
     entries_agree c \<and> distinct (od_keys (lc_entries c)) \<and> length (lc_entries c) \<le> lc_max_entries c"

lemma entries_agree_lookup:
  "entries_agree c \<Longrightarrow> map_of (lc_entries c) d = Some e \<Longrightarrow> fst e = registry_lookup (lc_registry c) d"
  unfolding entries_agree_def list_all_iff by (metis fst_conv map_of_SomeD snd_conv)

lemma set_delete_subset: "set (AList.delete k d) \<subseteq> set d"
  by (simp add: AList.delete_eq)

lemma set_move_subset: "set (od_move_to_end k d) \<subseteq> set d"
proof (cases "map_of d k")
  case (Some v)
  then have "(k, v) \<in> set d" by (rule map_of_SomeD)
  then show ?thesis using Some set_delete_subset [of k d] by (auto simp: od_move_to_end_def)
qed (simp add: od_move_to_end_def)

lemma length_move: "distinct (od_keys d) \<Longrightarrow> length (od_move_to_end k d) = length d"
proof (cases "map_of d k")
  case (Some v)
  assume "distinct (od_keys d)"
  moreover have "d \<noteq> []" using Some by auto
  ultimately show ?thesis using Some by (simp add: od_move_to_end_def length_delete_present)
qed (simp add: od_move_to_end_def)

lemma license_cache_miss_ok:
  assumes "license_cache_ok c"
  shows "license_cache_ok (snd (license_cache_miss now d c))"
proof -
  let ?new = "AList.delete d (lc_entries c) @ [(d, registry_lookup (lc_registry c) d, now + lc_ttl c)]"
  have e: "lc_entries (snd (license_cache_miss now d c)) = drop (length ?new - lc_max_entries c) ?new"
    by (simp add: license_cache_miss_def od_set_then_move od_evict_drop Let_def)
  have r: "lc_registry (snd (license_cache_miss now d c)) = lc_registry c"
    "lc_max_entries (snd (license_cache_miss now d c)) = lc_max_entries c"
    by (simp_all add: license_cache_miss_def Let_def)
  have "list_all (\<lambda>e. fst (snd e) = registry_lookup (lc_registry c) (fst e)) ?new"
    using assms set_delete_subset [of d "lc_entries c"]
    by (auto simp: license_cache_ok_def entries_agree_def list_all_iff)
  then have "entries_agree (snd (license_cache_miss now d c))"
    unfolding entries_agree_def e r list_all_iff by (meson in_set_dropD)
  moreover have "od_keys ?new = filter (\<lambda>j. j \<noteq> d) (od_keys (lc_entries c)) @ [d]"
    by (simp add: od_keys_append od_keys_delete od_keys_Cons)
  then have "distinct (od_keys ?new)" using assms by (simp add: license_cache_ok_def)
  then have "distinct (od_keys (drop (length ?new - lc_max_entries c) ?new))"
    by (rule distinct_od_keys_drop)
  moreover have "length (drop (length ?new - lc_max_entries c) ?new) \<le> lc_max_entries c"
    by simp
  ultimately show ?thesis
    unfolding license_cache_ok_def e r by blast
qed

lemma license_cache_resolve_ok:
  assumes "license_cache_ok c"
  shows "license_cache_ok (snd (license_cache_resolve now d c))"
proof (cases "\<exists>e. map_of (lc_entries c) d = Some e \<and> snd e > now")
  case True
  then have "snd (license_cache_resolve now d c) =
      c\<lparr>lc_entries := od_move_to_end d (lc_entries c), lc_hits := Suc (lc_hits c)\<rparr>"
    by (auto simp: license_cache_resolve_def)
  then show ?thesis
    using assms set_move_subset [of d "lc_entries c"]
    by (auto simp: license_cache_ok_def entries_agree_def list_all_iff length_move)
next
  case False
  then have "snd (license_cache_resolve now d c) = snd (license_cache_miss now d c)"
    by (auto simp: license_cache_resolve_def split: option.splits prod.splits)
  then show ?thesis using license_cache_miss_ok [OF assms] by simp
qed

lemma license_cache_resolve_value:
  "license_cache_ok c \<Longrightarrow> fst (fst (license_cache_resolve now d c)) = registry_lookup (lc_registry c) d"
  by (auto simp: license_cache_resolve_def license_cache_miss_def license_cache_ok_def Let_def
      split: option.splits dest: entries_agree_lookup)

lemma license_cache_resolve_registry:
  "lc_registry (snd (license_cache_resolve now d c)) = lc_registry c"
  "lc_max_entries (snd (license_cache_resolve now d c)) = lc_max_entries c"
  by (auto simp: license_cache_resolve_def license_cache_miss_def Let_def split: option.splits)

lemma license_cache_invalidate_ok:
  assumes "license_cache_ok c"
  shows "license_cache_ok (license_cache_invalidate d c)"
proof -
  have "length (AList.delete d (lc_entries c)) \<le> length (lc_entries c)"
    by (simp add: AList.delete_eq)
  then show ?thesis
    using assms set_delete_subset [of d "lc_entries c"]
    by (auto simp: license_cache_ok_def license_cache_invalidate_def entries_agree_def list_all_iff)
qed

interpretation cached: cached_lookup license_cache_resolve license_cache_invalidate
    "\<lambda>c. registry_lookup (lc_registry c)" license_cache_ok
  by unfold_locales
    (simp_all add: license_cache_resolve_value license_cache_resolve_ok license_cache_resolve_registry
      license_cache_invalidate_ok, simp add: license_cache_invalidate_def)

text \<open>Counters: each resolution is a hit or a miss, and a miss evicts at most one entry.\<close>

lemma length_evict: "length (od_evict n d) = min n (length d)"
  by (auto simp: od_evict_drop)

lemma license_cache_resolve_counts:
  assumes "license_cache_ok c"
  shows "lc_hits (snd (license_cache_resolve now d c)) + lc_misses (snd (license_cache_resolve now d c)) =
      Suc (lc_hits c + lc_misses c)"
    and "lc_evictions c \<le> lc_misses c \<Longrightarrow>
      lc_evictions (snd (license_cache_resolve now d c)) \<le> lc_misses (snd (license_cache_resolve now d c))"
proof -
  have "length (AList.delete d (lc_entries c)) \<le> length (lc_entries c)"
    by (simp add: AList.delete_eq)
  then have "length (AList.delete d (lc_entries c)) \<le> lc_max_entries c"
    using assms unfolding license_cache_ok_def by linarith
  then show "lc_evictions c \<le> lc_misses c \<Longrightarrow>
      lc_evictions (snd (license_cache_resolve now d c)) \<le> lc_misses (snd (license_cache_resolve now d c))"
    by (auto simp: license_cache_resolve_def license_cache_miss_def Let_def od_set_then_move length_evict
        split: option.splits)
  show "lc_hits (snd (license_cache_resolve now d c)) + lc_misses (snd (license_cache_resolve now d c)) =
      Suc (lc_hits c + lc_misses c)"
    by (auto simp: license_cache_resolve_def license_cache_miss_def Let_def split: option.splits)
qed

datatype cache_op = Resolve rat string | Invalidate string

fun run_cache :: "cache_op list \<Rightarrow> license_cache \<Rightarrow> subscription option list \<times> license_cache" where
  "run_cache [] c = ([], c)"
| "run_cache (Resolve now d # ops) c =
     (let (found, c1) = license_cache_resolve now d c; (rest, c2) = run_cache ops c1
      in (fst found # rest, c2))"
| "run_cache (Invalidate d # ops) c = run_cache ops (license_cache_invalidate d c)"

fun resolved_digests :: "cache_op list \<Rightarrow> string list" where
  "resolved_digests [] = []"
| "resolved_digests (Resolve now d # ops) = d # resolved_digests ops"
| "resolved_digests (Invalidate d # ops) = resolved_digests ops"

lemma license_cache_init_ok: "license_cache_ok (license_cache_init reg ttl n)"
  by (simp add: license_cache_ok_def license_cache_init_def entries_agree_def od_keys_def)

lemma run_cache_correct:
  assumes "license_cache_ok c" "lc_evictions c \<le> lc_misses c"
  shows "fst (run_cache ops c) = map (registry_lookup (lc_registry c)) (resolved_digests ops) \<and>
    license_cache_ok (snd (run_cache ops c)) \<and>
    lc_max_entries (snd (run_cache ops c)) = lc_max_entries c \<and>
    lc_hits (snd (run_cache ops c)) + lc_misses (snd (run_cache ops c)) =
      lc_hits c + lc_misses c + length (resolved_digests ops) \<and>
    lc_evictions (snd (run_cache ops c)) \<le> lc_misses (snd (run_cache ops c))"
  using assms
proof (induction ops c rule: run_cache.induct)
  case (2 now d ops c)
  let ?r = "license_cache_resolve now d c"
  have split: "fst (run_cache (Resolve now d # ops) c) = fst (fst ?r) # fst (run_cache ops (snd ?r))"
    "snd (run_cache (Resolve now d # ops) c) = snd (run_cache ops (snd ?r))"
    by (simp_all add: case_prod_beta Let_def)
  show ?case
    unfolding split
    using 2(1) [of ?r "fst ?r" "snd ?r"] 2(2,3) license_cache_resolve_ok [OF 2(2), of now d]
      license_cache_resolve_counts [OF 2(2), of now d]
    by (simp add: license_cache_resolve_value license_cache_resolve_registry)
next
  case (3 d ops c)
  then show ?case
    using license_cache_invalidate_ok [of c d] by (simp add: license_cache_invalidate_def)
qed simp

section \<open>The decision of the gatekeeper\<close>

text \<open>
  The specification: one decision over the registry itself, with no cache in it.
\<close>

definition authorize_spec ::
    "(string \<Rightarrow> string) \<Rightarrow> sub_registry \<Rightarrow> settings \<Rightarrow> rat \<Rightarrow> json \<Rightarrow> bool \<Rightarrow> auth_error + subscription" where
  "authorize_spec sha reg s now payload allow_fallback =
     (case payload of
        JObj p \<Rightarrow>
          (case extract_key s p allow_fallback of
             None \<Rightarrow> Inl (LicenseRejected ''license_key_missing'')
           | Some presented \<Rightarrow> check_subscription s now (registry_lookup reg (key_digest sha presented)))
      | _ \<Rightarrow> Inl (LicenseRejected ''payload_not_an_object''))"

lemma authorize_spec_agrees:
  assumes "license_cache_ok (gk_cache g)"
  shows "fst (authorize sha m now payload fb g) =
    authorize_spec sha (lc_registry (gk_cache g)) (gk_settings g) now payload fb"
  using license_cache_resolve_value [OF assms]
  by (auto simp: authorize_def authorize_spec_def case_prod_beta Let_def split: json.splits option.splits)

lemma authorize_keeps:
  assumes "license_cache_ok (gk_cache g)"
  shows "license_cache_ok (gk_cache (snd (authorize sha m now payload fb g))) \<and>
    lc_registry (gk_cache (snd (authorize sha m now payload fb g))) = lc_registry (gk_cache g) \<and>
    gk_settings (snd (authorize sha m now payload fb g)) = gk_settings g"
  using license_cache_resolve_ok [OF assms] assms license_cache_resolve_registry
  by (auto simp: authorize_def case_prod_beta Let_def split: json.splits option.splits)

lemma first_key_Some:
  "first_key cs = Some k \<Longrightarrow> \<exists>raw. JStr raw \<in> set cs \<and> k = str_strip raw \<and> k \<noteq> []"
  by (induction cs rule: first_key.induct) (auto split: if_splits)

lemma check_subscription_Inr:
  "check_subscription s now found = Inr sub \<longleftrightarrow>
     found = Some sub \<and> sub_active sub \<and> (\<exists>t. sub_expires_at sub = Aware t \<and> now < t) \<and>
     sub_plan sub \<in> entitled_plans s"
  by (auto simp: check_subscription_def is_expired_def datetime_expired_def
      split: option.splits py_datetime.splits if_splits bool.splits)

lemma map_of_registry_of:
  "map_of (fold (\<lambda>s d. AList.update (sub_key_digest s) s d) subs d0) k =
     (case map_of (map (\<lambda>s. (sub_key_digest s, s)) (rev subs)) k of Some s \<Rightarrow> Some s | None \<Rightarrow> map_of d0 k)"
  by (induction subs arbitrary: d0) (auto simp: update_conv' map_add_def split: option.splits)

lemma registry_lookup_registry_of:
  "registry_lookup (registry_of subs) k = find (\<lambda>s. sub_key_digest s = k) (rev subs)"
proof -
  have m: "map_of (map (\<lambda>s. (sub_key_digest s, s)) xs) k = find (\<lambda>s. sub_key_digest s = k) xs" for xs
    by (induction xs) auto
  have d: "find (\<lambda>s. sub_key_digest s = k) xs = Some r \<Longrightarrow> sub_key_digest r = k" for xs r
    by (auto simp: find_Some_iff)
  show ?thesis
    by (cases "find (\<lambda>s. sub_key_digest s = k) (rev subs)")
      (auto simp: registry_lookup_def registry_of_def map_of_registry_of m dest: d)
qed

section \<open>Properties\<close>

text \<open>A gatekeeper after any history of lookups and invalidations.\<close>

definition gatekeeper_after :: "settings \<Rightarrow> sub_registry \<Rightarrow> rat \<Rightarrow> nat \<Rightarrow> cache_op list \<Rightarrow> gatekeeper" where
  "gatekeeper_after s reg ttl n ops =
     \<lparr>gk_settings = s, gk_cache = snd (run_cache ops (license_cache_init reg ttl n))\<rparr>"

lemma run_cache_registry: "lc_registry (snd (run_cache ops c)) = lc_registry c"
proof (induction ops arbitrary: c)
  case (Cons op ops)
  then show ?case
    by (cases op) (simp_all add: case_prod_beta Let_def license_cache_resolve_registry
        license_cache_invalidate_def)
qed simp

lemma gatekeeper_after_ok:
  "license_cache_ok (gk_cache (gatekeeper_after s reg ttl n ops))"
  "lc_registry (gk_cache (gatekeeper_after s reg ttl n ops)) = reg"
  "gk_settings (gatekeeper_after s reg ttl n ops) = s"
proof -
  have "lc_evictions (license_cache_init reg ttl n) \<le> lc_misses (license_cache_init reg ttl n)"
    by (simp add: license_cache_init_def)
  then show "license_cache_ok (gk_cache (gatekeeper_after s reg ttl n ops))"
    using run_cache_correct [OF license_cache_init_ok] by (simp add: gatekeeper_after_def)
qed (simp_all add: gatekeeper_after_def run_cache_registry, simp add: license_cache_init_def)

text \<open>
  C19: The licence cache is transparent and bounded.  After any sequence of lookups and
  invalidations, whatever the clock readings, the answers are those of the registry, at most
  max_entries entries are held, every lookup was counted once as a hit or a miss, and evictions
  never exceed misses.
\<close>
theorem license_cache_transparent:
  "fst (run_cache ops (license_cache_init reg ttl n)) = map (registry_lookup reg) (resolved_digests ops) \<and>
   length (lc_entries (snd (run_cache ops (license_cache_init reg ttl n)))) \<le> n \<and>
   lc_hits (snd (run_cache ops (license_cache_init reg ttl n))) +
     lc_misses (snd (run_cache ops (license_cache_init reg ttl n))) = length (resolved_digests ops) \<and>
   lc_evictions (snd (run_cache ops (license_cache_init reg ttl n))) \<le>
     lc_misses (snd (run_cache ops (license_cache_init reg ttl n)))"
proof -
  have z: "lc_evictions (license_cache_init reg ttl n) = 0" "lc_misses (license_cache_init reg ttl n) = 0"
    "lc_hits (license_cache_init reg ttl n) = 0" "lc_registry (license_cache_init reg ttl n) = reg"
    "lc_max_entries (license_cache_init reg ttl n) = n"
    by (simp_all add: license_cache_init_def)
  show ?thesis
    using run_cache_correct [OF license_cache_init_ok, of reg ttl n ops]
    by (simp add: z license_cache_ok_def)
qed

text \<open>
  C13: The gatekeeper lets a payload through exactly when it is an object from which a key can be
  read, the registry holds an active subscription for the digest of that key, its expiry lies in
  the future and its plan is entitled; and the subscription it returns is that record.  The state
  of the cache makes no difference.
\<close>
theorem authorize_sound_and_complete:
  "fst (authorize sha m now payload fb (gatekeeper_after s reg ttl n ops)) = Inr sub \<longleftrightarrow>
   (\<exists>p key. payload = JObj p \<and> extract_key s p fb = Some key \<and>
      registry_lookup reg (key_digest sha key) = Some sub \<and> sub_active sub \<and>
      (\<exists>t. sub_expires_at sub = Aware t \<and> now < t) \<and> sub_plan sub \<in> entitled_plans s)"
  using authorize_spec_agrees [OF gatekeeper_after_ok(1), of sha m now payload fb s reg ttl n ops]
  by (auto simp: gatekeeper_after_ok authorize_spec_def check_subscription_Inr
      split: json.splits option.splits)

text \<open>
  Every refusal carries the code of the first check that fails, in the order presence,
  authenticity, suspension, expiry, entitlement.  The one exception that is not a structured
  rejection is the TypeError of an expiry without an offset: a registry file may hold one, and it
  escapes only for a known, active subscription.
\<close>
theorem authorize_error_codes:
  "fst (authorize sha m now (JObj p) fb (gatekeeper_after s reg ttl n ops)) = Inl err \<longleftrightarrow>
   (case extract_key s p fb of
      None \<Rightarrow> err = LicenseRejected ''license_key_missing''
    | Some key \<Rightarrow>
        (case registry_lookup reg (key_digest sha key) of
           None \<Rightarrow> err = LicenseRejected ''license_key_invalid''
         | Some sub \<Rightarrow>
             if \<not> sub_active sub then err = LicenseRejected ''license_suspended''
             else (case sub_expires_at sub of
                     Naive _ \<Rightarrow> err = AuthRaised TypeErrorExn
                   | Aware t \<Rightarrow>
                       if t \<le> now then err = LicenseRejected ''license_expired''
                       else sub_plan sub \<notin> entitled_plans s \<and> err = LicenseRejected ''plan_not_entitled'')))"
  using authorize_spec_agrees [OF gatekeeper_after_ok(1), of sha m now "JObj p" fb s reg ttl n ops]
  by (auto simp: gatekeeper_after_ok authorize_spec_def check_subscription_def is_expired_def
      datetime_expired_def split: option.splits py_datetime.splits if_splits bool.splits)

text \<open>
  An HTTP caller is judged on the key it presents: with the fallback disabled the decision is
  the same whatever licence the worker itself is configured with.
\<close>
theorem no_fallback_ignores_configured_key:
  "fst (authorize sha m now payload False
      (gatekeeper_after (s\<lparr>s_license_key := key\<rparr>) reg ttl n ops)) =
   fst (authorize sha m now payload False (gatekeeper_after s reg ttl n ops))"
proof -
  have "entitled_plans (s\<lparr>s_license_key := key\<rparr>) = entitled_plans s"
    by (simp add: entitled_plans_def)
  moreover have "extract_key (s\<lparr>s_license_key := key\<rparr>) p False = extract_key s p False" for p
    by (simp add: extract_key_def split: option.splits)
  ultimately show ?thesis
    by (simp add: authorize_spec_agrees gatekeeper_after_ok authorize_spec_def check_subscription_def
        split: json.splits option.splits)
qed

text \<open>
  The validation entry point never answers False: it answers True exactly when authorize
  returns a subscription, and otherwise raises what authorize raised.
\<close>
theorem validate_never_false:
  "fst (validate_enterprise_license sha m now payload g) \<noteq> Inr False \<and>
   (fst (validate_enterprise_license sha m now payload g) = Inr True \<longleftrightarrow>
      (\<exists>sub. fst (authorize sha m now payload True g) = Inr sub)) \<and>
   (fst (validate_enterprise_license sha m now payload g) = Inl e \<longleftrightarrow>
      fst (authorize sha m now payload True g) = Inl e)"
  by (auto simp: validate_enterprise_license_def split: prod.splits sum.splits)

definition demo_keys :: "string list" where
  "demo_keys =
     [''oo-live-enterprise-demo-key'', ''oo-live-standard-demo-key'', ''oo-live-community-demo-key'',
      ''oo-live-expired-demo-key'', ''oo-live-suspended-demo-key'']"

definition demo_decision :: "(string \<Rightarrow> string) \<Rightarrow> rat \<Rightarrow> string \<Rightarrow> auth_error + string" where
  "demo_decision sha now key =
     map_sum id sub_tenant
       (fst (authorize sha 0 now (JObj [(''license_key'', JStr key)]) False
          (gatekeeper_after (keyed_settings None) (fixtures sha now) 300 1024 [])))"

lemma demo_extract:
  "key \<in> set demo_keys \<Longrightarrow> extract_key (keyed_settings None) [(''license_key'', JStr key)] False = Some key"
proof -
  assume "key \<in> set demo_keys"
  moreover have "list_all (\<lambda>k. str_strip k = k \<and> k \<noteq> []) demo_keys" by code_simp
  ultimately have "str_strip key = key" "key \<noteq> []" by (simp_all add: list_all_iff)
  then show ?thesis by (simp add: extract_key_def key_candidates_def j_get_def)
qed

lemma demo_lookup:
  assumes "distinct (map (key_digest sha) demo_keys)"
  shows "map (\<lambda>k. registry_lookup (fixtures sha now) (key_digest sha k)) demo_keys =
    map Some (fixture_list sha now)"
  using assms unfolding fixtures_def registry_lookup_registry_of
  by (auto simp: fixture_list_def demo_keys_def Let_def)

text \<open>
  The five built-in subscriptions do what the comments say of them, under the default plans and
  for any digest that tells the five keys apart: the enterprise and standard keys pass, the
  community key is not entitled, the lapsed key has expired and the fifth is suspended.
\<close>
theorem demo_subscription_matrix:
  "distinct (map (key_digest sha) demo_keys) \<Longrightarrow>
   map (demo_decision sha now) demo_keys =
     [Inr ''northwind-aerospace'', Inr ''rotterdam-polymers'',
      Inl (LicenseRejected ''plan_not_entitled''), Inl (LicenseRejected ''license_expired''),
      Inl (LicenseRejected ''license_suspended'')]"
proof -
  assume d: "distinct (map (key_digest sha) demo_keys)"
  have step: "demo_decision sha now k =
      map_sum id sub_tenant (check_subscription (keyed_settings None) now
        (registry_lookup (fixtures sha now) (key_digest sha k)))" if "k \<in> set demo_keys" for k
    using demo_extract [OF that]
    by (simp add: demo_decision_def authorize_spec_agrees gatekeeper_after_ok authorize_spec_def)
  then have "map (demo_decision sha now) demo_keys =
      map (\<lambda>r. map_sum id sub_tenant (check_subscription (keyed_settings None) now r))
        (map (\<lambda>k. registry_lookup (fixtures sha now) (key_digest sha k)) demo_keys)"
    by (simp add: map_map comp_def)
  also have "\<dots> = map (\<lambda>r. map_sum id sub_tenant (check_subscription (keyed_settings None) now (Some r)))
      (fixture_list sha now)"
    unfolding demo_lookup [OF d] by (simp add: map_map comp_def)
  finally show ?thesis
    by (simp add: fixture_list_def Let_def check_subscription_def is_expired_def datetime_expired_def
        keyed_entitled)
qed

theorem demo_subscription_matrix_witness:
  "map (demo_decision id 100) demo_keys =
     [Inr ''northwind-aerospace'', Inr ''rotterdam-polymers'',
      Inl (LicenseRejected ''plan_not_entitled''), Inl (LicenseRejected ''license_expired''),
      Inl (LicenseRejected ''license_suspended'')]"
proof (rule demo_subscription_matrix)
  show "distinct (map (key_digest id) demo_keys)" by code_simp
qed

definition loaded_entries ::
    "(string \<Rightarrow> string) \<Rightarrow> (json \<Rightarrow> string) \<Rightarrow> (string \<Rightarrow> py_datetime option) \<Rightarrow> json list \<Rightarrow> subscription list" where
  "loaded_entries sha repr_of parse_dt raw =
     [s. Inr s \<leftarrow> map (load_subscription sha repr_of parse_dt) raw]"

lemma load_subscription_plan:
  "load_subscription sha repr_of parse_dt e = Inr s \<Longrightarrow> normalise_plan (sub_plan s) = sub_plan s"
  by (cases e) (auto simp: load_subscription_def bind_r_Inr_iff normalise_plan_fixpoint)

lemma map_r_load:
  "map_r (\<lambda>entry. case load_subscription sha repr_of parse_dt entry of
             Inl _ \<Rightarrow> Inl RuntimeErrorExn | Inr s \<Rightarrow> Inr s) raw =
   (if list_all (\<lambda>e. \<exists>s. load_subscription sha repr_of parse_dt e = Inr s) raw
    then Inr (loaded_entries sha repr_of parse_dt raw) else Inl RuntimeErrorExn)"
  by (induction raw) (auto simp: loaded_entries_def split: sum.splits)

text \<open>
  Loading a registry file either yields a registry or raises RuntimeError (a file that is not
  UTF-8 raises the decoder's ValueError); one bad entry refuses the whole file.  In a loaded
  registry every lookup answers with a record of the requested digest whose plan is already
  canonical, and the last entry of the file for a digest is the one in force.
\<close>
theorem registry_from_file_outcome:
  "registry_from_file sha repr_of parse_dt file =
     (case file of
        FileJson (JList raw) \<Rightarrow>
          if list_all (\<lambda>e. \<exists>s. load_subscription sha repr_of parse_dt e = Inr s) raw
          then Inr (registry_of (loaded_entries sha repr_of parse_dt raw)) else Inl RuntimeErrorExn
      | FileNotUtf8 \<Rightarrow> Inl ValueError
      | _ \<Rightarrow> Inl RuntimeErrorExn) \<and>
   registry_lookup (registry_of (loaded_entries sha repr_of parse_dt entries)) d =
     find (\<lambda>s. sub_key_digest s = d) (rev (loaded_entries sha repr_of parse_dt entries)) \<and>
   map (\<lambda>s. normalise_plan (sub_plan s)) (loaded_entries sha repr_of parse_dt entries) =
     map sub_plan (loaded_entries sha repr_of parse_dt entries)"
proof -
  have "map (\<lambda>s. normalise_plan (sub_plan s)) (loaded_entries sha repr_of parse_dt entries) =
     map sub_plan (loaded_entries sha repr_of parse_dt entries)"
    by (rule map_cong) (auto simp: loaded_entries_def split: sum.splits dest: load_subscription_plan sym)
  moreover have "registry_from_file sha repr_of parse_dt file =
     (case file of
        FileJson (JList raw) \<Rightarrow>
          if list_all (\<lambda>e. \<exists>s. load_subscription sha repr_of parse_dt e = Inr s) raw
          then Inr (registry_of (loaded_entries sha repr_of parse_dt raw)) else Inl RuntimeErrorExn
      | FileNotUtf8 \<Rightarrow> Inl ValueError
      | _ \<Rightarrow> Inl RuntimeErrorExn)"
    by (simp add: registry_from_file_def map_r_load split: file_text.split json.split)
  ultimately show ?thesis by (simp add: registry_lookup_registry_of)
qed

text \<open>
  The start-up check that the HTTP mode has a licence key looks only for an absent key: a
  blank one passes it, and then every record that carries no key of its own is refused as missing.
\<close>
theorem blank_key_passes_startup:
  "make_settings (keyed_settings (Some [])) = Inr (keyed_settings (Some [])) \<and>
   fst (authorize sha m now (JObj [(''event_id'', JStr e)]) True
      (gatekeeper_after (keyed_settings (Some [])) reg ttl n ops)) =
     Inl (LicenseRejected ''license_key_missing'')"
proof -
  have "extract_key (keyed_settings (Some [])) [(''event_id'', JStr e)] True = None"
    by (simp add: extract_key_def key_candidates_def j_get_def keyed_fields)
  then show ?thesis
    by (simp add: keyed_make authorize_spec_agrees gatekeeper_after_ok authorize_spec_def)
qed

end
