(* ===== verification/Quota.thy ===== *)
theory Quota
  imports Prelude
begin

text \<open>
  Sliding-window quotas.  A bucket holds the monotonic times of the admitted requests of one key,
  oldest first.  The interface is the locale rate_limiter, with the laws a check keeps; its lemmas
  give the window bound for any interleaving of keys.  The two implementations are
  SlidingWindowLimiter (app/security.py) and SlidingWindowQuota (graphrag_interceptor.py).
\<close>

section \<open>The interface\<close>

type_synonym quota_answer = "(bool \<times> int \<times> rat) raises"

text \<open>The loop that drops the expired head of a bucket.\<close>

definition live_bucket :: "rat \<Rightarrow> rat \<Rightarrow> rat list \<Rightarrow> rat list" where
  "live_bucket window now b = dropWhile (\<lambda>t. t \<le> now - window) b"

lemma live_bucket_split:
  "\<exists>pre. b = pre @ live_bucket window now b \<and> (\<forall>t \<in> set pre. t \<le> now - window)"
  unfolding live_bucket_def
  by (rule exI [of _ "takeWhile (\<lambda>t. t \<le> now - window) b"]) (auto dest: set_takeWhileD)

definition in_window :: "rat \<Rightarrow> rat \<Rightarrow> rat list \<Rightarrow> rat list" where
  "in_window window t ts = filter (\<lambda>a. t - window < a \<and> a \<le> t) ts"

definition admission :: "quota_answer \<Rightarrow> bool" where
  "admission answer = (case answer of Inr (True, _) \<Rightarrow> True | _ \<Rightarrow> False)"

lemma admission_simps [simp]:
  "admission (Inr (b, x)) = b" "\<not> admission (Inl e)"
  by (simp_all add: admission_def split: bool.splits)

text \<open>The times at which a key is admitted in a history of checks.\<close>

fun admitted_times ::
    "(rat \<Rightarrow> string \<Rightarrow> int \<Rightarrow> 's \<Rightarrow> quota_answer \<times> 's) \<Rightarrow> string \<Rightarrow> (rat \<times> string \<times> int) list \<Rightarrow> 's \<Rightarrow> rat list"
where
  "admitted_times check key [] s = []"
| "admitted_times check key ((now, k, limit) # rs) s =
     (let (answer, s') = check now k limit s in
      (if k = key \<and> admission answer then [now] else []) @
      admitted_times check key rs s')"

locale rate_limiter =
  fixes check :: "rat \<Rightarrow> string \<Rightarrow> int \<Rightarrow> 's \<Rightarrow> quota_answer \<times> 's"
    and bucket :: "'s \<Rightarrow> string \<Rightarrow> rat list"
    and window :: "'s \<Rightarrow> rat"
  assumes admit: "int (length (live_bucket (window s) now (bucket s k))) < limit \<Longrightarrow>
      fst (check now k limit s) = Inr (True, max 0 (limit - int (length (bucket (snd (check now k limit s)) k))), 0) \<and>
      bucket (snd (check now k limit s)) k = live_bucket (window s) now (bucket s k) @ [now]"
    and refuse: "limit \<le> int (length (live_bucket (window s) now (bucket s k))) \<Longrightarrow>
      bucket (snd (check now k limit s)) k = live_bucket (window s) now (bucket s k) \<and>
      fst (check now k limit s) =
        (case live_bucket (window s) now (bucket s k) of
           [] \<Rightarrow> Inl IndexErrorExn
         | oldest # _ \<Rightarrow> Inr (False, 0, max 0 (oldest + window s - now)))"
    and others: "j \<noteq> k \<Longrightarrow> bucket (snd (check now k limit s)) j = bucket s j"
    and same_window: "window (snd (check now k limit s)) = window s"
begin

definition tracks :: "string \<Rightarrow> rat \<Rightarrow> rat list \<Rightarrow> 's \<Rightarrow> bool" where
  "tracks k prev hist s \<longleftrightarrow>
     (\<exists>pre. hist = pre @ bucket s k \<and> (\<forall>t \<in> set pre. t \<le> prev - window s)) \<and> (\<forall>t \<in> set hist. t \<le> prev)"

definition window_bounded :: "nat \<Rightarrow> rat \<Rightarrow> rat list \<Rightarrow> bool" where
  "window_bounded L w hist \<longleftrightarrow> (\<forall>t. length (in_window w t hist) \<le> L)"

lemma tracks_later:
  assumes "tracks k prev hist s" "prev \<le> now"
  shows "\<exists>pre. hist = pre @ live_bucket (window s) now (bucket s k) \<and> (\<forall>t \<in> set pre. t \<le> now - window s)"
proof -
  obtain pre where pre: "hist = pre @ bucket s k" "\<forall>t \<in> set pre. t \<le> prev - window s"
    using assms(1) by (auto simp: tracks_def)
  obtain pre2 where pre2: "bucket s k = pre2 @ live_bucket (window s) now (bucket s k)"
    "\<forall>t \<in> set pre2. t \<le> now - window s"
    using live_bucket_split by blast
  have "hist = (pre @ pre2) @ live_bucket (window s) now (bucket s k)"
    using pre(1) pre2(1) by simp
  moreover have "\<forall>t \<in> set (pre @ pre2). t \<le> now - window s"
    using pre(2) pre2(2) assms(2) by fastforce
  ultimately show ?thesis by blast
qed

lemma window_bounded_admit:
  assumes "tracks k prev hist s" "prev \<le> now" "window_bounded L (window s) hist"
    and "length (live_bucket (window s) now (bucket s k)) < L"
  shows "window_bounded L (window s) (hist @ [now])"
  unfolding window_bounded_def
proof
  fix t
  obtain pre where pre: "hist = pre @ live_bucket (window s) now (bucket s k)"
    "\<forall>t \<in> set pre. t \<le> now - window s"
    using tracks_later [OF assms(1,2)] by blast
  show "length (in_window (window s) t (hist @ [now])) \<le> L"
  proof (cases "t - window s < now \<and> now \<le> t")
    case True
    then have "in_window (window s) t pre = []" using pre(2) by (auto simp: in_window_def filter_empty_conv)
    then have "length (in_window (window s) t hist) \<le> length (live_bucket (window s) now (bucket s k))"
      by (subst pre(1)) (simp add: in_window_def)
    then show ?thesis using assms(4) True by (simp add: in_window_def)
  next
    case False
    then have "in_window (window s) t (hist @ [now]) = in_window (window s) t hist"
      by (auto simp: in_window_def)
    then show ?thesis using assms(3) by (simp add: window_bounded_def)
  qed
qed

lemma tracks_admit:
  assumes "tracks k prev hist s" "prev \<le> now"
    and "int (length (live_bucket (window s) now (bucket s k))) < limit"
  shows "tracks k now (hist @ [now]) (snd (check now k limit s))"
proof -
  obtain pre where pre: "hist = pre @ live_bucket (window s) now (bucket s k)"
    "\<forall>t \<in> set pre. t \<le> now - window s"
    using tracks_later [OF assms(1,2)] by blast
  have "\<forall>t \<in> set hist. t \<le> now" using assms(1,2) by (auto simp: tracks_def)
  then show ?thesis
    unfolding tracks_def using admit [OF assms(3)] pre
    by (auto simp: same_window intro!: exI [of _ pre])
qed

lemma tracks_refuse:
  assumes "tracks k prev hist s" "prev \<le> now"
    and "limit \<le> int (length (live_bucket (window s) now (bucket s k)))"
  shows "tracks k now hist (snd (check now k limit s))"
proof -
  obtain pre where pre: "hist = pre @ live_bucket (window s) now (bucket s k)"
    "\<forall>t \<in> set pre. t \<le> now - window s"
    using tracks_later [OF assms(1,2)] by blast
  have "\<forall>t \<in> set hist. t \<le> now" using assms(1,2) by (auto simp: tracks_def)
  then show ?thesis
    unfolding tracks_def using refuse [OF assms(3)] pre
    by (auto simp: same_window intro!: exI [of _ pre])
qed

lemma tracks_other:
  assumes "tracks j prev hist s" "prev \<le> now" "j \<noteq> k"
  shows "tracks j now hist (snd (check now k limit s))"
  using assms unfolding tracks_def by (fastforce simp: others same_window)

lemma admitted_bounded:
  assumes "sorted (map fst rs)" "\<forall>r \<in> set rs. prev \<le> fst r"
    and "\<forall>r \<in> set rs. fst (snd r) = key \<longrightarrow> snd (snd r) = int L"
    and "tracks key prev hist s" "window_bounded L (window s) hist"
  shows "window_bounded L (window s) (hist @ admitted_times check key rs s)"
  using assms
proof (induction rs arbitrary: prev hist s)
  case (Cons r rs)
  obtain now k limit where r: "r = (now, k, limit)" by (cases r) auto
  let ?s = "snd (check now k limit s)"
  have le: "prev \<le> now" and later: "sorted (map fst rs)" "\<forall>q \<in> set rs. now \<le> fst q"
    and lim: "\<forall>q \<in> set rs. fst (snd q) = key \<longrightarrow> snd (snd q) = int L"
    using Cons.prems(1,2,3) r by auto
  note IH = Cons.IH [OF later lim]
  show ?case
  proof (cases "k = key \<and> length (live_bucket (window s) now (bucket s key)) < L")
    case True
    then have "limit = int L" using Cons.prems(3) r by auto
    then have a: "int (length (live_bucket (window s) now (bucket s k))) < limit" using True by simp
    have "window_bounded L (window ?s) (hist @ [now])"
      using window_bounded_admit [OF Cons.prems(4) le Cons.prems(5)] True by (simp add: same_window)
    then have "window_bounded L (window ?s) ((hist @ [now]) @ admitted_times check key rs ?s)"
      using IH tracks_admit [of k prev hist s now limit] Cons.prems(4) le a True by blast
    then show ?thesis using True admit [OF a] by (simp add: r same_window case_prod_beta)
  next
    case False
    have "tracks key now hist ?s \<and> \<not> (k = key \<and> admission (fst (check now k limit s)))"
    proof (cases "k = key")
      case True
      then have "limit = int L" using Cons.prems(3) r by auto
      then have f: "limit \<le> int (length (live_bucket (window s) now (bucket s k)))"
        using False True by simp
      then show ?thesis
        using tracks_refuse [OF _ le f] Cons.prems(4) True refuse [OF f] by (auto split: list.splits)
    next
      case False
      then show ?thesis using tracks_other [OF Cons.prems(4) le] by auto
    qed
    moreover have "window_bounded L (window ?s) hist" using Cons.prems(5) by (simp add: same_window)
    ultimately show ?thesis using IH [of hist ?s] by (auto simp: r same_window case_prod_beta)
  qed
qed simp

text \<open>
  The window bound: whatever requests of other keys are interleaved, no window of the configured
  length holds more admissions of a key than its limit.
\<close>

lemma at_most_limit_per_window:
  assumes "sorted (map fst rs)" "\<forall>r \<in> set rs. fst (snd r) = key \<longrightarrow> snd (snd r) = int L"
    and "bucket s key = []"
  shows "length (in_window (window s) t (admitted_times check key rs s)) \<le> L"
proof (cases rs)
  case (Cons r rest)
  have "\<forall>q \<in> set rs. fst r \<le> fst q" using assms(1) Cons by auto
  moreover have "tracks key (fst r) [] s" using assms(3) by (simp add: tracks_def)
  moreover have "window_bounded L (window s) []" by (simp add: window_bounded_def in_window_def)
  ultimately have "window_bounded L (window s) ([] @ admitted_times check key rs s)"
    using assms(1,2) by (intro admitted_bounded)
  then show ?thesis by (simp add: window_bounded_def)
qed (simp add: in_window_def)

text \<open>
  A refused caller that waits longer than the advertised delay is admitted, when the limit is
  positive and nobody else used the key meanwhile.
\<close>

lemma admitted_after_retry:
  assumes "0 < limit" "fst (check now k limit s) = Inr (False, rem, retry)" "now + retry \<le> later"
    and "sorted (bucket s k)" "int (length (bucket s k)) \<le> limit"
  shows "\<exists>rem'. fst (check later k limit (snd (check now k limit s))) = Inr (True, rem', 0)"
proof -
  let ?b = "live_bucket (window s) now (bucket s k)"
  let ?s = "snd (check now k limit s)"
  have f: "limit \<le> int (length ?b)"
    using assms(2) admit [of s now k limit] by (cases "int (length ?b) < limit") auto
  then obtain h t where ht: "?b = h # t" using assms(1) by (cases ?b) auto
  have "retry = max 0 (h + window s - now)" using refuse [OF f] assms(2) ht by simp
  then have "h \<le> later - window s" using assms(3) by auto
  moreover have "bucket ?s k = ?b" using refuse [OF f] by simp
  ultimately have "length (live_bucket (window ?s) later (bucket ?s k)) \<le> length t"
    using ht length_dropWhile_le [of _ t] by (simp add: live_bucket_def same_window)
  moreover have "length ?b \<le> length (bucket s k)"
    by (simp add: live_bucket_def length_dropWhile_le)
  ultimately have "int (length (live_bucket (window ?s) later (bucket ?s k))) < limit"
    using assms(5) ht by simp
  then show ?thesis using admit [of ?s later k limit] by blast
qed

end

section \<open>SlidingWindowLimiter (AI interceptor)\<close>

record window_limiter =
  wl_window :: rat
  wl_hits :: "(string, rat list) odict"

definition wl_bucket :: "window_limiter \<Rightarrow> string \<Rightarrow> rat list" where
  "wl_bucket s k = (case map_of (wl_hits s) k of None \<Rightarrow> [] | Some b \<Rightarrow> b)"

definition sliding_window_check :: "rat \<Rightarrow> string \<Rightarrow> int \<Rightarrow> window_limiter \<Rightarrow> quota_answer \<times> window_limiter" where
  "sliding_window_check now key limit s =
     (let cutoff = now - wl_window s;
          bucket = dropWhile (\<lambda>t. t \<le> cutoff) (wl_bucket s key)
      in if int (length bucket) \<ge> limit then
           (case bucket of
              [] \<Rightarrow> (Inl IndexErrorExn, s\<lparr>wl_hits := AList.update key bucket (wl_hits s)\<rparr>)
            | oldest # _ \<Rightarrow>
                (Inr (False, 0, max 0 (oldest + wl_window s - now)),
                 s\<lparr>wl_hits := AList.update key bucket (wl_hits s)\<rparr>))
         else
           (let bucket' = bucket @ [now] in
            (Inr (True, max 0 (limit - int (length bucket')), 0),
             s\<lparr>wl_hits := AList.update key bucket' (wl_hits s)\<rparr>)))"

lemma wl_bucket_update:
  "wl_bucket (s\<lparr>wl_hits := AList.update k b (wl_hits s)\<rparr>) j = (if j = k then b else wl_bucket s j)"
  by (simp add: wl_bucket_def update_conv')

interpretation window_limiter: rate_limiter sliding_window_check wl_bucket wl_window
  by unfold_locales
    (auto simp: sliding_window_check_def live_bucket_def wl_bucket_update Let_def simp del: dropWhile_eq_Nil_conv split: list.splits)

section \<open>SlidingWindowQuota (GraphRAG interceptor)\<close>

record window_quota =
  wq_window :: rat
  wq_hits :: "(string, rat list) odict"

definition wq_bucket :: "window_quota \<Rightarrow> string \<Rightarrow> rat list" where
  "wq_bucket s k = (case map_of (wq_hits s) k of None \<Rightarrow> [] | Some b \<Rightarrow> b)"

definition window_quota_check :: "rat \<Rightarrow> string \<Rightarrow> int \<Rightarrow> window_quota \<Rightarrow> quota_answer \<times> window_quota" where
  "window_quota_check now key limit s =
     (let cutoff = now - wq_window s;
          bucket = dropWhile (\<lambda>t. t \<le> cutoff) (wq_bucket s key)
      in if int (length bucket) \<ge> limit then
           (case bucket of
              [] \<Rightarrow> (Inl IndexErrorExn, s\<lparr>wq_hits := AList.update key bucket (wq_hits s)\<rparr>)
            | oldest # _ \<Rightarrow>
                (Inr (False, 0, max 0 (oldest + wq_window s - now)),
                 s\<lparr>wq_hits := AList.update key bucket (wq_hits s)\<rparr>))
         else
           (Inr (True, max 0 (limit - int (length (bucket @ [now]))), 0),
            s\<lparr>wq_hits := AList.update key (bucket @ [now]) (wq_hits s)\<rparr>))"

lemma wq_bucket_update:
  "wq_bucket (s\<lparr>wq_hits := AList.update k b (wq_hits s)\<rparr>) j = (if j = k then b else wq_bucket s j)"
  by (simp add: wq_bucket_def update_conv')

interpretation window_quota: rate_limiter window_quota_check wq_bucket wq_window
  by unfold_locales
    (auto simp: window_quota_check_def live_bucket_def wq_bucket_update Let_def simp del: dropWhile_eq_Nil_conv split: list.splits)

section \<open>Properties\<close>

definition window_limiter_init :: "rat \<Rightarrow> window_limiter" where
  "window_limiter_init w = \<lparr>wl_window = w, wl_hits = []\<rparr>"

definition window_quota_init :: "rat \<Rightarrow> window_quota" where
  "window_quota_init w = \<lparr>wq_window = w, wq_hits = []\<rparr>"

text \<open>
  C35: The interceptor's limiter never admits more than the licensed number of requests of one key
  in any window: for every history of checks with a nondecreasing clock, and whatever other keys do,
  each half-open interval of the window's length holds at most L admissions.
\<close>
theorem limiter_window_bound:
  "sorted (map fst rs) \<Longrightarrow> \<forall>r \<in> set rs. fst (snd r) = key \<longrightarrow> snd (snd r) = int L \<Longrightarrow>
   length (in_window w t (admitted_times sliding_window_check key rs (window_limiter_init w))) \<le> L"
  using window_limiter.at_most_limit_per_window [of rs key L "window_limiter_init w" t]
  by (simp add: window_limiter_init_def wl_bucket_def)

theorem limiter_window_bound_witness:
  "length (in_window 60 70 (admitted_times sliding_window_check ''k''
     [(0, ''k'', 2), (5, ''j'', 9), (30, ''k'', 2), (50, ''k'', 2), (61, ''k'', 2), (62, ''k'', 2)]
     (window_limiter_init 60))) \<le> 2"
  by (rule limiter_window_bound) simp_all

text \<open>
  The same bound for the GraphRAG interceptor's SlidingWindowQuota.
\<close>
theorem quota_window_bound:
  "sorted (map fst rs) \<Longrightarrow> \<forall>r \<in> set rs. fst (snd r) = key \<longrightarrow> snd (snd r) = int L \<Longrightarrow>
   length (in_window w t (admitted_times window_quota_check key rs (window_quota_init w))) \<le> L"
  using window_quota.at_most_limit_per_window [of rs key L "window_quota_init w" t]
  by (simp add: window_quota_init_def wq_bucket_def)

theorem quota_window_bound_witness:
  "length (in_window 60 70 (admitted_times window_quota_check ''k''
     [(0, ''k'', 1), (5, ''j'', 9), (30, ''k'', 1), (61, ''k'', 1), (62, ''k'', 1)]
     (window_quota_init 60))) \<le> 1"
  by (rule quota_window_bound) simp_all

text \<open>
  A subscription whose quota is zero or negative does not get a structured 429: with nothing
  in its window both limiters index an empty bucket and raise.
\<close>
theorem zero_quota_raises:
  "limit \<le> 0 \<Longrightarrow>
   fst (sliding_window_check now key limit (window_limiter_init w)) = Inl IndexErrorExn \<and>
   fst (window_quota_check now key limit (window_quota_init w)) = Inl IndexErrorExn"
  by (simp add: sliding_window_check_def window_quota_check_def window_limiter_init_def
      window_quota_init_def wl_bucket_def wq_bucket_def)

theorem zero_quota_raises_witness:
  "fst (sliding_window_check 1 ''k'' 0 (window_limiter_init 60)) = Inl IndexErrorExn \<and>
   fst (window_quota_check 1 ''k'' 0 (window_quota_init 60)) = Inl IndexErrorExn"
  by (rule zero_quota_raises) simp

end
