(* ===== verification/License_Gate.thy ===== *)
theory License_Gate
  imports Licensing Quota Replay_Store
begin

text \<open>
  The two HTTP licence gates: LicenseKeyMiddleware in front of the AI interceptor (app/security.py)
  and verify_enterprise_subscription in front of the GraphRAG interceptor, with their registries,
  their quotas, and the intercept endpoint behind the second one with its replay cache.  What lies
  behind a gate is an argument: the next handler, and the engine that plans.
\<close>

section \<open>Licences of the AI interceptor\<close>

definition CANONICAL_TIERS :: "string list" where
  "CANONICAL_TIERS = [''ENTERPRISE'', ''STANDARD'', ''COMMUNITY'']"

definition TIER_ALIASES :: "(string \<times> string) list" where
  "TIER_ALIASES =
     [(''SMALL_BUSINESS'', ''STANDARD''),
      (''SMALLBUSINESS'', ''STANDARD''),
      (''SMB'', ''STANDARD''),
      (''BUSINESS'', ''STANDARD''),
      (''FREE'', ''COMMUNITY''),
      (''OSS'', ''COMMUNITY'')]"

definition license_key_digest :: "(string \<Rightarrow> string) \<Rightarrow> string \<Rightarrow> string" where
  "license_key_digest sha key = sha (str_strip key)"

definition normalise_tier :: "string \<Rightarrow> string" where
  "normalise_tier value =
     (let tier = fold_name value in
      case map_of TIER_ALIASES tier of None \<Rightarrow> tier | Some t \<Rightarrow> t)"

record license =
  lic_key_id :: string
  lic_key_digest :: string
  lic_tenant :: string
  lic_tier :: string
  lic_quota_per_minute :: int
  lic_expires_at :: py_datetime
  lic_features :: "string list"

definition lic_is_expired :: "rat \<Rightarrow> license \<Rightarrow> bool raises" where
  "lic_is_expired now l = datetime_expired now (lic_expires_at l)"

definition lic_has :: "license \<Rightarrow> string \<Rightarrow> bool" where
  "lic_has l feature \<longleftrightarrow> feature \<in> set (lic_features l)"

type_synonym license_registry = "(string, license) odict"

definition license_registry_of :: "license list \<Rightarrow> license_registry" where
  "license_registry_of ls = fold (\<lambda>l d. AList.update (lic_key_digest l) l d) ls []"

definition license_lookup :: "(string \<Rightarrow> string) \<Rightarrow> license_registry \<Rightarrow> string \<Rightarrow> license option" where
  "license_lookup sha reg presented_key =
     (let presented = license_key_digest sha presented_key in
      case map_of reg presented of
        None \<Rightarrow> None
      | Some record \<Rightarrow> if lic_key_digest record = presented then Some record else None)"

definition demo_license_list :: "(string \<Rightarrow> string) \<Rightarrow> rat \<Rightarrow> license list" where
  "demo_license_list sha now =
     (let far_future = Aware (now + 365 * 86400); yesterday = Aware (now - 86400) in
      [\<lparr>lic_key_id = ''lic_enterprise_demo'', lic_key_digest = license_key_digest sha ''oo-live-enterprise-demo-key'',
        lic_tenant = ''northwind-aerospace'', lic_tier = ''ENTERPRISE'', lic_quota_per_minute = 600,
        lic_expires_at = far_future,
        lic_features = [''ai.intercept'', ''ai.autopilot'', ''fleet.analytics'']\<rparr>,
       \<lparr>lic_key_id = ''lic_standard_demo'', lic_key_digest = license_key_digest sha ''oo-live-standard-demo-key'',
        lic_tenant = ''rotterdam-polymers'', lic_tier = ''STANDARD'', lic_quota_per_minute = 60,
        lic_expires_at = far_future, lic_features = [''ai.intercept'']\<rparr>,
       \<lparr>lic_key_id = ''lic_community_demo'', lic_key_digest = license_key_digest sha ''oo-live-community-demo-key'',
        lic_tenant = ''community-user'', lic_tier = ''COMMUNITY'', lic_quota_per_minute = 10,
        lic_expires_at = far_future, lic_features = [''fleet.analytics'']\<rparr>,
       \<lparr>lic_key_id = ''lic_expired_demo'', lic_key_digest = license_key_digest sha ''oo-live-expired-demo-key'',
        lic_tenant = ''lapsed-customer'', lic_tier = ''STANDARD'', lic_quota_per_minute = 60,
        lic_expires_at = yesterday, lic_features = [''ai.intercept'']\<rparr>])"

section \<open>The middleware\<close>

record http_request =
  rq_path :: string
  rq_header :: "string \<Rightarrow> string option"

text \<open>A response: its status, the code of an error, the headers, and the content of a success.\<close>

record 'b http_response =
  rs_status :: int
  rs_code :: string
  rs_headers :: "(string \<times> string) list"
  rs_content :: "'b option"

definition set_header :: "string \<Rightarrow> string \<Rightarrow> 'b http_response \<Rightarrow> 'b http_response" where
  "set_header h v r = r\<lparr>rs_headers := AList.update h v (rs_headers r)\<rparr>"

definition error_response :: "int \<Rightarrow> string \<Rightarrow> string \<Rightarrow> (string \<times> string) list \<Rightarrow> 'b http_response" where
  "error_response status_code code request_id headers =
     set_header ''X-Request-ID'' request_id
       \<lparr>rs_status = status_code, rs_code = code, rs_headers = headers, rs_content = None\<rparr>"

definition finalise :: "string \<Rightarrow> string \<Rightarrow> 'b http_response \<Rightarrow> 'b http_response" where
  "finalise request_id elapsed r =
     set_header ''X-Response-Time-ms'' elapsed (set_header ''X-Request-ID'' request_id r)"

text \<open>The limiter, and the counters of refusals by reason and of quota decisions.\<close>

record 'l gate_state =
  gs_limiter :: 'l
  gs_rejections :: "string list"
  gs_decisions :: "(string \<times> string) list"

record middleware =
  mw_registry :: license_registry
  mw_header :: string
  mw_exempt :: "string list"
  mw_feature_by_prefix :: "(string \<times> string) list"

definition EXEMPT_PATHS :: "string list" where
  "EXEMPT_PATHS = [''/healthz'', ''/readyz'', ''/metrics'', ''/'', ''/docs'', ''/redoc'', ''/openapi.json'']"

definition FEATURE_BY_PREFIX :: "(string \<times> string) list" where
  "FEATURE_BY_PREFIX = [(''/v1/intercept'', ''ai.intercept'')]"

definition is_exempt :: "middleware \<Rightarrow> string \<Rightarrow> bool" where
  "is_exempt m path \<longleftrightarrow> path \<in> set (mw_exempt m)"

fun required_feature :: "(string \<times> string) list \<Rightarrow> string \<Rightarrow> string option" where
  "required_feature [] path = None"
| "required_feature ((prefix, feature) # rest) path =
     (if str_startswith path prefix then Some feature else required_feature rest path)"

text \<open>The text before and after the first space, as \<open>partition\<close> gives them.\<close>

definition partition_space :: "string \<Rightarrow> string \<times> string" where
  "partition_space s = (takeWhile (\<lambda>c. c \<noteq> CHR '' '') s, drop 1 (dropWhile (\<lambda>c. c \<noteq> CHR '' '') s))"

definition request_key :: "middleware \<Rightarrow> http_request \<Rightarrow> string option" where
  "request_key m r =
     (let header_value = (case rq_header r (mw_header m) of None \<Rightarrow> [] | Some v \<Rightarrow> v);
          authorization = (case rq_header r ''Authorization'' of None \<Rightarrow> [] | Some v \<Rightarrow> v);
          (scheme, credentials) = partition_space authorization
      in if str_strip header_value \<noteq> [] then Some (str_strip header_value)
         else if str_lower scheme = ''bearer'' \<and> str_strip credentials \<noteq> [] then Some (str_strip credentials)
         else None)"

text \<open>
  The handler behind the gate reads the licence the gate attached, and may change any part of the state.
\<close>

type_synonym ('b, 's) handler = "license option \<Rightarrow> 's \<Rightarrow> 'b http_response raises \<times> 's"

definition respond ::
    "('b http_response \<Rightarrow> 'b http_response) \<Rightarrow> 'b http_response raises \<times> 's \<Rightarrow> 'b http_response raises \<times> 's" where
  "respond f x = (bind_r (fst x) (\<lambda>resp. Inr (f resp)), snd x)"

definition gate_reject ::
    "int \<Rightarrow> string \<Rightarrow> string \<Rightarrow> string \<Rightarrow> (string \<times> string) list \<Rightarrow> ('l, 'z) gate_state_scheme
      \<Rightarrow> 'b http_response raises \<times> ('l, 'z) gate_state_scheme" where
  "gate_reject status_code code request_id elapsed headers s =
     (Inr (finalise request_id elapsed (error_response status_code code request_id headers)),
      s\<lparr>gs_rejections := gs_rejections s @ [code]\<rparr>)"

definition retry_after_header :: "rat \<Rightarrow> string" where
  "retry_after_header retry_after =
     int_str (max 1 ((if retry_after < 0 then \<lceil>retry_after\<rceil> else \<lfloor>retry_after\<rfloor>) + 1))"

definition lacks_feature :: "license \<Rightarrow> string option \<Rightarrow> bool" where
  "lacks_feature lic required =
     (case required of None \<Rightarrow> False | Some feature \<Rightarrow> feature \<noteq> [] \<and> \<not> lic_has lic feature)"

definition dispatch ::
    "(string \<Rightarrow> string) \<Rightarrow> middleware \<Rightarrow> (string \<Rightarrow> int \<Rightarrow> 'l \<Rightarrow> quota_answer \<times> 'l) \<Rightarrow> rat
      \<Rightarrow> string \<Rightarrow> string \<Rightarrow> ('b, ('l, 'z) gate_state_scheme) handler \<Rightarrow> http_request
      \<Rightarrow> ('l, 'z) gate_state_scheme \<Rightarrow> 'b http_response raises \<times> ('l, 'z) gate_state_scheme" where
  "dispatch sha m check now fresh_id elapsed call_next r s =
     (let request_id = (case rq_header r ''X-Request-ID'' of
                          Some i \<Rightarrow> if i \<noteq> [] then i else fresh_id | None \<Rightarrow> fresh_id)
      in if is_exempt m (rq_path r) then
           respond (finalise request_id elapsed) (call_next None s)
         else
           (case request_key m r of
              None \<Rightarrow> gate_reject 401 ''license_key_missing'' request_id elapsed [] s
            | Some presented \<Rightarrow>
                (case license_lookup sha (mw_registry m) presented of
                   None \<Rightarrow> gate_reject 401 ''license_key_invalid'' request_id elapsed [] s
                 | Some lic \<Rightarrow>
                     (case lic_is_expired now lic of
                        Inl e \<Rightarrow> (Inl e, s)
                      | Inr True \<Rightarrow> gate_reject 402 ''license_expired'' request_id elapsed [] s
                      | Inr False \<Rightarrow>
                          if lacks_feature lic (required_feature (mw_feature_by_prefix m) (rq_path r)) then gate_reject 403 ''feature_not_licensed'' request_id elapsed [] s
                          else
                            (let (answer, l) = check (lic_key_id lic) (lic_quota_per_minute lic) (gs_limiter s);
                                 s1 = s\<lparr>gs_limiter := l\<rparr>
                             in case answer of
                                  Inl e \<Rightarrow> (Inl e, s1)
                                | Inr (allowed, remaining, retry_after) \<Rightarrow>
                                    (let s2 = s1\<lparr>gs_decisions := gs_decisions s1 @
                                                [(lic_tier lic, if allowed then ''admitted'' else ''throttled'')]\<rparr>
                                     in if \<not> allowed then
                                          gate_reject 429 ''quota_exceeded'' request_id elapsed
                                            [(''Retry-After'', retry_after_header retry_after),
                                             (''X-RateLimit-Limit'', int_str (lic_quota_per_minute lic)),
                                             (''X-RateLimit-Remaining'', ''0'')] s2
                                        else
                                          respond
                                            (\<lambda>resp. finalise request_id elapsed
                                               (set_header ''X-License-Tier'' (lic_tier lic)
                                                 (set_header ''X-RateLimit-Remaining'' (int_str remaining)
                                                   (set_header ''X-RateLimit-Limit''
                                                     (int_str (lic_quota_per_minute lic)) resp))))
                                            (call_next (Some lic) s2)))))))"

section \<open>Subscriptions of the GraphRAG interceptor\<close>

record enterprise_subscription =
  es_key_id :: string
  es_key_digest :: string
  es_tenant :: string
  es_tier :: string
  es_quota_per_minute :: int
  es_expires_at :: py_datetime
  es_features :: "string list"

definition FEATURE_GRAPHRAG :: string where
  "FEATURE_GRAPHRAG = ''ai.graphrag.intercept''"

definition license_digest :: "(string \<Rightarrow> string) \<Rightarrow> string \<Rightarrow> string" where
  "license_digest sha key = sha (str_strip key)"

definition es_is_expired :: "rat \<Rightarrow> enterprise_subscription \<Rightarrow> bool raises" where
  "es_is_expired now s = datetime_expired now (es_expires_at s)"

definition es_has :: "enterprise_subscription \<Rightarrow> string \<Rightarrow> bool" where
  "es_has s feature \<longleftrightarrow> feature \<in> set (es_features s)"

type_synonym es_registry = "(string, enterprise_subscription) odict"

definition es_registry_of :: "enterprise_subscription list \<Rightarrow> es_registry" where
  "es_registry_of subs = fold (\<lambda>x d. AList.update (es_key_digest x) x d) subs []"

definition es_lookup :: "(string \<Rightarrow> string) \<Rightarrow> es_registry \<Rightarrow> string \<Rightarrow> enterprise_subscription option" where
  "es_lookup sha reg presented_key =
     (let presented = license_digest sha presented_key in
      case map_of reg presented of
        None \<Rightarrow> None
      | Some record \<Rightarrow> if es_key_digest record = presented then Some record else None)"

definition es_demo_list :: "(string \<Rightarrow> string) \<Rightarrow> rat \<Rightarrow> enterprise_subscription list" where
  "es_demo_list sha now =
     (let far_future = Aware (now + 365 * 86400); yesterday = Aware (now - 86400) in
      [\<lparr>es_key_id = ''lic_graphrag_enterprise'',
        es_key_digest = license_digest sha ''oo-live-graphrag-enterprise-key'',
        es_tenant = ''northwind-aerospace'', es_tier = ''ENTERPRISE'', es_quota_per_minute = 600,
        es_expires_at = far_future, es_features = [FEATURE_GRAPHRAG, ''ai.graphrag.autonomous'']\<rparr>,
       \<lparr>es_key_id = ''lic_graphrag_business'',
        es_key_digest = license_digest sha ''oo-live-graphrag-business-key'',
        es_tenant = ''rotterdam-polymers'', es_tier = ''BUSINESS'', es_quota_per_minute = 60,
        es_expires_at = far_future, es_features = [FEATURE_GRAPHRAG]\<rparr>,
       \<lparr>es_key_id = ''lic_graphrag_community'',
        es_key_digest = license_digest sha ''oo-live-graphrag-community-key'',
        es_tenant = ''community-user'', es_tier = ''COMMUNITY'', es_quota_per_minute = 10,
        es_expires_at = far_future, es_features = []\<rparr>,
       \<lparr>es_key_id = ''lic_graphrag_lapsed'',
        es_key_digest = license_digest sha ''oo-live-graphrag-lapsed-key'',
        es_tenant = ''lapsed-customer'', es_tier = ''BUSINESS'', es_quota_per_minute = 60,
        es_expires_at = yesterday, es_features = [FEATURE_GRAPHRAG]\<rparr>])"

text \<open>
  \<open>app.state.subscriptions or fallback\<close>: a registry of length zero is falsy.
\<close>

definition choose_registry :: "es_registry option \<Rightarrow> es_registry \<Rightarrow> es_registry" where
  "choose_registry state_registry fallback =
     (case state_registry of Some reg \<Rightarrow> if length reg = 0 then fallback else reg | None \<Rightarrow> fallback)"

datatype verify_error =
    SubscriptionError int string "(string \<times> string) list"
  | VerifyRaised py_exn

definition verify_enterprise_subscription ::
    "(string \<Rightarrow> string) \<Rightarrow> es_registry \<Rightarrow> rat \<Rightarrow> rat \<Rightarrow> string option \<Rightarrow> string option \<Rightarrow> window_quota
      \<Rightarrow> (verify_error + enterprise_subscription \<times> (string \<times> string) list) \<times> window_quota" where
  "verify_enterprise_subscription sha registry mono_now now license_key credentials quota =
     (let header_key = (case license_key of None \<Rightarrow> [] | Some k \<Rightarrow> str_strip k);
          bearer_key = (case credentials of None \<Rightarrow> [] | Some c \<Rightarrow> str_strip c);
          presented = (if header_key \<noteq> [] then header_key else bearer_key)
      in if presented = [] then
           (Inl (SubscriptionError 401 ''license_key_missing'' [(''WWW-Authenticate'', ''Bearer'')]), quota)
         else
           (case es_lookup sha registry presented of
              None \<Rightarrow>
                (Inl (SubscriptionError 401 ''license_key_invalid'' [(''WWW-Authenticate'', ''Bearer'')]), quota)
            | Some subscription \<Rightarrow>
                (case es_is_expired now subscription of
                   Inl e \<Rightarrow> (Inl (VerifyRaised e), quota)
                 | Inr True \<Rightarrow> (Inl (SubscriptionError 402 ''license_expired'' []), quota)
                 | Inr False \<Rightarrow>
                     if \<not> es_has subscription FEATURE_GRAPHRAG then
                       (Inl (SubscriptionError 403 ''feature_not_licensed'' []), quota)
                     else
                       (case window_quota_check mono_now (es_key_id subscription)
                               (es_quota_per_minute subscription) quota of
                          (Inl e, quota') \<Rightarrow> (Inl (VerifyRaised e), quota')
                        | (Inr (allowed, remaining, retry_after), quota') \<Rightarrow>
                            if \<not> allowed then
                              (Inl (SubscriptionError 429 ''quota_exceeded''
                                [(''Retry-After'', retry_after_header retry_after),
                                 (''X-RateLimit-Limit'', int_str (es_quota_per_minute subscription)),
                                 (''X-RateLimit-Remaining'', ''0'')]), quota')
                            else
                              (Inr (subscription,
                                [(''X-RateLimit-Limit'', int_str (es_quota_per_minute subscription)),
                                 (''X-RateLimit-Remaining'', int_str remaining),
                                 (''X-License-Tier'', es_tier subscription)]), quota')))))"

section \<open>The intercept endpoint and its replay cache\<close>

text \<open>
  The handler has two sections between which it awaits the engine: the lookup, and the insertion of
  the command.  The engine is an argument; it threads its own state, which stands for the spending of
  inferences and the drawing of fresh command ids.  The flag of the answer is X-Idempotent-Replay.
\<close>

definition intercept_lookup :: "event_key \<Rightarrow> 'v command_cache \<Rightarrow> 'v option \<times> 'v command_cache" where
  "intercept_lookup key cache = command_cache_get key cache"

definition intercept_store :: "event_key \<Rightarrow> 'v \<Rightarrow> 'v command_cache \<Rightarrow> 'v command_cache" where
  "intercept_store key command cache = command_cache_put key command cache"

definition graphrag_intercept ::
    "event_key \<Rightarrow> ('e \<Rightarrow> ('x + 'v) \<times> 'e) \<Rightarrow> 'v command_cache \<times> 'e
      \<Rightarrow> ('x + ('v \<times> bool)) \<times> ('v command_cache \<times> 'e)" where
  "graphrag_intercept key engine st =
     (let (cached, cache) = intercept_lookup key (fst st) in
      case cached of
        Some command \<Rightarrow> (Inr (command, True), (cache, snd st))
      | None \<Rightarrow>
          (case engine (snd st) of
             (Inl err, e) \<Rightarrow> (Inl err, (cache, e))
           | (Inr command, e) \<Rightarrow> (Inr (command, False), (intercept_store key command cache, e))))"

section \<open>What a gate lets through\<close>

text \<open>The licence of a request that passes every check before the quota.\<close>

definition gate_license :: "(string \<Rightarrow> string) \<Rightarrow> middleware \<Rightarrow> rat \<Rightarrow> http_request \<Rightarrow> license option" where
  "gate_license sha m now r =
     (case request_key m r of
        None \<Rightarrow> None
      | Some key \<Rightarrow>
          (case license_lookup sha (mw_registry m) key of
             None \<Rightarrow> None
           | Some lic \<Rightarrow>
               (case lic_expires_at lic of
                  Naive _ \<Rightarrow> None
                | Aware t \<Rightarrow>
                    if now < t \<and> \<not> lacks_feature lic (required_feature (mw_feature_by_prefix m) (rq_path r))
                    then Some lic else None)))"

lemma dispatch_unlicensed:
  assumes "\<not> is_exempt m (rq_path r)" "gate_license sha m now r = None"
  shows "gs_limiter (snd (dispatch sha m check now i e f r s)) = gs_limiter s \<and>
    gate_state.more (snd (dispatch sha m check now i e f r s)) = gate_state.more s \<and>
    dispatch sha m check now i e f r s = dispatch sha m check now i e g r s \<and>
    (\<forall>resp. fst (dispatch sha m check now i e f r s) = Inr resp \<longrightarrow> rs_status resp \<in> {401, 402, 403})"
  using assms
  by (auto simp: dispatch_def gate_license_def gate_reject_def lic_is_expired_def datetime_expired_def
      error_response_def finalise_def set_header_def Let_def not_less
      split: option.splits py_datetime.splits if_splits bool.splits)

lemma dispatch_refused:
  assumes "\<not> is_exempt m (rq_path r)" "gate_license sha m now r = Some lic"
    and "\<not> admission (fst (check (lic_key_id lic) (lic_quota_per_minute lic) (gs_limiter s)))"
  shows "gs_limiter (snd (dispatch sha m check now i e f r s)) =
      snd (check (lic_key_id lic) (lic_quota_per_minute lic) (gs_limiter s)) \<and>
    gate_state.more (snd (dispatch sha m check now i e f r s)) = gate_state.more s \<and>
    dispatch sha m check now i e f r s = dispatch sha m check now i e g r s \<and>
    (\<forall>resp. fst (dispatch sha m check now i e f r s) = Inr resp \<longrightarrow> rs_status resp = 429)"
  using assms
  by (auto simp: dispatch_def gate_license_def gate_reject_def lic_is_expired_def datetime_expired_def
      error_response_def finalise_def set_header_def Let_def case_prod_beta
      split: option.splits py_datetime.splits if_splits sum.splits bool.splits)

text \<open>A request that does not reach the handler is answered without content.\<close>

lemma dispatch_no_content:
  assumes "\<not> is_exempt m (rq_path r)"
    and "case gate_license sha m now r of None \<Rightarrow> True
      | Some lic \<Rightarrow> \<not> admission (fst (check (lic_key_id lic) (lic_quota_per_minute lic) (gs_limiter s)))"
  shows "\<forall>resp. fst (dispatch sha m check now i e f r s) = Inr resp \<longrightarrow> rs_content resp = None"
  using assms
  by (auto simp: dispatch_def gate_license_def gate_reject_def lic_is_expired_def datetime_expired_def
      error_response_def finalise_def set_header_def Let_def case_prod_beta not_less
      split: option.splits py_datetime.splits if_splits sum.splits bool.splits)

text \<open>
  What is past the gate: the handler runs on the state after the quota decision.
\<close>

lemma dispatch_admitted:
  assumes "\<not> is_exempt m (rq_path r)" "gate_license sha m now r = Some lic"
    and "admission (fst (check (lic_key_id lic) (lic_quota_per_minute lic) (gs_limiter s)))"
  obtains s2 g where "dispatch sha m check now i e f r s = respond g (f (Some lic) s2)"
    "gs_limiter s2 = snd (check (lic_key_id lic) (lic_quota_per_minute lic) (gs_limiter s))"
    "gate_state.more s2 = gate_state.more s" "\<And>resp. rs_status (g resp) = rs_status resp \<and>
      rs_code (g resp) = rs_code resp \<and> rs_content (g resp) = rs_content resp"
proof -
  obtain remaining retry l where a: "check (lic_key_id lic) (lic_quota_per_minute lic) (gs_limiter s) =
      (Inr (True, remaining, retry), l)"
    using assms(3) by (cases "check (lic_key_id lic) (lic_quota_per_minute lic) (gs_limiter s)")
      (auto simp: admission_def split: sum.splits bool.splits)
  obtain t where t: "lic_expires_at lic = Aware t" "now < t"
    "\<not> lacks_feature lic (required_feature (mw_feature_by_prefix m) (rq_path r))"
    using assms(2) by (auto simp: gate_license_def split: option.splits py_datetime.splits if_splits)
  obtain key where k: "request_key m r = Some key" "license_lookup sha (mw_registry m) key = Some lic"
    using assms(2) by (auto simp: gate_license_def split: option.splits py_datetime.splits if_splits)
  let ?i = "case rq_header r ''X-Request-ID'' of Some j \<Rightarrow> if j \<noteq> [] then j else i | None \<Rightarrow> i"
  let ?s2 = "s\<lparr>gs_limiter := l, gs_decisions := gs_decisions s @ [(lic_tier lic, ''admitted'')]\<rparr>"
  let ?g = "\<lambda>resp. finalise ?i e (set_header ''X-License-Tier'' (lic_tier lic)
      (set_header ''X-RateLimit-Remaining'' (int_str remaining)
        (set_header ''X-RateLimit-Limit'' (int_str (lic_quota_per_minute lic)) resp)))"
  have run: "dispatch sha m check now i e f r s = respond ?g (f (Some lic) ?s2)"
    using assms(1) t by (simp add: dispatch_def lic_is_expired_def datetime_expired_def k a not_le)
  show thesis
    by (rule that [OF run]) (simp_all add: a finalise_def set_header_def)
qed

lemma dispatch_exempt:
  "is_exempt m (rq_path r) \<Longrightarrow> \<exists>i' e'. dispatch sha m check now i e f r s = respond (finalise i' e') (f None s)"
  by (auto simp: dispatch_def Let_def)

text \<open>
  A run of the gate in front of a handler that answers 200, and the times at which requests on one
  key id were answered by the handler.
\<close>

definition ok_handler :: "(unit, 's) handler" where
  "ok_handler l s = (Inr \<lparr>rs_status = 200, rs_code = [], rs_headers = [], rs_content = None\<rparr>, s)"

definition served :: "'b http_response raises \<Rightarrow> bool" where
  "served answer = (case answer of Inr resp \<Rightarrow> rs_status resp = 200 | Inl _ \<Rightarrow> False)"

fun served_times ::
    "(string \<Rightarrow> string) \<Rightarrow> middleware \<Rightarrow> rat \<Rightarrow> string \<Rightarrow> (rat \<times> http_request) list
      \<Rightarrow> window_limiter gate_state \<Rightarrow> rat list" where
  "served_times sha m wall key_id [] s = []"
| "served_times sha m wall key_id ((t, r) # rs) s =
     (let (answer, s') = dispatch sha m (sliding_window_check t) (wall + t) [] [] ok_handler r s in
      (if \<not> is_exempt m (rq_path r) \<and> served answer \<and>
          (case gate_license sha m (wall + t) r of Some lic \<Rightarrow> lic_key_id lic = key_id | None \<Rightarrow> False)
       then [t] else []) @
      served_times sha m wall key_id rs s')"

text \<open>The limiter calls such a run makes.\<close>

fun gate_checks ::
    "(string \<Rightarrow> string) \<Rightarrow> middleware \<Rightarrow> rat \<Rightarrow> (rat \<times> http_request) list \<Rightarrow> (rat \<times> string \<times> int) list" where
  "gate_checks sha m wall [] = []"
| "gate_checks sha m wall ((t, r) # rs) =
     (if is_exempt m (rq_path r) then [] else
        (case gate_license sha m (wall + t) r of
           None \<Rightarrow> [] | Some lic \<Rightarrow> [(t, lic_key_id lic, lic_quota_per_minute lic)])) @
     gate_checks sha m wall rs"

lemma served_only_if_admitted:
  assumes "\<not> is_exempt m (rq_path r)" "gate_license sha m now r = Some lic"
    and "served (fst (dispatch sha m check now i e ok_handler r s))"
  shows "admission (fst (check (lic_key_id lic) (lic_quota_per_minute lic) (gs_limiter s)))"
proof (rule ccontr)
  assume n: "\<not> ?thesis"
  obtain resp where resp: "fst (dispatch sha m check now i e ok_handler r s) = Inr resp" "rs_status resp = 200"
    using assms(3) by (auto simp: served_def split: sum.splits)
  have "\<forall>resp. fst (dispatch sha m check now i e ok_handler r s) = Inr resp \<longrightarrow> rs_status resp = 429"
    by (rule dispatch_refused [where check = check and s = s, OF assms(1,2) n,
          THEN conjunct2, THEN conjunct2, THEN conjunct2])
  from this [rule_format, OF resp(1)] resp(2) show False by simp
qed

lemma dispatch_ok_limiter:
  assumes "\<not> is_exempt m (rq_path r)" "gate_license sha m now r = Some lic"
  shows "gs_limiter (snd (dispatch sha m check now i e ok_handler r s)) =
    snd (check (lic_key_id lic) (lic_quota_per_minute lic) (gs_limiter s))"
proof (cases "admission (fst (check (lic_key_id lic) (lic_quota_per_minute lic) (gs_limiter s)))")
  case True
  obtain s2 g where run: "dispatch sha m check now i e ok_handler r s = respond g (ok_handler (Some lic) s2)"
    "gs_limiter s2 = snd (check (lic_key_id lic) (lic_quota_per_minute lic) (gs_limiter s))"
    by (rule dispatch_admitted [where check = check and s = s, OF assms True])
  then show ?thesis by (simp add: respond_def ok_handler_def)
next
  case False
  show ?thesis
    by (rule dispatch_refused [where check = check and s = s, OF assms False, THEN conjunct1])
qed

text \<open>What is served is a sublist of what the limiter admitted.\<close>

lemma in_window_append: "in_window w t (a @ b) = in_window w t a @ in_window w t b"
  by (simp add: in_window_def)

lemma in_window_Nil: "in_window w t [] = []"
  by (simp add: in_window_def)

lemma served_le_admitted:
  "length (in_window w t (served_times sha m wall k rs s)) \<le>
   length (in_window w t (admitted_times sliding_window_check k (gate_checks sha m wall rs) (gs_limiter s)))"
proof (induction rs arbitrary: s)
  case (Cons tr rs)
  obtain now r where tr: "tr = (now, r)" by (cases tr) auto
  let ?d = "dispatch sha m (sliding_window_check now) (wall + now) [] [] ok_handler r s"
  note IH = Cons.IH [of "snd ?d"]
  consider "is_exempt m (rq_path r)" | "\<not> is_exempt m (rq_path r)" "gate_license sha m (wall + now) r = None"
    | lic where "\<not> is_exempt m (rq_path r)" "gate_license sha m (wall + now) r = Some lic"
    by blast
  then show ?case
  proof cases
    case 1
    then obtain i' e' where "?d = respond (finalise i' e') (ok_handler None s)" using dispatch_exempt by blast
    then have "snd ?d = s" by (simp add: respond_def ok_handler_def)
    then show ?thesis using IH 1 by (simp add: tr case_prod_beta)
  next
    case 2
    then show ?thesis using IH 2 dispatch_unlicensed [OF 2, of "sliding_window_check now" "[]" "[]" ok_handler s]
      by (simp add: tr case_prod_beta)
  next
    case 3
    have l: "gs_limiter (snd ?d) =
        snd (sliding_window_check now (lic_key_id lic) (lic_quota_per_minute lic) (gs_limiter s))"
      by (rule dispatch_ok_limiter [OF 3])
    show ?thesis
      using IH served_only_if_admitted [OF 3, of "sliding_window_check now" "[]" "[]" s] 3 l
      by (auto simp: tr case_prod_beta in_window_append in_window_Nil)
  qed
qed simp

lemma gate_checks_times: "sorted (map fst rs) \<Longrightarrow> sorted (map fst (gate_checks sha m wall rs)) \<and>
    set (map fst (gate_checks sha m wall rs)) \<subseteq> set (map fst rs)"
proof (induction rs)
  case (Cons tr rs)
  obtain now r where tr: "tr = (now, r)" by (cases tr) auto
  have IH: "sorted (map fst (gate_checks sha m wall rs))"
    "set (map fst (gate_checks sha m wall rs)) \<subseteq> set (map fst rs)"
    using Cons by (simp_all add: tr)
  have "\<forall>x \<in> set (map fst (gate_checks sha m wall rs)). now \<le> x"
  proof
    fix x assume "x \<in> set (map fst (gate_checks sha m wall rs))"
    then have "x \<in> set (map fst rs)" using IH(2) by blast
    then show "now \<le> x" using Cons.prems by (auto simp: tr)
  qed
  then show ?case using IH by (auto simp: tr split: option.splits)
qed simp

lemma gate_license_registered:
  "gate_license sha m now r = Some lic \<Longrightarrow> (\<exists>d. map_of (mw_registry m) d = Some lic)"
  by (auto simp: gate_license_def license_lookup_def Let_def split: option.splits py_datetime.splits if_splits)

lemma gate_checks_quota:
  assumes "\<forall>e \<in> set (mw_registry m). lic_key_id (snd e) = k \<longrightarrow> lic_quota_per_minute (snd e) = q"
  shows "\<forall>c \<in> set (gate_checks sha m wall rs). fst (snd c) = k \<longrightarrow> snd (snd c) = q"
proof (induction rs)
  case (Cons tr rs)
  obtain now r where tr: "tr = (now, r)" by (cases tr) auto
  have "lic_key_id lic = k \<Longrightarrow> lic_quota_per_minute lic = q"
    if "gate_license sha m (wall + now) r = Some lic" for lic
    using gate_license_registered [OF that] assms by (auto dest!: map_of_SomeD)
  then show ?case using Cons by (auto simp: tr split: option.splits)
qed simp

section \<open>Properties\<close>

text \<open>
  Both services fold a subscription level to the same name, for every spelling, so one billing
  export means the same subscription to both.
\<close>
theorem vocabularies_agree: "normalise_plan v = normalise_tier v"
  by (simp add: normalise_plan_def normalise_tier_def PLAN_ALIASES_def TIER_ALIASES_def)

text \<open>
  The built-in tables of the worker and of the interceptor agree entry by entry on key id,
  digest, tenant, level and expiry; the worker holds one more entry, which is suspended.
\<close>
theorem demo_tables_agree:
  "map (\<lambda>x. (sub_key_id x, sub_key_digest x, sub_tenant x, sub_plan x, sub_expires_at x))
     (filter sub_active (fixture_list sha now)) =
   map (\<lambda>l. (lic_key_id l, lic_key_digest l, lic_tenant l, lic_tier l, lic_expires_at l))
     (demo_license_list sha now) \<and>
   length (fixture_list sha now) = length (demo_license_list sha now) + 1"
  by (simp add: fixture_list_def demo_license_list_def Let_def key_digest_def license_key_digest_def)

text \<open>
  C38: The middleware guards the handler.  When the answer to a non-exempt request, or the state after it,
  depends at all on the handler behind the gate, the request presents a key of a registered, unexpired licence that
  carries the feature of the path, and the quota check admitted it.  A request that fails an earlier
  check is answered 401, 402 or 403 (or the expiry comparison raises) and leaves the quota and
  the state behind the gate as they were; one the quota refuses is answered 429 (or the quota check raises).
\<close>
theorem middleware_guards_handler:
  "\<not> is_exempt m (rq_path r) \<Longrightarrow>
   (dispatch sha m check now i e f r s \<noteq> dispatch sha m check now i e g r s \<longrightarrow>
     (\<exists>key lic t. request_key m r = Some key \<and> license_lookup sha (mw_registry m) key = Some lic \<and>
       lic_expires_at lic = Aware t \<and> now < t \<and>
       \<not> lacks_feature lic (required_feature (mw_feature_by_prefix m) (rq_path r)) \<and>
       admission (fst (check (lic_key_id lic) (lic_quota_per_minute lic) (gs_limiter s))))) \<and>
   (case gate_license sha m now r of
      None \<Rightarrow>
        gs_limiter (snd (dispatch sha m check now i e f r s)) = gs_limiter s \<and>
        gate_state.more (snd (dispatch sha m check now i e f r s)) = gate_state.more s \<and>
        (case fst (dispatch sha m check now i e f r s) of
           Inl _ \<Rightarrow> True | Inr resp \<Rightarrow> rs_status resp \<in> {401, 402, 403})
    | Some lic \<Rightarrow>
        admission (fst (check (lic_key_id lic) (lic_quota_per_minute lic) (gs_limiter s))) \<or>
        (case fst (dispatch sha m check now i e f r s) of Inl _ \<Rightarrow> True | Inr resp \<Rightarrow> rs_status resp = 429))"
proof -
  assume ne: "\<not> is_exempt m (rq_path r)"
  show ?thesis
  proof (cases "gate_license sha m now r")
    case None
    then show ?thesis using dispatch_unlicensed [OF ne None, of check i e f s g]
      by (auto split: sum.splits)
  next
    case (Some lic)
    have known: "\<exists>key t. request_key m r = Some key \<and> license_lookup sha (mw_registry m) key = Some lic \<and>
       lic_expires_at lic = Aware t \<and> now < t \<and>
       \<not> lacks_feature lic (required_feature (mw_feature_by_prefix m) (rq_path r))"
      using Some by (auto simp: gate_license_def split: option.splits py_datetime.splits if_splits)
    show ?thesis
    proof (cases "admission (fst (check (lic_key_id lic) (lic_quota_per_minute lic) (gs_limiter s)))")
      case True
      then show ?thesis using known Some by auto
    next
      case False
      then show ?thesis using dispatch_refused [where check = check and s = s, OF ne Some False, of i e f g] Some by (auto split: sum.splits)
    qed
  qed
qed

text \<open>A gate over one community licence, and requests on it.\<close>

definition demo_gate :: middleware where
  "demo_gate =
     \<lparr>mw_registry = [(''ck'', \<lparr>lic_key_id = ''c1'', lic_key_digest = ''ck'', lic_tenant = ''t'',
        lic_tier = ''COMMUNITY'', lic_quota_per_minute = 10, lic_expires_at = Aware 5,
        lic_features = [''fleet.analytics'']\<rparr>)],
      mw_header = ''X-License-Key'', mw_exempt = EXEMPT_PATHS, mw_feature_by_prefix = FEATURE_BY_PREFIX\<rparr>"

definition demo_request :: "string \<Rightarrow> string \<Rightarrow> http_request" where
  "demo_request path key =
     \<lparr>rq_path = path, rq_header = (\<lambda>h. if h = ''X-License-Key'' then Some key else None)\<rparr>"

theorem middleware_guards_handler_witness:
  "(case gate_license id demo_gate 0 (demo_request ''/v1/intercept'' ''ck'') of
      None \<Rightarrow> True | Some lic \<Rightarrow> False) \<and>
   (case fst (dispatch id demo_gate (sliding_window_check 0) 0 [] [] ok_handler
        (demo_request ''/v1/intercept'' ''ck'')
        \<lparr>gs_limiter = window_limiter_init 60, gs_rejections = [], gs_decisions = []\<rparr>) of
     Inl _ \<Rightarrow> True | Inr resp \<Rightarrow> rs_status resp \<in> {401, 402, 403})"
proof -
  have "\<not> is_exempt demo_gate (rq_path (demo_request ''/v1/intercept'' ''ck''))"
    by (simp add: is_exempt_def demo_gate_def demo_request_def EXEMPT_PATHS_def)
  note t = middleware_guards_handler [OF this, of id "sliding_window_check 0" 0 "[]" "[]" ok_handler
      "\<lparr>gs_limiter = window_limiter_init 60, gs_rejections = [], gs_decisions = []\<rparr>" ok_handler]
  have "gate_license id demo_gate 0 (demo_request ''/v1/intercept'' ''ck'') = None"
    by (simp add: gate_license_def demo_gate_def demo_request_def request_key_def partition_space_def
        license_lookup_def license_key_digest_def FEATURE_BY_PREFIX_def lacks_feature_def lic_has_def
        str_startswith_def str_strip_def is_space_def)
  then show ?thesis using t by simp
qed

text \<open>
  End to end, the gate serves at most the licensed quota: for any nondecreasing sequence of
  requests, the requests on one key id that reach the handler number at most its quota in any
  window, given that the licences registered under that key id agree on the quota.
\<close>
theorem gate_serves_within_quota:
  "sorted (map fst rs) \<Longrightarrow>
   \<forall>e \<in> set (mw_registry m). lic_key_id (snd e) = k \<longrightarrow> lic_quota_per_minute (snd e) = int q \<Longrightarrow>
   length (in_window w t (served_times sha m wall k rs
     \<lparr>gs_limiter = window_limiter_init w, gs_rejections = [], gs_decisions = []\<rparr>)) \<le> q"
proof -
  assume "sorted (map fst rs)"
    and q: "\<forall>e \<in> set (mw_registry m). lic_key_id (snd e) = k \<longrightarrow> lic_quota_per_minute (snd e) = int q"
  then have "sorted (map fst (gate_checks sha m wall rs))" by (simp add: gate_checks_times)
  then have "length (in_window w t (admitted_times sliding_window_check k (gate_checks sha m wall rs)
      (window_limiter_init w))) \<le> q"
    using window_limiter.at_most_limit_per_window [of "gate_checks sha m wall rs" k q "window_limiter_init w" t]
      gate_checks_quota [OF q, of sha wall rs]
    by (simp add: window_limiter_init_def wl_bucket_def)
  then show ?thesis
    using served_le_admitted [of w t sha m wall k rs
        "\<lparr>gs_limiter = window_limiter_init w, gs_rejections = [], gs_decisions = []\<rparr>"]
    by simp
qed

theorem gate_serves_within_quota_witness:
  "length (in_window 60 60 (served_times id demo_gate 0 ''c1''
     [(1, demo_request ''/v1/license'' ''ck''),
      (2, demo_request ''/healthz'' []),
      (3, demo_request ''/v1/license'' ''ck'')]
     \<lparr>gs_limiter = window_limiter_init 60, gs_rejections = [], gs_decisions = []\<rparr>)) \<le> 10"
proof (rule gate_serves_within_quota)
  show "\<forall>e \<in> set (mw_registry demo_gate). lic_key_id (snd e) = ''c1'' \<longrightarrow>
      lic_quota_per_minute (snd e) = int 10"
    by (simp add: demo_gate_def)
qed simp

end
