(* ===== verification/Retry.thy ===== *)
theory Retry
  imports Prelude
begin

text \<open>
  Backpressure and resilience of the command worker: retry_async, parse_retry_after and RateGate of
  command_worker.py.  The operation that is retried threads its own state; the random numbers are a
  sequence, the sleeps are recorded, and the clock readings are arguments.
\<close>

section \<open>retry_async\<close>

text \<open>
  How the helper sees an exception: whether it is a cancellation, whether it is one of the types
  named in \<open>retry_on\<close>, and the two attributes by which it may steer its own retry.
\<close>

record 'e retry_view =
  rv_cancelled :: "'e \<Rightarrow> bool"
  rv_retry_on :: "'e \<Rightarrow> bool"
  rv_should_retry :: "'e \<Rightarrow> bool"
  rv_retry_after :: "'e \<Rightarrow> rat option"

record retry_config =
  rc_attempts :: nat
  rc_base_seconds :: rat
  rc_max_seconds :: rat
  rc_retry_after_cap :: "rat option"

datatype 'e retry_failure = Raised 'e | RetriesExhausted

definition retry_delay :: "retry_config \<Rightarrow> rat \<Rightarrow> nat \<Rightarrow> rat option \<Rightarrow> rat" where
  "retry_delay c rnd attempt hinted =
     (case hinted of
        Some h \<Rightarrow>
          (let delay = (case rc_retry_after_cap c of None \<Rightarrow> h | Some cap \<Rightarrow> min h cap)
           in delay + rnd * min 1 (max delay 0 * (1/10)))
      | None \<Rightarrow>
          (let ceiling = min (rc_max_seconds c) (rc_base_seconds c * 2 ^ (attempt - 1))
           in ceiling / 2 + rnd * (ceiling / 2)))"

text \<open>The loop from a given attempt on; the argument that decreases is the number of attempts left.\<close>

fun retry_from ::
    "retry_config \<Rightarrow> 'e retry_view \<Rightarrow> (nat \<Rightarrow> rat) \<Rightarrow> ('s \<Rightarrow> ('e + 'a) \<times> 's) \<Rightarrow> nat \<Rightarrow> 's
      \<Rightarrow> ('e retry_failure + 'a) \<times> 's \<times> rat list" where
  "retry_from c v rnd operation 0 s = (Inl RetriesExhausted, s, [])"
| "retry_from c v rnd operation (Suc n) s =
     (let attempt = rc_attempts c - n in
      case operation s of
        (Inr a, s') \<Rightarrow> (Inr a, s', [])
      | (Inl e, s') \<Rightarrow>
          if rv_cancelled v e then (Inl (Raised e), s', [])
          else if \<not> rv_retry_on v e then (Inl (Raised e), s', [])
          else if \<not> rv_should_retry v e \<or> attempt = rc_attempts c then (Inl (Raised e), s', [])
          else
            (let delay = retry_delay c (rnd attempt) attempt (rv_retry_after v e);
                 (result, s'', delays) = retry_from c v rnd operation n s'
             in (result, s'', delay # delays)))"

definition retry_async ::
    "retry_config \<Rightarrow> 'e retry_view \<Rightarrow> (nat \<Rightarrow> rat) \<Rightarrow> ('s \<Rightarrow> ('e + 'a) \<times> 's) \<Rightarrow> 's
      \<Rightarrow> ('e retry_failure + 'a) \<times> 's \<times> rat list" where
  "retry_async c v rnd operation s = retry_from c v rnd operation (rc_attempts c) s"

text \<open>The state before the call of a given index, and the outcome of that call.\<close>

fun state_before :: "('s \<Rightarrow> ('e + 'a) \<times> 's) \<Rightarrow> nat \<Rightarrow> 's \<Rightarrow> 's" where
  "state_before operation 0 s = s"
| "state_before operation (Suc i) s = state_before operation i (snd (operation s))"

definition call_outcome :: "('s \<Rightarrow> ('e + 'a) \<times> 's) \<Rightarrow> nat \<Rightarrow> 's \<Rightarrow> 'e + 'a" where
  "call_outcome operation i s = fst (operation (state_before operation i s))"

definition worth_retrying :: "'e retry_view \<Rightarrow> 'e \<Rightarrow> bool" where
  "worth_retrying v e \<longleftrightarrow> \<not> rv_cancelled v e \<and> rv_retry_on v e \<and> rv_should_retry v e"

text \<open>
  Stopping at the call of index k: the calls before it failed with exceptions worth a retry, and it
  succeeded, or failed with one that is not, or was the last one allowed.
\<close>

definition stops_at :: "'e retry_view \<Rightarrow> ('s \<Rightarrow> ('e + 'a) \<times> 's) \<Rightarrow> nat \<Rightarrow> 's \<Rightarrow> nat \<Rightarrow> bool" where
  "stops_at v operation n s k \<longleftrightarrow>
     k < n \<and>
     (\<forall>i < k. \<exists>e. call_outcome operation i s = Inl e \<and> worth_retrying v e) \<and>
     (k = n - 1 \<or> (\<forall>e. call_outcome operation k s = Inl e \<longrightarrow> \<not> worth_retrying v e))"

lemma retry_from_stops:
  assumes "n \<le> rc_attempts c" "0 < n"
  shows "\<exists>k. stops_at v operation n s k \<and>
    fst (retry_from c v rnd operation n s) =
      (case call_outcome operation k s of Inr a \<Rightarrow> Inr a | Inl e \<Rightarrow> Inl (Raised e)) \<and>
    fst (snd (retry_from c v rnd operation n s)) = state_before operation (Suc k) s \<and>
    snd (snd (retry_from c v rnd operation n s)) =
      map (\<lambda>i. retry_delay c (rnd (rc_attempts c - (n - 1) + i)) (rc_attempts c - (n - 1) + i)
                 (case call_outcome operation i s of Inl e \<Rightarrow> rv_retry_after v e | Inr _ \<Rightarrow> None)) [0..<k]"
  using assms
proof (induction n arbitrary: s)
  case (Suc n)
  show ?case
  proof (cases "\<exists>e. fst (operation s) = Inl e \<and> worth_retrying v e \<and> 0 < n")
    case False
    have "stops_at v operation (Suc n) s 0"
      using False by (auto simp: stops_at_def call_outcome_def)
    moreover have "retry_from c v rnd operation (Suc n) s =
        ((case fst (operation s) of Inr a \<Rightarrow> Inr a | Inl e \<Rightarrow> Inl (Raised e)), snd (operation s), [])"
      using False Suc.prems
      by (cases "operation s") (auto simp: worth_retrying_def Let_def split: sum.splits)
    ultimately show ?thesis by (intro exI [of _ 0]) (simp add: call_outcome_def)
  next
    case True
    then obtain e where e: "fst (operation s) = Inl e" "worth_retrying v e" "0 < n" by blast
    let ?s = "snd (operation s)"
    obtain k where k: "stops_at v operation n ?s k"
      "fst (retry_from c v rnd operation n ?s) =
        (case call_outcome operation k ?s of Inr a \<Rightarrow> Inr a | Inl e \<Rightarrow> Inl (Raised e))"
      "fst (snd (retry_from c v rnd operation n ?s)) = state_before operation (Suc k) ?s"
      "snd (snd (retry_from c v rnd operation n ?s)) =
        map (\<lambda>i. retry_delay c (rnd (rc_attempts c - (n - 1) + i)) (rc_attempts c - (n - 1) + i)
                 (case call_outcome operation i ?s of Inl e \<Rightarrow> rv_retry_after v e | Inr _ \<Rightarrow> None)) [0..<k]"
      using Suc.IH [of ?s] Suc.prems e(3) by auto
    have shift: "call_outcome operation (Suc i) s = call_outcome operation i ?s" for i
      by (simp add: call_outcome_def)
    have "stops_at v operation (Suc n) s (Suc k)"
      using k(1) e unfolding stops_at_def
      by (auto simp: shift less_Suc_eq_0_disj) (auto simp: call_outcome_def)
    moreover have "retry_from c v rnd operation (Suc n) s =
        (fst (retry_from c v rnd operation n ?s), fst (snd (retry_from c v rnd operation n ?s)),
         retry_delay c (rnd (rc_attempts c - n)) (rc_attempts c - n) (rv_retry_after v e) #
         snd (snd (retry_from c v rnd operation n ?s)))"
      using e Suc.prems
      by (cases "operation s") (auto simp: worth_retrying_def Let_def case_prod_beta)
    moreover have "[0..<Suc k] = 0 # map Suc [0..<k]" by (simp add: upt_conv_Cons map_Suc_upt del: upt_Suc)
    moreover have "rc_attempts c - n + Suc i = rc_attempts c - (n - 1) + i" for i
      using e(3) Suc.prems(1) by simp
    ultimately show ?thesis
      using k e by (intro exI [of _ "Suc k"]) (auto simp: shift call_outcome_def [of _ 0])
  qed
qed simp

section \<open>parse_retry_after\<close>

text \<open>
  The float parser and the HTTP date parser of the standard library are arguments; the second answers
  with the seconds from now to the date.
\<close>

definition parse_retry_after ::
    "(string \<Rightarrow> pyfloat option) \<Rightarrow> (string \<Rightarrow> rat option) \<Rightarrow> string option \<Rightarrow> rat \<Rightarrow> rat option" where
  "parse_retry_after to_float seconds_until value cap =
     (case value of
        None \<Rightarrow> None
      | Some text \<Rightarrow>
          if text = [] then None
          else
            (let raw = str_strip text in
             case to_float raw of
               Some (Fin seconds) \<Rightarrow> Some (max 0 (min seconds cap))
             | Some _ \<Rightarrow> None
             | None \<Rightarrow>
                 (case seconds_until raw of
                    None \<Rightarrow> None
                  | Some seconds \<Rightarrow> Some (max 0 (min seconds cap)))))"

section \<open>RateGate\<close>

record rate_gate =
  rg_margin :: rat
  rg_rpm :: int
  rg_interval :: rat
  rg_next_at :: rat
  rg_source :: string
  rg_waits :: nat
  rg_wait_seconds :: rat
  rg_cooldowns :: nat
  rg_cooldown_seconds :: rat

definition effective_rpm :: "rat \<Rightarrow> int \<Rightarrow> int" where
  "effective_rpm margin quota = max 1 \<lfloor>of_int quota * margin\<rfloor>"

definition retune :: "int \<Rightarrow> string \<Rightarrow> rate_gate \<Rightarrow> rate_gate" where
  "retune quota_per_minute source g =
     (if quota_per_minute \<le> 0 then g
      else
        (let effective = effective_rpm (rg_margin g) quota_per_minute in
         if effective = rg_rpm g then g
         else g\<lparr>rg_rpm := effective, rg_interval := 60 / of_int effective, rg_source := source\<rparr>))"

definition rate_gate_init :: "int \<Rightarrow> rat \<Rightarrow> rate_gate" where
  "rate_gate_init rpm margin =
     (let g = \<lparr>rg_margin = margin, rg_rpm = 0, rg_interval = 0, rg_next_at = 0, rg_source = ''unlimited'',
               rg_waits = 0, rg_wait_seconds = 0, rg_cooldowns = 0, rg_cooldown_seconds = 0\<rparr>
      in if rpm > 0 then retune rpm ''config'' g else g)"

definition apply_cooldown :: "rat \<Rightarrow> rat \<Rightarrow> rate_gate \<Rightarrow> rate_gate" where
  "apply_cooldown now seconds g =
     (if seconds \<le> 0 then g
      else g\<lparr>rg_cooldowns := Suc (rg_cooldowns g),
             rg_cooldown_seconds := rg_cooldown_seconds g + seconds,
             rg_next_at := max (rg_next_at g) (now + seconds)\<rparr>)"

text \<open>One pass of \<open>_pace\<close>: the time at which the caller may start, which it sleeps until.\<close>

definition pace :: "rat \<Rightarrow> rate_gate \<Rightarrow> rat \<times> rate_gate" where
  "pace now g =
     (let start = max now (rg_next_at g);
          g1 = g\<lparr>rg_next_at := (if rg_interval g > 0 then start + rg_interval g else max (rg_next_at g) now)\<rparr>;
          delay = start - now
      in if delay \<le> 0 then (start, g1)
         else (start, g1\<lparr>rg_waits := Suc (rg_waits g1), rg_wait_seconds := rg_wait_seconds g1 + delay\<rparr>))"

record rate_gate_stats =
  rgs_effective_rpm :: "int option"
  rgs_source :: string
  rgs_paced_waits :: nat
  rgs_paced_seconds :: rat
  rgs_cooldowns :: nat
  rgs_cooldown_seconds :: rat

definition rate_gate_stats_of :: "rate_gate \<Rightarrow> rate_gate_stats" where
  "rate_gate_stats_of g =
     \<lparr>rgs_effective_rpm = (if rg_rpm g = 0 then None else Some (rg_rpm g)),
      rgs_source = rg_source g, rgs_paced_waits = rg_waits g,
      rgs_paced_seconds = py_round (rg_wait_seconds g) 3,
      rgs_cooldowns = rg_cooldowns g, rgs_cooldown_seconds = py_round (rg_cooldown_seconds g) 3\<rparr>"

datatype gate_op = Pace rat | Retune int | Cooldown rat rat

fun gate_step :: "gate_op \<Rightarrow> rate_gate \<Rightarrow> rate_gate" where
  "gate_step (Pace now) g = snd (pace now g)"
| "gate_step (Retune q) g = retune q ''response'' g"
| "gate_step (Cooldown now s) g = apply_cooldown now s g"

text \<open>The start times a sequence of operations hands out.\<close>

fun starts :: "gate_op list \<Rightarrow> rate_gate \<Rightarrow> rat list" where
  "starts [] g = []"
| "starts (Pace now # ops) g = fst (pace now g) # starts ops (snd (pace now g))"
| "starts (Retune q # ops) g = starts ops (gate_step (Retune q) g)"
| "starts (Cooldown now s # ops) g = starts ops (gate_step (Cooldown now s) g)"

lemma pace_start: "fst (pace now g) = max now (rg_next_at g)"
  by (simp add: pace_def Let_def)

lemma pace_next:
  "rg_next_at (snd (pace now g)) =
     (if rg_interval g > 0 then fst (pace now g) + rg_interval g else max (rg_next_at g) now)"
  "rg_interval (snd (pace now g)) = rg_interval g" "rg_rpm (snd (pace now g)) = rg_rpm g"
  "rg_margin (snd (pace now g)) = rg_margin g"
  by (simp_all add: pace_def Let_def)

lemma retune_next: "rg_next_at (retune q src g) = rg_next_at g"
  by (simp add: retune_def Let_def)

lemma cooldown_next:
  "rg_next_at g \<le> rg_next_at (apply_cooldown now s g)"
  "rg_interval (apply_cooldown now s g) = rg_interval g"
  by (simp_all add: apply_cooldown_def)

lemma gate_step_next_mono: "0 \<le> rg_interval g \<Longrightarrow> rg_next_at g \<le> rg_next_at (gate_step op g)"
  by (cases op) (auto simp: pace_next pace_start retune_next cooldown_next)

lemma gate_step_interval: "0 \<le> rg_interval g \<Longrightarrow> 0 \<le> rg_interval (gate_step op g)"
  by (cases op) (auto simp: pace_next retune_def cooldown_next effective_rpm_def Let_def)

lemma starts_after: "0 \<le> rg_interval g \<Longrightarrow> x \<in> set (starts ops g) \<Longrightarrow> rg_next_at g \<le> x"
proof (induction ops g rule: starts.induct)
  case (2 now ops g)
  have "rg_next_at g \<le> rg_next_at (snd (pace now g))"
    using gate_step_next_mono [OF 2(2), of "Pace now"] by simp
  then show ?case using 2 gate_step_interval [OF 2(2), of "Pace now"] by (auto simp: pace_start)
next
  case (3 q ops g)
  then show ?case using gate_step_interval [of g "Retune q"] by (auto simp: retune_next)
next
  case (4 now s ops g)
  have "rg_next_at g \<le> rg_next_at (gate_step (Cooldown now s) g)" by (simp add: cooldown_next)
  then show ?case using 4 gate_step_interval [of g "Cooldown now s"] by force
qed simp

text \<open>Starts that are spaced by at least d.\<close>

fun spaced :: "rat \<Rightarrow> rat list \<Rightarrow> bool" where
  "spaced d [] = True"
| "spaced d [x] = True"
| "spaced d (x # y # zs) = (x + d \<le> y \<and> spaced d (y # zs))"

lemma spaced_Cons: "spaced d xs \<Longrightarrow> (\<And>y. y \<in> set xs \<Longrightarrow> x + d \<le> y) \<Longrightarrow> spaced d (x # xs)"
  by (cases xs) auto

fun no_retune :: "gate_op \<Rightarrow> bool" where
  "no_retune (Retune q) = False"
| "no_retune _ = True"

lemma starts_spaced:
  "list_all no_retune ops \<Longrightarrow> 0 < rg_interval g \<Longrightarrow> spaced (rg_interval g) (starts ops g)"
proof (induction ops g rule: starts.induct)
  case (2 now ops g)
  have "x \<in> set (starts ops (snd (pace now g))) \<Longrightarrow> fst (pace now g) + rg_interval g \<le> x" for x
    using starts_after [of "snd (pace now g)" x ops] 2(3) by (simp add: pace_next)
  then show ?case using 2 by (auto simp: pace_next intro: spaced_Cons)
qed (simp_all add: cooldown_next)

lemma spaced_span:
  "spaced d xs \<Longrightarrow> 0 \<le> d \<Longrightarrow> xs \<noteq> [] \<Longrightarrow> hd xs + of_nat (length xs - 1) * d \<le> last xs"
proof (induction d xs rule: spaced.induct)
  case (3 d x y zs)
  have "y + of_nat (length zs) * d \<le> last (y # zs)" using 3 by simp
  moreover have "x + d \<le> y" using 3 by simp
  ultimately show ?case by (simp add: distrib_right)
qed simp_all

lemma spaced_filter:
  assumes "spaced d xs" "0 \<le> d"
  shows "spaced d (filter P xs)"
proof -
  have lower: "spaced d (x # xs) \<Longrightarrow> y \<in> set xs \<Longrightarrow> x + d \<le> y" for x xs y
    using assms(2) by (induction xs arbitrary: x) fastforce+
  show ?thesis using assms(1)
  proof (induction xs)
    case (Cons x xs)
    have "spaced d xs" using Cons.prems by (cases xs) auto
    then show ?case using Cons.IH lower [OF Cons.prems] by (auto intro: spaced_Cons)
  qed simp
qed

lemma spaced_window_count:
  assumes "spaced (60 / of_int r) xs" "0 < r"
  shows "int (length (filter (\<lambda>x. t \<le> x \<and> x < t + 60) xs)) \<le> r"
proof (cases "filter (\<lambda>x. t \<le> x \<and> x < t + 60) xs = []")
  case True
  then show ?thesis using assms(2) by simp
next
  case False
  let ?ys = "filter (\<lambda>x. t \<le> x \<and> x < t + 60) xs"
  have d: "(0::rat) < of_int r" using assms(2) by simp
  have s: "spaced (60 / of_int r) ?ys" using assms d by (intro spaced_filter) auto
  have "hd ?ys \<in> set ?ys" "last ?ys \<in> set ?ys" using False hd_in_set last_in_set by blast+
  then have b: "t \<le> hd ?ys" "last ?ys < t + 60" by auto
  have "hd ?ys + of_nat (length ?ys - 1) * (60 / of_int r) \<le> last ?ys"
    using spaced_span [OF s] d False by simp
  then have "of_nat (length ?ys - 1) * (60 / of_int r) < (60::rat)" using b by linarith
  then have "of_nat (length ?ys - 1) < (of_int r :: rat)" using d by (simp add: field_simps)
  then have "int (length ?ys - 1) < r"
    by (metis of_int_less_iff of_int_of_nat_eq)
  moreover have "length ?ys \<noteq> 0" using False by simp
  ultimately show ?thesis by linarith
qed

section \<open>Properties\<close>

text \<open>
  C33: retry_async makes between one and the configured number of calls.  It stops at the first call
  that succeeds, is cancelled, fails with an exception outside the named types or one that declines
  a retry, or at the last attempt; it hands on what that call returned or raised, never the
  RuntimeError after the loop; and it sleeps once between consecutive calls, by the delay of that
  attempt.
\<close>
theorem retry_async_outcome:
  "0 < rc_attempts c \<Longrightarrow>
   \<exists>k. stops_at v operation (rc_attempts c) s k \<and>
     fst (retry_async c v rnd operation s) =
       (case call_outcome operation k s of Inr a \<Rightarrow> Inr a | Inl e \<Rightarrow> Inl (Raised e)) \<and>
     fst (snd (retry_async c v rnd operation s)) = state_before operation (Suc k) s \<and>
     snd (snd (retry_async c v rnd operation s)) =
       map (\<lambda>i. retry_delay c (rnd (Suc i)) (Suc i)
                 (case call_outcome operation i s of Inl e \<Rightarrow> rv_retry_after v e | Inr _ \<Rightarrow> None)) [0..<k]"
  using retry_from_stops [of "rc_attempts c" c v operation s rnd]
  by (simp add: retry_async_def)

definition demo_retry :: retry_config where
  "demo_retry = \<lparr>rc_attempts = 3, rc_base_seconds = 1, rc_max_seconds = 5, rc_retry_after_cap = Some 30\<rparr>"

definition demo_view :: "nat retry_view" where
  "demo_view = \<lparr>rv_cancelled = (\<lambda>e. False), rv_retry_on = (\<lambda>e. True), rv_should_retry = (\<lambda>e. e \<noteq> 400),
     rv_retry_after = (\<lambda>e. if e = 429 then Some 2 else None)\<rparr>"

text \<open>An operation that answers with the entries of a list in turn.\<close>

definition scripted :: "(nat + nat) list \<Rightarrow> (nat + nat) \<times> (nat + nat) list" where
  "scripted rs = (hd rs, tl rs)"

theorem retry_async_outcome_witness:
  "\<exists>k. stops_at demo_view scripted 3 [Inl 429, Inr 7] k \<and>
     fst (retry_async demo_retry demo_view (\<lambda>i. 0) scripted [Inl 429, Inr 7]) =
       (case call_outcome scripted k [Inl 429, Inr 7] of Inr a \<Rightarrow> Inr a | Inl e \<Rightarrow> Inl (Raised e))"
  using retry_async_outcome [of demo_retry demo_view scripted "[Inl 429, Inr 7]" "\<lambda>i. 0"]
  by (auto simp: demo_retry_def)

text \<open>
  Every backoff is bounded.  Without a hint it lies between half the exponential ceiling and
  the ceiling, hence within max_seconds; with a hint and a cap it is at least the capped hint and
  exceeds it by at most a tenth and at most one second, so no server can park a consumer for longer
  than the cap and one second.
\<close>
theorem retry_delay_bounds:
  "0 \<le> rnd \<Longrightarrow> rnd < 1 \<Longrightarrow> 0 < rc_base_seconds c \<Longrightarrow> 0 < rc_max_seconds c \<Longrightarrow> 0 \<le> hint \<Longrightarrow> 0 \<le> cap \<Longrightarrow>
   rc_retry_after_cap c = Some cap \<Longrightarrow>
   0 < retry_delay c rnd attempt None \<and>
   min (rc_max_seconds c) (rc_base_seconds c * 2 ^ (attempt - 1)) / 2 \<le> retry_delay c rnd attempt None \<and>
   retry_delay c rnd attempt None \<le> rc_max_seconds c \<and>
   min hint cap \<le> retry_delay c rnd attempt (Some hint) \<and>
   retry_delay c rnd attempt (Some hint) \<le> min hint cap + min 1 (min hint cap / 10) \<and>
   retry_delay c rnd attempt (Some hint) \<le> cap + 1"
proof -
  assume r: "0 \<le> rnd" "rnd < 1" and b: "0 < rc_base_seconds c" "0 < rc_max_seconds c"
    and h: "0 \<le> hint" "0 \<le> cap" and cap: "rc_retry_after_cap c = Some cap"
  let ?ceil = "min (rc_max_seconds c) (rc_base_seconds c * 2 ^ (attempt - 1))"
  have c: "0 < ?ceil" using b by simp
  have n: "retry_delay c rnd attempt None = ?ceil / 2 + rnd * (?ceil / 2)"
    by (simp add: retry_delay_def Let_def)
  have scale: "0 \<le> x \<Longrightarrow> 0 \<le> rnd * x \<and> rnd * x \<le> x" for x
    using r by (simp add: mult_left_le_one_le)
  have h1: "retry_delay c rnd attempt (Some hint) = min hint cap + rnd * min 1 (min hint cap / 10)"
  proof -
    have "max (min hint cap) 0 = min hint cap" using h by simp
    then show ?thesis using cap by (simp add: retry_delay_def Let_def)
  qed
  have m: "0 \<le> min 1 (min hint cap / 10)" using h by simp
  have "min hint cap \<le> cap" "min 1 (min hint cap / 10) \<le> 1" by simp_all
  then show ?thesis
    unfolding n h1 using c scale [of "?ceil / 2"] scale [OF m] by linarith
qed

theorem retry_delay_bounds_witness:
  "retry_delay demo_retry (1/2) 3 None \<le> 5 \<and> retry_delay demo_retry (1/2) 1 (Some 3600) \<le> 31"
  using retry_delay_bounds [of "1/2" demo_retry 3600 30 3] retry_delay_bounds [of "1/2" demo_retry 3600 30 1]
  by (simp add: demo_retry_def)

text \<open>
  A Retry-After header, in either of its forms and however malformed or hostile, parses to no
  hint or to a wait between zero and the cap, for any float and date parsers.
\<close>
theorem parse_retry_after_bounded:
  "0 \<le> cap \<Longrightarrow>
   (case parse_retry_after to_float seconds_until value cap of None \<Rightarrow> True | Some w \<Rightarrow> 0 \<le> w \<and> w \<le> cap) \<and>
   (to_float raw = Some (Fin x) \<and> 0 \<le> x \<and> x \<le> cap \<and> raw = str_strip text \<and> text \<noteq> [] \<longrightarrow>
     parse_retry_after to_float seconds_until (Some text) cap = Some x)"
  by (auto simp: parse_retry_after_def Let_def split: option.splits pyfloat.splits)

theorem parse_retry_after_bounded_witness:
  "parse_retry_after (\<lambda>t. if t = ''5'' then Some (Fin 5) else None) (\<lambda>t. None) (Some ''5'') 30 = Some 5"
proof -
  have "str_strip ''5'' = ''5''" by code_simp
  then show ?thesis
    using parse_retry_after_bounded [of 30 "\<lambda>t. if t = ''5'' then Some (Fin 5) else None" "\<lambda>t. None" None
        "''5''" 5 "''5''"]
    by simp
qed

text \<open>
  C34: The pacer keeps to the subscription.  A quota is turned into at least one call a minute and,
  from one call on, into no more than the margin's share of it; and while the tuning stands, whatever
  the clock readings and however cooldowns are interleaved, consecutive calls start at least
  60/rpm seconds apart, so that no interval of a minute holds more than rpm starts.
\<close>
theorem rate_gate_keeps_quota:
  "0 < quota \<Longrightarrow> 0 < rg_margin g \<Longrightarrow> rg_margin g \<le> 1 \<Longrightarrow> rg_rpm g \<noteq> effective_rpm (rg_margin g) quota \<Longrightarrow>
   list_all no_retune ops \<Longrightarrow>
   rg_rpm (retune quota src g) = effective_rpm (rg_margin g) quota \<and>
   1 \<le> rg_rpm (retune quota src g) \<and> rg_rpm (retune quota src g) \<le> quota \<and>
   of_int (rg_rpm (retune quota src g)) \<le> max 1 (of_int quota * rg_margin g) \<and>
   spaced (60 / of_int (rg_rpm (retune quota src g))) (starts ops (retune quota src g)) \<and>
   int (length (filter (\<lambda>x. t \<le> x \<and> x < t + 60) (starts ops (retune quota src g)))) \<le>
     rg_rpm (retune quota src g)"
proof -
  assume q: "0 < quota" and m: "0 < rg_margin g" "rg_margin g \<le> 1"
    and ne: "rg_rpm g \<noteq> effective_rpm (rg_margin g) quota" and ops: "list_all no_retune ops"
  let ?g = "retune quota src g"
  let ?r = "effective_rpm (rg_margin g) quota"
  have g: "rg_rpm ?g = ?r" "rg_interval ?g = 60 / of_int ?r"
    using q ne by (simp_all add: retune_def Let_def)
  have r1: "1 \<le> ?r" by (simp add: effective_rpm_def)
  have "of_int quota * rg_margin g \<le> of_int quota * 1" using q m(2) by (intro mult_left_mono) auto
  then have "\<lfloor>of_int quota * rg_margin g\<rfloor> \<le> quota" by (simp add: floor_le_iff)
  then have r2: "?r \<le> quota" using q by (simp add: effective_rpm_def)
  have r3: "of_int ?r \<le> max 1 (of_int quota * rg_margin g)"
    by (auto simp: effective_rpm_def max_def)
  have "0 < rg_interval ?g" using r1 by (simp add: g)
  then have sp: "spaced (60 / of_int ?r) (starts ops ?g)" using starts_spaced [OF ops] g by metis
  then show ?thesis using spaced_window_count [OF sp] r1 r2 r3 g by simp
qed

theorem rate_gate_keeps_quota_witness:
  "int (length (filter (\<lambda>x. 0 \<le> x \<and> x < 0 + 60)
     (starts [Pace 1, Cooldown 2 5, Pace 3, Pace 4] (retune 600 ''preflight'' (rate_gate_init 0 0.9))))) \<le>
     rg_rpm (retune 600 ''preflight'' (rate_gate_init 0 0.9))"
proof -
  have "rg_margin (rate_gate_init 0 0.9) = 0.9" "rg_rpm (rate_gate_init 0 0.9) = 0"
    by (simp_all add: rate_gate_init_def Let_def)
  moreover have "rg_rpm (rate_gate_init 0 0.9) \<noteq> effective_rpm (rg_margin (rate_gate_init 0 0.9)) 600"
    by (simp add: rate_gate_init_def Let_def effective_rpm_def)
  ultimately show ?thesis
    using rate_gate_keeps_quota [where quota = 600 and g = "rate_gate_init 0 0.9" and t = 0 and
        src = "''preflight''" and ops = "[Pace 1, Cooldown 2 5, Pace 3, Pace 4]"]
    by simp
qed

text \<open>
  A cooldown stalls every caller: after the interceptor's 429 asked for s seconds at time now,
  every call handed out by any later sequence of operations, retunes included, starts at now + s or
  after.
\<close>
theorem cooldown_stalls_everyone:
  "0 < s \<Longrightarrow> 0 \<le> rg_interval g \<Longrightarrow> x \<in> set (starts ops (apply_cooldown now s g)) \<Longrightarrow> now + s \<le> x"
proof -
  assume s: "0 < s" and i: "0 \<le> rg_interval g" and x: "x \<in> set (starts ops (apply_cooldown now s g))"
  have "now + s \<le> rg_next_at (apply_cooldown now s g)" using s by (simp add: apply_cooldown_def)
  moreover have "rg_next_at (apply_cooldown now s g) \<le> x"
    using starts_after [OF _ x] i by (simp add: cooldown_next)
  ultimately show ?thesis by linarith
qed

theorem cooldown_stalls_everyone_witness:
  "(2::rat) + 5 \<le> 7 \<and> 7 \<in> set (starts [Pace 3] (apply_cooldown 2 5 (rate_gate_init 0 1)))"
proof -
  have x: "7 \<in> set (starts [Pace 3] (apply_cooldown 2 5 (rate_gate_init 0 1)))"
    by (simp add: pace_start apply_cooldown_def rate_gate_init_def Let_def)
  have "0 \<le> rg_interval (rate_gate_init 0 1)" by (simp add: rate_gate_init_def Let_def)
  then show ?thesis using cooldown_stalls_everyone [OF _ _ x] x by simp
qed

end
