(* ===== verification/Contracts.thy ===== *)
theory Contracts
  imports Licensing
begin

text \<open>
  The contracts of the command worker and the step between them: the inbound mutation, the plan of
  the AI interceptor, the command published to the actuation topic, and translate_plan, which turns
  the second into the third (command_worker.py).

  Coercing JSON into the typed records is the work of the validation library and is an argument of
  the definitions that need it; the bounds and validators the classes declare are written out here.
  The name based UUID is an argument too.
\<close>

section \<open>Failures of the closure loop\<close>

record interceptor_error =
  ie_permanent :: bool
  ie_retryable :: bool
  ie_status_code :: "int option"
  ie_retry_after :: "rat option"

definition should_retry :: "interceptor_error \<Rightarrow> bool" where
  "should_retry e \<longleftrightarrow> ie_retryable e \<and> \<not> ie_permanent e"

datatype worker_exn =
    GateRejected string
  | PermanentMessageError string
  | TransientFailure string
  | InterceptorError interceptor_error
  | OtherExn py_exn

section \<open>The inbound mutation\<close>

datatype severity = SevInfo | SevHigh | SevCritical

datatype transition_kind = TransRaised | TransEscalated | TransSustained | TransCleared

record operator =
  op_operator_id :: string
  op_name :: string
  op_escalation_order :: int

record system_node =
  sn_node_id :: string
  sn_name :: string
  sn_depth :: int

record ontology_context =
  oc_asset_name :: string
  oc_criticality :: string
  oc_parent_systems :: "system_node list"
  oc_components :: "string list"
  oc_assigned_operators :: "operator list"
  oc_maintenance_window :: "string option"

record rule_trigger =
  rt_rule_id :: string
  rt_sensor_id :: string
  rt_threshold :: rat
  rt_unit :: "string option"
  rt_observed_value :: rat

record mutation =
  mu_event_id :: string
  mu_schema_version :: string
  mu_asset_id :: string
  mu_transition :: transition_kind
  mu_severity :: severity
  mu_breach_count :: int
  mu_rule :: rule_trigger
  mu_snapshot_complete :: bool
  mu_context :: ontology_context
  mu_degraded :: bool

definition null_collection_is_empty :: "json \<Rightarrow> json" where
  "null_collection_is_empty value = (if value = JNull then JList [] else value)"

definition primary_operator :: "ontology_context \<Rightarrow> operator option" where
  "primary_operator c = py_min_by op_escalation_order (oc_assigned_operators c)"

definition escalation_chain :: "ontology_context \<Rightarrow> operator list" where
  "escalation_chain c = sort_key op_escalation_order (oc_assigned_operators c)"

definition immediate_parent :: "ontology_context \<Rightarrow> system_node option" where
  "immediate_parent c = py_min_by sn_depth (oc_parent_systems c)"

definition SUPPORTED_MUTATION_SCHEMAS :: "string list" where
  "SUPPORTED_MUTATION_SCHEMAS = [''openontology.mutation.v1'', ''openontology.mutation.v2'']"

definition known_schema :: "string \<Rightarrow> bool" where
  "known_schema value \<longleftrightarrow> list_ex (str_startswith value) SUPPORTED_MUTATION_SCHEMAS"

definition mutation_ok :: "mutation \<Rightarrow> bool" where
  "mutation_ok m \<longleftrightarrow>
     mu_event_id m \<noteq> [] \<and> mu_asset_id m \<noteq> [] \<and> length (mu_asset_id m) \<le> 128 \<and>
     known_schema (mu_schema_version m)"

text \<open>Validation of a record: coercion by the library, then the declared constraints.\<close>

definition validate_mutation :: "((string \<times> json) list \<Rightarrow> mutation option) \<Rightarrow> (string \<times> json) list \<Rightarrow> mutation option" where
  "validate_mutation coerce payload =
     (case coerce payload of None \<Rightarrow> None | Some m \<Rightarrow> if mutation_ok m then Some m else None)"

section \<open>Actions and priorities\<close>

datatype action_type =
    ISOLATE
  | SHUTDOWN
  | SHIFT_SPEED
  | INSPECT
  | SCHEDULE_MAINTENANCE
  | NOTIFY
  | ACKNOWLEDGE

fun action_value :: "action_type \<Rightarrow> string" where
  "action_value ISOLATE = ''ISOLATE''"
| "action_value SHUTDOWN = ''SHUTDOWN''"
| "action_value SHIFT_SPEED = ''SHIFT_SPEED''"
| "action_value INSPECT = ''INSPECT''"
| "action_value SCHEDULE_MAINTENANCE = ''SCHEDULE_MAINTENANCE''"
| "action_value NOTIFY = ''NOTIFY''"
| "action_value ACKNOWLEDGE = ''ACKNOWLEDGE''"

definition is_irreversible :: "action_type \<Rightarrow> bool" where
  "is_irreversible a \<longleftrightarrow> a \<in> {ISOLATE, SHUTDOWN}"

datatype execution_priority = PrioCritical | PrioHigh | PrioLow

definition ACTION_ALIASES :: "(string \<times> action_type) list" where
  "ACTION_ALIASES =
     [(''ISOLATE'', ISOLATE),
      (''SHUTDOWN'', SHUTDOWN),
      (''STOP'', SHUTDOWN),
      (''SHIFT_SPEED'', SHIFT_SPEED),
      (''THROTTLE'', SHIFT_SPEED),
      (''DERATE'', SHIFT_SPEED),
      (''REDUCE_LOAD'', SHIFT_SPEED),
      (''INSPECT'', INSPECT),
      (''SCHEDULE_MAINTENANCE'', SCHEDULE_MAINTENANCE),
      (''MAINTENANCE'', SCHEDULE_MAINTENANCE),
      (''NOTIFY'', NOTIFY),
      (''ALERT'', NOTIFY),
      (''ACKNOWLEDGE'', ACKNOWLEDGE),
      (''ACK'', ACKNOWLEDGE)]"

definition PRIORITY_ALIASES :: "(string \<times> execution_priority) list" where
  "PRIORITY_ALIASES =
     [(''CRITICAL'', PrioCritical),
      (''EMERGENCY'', PrioCritical),
      (''P0'', PrioCritical),
      (''HIGH'', PrioHigh),
      (''URGENT'', PrioHigh),
      (''P1'', PrioHigh),
      (''MEDIUM'', PrioLow),
      (''NORMAL'', PrioLow),
      (''LOW'', PrioLow),
      (''INFO'', PrioLow),
      (''P2'', PrioLow),
      (''P3'', PrioLow)]"

section \<open>The plan\<close>

record planned_action =
  pa_sequence :: int
  pa_target_component :: string
  pa_action :: string
  pa_priority :: string
  pa_assigned_to :: string
  pa_assigned_operator_id :: "string option"
  pa_parameters :: "(string \<times> json) list"
  pa_expected_effect :: string
  pa_rollback :: "string option"
  pa_deadline_seconds :: int

record escalation =
  es_required :: bool
  es_notify :: "string list"
  es_reason :: string
  es_sla_seconds :: int

record action_plan =
  pl_plan_id :: string
  pl_event_id :: string
  pl_asset_id :: string
  pl_tenant :: string
  pl_model :: string
  pl_confidence :: rat
  pl_reasoning_summary :: string
  pl_commands :: "planned_action list"
  pl_escalation :: escalation
  pl_evidence :: "string list"
  pl_latency_ms :: rat

definition planned_action_ok :: "planned_action \<Rightarrow> bool" where
  "planned_action_ok p \<longleftrightarrow>
     1 \<le> pa_sequence p \<and> pa_action p \<noteq> [] \<and> pa_priority p \<noteq> [] \<and>
     0 \<le> pa_deadline_seconds p \<and> pa_deadline_seconds p \<le> 604800"

definition action_plan_ok :: "action_plan \<Rightarrow> bool" where
  "action_plan_ok p \<longleftrightarrow>
     pl_plan_id p \<noteq> [] \<and> pl_event_id p \<noteq> [] \<and> pl_asset_id p \<noteq> [] \<and>
     0 \<le> pl_confidence p \<and> pl_confidence p \<le> 1 \<and> pl_commands p \<noteq> [] \<and>
     list_all planned_action_ok (pl_commands p) \<and> 0 \<le> es_sla_seconds (pl_escalation p)"

section \<open>The command\<close>

record command_payload =
  cp_command_id :: string
  cp_target_asset_id :: string
  cp_action_type :: action_type
  cp_execution_priority :: execution_priority
  cp_issued_at :: rat
  cp_tenant :: string
  cp_license_key_id :: string
  cp_source_event_id :: string
  cp_plan_id :: string
  cp_correlation_id :: string
  cp_sequence :: int
  cp_target_component :: "string option"
  cp_parameters :: "(string \<times> json) list"
  cp_expected_effect :: string
  cp_rollback :: "string option"
  cp_assigned_to :: string
  cp_assigned_operator_id :: "string option"
  cp_deadline_seconds :: int
  cp_expires_at :: rat
  cp_requires_human_approval :: bool
  cp_escalation_required :: bool
  cp_confidence :: rat
  cp_trigger_sensor_id :: string
  cp_trigger_severity :: severity
  cp_trigger_transition :: transition_kind
  cp_context_degraded :: bool

definition asset_separators :: "char list" where
  "asset_separators = [CHR '' '', CHR 0x09, CHR 0x0A, CHR '':'', CHR ''|'', CHR ''/'']"

definition identifier_shape :: "string \<Rightarrow> bool" where
  "identifier_shape value \<longleftrightarrow>
     value \<noteq> [] \<and> is_alnum (hd value) \<and> list_all (\<lambda>c. c \<notin> set asset_separators) value"

definition command_ok :: "command_payload \<Rightarrow> bool" where
  "command_ok c \<longleftrightarrow>
     cp_target_asset_id c \<noteq> [] \<and> length (cp_target_asset_id c) \<le> 128 \<and>
     identifier_shape (cp_target_asset_id c) \<and>
     cp_tenant c \<noteq> [] \<and> cp_license_key_id c \<noteq> [] \<and> cp_source_event_id c \<noteq> [] \<and> cp_plan_id c \<noteq> [] \<and>
     cp_correlation_id c \<noteq> [] \<and> 1 \<le> cp_sequence c \<and>
     0 \<le> cp_deadline_seconds c \<and> cp_deadline_seconds c \<le> 604800 \<and>
     0 \<le> cp_confidence c \<and> cp_confidence c \<le> 1"

text \<open>The model strips its strings, the keys of the parameters included, before it checks them.\<close>

definition strip_keys :: "(string \<times> json) list \<Rightarrow> (string \<times> json) list" where
  "strip_keys kvs = fold (\<lambda>(k, v) d. AList.update (str_strip k) v d) kvs []"

definition strip_command :: "command_payload \<Rightarrow> command_payload" where
  "strip_command c =
     c\<lparr>cp_target_asset_id := str_strip (cp_target_asset_id c), cp_tenant := str_strip (cp_tenant c),
       cp_license_key_id := str_strip (cp_license_key_id c),
       cp_source_event_id := str_strip (cp_source_event_id c), cp_plan_id := str_strip (cp_plan_id c),
       cp_correlation_id := str_strip (cp_correlation_id c),
       cp_target_component := map_option str_strip (cp_target_component c),
       cp_parameters := strip_keys (cp_parameters c),
       cp_expected_effect := str_strip (cp_expected_effect c),
       cp_rollback := map_option str_strip (cp_rollback c),
       cp_assigned_to := str_strip (cp_assigned_to c),
       cp_assigned_operator_id := map_option str_strip (cp_assigned_operator_id c),
       cp_trigger_sensor_id := str_strip (cp_trigger_sensor_id c)\<rparr>"

definition make_command :: "command_payload \<Rightarrow> command_payload raises" where
  "make_command raw =
     (let c = strip_command raw in if command_ok c then Inr c else Inl ValidationErrorExn)"

definition kafka_key :: "command_payload \<Rightarrow> string" where
  "kafka_key c = cp_target_asset_id c"

section \<open>Translation\<close>

definition command_name :: "string \<Rightarrow> int \<Rightarrow> action_type \<Rightarrow> string" where
  "command_name event_id sequence action =
     event_id @ ''|'' @ int_str sequence @ ''|'' @ action_value action"

definition deterministic_command_id :: "(string \<Rightarrow> string) \<Rightarrow> string \<Rightarrow> int \<Rightarrow> action_type \<Rightarrow> string" where
  "deterministic_command_id uuid5 event_id sequence action = uuid5 (command_name event_id sequence action)"

definition requires_approval :: "subscription \<Rightarrow> action_type \<Rightarrow> bool" where
  "requires_approval s action \<longleftrightarrow> \<not> (autonomous_execution_allowed s \<and> \<not> is_irreversible action)"

definition translate_step ::
    "(string \<Rightarrow> string) \<Rightarrow> rat \<Rightarrow> mutation \<Rightarrow> action_plan \<Rightarrow> subscription \<Rightarrow> settings \<Rightarrow> string
      \<Rightarrow> int \<times> planned_action \<Rightarrow> worker_exn + command_payload" where
  "translate_step uuid5 issued_at mutation plan subscription settings correlation_id step =
     (let (index, planned) = step in
      case map_of ACTION_ALIASES (str_upper (str_strip (pa_action planned))) of
        None \<Rightarrow> Inl (PermanentMessageError ''unknown_action_type'')
      | Some action \<Rightarrow>
          (case map_of PRIORITY_ALIASES (str_upper (str_strip (pa_priority planned))) of
             None \<Rightarrow> Inl (PermanentMessageError ''unknown_execution_priority'')
           | Some priority \<Rightarrow>
               (let deadline = (if pa_deadline_seconds planned \<noteq> 0 then pa_deadline_seconds planned
                                else s_default_deadline_seconds settings) in
                case make_command
                       \<lparr>cp_command_id = deterministic_command_id uuid5 (mu_event_id mutation) index action,
                        cp_target_asset_id = mu_asset_id mutation,
                        cp_action_type = action,
                        cp_execution_priority = priority,
                        cp_issued_at = issued_at,
                        cp_tenant = sub_tenant subscription,
                        cp_license_key_id = sub_key_id subscription,
                        cp_source_event_id = mu_event_id mutation,
                        cp_plan_id = pl_plan_id plan,
                        cp_correlation_id = correlation_id,
                        cp_sequence = index,
                        cp_target_component = (if pa_target_component planned = [] then None
                                               else Some (pa_target_component planned)),
                        cp_parameters = pa_parameters planned,
                        cp_expected_effect = pa_expected_effect planned,
                        cp_rollback = pa_rollback planned,
                        cp_assigned_to = pa_assigned_to planned,
                        cp_assigned_operator_id = pa_assigned_operator_id planned,
                        cp_deadline_seconds = deadline,
                        cp_expires_at = issued_at + of_int deadline,
                        cp_requires_human_approval = requires_approval subscription action,
                        cp_escalation_required = es_required (pl_escalation plan),
                        cp_confidence = pl_confidence plan,
                        cp_trigger_sensor_id = rt_sensor_id (mu_rule mutation),
                        cp_trigger_severity = mu_severity mutation,
                        cp_trigger_transition = mu_transition mutation,
                        cp_context_degraded = mu_degraded mutation\<rparr> of
                  Inl _ \<Rightarrow> Inl (PermanentMessageError ''command_contract_violation'')
                | Inr command \<Rightarrow> Inr command)))"

definition numbered :: "'a list \<Rightarrow> (int \<times> 'a) list" where
  "numbered xs = zip (map int [1..<Suc (length xs)]) xs"

definition translate_plan ::
    "(string \<Rightarrow> string) \<Rightarrow> rat \<Rightarrow> mutation \<Rightarrow> action_plan \<Rightarrow> subscription \<Rightarrow> settings \<Rightarrow> string
      \<Rightarrow> worker_exn + command_payload list" where
  "translate_plan uuid5 issued_at mutation plan subscription settings correlation_id =
     bind_r (map_r (translate_step uuid5 issued_at mutation plan subscription settings correlation_id)
               (numbered (take (nat (s_max_commands settings)) (pl_commands plan))))
       (\<lambda>commands. if commands = [] then Inl (PermanentMessageError ''empty_action_plan'') else Inr commands)"

section \<open>Lemmas on translation\<close>

lemma length_numbered [simp]: "length (numbered xs) = length xs"
  by (simp add: numbered_def del: upt_Suc)

lemma numbered_nth: "i < length xs \<Longrightarrow> numbered xs ! i = (int (Suc i), xs ! i)"
  by (simp add: numbered_def del: upt_Suc)

lemma set_numbered: "(k, x) \<in> set (numbered xs) \<longleftrightarrow> (\<exists>i < length xs. k = int (Suc i) \<and> x = xs ! i)"
  by (auto simp: in_set_conv_nth numbered_nth)

text \<open>What a successful step produced.\<close>

lemma strip_command_fields:
  "cp_action_type (strip_command c) = cp_action_type c"
  "cp_sequence (strip_command c) = cp_sequence c"
  "cp_command_id (strip_command c) = cp_command_id c"
  "cp_requires_human_approval (strip_command c) = cp_requires_human_approval c"
  "cp_deadline_seconds (strip_command c) = cp_deadline_seconds c"
  "cp_expires_at (strip_command c) = cp_expires_at c"
  "cp_issued_at (strip_command c) = cp_issued_at c"
  "cp_target_asset_id (strip_command c) = str_strip (cp_target_asset_id c)"
  "cp_tenant (strip_command c) = str_strip (cp_tenant c)"
  "cp_source_event_id (strip_command c) = str_strip (cp_source_event_id c)"
  "cp_license_key_id (strip_command c) = str_strip (cp_license_key_id c)"
  "cp_plan_id (strip_command c) = str_strip (cp_plan_id c)"
  "cp_correlation_id (strip_command c) = str_strip (cp_correlation_id c)"
  "cp_confidence (strip_command c) = cp_confidence c"
  "cp_execution_priority (strip_command c) = cp_execution_priority c"
  by (simp_all add: strip_command_def)

lemma make_command_Inr: "make_command raw = Inr c \<longleftrightarrow> c = strip_command raw \<and> command_ok c"
  by (auto simp: make_command_def Let_def)

definition step_deadline :: "settings \<Rightarrow> planned_action \<Rightarrow> int" where
  "step_deadline s p = (if pa_deadline_seconds p \<noteq> 0 then pa_deadline_seconds p else s_default_deadline_seconds s)"

lemma translate_step_Inr:
  assumes "translate_step uuid5 t m plan sub s corr (k, p) = Inr c"
  shows "\<exists>action prio.
    map_of ACTION_ALIASES (str_upper (str_strip (pa_action p))) = Some action \<and>
    map_of PRIORITY_ALIASES (str_upper (str_strip (pa_priority p))) = Some prio \<and>
    cp_action_type c = action \<and> cp_execution_priority c = prio \<and> cp_sequence c = k \<and> command_ok c \<and>
    cp_command_id c = deterministic_command_id uuid5 (mu_event_id m) k action \<and>
    cp_requires_human_approval c = requires_approval sub action \<and>
    cp_target_asset_id c = str_strip (mu_asset_id m) \<and> cp_tenant c = str_strip (sub_tenant sub) \<and>
    cp_source_event_id c = str_strip (mu_event_id m) \<and> cp_plan_id c = str_strip (pl_plan_id plan) \<and>
    cp_deadline_seconds c = step_deadline s p \<and> cp_issued_at c = t \<and>
    cp_expires_at c = t + of_int (step_deadline s p)"
  using assms
  by (auto simp: translate_step_def make_command_Inr strip_command_fields step_deadline_def Let_def
      split: option.splits sum.splits)

text \<open>What a command takes over from the step of the plan it stands for.\<close>

definition carries_step :: "settings \<Rightarrow> command_payload \<Rightarrow> planned_action \<Rightarrow> bool" where
  "carries_step s c p \<longleftrightarrow>
     map_of ACTION_ALIASES (str_upper (str_strip (pa_action p))) = Some (cp_action_type c) \<and>
     map_of PRIORITY_ALIASES (str_upper (str_strip (pa_priority p))) = Some (cp_execution_priority c) \<and>
     cp_target_component c =
       (if pa_target_component p = [] then None else Some (str_strip (pa_target_component p))) \<and>
     cp_parameters c = strip_keys (pa_parameters p) \<and>
     cp_expected_effect c = str_strip (pa_expected_effect p) \<and>
     cp_rollback c = map_option str_strip (pa_rollback p) \<and>
     cp_assigned_to c = str_strip (pa_assigned_to p) \<and>
     cp_assigned_operator_id c = map_option str_strip (pa_assigned_operator_id p) \<and>
     cp_deadline_seconds c =
       (if pa_deadline_seconds p \<noteq> 0 then pa_deadline_seconds p else s_default_deadline_seconds s)"

lemma translate_step_carries:
  assumes "translate_step uuid5 t m plan sub s corr (k, p) = Inr c"
  shows "carries_step s c p"
  using assms
  by (auto simp: translate_step_def make_command_Inr carries_step_def strip_command_def Let_def
      split: option.splits sum.splits)

lemma translate_step_Inl:
  assumes "translate_step uuid5 t m plan sub s corr kp = Inl e"
  shows "e \<in> {PermanentMessageError ''unknown_action_type'', PermanentMessageError ''unknown_execution_priority'',
              PermanentMessageError ''command_contract_violation''}"
  using assms by (auto simp: translate_step_def case_prod_beta Let_def split: option.splits sum.splits)

lemma map_r_Inl: "map_r f xs = Inl e \<Longrightarrow> \<exists>x \<in> set xs. f x = Inl e"
  by (induction xs) (auto simp: bind_r_Inl_iff)

lemma map_r_Inr_all: "(\<exists>ys. map_r f xs = Inr ys) \<longleftrightarrow> (\<forall>x \<in> set xs. \<exists>y. f x = Inr y)"
  by (induction xs) (auto simp: bind_r_Inr_iff)

definition planned_steps :: "settings \<Rightarrow> action_plan \<Rightarrow> planned_action list" where
  "planned_steps s plan = take (nat (s_max_commands s)) (pl_commands plan)"

lemma translate_plan_Inr:
  assumes "translate_plan uuid5 t m plan sub s corr = Inr cs"
  shows "cs \<noteq> [] \<and> length cs = length (planned_steps s plan) \<and>
    (\<forall>i < length cs. translate_step uuid5 t m plan sub s corr (int (Suc i), planned_steps s plan ! i) = Inr (cs ! i))"
proof -
  have m: "map_r (translate_step uuid5 t m plan sub s corr) (numbered (planned_steps s plan)) = Inr cs"
    and ne: "cs \<noteq> []"
    using assms by (auto simp: translate_plan_def planned_steps_def bind_r_Inr_iff split: if_splits)
  note all = map_r_Inr_list_all2 [OF m]
  have len: "length cs = length (planned_steps s plan)" using map_r_Inr_length [OF m] by simp
  moreover have "translate_step uuid5 t m plan sub s corr (int (Suc i), planned_steps s plan ! i) = Inr (cs ! i)"
    if "i < length cs" for i
    using list_all2_nthD [OF all, of i] that len numbered_nth [of i "planned_steps s plan"] by (metis length_numbered)
  ultimately show ?thesis using ne by blast
qed

lemma command_name_inj:
  assumes "0 \<le> i" "0 \<le> j" "command_name e i a = command_name f j b"
  shows "e = f \<and> i = j \<and> a = b"
proof -
  have bar: "CHR ''|'' \<notin> set (action_value a)" for a by (cases a) auto
  have n: "CHR ''|'' \<notin> set (int_str k)" if "0 \<le> k" for k
    using that nat_digits_chars [of "CHR ''|''" "nat k"] by (auto simp: int_str_def)
  have "rev (action_value a) @ CHR ''|'' # (rev (int_str i) @ CHR ''|'' # rev e) =
        rev (action_value b) @ CHR ''|'' # (rev (int_str j) @ CHR ''|'' # rev f)"
    using arg_cong [OF assms(3), of rev] by (simp add: command_name_def)
  then have "rev (action_value a) = rev (action_value b) \<and>
      rev (int_str i) @ CHR ''|'' # rev e = rev (int_str j) @ CHR ''|'' # rev f"
    by (rule split_at_sep) (simp_all add: bar)
  then have v: "action_value a = action_value b" and r: "rev (int_str i) @ CHR ''|'' # rev e = rev (int_str j) @ CHR ''|'' # rev f"
    by auto
  from r have "rev (int_str i) = rev (int_str j) \<and> rev e = rev f"
    by (rule split_at_sep) (simp_all add: n assms)
  then have "int_str i = int_str j" "e = f" by auto
  moreover have "i = j" using calculation(1) assms(1,2) by (simp add: int_str_def nat_digits_inj)
  moreover have "a = b" using v by (cases a; cases b) auto
  ultimately show ?thesis by blast
qed

section \<open>Properties\<close>

text \<open>
  C14: What is published satisfies the command contract, in the order of the plan.  A translated plan is
  a non-empty list of commands, one for each of the first max_commands steps of the plan: command i has
  sequence number i and carries the i-th step, that is its action and priority read through the alias
  tables, its component, parameters, effect, rollback and assignee as the model strips them, and
  its deadline or, where it has none, the default.  Each command passes the model's constraints, targets
  the asset and names the event of the mutation, carries the tenant of the subscription and the plan's
  id, and has a positive deadline that fixes its expiry.
\<close>
theorem translate_plan_contract:
  "translate_plan uuid5 t m plan sub s corr = Inr cs \<Longrightarrow> 1 \<le> s_default_deadline_seconds s \<Longrightarrow>
   cs \<noteq> [] \<and> length cs = min (nat (s_max_commands s)) (length (pl_commands plan)) \<and>
   map cp_sequence cs = map int [1..<Suc (length cs)] \<and>
   list_all2 (carries_step s) cs (take (nat (s_max_commands s)) (pl_commands plan)) \<and>
   list_all (\<lambda>c. command_ok c \<and> cp_target_asset_id c = str_strip (mu_asset_id m) \<and>
       cp_tenant c = str_strip (sub_tenant sub) \<and> cp_source_event_id c = str_strip (mu_event_id m) \<and>
       cp_plan_id c = str_strip (pl_plan_id plan) \<and>
       1 \<le> cp_deadline_seconds c \<and> cp_expires_at c = cp_issued_at c + of_int (cp_deadline_seconds c)) cs"
proof -
  assume tr: "translate_plan uuid5 t m plan sub s corr = Inr cs" and d: "1 \<le> s_default_deadline_seconds s"
  note r = translate_plan_Inr [OF tr]
  have step: "cp_sequence (cs ! i) = int (Suc i) \<and> command_ok (cs ! i) \<and>
      cp_target_asset_id (cs ! i) = str_strip (mu_asset_id m) \<and>
      cp_tenant (cs ! i) = str_strip (sub_tenant sub) \<and> cp_source_event_id (cs ! i) = str_strip (mu_event_id m) \<and>
      cp_plan_id (cs ! i) = str_strip (pl_plan_id plan) \<and>
      1 \<le> cp_deadline_seconds (cs ! i) \<and>
      cp_expires_at (cs ! i) = cp_issued_at (cs ! i) + of_int (cp_deadline_seconds (cs ! i))"
    if i: "i < length cs" for i
  proof -
    have ok: "command_ok (cs ! i)" and dl: "cp_deadline_seconds (cs ! i) = step_deadline s (planned_steps s plan ! i)"
      using translate_step_Inr r i by blast+
    have "1 \<le> step_deadline s (planned_steps s plan ! i)"
      using ok dl d by (auto simp: step_deadline_def command_ok_def split: if_splits)
    then show ?thesis using translate_step_Inr r i dl by fastforce
  qed
  have "map cp_sequence cs = map int [1..<Suc (length cs)]"
    by (rule nth_equalityI) (simp_all add: step del: upt_Suc)
  moreover have "length cs = min (nat (s_max_commands s)) (length (pl_commands plan))"
    using r by (simp add: planned_steps_def)
  moreover have "list_all2 (carries_step s) cs (planned_steps s plan)"
    using r translate_step_carries by (metis list_all2_all_nthI)
  ultimately show ?thesis using r step by (auto simp: list_all_length planned_steps_def)
qed

text \<open>
  The human in the loop.  A published command waives human approval only when the subscription
  is on the enterprise plan and the action is reversible; ISOLATE and SHUTDOWN always need approval.
\<close>
theorem irreversible_needs_approval:
  "translate_plan uuid5 t m plan sub s corr = Inr cs \<Longrightarrow>
   list_all (\<lambda>c. (\<not> cp_requires_human_approval c) =
       (sub_plan sub = ''ENTERPRISE'' \<and> cp_action_type c \<noteq> ISOLATE \<and> cp_action_type c \<noteq> SHUTDOWN)) cs"
proof -
  assume tr: "translate_plan uuid5 t m plan sub s corr = Inr cs"
  show ?thesis unfolding list_all_length
  proof (intro allI impI)
    fix i assume i: "i < length cs"
    have "cp_requires_human_approval (cs ! i) = requires_approval sub (cp_action_type (cs ! i))"
      using translate_step_Inr translate_plan_Inr [OF tr] i by blast
    then show "(\<not> cp_requires_human_approval (cs ! i)) =
        (sub_plan sub = ''ENTERPRISE'' \<and> cp_action_type (cs ! i) \<noteq> ISOLATE \<and> cp_action_type (cs ! i) \<noteq> SHUTDOWN)"
      by (auto simp: requires_approval_def is_irreversible_def autonomous_execution_allowed_def AUTONOMOUS_PLANS_def)
  qed
qed

text \<open>
  Translation never guesses.  It fails only with a permanent error of one of four reasons, and
  it fails whenever a step within the first max_commands names an action or a priority outside the
  alias tables; no command of such a plan is produced, not even for its valid steps.
\<close>
theorem translate_plan_failures:
  "(translate_plan uuid5 t m plan sub s corr = Inl e \<longrightarrow>
     e \<in> PermanentMessageError ` {''unknown_action_type'', ''unknown_execution_priority'',
            ''command_contract_violation'', ''empty_action_plan''}) \<and>
   ((\<exists>p \<in> set (take (nat (s_max_commands s)) (pl_commands plan)).
       map_of ACTION_ALIASES (str_upper (str_strip (pa_action p))) = None \<or>
       map_of PRIORITY_ALIASES (str_upper (str_strip (pa_priority p))) = None) \<longrightarrow>
     (\<forall>cs. translate_plan uuid5 t m plan sub s corr \<noteq> Inr cs))"
proof -
  have "e \<in> PermanentMessageError ` {''unknown_action_type'', ''unknown_execution_priority'',
            ''command_contract_violation'', ''empty_action_plan''}"
    if "translate_plan uuid5 t m plan sub s corr = Inl e"
    using that by (auto simp: translate_plan_def bind_r_Inl_iff split: if_splits
        dest!: map_r_Inl translate_step_Inl)
  moreover have "translate_plan uuid5 t m plan sub s corr \<noteq> Inr cs"
    if p: "p \<in> set (take (nat (s_max_commands s)) (pl_commands plan))"
      "map_of ACTION_ALIASES (str_upper (str_strip (pa_action p))) = None \<or>
       map_of PRIORITY_ALIASES (str_upper (str_strip (pa_priority p))) = None" for p cs
  proof
    assume tr: "translate_plan uuid5 t m plan sub s corr = Inr cs"
    obtain i where i: "i < length (planned_steps s plan)" "planned_steps s plan ! i = p"
      using p(1) by (auto simp: planned_steps_def in_set_conv_nth)
    then have "translate_step uuid5 t m plan sub s corr (int (Suc i), p) = Inr (cs ! i)"
      using translate_plan_Inr [OF tr] by auto
    then show False using translate_step_Inr p(2) by fastforce
  qed
  ultimately show ?thesis by blast
qed

text \<open>
  Replays are recognisable.  Planning the same plan for the same event again, at another time,
  under another correlation id or even another subscription, yields commands with the same ids in
  the same order.  On any set of names that the UUID function tells apart, two commands have the same
  id only if they agree on event, sequence and action, so that the ids of one plan are distinct.
\<close>
theorem command_ids_deterministic:
  "translate_plan uuid5 t m plan sub s corr = Inr cs \<Longrightarrow>
   translate_plan uuid5 t' m plan sub' s corr' = Inr cs' \<Longrightarrow>
   inj_on uuid5 names \<Longrightarrow>
   (\<forall>i a. 1 \<le> i \<and> i \<le> s_max_commands s \<longrightarrow> command_name (mu_event_id m) i a \<in> names) \<Longrightarrow>
   map cp_command_id cs = map cp_command_id cs' \<and> map cp_action_type cs = map cp_action_type cs' \<and>
   distinct (map cp_command_id cs) \<and>
   (0 \<le> i \<and> 0 \<le> j \<and> command_name e i a \<in> names \<and> command_name f j b \<in> names \<and>
      deterministic_command_id uuid5 e i a = deterministic_command_id uuid5 f j b \<longrightarrow>
      e = f \<and> i = j \<and> a = b)"
proof -
  assume a: "translate_plan uuid5 t m plan sub s corr = Inr cs"
    and b: "translate_plan uuid5 t' m plan sub' s corr' = Inr cs'"
    and inj: "inj_on uuid5 names"
    and names: "\<forall>i a. 1 \<le> i \<and> i \<le> s_max_commands s \<longrightarrow> command_name (mu_event_id m) i a \<in> names"
  note ra = translate_plan_Inr [OF a] and rb = translate_plan_Inr [OF b]
  have len: "length cs = length cs'" using ra rb by simp
  have act: "cp_action_type (cs ! i) = cp_action_type (cs' ! i) \<and> cp_command_id (cs ! i) = cp_command_id (cs' ! i) \<and>
      cp_command_id (cs ! i) = deterministic_command_id uuid5 (mu_event_id m) (int (Suc i)) (cp_action_type (cs ! i))"
    if "i < length cs" for i
    using translate_step_Inr [of uuid5 t m plan sub s corr] translate_step_Inr [of uuid5 t' m plan sub' s corr']
      ra rb len that by (metis option.inject)
  have same: "e = f \<and> i = j \<and> a = b"
    if "0 \<le> i" "0 \<le> j" "command_name e i a \<in> names" "command_name f j b \<in> names"
      "deterministic_command_id uuid5 e i a = deterministic_command_id uuid5 f j b" for e f a b i j
    using that inj command_name_inj [of i j e a f b]
    by (auto simp: deterministic_command_id_def dest: inj_onD)
  have in_names: "command_name (mu_event_id m) (int (Suc i)) a \<in> names" if "i < length cs" for i a
  proof -
    have "length cs \<le> nat (s_max_commands s)" using ra by (simp add: planned_steps_def)
    then have "1 \<le> int (Suc i) \<and> int (Suc i) \<le> s_max_commands s" using that by linarith
    then show ?thesis using names by blast
  qed
  have ne: "cp_command_id (cs ! i) \<noteq> cp_command_id (cs ! j)" if "i < length cs" "j < length cs" "i \<noteq> j" for i j
  proof
    assume "cp_command_id (cs ! i) = cp_command_id (cs ! j)"
    then have "deterministic_command_id uuid5 (mu_event_id m) (int (Suc i)) (cp_action_type (cs ! i)) =
        deterministic_command_id uuid5 (mu_event_id m) (int (Suc j)) (cp_action_type (cs ! j))"
      using act that by metis
    then have "int (Suc i) = int (Suc j)"
      using same [OF _ _ in_names [OF that(1)] in_names [OF that(2)]] by simp
    then show False using that by simp
  qed
  then have "distinct (map cp_command_id cs)" by (simp add: distinct_conv_nth)
  moreover have "map cp_command_id cs = map cp_command_id cs'" "map cp_action_type cs = map cp_action_type cs'"
    using act len by (auto intro!: nth_equalityI)
  ultimately show ?thesis using same by blast
qed

section \<open>Witnesses\<close>

definition demo_mutation :: "severity \<Rightarrow> bool \<Rightarrow> mutation" where
  "demo_mutation sev degraded =
     \<lparr>mu_event_id = ''e1'', mu_schema_version = ''openontology.mutation.v1'', mu_asset_id = ''pump-7'',
      mu_transition = TransRaised, mu_severity = sev, mu_breach_count = 3,
      mu_rule = \<lparr>rt_rule_id = ''r1'', rt_sensor_id = ''vibration'', rt_threshold = 4, rt_unit = None,
                 rt_observed_value = 9\<rparr>,
      mu_snapshot_complete = True,
      mu_context = \<lparr>oc_asset_name = ''Pump 7'', oc_criticality = ''UNKNOWN'', oc_parent_systems = [],
                    oc_components = [''impeller''], oc_assigned_operators = [], oc_maintenance_window = None\<rparr>,
      mu_degraded = degraded\<rparr>"

definition demo_subscription :: subscription where
  "demo_subscription =
     \<lparr>sub_key_id = ''k1'', sub_key_digest = ''d'', sub_tenant = ''acme'', sub_plan = ''ENTERPRISE'',
      sub_seats = 1, sub_active = True, sub_expires_at = Aware 1000\<rparr>"

definition demo_action :: "string \<Rightarrow> string \<Rightarrow> int \<Rightarrow> planned_action" where
  "demo_action action priority deadline =
     \<lparr>pa_sequence = 1, pa_target_component = [], pa_action = action, pa_priority = priority,
      pa_assigned_to = [], pa_assigned_operator_id = None, pa_parameters = [], pa_expected_effect = [],
      pa_rollback = None, pa_deadline_seconds = deadline\<rparr>"

definition demo_plan :: "planned_action list \<Rightarrow> action_plan" where
  "demo_plan actions =
     \<lparr>pl_plan_id = ''p1'', pl_event_id = ''e1'', pl_asset_id = ''pump-7'', pl_tenant = [], pl_model = [],
      pl_confidence = 1/2, pl_reasoning_summary = [], pl_commands = actions,
      pl_escalation = \<lparr>es_required = False, es_notify = [], es_reason = [], es_sla_seconds = 0\<rparr>,
      pl_evidence = [], pl_latency_ms = 0\<rparr>"

lemma default_limits: "s_max_commands default_settings = 6" "s_default_deadline_seconds default_settings = 900"
  by (simp_all add: default_settings_def)

lemma demo_strips:
  "str_strip ''pump-7'' = ''pump-7''" "str_strip ''acme'' = ''acme''" "str_strip ''k1'' = ''k1''"
  "str_strip ''e1'' = ''e1''" "str_strip ''p1'' = ''p1''" "str_strip ''c1'' = ''c1''"
  "str_upper (str_strip '' stop'') = ''STOP''" "str_upper (str_strip ''inspect'') = ''INSPECT''"
  "str_upper (str_strip ''P1'') = ''P1''"
  by code_simp+

lemma demo_shape: "identifier_shape ''pump-7''"
  by code_simp

lemma numbered_two: "numbered [x, y] = [(1, x), (2, y)]"
  by (simp add: numbered_def)

lemma demo_translates:
  "\<exists>cs. translate_plan id t (demo_mutation SevHigh False)
     (demo_plan [demo_action '' stop'' ''P1'' 0, demo_action ''inspect'' ''P1'' 60]) demo_subscription default_settings ''c1''
     = Inr cs"
proof -
  have "\<exists>c. translate_step id t (demo_mutation SevHigh False)
     (demo_plan [demo_action '' stop'' ''P1'' 0, demo_action ''inspect'' ''P1'' 60]) demo_subscription default_settings ''c1''
     (k, demo_action a ''P1'' d) = Inr c"
    if "str_upper (str_strip a) \<in> {''STOP'', ''INSPECT''}" "0 \<le> d" "d \<le> 604800" "1 \<le> k" for k a d
    using that
    by (auto simp: translate_step_def demo_action_def demo_strips ACTION_ALIASES_def PRIORITY_ALIASES_def
        make_command_def strip_command_fields command_ok_def demo_mutation_def demo_subscription_def
        demo_plan_def demo_shape default_limits Let_def)
  note step = this
  let ?f = "translate_step id t (demo_mutation SevHigh False)
     (demo_plan [demo_action '' stop'' ''P1'' 0, demo_action ''inspect'' ''P1'' 60]) demo_subscription default_settings ''c1''"
  obtain c1 where c1: "?f (1, demo_action '' stop'' ''P1'' 0) = Inr c1"
    using step [of "'' stop''" 0 1] by (auto simp: demo_strips)
  obtain c2 where c2: "?f (2, demo_action ''inspect'' ''P1'' 60) = Inr c2"
    using step [of "''inspect''" 60 2] by (auto simp: demo_strips)
  have "pl_commands (demo_plan xs) = xs" for xs by (simp add: demo_plan_def)
  then show ?thesis
    by (simp add: translate_plan_def default_limits numbered_two c1 c2)
qed

text \<open>The theorems apply to this translation.\<close>

theorem translate_plan_contract_witness:
  "\<exists>cs. translate_plan id 5 (demo_mutation SevHigh False)
     (demo_plan [demo_action '' stop'' ''P1'' 0, demo_action ''inspect'' ''P1'' 60]) demo_subscription default_settings ''c1''
     = Inr cs \<and> cs \<noteq> [] \<and> list_all command_ok cs"
proof -
  obtain cs where tr: "translate_plan id 5 (demo_mutation SevHigh False)
     (demo_plan [demo_action '' stop'' ''P1'' 0, demo_action ''inspect'' ''P1'' 60]) demo_subscription default_settings ''c1''
     = Inr cs" using demo_translates by blast
  show ?thesis
    using tr translate_plan_contract [OF tr] by (auto simp: default_limits list_all_iff)
qed

theorem irreversible_needs_approval_witness:
  "\<exists>cs. translate_plan id 5 (demo_mutation SevHigh False)
     (demo_plan [demo_action '' stop'' ''P1'' 0, demo_action ''inspect'' ''P1'' 60]) demo_subscription default_settings ''c1''
     = Inr cs \<and> list_all (\<lambda>c. cp_requires_human_approval c \<or> \<not> is_irreversible (cp_action_type c)) cs"
proof -
  obtain cs where tr: "translate_plan id 5 (demo_mutation SevHigh False)
     (demo_plan [demo_action '' stop'' ''P1'' 0, demo_action ''inspect'' ''P1'' 60]) demo_subscription default_settings ''c1''
     = Inr cs" using demo_translates by blast
  show ?thesis
    using tr irreversible_needs_approval [OF tr] by (auto simp: is_irreversible_def list_all_iff)
qed

theorem translate_plan_failures_witness:
  "\<forall>cs. translate_plan id 5 (demo_mutation SevHigh False) (demo_plan [demo_action ''EXPLODE'' ''P1'' 0])
     demo_subscription default_settings ''c1'' \<noteq> Inr cs"
proof -
  have "map_of ACTION_ALIASES (str_upper (str_strip ''EXPLODE'')) = None" by code_simp
  then have "\<exists>p \<in> set (take (nat (s_max_commands default_settings))
        (pl_commands (demo_plan [demo_action ''EXPLODE'' ''P1'' 0]))).
       map_of ACTION_ALIASES (str_upper (str_strip (pa_action p))) = None \<or>
       map_of PRIORITY_ALIASES (str_upper (str_strip (pa_priority p))) = None"
    by (simp add: demo_plan_def demo_action_def default_limits)
  then show ?thesis
    using translate_plan_failures [of id 5 "demo_mutation SevHigh False" "demo_plan [demo_action ''EXPLODE'' ''P1'' 0]"
        demo_subscription default_settings "''c1''"] by blast
qed

theorem command_ids_deterministic_witness:
  "\<exists>cs. translate_plan id 5 (demo_mutation SevHigh False)
     (demo_plan [demo_action '' stop'' ''P1'' 0, demo_action ''inspect'' ''P1'' 60]) demo_subscription default_settings ''c1''
     = Inr cs \<and> distinct (map cp_command_id cs)"
proof -
  obtain cs where tr: "translate_plan id 5 (demo_mutation SevHigh False)
     (demo_plan [demo_action '' stop'' ''P1'' 0, demo_action ''inspect'' ''P1'' 60]) demo_subscription default_settings ''c1''
     = Inr cs" using demo_translates by blast
  show ?thesis
    using tr command_ids_deterministic [OF tr tr, of UNIV] by simp
qed

end
