(* ===== verification/Interceptor_Client.thy ===== *)
theory Interceptor_Client
  imports Contracts Retry
begin

text \<open>
  How the command worker obtains a plan: its counters, the in-process simulator, the HTTP client with
  its classification of failures, and the router that retries (Metrics, StubInterceptor,
  HttpInterceptorClient and ActionRouter in command_worker.py).

  The interface between the planners and the rest of the worker is the locale action_planner, whose
  law is that a plan that is returned satisfies the plan contract.  The network, the random numbers,
  the clocks, the text of a float in %g style and the coercion of JSON are an environment record.
\<close>

section \<open>Counters\<close>

record metrics =
  mt_consumed :: nat
  mt_authorised :: nat
  mt_license_rejected :: nat
  mt_plans_requested :: nat
  mt_plans_failed :: nat
  mt_commands_issued :: nat
  mt_batches_published :: nat
  mt_publish_failures :: nat
  mt_dead_lettered :: nat
  mt_dlq_failures :: nat
  mt_transient_failures :: nat
  mt_consumer_restarts :: nat
  mt_messages_rewound :: nat
  mt_interceptor_calls :: nat
  mt_interceptor_throttled :: nat
  mt_interceptor_server_errors :: nat
  mt_interceptor_timeouts :: nat
  mt_interceptor_transport_errors :: nat
  mt_interceptor_auth_failures :: nat
  mt_interceptor_rejected :: nat

definition metrics_init :: metrics where
  "metrics_init =
     \<lparr>mt_consumed = 0, mt_authorised = 0, mt_license_rejected = 0, mt_plans_requested = 0,
      mt_plans_failed = 0, mt_commands_issued = 0, mt_batches_published = 0, mt_publish_failures = 0,
      mt_dead_lettered = 0, mt_dlq_failures = 0, mt_transient_failures = 0, mt_consumer_restarts = 0,
      mt_messages_rewound = 0, mt_interceptor_calls = 0, mt_interceptor_throttled = 0,
      mt_interceptor_server_errors = 0, mt_interceptor_timeouts = 0, mt_interceptor_transport_errors = 0,
      mt_interceptor_auth_failures = 0, mt_interceptor_rejected = 0\<rparr>"

section \<open>The interface of a planner\<close>

locale action_planner =
  fixes plan :: "mutation \<Rightarrow> subscription \<Rightarrow> (string \<times> json) list \<Rightarrow> 's \<Rightarrow> (worker_exn + action_plan) \<times> 's"
  assumes plan_valid: "fst (plan m sub raw st) = Inr p \<Longrightarrow> action_plan_ok p"
begin

lemma plan_has_steps: "fst (plan m sub raw st) = Inr p \<Longrightarrow> pl_commands p \<noteq> []"
  using plan_valid by (simp add: action_plan_ok_def)

text \<open>A plan obtained through the interface is never translated to the empty batch error.\<close>

lemma plan_not_empty:
  assumes "fst (plan m sub raw st) = Inr p" "1 \<le> s_max_commands s"
  shows "translate_plan uuid5 t m' p sub' s corr \<noteq> Inl (PermanentMessageError ''empty_action_plan'')"
proof
  assume e: "translate_plan uuid5 t m' p sub' s corr = Inl (PermanentMessageError ''empty_action_plan'')"
  have ne: "planned_steps s p \<noteq> []"
    using plan_has_steps [OF assms(1)] assms(2) by (simp add: planned_steps_def)
  have "\<exists>cs. map_r (translate_step uuid5 t m' p sub' s corr) (numbered (planned_steps s p)) = Inr cs \<and> cs = []"
    using e by (auto simp: translate_plan_def planned_steps_def bind_r_Inl_iff split: if_splits
        dest!: map_r_Inl translate_step_Inl)
  then obtain cs where cs: "map_r (translate_step uuid5 t m' p sub' s corr) (numbered (planned_steps s p)) = Inr cs"
    "cs = []" by blast
  then have "length (planned_steps s p) = 0" using map_r_Inr_length [OF cs(1)] by simp
  then show False using ne by simp
qed

end

section \<open>The simulator\<close>

text \<open>Constructing a PlannedAction strips its strings and checks its bounds.\<close>

definition strip_action :: "planned_action \<Rightarrow> planned_action" where
  "strip_action p =
     p\<lparr>pa_target_component := str_strip (pa_target_component p), pa_action := str_strip (pa_action p),
       pa_priority := str_strip (pa_priority p), pa_assigned_to := str_strip (pa_assigned_to p),
       pa_assigned_operator_id := map_option str_strip (pa_assigned_operator_id p),
       pa_parameters := strip_keys (pa_parameters p),
       pa_expected_effect := str_strip (pa_expected_effect p),
       pa_rollback := map_option str_strip (pa_rollback p)\<rparr>"

definition make_planned_action :: "planned_action \<Rightarrow> planned_action raises" where
  "make_planned_action p =
     (let q = strip_action p in if planned_action_ok q then Inr q else Inl ValidationErrorExn)"

definition component_for :: "mutation \<Rightarrow> string" where
  "component_for m =
     (let context = mu_context m in
      case oc_components context of
        c # _ \<Rightarrow> c
      | [] \<Rightarrow>
          (case immediate_parent context of
             Some parent \<Rightarrow>
               if sn_name parent \<noteq> [] then sn_name parent
               else if oc_asset_name context \<noteq> [] then oc_asset_name context else mu_asset_id m
           | None \<Rightarrow> if oc_asset_name context \<noteq> [] then oc_asset_name context else mu_asset_id m))"

definition stub_actions :: "(rat \<Rightarrow> string) \<Rightarrow> settings \<Rightarrow> mutation \<Rightarrow> planned_action list" where
  "stub_actions g s m =
     (let context = mu_context m;
          component = component_for m;
          operator = primary_operator context;
          assignee = (case operator of Some op \<Rightarrow> if op_name op \<noteq> [] then op_name op else ''duty-engineer''
                                     | None \<Rightarrow> ''duty-engineer'');
          operator_id = map_option op_operator_id operator;
          sensor = rt_sensor_id (mu_rule m);
          observed = rt_observed_value (mu_rule m);
          threshold = rt_threshold (mu_rule m);
          unit = (case rt_unit (mu_rule m) of Some u \<Rightarrow> u | None \<Rightarrow> []);
          reading = [(''sensor_id'', JStr sensor), (''observed_value'', JFloat observed)];
          limits = reading @ [(''threshold'', JFloat threshold), (''unit'', JStr unit)];
          action = (\<lambda>k name priority params effect rollback deadline.
            \<lparr>pa_sequence = k, pa_target_component = component, pa_action = name, pa_priority = priority,
             pa_assigned_to = assignee, pa_assigned_operator_id = operator_id, pa_parameters = params,
             pa_expected_effect = effect, pa_rollback = rollback, pa_deadline_seconds = deadline\<rparr>)
      in if mu_transition m = TransCleared then
           [action 1 ''ACKNOWLEDGE'' ''LOW'' reading
              (''Close the '' @ sensor @ '' alarm on '' @ mu_asset_id m @ ''; the reading is back inside limits.'')
              None (s_default_deadline_seconds s)]
         else if mu_severity m = SevCritical then
           (if sensor = ''temperature_celsius'' then
              [action 1 ''SHUTDOWN'' ''CRITICAL'' (limits @ [(''ramp_down_seconds'', JInt 60)])
                 (''Remove thermal load from '' @ component @ ''; '' @ sensor @ '' is '' @ g observed @ unit @
                  '' against a '' @ g threshold @ unit @ '' ceiling.'')
                 (Some ''Restart only after the bearing temperature is below 80% of the ceiling for 10 minutes.'') 300]
            else
              [action 1 ''ISOLATE'' ''CRITICAL'' (limits @ [(''isolation_mode'', JStr ''electrical_and_process'')])
                 (''Isolate '' @ component @ '' before secondary damage; '' @ sensor @ '' is '' @ g observed @ unit @
                  '' against a '' @ g threshold @ unit @ '' limit.'')
                 (Some ''Restore only under a permit to work, after a vibration survey.'') 300]) @
           [action 2 ''SCHEDULE_MAINTENANCE'' ''HIGH''
              [(''window'', JStr (case oc_maintenance_window context of
                                   Some w \<Rightarrow> if w \<noteq> [] then w else ''next_available'' | None \<Rightarrow> ''next_available'')),
               (''work_type'', JStr ''root_cause_inspection'')]
              (''Book intrusive inspection of '' @ component @ '' in the next maintenance window.'') None 86400]
         else if mu_severity m = SevHigh then
           [action 1 ''SHIFT_SPEED'' ''HIGH''
              (limits @ [(''target_setpoint_pct'', JInt 80), (''ramp_seconds'', JInt 120)])
              (''Derate '' @ component @ '' to 80% to pull '' @ sensor @ '' back under '' @ g threshold @ unit @ ''.'')
              (Some ''Return to the original setpoint once the reading holds below the limit for 15 minutes.'') 600,
            action 2 ''INSPECT'' ''HIGH'' [(''method'', JStr ''walkdown''), (''focus'', JStr sensor)]
              (''Confirm whether the '' @ sensor @ '' excursion on '' @ component @
               '' is real or instrumentation drift.'') None 3600]
         else
           [action 1 ''NOTIFY'' ''LOW'' reading
              (''Raise '' @ mu_asset_id m @ '' '' @ sensor @ '' on the shift handover log.'')
              None (s_default_deadline_seconds s)])"

definition stub_inspection :: "mutation \<Rightarrow> planned_action" where
  "stub_inspection m =
     (let operator = primary_operator (mu_context m) in
      \<lparr>pa_sequence = 1, pa_target_component = component_for m, pa_action = ''INSPECT'', pa_priority = ''HIGH'',
       pa_assigned_to = (case operator of Some op \<Rightarrow> if op_name op \<noteq> [] then op_name op else ''duty-engineer''
                                        | None \<Rightarrow> ''duty-engineer''),
       pa_assigned_operator_id = map_option op_operator_id operator,
       pa_parameters = [(''reason'', JStr ''degraded_context''), (''sensor_id'', JStr (rt_sensor_id (mu_rule m)))],
       pa_expected_effect = ''Graph context for '' @ mu_asset_id m @ '' is incomplete; verify on site before actuating.'',
       pa_rollback = None, pa_deadline_seconds = 1800\<rparr>)"

fun severity_value :: "severity \<Rightarrow> string" where
  "severity_value SevInfo = ''INFO''"
| "severity_value SevHigh = ''HIGH''"
| "severity_value SevCritical = ''CRITICAL''"

fun transition_value :: "transition_kind \<Rightarrow> string" where
  "transition_value TransRaised = ''RAISED''"
| "transition_value TransEscalated = ''ESCALATED''"
| "transition_value TransSustained = ''SUSTAINED''"
| "transition_value TransCleared = ''CLEARED''"

definition number_actions :: "planned_action list \<Rightarrow> planned_action list" where
  "number_actions xs = map (\<lambda>(k, p). p\<lparr>pa_sequence := k\<rparr>) (numbered xs)"

definition stub_envelope ::
    "(rat \<Rightarrow> string) \<Rightarrow> string \<Rightarrow> rat \<Rightarrow> mutation \<Rightarrow> subscription \<Rightarrow> planned_action list \<Rightarrow> action_plan" where
  "stub_envelope g plan_hex latency m sub kept =
     (let context = mu_context m;
          rule = mu_rule m;
          unit = (case rt_unit rule of Some u \<Rightarrow> u | None \<Rightarrow> []);
          escalate = (mu_severity m = SevCritical \<or> oc_criticality context = ''SAFETY_CRITICAL'')
      in
        \<lparr>pl_plan_id = ''plan_stub_'' @ plan_hex, pl_event_id = mu_event_id m, pl_asset_id = mu_asset_id m,
         pl_tenant = sub_tenant sub, pl_model = ''stub-interceptor'',
         pl_confidence = (if mu_degraded m then 0.55 else 0.86),
         pl_reasoning_summary =
           rt_sensor_id rule @ '' on '' @ mu_asset_id m @ '' reported '' @ g (rt_observed_value rule) @ unit @
           '' against a '' @ g (rt_threshold rule) @ unit @ '' limit ('' @
           transition_value (mu_transition m) @ '', '' @ severity_value (mu_severity m) @ ''); '' @
           int_str (int (length kept)) @ '' action(s) issued against '' @ component_for m @ ''.'',
         pl_commands = kept,
         pl_escalation =
           \<lparr>es_required = escalate, es_notify = map op_operator_id (take 3 (escalation_chain context)),
            es_reason = (if escalate then ''Critical severity on a governed asset.'' else []),
            es_sla_seconds = (if escalate then 900 else 0)\<rparr>,
         pl_evidence =
           [''rule='' @ (if rt_rule_id rule \<noteq> [] then rt_rule_id rule else ''n/a''),
            ''breach_count='' @ int_str (mu_breach_count m),
            ''snapshot_complete='' @ (if mu_snapshot_complete m then ''True'' else ''False'')],
         pl_latency_ms = latency\<rparr>)"

definition stub_plan ::
    "(rat \<Rightarrow> string) \<Rightarrow> string \<Rightarrow> rat \<Rightarrow> settings \<Rightarrow> mutation \<Rightarrow> subscription \<Rightarrow> worker_exn + action_plan" where
  "stub_plan g plan_hex latency s m sub =
     bind_r (case map_r make_planned_action (stub_actions g s m) of
               Inl e \<Rightarrow> Inl (OtherExn e) | Inr actions \<Rightarrow> Inr actions) (\<lambda>built.
     bind_r (if mu_degraded m then
               (let kept = filter (\<lambda>p. pa_action p \<notin> {''SHUTDOWN'', ''ISOLATE''}) built in
                if kept = [] then
                  (case make_planned_action (stub_inspection m) of
                     Inl e \<Rightarrow> Inl (OtherExn e) | Inr p \<Rightarrow> Inr [p])
                else Inr kept)
             else Inr built) (\<lambda>actions.
       (let plan = stub_envelope g plan_hex latency m sub
                     (number_actions (take (nat (s_max_commands s)) actions))
        in if action_plan_ok plan then Inr plan else Inl (OtherExn ValidationErrorExn))))"

section \<open>The HTTP client\<close>

record http_reply =
  hr_status_code :: int
  hr_header :: "string \<Rightarrow> string option"
  hr_json :: "json option"

datatype exchange = TimedOut | TransportError | Answered http_reply

text \<open>
  The environment: the exchange of the call with a given index, the two clock readings of that call,
  the random number of an attempt, the elapsed milliseconds of a call, the coercion of a body to a
  plan, whether the library's ValidationError is a ValueError, and the parsers behind Retry-After.
\<close>

record client_env =
  ce_exchange :: "nat \<Rightarrow> exchange"
  ce_pace_clock :: "nat \<Rightarrow> rat"
  ce_cooldown_clock :: "nat \<Rightarrow> rat"
  ce_random :: "nat \<Rightarrow> rat"
  ce_elapsed_ms :: "nat \<Rightarrow> rat"
  ce_coerce_plan :: "json \<Rightarrow> action_plan option"
  ce_validation_is_value_error :: bool
  ce_to_float :: "string \<Rightarrow> pyfloat option"
  ce_seconds_until :: "string \<Rightarrow> rat option"
  ce_dump_mutation :: "mutation \<Rightarrow> (string \<times> json) list"
  ce_format_g :: "rat \<Rightarrow> string"
  ce_plan_hex :: string

text \<open>What the client keeps: the shared rate gate and counters, and the log of the requests it sent.\<close>

record sent_request =
  sr_endpoint :: string
  sr_key :: string
  sr_body :: "(string \<times> json) list"

record client_state =
  cl_gate :: rate_gate
  cl_metrics :: metrics
  cl_requests :: "sent_request list"

definition CREDENTIAL_KEYS :: "string list" where
  "CREDENTIAL_KEYS = [''license_key'', ''licence_key'', ''license'', ''licence'', ''headers'', ''meta'']"

definition request_body :: "client_env \<Rightarrow> mutation \<Rightarrow> (string \<times> json) list option \<Rightarrow> (string \<times> json) list" where
  "request_body env m raw =
     (case raw of
        None \<Rightarrow> ce_dump_mutation env m
      | Some kvs \<Rightarrow> filter (\<lambda>(k, v). k \<notin> set CREDENTIAL_KEYS) kvs)"

definition presented_key :: "settings \<Rightarrow> worker_exn + string" where
  "presented_key s =
     (case s_license_key s of
        None \<Rightarrow> Inl (InterceptorError \<lparr>ie_permanent = False, ie_retryable = False,
                       ie_status_code = None, ie_retry_after = None\<rparr>)
      | Some key \<Rightarrow> Inr key)"

definition destination :: "settings \<Rightarrow> subscription \<Rightarrow> worker_exn + (string \<times> string)" where
  "destination s sub =
     (let standard = bind_r (presented_key s) (\<lambda>key. Inr (interceptor_endpoint s, key));
          enterprise_key = str_strip (s_enterprise_license_key s)
      in if \<not> routes_to_enterprise s (sub_plan sub) then standard
         else if enterprise_key = [] then standard
         else Inr (enterprise_endpoint s, enterprise_key))"

definition learn_quota :: "settings \<Rightarrow> http_reply \<Rightarrow> rate_gate \<Rightarrow> rate_gate" where
  "learn_quota s r gate =
     (if s_interceptor_max_rpm s \<noteq> 0 then gate
      else
        (case hr_header r ''X-RateLimit-Limit'' of
           None \<Rightarrow> gate
         | Some raw \<Rightarrow>
             if raw = [] then gate
             else (case py_int_of_str raw of None \<Rightarrow> gate | Some q \<Rightarrow> retune q ''x-ratelimit-limit'' gate)))"

definition http_failure ::
    "client_env \<Rightarrow> settings \<Rightarrow> rat \<Rightarrow> http_reply \<Rightarrow> rate_gate \<times> metrics \<Rightarrow> interceptor_error \<times> rate_gate \<times> metrics" where
  "http_failure env s now r gm =
     (let code = hr_status_code r;
          (gate, m) = gm;
          retry_after = parse_retry_after (ce_to_float env) (ce_seconds_until env) (hr_header r ''Retry-After'')
                          (s_interceptor_retry_after_cap_seconds s)
      in if code \<in> {400, 413, 422} then
           (\<lparr>ie_permanent = True, ie_retryable = True, ie_status_code = Some code, ie_retry_after = None\<rparr>,
            gate, m\<lparr>mt_interceptor_rejected := Suc (mt_interceptor_rejected m)\<rparr>)
         else if code \<in> {401, 402, 403} then
           (\<lparr>ie_permanent = False, ie_retryable = False, ie_status_code = Some code, ie_retry_after = None\<rparr>,
            gate, m\<lparr>mt_interceptor_auth_failures := Suc (mt_interceptor_auth_failures m)\<rparr>)
         else if code \<in> {404, 405, 501} \<or> 300 \<le> code \<and> code < 400 then
           (\<lparr>ie_permanent = False, ie_retryable = False, ie_status_code = Some code, ie_retry_after = None\<rparr>,
            gate, m)
         else if code \<in> {408, 409, 425} then
           (\<lparr>ie_permanent = False, ie_retryable = True, ie_status_code = Some code, ie_retry_after = retry_after\<rparr>,
            gate, m)
         else if code = 429 then
           (\<lparr>ie_permanent = False, ie_retryable = True, ie_status_code = Some code, ie_retry_after = retry_after\<rparr>,
            apply_cooldown now (case retry_after of Some w \<Rightarrow> w | None \<Rightarrow> s_retry_max_seconds s) gate,
            m\<lparr>mt_interceptor_throttled := Suc (mt_interceptor_throttled m)\<rparr>)
         else if code \<ge> 500 then
           (\<lparr>ie_permanent = False, ie_retryable = True, ie_status_code = Some code, ie_retry_after = retry_after\<rparr>,
            (case retry_after of Some w \<Rightarrow> apply_cooldown now w gate | None \<Rightarrow> gate),
            m\<lparr>mt_interceptor_server_errors := Suc (mt_interceptor_server_errors m)\<rparr>)
         else
           (\<lparr>ie_permanent = False, ie_retryable = False, ie_status_code = Some code, ie_retry_after = None\<rparr>,
            gate, m))"

text \<open>
  The body of a 200: JSON decoding and validation raise different exceptions, and the first handler
  whose class matches takes them.
\<close>

datatype plan_decode = DecodeFailed | ValidationFailed | Decoded action_plan

definition decode_plan :: "client_env \<Rightarrow> http_reply \<Rightarrow> plan_decode" where
  "decode_plan env r =
     (case hr_json r of
        None \<Rightarrow> DecodeFailed
      | Some body \<Rightarrow>
          (case ce_coerce_plan env body of
             None \<Rightarrow> ValidationFailed
           | Some p \<Rightarrow> if action_plan_ok p then Decoded p else ValidationFailed))"

definition http_plan ::
    "client_env \<Rightarrow> settings \<Rightarrow> mutation \<Rightarrow> subscription \<Rightarrow> (string \<times> json) list option \<Rightarrow> client_state
      \<Rightarrow> (worker_exn + action_plan) \<times> client_state" where
  "http_plan env s m sub raw st =
     (case destination s sub of
        Inl e \<Rightarrow> (Inl e, st)
      | Inr (endpoint, presented) \<Rightarrow>
          (let n = length (cl_requests st);
               gate = snd (pace (ce_pace_clock env n) (cl_gate st));
               request = \<lparr>sr_endpoint = endpoint, sr_key = presented, sr_body = request_body env m raw\<rparr>;
               m1 = (cl_metrics st)\<lparr>mt_interceptor_calls := Suc (mt_interceptor_calls (cl_metrics st))\<rparr>;
               st1 = st\<lparr>cl_gate := gate, cl_metrics := m1, cl_requests := cl_requests st @ [request]\<rparr>;
               transient = \<lparr>ie_permanent = False, ie_retryable = True, ie_status_code = None, ie_retry_after = None\<rparr>
           in case ce_exchange env n of
                TimedOut \<Rightarrow>
                  (Inl (InterceptorError transient),
                   st1\<lparr>cl_metrics := m1\<lparr>mt_interceptor_timeouts := Suc (mt_interceptor_timeouts m1)\<rparr>\<rparr>)
              | TransportError \<Rightarrow>
                  (Inl (InterceptorError transient),
                   st1\<lparr>cl_metrics := m1\<lparr>mt_interceptor_transport_errors := Suc (mt_interceptor_transport_errors m1)\<rparr>\<rparr>)
              | Answered r \<Rightarrow>
                  (let st2 = st1\<lparr>cl_gate := learn_quota s r gate\<rparr> in
                   if hr_status_code r \<noteq> 200 then
                     (let (e, g, mm) = http_failure env s (ce_cooldown_clock env n) r (cl_gate st2, m1)
                      in (Inl (InterceptorError e), st2\<lparr>cl_gate := g, cl_metrics := mm\<rparr>))
                   else
                     (case decode_plan env r of
                        DecodeFailed \<Rightarrow> (Inl (InterceptorError transient), st2)
                      | ValidationFailed \<Rightarrow>
                          if ce_validation_is_value_error env then (Inl (InterceptorError transient), st2)
                          else
                            (Inl (InterceptorError \<lparr>ie_permanent = True, ie_retryable = True,
                               ie_status_code = Some (hr_status_code r), ie_retry_after = None\<rparr>),
                             st2\<lparr>cl_metrics := m1\<lparr>mt_interceptor_rejected := Suc (mt_interceptor_rejected m1)\<rparr>\<rparr>)
                      | Decoded p \<Rightarrow>
                          (Inr (if pl_latency_ms p = 0 then p\<lparr>pl_latency_ms := py_round (ce_elapsed_ms env n) 3\<rparr>
                                else p), st2)))))"

section \<open>The router\<close>

definition interceptor_view :: "worker_exn retry_view" where
  "interceptor_view =
     \<lparr>rv_cancelled = (\<lambda>e. e = OtherExn CancelledErrorExn),
      rv_retry_on = (\<lambda>e. case e of InterceptorError _ \<Rightarrow> True | _ \<Rightarrow> False),
      rv_should_retry = (\<lambda>e. case e of InterceptorError i \<Rightarrow> should_retry i | _ \<Rightarrow> True),
      rv_retry_after = (\<lambda>e. case e of InterceptorError i \<Rightarrow> ie_retry_after i | _ \<Rightarrow> None)\<rparr>"

definition interceptor_retry :: "settings \<Rightarrow> retry_config" where
  "interceptor_retry s =
     \<lparr>rc_attempts = nat (s_max_attempts s), rc_base_seconds = s_retry_base_seconds s,
      rc_max_seconds = s_retry_max_seconds s,
      rc_retry_after_cap = Some (s_interceptor_retry_after_cap_seconds s)\<rparr>"

definition unretried :: "worker_exn retry_failure + 'a \<Rightarrow> worker_exn + 'a" where
  "unretried r =
     (case r of
        Inr a \<Rightarrow> Inr a
      | Inl (Raised e) \<Rightarrow> Inl e
      | Inl RetriesExhausted \<Rightarrow> Inl (OtherExn RuntimeErrorExn))"

text \<open>The coroutine that is retried: one exchange with the interceptor, or the simulator.\<close>

definition router_call ::
    "client_env \<Rightarrow> settings \<Rightarrow> mutation \<Rightarrow> subscription \<Rightarrow> (string \<times> json) list \<Rightarrow> client_state
      \<Rightarrow> (worker_exn + action_plan) \<times> client_state" where
  "router_call env s m sub raw st =
     (if s_interceptor_mode s = ModeHttp then http_plan env s m sub (Some raw) st
      else (stub_plan (ce_format_g env) (ce_plan_hex env) (ce_elapsed_ms env 0) s m sub, st))"

text \<open>\<open>ready\<close>: whether the HTTP half was built, that is whether client, gate and metrics were given.\<close>

definition route ::
    "client_env \<Rightarrow> bool \<Rightarrow> settings \<Rightarrow> mutation \<Rightarrow> subscription \<Rightarrow> (string \<times> json) list \<Rightarrow> client_state
      \<Rightarrow> (worker_exn + action_plan) \<times> client_state" where
  "route env ready s m sub raw st =
     (if s_interceptor_mode s = ModeHttp \<and> \<not> ready then
        (Inl (InterceptorError \<lparr>ie_permanent = False, ie_retryable = False,
           ie_status_code = None, ie_retry_after = None\<rparr>), st)
      else
        (let (result, st', delays) = retry_async (interceptor_retry s) interceptor_view (ce_random env)
                                       (router_call env s m sub raw) st
         in (unretried result, st')))"

section \<open>Both planners keep the contract\<close>

lemma stub_plan_valid: "stub_plan g h l s m sub = Inr p \<Longrightarrow> action_plan_ok p"
  by (auto simp: stub_plan_def bind_r_Inr_iff Let_def split: if_splits sum.splits)

lemma http_plan_valid:
  assumes "fst (http_plan env s m sub raw st) = Inr p"
  shows "action_plan_ok p"
proof -
  have "decode_plan env r = Decoded q \<Longrightarrow> action_plan_ok q" for r q
    by (auto simp: decode_plan_def split: option.splits if_splits)
  moreover have "action_plan_ok (q\<lparr>pl_latency_ms := x\<rparr>) = action_plan_ok q" for q x
    by (simp add: action_plan_ok_def)
  ultimately show ?thesis
    using assms
    by (auto simp: http_plan_def Let_def case_prod_beta split: sum.splits exchange.splits plan_decode.splits if_splits)
qed

interpretation stub: action_planner
    "\<lambda>m sub raw st. (stub_plan (ce_format_g env) (ce_plan_hex env) (ce_elapsed_ms env 0) s m sub, st)"
  by unfold_locales (auto dest: stub_plan_valid)

interpretation http: action_planner "\<lambda>m sub raw. http_plan env s m sub (Some raw)"
  by unfold_locales (auto dest: http_plan_valid)

text \<open>Retrying a planner gives a planner.\<close>

lemma retry_async_Inr:
  assumes "fst (retry_async c v rnd operation st) = Inr a"
  shows "\<exists>st'. fst (operation st') = Inr a"
proof (cases "rc_attempts c")
  case 0
  then show ?thesis using assms by (simp add: retry_async_def)
next
  case (Suc n)
  then obtain k where "fst (retry_async c v rnd operation st) =
      (case call_outcome operation k st of Inr a \<Rightarrow> Inr a | Inl e \<Rightarrow> Inl (Raised e))"
    using retry_from_stops [of "rc_attempts c" c v operation st rnd] by (auto simp: retry_async_def)
  then show ?thesis using assms by (auto simp: call_outcome_def split: sum.splits)
qed

lemma router_call_valid: "fst (router_call env s m sub raw st) = Inr p \<Longrightarrow> action_plan_ok p"
  by (auto simp: router_call_def dest: http_plan_valid stub_plan_valid split: if_splits)

lemma unretried_Inr: "unretried r = Inr a \<longleftrightarrow> r = Inr a"
  by (auto simp: unretried_def split: sum.splits retry_failure.splits)

lemma route_unfold:
  "\<not> (s_interceptor_mode s = ModeHttp \<and> \<not> ready) \<Longrightarrow>
   route env ready s m sub raw st =
     (unretried (fst (retry_async (interceptor_retry s) interceptor_view (ce_random env) (router_call env s m sub raw) st)),
      fst (snd (retry_async (interceptor_retry s) interceptor_view (ce_random env) (router_call env s m sub raw) st)))"
  by (cases "s_interceptor_mode s = ModeHttp"; simp add: route_def case_prod_beta Let_def)

lemma route_not_ready:
  "s_interceptor_mode s = ModeHttp \<and> \<not> ready \<Longrightarrow>
   route env ready s m sub raw st =
     (Inl (InterceptorError \<lparr>ie_permanent = False, ie_retryable = False, ie_status_code = None, ie_retry_after = None\<rparr>), st)"
  by (simp add: route_def)

lemma route_valid:
  assumes "fst (route env ready s m sub raw st) = Inr p"
  shows "action_plan_ok p"
proof (cases "s_interceptor_mode s = ModeHttp \<and> \<not> ready")
  case True
  then show ?thesis using assms by (simp add: route_not_ready)
next
  case False
  then have "fst (retry_async (interceptor_retry s) interceptor_view (ce_random env) (router_call env s m sub raw) st) = Inr p"
    using assms by (simp add: route_unfold unretried_Inr)
  from retry_async_Inr [OF this] show ?thesis by (auto dest: router_call_valid)
qed

interpretation router: action_planner "route env ready s"
  by unfold_locales (rule route_valid)

section \<open>Lemmas on the client\<close>

lemma http_failure_error:
  "fst (http_failure env s now r gm) =
     (let code = hr_status_code r in
      \<lparr>ie_permanent = code \<in> {400, 413, 422},
       ie_retryable = (code \<in> {400, 413, 422, 408, 409, 425, 429} \<or> 500 \<le> code \<and> code \<noteq> 501),
       ie_status_code = Some code,
       ie_retry_after = (if code \<in> {408, 409, 425, 429} \<or> 500 \<le> code \<and> code \<noteq> 501 then
           parse_retry_after (ce_to_float env) (ce_seconds_until env) (hr_header r ''Retry-After'')
             (s_interceptor_retry_after_cap_seconds s) else None)\<rparr>)"
  by (auto simp: http_failure_def Let_def case_prod_beta)

lemma http_failure_gate:
  "hr_status_code r \<noteq> 429 \<Longrightarrow> \<not> (500 \<le> hr_status_code r \<and> hr_status_code r \<noteq> 501) \<Longrightarrow>
   fst (snd (http_failure env s now r (gate, m))) = gate"
  by (auto simp: http_failure_def Let_def)

lemma http_plan_requests:
  "cl_requests (snd (http_plan env s m sub raw st)) =
     (case destination s sub of
        Inl _ \<Rightarrow> cl_requests st
      | Inr (endpoint, key) \<Rightarrow>
          cl_requests st @ [\<lparr>sr_endpoint = endpoint, sr_key = key, sr_body = request_body env m raw\<rparr>])"
  by (auto simp: http_plan_def Let_def case_prod_beta split: sum.splits exchange.splits plan_decode.splits)

lemma state_before_requests:
  assumes "\<And>st. \<exists>new. cl_requests (snd (operation st)) = cl_requests st @ new \<and> length new \<le> 1 \<and> set new \<subseteq> R"
  shows "\<exists>new. cl_requests (state_before operation k st) = cl_requests st @ new \<and> length new \<le> k \<and> set new \<subseteq> R"
proof (induction k arbitrary: st)
  case (Suc k)
  obtain a where a: "cl_requests (snd (operation st)) = cl_requests st @ a" "length a \<le> 1" "set a \<subseteq> R"
    using assms by blast
  obtain b where b: "cl_requests (state_before operation k (snd (operation st))) = cl_requests (snd (operation st)) @ b"
    "length b \<le> k" "set b \<subseteq> R"
    using Suc.IH by blast
  have "length (a @ b) \<le> Suc k" using a(2) b(2) by simp
  then show ?case using a b by (intro exI [of _ "a @ b"]) simp
qed simp

definition sent_ok :: "client_env \<Rightarrow> settings \<Rightarrow> mutation \<Rightarrow> subscription \<Rightarrow> (string \<times> json) list \<Rightarrow> sent_request \<Rightarrow> bool" where
  "sent_ok env s m sub raw q \<longleftrightarrow>
     destination s sub = Inr (sr_endpoint q, sr_key q) \<and> sr_body q = request_body env m (Some raw)"

lemma route_requests:
  "\<exists>new. cl_requests (snd (route env ready s m sub raw st)) = cl_requests st @ new \<and>
     length new \<le> nat (s_max_attempts s) \<and> set new \<subseteq> {q. sent_ok env s m sub raw q}"
proof (cases "s_interceptor_mode s = ModeHttp \<and> \<not> ready")
  case True
  then show ?thesis by (simp add: route_not_ready)
next
  case False
  let ?call = "router_call env s m sub raw"
  have step: "\<exists>new. cl_requests (snd (?call st)) = cl_requests st @ new \<and> length new \<le> 1 \<and>
      set new \<subseteq> {q. sent_ok env s m sub raw q}" for st
    by (auto simp: router_call_def http_plan_requests sent_ok_def split: sum.splits)
  have n: "rc_attempts (interceptor_retry s) = nat (s_max_attempts s)" by (simp add: interceptor_retry_def)
  show ?thesis
  proof (cases "nat (s_max_attempts s)")
    case 0
    then show ?thesis using False by (simp add: route_unfold retry_async_def n)
  next
    case (Suc a)
    obtain k where k: "stops_at interceptor_view ?call (nat (s_max_attempts s)) st k"
      "fst (snd (retry_async (interceptor_retry s) interceptor_view (ce_random env) ?call st)) =
         state_before ?call (Suc k) st"
      using retry_from_stops [of "rc_attempts (interceptor_retry s)" "interceptor_retry s" interceptor_view ?call st
          "ce_random env"] Suc unfolding retry_async_def n by auto
    have "Suc k \<le> nat (s_max_attempts s)" using k(1) by (simp add: stops_at_def)
    moreover obtain new where "cl_requests (state_before ?call (Suc k) st) = cl_requests st @ new"
      "length new \<le> Suc k" "set new \<subseteq> {q. sent_ok env s m sub raw q}"
      using state_before_requests [OF step] by blast
    ultimately show ?thesis
      using False k(2) by (intro exI [of _ new]) (simp add: route_unfold)
  qed
qed

section \<open>What the simulator proposes\<close>

definition stub_vocabulary :: "string list" where
  "stub_vocabulary =
     [''ACKNOWLEDGE'', ''SHUTDOWN'', ''ISOLATE'', ''SCHEDULE_MAINTENANCE'', ''SHIFT_SPEED'', ''INSPECT'', ''NOTIFY'']"

lemma stub_vocabulary_known:
  "a \<in> set stub_vocabulary \<Longrightarrow> str_strip a = a \<and> map_of ACTION_ALIASES (str_upper a) \<noteq> None \<and> a \<noteq> []"
proof -
  have "list_all (\<lambda>a. str_strip a = a \<and> map_of ACTION_ALIASES (str_upper a) \<noteq> None \<and> a \<noteq> []) stub_vocabulary"
    by code_simp
  then show "a \<in> set stub_vocabulary \<Longrightarrow> ?thesis" by (simp add: list_all_iff)
qed

lemma stub_priorities_known:
  "p \<in> {''LOW'', ''HIGH'', ''CRITICAL''} \<Longrightarrow> str_strip p = p \<and> map_of PRIORITY_ALIASES (str_upper p) \<noteq> None \<and> p \<noteq> []"
proof -
  have "list_all (\<lambda>a. str_strip a = a \<and> map_of PRIORITY_ALIASES (str_upper a) \<noteq> None \<and> a \<noteq> [])
      [''LOW'', ''HIGH'', ''CRITICAL'']"
    by code_simp
  then show "p \<in> {''LOW'', ''HIGH'', ''CRITICAL''} \<Longrightarrow> ?thesis" by auto
qed

lemma reversible_words:
  assumes "a \<in> set stub_vocabulary - {''SHUTDOWN'', ''ISOLATE''}"
    and "map_of ACTION_ALIASES (str_upper (str_strip a)) = Some act"
  shows "\<not> is_irreversible act"
proof -
  have "list_all (\<lambda>a. a \<in> {''SHUTDOWN'', ''ISOLATE''} \<or>
      (case map_of ACTION_ALIASES (str_upper (str_strip a)) of Some x \<Rightarrow> \<not> is_irreversible x | None \<Rightarrow> True))
    stub_vocabulary"
    by code_simp
  then have "a \<in> {''SHUTDOWN'', ''ISOLATE''} \<or>
      (case map_of ACTION_ALIASES (str_upper (str_strip a)) of Some x \<Rightarrow> \<not> is_irreversible x | None \<Rightarrow> True)"
    using assms(1) unfolding list_all_iff by blast
  then show ?thesis using assms by (simp only: option.case Diff_iff, blast)
qed

text \<open>An action in the vocabulary, with a deadline the contract accepts.\<close>

definition proposable :: "planned_action \<Rightarrow> bool" where
  "proposable p \<longleftrightarrow>
     pa_action p \<in> set stub_vocabulary \<and> pa_priority p \<in> {''LOW'', ''HIGH'', ''CRITICAL''} \<and>
     1 \<le> pa_sequence p \<and> 1 \<le> pa_deadline_seconds p \<and> pa_deadline_seconds p \<le> 604800"

lemma stub_actions_proposable:
  assumes "1 \<le> s_default_deadline_seconds s" "s_default_deadline_seconds s \<le> 604800"
  shows "list_all proposable (stub_actions g s m) \<and> stub_actions g s m \<noteq> [] \<and> proposable (stub_inspection m)"
  using assms
  by (simp add: stub_actions_def stub_inspection_def proposable_def stub_vocabulary_def Let_def)

lemma proposable_constructs:
  assumes "proposable p"
  shows "make_planned_action p = Inr (strip_action p) \<and> proposable (strip_action p) \<and>
    planned_action_ok (strip_action p) \<and> pa_action (strip_action p) = pa_action p"
proof -
  have "str_strip (pa_action p) = pa_action p" "pa_action p \<noteq> []"
    using assms stub_vocabulary_known by (auto simp: proposable_def)
  moreover have "str_strip (pa_priority p) = pa_priority p" "pa_priority p \<noteq> []"
    using assms stub_priorities_known by (auto simp: proposable_def)
  ultimately show ?thesis
    using assms by (simp add: make_planned_action_def strip_action_def planned_action_ok_def proposable_def Let_def)
qed

lemma map_r_construct:
  "list_all proposable xs \<Longrightarrow> map_r make_planned_action xs = Inr (map strip_action xs)"
  by (induction xs) (simp_all add: proposable_constructs)

lemma number_actions_proposable:
  "list_all proposable xs \<Longrightarrow> list_all (\<lambda>p. proposable p \<and> planned_action_ok p) (number_actions (map strip_action xs))"
proof -
  assume a: "list_all proposable xs"
  have "proposable (p\<lparr>pa_sequence := int (Suc i)\<rparr>) \<and> planned_action_ok (p\<lparr>pa_sequence := int (Suc i)\<rparr>)"
    if "proposable p" "planned_action_ok p" for p i
    using that by (simp add: proposable_def planned_action_ok_def)
  then show ?thesis
    using a proposable_constructs
    by (fastforce simp: number_actions_def list_all_iff set_numbered)
qed

lemma number_actions_action:
  "p \<in> set (number_actions xs) \<Longrightarrow> \<exists>q \<in> set xs. pa_action p = pa_action q"
  by (auto simp: number_actions_def set_numbered intro: bexI [OF refl nth_mem])

text \<open>The raw steps the simulator keeps: without the irreversible ones when the context is thin.\<close>

definition stub_kept :: "(rat \<Rightarrow> string) \<Rightarrow> settings \<Rightarrow> mutation \<Rightarrow> planned_action list" where
  "stub_kept g s m =
     (let raw = stub_actions g s m;
          kept = filter (\<lambda>p. pa_action p \<notin> {''SHUTDOWN'', ''ISOLATE''}) raw
      in if mu_degraded m then (if kept = [] then [stub_inspection m] else kept) else raw)"

lemma stub_kept_proposable:
  assumes "1 \<le> s_default_deadline_seconds s" "s_default_deadline_seconds s \<le> 604800"
  shows "list_all proposable (stub_kept g s m) \<and> stub_kept g s m \<noteq> [] \<and>
    (mu_degraded m \<longrightarrow> list_all (\<lambda>p. pa_action p \<notin> {''SHUTDOWN'', ''ISOLATE''}) (stub_kept g s m))"
  using stub_actions_proposable [OF assms, of g m]
  by (auto simp: stub_kept_def list_all_iff Let_def) (simp_all add: stub_inspection_def Let_def)

lemma map_strip_filter:
  "list_all proposable xs \<Longrightarrow>
   filter (\<lambda>p. pa_action p \<notin> A) (map strip_action xs) = map strip_action (filter (\<lambda>p. pa_action p \<notin> A) xs)"
  by (induction xs) (auto simp: proposable_constructs)

lemma stub_plan_kept:
  assumes "1 \<le> s_default_deadline_seconds s" "s_default_deadline_seconds s \<le> 604800"
  shows "stub_plan g h l s m sub =
    (let plan = stub_envelope g h l m sub (number_actions (take (nat (s_max_commands s)) (map strip_action (stub_kept g s m))))
     in if action_plan_ok plan then Inr plan else Inl (OtherExn ValidationErrorExn))"
proof -
  note p = stub_actions_proposable [OF assms, of g m]
  have "make_planned_action (stub_inspection m) = Inr (strip_action (stub_inspection m))"
    using p proposable_constructs by blast
  then show ?thesis
    using p map_strip_filter [of "stub_actions g s m" "{''SHUTDOWN'', ''ISOLATE''}"]
    by (simp add: stub_plan_def map_r_construct stub_kept_def Let_def)
qed

lemma stub_envelope_fields:
  "pl_commands (stub_envelope g h l m sub kept) = kept"
  "pl_plan_id (stub_envelope g h l m sub kept) = ''plan_stub_'' @ h"
  "action_plan_ok (stub_envelope g h l m sub kept) \<longleftrightarrow>
     mu_event_id m \<noteq> [] \<and> mu_asset_id m \<noteq> [] \<and> kept \<noteq> [] \<and> list_all planned_action_ok kept"
  "0 \<le> pl_confidence (stub_envelope g h l m sub kept) \<and> pl_confidence (stub_envelope g h l m sub kept) \<le> 1"
  by (auto simp: stub_envelope_def action_plan_ok_def Let_def)

lemma stub_plan_succeeds:
  assumes "settings_fields_ok s" "mu_event_id m \<noteq> []" "mu_asset_id m \<noteq> []"
  shows "\<exists>kept. stub_plan g h l s m sub = Inr (stub_envelope g h l m sub kept) \<and>
    kept \<noteq> [] \<and> list_all proposable kept \<and> length kept \<le> nat (s_max_commands s) \<and>
    (mu_degraded m \<longrightarrow> list_all (\<lambda>p. pa_action p \<notin> {''SHUTDOWN'', ''ISOLATE''}) kept)"
proof -
  have d: "1 \<le> s_default_deadline_seconds s" "s_default_deadline_seconds s \<le> 604800" "1 \<le> s_max_commands s"
    using assms(1) by (auto simp: settings_fields_ok_def)
  let ?raw = "take (nat (s_max_commands s)) (stub_kept g s m)"
  let ?kept = "number_actions (map strip_action ?raw)"
  note k = stub_kept_proposable [OF d(1,2), of g m]
  have raw: "list_all proposable ?raw" "?raw \<noteq> []"
    "mu_degraded m \<longrightarrow> list_all (\<lambda>p. pa_action p \<notin> {''SHUTDOWN'', ''ISOLATE''}) ?raw"
    using k d(3) by (auto simp: list_all_iff dest: in_set_takeD)
  have len: "length ?kept = length ?raw" by (simp add: number_actions_def)
  have ok: "list_all (\<lambda>p. proposable p \<and> planned_action_ok p) ?kept"
    by (rule number_actions_proposable [OF raw(1)])
  have ne: "?kept \<noteq> []" using raw(2) len by (metis length_0_conv)
  have safe: "mu_degraded m \<longrightarrow> list_all (\<lambda>p. pa_action p \<notin> {''SHUTDOWN'', ''ISOLATE''}) ?kept"
    using raw(1,3) proposable_constructs by (fastforce simp: list_all_iff dest!: number_actions_action)
  have "action_plan_ok (stub_envelope g h l m sub ?kept)"
    using assms(2,3) ne ok by (simp add: stub_envelope_fields list_all_iff)
  then have "stub_plan g h l s m sub = Inr (stub_envelope g h l m sub ?kept)"
    by (simp add: stub_plan_kept [OF d(1,2)] take_map Let_def)
  then show ?thesis
    using ne ok safe len by (intro exI [of _ ?kept]) (auto simp: list_all_iff)
qed

text \<open>A proposable step is always translated, when the identities in the envelope are usable.\<close>

lemma proposable_translates:
  assumes "proposable p" "1 \<le> k" "identifier_shape (str_strip (mu_asset_id m))" "length (str_strip (mu_asset_id m)) \<le> 128"
    "str_strip (sub_tenant sub) \<noteq> []" "str_strip (sub_key_id sub) \<noteq> []" "str_strip (mu_event_id m) \<noteq> []"
    "str_strip (pl_plan_id plan) \<noteq> []" "str_strip corr \<noteq> []" "0 \<le> pl_confidence plan" "pl_confidence plan \<le> 1"
  shows "\<exists>c. translate_step uuid5 t m plan sub s corr (k, p) = Inr c"
proof -
  obtain a where a: "map_of ACTION_ALIASES (str_upper (str_strip (pa_action p))) = Some a"
    using assms(1) stub_vocabulary_known unfolding proposable_def by fastforce
  obtain q where q: "map_of PRIORITY_ALIASES (str_upper (str_strip (pa_priority p))) = Some q"
    using assms(1) stub_priorities_known unfolding proposable_def by fastforce
  have d: "1 \<le> pa_deadline_seconds p" "pa_deadline_seconds p \<le> 604800" using assms(1) by (auto simp: proposable_def)
  have "identifier_shape (str_strip (mu_asset_id m)) \<Longrightarrow> str_strip (mu_asset_id m) \<noteq> []"
    by (simp add: identifier_shape_def)
  then show ?thesis
    using assms d a q
    by (simp add: translate_step_def make_command_def strip_command_fields command_ok_def Let_def)
qed

section \<open>Properties\<close>

text \<open>
  A failed exchange is classified by whose fault it is.  For every status other than 200: only
  400, 413 and 422 are the message's fault; a retry is spent only on 408, 409, 425, 429 and on server
  errors other than 501; a refused key or a wrong endpoint is neither, so the record waits; and the
  shared pacer is stalled only by a 429, always, or by a server error that names a wait.
\<close>
theorem failure_classification:
  "hr_status_code r \<noteq> 200 \<Longrightarrow>
   (let (e, gate', m') = http_failure env s now r (gate, m); code = hr_status_code r in
     ie_permanent e = (code \<in> {400, 413, 422}) \<and>
     should_retry e = (code \<in> {408, 409, 425, 429} \<or> 500 \<le> code \<and> code \<noteq> 501) \<and>
     (code \<in> {401, 402, 403, 404, 405, 501} \<longrightarrow> \<not> ie_permanent e \<and> \<not> should_retry e) \<and>
     (gate' \<noteq> gate \<longrightarrow> code = 429 \<or> 500 \<le> code \<and> code \<noteq> 501 \<and> ie_retry_after e \<noteq> None) \<and>
     (code = 429 \<and> 0 < s_retry_max_seconds s \<and> ie_retry_after e = None \<longrightarrow>
        gate' = apply_cooldown now (s_retry_max_seconds s) gate))"
  by (auto simp: http_failure_def should_retry_def Let_def split: option.splits)

definition demo_env :: "exchange \<Rightarrow> client_env" where
  "demo_env x =
     \<lparr>ce_exchange = (\<lambda>n. x), ce_pace_clock = of_nat, ce_cooldown_clock = of_nat, ce_random = (\<lambda>n. 0),
      ce_elapsed_ms = (\<lambda>n. 1), ce_coerce_plan = (\<lambda>j. None), ce_validation_is_value_error = True,
      ce_to_float = (\<lambda>t. None), ce_seconds_until = (\<lambda>t. None), ce_dump_mutation = (\<lambda>m. []),
      ce_format_g = (\<lambda>x. ''g''), ce_plan_hex = ''00''\<rparr>"

definition demo_reply :: "int \<Rightarrow> http_reply" where
  "demo_reply code = \<lparr>hr_status_code = code, hr_header = (\<lambda>h. None), hr_json = Some JNull\<rparr>"

theorem failure_classification_witness:
  "ie_permanent (fst (http_failure (demo_env TimedOut) default_settings 0 (demo_reply 422) (rate_gate_init 0 1, metrics_init)))
   \<and> \<not> should_retry (fst (http_failure (demo_env TimedOut) default_settings 0 (demo_reply 403) (rate_gate_init 0 1, metrics_init)))"
  using failure_classification [of "demo_reply 422" "demo_env TimedOut" default_settings 0 "rate_gate_init 0 1" metrics_init]
    failure_classification [of "demo_reply 403" "demo_env TimedOut" default_settings 0 "rate_gate_init 0 1" metrics_init]
  by (simp add: demo_reply_def case_prod_beta Let_def)

text \<open>
  A plan that violates the contract is only the permanent failure the code describes when the
  validation library's error is not a ValueError.  Where it is one, the earlier handler takes it: the
  failure is retried, is not permanent, and is not counted as a rejected payload, so a cached
  non-conforming plan stalls its partition for good instead of being dead-lettered.
\<close>
theorem contract_violation_classification:
  "ce_exchange env (length (cl_requests st)) = Answered r \<Longrightarrow> hr_status_code r = 200 \<Longrightarrow>
   hr_json r = Some body \<Longrightarrow> ce_coerce_plan env body = None \<Longrightarrow> destination s sub = Inr dest \<Longrightarrow>
   \<exists>e. fst (http_plan env s m sub raw st) = Inl (InterceptorError e) \<and>
     ie_permanent e = (\<not> ce_validation_is_value_error env) \<and>
     should_retry e = ce_validation_is_value_error env \<and>
     mt_interceptor_rejected (cl_metrics (snd (http_plan env s m sub raw st))) =
       mt_interceptor_rejected (cl_metrics st) + (if ce_validation_is_value_error env then 0 else 1)"
  by (cases dest) (simp add: http_plan_def decode_plan_def should_retry_def Let_def case_prod_beta)

definition demo_client :: client_state where
  "demo_client = \<lparr>cl_gate = rate_gate_init 0 1, cl_metrics = metrics_init, cl_requests = []\<rparr>"

lemma demo_destination:
  "destination (keyed_settings (Some ''k'')) demo_subscription =
     Inr (interceptor_endpoint (keyed_settings (Some ''k'')), ''k'')"
proof -
  have "enterprise_endpoint (keyed_settings (Some ''k'')) = []"
    by (simp add: enterprise_endpoint_def keyed_settings_def default_settings_def)
  then show ?thesis
    by (simp add: destination_def routes_to_enterprise_def presented_key_def keyed_fields Let_def)
qed

theorem contract_violation_classification_witness:
  "\<exists>e. fst (http_plan (demo_env (Answered (demo_reply 200))) (keyed_settings (Some ''k'')) (demo_mutation SevHigh False)
       demo_subscription None demo_client) = Inl (InterceptorError e) \<and> \<not> ie_permanent e \<and> should_retry e"
  using contract_violation_classification [of "demo_env (Answered (demo_reply 200))" demo_client "demo_reply 200" JNull
      "keyed_settings (Some ''k'')" demo_subscription _ "demo_mutation SevHigh False" None, OF _ _ _ _ demo_destination]
  by (auto simp: demo_env_def demo_reply_def)

text \<open>
  Credentials and calls are confined.  Obtaining a plan sends at most max_attempts requests.
  Every one goes to the endpoint chosen for the subscription with the key that belongs to that
  endpoint: the enterprise key only to the enterprise endpoint and only for an enterprise tier,
  otherwise the worker's own key to the standard endpoint.  No body carries a credential field, and
  every other field of the engine's record is forwarded unchanged and in order.
\<close>
theorem route_requests_confined:
  "\<exists>new. cl_requests (snd (route env ready s m sub raw st)) = cl_requests st @ new \<and>
     length new \<le> nat (s_max_attempts s) \<and>
     list_all (\<lambda>q.
       (routes_to_enterprise s (sub_plan sub) \<and> str_strip (s_enterprise_license_key s) \<noteq> [] \<and>
          sr_endpoint q = enterprise_endpoint s \<and> sr_key q = str_strip (s_enterprise_license_key s) \<or>
        \<not> (routes_to_enterprise s (sub_plan sub) \<and> str_strip (s_enterprise_license_key s) \<noteq> []) \<and>
          sr_endpoint q = interceptor_endpoint s \<and> s_license_key s = Some (sr_key q)) \<and>
       sr_body q = filter (\<lambda>(k, v). k \<notin> set CREDENTIAL_KEYS) raw \<and>
       list_all (\<lambda>kv. fst kv \<notin> set CREDENTIAL_KEYS) (sr_body q)) new"
proof -
  obtain new where new: "cl_requests (snd (route env ready s m sub raw st)) = cl_requests st @ new"
    "length new \<le> nat (s_max_attempts s)" "set new \<subseteq> {q. sent_ok env s m sub raw q}"
    using route_requests by blast
  have dest: "(routes_to_enterprise s (sub_plan sub) \<and> str_strip (s_enterprise_license_key s) \<noteq> [] \<and>
          e = enterprise_endpoint s \<and> k = str_strip (s_enterprise_license_key s) \<or>
        \<not> (routes_to_enterprise s (sub_plan sub) \<and> str_strip (s_enterprise_license_key s) \<noteq> []) \<and>
          e = interceptor_endpoint s \<and> s_license_key s = Some k)"
    if "destination s sub = Inr (e, k)" for e k
    using that by (auto simp: destination_def presented_key_def Let_def split: if_splits option.splits)
  show ?thesis
    using new dest by (intro exI [of _ new]) (fastforce simp: sent_ok_def list_all_iff request_body_def)
qed

lemma stub_plan_translates:
  "settings_fields_ok s \<Longrightarrow> identifier_shape (str_strip (mu_asset_id m)) \<Longrightarrow>
   length (str_strip (mu_asset_id m)) \<le> 128 \<Longrightarrow> str_strip (mu_event_id m) \<noteq> [] \<Longrightarrow>
   str_strip (sub_tenant sub) \<noteq> [] \<Longrightarrow> str_strip (sub_key_id sub) \<noteq> [] \<Longrightarrow> str_strip corr \<noteq> [] \<Longrightarrow>
   \<exists>plan cs. stub_plan g h l s m sub = Inr plan \<and> translate_plan uuid5 t m plan sub s corr = Inr cs \<and>
     (mu_degraded m \<longrightarrow> list_all (\<lambda>c. \<not> is_irreversible (cp_action_type c)) cs)"
proof -
  assume s: "settings_fields_ok s" and shape: "identifier_shape (str_strip (mu_asset_id m))"
    and ids: "length (str_strip (mu_asset_id m)) \<le> 128" "str_strip (mu_event_id m) \<noteq> []"
      "str_strip (sub_tenant sub) \<noteq> []" "str_strip (sub_key_id sub) \<noteq> []" "str_strip corr \<noteq> []"
  have ne: "mu_event_id m \<noteq> []" "mu_asset_id m \<noteq> []" using ids(2) shape by (auto simp: identifier_shape_def)
  obtain kept where k: "stub_plan g h l s m sub = Inr (stub_envelope g h l m sub kept)" "kept \<noteq> []"
    "list_all proposable kept" "length kept \<le> nat (s_max_commands s)"
    "mu_degraded m \<longrightarrow> list_all (\<lambda>p. pa_action p \<notin> {''SHUTDOWN'', ''ISOLATE''}) kept"
    using stub_plan_succeeds [OF s ne] by blast
  let ?plan = "stub_envelope g h l m sub kept"
  have plan_id: "str_strip (pl_plan_id ?plan) \<noteq> []"
    by (rule str_strip_nonempty [of "CHR ''p''"]) (simp_all add: stub_envelope_fields is_space_def)
  have steps: "planned_steps s ?plan = kept" using k(4) by (simp add: planned_steps_def stub_envelope_fields)
  have "\<exists>c. translate_step uuid5 t m ?plan sub s corr (j, p) = Inr c" if "(j, p) \<in> set (numbered kept)" for j p
  proof (rule proposable_translates)
    show "proposable p" "1 \<le> j" using that k(3) by (auto simp: set_numbered list_all_iff)
  qed (use shape ids plan_id stub_envelope_fields(4) in auto)
  then obtain cs where cs: "map_r (translate_step uuid5 t m ?plan sub s corr) (numbered kept) = Inr cs"
    using map_r_Inr_all [of "translate_step uuid5 t m ?plan sub s corr" "numbered kept"] by auto
  have "cs \<noteq> []" using map_r_Inr_length [OF cs] k(2) by auto
  then have tr: "translate_plan uuid5 t m ?plan sub s corr = Inr cs"
    using cs steps by (simp add: translate_plan_def planned_steps_def)
  have "\<not> is_irreversible (cp_action_type (cs ! i))" if "mu_degraded m" "i < length cs" for i
  proof -
    have "translate_step uuid5 t m ?plan sub s corr (int (Suc i), kept ! i) = Inr (cs ! i)"
      and i: "i < length kept"
      using translate_plan_Inr [OF tr] that(2) steps by auto
    then have a: "map_of ACTION_ALIASES (str_upper (str_strip (pa_action (kept ! i)))) = Some (cp_action_type (cs ! i))"
      using translate_step_Inr by blast
    have "pa_action (kept ! i) \<in> set stub_vocabulary - {''SHUTDOWN'', ''ISOLATE''}"
      using k(3,5) that(1) i by (auto simp: list_all_length proposable_def)
    then show ?thesis using reversible_words a by blast
  qed
  then show ?thesis using k(1) tr by (auto simp: list_all_length)
qed

text \<open>
  The offline closure loop always closes.  For a mutation with an event id and an asset id of
  the required shape, and a subscription with a tenant and a key id, the simulator returns a plan and
  that plan translates to commands; and when the mutation's context is degraded no command isolates
  or shuts down anything.
\<close>
theorem stub_plan_closes:
  "settings_fields_ok s \<Longrightarrow> identifier_shape (str_strip (mu_asset_id m)) \<Longrightarrow>
   length (str_strip (mu_asset_id m)) \<le> 128 \<Longrightarrow> str_strip (mu_event_id m) \<noteq> [] \<Longrightarrow>
   str_strip (sub_tenant sub) \<noteq> [] \<Longrightarrow> str_strip (sub_key_id sub) \<noteq> [] \<Longrightarrow> str_strip corr \<noteq> [] \<Longrightarrow>
   \<exists>plan cs. stub_plan g h l s m sub = Inr plan \<and> translate_plan uuid5 t m plan sub s corr = Inr cs \<and>
     (mu_degraded m \<longrightarrow> list_all (\<lambda>c. \<not> is_irreversible (cp_action_type c)) cs)"
  by (rule stub_plan_translates)

theorem stub_plan_closes_witness:
  "\<exists>plan cs. stub_plan (\<lambda>x. ''g'') ''00'' 1 default_settings (demo_mutation SevCritical True) demo_subscription = Inr plan \<and>
     translate_plan id 5 (demo_mutation SevCritical True) plan demo_subscription default_settings ''c1'' = Inr cs \<and>
     list_all (\<lambda>c. \<not> is_irreversible (cp_action_type c)) cs"
proof -
  have m: "mu_asset_id (demo_mutation SevCritical True) = ''pump-7''" "mu_event_id (demo_mutation SevCritical True) = ''e1''"
    "mu_degraded (demo_mutation SevCritical True)" "sub_tenant demo_subscription = ''acme''" "sub_key_id demo_subscription = ''k1''"
    by (simp_all add: demo_mutation_def demo_subscription_def)
  show ?thesis
    using stub_plan_closes [OF default_fields_ok, of "demo_mutation SevCritical True" demo_subscription "''c1''" "\<lambda>x. ''g''" "''00''" 1 id 5]
    by (simp add: m demo_strips demo_shape)
qed

end
