(* ===== verification/Preflight.thy ===== *)
theory Preflight
  imports Interceptor_Client
begin

text \<open>
  The boot-time agreement check between the worker and the interceptor (PreflightStatus,
  InterceptorPreflight and run_preflight_until_ready in command_worker.py).  The answers of the
  introspection endpoint are a sequence indexed by the attempt.
\<close>

datatype preflight_phase = PfPending | PfSkipped | PfPassed | PfFailed

record preflight_status =
  pf_state :: preflight_phase
  pf_attempts :: nat
  pf_retryable :: bool
  pf_worker_tenant :: "string option"
  pf_worker_plan :: "string option"
  pf_interceptor_tenant :: "string option"
  pf_interceptor_tier :: "string option"
  pf_quota_per_minute :: "int option"

definition preflight_pending :: preflight_status where
  "preflight_pending =
     \<lparr>pf_state = PfPending, pf_attempts = 0, pf_retryable = True, pf_worker_tenant = None, pf_worker_plan = None,
      pf_interceptor_tenant = None, pf_interceptor_tier = None, pf_quota_per_minute = None\<rparr>"

text \<open>
  An introspection answer: a transport error, or a status with the body when it is JSON.  The state is
  the worker's own gate, the shared pacer and the status; the clocks are those of the attempt.
\<close>

datatype introspection = IntroTransportError | IntroAnswer int "json option"

record preflight_world =
  pw_gatekeeper :: gatekeeper
  pw_gate :: rate_gate
  pw_status :: preflight_status

record preflight_env =
  pe_sha :: "string \<Rightarrow> string"
  pe_clock :: "nat \<Rightarrow> rat"
  pe_repr :: "json \<Rightarrow> string"
  pe_answer :: "nat \<Rightarrow> introspection"

definition preflight_fail :: "bool \<Rightarrow> preflight_world \<Rightarrow> preflight_world" where
  "preflight_fail retryable w =
     w\<lparr>pw_status := (pw_status w)\<lparr>pf_state := PfFailed, pf_retryable := retryable\<rparr>\<rparr>"

definition resolve_local :: "preflight_env \<Rightarrow> preflight_world \<Rightarrow> subscription option raises \<times> preflight_world" where
  "resolve_local env w =
     (let now = pe_clock env (pf_attempts (pw_status w));
          (answer, g) = authorize (pe_sha env) now now (JObj []) True (pw_gatekeeper w);
          w1 = w\<lparr>pw_gatekeeper := g\<rparr>
      in case answer of
           Inl (LicenseRejected code) \<Rightarrow> (Inr None, preflight_fail False w1)
         | Inl (AuthRaised e) \<Rightarrow> (Inl e, w1)
         | Inr sub \<Rightarrow>
             (Inr (Some sub),
              w1\<lparr>pw_status := (pw_status w1)\<lparr>pf_worker_tenant := Some (sub_tenant sub),
                                             pf_worker_plan := Some (sub_plan sub)\<rparr>\<rparr>))"

definition introspect :: "preflight_env \<Rightarrow> settings \<Rightarrow> preflight_world \<Rightarrow> (string \<times> json) list option \<times> preflight_world" where
  "introspect env s w =
     (case s_license_key s of
        None \<Rightarrow> (None, preflight_fail False w)
      | Some key \<Rightarrow>
          (case pe_answer env (pf_attempts (pw_status w)) of
             IntroTransportError \<Rightarrow> (None, preflight_fail True w)
           | IntroAnswer code body \<Rightarrow>
               if code \<noteq> 200 then (None, preflight_fail (code \<ge> 500 \<or> code = 429) w)
               else (case body of
                       Some (JObj kvs) \<Rightarrow> (Some kvs, w)
                     | _ \<Rightarrow> (None, preflight_fail True w))))"

text \<open>The strings of the items of a value, as a set comprehension over it collects them.\<close>

fun iterated_strings :: "(json \<Rightarrow> string) \<Rightarrow> json \<Rightarrow> string list raises" where
  "iterated_strings repr_of (JList xs) = Inr (map (py_str repr_of) xs)"
| "iterated_strings repr_of (JStr cs) = Inr (map (\<lambda>c. [c]) cs)"
| "iterated_strings repr_of (JObj kvs) = Inr (map fst kvs)"
| "iterated_strings repr_of _ = Inl TypeErrorExn"

fun json_int :: "json \<Rightarrow> int option" where
  "json_int (JInt i) = Some i"
| "json_int (JBool b) = Some (if b then 1 else 0)"
| "json_int _ = None"

definition compare_tables ::
    "preflight_env \<Rightarrow> settings \<Rightarrow> subscription \<Rightarrow> (string \<times> json) list \<Rightarrow> preflight_world
      \<Rightarrow> bool raises \<times> preflight_world" where
  "compare_tables env s sub intro w =
     (let tenant = py_str (pe_repr env) (j_get_default intro ''tenant'' (JStr []));
          tier = normalise_plan (py_str (pe_repr env) (j_get_default intro ''tier'' (JStr [])));
          quota = json_int (j_get intro ''quota_per_minute'')
      in case iterated_strings (pe_repr env) (j_get_default intro ''features'' (JList [])) of
           Inl e \<Rightarrow> (Inl e, w)
         | Inr features \<Rightarrow>
             (let w1 = w\<lparr>pw_status := (pw_status w)\<lparr>pf_interceptor_tenant := Some tenant,
                          pf_interceptor_tier := Some tier, pf_quota_per_minute := quota\<rparr>\<rparr> in
              if \<not> py_truthy (j_get_default intro ''valid'' (JBool False)) then (Inr False, preflight_fail False w1)
              else if tenant \<noteq> sub_tenant sub then (Inr False, preflight_fail False w1)
              else if tier \<noteq> sub_plan sub then (Inr False, preflight_fail False w1)
              else if ''ai.intercept'' \<notin> set features then (Inr False, preflight_fail False w1)
              else
                (let gate = (case quota of
                               Some q \<Rightarrow> if q \<noteq> 0 \<and> s_interceptor_max_rpm s = 0 then retune q ''preflight'' (pw_gate w1)
                                         else pw_gate w1
                             | None \<Rightarrow> pw_gate w1)
                 in (Inr True,
                     w1\<lparr>pw_gate := gate,
                        pw_status := (pw_status w1)\<lparr>pf_state := PfPassed, pf_retryable := True\<rparr>\<rparr>))))"

definition preflight_run :: "preflight_env \<Rightarrow> settings \<Rightarrow> preflight_world \<Rightarrow> bool raises \<times> preflight_world" where
  "preflight_run env s w =
     (let w0 = w\<lparr>pw_status := (pw_status w)\<lparr>pf_attempts := Suc (pf_attempts (pw_status w))\<rparr>\<rparr> in
      case resolve_local env w0 of
        (Inl e, w1) \<Rightarrow> (Inl e, w1)
      | (Inr None, w1) \<Rightarrow> (Inr False, w1)
      | (Inr (Some sub), w1) \<Rightarrow>
          (case introspect env s w1 of
             (None, w2) \<Rightarrow> (Inr False, w2)
           | (Some intro, w2) \<Rightarrow> compare_tables env s sub intro w2))"

text \<open>
  The driver.  It answers whether the consumers may proceed, or the exception that ended its task;
  the recorded sleeps are those between attempts.
\<close>

fun preflight_loop ::
    "preflight_env \<Rightarrow> settings \<Rightarrow> (nat \<Rightarrow> rat) \<Rightarrow> nat \<Rightarrow> rat \<Rightarrow> preflight_world
      \<Rightarrow> bool raises \<times> preflight_world \<times> rat list" where
  "preflight_loop env s rnd 0 delay w = (Inr (\<not> s_interceptor_preflight_strict s), w, [])"
| "preflight_loop env s rnd (Suc n) delay w =
     (case preflight_run env s w of
        (Inl e, w1) \<Rightarrow> (Inl e, w1, [])
      | (Inr True, w1) \<Rightarrow> (Inr True, w1, [])
      | (Inr False, w1) \<Rightarrow>
          if \<not> pf_retryable (pw_status w1) then (Inr (\<not> s_interceptor_preflight_strict s), w1, [])
          else if n = 0 then (Inr (\<not> s_interceptor_preflight_strict s), w1, [])
          else
            (let (answer, w2, sleeps) =
                   preflight_loop env s rnd n (min (delay * 2) (s_transient_backoff_max_seconds s)) w1
             in (answer, w2, (delay + rnd n * delay) # sleeps)))"

definition run_preflight_until_ready ::
    "preflight_env \<Rightarrow> settings \<Rightarrow> (nat \<Rightarrow> rat) \<Rightarrow> preflight_world \<Rightarrow> bool raises \<times> preflight_world \<times> rat list" where
  "run_preflight_until_ready env s rnd w =
     preflight_loop env s rnd (nat (s_interceptor_preflight_attempts s)) (s_retry_base_seconds s) w"

section \<open>Lemmas\<close>

lemma introspect_Some:
  "introspect env s w = (Some intro, w2) \<longleftrightarrow>
     w2 = w \<and> s_license_key s \<noteq> None \<and> pe_answer env (pf_attempts (pw_status w)) = IntroAnswer 200 (Some (JObj intro))"
  by (auto simp: introspect_def split: option.splits introspection.splits json.splits if_splits)

lemma resolve_local_attempts:
  "pf_attempts (pw_status (snd (resolve_local env w))) = pf_attempts (pw_status w)"
  by (auto simp: resolve_local_def preflight_fail_def Let_def case_prod_beta split: sum.splits auth_error.splits)

lemma introspect_attempts:
  "pf_attempts (pw_status (snd (introspect env s w))) = pf_attempts (pw_status w)"
  by (auto simp: introspect_def preflight_fail_def split: option.splits introspection.splits json.splits)

lemma compare_tables_attempts:
  "pf_attempts (pw_status (snd (compare_tables env s sub intro w))) = pf_attempts (pw_status w)"
  by (auto simp: compare_tables_def preflight_fail_def Let_def split: sum.splits)

lemma preflight_run_attempts:
  "pf_attempts (pw_status (snd (preflight_run env s w))) = Suc (pf_attempts (pw_status w))"
proof -
  let ?w0 = "w\<lparr>pw_status := (pw_status w)\<lparr>pf_attempts := Suc (pf_attempts (pw_status w))\<rparr>\<rparr>"
  obtain r w1 where r: "resolve_local env ?w0 = (r, w1)" by fastforce
  have w1: "pf_attempts (pw_status w1) = Suc (pf_attempts (pw_status w))"
    using resolve_local_attempts [of env ?w0] r by simp
  obtain i w2 where i: "introspect env s w1 = (i, w2)" by fastforce
  have w2: "pf_attempts (pw_status w2) = Suc (pf_attempts (pw_status w))"
    using introspect_attempts [of env s w1] i w1 by simp
  have "snd (preflight_run env s w) =
      (case r of Inr (Some sub) \<Rightarrow>
         (case i of Some intro \<Rightarrow> snd (compare_tables env s sub intro w2) | None \<Rightarrow> w2) | _ \<Rightarrow> w1)"
    unfolding preflight_run_def Let_def r i by (simp add: i split: sum.split option.split)
  then show ?thesis
    by (auto simp: w1 w2 compare_tables_attempts split: sum.split option.split)
qed

lemma resolve_local_state:
  "fst (resolve_local env w) = Inr None \<Longrightarrow> pf_state (pw_status (snd (resolve_local env w))) = PfFailed"
  by (auto simp: resolve_local_def preflight_fail_def Let_def case_prod_beta split: sum.splits auth_error.splits)

lemma introspect_state: "fst (introspect env s w) = None \<Longrightarrow> pf_state (pw_status (snd (introspect env s w))) = PfFailed"
  by (auto simp: introspect_def preflight_fail_def split: option.splits introspection.splits json.splits if_splits)

lemma compare_tables_state:
  "fst (compare_tables env s sub intro w) = Inr b \<Longrightarrow>
   pf_state (pw_status (snd (compare_tables env s sub intro w))) = (if b then PfPassed else PfFailed)"
  by (auto simp: compare_tables_def preflight_fail_def Let_def split: sum.splits if_splits)

text \<open>The three steps of a run, in the order their failures end it.\<close>

definition run_start :: "preflight_world \<Rightarrow> preflight_world" where
  "run_start w = w\<lparr>pw_status := (pw_status w)\<lparr>pf_attempts := Suc (pf_attempts (pw_status w))\<rparr>\<rparr>"

lemma preflight_run_cases:
  obtains (raised) e where "fst (resolve_local env (run_start w)) = Inl e"
      "preflight_run env s w = (Inl e, snd (resolve_local env (run_start w)))"
  | (refused) "fst (resolve_local env (run_start w)) = Inr None"
      "preflight_run env s w = (Inr False, snd (resolve_local env (run_start w)))"
  | (silent) sub where "fst (resolve_local env (run_start w)) = Inr (Some sub)"
      "fst (introspect env s (snd (resolve_local env (run_start w)))) = None"
      "preflight_run env s w = (Inr False, snd (introspect env s (snd (resolve_local env (run_start w)))))"
  | (compared) sub intro where "fst (resolve_local env (run_start w)) = Inr (Some sub)"
      "fst (introspect env s (snd (resolve_local env (run_start w)))) = Some intro"
      "preflight_run env s w =
         compare_tables env s sub intro (snd (introspect env s (snd (resolve_local env (run_start w)))))"
proof -
  obtain r w1 where r: "resolve_local env (run_start w) = (r, w1)" by fastforce
  obtain i w2 where i: "introspect env s w1 = (i, w2)" by fastforce
  have run: "preflight_run env s w =
      (case r of Inl e \<Rightarrow> (Inl e, w1) | Inr None \<Rightarrow> (Inr False, w1)
       | Inr (Some sub) \<Rightarrow>
         (case i of Some intro \<Rightarrow> compare_tables env s sub intro w2 | None \<Rightarrow> (Inr False, w2)))"
    unfolding preflight_run_def Let_def run_start_def [symmetric] r by (simp add: i split: sum.split option.split)
  show thesis
  proof (cases r)
    case (Inl e)
    then show thesis using raised r run by simp
  next
    case (Inr o')
    then show thesis using refused silent compared r i run by (cases o'; cases i) simp_all
  qed
qed

lemma preflight_run_state:
  assumes "fst (preflight_run env s w) = Inr b"
  shows "pf_state (pw_status (snd (preflight_run env s w))) = (if b then PfPassed else PfFailed)"
proof (cases rule: preflight_run_cases [of env w s])
  case (compared sub intro)
  then show ?thesis using assms compare_tables_state by metis
qed (use assms resolve_local_state introspect_state in auto)

lemma resolve_local_Some:
  "fst (resolve_local env w) = Inr (Some sub) \<longleftrightarrow>
   (let now = pe_clock env (pf_attempts (pw_status w)) in
    fst (authorize (pe_sha env) now now (JObj []) True (pw_gatekeeper w)) = Inr sub)"
  by (auto simp: resolve_local_def Let_def case_prod_beta split: sum.splits auth_error.splits)

lemma compare_tables_True:
  "fst (compare_tables env s sub intro w) = Inr True \<longleftrightarrow>
   py_truthy (j_get_default intro ''valid'' (JBool False)) \<and>
   py_str (pe_repr env) (j_get_default intro ''tenant'' (JStr [])) = sub_tenant sub \<and>
   normalise_plan (py_str (pe_repr env) (j_get_default intro ''tier'' (JStr []))) = sub_plan sub \<and>
   (\<exists>features. iterated_strings (pe_repr env) (j_get_default intro ''features'' (JList [])) = Inr features \<and>
      ''ai.intercept'' \<in> set features)"
  by (auto simp: compare_tables_def Let_def split: sum.splits if_splits)

lemma introspect_fst_Some:
  "fst (introspect env s w) = Some intro \<longleftrightarrow>
   s_license_key s \<noteq> None \<and> pe_answer env (pf_attempts (pw_status w)) = IntroAnswer 200 (Some (JObj intro))"
  using introspect_Some [of env s w intro] by (metis fst_conv prod.collapse)

lemma preflight_loop_answer:
  "fst (preflight_loop env s rnd n d w) = Inr b \<Longrightarrow> 0 < n \<Longrightarrow>
   (b \<longleftrightarrow> \<not> s_interceptor_preflight_strict s \<or>
      pf_state (pw_status (fst (snd (preflight_loop env s rnd n d w)))) = PfPassed)"
proof (induction n arbitrary: d w)
  case (Suc n)
  obtain a w1 where r: "preflight_run env s w = (a, w1)" by fastforce
  have st: "a = Inr c \<Longrightarrow> pf_state (pw_status w1) = (if c then PfPassed else PfFailed)" for c
    using preflight_run_state [of env s w c] r by simp
  show ?case
  proof (cases "a = Inr False \<and> pf_retryable (pw_status w1) \<and> n \<noteq> 0")
    case True
    then show ?thesis using Suc.IH Suc.prems r by (auto simp: case_prod_beta Let_def)
  next
    case False
    then show ?thesis using Suc.prems r st by (auto split: sum.splits bool.splits if_splits)
  qed
qed simp

lemma preflight_loop_attempts:
  "pf_attempts (pw_status (fst (snd (preflight_loop env s rnd n d w)))) \<le> pf_attempts (pw_status w) + n"
proof (induction n arbitrary: d w)
  case (Suc n)
  obtain a w1 where r: "preflight_run env s w = (a, w1)" by fastforce
  have at: "pf_attempts (pw_status w1) = Suc (pf_attempts (pw_status w))"
    using preflight_run_attempts [of env s w] r by simp
  show ?case
    using Suc.IH [of "min (d * 2) (s_transient_backoff_max_seconds s)" w1] r at
    by (auto simp: case_prod_beta Let_def split: sum.splits bool.splits)
qed simp

section \<open>Properties\<close>

text \<open>
  The preflight passes exactly when the two services agree: the worker's own gate admits its own
  key, the interceptor answers 200 with an object that calls the subscription valid, names the same
  tenant, names a tier that folds to the same plan, and lists the intercept feature.
\<close>
theorem preflight_passes_iff:
  "fst (preflight_run env s w) = Inr True \<longleftrightarrow>
   (let n = Suc (pf_attempts (pw_status w)) in
    \<exists>sub intro features.
      fst (authorize (pe_sha env) (pe_clock env n) (pe_clock env n) (JObj []) True (pw_gatekeeper w)) = Inr sub \<and>
      s_license_key s \<noteq> None \<and> pe_answer env n = IntroAnswer 200 (Some (JObj intro)) \<and>
      py_truthy (j_get_default intro ''valid'' (JBool False)) \<and>
      py_str (pe_repr env) (j_get_default intro ''tenant'' (JStr [])) = sub_tenant sub \<and>
      normalise_plan (py_str (pe_repr env) (j_get_default intro ''tier'' (JStr []))) = sub_plan sub \<and>
      iterated_strings (pe_repr env) (j_get_default intro ''features'' (JList [])) = Inr features \<and>
      ''ai.intercept'' \<in> set features)"
  (is "_ \<longleftrightarrow> ?agree")
proof -
  have n: "pf_attempts (pw_status (run_start w)) = Suc (pf_attempts (pw_status w))"
    "pw_gatekeeper (run_start w) = pw_gatekeeper w"
    by (simp_all add: run_start_def)
  have n2: "pf_attempts (pw_status (snd (resolve_local env (run_start w)))) = Suc (pf_attempts (pw_status w))"
    by (simp add: resolve_local_attempts n)
  note simps = resolve_local_Some introspect_fst_Some compare_tables_True n n2 Let_def
  show ?thesis
  proof (cases rule: preflight_run_cases [of env w s])
    case (raised e)
    then have "\<And>sub. fst (resolve_local env (run_start w)) \<noteq> Inr (Some sub)" by simp
    then show ?thesis using raised(2) by (simp add: simps)
  next
    case refused
    then have "\<And>sub. fst (resolve_local env (run_start w)) \<noteq> Inr (Some sub)" by simp
    then show ?thesis using refused(2) by (simp add: simps)
  next
    case (silent sub)
    then have "\<nexists>intro. fst (introspect env s (snd (resolve_local env (run_start w)))) = Some intro" by simp
    then have "\<nexists>intro. s_license_key s \<noteq> None \<and>
        pe_answer env (Suc (pf_attempts (pw_status w))) = IntroAnswer 200 (Some (JObj intro))"
      by (simp only: introspect_fst_Some n2 not_False_eq_True)
    then show ?thesis using silent(3) by (auto simp: Let_def)
  next
    case (compared sub intro)
    then show ?thesis by (auto simp: simps)
  qed
qed

text \<open>
  What the preflight decides.  It makes at most the configured number of attempts; when it
  settles, the consumers proceed exactly if strict mode is off or the tables were found to agree.
\<close>
theorem preflight_decision:
  "1 \<le> s_interceptor_preflight_attempts s \<Longrightarrow>
   run_preflight_until_ready env s rnd w = (answer, w', sleeps) \<Longrightarrow>
   pf_attempts (pw_status w') \<le> pf_attempts (pw_status w) + nat (s_interceptor_preflight_attempts s) \<and>
   (answer = Inr proceed \<longrightarrow>
      proceed = (\<not> s_interceptor_preflight_strict s \<or> pf_state (pw_status w') = PfPassed))"
  using preflight_loop_answer [of env s rnd "nat (s_interceptor_preflight_attempts s)" "s_retry_base_seconds s" w proceed]
    preflight_loop_attempts [of env s rnd "nat (s_interceptor_preflight_attempts s)" "s_retry_base_seconds s" w]
  by (auto simp: run_preflight_until_ready_def)

definition demo_preflight_env :: "(nat \<Rightarrow> introspection) \<Rightarrow> preflight_env" where
  "demo_preflight_env answers =
     \<lparr>pe_sha = id, pe_clock = (\<lambda>n. 100), pe_repr = (\<lambda>j. []), pe_answer = answers\<rparr>"

definition demo_world :: preflight_world where
  "demo_world =
     \<lparr>pw_gatekeeper = gatekeeper_after (keyed_settings (Some ''oo-live-enterprise-demo-key'')) (fixtures id 100) 300 1024 [],
      pw_gate = rate_gate_init 0 1, pw_status = preflight_pending\<rparr>"

lemma keyed_preflight: "s_interceptor_preflight_attempts (keyed_settings k) = 10"
  "\<not> s_interceptor_preflight_strict (keyed_settings k)"
  by (simp_all add: keyed_settings_def default_settings_def)

theorem preflight_decision_witness:
  "case run_preflight_until_ready (demo_preflight_env (\<lambda>n. IntroTransportError))
      (keyed_settings (Some ''oo-live-enterprise-demo-key'')) (\<lambda>n. 0) demo_world of
    (answer, w', sleeps) \<Rightarrow> pf_attempts (pw_status w') \<le> 10"
proof -
  obtain a w' sl where r: "run_preflight_until_ready (demo_preflight_env (\<lambda>n. IntroTransportError))
      (keyed_settings (Some ''oo-live-enterprise-demo-key'')) (\<lambda>n. 0) demo_world = (a, w', sl)"
    using prod_cases3 by blast
  show ?thesis
    using preflight_decision [OF _ r] r by (simp add: keyed_preflight demo_world_def preflight_pending_def)
qed

text \<open>
  The check is documented as never raising, but an interceptor that answers with a null feature
  list makes it raise: the task of the driver ends with a TypeError, and the consumers, which wait for
  its verdict, are never released even when strict mode is off.
\<close>
theorem null_features_strand_consumers:
  "fst (authorize (pe_sha env) (pe_clock env 1) (pe_clock env 1) (JObj []) True (pw_gatekeeper w)) = Inr sub \<Longrightarrow>
   s_license_key s \<noteq> None \<Longrightarrow> pf_attempts (pw_status w) = 0 \<Longrightarrow> 1 \<le> s_interceptor_preflight_attempts s \<Longrightarrow>
   pe_answer env 1 = IntroAnswer 200 (Some (JObj intro)) \<Longrightarrow> map_of intro ''features'' = Some JNull \<Longrightarrow>
   fst (run_preflight_until_ready env s rnd w) = Inl TypeErrorExn"
proof -
  assume a: "fst (authorize (pe_sha env) (pe_clock env 1) (pe_clock env 1) (JObj []) True (pw_gatekeeper w)) = Inr sub"
    "s_license_key s \<noteq> None" "pf_attempts (pw_status w) = 0" "1 \<le> s_interceptor_preflight_attempts s"
    "pe_answer env 1 = IntroAnswer 200 (Some (JObj intro))" "map_of intro ''features'' = Some JNull"
  have n: "pf_attempts (pw_status (run_start w)) = 1" "pw_gatekeeper (run_start w) = pw_gatekeeper w"
    "pf_attempts (pw_status (snd (resolve_local env (run_start w)))) = 1"
    using a(3) by (simp_all add: run_start_def resolve_local_attempts)
  have l: "fst (resolve_local env (run_start w)) = Inr (Some sub)"
    using a(1) by (simp add: resolve_local_Some n Let_def)
  have i: "fst (introspect env s (snd (resolve_local env (run_start w)))) = Some intro"
    using a(2,5) by (simp add: introspect_fst_Some n)
  have "fst (compare_tables env s sub intro w') = Inl TypeErrorExn" for w'
    using a(6) by (simp add: compare_tables_def j_get_default_def Let_def)
  then have "fst (preflight_run env s w) = Inl TypeErrorExn"
    using l i by (cases rule: preflight_run_cases [of env w s]) auto
  moreover obtain n where "nat (s_interceptor_preflight_attempts s) = Suc n"
    using a(4) by (cases "nat (s_interceptor_preflight_attempts s)") auto
  ultimately show ?thesis by (auto simp: run_preflight_until_ready_def case_prod_beta split: sum.splits)
qed

lemma demo_world_authorizes:
  "\<exists>sub. fst (authorize id 100 100 (JObj []) True (pw_gatekeeper demo_world)) = Inr sub"
proof -
  have k: "str_strip ''oo-live-enterprise-demo-key'' = ''oo-live-enterprise-demo-key''" by code_simp
  have e: "extract_key (keyed_settings (Some ''oo-live-enterprise-demo-key'')) [] True = Some ''oo-live-enterprise-demo-key''"
    by (simp add: extract_key_def key_candidates_def j_get_def keyed_fields k)
  have "distinct (map (key_digest id) demo_keys)" by code_simp
  then have "registry_lookup (fixtures id 100) (key_digest id ''oo-live-enterprise-demo-key'') =
      Some (hd (fixture_list id 100))"
    using demo_lookup [of id 100] by (simp add: demo_keys_def fixture_list_def Let_def)
  then show ?thesis
    by (simp add: demo_world_def authorize_spec_agrees gatekeeper_after_ok authorize_spec_def e
        check_subscription_Inr fixture_list_def Let_def keyed_entitled)
qed

theorem null_features_strand_consumers_witness:
  "fst (run_preflight_until_ready (demo_preflight_env (\<lambda>n. IntroAnswer 200 (Some (JObj [(''features'', JNull)]))))
      (keyed_settings (Some ''oo-live-enterprise-demo-key'')) (\<lambda>n. 0) demo_world) = Inl TypeErrorExn"
proof -
  obtain sub where "fst (authorize id 100 100 (JObj []) True (pw_gatekeeper demo_world)) = Inr sub"
    using demo_world_authorizes by blast
  then show ?thesis
    by (intro null_features_strand_consumers [where sub = sub and intro = "[(''features'', JNull)]"])
      (simp_all add: demo_preflight_env_def keyed_fields keyed_preflight demo_world_def preflight_pending_def)
qed

end
