(* ===== verification/Closure.thy ===== *)
theory Closure
  imports Interceptor_Client
begin

text \<open>
  The closure loop of the command worker: publication and dead-lettering, the pipeline that takes one
  mutation to published commands, the handling of one Kafka record, and the consumer loop with its
  offsets (CommandPublisher, ClosurePipeline and CommandWorker in command_worker.py).

  The broker is an environment: the outcome of the n-th send.  A failed send may still have reached
  the topic.  The consumer loop is a step relation over one partition, whose steps are the branches of
  the loop body together with the group events of Kafka.
\<close>

section \<open>The world of the pipeline\<close>

datatype send_outcome = SendOk | SendFailed bool

record kafka_message =
  km_topic :: string
  km_partition :: int
  km_offset :: nat
  km_value :: "string option"
  km_key :: "string option"
  km_headers :: "(string \<times> string option) list"

record dlq_record =
  dl_value :: string
  dl_key :: "string option"
  dl_reason :: string
  dl_topic :: string
  dl_partition :: int
  dl_offset :: nat

record world =
  w_gatekeeper :: gatekeeper
  w_client :: client_state
  w_producer_up :: bool
  w_sends :: nat
  w_ticks :: nat
  w_commands :: "command_payload list"
  w_dlq :: "dlq_record list"

text \<open>
  A record header carries bytes; None stands for a value that is not UTF-8 text.  The decoder answers
  None for a body that is not UTF-8 or not JSON.
\<close>

record closure_env =
  x_client :: client_env
  x_ready :: bool
  x_sha :: "string \<Rightarrow> string"
  x_mono :: "nat \<Rightarrow> rat"
  x_wall :: "nat \<Rightarrow> rat"
  x_uuid5 :: "string \<Rightarrow> string"
  x_uuid4 :: "nat \<Rightarrow> string"
  x_loads :: "string \<Rightarrow> json option"
  x_coerce_mutation :: "(string \<times> json) list \<Rightarrow> mutation option"
  x_send :: "nat \<Rightarrow> send_outcome"
  x_random :: "nat \<Rightarrow> rat"

definition count :: "(metrics \<Rightarrow> metrics) \<Rightarrow> world \<Rightarrow> world" where
  "count f w = w\<lparr>w_client := (w_client w)\<lparr>cl_metrics := f (cl_metrics (w_client w))\<rparr>\<rparr>"

abbreviation w_metrics :: "world \<Rightarrow> metrics" where
  "w_metrics w \<equiv> cl_metrics (w_client w)"

section \<open>CommandPublisher\<close>

definition send_command :: "closure_env \<Rightarrow> command_payload \<Rightarrow> world \<Rightarrow> (unit + unit) \<times> world" where
  "send_command env c w =
     (let w1 = w\<lparr>w_sends := Suc (w_sends w)\<rparr> in
      case x_send env (w_sends w) of
        SendOk \<Rightarrow> (Inr (), w1\<lparr>w_commands := w_commands w @ [c]\<rparr>)
      | SendFailed written \<Rightarrow> (Inl (), w1\<lparr>w_commands := w_commands w @ (if written then [c] else [])\<rparr>))"

definition kafka_view :: "unit retry_view" where
  "kafka_view =
     \<lparr>rv_cancelled = (\<lambda>e. False), rv_retry_on = (\<lambda>e. True), rv_should_retry = (\<lambda>e. True),
      rv_retry_after = (\<lambda>e. None)\<rparr>"

definition publish_retry :: "settings \<Rightarrow> retry_config" where
  "publish_retry s =
     \<lparr>rc_attempts = nat (s_max_attempts s), rc_base_seconds = s_retry_base_seconds s,
      rc_max_seconds = s_retry_max_seconds s, rc_retry_after_cap = None\<rparr>"

definition publish :: "closure_env \<Rightarrow> settings \<Rightarrow> command_payload \<Rightarrow> world \<Rightarrow> (worker_exn + unit) \<times> world" where
  "publish env s c w =
     (if \<not> w_producer_up w then (Inl (TransientFailure ''producer_unavailable''), w)
      else
        (case retry_async (publish_retry s) kafka_view (x_random env) (send_command env c) w of
           (Inr _, w', _) \<Rightarrow> (Inr (), w')
         | (Inl (Raised _), w', _) \<Rightarrow>
             (Inl (TransientFailure ''command_publish_failed''),
              count (\<lambda>m. m\<lparr>mt_publish_failures := Suc (mt_publish_failures m)\<rparr>) w')
         | (Inl RetriesExhausted, w', _) \<Rightarrow> (Inl (OtherExn RuntimeErrorExn), w')))"

text \<open>The answer is whether the record reached the dead-letter topic; the caller does not look at it.\<close>

definition dead_letter :: "closure_env \<Rightarrow> kafka_message \<Rightarrow> string \<Rightarrow> world \<Rightarrow> bool \<times> world" where
  "dead_letter env msg reason w =
     (if \<not> w_producer_up w then
        (False, count (\<lambda>m. m\<lparr>mt_dlq_failures := Suc (mt_dlq_failures m)\<rparr>) w)
      else
        (let record = \<lparr>dl_value = (case km_value msg of None \<Rightarrow> [] | Some v \<Rightarrow> v), dl_key = km_key msg,
                       dl_reason = reason, dl_topic = km_topic msg, dl_partition = km_partition msg,
                       dl_offset = km_offset msg\<rparr>;
             w1 = w\<lparr>w_sends := Suc (w_sends w)\<rparr>
         in case x_send env (w_sends w) of
              SendOk \<Rightarrow>
                (True, count (\<lambda>m. m\<lparr>mt_dead_lettered := Suc (mt_dead_lettered m)\<rparr>)
                         (w1\<lparr>w_dlq := w_dlq w @ [record]\<rparr>))
            | SendFailed written \<Rightarrow>
                (False, count (\<lambda>m. m\<lparr>mt_dlq_failures := Suc (mt_dlq_failures m)\<rparr>)
                          (w1\<lparr>w_dlq := w_dlq w @ (if written then [record] else [])\<rparr>))))"

section \<open>ClosurePipeline\<close>

record command_batch =
  cb_plan_id :: string
  cb_event_id :: string
  cb_asset_id :: string
  cb_tenant :: string
  cb_topic :: string
  cb_issued :: nat
  cb_commands :: "command_payload list"

fun publish_all ::
    "closure_env \<Rightarrow> settings \<Rightarrow> command_payload list \<Rightarrow> world \<Rightarrow> (worker_exn + unit) \<times> world" where
  "publish_all env s [] w = (Inr (), w)"
| "publish_all env s (c # cs) w =
     (case publish env s c w of
        (Inl e, w1) \<Rightarrow> (Inl e, w1)
      | (Inr _, w1) \<Rightarrow>
          publish_all env s cs (count (\<lambda>m. m\<lparr>mt_commands_issued := Suc (mt_commands_issued m)\<rparr>) w1))"

definition route_failure :: "worker_exn \<Rightarrow> world \<Rightarrow> worker_exn \<times> world" where
  "route_failure e w =
     (case e of
        InterceptorError i \<Rightarrow>
          (if ie_permanent i then PermanentMessageError ''interceptor_rejected''
           else TransientFailure ''interceptor_unavailable'',
           count (\<lambda>m. m\<lparr>mt_plans_failed := Suc (mt_plans_failed m)\<rparr>) w)
      | _ \<Rightarrow> (e, w))"

definition close_loop ::
    "closure_env \<Rightarrow> settings \<Rightarrow> (string \<times> json) list \<Rightarrow> string \<Rightarrow> world \<Rightarrow> (worker_exn + command_batch) \<times> world" where
  "close_loop env s payload correlation_id w =
     (let t = w_ticks w;
          (decision, g) = authorize (x_sha env) (x_mono env t) (x_wall env t) (JObj payload) True (w_gatekeeper w);
          w0 = w\<lparr>w_gatekeeper := g, w_ticks := Suc t\<rparr>
      in case decision of
           Inl (LicenseRejected code) \<Rightarrow> (Inl (GateRejected code), w0)
         | Inl (AuthRaised e) \<Rightarrow> (Inl (OtherExn e), w0)
         | Inr sub \<Rightarrow>
             (let w1 = count (\<lambda>m. m\<lparr>mt_authorised := Suc (mt_authorised m)\<rparr>) w0 in
              case validate_mutation (x_coerce_mutation env) payload of
                None \<Rightarrow> (Inl (PermanentMessageError ''mutation_invalid''), w1)
              | Some m \<Rightarrow>
                  (let w2 = count (\<lambda>m. m\<lparr>mt_plans_requested := Suc (mt_plans_requested m)\<rparr>) w1;
                       (planned, cl) = route (x_client env) (x_ready env) s m sub payload (w_client w2);
                       w3 = w2\<lparr>w_client := cl\<rparr>
                   in case planned of
                        Inl e \<Rightarrow> (let (e', w4) = route_failure e w3 in (Inl e', w4))
                      | Inr plan \<Rightarrow>
                          (case translate_plan (x_uuid5 env) (x_wall env t) m plan sub s correlation_id of
                             Inl e \<Rightarrow> (Inl e, w3)
                           | Inr commands \<Rightarrow>
                               (case publish_all env s commands w3 of
                                  (Inl e, w4) \<Rightarrow> (Inl e, w4)
                                | (Inr _, w4) \<Rightarrow>
                                    (Inr \<lparr>cb_plan_id = pl_plan_id plan, cb_event_id = mu_event_id m,
                                          cb_asset_id = mu_asset_id m, cb_tenant = sub_tenant sub,
                                          cb_topic = s_commands_topic s, cb_issued = length commands,
                                          cb_commands = commands\<rparr>,
                                     count (\<lambda>m. m\<lparr>mt_batches_published := Suc (mt_batches_published m)\<rparr>) w4))))))"

section \<open>Handling one record\<close>

definition decode_message :: "closure_env \<Rightarrow> kafka_message \<Rightarrow> (string \<times> json) list option" where
  "decode_message env msg =
     (case km_value msg of
        None \<Rightarrow> None
      | Some v \<Rightarrow>
          if v = [] then None
          else (case x_loads env v of Some (JObj kvs) \<Rightarrow> Some kvs | _ \<Rightarrow> None))"

fun header_license_key :: "string \<Rightarrow> (string \<times> string option) list \<Rightarrow> string option" where
  "header_license_key header [] = None"
| "header_license_key header ((name, value) # hs) =
     (if str_lower name \<in> {''license_key'', ''licence_key'', str_lower header} then value
      else header_license_key header hs)"

definition inject_license_key :: "settings \<Rightarrow> kafka_message \<Rightarrow> (string \<times> json) list \<Rightarrow> (string \<times> json) list" where
  "inject_license_key s msg payload =
     (if py_truthy (j_get payload ''license_key'') then payload
      else (case header_license_key (s_license_header s) (km_headers msg) of
              None \<Rightarrow> payload
            | Some key \<Rightarrow> AList.update ''license_key'' (JStr key) payload))"

fun correlation_id :: "string \<Rightarrow> (string \<times> string option) list \<Rightarrow> string" where
  "correlation_id fresh [] = fresh"
| "correlation_id fresh ((name, value) # hs) =
     (if str_lower name \<in> {''x-request-id'', ''correlation_id'', ''event_id''} then
        (case value of
           Some v \<Rightarrow> if str_strip v \<noteq> [] then str_strip v else correlation_id fresh hs
         | None \<Rightarrow> correlation_id fresh hs)
      else correlation_id fresh hs)"

text \<open>
  How a record that was handled to the end was settled; the flag says whether the dead letter was
  acknowledged.  In the code the three cases are all a plain return.
\<close>

datatype settlement = Closed command_batch | DeadLettered string bool

definition settle_dead :: "closure_env \<Rightarrow> kafka_message \<Rightarrow> string \<Rightarrow> world \<Rightarrow> (worker_exn + settlement) \<times> world" where
  "settle_dead env msg reason w =
     (let (delivered, w') = dead_letter env msg reason w in (Inr (DeadLettered reason delivered), w'))"

definition handle :: "closure_env \<Rightarrow> settings \<Rightarrow> kafka_message \<Rightarrow> world \<Rightarrow> (worker_exn + settlement) \<times> world" where
  "handle env s msg w =
     (let w0 = count (\<lambda>m. m\<lparr>mt_consumed := Suc (mt_consumed m)\<rparr>) w;
          corr = correlation_id (x_uuid4 env (w_ticks w)) (km_headers msg)
      in case decode_message env msg of
           None \<Rightarrow> settle_dead env msg ''payload_not_json'' w0
         | Some decoded \<Rightarrow>
             (case close_loop env s (inject_license_key s msg decoded) corr w0 of
                (Inr batch, w1) \<Rightarrow> (Inr (Closed batch), w1)
              | (Inl (GateRejected code), w1) \<Rightarrow>
                  settle_dead env msg (''license_'' @ code)
                    (count (\<lambda>m. m\<lparr>mt_license_rejected := Suc (mt_license_rejected m)\<rparr>) w1)
              | (Inl (PermanentMessageError reason), w1) \<Rightarrow> settle_dead env msg reason w1
              | (Inl e, w1) \<Rightarrow> (Inl e, w1)))"

section \<open>The consumer loop\<close>

text \<open>
  One group member on one partition, which keeps its records.  The list of records is the partition as
  it will be in the end; a record's offset is its position in the list, and the first co_end of them have
  arrived.  The group has no committed offset until the first commit reaches the broker; co_first
  remembers the offset of the record that commit was for.  A member that lost the partition is not
  assigned; one whose task ended with an exception is not alive.
\<close>

record consumer =
  co_world :: world
  co_end :: nat
  co_position :: nat
  co_committed :: "nat option"
  co_first :: "nat option"
  co_assigned :: bool
  co_alive :: bool
  co_streak :: nat
  co_pauses :: "rat list"
  co_settled :: "(nat \<times> settlement) list"

text \<open>Where a member that is given the partition starts to read.\<close>

definition start_position :: "settings \<Rightarrow> consumer \<Rightarrow> nat" where
  "start_position s c =
     (case co_committed c of
        Some n \<Rightarrow> n
      | None \<Rightarrow> (case s_auto_offset_reset s of Earliest \<Rightarrow> 0 | Latest \<Rightarrow> co_end c))"

text \<open>A commit for the record at the position reaches the broker.\<close>

definition commit_landed :: "consumer \<Rightarrow> consumer" where
  "commit_landed c =
     c\<lparr>co_committed := Some (Suc (co_position c)),
       co_first := (case co_first c of None \<Rightarrow> Some (co_position c) | Some f \<Rightarrow> Some f)\<rparr>"

definition rewind_delay :: "settings \<Rightarrow> nat \<Rightarrow> rat \<Rightarrow> rat" where
  "rewind_delay s streak rnd =
     (let ceiling = min (s_transient_backoff_max_seconds s) (s_retry_base_seconds s * 2 ^ min (streak - 1) 10)
      in ceiling / 2 + rnd * (ceiling / 2))"

definition count_rewind :: "world \<Rightarrow> world" where
  "count_rewind w =
     count (\<lambda>m. m\<lparr>mt_transient_failures := Suc (mt_transient_failures m),
                  mt_messages_rewound := Suc (mt_messages_rewound m)\<rparr>) w"

definition count_restart :: "world \<Rightarrow> world" where
  "count_restart w = count (\<lambda>m. m\<lparr>mt_consumer_restarts := Suc (mt_consumer_restarts m)\<rparr>) w"

definition message_at :: "kafka_message list \<Rightarrow> nat \<Rightarrow> kafka_message" where
  "message_at records i = (records ! i)\<lparr>km_offset := i\<rparr>"

lemma commit_landed_simps [simp]:
  "co_world (commit_landed c) = co_world c" "co_end (commit_landed c) = co_end c"
  "co_position (commit_landed c) = co_position c" "co_assigned (commit_landed c) = co_assigned c"
  "co_alive (commit_landed c) = co_alive c" "co_settled (commit_landed c) = co_settled c"
  by (simp_all add: commit_landed_def)

text \<open>
  The last three rules are the group's and the topic's: the partition is taken away, it is given (back)
  to the member, a record arrives.  The rule elsewhere is another task of the process, which
  shares its producer, its gatekeeper, its client and its counters, handling a record of another
  partition.
\<close>

inductive consume_step ::
    "closure_env \<Rightarrow> settings \<Rightarrow> kafka_message list \<Rightarrow> consumer \<Rightarrow> consumer \<Rightarrow> bool"
  for env s records where
  handled:
    "co_alive c \<Longrightarrow> co_assigned c \<Longrightarrow> co_position c < co_end c \<Longrightarrow>
     handle env s (message_at records (co_position c)) (co_world c) = (Inr how, w) \<Longrightarrow>
     consume_step env s records c
       ((commit_landed c)\<lparr>co_world := w, co_position := Suc (co_position c), co_streak := 0,
          co_settled := co_settled c @ [(co_position c, how)]\<rparr>)"
| commit_failed:
    "co_alive c \<Longrightarrow> co_assigned c \<Longrightarrow> co_position c < co_end c \<Longrightarrow>
     handle env s (message_at records (co_position c)) (co_world c) = (Inr how, w) \<Longrightarrow>
     consume_step env s records c
       ((if landed then commit_landed c else c)\<lparr>co_world := count_restart w, co_assigned := False,
          co_streak := 0, co_settled := co_settled c @ [(co_position c, how)]\<rparr>)"
| rewound:
    "co_alive c \<Longrightarrow> co_assigned c \<Longrightarrow> co_position c < co_end c \<Longrightarrow>
     handle env s (message_at records (co_position c)) (co_world c) = (Inl (TransientFailure r), w) \<Longrightarrow>
     0 \<le> rnd \<Longrightarrow> rnd < 1 \<Longrightarrow>
     consume_step env s records c
       (c\<lparr>co_world := count_rewind w, co_streak := Suc (co_streak c),
          co_pauses := co_pauses c @ [rewind_delay s (Suc (co_streak c)) rnd]\<rparr>)"
| seek_failed:
    "co_alive c \<Longrightarrow> co_assigned c \<Longrightarrow> co_position c < co_end c \<Longrightarrow>
     handle env s (message_at records (co_position c)) (co_world c) = (Inl (TransientFailure r), w) \<Longrightarrow>
     consume_step env s records c
       (c\<lparr>co_world := count_rewind w, co_assigned := False, co_streak := Suc (co_streak c)\<rparr>)"
| crashed:
    "co_alive c \<Longrightarrow> co_assigned c \<Longrightarrow> co_position c < co_end c \<Longrightarrow>
     handle env s (message_at records (co_position c)) (co_world c) = (Inl e, w) \<Longrightarrow>
     (\<And>r. e \<noteq> TransientFailure r) \<Longrightarrow>
     consume_step env s records c (c\<lparr>co_world := w, co_alive := False\<rparr>)"
| elsewhere:
    "handle env s msg (co_world c) = (r, w) \<Longrightarrow> consume_step env s records c (c\<lparr>co_world := w\<rparr>)"
| revoked:
    "co_alive c \<Longrightarrow> consume_step env s records c (c\<lparr>co_assigned := False\<rparr>)"
| assigned:
    "co_alive c \<Longrightarrow> \<not> co_assigned c \<Longrightarrow>
     consume_step env s records c (c\<lparr>co_assigned := True, co_position := start_position s c\<rparr>)"
| arrived:
    "co_end c < length records \<Longrightarrow> consume_step env s records c (c\<lparr>co_end := Suc (co_end c)\<rparr>)"

text \<open>A group without a commit, before the member is given the partition, in which a backlog waits.\<close>

definition consumer_init :: "nat \<Rightarrow> world \<Rightarrow> consumer" where
  "consumer_init backlog w =
     \<lparr>co_world = w, co_end = backlog, co_position = 0, co_committed = None, co_first = None,
      co_assigned = False, co_alive = True, co_streak = 0, co_pauses = [], co_settled = []\<rparr>"

inductive consumer_reaches ::
    "closure_env \<Rightarrow> settings \<Rightarrow> kafka_message list \<Rightarrow> nat \<Rightarrow> world \<Rightarrow> consumer \<Rightarrow> bool"
  for env s records backlog w where
  start:
    "backlog \<le> length records \<Longrightarrow> consumer_reaches env s records backlog w (consumer_init backlog w)"
| step:
    "consumer_reaches env s records backlog w c \<Longrightarrow> consume_step env s records c c' \<Longrightarrow>
     consumer_reaches env s records backlog w c'"

inductive_cases consume_stepE: "consume_step env s records c c'"

section \<open>How the world grows\<close>

lemma count_simps [simp]:
  "w_commands (count f w) = w_commands w" "w_dlq (count f w) = w_dlq w"
  "w_gatekeeper (count f w) = w_gatekeeper w" "w_producer_up (count f w) = w_producer_up w"
  "w_sends (count f w) = w_sends w" "w_ticks (count f w) = w_ticks w"
  "cl_metrics (w_client (count f w)) = f (cl_metrics (w_client w))"
  "cl_requests (w_client (count f w)) = cl_requests (w_client w)"
  by (simp_all add: count_def)

text \<open>
  Topics only grow, and the counter of lost dead letters never falls.
\<close>

definition grows :: "world \<Rightarrow> world \<Rightarrow> bool" where
  "grows w w' \<longleftrightarrow>
     (\<exists>a. w_commands w' = w_commands w @ a) \<and> (\<exists>b. w_dlq w' = w_dlq w @ b) \<and>
     mt_dlq_failures (w_metrics w) \<le> mt_dlq_failures (w_metrics w')"

lemma grows_refl [simp, intro]: "grows w w"
  by (simp add: grows_def)

lemma grows_trans [trans]: "grows a b \<Longrightarrow> grows b c \<Longrightarrow> grows a c"
  by (auto simp: grows_def)

lemma grows_count: "(\<And>m. mt_dlq_failures m \<le> mt_dlq_failures (f m)) \<Longrightarrow> grows w (count f w)"
  by (simp add: grows_def)

lemma state_before_preserves:
  assumes "\<And>st. R st (snd (operation st))" "\<And>st. R st st" "\<And>a b c. R a b \<Longrightarrow> R b c \<Longrightarrow> R a c"
  shows "R st (state_before operation k st)"
  by (induction k arbitrary: st) (use assms in \<open>simp_all, blast\<close>)

lemma retry_async_preserves:
  assumes "\<And>st. R st (snd (operation st))" "\<And>st. R st st" "\<And>a b c. R a b \<Longrightarrow> R b c \<Longrightarrow> R a c"
  shows "R st (fst (snd (retry_async c v rnd operation st)))"
proof (cases "rc_attempts c")
  case 0
  then show ?thesis using assms(2) by (simp add: retry_async_def)
next
  case (Suc n)
  then obtain k where "fst (snd (retry_async c v rnd operation st)) = state_before operation (Suc k) st"
    using retry_from_stops [of "rc_attempts c" c v operation st rnd] by (auto simp: retry_async_def)
  moreover have "R st (state_before operation (Suc k) st)"
    by (rule state_before_preserves [where R = R]) (use assms in blast)+
  ultimately show ?thesis by simp
qed

text \<open>What the client does to the counters leaves the dead-letter counter alone.\<close>

lemma http_failure_metrics:
  "mt_dlq_failures (snd (snd (http_failure env s now r (gate, m)))) = mt_dlq_failures m"
  by (simp add: http_failure_def Let_def)

lemma http_plan_metrics:
  "mt_dlq_failures (cl_metrics (snd (http_plan env s m sub raw st))) = mt_dlq_failures (cl_metrics st)"
proof -
  have f: "http_failure env s now r (g, mm) = (e, g', m') \<Longrightarrow> mt_dlq_failures m' = mt_dlq_failures mm"
    for now r g mm e g' m'
    using http_failure_metrics [of env s now r g mm] by simp
  show ?thesis
    by (cases "destination s sub")
      (auto simp: http_plan_def Let_def f split: exchange.split plan_decode.split prod.split)
qed

lemma route_metrics:
  "mt_dlq_failures (cl_metrics (snd (route env ready s m sub raw st))) = mt_dlq_failures (cl_metrics st)"
proof (cases "s_interceptor_mode s = ModeHttp \<and> \<not> ready")
  case True
  then show ?thesis by (simp add: route_not_ready)
next
  case False
  have "mt_dlq_failures (cl_metrics st) = mt_dlq_failures (cl_metrics (snd (router_call env s m sub raw st)))" for st
    by (simp add: router_call_def http_plan_metrics)
  then have "mt_dlq_failures (cl_metrics st) = mt_dlq_failures (cl_metrics (fst (snd
      (retry_async (interceptor_retry s) interceptor_view (ce_random env) (router_call env s m sub raw) st))))"
    by (intro retry_async_preserves [where R = "\<lambda>a b. mt_dlq_failures (cl_metrics a) = mt_dlq_failures (cl_metrics b)"])
      simp_all
  then show ?thesis using False by (simp add: route_unfold)
qed

text \<open>Copies of each element in turn, with their multiplicities.\<close>

fun runs_of :: "nat list \<Rightarrow> 'a list \<Rightarrow> 'a list" where
  "runs_of (n # ns) (x # xs) = replicate n x @ runs_of ns xs"
| "runs_of _ _ = []"

text \<open>What one publication does: it touches the command topic only, with copies of its command.\<close>

definition publishes :: "world \<Rightarrow> command_payload list \<Rightarrow> world \<Rightarrow> bool" where
  "publishes w new w' \<longleftrightarrow>
     w_commands w' = w_commands w @ new \<and> w_dlq w' = w_dlq w \<and> w_gatekeeper w' = w_gatekeeper w \<and>
     w_producer_up w' = w_producer_up w \<and> w_ticks w' = w_ticks w \<and>
     cl_requests (w_client w') = cl_requests (w_client w) \<and>
     mt_dlq_failures (w_metrics w') = mt_dlq_failures (w_metrics w)"

lemma publishes_grows: "publishes w new w' \<Longrightarrow> grows w w'"
  by (auto simp: publishes_def grows_def)

lemma send_command_publishes:
  "\<exists>n. publishes w (replicate n c) (snd (send_command env c w)) \<and>
     (fst (send_command env c w) = Inr () \<longrightarrow> n = 1)"
  by (cases "x_send env (w_sends w)")
    (auto simp: send_command_def publishes_def Let_def intro: exI [of _ 0] exI [of _ 1])

lemma state_before_publishes:
  "\<exists>n. publishes w (replicate n c) (state_before (send_command env c) k w)"
proof (induction k arbitrary: w)
  case 0
  show ?case by (rule exI [of _ 0]) (simp add: publishes_def)
next
  case (Suc k)
  obtain a where a: "publishes w (replicate a c) (snd (send_command env c w))"
    using send_command_publishes by blast
  obtain b where b: "publishes (snd (send_command env c w)) (replicate b c)
      (state_before (send_command env c) k (snd (send_command env c w)))"
    using Suc.IH by blast
  show ?case using a b by (intro exI [of _ "a + b"]) (auto simp: publishes_def replicate_add)
qed

lemma publish_publishes:
  "\<exists>n. publishes w (replicate n c) (snd (publish env s c w)) \<and>
     (fst (publish env s c w) = Inr () \<longrightarrow> 0 < n) \<and>
     (\<forall>e. fst (publish env s c w) = Inl e \<longrightarrow> (\<exists>r. e = TransientFailure r) \<or> (\<exists>x. e = OtherExn x))"
proof (cases "w_producer_up w \<and> 0 < nat (s_max_attempts s)")
  case False
  then show ?thesis
    by (intro exI [of _ 0]) (auto simp: publish_def publishes_def retry_async_def publish_retry_def)
next
  case True
  let ?op = "send_command env c"
  obtain k where k: "fst (retry_async (publish_retry s) kafka_view (x_random env) ?op w) =
       (case call_outcome ?op k w of Inr a \<Rightarrow> Inr a | Inl e \<Rightarrow> Inl (Raised e))"
    "fst (snd (retry_async (publish_retry s) kafka_view (x_random env) ?op w)) = state_before ?op (Suc k) w"
    using retry_from_stops [of "rc_attempts (publish_retry s)" "publish_retry s" kafka_view ?op w "x_random env"] True
    by (auto simp: retry_async_def publish_retry_def)
  obtain a where a: "publishes w (replicate a c) (state_before ?op k w)"
    using state_before_publishes by blast
  have last: "state_before ?op (Suc k) w = snd (?op (state_before ?op k w))" for w k
    by (induction k arbitrary: w) auto
  obtain b where b: "publishes (state_before ?op k w) (replicate b c) (snd (?op (state_before ?op k w)))"
    "fst (?op (state_before ?op k w)) = Inr () \<longrightarrow> b = 1"
    using send_command_publishes by blast
  have all: "publishes w (replicate (a + b) c) (state_before ?op (Suc k) w)"
    using a b(1) unfolding last by (auto simp: publishes_def replicate_add)
  obtain r st d where ret: "retry_async (publish_retry s) kafka_view (x_random env) ?op w = (r, st, d)"
    using prod_cases3 by blast
  show ?thesis
  proof (cases "call_outcome ?op k w")
    case (Inl e)
    then have "publish env s c w = (Inl (TransientFailure ''command_publish_failed''),
        count (\<lambda>m. m\<lparr>mt_publish_failures := Suc (mt_publish_failures m)\<rparr>) (state_before ?op (Suc k) w))"
      using k ret True by (simp add: publish_def)
    then show ?thesis using all by (intro exI [of _ "a + b"]) (auto simp: publishes_def)
  next
    case (Inr u)
    then have "b = 1" using b(2) by (simp add: call_outcome_def)
    moreover have "publish env s c w = (Inr (), state_before ?op (Suc k) w)"
      using k ret True Inr by (simp add: publish_def)
    ultimately show ?thesis using all by (intro exI [of _ "a + b"]) simp
  qed
qed

lemma publish_all_publishes:
  "\<exists>ns. publishes w (runs_of ns cs) (snd (publish_all env s cs w)) \<and> length ns \<le> length cs \<and>
     (fst (publish_all env s cs w) = Inr () \<longrightarrow> length ns = length cs \<and> list_all (\<lambda>n. 0 < n) ns) \<and>
     (\<forall>e. fst (publish_all env s cs w) = Inl e \<longrightarrow> (\<exists>r. e = TransientFailure r) \<or> (\<exists>x. e = OtherExn x))"
proof (induction cs arbitrary: w)
  case Nil
  show ?case by (rule exI [of _ "[]"]) (simp add: publishes_def)
next
  case (Cons c cs)
  obtain n where n: "publishes w (replicate n c) (snd (publish env s c w))"
    "fst (publish env s c w) = Inr () \<longrightarrow> 0 < n"
    "\<forall>e. fst (publish env s c w) = Inl e \<longrightarrow> (\<exists>r. e = TransientFailure r) \<or> (\<exists>x. e = OtherExn x)"
    using publish_publishes by blast
  obtain r w1 where p: "publish env s c w = (r, w1)" by fastforce
  show ?case
  proof (cases r)
    case (Inl e)
    then show ?thesis using n p by (intro exI [of _ "[n]"]) auto
  next
    case (Inr u)
    let ?w = "count (\<lambda>m. m\<lparr>mt_commands_issued := Suc (mt_commands_issued m)\<rparr>) w1"
    obtain ns where ns: "publishes ?w (runs_of ns cs) (snd (publish_all env s cs ?w))" "length ns \<le> length cs"
      "fst (publish_all env s cs ?w) = Inr () \<longrightarrow> length ns = length cs \<and> list_all (\<lambda>n. 0 < n) ns"
      "\<forall>e. fst (publish_all env s cs ?w) = Inl e \<longrightarrow> (\<exists>r. e = TransientFailure r) \<or> (\<exists>x. e = OtherExn x)"
      using Cons.IH by blast
    have eq: "publish_all env s (c # cs) w = publish_all env s cs ?w" using p Inr by simp
    have "publishes w (runs_of (n # ns) (c # cs)) (snd (publish_all env s cs ?w))"
      using n(1) ns(1) p by (auto simp: publishes_def)
    then show ?thesis using ns n p Inr unfolding eq by (intro exI [of _ "n # ns"]) auto
  qed
qed

lemma runs_of_covers: "length ns = length cs \<Longrightarrow> list_all (\<lambda>n. 0 < n) ns \<Longrightarrow> set (runs_of ns cs) = set cs"
  by (induction ns cs rule: runs_of.induct) auto


section \<open>Which errors leave a component\<close>

lemma retry_async_Inl:
  assumes "fst (retry_async c v rnd operation st) = Inl (Raised e)"
  shows "\<exists>st'. fst (operation st') = Inl e"
proof (cases "rc_attempts c")
  case 0
  then show ?thesis using assms by (simp add: retry_async_def)
next
  case (Suc n)
  then obtain k where "fst (retry_async c v rnd operation st) =
      (case call_outcome operation k st of Inr a \<Rightarrow> Inr a | Inl e \<Rightarrow> Inl (Raised e))"
    using retry_from_stops [of "rc_attempts c" c v operation st rnd] by (auto simp: retry_async_def)
  then show ?thesis using assms by (auto simp: call_outcome_def split: sum.splits)
qed

lemma http_plan_error: "fst (http_plan env s m sub raw st) = Inl e \<Longrightarrow> \<exists>i. e = InterceptorError i"
  by (auto simp: http_plan_def destination_def presented_key_def bind_r_Inl_iff Let_def case_prod_beta
      split: sum.splits exchange.splits plan_decode.splits if_splits option.splits)

lemma stub_plan_error: "stub_plan g h l s m sub = Inl e \<Longrightarrow> \<exists>x. e = OtherExn x"
  by (auto simp: stub_plan_def bind_r_Inl_iff Let_def split: if_splits sum.splits)

lemma route_error:
  assumes "fst (route env ready s m sub raw st) = Inl e"
  shows "(\<exists>i. e = InterceptorError i) \<or> (\<exists>x. e = OtherExn x)"
proof (cases "s_interceptor_mode s = ModeHttp \<and> \<not> ready")
  case True
  then show ?thesis using assms by (auto simp: route_not_ready)
next
  case False
  let ?r = "fst (retry_async (interceptor_retry s) interceptor_view (ce_random env) (router_call env s m sub raw) st)"
  have u: "unretried ?r = Inl e" using assms False by (simp add: route_unfold)
  have "fst (router_call env s m sub raw st') = Inl e' \<Longrightarrow> (\<exists>i. e' = InterceptorError i) \<or> (\<exists>x. e' = OtherExn x)" for st' e'
    by (auto simp: router_call_def dest: http_plan_error stub_plan_error split: if_splits)
  then show ?thesis
    using u retry_async_Inl [of "interceptor_retry s" interceptor_view "ce_random env" "router_call env s m sub raw" st]
    by (fastforce simp: unretried_def split: sum.splits retry_failure.splits)
qed

section \<open>The pipeline, stage by stage\<close>

definition gate_call :: "closure_env \<Rightarrow> (string \<times> json) list \<Rightarrow> world \<Rightarrow> (auth_error + subscription) \<times> gatekeeper" where
  "gate_call env payload w =
     authorize (x_sha env) (x_mono env (w_ticks w)) (x_wall env (w_ticks w)) (JObj payload) True (w_gatekeeper w)"

definition gated :: "closure_env \<Rightarrow> (string \<times> json) list \<Rightarrow> world \<Rightarrow> world" where
  "gated env payload w = w\<lparr>w_gatekeeper := snd (gate_call env payload w), w_ticks := Suc (w_ticks w)\<rparr>"

lemma gated_simps [simp]:
  "w_commands (gated env p w) = w_commands w" "w_dlq (gated env p w) = w_dlq w"
  "w_client (gated env p w) = w_client w" "w_producer_up (gated env p w) = w_producer_up w"
  "w_sends (gated env p w) = w_sends w" "w_gatekeeper (gated env p w) = snd (gate_call env p w)"
  by (simp_all add: gated_def)

lemma close_loop_refused:
  "fst (gate_call env p w) = Inl (LicenseRejected code) \<Longrightarrow>
   close_loop env s p corr w = (Inl (GateRejected code), gated env p w)"
  "fst (gate_call env p w) = Inl (AuthRaised e) \<Longrightarrow>
   close_loop env s p corr w = (Inl (OtherExn e), gated env p w)"
  by (simp_all add: close_loop_def gate_call_def gated_def Let_def case_prod_beta)

text \<open>The world handed to the router, and the answer of the router there.\<close>

definition admitted :: "closure_env \<Rightarrow> (string \<times> json) list \<Rightarrow> world \<Rightarrow> world" where
  "admitted env p w =
     count (\<lambda>m. m\<lparr>mt_plans_requested := Suc (mt_plans_requested m)\<rparr>)
       (count (\<lambda>m. m\<lparr>mt_authorised := Suc (mt_authorised m)\<rparr>) (gated env p w))"

definition planning ::
    "closure_env \<Rightarrow> settings \<Rightarrow> mutation \<Rightarrow> subscription \<Rightarrow> (string \<times> json) list \<Rightarrow> world
      \<Rightarrow> (worker_exn + action_plan) \<times> world" where
  "planning env s m sub p w =
     (let (planned, cl) = route (x_client env) (x_ready env) s m sub p (w_client (admitted env p w))
      in (planned, (admitted env p w)\<lparr>w_client := cl\<rparr>))"

lemma close_loop_invalid:
  "fst (gate_call env p w) = Inr sub \<Longrightarrow> validate_mutation (x_coerce_mutation env) p = None \<Longrightarrow>
   close_loop env s p corr w =
     (Inl (PermanentMessageError ''mutation_invalid''),
      count (\<lambda>m. m\<lparr>mt_authorised := Suc (mt_authorised m)\<rparr>) (gated env p w))"
  by (simp add: close_loop_def gate_call_def gated_def Let_def case_prod_beta)

lemma close_loop_admitted:
  "fst (gate_call env p w) = Inr sub \<Longrightarrow> validate_mutation (x_coerce_mutation env) p = Some m \<Longrightarrow>
   close_loop env s p corr w =
     (case planning env s m sub p w of
        (Inl e, w1) \<Rightarrow> (Inl (fst (route_failure e w1)), snd (route_failure e w1))
      | (Inr plan, w1) \<Rightarrow>
          (case translate_plan (x_uuid5 env) (x_wall env (w_ticks w)) m plan sub s corr of
             Inl e \<Rightarrow> (Inl e, w1)
           | Inr commands \<Rightarrow>
               (case publish_all env s commands w1 of
                  (Inl e, w2) \<Rightarrow> (Inl e, w2)
                | (Inr _, w2) \<Rightarrow>
                    (Inr \<lparr>cb_plan_id = pl_plan_id plan, cb_event_id = mu_event_id m, cb_asset_id = mu_asset_id m,
                          cb_tenant = sub_tenant sub, cb_topic = s_commands_topic s,
                          cb_issued = length commands, cb_commands = commands\<rparr>,
                     count (\<lambda>m. m\<lparr>mt_batches_published := Suc (mt_batches_published m)\<rparr>) w2))))"
  by (simp add: close_loop_def gate_call_def gated_def planning_def admitted_def Let_def case_prod_beta
      split: sum.split)

lemma admitted_simps [simp]:
  "w_commands (admitted env p w) = w_commands w" "w_dlq (admitted env p w) = w_dlq w"
  "w_gatekeeper (admitted env p w) = snd (gate_call env p w)"
  "w_producer_up (admitted env p w) = w_producer_up w"
  "mt_dlq_failures (w_metrics (admitted env p w)) = mt_dlq_failures (w_metrics w)"
  "cl_requests (w_client (admitted env p w)) = cl_requests (w_client w)"
  by (simp_all add: admitted_def)

lemma planning_keeps:
  assumes "planning env s m sub p w = (planned, w')"
  shows "w_commands w' = w_commands w \<and> w_dlq w' = w_dlq w \<and> w_gatekeeper w' = snd (gate_call env p w) \<and>
    w_producer_up w' = w_producer_up w \<and> mt_dlq_failures (w_metrics w') = mt_dlq_failures (w_metrics w)"
proof -
  obtain r cl where r: "route (x_client env) (x_ready env) s m sub p (w_client (admitted env p w)) = (r, cl)"
    by fastforce
  have "mt_dlq_failures (cl_metrics cl) = mt_dlq_failures (w_metrics w)"
    using route_metrics [of "x_client env" "x_ready env" s m sub p "w_client (admitted env p w)"] r by simp
  then show ?thesis using assms r by (auto simp: planning_def)
qed

lemma planning_error:
  "planning env s m sub p w = (Inl e, w') \<Longrightarrow> (\<exists>i. e = InterceptorError i) \<or> (\<exists>x. e = OtherExn x)"
  using route_error [of "x_client env" "x_ready env" s m sub p "w_client (admitted env p w)"]
  by (auto simp: planning_def split: prod.splits)

lemma route_failure_simps:
  "w_commands (snd (route_failure e w)) = w_commands w" "w_dlq (snd (route_failure e w)) = w_dlq w"
  "w_gatekeeper (snd (route_failure e w)) = w_gatekeeper w"
  "mt_dlq_failures (w_metrics (snd (route_failure e w))) = mt_dlq_failures (w_metrics w)"
  "fst (route_failure (OtherExn x) w) = OtherExn x"
  "fst (route_failure (InterceptorError i) w) =
     (if ie_permanent i then PermanentMessageError ''interceptor_rejected'' else TransientFailure ''interceptor_unavailable'')"
  by (simp_all add: route_failure_def split: worker_exn.split)

lemma translate_plan_error: "translate_plan u t m plan sub s corr = Inl e \<Longrightarrow> \<exists>r. e = PermanentMessageError r"
  by (auto simp: translate_plan_def bind_r_Inl_iff split: if_splits dest!: map_r_Inl translate_step_Inl)

text \<open>
  The three ways an admitted payload can end: before publication, with a batch, or with publication
  cut short.
\<close>

lemma close_loop_admitted_cases:
  assumes "fst (gate_call env p w) = Inr sub" and "close_loop env s p corr w = (r, w')"
  obtains
    (early) e where "r = Inl e" "(\<exists>x. e = PermanentMessageError x) \<or> (\<exists>x. e = TransientFailure x) \<or> (\<exists>x. e = OtherExn x)"
      "w_commands w' = w_commands w" "w_dlq w' = w_dlq w" "w_gatekeeper w' = snd (gate_call env p w)"
      "mt_dlq_failures (w_metrics w') = mt_dlq_failures (w_metrics w)"
  | (planned) m plan w1 commands ns w2
    where "validate_mutation (x_coerce_mutation env) p = Some m" "planning env s m sub p w = (Inr plan, w1)"
      "translate_plan (x_uuid5 env) (x_wall env (w_ticks w)) m plan sub s corr = Inr commands"
      "publish_all env s commands w1 = (map_sum id (\<lambda>b. ()) r, w2)" "publishes w1 (runs_of ns commands) w2"
      "length ns \<le> length commands"
      "\<And>b. r = Inr b \<Longrightarrow> length ns = length commands \<and> list_all (\<lambda>n. 0 < n) ns \<and> cb_commands b = commands \<and>
          cb_issued b = length commands \<and> cb_tenant b = sub_tenant sub \<and> cb_event_id b = mu_event_id m"
      "\<And>e. r = Inl e \<Longrightarrow> (\<exists>x. e = TransientFailure x) \<or> (\<exists>x. e = OtherExn x)"
      "w_commands w' = w_commands w2" "w_dlq w' = w_dlq w2" "w_gatekeeper w' = w_gatekeeper w2"
      "mt_dlq_failures (w_metrics w') = mt_dlq_failures (w_metrics w2)"
proof (cases "validate_mutation (x_coerce_mutation env) p")
  case None
  show thesis using assms(2) by (intro early) (auto simp: close_loop_invalid [OF assms(1) None])
next
  case (Some m)
  obtain planned w1 where pl: "planning env s m sub p w = (planned, w1)" by fastforce
  note keeps = planning_keeps [OF pl]
  note eq = assms(2) [unfolded close_loop_admitted [OF assms(1) Some] pl]
  show thesis
  proof (cases planned)
    case (Inl e)
    then have "(\<exists>i. e = InterceptorError i) \<or> (\<exists>x. e = OtherExn x)" using pl planning_error by blast
    then show thesis using eq Inl keeps
      by (intro early [of "fst (route_failure e w1)"]) (auto simp: route_failure_simps)
  next
    case (Inr plan)
    show thesis
    proof (cases "translate_plan (x_uuid5 env) (x_wall env (w_ticks w)) m plan sub s corr")
      case (Inl e)
      then show thesis using eq Inr keeps translate_plan_error by (intro early [of e]) auto
    next
      case tr: (Inr commands)
      obtain ns where ns: "publishes w1 (runs_of ns commands) (snd (publish_all env s commands w1))"
        "length ns \<le> length commands"
        "fst (publish_all env s commands w1) = Inr () \<longrightarrow> length ns = length commands \<and> list_all (\<lambda>n. 0 < n) ns"
        "\<forall>e. fst (publish_all env s commands w1) = Inl e \<longrightarrow> (\<exists>r. e = TransientFailure r) \<or> (\<exists>x. e = OtherExn x)"
        using publish_all_publishes by blast
      obtain q w2 where q: "publish_all env s commands w1 = (q, w2)" by fastforce
      show thesis
        by (rule planned [OF Some pl [unfolded Inr] tr]) (use eq Inr tr q ns in \<open>cases q; auto\<close>)+
    qed
  qed
qed

section \<open>One record\<close>

lemma gate_call_count [simp]: "gate_call env p (count f w) = gate_call env p w"
  by (simp add: gate_call_def)

lemma gate_call_sound:
  assumes "fst (gate_call env p w) = Inr sub" "w_gatekeeper w = gatekeeper_after gs reg ttl n ops"
  shows "\<exists>key. extract_key gs p True = Some key \<and> registry_lookup reg (key_digest (x_sha env) key) = Some sub \<and>
    sub_active sub \<and> (\<exists>t. sub_expires_at sub = Aware t \<and> x_wall env (w_ticks w) < t) \<and>
    sub_plan sub \<in> entitled_plans gs"
  using assms authorize_spec_agrees [OF gatekeeper_after_ok(1)]
  by (auto simp: gate_call_def gatekeeper_after_ok authorize_spec_def check_subscription_Inr split: option.splits)

definition dlq_entry :: "kafka_message \<Rightarrow> string \<Rightarrow> dlq_record" where
  "dlq_entry msg reason =
     \<lparr>dl_value = (case km_value msg of None \<Rightarrow> [] | Some v \<Rightarrow> v), dl_key = km_key msg, dl_reason = reason,
      dl_topic = km_topic msg, dl_partition = km_partition msg, dl_offset = km_offset msg\<rparr>"

lemma settle_dead_cases:
  assumes "settle_dead env msg reason w = (r, w')"
  obtains d where "r = Inr (DeadLettered reason d)" "w_commands w' = w_commands w"
    "cl_requests (w_client w') = cl_requests (w_client w)" "w_gatekeeper w' = w_gatekeeper w"
    "\<exists>a. w_dlq w' = w_dlq w @ a" "d \<Longrightarrow> w_dlq w' = w_dlq w @ [dlq_entry msg reason]"
    "mt_dlq_failures (w_metrics w') = mt_dlq_failures (w_metrics w) + (if d then 0 else 1)"
proof -
  obtain d where dl: "dead_letter env msg reason w = (d, w')" "r = Inr (DeadLettered reason d)"
    using assms by (auto simp: settle_dead_def split: prod.splits)
  show thesis
    by (rule that [OF dl(2)])
      (use dl(1) in \<open>auto simp: dead_letter_def dlq_entry_def Let_def split: if_splits send_outcome.splits\<close>)
qed

text \<open>
  The ways a record is settled or not, read off the pipeline.
\<close>

lemma handle_cases:
  assumes "handle env s msg w = (r, w')"
  obtains
    (not_json) "decode_message env msg = None"
      "settle_dead env msg ''payload_not_json'' (count (\<lambda>m. m\<lparr>mt_consumed := Suc (mt_consumed m)\<rparr>) w) = (r, w')"
  | (refused) p code w0 where "decode_message env msg = Some p"
      "fst (gate_call env (inject_license_key s msg p) w) = Inl (LicenseRejected code)"
      "settle_dead env msg (''license_'' @ code) w0 = (r, w')"
      "w_commands w0 = w_commands w" "w_dlq w0 = w_dlq w"
      "cl_requests (w_client w0) = cl_requests (w_client w)"
      "w_gatekeeper w0 = snd (gate_call env (inject_license_key s msg p) w)"
      "mt_dlq_failures (w_metrics w0) = mt_dlq_failures (w_metrics w)"
  | (gate_crash) p x where "decode_message env msg = Some p"
      "fst (gate_call env (inject_license_key s msg p) w) = Inl (AuthRaised x)" "r = Inl (OtherExn x)"
      "w_commands w' = w_commands w" "w_dlq w' = w_dlq w"
      "cl_requests (w_client w') = cl_requests (w_client w)"
      "w_gatekeeper w' = snd (gate_call env (inject_license_key s msg p) w)"
      "mt_dlq_failures (w_metrics w') = mt_dlq_failures (w_metrics w)"
  | (admitted) p sub corr q w1 where "decode_message env msg = Some p"
      "fst (gate_call env (inject_license_key s msg p) w) = Inr sub"
      "close_loop env s (inject_license_key s msg p) corr
         (count (\<lambda>m. m\<lparr>mt_consumed := Suc (mt_consumed m)\<rparr>) w) = (q, w1)"
      "(case q of Inr b \<Rightarrow> (Inr (Closed b), w1)
        | Inl (PermanentMessageError reason) \<Rightarrow> settle_dead env msg reason w1
        | Inl e \<Rightarrow> (Inl e, w1)) = (r, w')"
proof (cases "decode_message env msg")
  case None
  then show thesis using assms by (intro not_json) (simp_all add: handle_def Let_def)
next
  case (Some p)
  let ?p = "inject_license_key s msg p"
  let ?w = "count (\<lambda>m. m\<lparr>mt_consumed := Suc (mt_consumed m)\<rparr>) w"
  let ?corr = "correlation_id (x_uuid4 env (w_ticks w)) (km_headers msg)"
  show thesis
  proof (cases "fst (gate_call env ?p w)")
    case (Inr sub)
    obtain q w1 where q: "close_loop env s ?p ?corr ?w = (q, w1)" by fastforce
    have "q \<noteq> Inl (GateRejected c)" for c
      using close_loop_admitted_cases [of env ?p ?w sub s ?corr q w1] Inr q by fastforce
    then show thesis using assms Some q Inr
      by (intro admitted [OF Some Inr q]) (auto simp: handle_def Let_def split: sum.splits worker_exn.splits)
  next
    case (Inl e)
    show thesis
    proof (cases e)
      case (LicenseRejected code)
      then have "close_loop env s ?p ?corr ?w = (Inl (GateRejected code), gated env ?p ?w)"
        using close_loop_refused(1) [of env ?p ?w code s ?corr] Inl by simp
      then show thesis using assms Some Inl LicenseRejected
        by (intro refused [OF Some, of code
              "count (\<lambda>m. m\<lparr>mt_license_rejected := Suc (mt_license_rejected m)\<rparr>) (gated env ?p ?w)"])
          (auto simp: handle_def Let_def)
    next
      case (AuthRaised x)
      then have "close_loop env s ?p ?corr ?w = (Inl (OtherExn x), gated env ?p ?w)"
        using close_loop_refused(2) [of env ?p ?w x s ?corr] Inl by simp
      then show thesis using assms Some Inl AuthRaised
        by (intro gate_crash [OF Some]) (auto simp: handle_def Let_def)
    qed
  qed
qed

text \<open>What an admitted payload does to the topics, whatever the outcome.\<close>

lemma close_loop_effect:
  assumes "fst (gate_call env p w) = Inr sub" and "close_loop env s p corr w = (r, w')"
  shows "grows w w' \<and> w_dlq w' = w_dlq w \<and> mt_dlq_failures (w_metrics w') = mt_dlq_failures (w_metrics w) \<and>
    w_gatekeeper w' = snd (gate_call env p w) \<and> (\<forall>b. r = Inr b \<longrightarrow> set (cb_commands b) \<subseteq> set (w_commands w'))"
  using assms
proof (cases rule: close_loop_admitted_cases)
  case (early e)
  then show ?thesis by (auto simp: grows_def)
next
  case (planned m plan w1 commands ns w2)
  have k: "w_commands w1 = w_commands w" "w_dlq w1 = w_dlq w" "w_gatekeeper w1 = snd (gate_call env p w)"
    "mt_dlq_failures (w_metrics w1) = mt_dlq_failures (w_metrics w)"
    using planning_keeps [OF planned(2)] by simp_all
  have "set (cb_commands b) \<subseteq> set (w_commands w')" if "r = Inr b" for b
    using planned(5,9) planned(7) [OF that] runs_of_covers [of ns commands] by (auto simp: publishes_def)
  then show ?thesis using planned(5,9-12) k by (auto simp: publishes_def grows_def)
qed

section \<open>Publication when the broker answers, and when it stops answering\<close>

lemma publish_ok:
  assumes "w_producer_up w" "0 < s_max_attempts s" "\<And>k. x_send env k = SendOk"
  shows "fst (publish env s c w) = Inr () \<and> w_producer_up (snd (publish env s c w))"
proof -
  obtain n where n: "nat (s_max_attempts s) = Suc n" using assms(2) by (cases "nat (s_max_attempts s)") auto
  show ?thesis
    using assms(1,3) by (simp add: publish_def retry_async_def publish_retry_def n send_command_def)
qed

lemma publish_all_ok:
  assumes "w_producer_up w" "0 < s_max_attempts s" "\<And>k. x_send env k = SendOk"
  shows "fst (publish_all env s cs w) = Inr ()"
  using assms(1)
proof (induction cs arbitrary: w)
  case (Cons c cs)
  obtain r w1 where p: "publish env s c w = (r, w1)" by fastforce
  then have "r = Inr ()" "w_producer_up w1" using publish_ok [OF Cons.prems assms(2,3), of c] by simp_all
  then show ?case using p Cons.IH by simp
qed simp

text \<open>A run of sends that all fail and write nothing.\<close>

lemma state_before_failing:
  assumes "\<And>k. w_sends w \<le> k \<Longrightarrow> x_send env k = SendFailed False"
  shows "state_before (send_command env c) i w = w\<lparr>w_sends := w_sends w + i\<rparr>"
  using assms
proof (induction i arbitrary: w)
  case (Suc i)
  have "snd (send_command env c w) = w\<lparr>w_sends := Suc (w_sends w)\<rparr>"
    using Suc.prems [of "w_sends w"] by (simp add: send_command_def Let_def)
  then show ?case using Suc.IH [of "w\<lparr>w_sends := Suc (w_sends w)\<rparr>"] Suc.prems by simp
qed simp

lemma publish_failing:
  assumes "w_producer_up w" "0 < s_max_attempts s" "\<And>k. w_sends w \<le> k \<Longrightarrow> x_send env k = SendFailed False"
  shows "fst (publish env s c w) = Inl (TransientFailure ''command_publish_failed'') \<and>
    w_commands (snd (publish env s c w)) = w_commands w"
proof -
  let ?op = "send_command env c"
  obtain k where k: "fst (retry_async (publish_retry s) kafka_view (x_random env) ?op w) =
       (case call_outcome ?op k w of Inr a \<Rightarrow> Inr a | Inl e \<Rightarrow> Inl (Raised e))"
    "fst (snd (retry_async (publish_retry s) kafka_view (x_random env) ?op w)) = state_before ?op (Suc k) w"
    using retry_from_stops [of "rc_attempts (publish_retry s)" "publish_retry s" kafka_view ?op w "x_random env"] assms(2)
    by (auto simp: retry_async_def publish_retry_def)
  have "call_outcome ?op k w = Inl ()"
    using assms(3) by (simp add: call_outcome_def state_before_failing send_command_def)
  moreover obtain r st d where "retry_async (publish_retry s) kafka_view (x_random env) ?op w = (r, st, d)"
    using prod_cases3 by blast
  ultimately show ?thesis
    using k assms(1) state_before_failing [OF assms(3), where i = "Suc k" and c = c]
    by (simp add: publish_def del: state_before.simps)
qed

lemma close_loop_stub:
  assumes "s_interceptor_mode s \<noteq> ModeHttp" "settings_fields_ok s" "w_producer_up w" "\<And>k. x_send env k = SendOk"
    "fst (gate_call env p w) = Inr sub" "validate_mutation (x_coerce_mutation env) p = Some m"
    "identifier_shape (str_strip (mu_asset_id m))" "length (str_strip (mu_asset_id m)) \<le> 128"
    "str_strip (mu_event_id m) \<noteq> []" "str_strip (sub_tenant sub) \<noteq> []" "str_strip (sub_key_id sub) \<noteq> []"
    "str_strip corr \<noteq> []"
  shows "\<exists>b w'. close_loop env s p corr w = (Inr b, w') \<and> cb_event_id b = mu_event_id m \<and>
    cb_tenant b = sub_tenant sub \<and>
    (mu_degraded m \<longrightarrow> list_all (\<lambda>c. \<not> is_irreversible (cp_action_type c)) (cb_commands b))"
proof -
  obtain plan cs where t: "stub_plan (ce_format_g (x_client env)) (ce_plan_hex (x_client env))
      (ce_elapsed_ms (x_client env) 0) s m sub = Inr plan"
    "translate_plan (x_uuid5 env) (x_wall env (w_ticks w)) m plan sub s corr = Inr cs"
    "mu_degraded m \<longrightarrow> list_all (\<lambda>c. \<not> is_irreversible (cp_action_type c)) cs"
    using stub_plan_translates [OF assms(2,7,8,9,10,11,12)] by blast
  have pos: "0 < s_max_attempts s" using assms(2) by (simp add: settings_fields_ok_def)
  then obtain n where n: "nat (s_max_attempts s) = Suc n" by (cases "nat (s_max_attempts s)") auto
  have pl: "planning env s m sub p w = (Inr plan, admitted env p w)"
    using assms(1) t(1) by (simp add: planning_def route_unfold retry_async_def interceptor_retry_def n
        router_call_def unretried_def)
  have "fst (publish_all env s cs (admitted env p w)) = Inr ()"
    using publish_all_ok [OF _ pos assms(4)] assms(3) by simp
  then obtain w2 where "publish_all env s cs (admitted env p w) = (Inr (), w2)" by (cases "publish_all env s cs (admitted env p w)") auto
  then show ?thesis using t(2,3) by (simp add: close_loop_admitted [OF assms(5,6)] pl)
qed

lemma handle_ends:
  assumes "handle env s msg w = (r, w')"
  shows "(case r of
      Inr (Closed b) \<Rightarrow> w_dlq w' = w_dlq w \<and> set (cb_commands b) \<subseteq> set (w_commands w')
    | Inr (DeadLettered reason delivered) \<Rightarrow>
        (if delivered
         then w_dlq w' = w_dlq w @ [dlq_entry msg reason] \<and>
              mt_dlq_failures (w_metrics w') = mt_dlq_failures (w_metrics w)
         else mt_dlq_failures (w_metrics w') = Suc (mt_dlq_failures (w_metrics w)))
    | Inl e \<Rightarrow> w_dlq w' = w_dlq w \<and> ((\<exists>x. e = TransientFailure x) \<or> (\<exists>x. e = OtherExn x))) \<and> grows w w'"
  using assms
proof (cases rule: handle_cases)
  case not_json
  from this(2) show ?thesis by (rule settle_dead_cases) (auto simp: grows_def)
next
  case (refused p code w0)
  from refused(3) show ?thesis by (rule settle_dead_cases) (auto simp: grows_def refused)
next
  case (gate_crash p x)
  then show ?thesis by (auto simp: grows_def)
next
  case (admitted p sub corr q w1)
  let ?w = "count (\<lambda>m. m\<lparr>mt_consumed := Suc (mt_consumed m)\<rparr>) w"
  have eff: "grows w w1" "w_dlq w1 = w_dlq w" "mt_dlq_failures (w_metrics w1) = mt_dlq_failures (w_metrics w)"
    "\<And>b. q = Inr b \<Longrightarrow> set (cb_commands b) \<subseteq> set (w_commands w1)"
    using close_loop_effect [OF _ admitted(3)] admitted(2) by (auto simp: grows_def)
  have kinds: "(\<exists>x. e = PermanentMessageError x) \<or> (\<exists>x. e = TransientFailure x) \<or> (\<exists>x. e = OtherExn x)"
    if "q = Inl e" for e
    using admitted(2,3) that close_loop_admitted_cases [of env _ ?w sub s corr q w1] by fastforce
  show ?thesis
  proof (cases "\<exists>reason. q = Inl (PermanentMessageError reason)")
    case True
    then obtain reason where "settle_dead env msg reason w1 = (r, w')" using admitted(4) by auto
    then show ?thesis by (rule settle_dead_cases) (use eff in \<open>auto simp: grows_def\<close>)
  next
    case False
    then show ?thesis using admitted(4) eff kinds by (cases q) auto
  qed
qed

section \<open>The consumer loop: an invariant\<close>

text \<open>What the topics show of a record that was settled.\<close>

fun accounted :: "kafka_message list \<Rightarrow> world \<Rightarrow> nat \<times> settlement \<Rightarrow> bool" where
  "accounted records w (i, Closed b) = (set (cb_commands b) \<subseteq> set (w_commands w))"
| "accounted records w (i, DeadLettered reason True) = (dlq_entry (message_at records i) reason \<in> set (w_dlq w))"
| "accounted records w (i, DeadLettered reason False) = True"

definition lost :: "nat \<times> settlement \<Rightarrow> bool" where
  "lost how = (case snd how of DeadLettered reason delivered \<Rightarrow> \<not> delivered | Closed b \<Rightarrow> False)"

definition offsets_ok :: "settings \<Rightarrow> kafka_message list \<Rightarrow> consumer \<Rightarrow> bool" where
  "offsets_ok s records c \<longleftrightarrow>
     co_end c \<le> length records \<and> (co_assigned c \<longrightarrow> co_position c \<le> co_end c) \<and>
     (case co_committed c of
        None \<Rightarrow> co_first c = None \<and> (co_assigned c \<and> s_auto_offset_reset s = Earliest \<longrightarrow> co_position c = 0)
      | Some n \<Rightarrow> n \<le> co_end c \<and> (co_assigned c \<longrightarrow> co_position c = n) \<and>
          (\<exists>f. co_first c = Some f \<and> f < n \<and> (s_auto_offset_reset s = Earliest \<longrightarrow> f = 0) \<and>
             (\<forall>i. f \<le> i \<and> i < n \<longrightarrow> i \<in> fst ` set (co_settled c))))"

definition consumer_ok :: "settings \<Rightarrow> kafka_message list \<Rightarrow> world \<Rightarrow> consumer \<Rightarrow> bool" where
  "consumer_ok s records w0 c \<longleftrightarrow>
     offsets_ok s records c \<and>
     (\<forall>x \<in> set (co_settled c). accounted records (co_world c) x) \<and>
     length (filter lost (co_settled c)) + mt_dlq_failures (w_metrics w0) \<le> mt_dlq_failures (w_metrics (co_world c))"

definition settlement_flag :: "settlement \<Rightarrow> bool" where
  "settlement_flag how = (case how of DeadLettered reason delivered \<Rightarrow> delivered | Closed b \<Rightarrow> False)"

lemma accounted_grows: "accounted records w x \<Longrightarrow> grows w w' \<Longrightarrow> accounted records w' x"
  by (cases "(records, w, x)" rule: accounted.cases) (auto simp: grows_def)

lemma accounted_count [simp]: "accounted records (count f w) x = accounted records w x"
  by (cases "(records, w, x)" rule: accounted.cases) simp_all

lemma consumer_ok_world:
  assumes "consumer_ok s records w0 c" "grows (co_world c) w"
  shows "\<forall>x \<in> set (co_settled c). accounted records w x"
    "length (filter lost (co_settled c)) + mt_dlq_failures (w_metrics w0) \<le> mt_dlq_failures (w_metrics w)"
  using assms accounted_grows by (auto simp: consumer_ok_def grows_def intro: order_trans)

text \<open>Only the offsets and what was settled matter to the offsets' invariant.\<close>

lemma offsets_ok_cong:
  "offsets_ok s records c \<Longrightarrow> co_end c' = co_end c \<Longrightarrow> co_committed c' = co_committed c \<Longrightarrow>
   co_first c' = co_first c \<Longrightarrow> set (co_settled c) \<subseteq> set (co_settled c') \<Longrightarrow>
   (co_assigned c' \<Longrightarrow> co_assigned c \<and> co_position c' = co_position c) \<Longrightarrow> offsets_ok s records c'"
  by (fastforce simp: offsets_ok_def split: option.splits)

lemma offsets_ok_commit:
  assumes "offsets_ok s records c" "co_assigned c" "co_position c < co_end c"
    "co_end c' = co_end c" "co_committed c' = co_committed (commit_landed c)"
    "co_first c' = co_first (commit_landed c)" "co_settled c' = co_settled c @ [(co_position c, how)]"
    "co_assigned c' \<Longrightarrow> co_position c' = Suc (co_position c)"
  shows "offsets_ok s records c'"
  using assms by (auto simp: offsets_ok_def commit_landed_def less_Suc_eq split: option.splits)

lemma offsets_ok_assigned:
  "offsets_ok s records c \<Longrightarrow> offsets_ok s records (c\<lparr>co_assigned := True, co_position := start_position s c\<rparr>)"
  by (auto simp: offsets_ok_def start_position_def split: option.splits offset_reset.splits)

lemma handle_accounts:
  assumes "handle env s (message_at records i) w = (Inr how, w')"
  shows "accounted records w' (i, how)"
    "length (filter lost [(i, how)]) + mt_dlq_failures (w_metrics w) \<le> mt_dlq_failures (w_metrics w')"
  using handle_ends [OF assms]
  by (auto simp: lost_def grows_def split: settlement.splits if_splits bool.splits)

lemma handle_grows: "handle env s msg w = (r, w') \<Longrightarrow> grows w w'"
  using handle_ends by (fastforce split: sum.splits settlement.splits)

lemma count_rewind_grows: "grows w w' \<Longrightarrow> grows w (count_rewind w')"
  by (simp add: grows_def count_rewind_def)

lemma consume_step_ok:
  assumes "consume_step env s records c c'" "consumer_ok s records w0 c"
  shows "consumer_ok s records w0 c'"
  using assms(1)
proof (cases rule: consume_step.cases)
  case (handled how w)
  have "offsets_ok s records c'"
    by (rule offsets_ok_commit [where c = c and how = how]) (use handled assms(2) in \<open>simp_all add: consumer_ok_def\<close>)
  then show ?thesis
    using assms(2) handled(1) consumer_ok_world [OF assms(2) handle_grows [OF handled(5)]] handle_accounts [OF handled(5)]
    by (auto simp: consumer_ok_def commit_landed_def)
next
  case (commit_failed how w landed)
  have "offsets_ok s records c'"
  proof (cases landed)
    case True
    show ?thesis
      by (rule offsets_ok_commit [where c = c and how = how])
        (use True commit_failed assms(2) in \<open>simp_all add: consumer_ok_def\<close>)
  next
    case False
    show ?thesis
      by (rule offsets_ok_cong [where c = c]) (use False commit_failed assms(2) in \<open>auto simp: consumer_ok_def\<close>)
  qed
  then show ?thesis
    using assms(2) commit_failed(1) consumer_ok_world [OF assms(2) handle_grows [OF commit_failed(5)]]
      handle_accounts [OF commit_failed(5)]
    by (auto simp: consumer_ok_def commit_landed_def count_restart_def)
next
  case (rewound r w rnd)
  have "offsets_ok s records c'"
    by (rule offsets_ok_cong [where c = c]) (use rewound assms(2) in \<open>simp_all add: consumer_ok_def\<close>)
  then show ?thesis
    using rewound(1) consumer_ok_world [OF assms(2) count_rewind_grows [OF handle_grows [OF rewound(5)]]]
    by (simp add: consumer_ok_def)
next
  case (seek_failed r w)
  have "offsets_ok s records c'"
    by (rule offsets_ok_cong [where c = c]) (use seek_failed assms(2) in \<open>simp_all add: consumer_ok_def\<close>)
  then show ?thesis
    using seek_failed(1) consumer_ok_world [OF assms(2) count_rewind_grows [OF handle_grows [OF seek_failed(5)]]]
    by (simp add: consumer_ok_def)
next
  case (crashed e w)
  have "offsets_ok s records c'"
    by (rule offsets_ok_cong [where c = c]) (use crashed assms(2) in \<open>simp_all add: consumer_ok_def\<close>)
  then show ?thesis
    using crashed(1) consumer_ok_world [OF assms(2) handle_grows [OF crashed(5)]] by (simp add: consumer_ok_def)
next
  case (elsewhere msg r w)
  have "offsets_ok s records c'"
    by (rule offsets_ok_cong [where c = c]) (use elsewhere assms(2) in \<open>simp_all add: consumer_ok_def\<close>)
  then show ?thesis
    using elsewhere(1) consumer_ok_world [OF assms(2) handle_grows [OF elsewhere(2)]] by (simp add: consumer_ok_def)
next
  case revoked
  have "offsets_ok s records c'"
    by (rule offsets_ok_cong [where c = c]) (use revoked assms(2) in \<open>simp_all add: consumer_ok_def\<close>)
  then show ?thesis using revoked(1) assms(2) by (simp add: consumer_ok_def)
next
  case assigned
  then show ?thesis using assms(2) offsets_ok_assigned by (simp add: consumer_ok_def)
next
  case arrived
  then show ?thesis
    using assms(2) by (auto simp: consumer_ok_def offsets_ok_def split: option.splits)
qed

lemma consumer_reaches_ok: "consumer_reaches env s records backlog w c \<Longrightarrow> consumer_ok s records w c"
proof (induction rule: consumer_reaches.induct)
  case start
  then show ?case by (simp add: consumer_ok_def offsets_ok_def consumer_init_def)
qed (rule consume_step_ok)

section \<open>Properties\<close>

text \<open>
  C3: Nothing billable happens before the gatekeeper has accepted the record.  If handling a record
  sends a request to the interceptor or puts a command on the topic, then the record decodes to an
  object from which a key can be extracted, and that key belongs to a subscription of the registry
  that is active, not expired and on an entitled plan.
\<close>
theorem no_licence_no_effect:
  "handle env s msg (w\<lparr>w_gatekeeper := gatekeeper_after gs reg ttl n ops\<rparr>) = (r, w') \<Longrightarrow>
   w_commands w' \<noteq> w_commands w \<or> cl_requests (w_client w') \<noteq> cl_requests (w_client w) \<Longrightarrow>
   \<exists>p key sub. decode_message env msg = Some p \<and>
     extract_key gs (inject_license_key s msg p) True = Some key \<and>
     registry_lookup reg (key_digest (x_sha env) key) = Some sub \<and> sub_active sub \<and>
     (\<exists>t. sub_expires_at sub = Aware t \<and> x_wall env (w_ticks w) < t) \<and> sub_plan sub \<in> entitled_plans gs"
proof -
  let ?w = "w\<lparr>w_gatekeeper := gatekeeper_after gs reg ttl n ops\<rparr>"
  assume h: "handle env s msg ?w = (r, w')"
    and e: "w_commands w' \<noteq> w_commands w \<or> cl_requests (w_client w') \<noteq> cl_requests (w_client w)"
  from h show ?thesis
  proof (cases rule: handle_cases)
    case not_json
    then show ?thesis using e by (auto elim!: settle_dead_cases)
  next
    case (refused p code w0)
    then show ?thesis using e by (auto elim!: settle_dead_cases)
  next
    case (gate_crash p x)
    then show ?thesis using e by auto
  next
    case (admitted p sub corr q w1)
    then show ?thesis using gate_call_sound [OF admitted(2), of gs reg ttl n ops] by auto
  qed
qed

text \<open>
  C25: A closed record is published.  A batch that close_loop returns is on the command topic: in the
  order of the plan, each command at least once, and nothing between two commands but repetitions of
  the first of them.  The batch is never empty and each command in it satisfies the contract.
\<close>
theorem closed_batch_is_published:
  "close_loop env s p corr w = (Inr b, w') \<Longrightarrow>
   cb_commands b \<noteq> [] \<and> cb_issued b = length (cb_commands b) \<and> cb_issued b \<le> nat (s_max_commands s) \<and>
   list_all command_ok (cb_commands b) \<and> w_dlq w' = w_dlq w \<and>
   (\<exists>ns. w_commands w' = w_commands w @ runs_of ns (cb_commands b) \<and> length ns = cb_issued b \<and>
      list_all (\<lambda>n. 0 < n) ns)"
proof -
  assume cl: "close_loop env s p corr w = (Inr b, w')"
  obtain sub where g: "fst (gate_call env p w) = Inr sub"
    using cl close_loop_refused [of env p w _ s corr]
    by (cases "fst (gate_call env p w)") (auto, metis auth_error.exhaust Inl_Inr_False prod.inject)
  from g cl show ?thesis
  proof (cases rule: close_loop_admitted_cases)
    case (planned m plan w1 commands ns w2)
    have b: "length ns = length commands" "list_all (\<lambda>n. 0 < n) ns" "cb_commands b = commands"
      "cb_issued b = length commands"
      using planned(7) by blast+
    note tr = translate_plan_Inr [OF planned(3)]
    have "command_ok (commands ! i)" if "i < length commands" for i
      using translate_step_Inr tr that by blast
    then have "list_all command_ok commands" by (simp add: list_all_length)
    moreover have "w_commands w1 = w_commands w" "w_dlq w1 = w_dlq w" using planning_keeps [OF planned(2)] by simp_all
    moreover have "length commands \<le> nat (s_max_commands s)" using tr by (simp add: planned_steps_def)
    ultimately show ?thesis using b tr planned(5,9,10) by (auto simp: publishes_def)
  qed simp
qed

text \<open>
  A broken broker stops a batch in the middle.  When the first command of a plan is accepted and
  every later send fails, publication answers with the transient failure although that first command
  stays on the topic: a transient failure does not mean that no command was published.
\<close>
theorem partial_batch_stays_published:
  "w_producer_up w \<Longrightarrow> 0 < s_max_attempts s \<Longrightarrow> x_send env (w_sends w) = SendOk \<Longrightarrow>
   (\<forall>k > w_sends w. x_send env k = SendFailed False) \<Longrightarrow>
   fst (publish_all env s (c # c' # cs) w) = Inl (TransientFailure ''command_publish_failed'') \<and>
   w_commands (snd (publish_all env s (c # c' # cs) w)) = w_commands w @ [c]"
proof -
  assume up: "w_producer_up w" and a: "0 < s_max_attempts s" and ok: "x_send env (w_sends w) = SendOk"
    and bad: "\<forall>k > w_sends w. x_send env k = SendFailed False"
  obtain n where n: "nat (s_max_attempts s) = Suc n" using a by (cases "nat (s_max_attempts s)") auto
  let ?w = "count (\<lambda>m. m\<lparr>mt_commands_issued := Suc (mt_commands_issued m)\<rparr>)
    (w\<lparr>w_sends := Suc (w_sends w), w_commands := w_commands w @ [c]\<rparr>)"
  have first: "publish env s c w = (Inr (), w\<lparr>w_sends := Suc (w_sends w), w_commands := w_commands w @ [c]\<rparr>)"
    using up ok by (simp add: publish_def retry_async_def publish_retry_def n send_command_def Let_def)
  obtain r w2 where second: "publish env s c' ?w = (r, w2)" by fastforce
  have "r = Inl (TransientFailure ''command_publish_failed'')" "w_commands w2 = w_commands w @ [c]"
    using publish_failing [of ?w s env c'] up a bad second by auto
  then show ?thesis by (simp add: first second)
qed

text \<open>
  C12: A handled record has one of four ends.  It is closed, with its commands on the topic; or it is
  dead-lettered, with the original value, key and offset and the reason appended to the dead-letter
  topic; or the dead letter was lost and counted as such; or an exception leaves the handler, which
  is a transient failure or one the pipeline does not know, and nothing is dead-lettered.
\<close>
theorem handled_record_ends:
  "handle env s msg w = (r, w') \<Longrightarrow>
   (case r of
      Inr (Closed b) \<Rightarrow> w_dlq w' = w_dlq w \<and> set (cb_commands b) \<subseteq> set (w_commands w')
    | Inr (DeadLettered reason delivered) \<Rightarrow>
        (if delivered
         then w_dlq w' = w_dlq w @ [dlq_entry msg reason] \<and>
              mt_dlq_failures (w_metrics w') = mt_dlq_failures (w_metrics w)
         else mt_dlq_failures (w_metrics w') = Suc (mt_dlq_failures (w_metrics w)))
    | Inl e \<Rightarrow> w_dlq w' = w_dlq w \<and> ((\<exists>x. e = TransientFailure x) \<or> (\<exists>x. e = OtherExn x)))"
  using handle_ends by blast

text \<open>
  C2: No record behind the committed offset is skipped.  The group starts without a commit on a
  partition that keeps its records.  In every reachable state of a group member, through failed commits,
  revoked partitions, rewinds, crashes and the work of the other tasks of the process, the committed
  offset is within the records that have arrived, and every offset from that of the group's first
  commit up to the committed one was settled.  If the reset policy is earliest, that first offset is 0,
  so nothing at all was skipped; if it is latest, records that arrived before the first commit may have
  been passed over.  Every command of a record that was closed is on the topic, every record that was
  dead-lettered is on the dead-letter topic under its own offset and reason, and the records whose dead
  letter was lost are at most as many as the counter shows.  While assigned, a member of a group with
  a commit reads at the committed offset, and one of a group without reads, under earliest, at 0.
\<close>
theorem committed_records_settled:
  "consumer_reaches env s records backlog w c \<Longrightarrow>
   co_end c \<le> length records \<and>
   (case co_committed c of
      None \<Rightarrow> co_assigned c \<and> s_auto_offset_reset s = Earliest \<longrightarrow> co_position c = 0
    | Some n \<Rightarrow>
        n \<le> co_end c \<and> (co_assigned c \<longrightarrow> co_position c = n) \<and>
        (\<exists>f. co_first c = Some f \<and> f < n \<and> (s_auto_offset_reset s = Earliest \<longrightarrow> f = 0) \<and>
           (\<forall>i. f \<le> i \<and> i < n \<longrightarrow> (\<exists>how. (i, how) \<in> set (co_settled c))))) \<and>
   (\<forall>(i, how) \<in> set (co_settled c). case how of
        Closed b \<Rightarrow> set (cb_commands b) \<subseteq> set (w_commands (co_world c))
      | DeadLettered reason delivered \<Rightarrow>
          (delivered \<longrightarrow> dlq_entry (message_at records i) reason \<in> set (w_dlq (co_world c)))) \<and>
   length (filter lost (co_settled c)) \<le> mt_dlq_failures (w_metrics (co_world c))"
proof -
  assume r: "consumer_reaches env s records backlog w c"
  note ok = consumer_reaches_ok [OF r, unfolded consumer_ok_def]
  have "case how of
        Closed b \<Rightarrow> set (cb_commands b) \<subseteq> set (w_commands (co_world c))
      | DeadLettered reason delivered \<Rightarrow>
          (delivered \<longrightarrow> dlq_entry (message_at records i) reason \<in> set (w_dlq (co_world c)))"
    if "(i, how) \<in> set (co_settled c)" for i how
  proof -
    have "accounted records (co_world c) (i, how)" using ok that by blast
    then show ?thesis by (cases how; cases "settlement_flag how") (auto simp: settlement_flag_def)
  qed
  moreover have "i \<in> fst ` set (co_settled c) \<longleftrightarrow> (\<exists>how. (i, how) \<in> set (co_settled c))" for i by force
  ultimately show ?thesis
    using ok by (intro conjI) (fastforce simp: offsets_ok_def split: option.splits | blast | simp)+
qed

text \<open>
  What the latest policy passes over: a member of a group without a commit settles none of the
  records that had arrived before it started.
\<close>
theorem latest_skips_backlog:
  "consumer_reaches env s records backlog w c \<Longrightarrow> s_auto_offset_reset s = Latest \<Longrightarrow>
   (i, how) \<in> set (co_settled c) \<Longrightarrow> backlog \<le> i"
proof -
  assume r: "consumer_reaches env s records backlog w c" and l: "s_auto_offset_reset s = Latest"
  have "backlog \<le> co_end c \<and> (co_assigned c \<longrightarrow> backlog \<le> co_position c) \<and>
    (\<forall>n. co_committed c = Some n \<longrightarrow> backlog \<le> n) \<and> (\<forall>x \<in> set (co_settled c). backlog \<le> fst x)"
    using r
  proof (induction rule: consumer_reaches.induct)
    case start
    then show ?case by (simp add: consumer_init_def)
  next
    case (step c c')
    from step(2) show ?case
      by (cases rule: consume_step.cases)
        (use step(3) l in \<open>auto simp: commit_landed_def start_position_def split: option.splits if_splits\<close>)
  qed
  then show "(i, how) \<in> set (co_settled c) \<Longrightarrow> backlog \<le> i" by force
qed

text \<open>
  A refused licence does not hold the partition.  Whatever the reason of the refusal, an expired
  key included, the record is handled to the end: it goes to the dead-letter topic (or is lost with
  the counter) and the caller commits it, without a call to the interceptor and without a command.
\<close>
theorem refused_record_is_settled:
  "decode_message env msg = Some p \<Longrightarrow>
   fst (gate_call env (inject_license_key s msg p) w) = Inl (LicenseRejected code) \<Longrightarrow>
   \<exists>delivered w'. handle env s msg w = (Inr (DeadLettered (''license_'' @ code) delivered), w') \<and>
     w_commands w' = w_commands w \<and> cl_requests (w_client w') = cl_requests (w_client w)"
proof -
  assume d: "decode_message env msg = Some p"
    and g: "fst (gate_call env (inject_license_key s msg p) w) = Inl (LicenseRejected code)"
  obtain r w' where h: "handle env s msg w = (r, w')" by fastforce
  from h show ?thesis
  proof (cases rule: handle_cases)
    case (refused q c w0)
    then have c: "c = code" using d g by simp
    from refused(3) show ?thesis by (rule settle_dead_cases) (use h c refused in auto)
  qed (use d g in auto)
qed

section \<open>A registry entry that stops the partition\<close>

definition gate_naive :: "closure_env \<Rightarrow> settings \<Rightarrow> kafka_message \<Rightarrow> world \<Rightarrow> bool" where
  "gate_naive env s msg w \<longleftrightarrow>
     license_cache_ok (gk_cache (w_gatekeeper w)) \<and>
     (\<exists>p key sub t. decode_message env msg = Some p \<and>
        extract_key (gk_settings (w_gatekeeper w)) (inject_license_key s msg p) True = Some key \<and>
        registry_lookup (lc_registry (gk_cache (w_gatekeeper w))) (key_digest (x_sha env) key) = Some sub \<and>
        sub_active sub \<and> sub_expires_at sub = Naive t)"

definition same_gate :: "world \<Rightarrow> world \<Rightarrow> bool" where
  "same_gate w w' \<longleftrightarrow>
     (license_cache_ok (gk_cache (w_gatekeeper w)) \<longrightarrow>
        license_cache_ok (gk_cache (w_gatekeeper w')) \<and>
        lc_registry (gk_cache (w_gatekeeper w')) = lc_registry (gk_cache (w_gatekeeper w)) \<and>
        gk_settings (w_gatekeeper w') = gk_settings (w_gatekeeper w))"

lemma same_gate_refl [simp]: "same_gate w w" by (simp add: same_gate_def)

lemma same_gate_call: "w_gatekeeper w' = snd (gate_call env p w) \<Longrightarrow> same_gate w w'"
  using authorize_keeps by (auto simp: same_gate_def gate_call_def)

lemma handle_same_gate:
  assumes "handle env s msg w = (r, w')"
  shows "same_gate w w'"
  using assms
proof (cases rule: handle_cases)
  case not_json
  from this(2) show ?thesis by (rule settle_dead_cases) (simp add: same_gate_def)
next
  case (refused p code w0)
  from refused(3) show ?thesis
    by (rule settle_dead_cases) (rule same_gate_call [of _ env "inject_license_key s msg p"], simp add: refused)
next
  case (gate_crash p x)
  then show ?thesis by (intro same_gate_call) auto
next
  case (admitted p sub corr q w1)
  have g: "w_gatekeeper w1 = snd (gate_call env (inject_license_key s msg p) w)"
    using close_loop_effect [OF _ admitted(3)] admitted(2) by simp
  have "w_gatekeeper w' = w_gatekeeper w1"
    using admitted(4) by (auto split: sum.splits worker_exn.splits elim!: settle_dead_cases)
  then show ?thesis using g by (intro same_gate_call) simp
qed

lemma gate_naive_crashes:
  assumes "gate_naive env s msg w"
  shows "fst (handle env s msg w) = Inl (OtherExn TypeErrorExn)"
proof -
  obtain p where p: "decode_message env msg = Some p"
    "fst (gate_call env (inject_license_key s msg p) w) = Inl (AuthRaised TypeErrorExn)"
    using assms authorize_spec_agrees
    by (auto simp: gate_naive_def gate_call_def authorize_spec_def check_subscription_def is_expired_def
        datetime_expired_def)
  obtain r w' where h: "handle env s msg w = (r, w')" by fastforce
  from h show ?thesis by (cases rule: handle_cases) (use h p in auto)
qed

lemma consume_step_gate:
  assumes "consume_step env s records c c'"
  shows "same_gate (co_world c) (co_world c')"
  using assms
  by (cases rule: consume_step.cases)
    (auto dest!: handle_same_gate simp: same_gate_def count_restart_def count_rewind_def)

lemma gate_naive_same: "gate_naive env s msg w \<Longrightarrow> same_gate w w' \<Longrightarrow> gate_naive env s msg w'"
  by (auto simp: gate_naive_def same_gate_def)

lemma naive_not_settled:
  assumes "gate_naive env s (message_at records i) (co_world c)" "\<forall>how. (i, how) \<notin> set (co_settled c)"
    "consume_step env s records c c'"
  shows "\<forall>how. (i, how) \<notin> set (co_settled c')"
proof -
  have stuck: "handle env s (message_at records i) (co_world c) \<noteq> (Inr how, w)" for how w
    using gate_naive_crashes [OF assms(1)] by auto
  show ?thesis
    using assms(3)
  proof (cases rule: consume_step.cases)
    case (handled how w)
    then have "co_position c \<noteq> i" using stuck by auto
    then show ?thesis using handled(1) assms(2) by (auto simp: commit_landed_def)
  next
    case (commit_failed how w landed)
    then have "co_position c \<noteq> i" using stuck by auto
    then show ?thesis using commit_failed(1) assms(2) by (auto simp: commit_landed_def)
  qed (use assms(2) in auto)
qed

lemma naive_reaches:
  assumes "consumer_reaches env s records backlog w c" "gate_naive env s (message_at records i) w"
  shows "gate_naive env s (message_at records i) (co_world c) \<and> (\<forall>how. (i, how) \<notin> set (co_settled c))"
  using assms(1)
proof (induction rule: consumer_reaches.induct)
  case start
  then show ?case using assms(2) by (simp add: consumer_init_def)
next
  case (step c c')
  then show ?case using naive_not_settled consume_step_gate [OF step(2)] gate_naive_same by blast
qed

lemma unsettled_not_passed:
  assumes "consumer_ok s records w0 c" "\<forall>how. (i, how) \<notin> set (co_settled c)" "s_auto_offset_reset s = Earliest"
    "co_committed c = Some n"
  shows "n \<le> i"
proof (rule ccontr)
  assume "\<not> n \<le> i"
  then have "i \<in> fst ` set (co_settled c)" using assms by (auto simp: consumer_ok_def offsets_ok_def)
  then show False using assms(2) by force
qed

text \<open>
  One bad registry entry blocks the partition.  If the key of a record belongs to an active
  subscription whose expiry was written without an offset, then authorising the record raises a
  TypeError that no handler of the loop catches: the record is never settled or dead-lettered, each
  time it is reached the only exit is that exception, and, in a group that reads from the earliest
  record, the committed offset never passes it.
\<close>
theorem naive_expiry_blocks_partition:
  "consumer_reaches env s records backlog (w\<lparr>w_gatekeeper := gatekeeper_after gs reg ttl n ops\<rparr>) c \<Longrightarrow>
   decode_message env (message_at records i) = Some p \<Longrightarrow>
   extract_key gs (inject_license_key s (message_at records i) p) True = Some key \<Longrightarrow>
   registry_lookup reg (key_digest (x_sha env) key) = Some sub \<Longrightarrow>
   sub_active sub \<Longrightarrow> sub_expires_at sub = Naive t \<Longrightarrow>
   (s_auto_offset_reset s = Earliest \<longrightarrow> (\<forall>k. co_committed c = Some k \<longrightarrow> k \<le> i)) \<and>
   (\<forall>how. (i, how) \<notin> set (co_settled c)) \<and>
   fst (handle env s (message_at records i) (co_world c)) = Inl (OtherExn TypeErrorExn)"
proof -
  let ?w = "w\<lparr>w_gatekeeper := gatekeeper_after gs reg ttl n ops\<rparr>"
  assume r: "consumer_reaches env s records backlog ?w c"
    and h: "decode_message env (message_at records i) = Some p"
      "extract_key gs (inject_license_key s (message_at records i) p) True = Some key"
      "registry_lookup reg (key_digest (x_sha env) key) = Some sub" "sub_active sub" "sub_expires_at sub = Naive t"
  have "gate_naive env s (message_at records i) ?w"
    unfolding gate_naive_def using h by (simp add: gatekeeper_after_ok)
  from naive_reaches [OF r this] show ?thesis
    using gate_naive_crashes unsettled_not_passed [OF consumer_reaches_ok [OF r]] by blast
qed

section \<open>Witnesses\<close>

text \<open>A worker in simulator mode, with one subscription, on a broker that accepts every send.\<close>

definition demo_closure :: "(nat \<Rightarrow> send_outcome) \<Rightarrow> closure_env" where
  "demo_closure send =
     \<lparr>x_client = demo_env TimedOut, x_ready = False, x_sha = id, x_mono = of_nat, x_wall = of_nat,
      x_uuid5 = id, x_uuid4 = (\<lambda>n. ''c1''),
      x_loads = (\<lambda>v. Some (JObj [(''license_key'', JStr v)])),
      x_coerce_mutation = (\<lambda>p. Some (demo_mutation SevCritical True)), x_send = send, x_random = (\<lambda>n. 0)\<rparr>"

definition closure_gate :: "py_datetime \<Rightarrow> gatekeeper" where
  "closure_gate expiry =
     gatekeeper_after (keyed_settings None)
       (registry_of [demo_subscription\<lparr>sub_key_digest := key_digest id ''k'', sub_expires_at := expiry\<rparr>]) 300 16 []"

definition closure_world :: "py_datetime \<Rightarrow> world" where
  "closure_world expiry =
     \<lparr>w_gatekeeper = closure_gate expiry, w_client = demo_client, w_producer_up = True, w_sends = 0, w_ticks = 0,
      w_commands = [], w_dlq = []\<rparr>"

definition demo_message :: kafka_message where
  "demo_message =
     \<lparr>km_topic = ''ontology.mutations'', km_partition = 0, km_offset = 0, km_value = Some ''k'', km_key = None,
      km_headers = []\<rparr>"

definition simulator_settings :: settings where
  "simulator_settings = default_settings\<lparr>s_interceptor_mode := ModeStub\<rparr>"

lemma simulator_facts:
  "settings_fields_ok simulator_settings" "s_interceptor_mode simulator_settings = ModeStub"
  "s_license_header simulator_settings = ''X-License-Key''" "s_max_attempts simulator_settings = 4"
  using default_fields_ok
  by (simp_all add: simulator_settings_def default_settings_def settings_fields_ok_def)

lemma demo_payload:
  "decode_message (demo_closure send) demo_message = Some [(''license_key'', JStr ''k'')]"
  "inject_license_key s demo_message [(''license_key'', JStr ''k'')] = [(''license_key'', JStr ''k'')]"
  by (simp_all add: decode_message_def demo_closure_def demo_message_def inject_license_key_def j_get_def)

lemma demo_sha: "x_sha (demo_closure send) = id"
  by (simp add: demo_closure_def)

lemma demo_key: "extract_key (keyed_settings None) [(''license_key'', JStr ''k'')] True = Some ''k''"
proof -
  have "str_strip ''k'' = ''k''" by code_simp
  then show ?thesis by (simp add: extract_key_def key_candidates_def j_get_def)
qed

definition demo_licensed :: "py_datetime \<Rightarrow> subscription" where
  "demo_licensed expiry = demo_subscription\<lparr>sub_key_digest := key_digest id ''k'', sub_expires_at := expiry\<rparr>"

lemma demo_registry:
  "registry_lookup (registry_of [demo_licensed expiry]) (key_digest id ''k'') = Some (demo_licensed expiry)"
  by (simp add: registry_lookup_registry_of demo_licensed_def)

lemma closure_gate_call:
  "fst (gate_call (demo_closure send) [(''license_key'', JStr ''k'')] (closure_world expiry)) =
     check_subscription (keyed_settings None) 0 (Some (demo_licensed expiry))"
proof -
  have "closure_gate expiry = gatekeeper_after (keyed_settings None) (registry_of [demo_licensed expiry]) 300 16 []"
    by (simp add: closure_gate_def demo_licensed_def)
  then show ?thesis
    by (simp add: gate_call_def authorize_spec_agrees gatekeeper_after_ok authorize_spec_def demo_key
        demo_registry closure_world_def demo_closure_def)
qed

lemma demo_accepts:
  "fst (gate_call (demo_closure send) [(''license_key'', JStr ''k'')] (closure_world (Aware 1000))) =
     Inr (demo_licensed (Aware 1000))"
  unfolding closure_gate_call
  by (simp add: check_subscription_Inr demo_licensed_def demo_subscription_def keyed_entitled)

lemma demo_refuses:
  "fst (gate_call (demo_closure send) [(''license_key'', JStr ''k'')] (closure_world (Aware (-1)))) =
     Inl (LicenseRejected ''license_expired'')"
  unfolding closure_gate_call
  by (simp add: check_subscription_def is_expired_def datetime_expired_def demo_licensed_def demo_subscription_def)

abbreviation steady :: closure_env where
  "steady \<equiv> demo_closure (\<lambda>k. SendOk)"

lemma demo_validates:
  "validate_mutation (x_coerce_mutation (demo_closure send)) p = Some (demo_mutation SevCritical True)"
proof -
  have "known_schema ''openontology.mutation.v1''" by code_simp
  then show ?thesis
    by (simp add: validate_mutation_def demo_closure_def mutation_ok_def demo_mutation_def)
qed

lemma demo_closes:
  "\<exists>b w'. close_loop steady simulator_settings [(''license_key'', JStr ''k'')] ''c1'' (closure_world (Aware 1000)) =
     (Inr b, w')"
proof -
  let ?m = "demo_mutation SevCritical True"
  have m: "mu_asset_id ?m = ''pump-7''" "mu_event_id ?m = ''e1''" by (simp_all add: demo_mutation_def)
  have sub: "sub_tenant (demo_licensed e) = ''acme''" "sub_key_id (demo_licensed e) = ''k1''" for e
    by (simp_all add: demo_licensed_def demo_subscription_def)
  have w: "w_producer_up (closure_world (Aware 1000))" "x_send steady k = SendOk" for k
    by (simp_all add: closure_world_def demo_closure_def)
  show ?thesis
    using close_loop_stub [OF _ simulator_facts(1) w demo_accepts demo_validates, of "''c1''"]
    by (auto simp: simulator_facts m sub demo_strips demo_shape)
qed

theorem closed_batch_is_published_witness:
  "\<exists>b w'. close_loop steady simulator_settings [(''license_key'', JStr ''k'')] ''c1'' (closure_world (Aware 1000)) =
     (Inr b, w') \<and> w_commands w' \<noteq> []"
proof -
  obtain b w' where cl: "close_loop steady simulator_settings [(''license_key'', JStr ''k'')] ''c1''
      (closure_world (Aware 1000)) = (Inr b, w')"
    using demo_closes by blast
  note pub = closed_batch_is_published [OF cl]
  obtain ns where ns: "w_commands w' = runs_of ns (cb_commands b)" "length ns = length (cb_commands b)"
    "list_all (\<lambda>n. 0 < n) ns"
    using pub by (auto simp: closure_world_def)
  have "set (w_commands w') = set (cb_commands b)" using runs_of_covers [OF ns(2,3)] ns(1) by simp
  then show ?thesis using cl pub by fastforce
qed

text \<open>The simulated record, handled.\<close>

lemma demo_handle:
  "\<exists>b w'. handle steady simulator_settings demo_message (closure_world (Aware 1000)) = (Inr (Closed b), w') \<and>
     cb_commands b \<noteq> []"
proof -
  let ?w = "count (\<lambda>m. m\<lparr>mt_consumed := Suc (mt_consumed m)\<rparr>) (closure_world (Aware 1000))"
  let ?m = "demo_mutation SevCritical True"
  have m: "mu_asset_id ?m = ''pump-7''" "mu_event_id ?m = ''e1''" by (simp_all add: demo_mutation_def)
  have sub: "sub_tenant (demo_licensed e) = ''acme''" "sub_key_id (demo_licensed e) = ''k1''" for e
    by (simp_all add: demo_licensed_def demo_subscription_def)
  have w: "w_producer_up ?w" "x_send steady k = SendOk" for k
    by (simp_all add: closure_world_def demo_closure_def)
  have acc: "fst (gate_call steady [(''license_key'', JStr ''k'')] ?w) = Inr (demo_licensed (Aware 1000))"
    using demo_accepts by simp
  have corr: "correlation_id (x_uuid4 steady n) (km_headers demo_message) = ''c1''" for n
    by (simp add: demo_closure_def demo_message_def)
  obtain b w' where cl: "close_loop steady simulator_settings [(''license_key'', JStr ''k'')] ''c1'' ?w = (Inr b, w')"
    using close_loop_stub [OF _ simulator_facts(1) w acc demo_validates, of "''c1''"]
    by (auto simp: simulator_facts m sub demo_strips demo_shape)
  have "cb_commands b \<noteq> []"
    using acc cl
  proof (cases rule: close_loop_admitted_cases)
    case (planned m plan w1 commands ns w2)
    then show ?thesis using translate_plan_Inr [OF planned(3)] by auto
  qed simp
  moreover have "handle steady simulator_settings demo_message (closure_world (Aware 1000)) = (Inr (Closed b), w')"
    using cl by (simp add: handle_def demo_payload corr)
  ultimately show ?thesis by blast
qed

theorem handled_record_ends_witness:
  "\<exists>b w'. handle steady simulator_settings demo_message (closure_world (Aware 1000)) = (Inr (Closed b), w') \<and>
     cb_commands b \<noteq> [] \<and> set (cb_commands b) \<subseteq> set (w_commands w')"
proof -
  obtain b w' where h: "handle steady simulator_settings demo_message (closure_world (Aware 1000)) = (Inr (Closed b), w')"
    "cb_commands b \<noteq> []"
    using demo_handle by blast
  then show ?thesis using handled_record_ends [OF h(1)] by auto
qed

theorem no_licence_no_effect_witness:
  "\<exists>sub. registry_lookup (registry_of [demo_licensed (Aware 1000)]) (key_digest id ''k'') = Some sub \<and> sub_active sub \<and>
     sub_plan sub \<in> entitled_plans (keyed_settings None)"
proof -
  obtain b w' where h: "handle steady simulator_settings demo_message (closure_world (Aware 1000)) = (Inr (Closed b), w')"
    "cb_commands b \<noteq> []"
    using demo_handle by blast
  have eff: "w_commands w' \<noteq> w_commands (closure_world (Aware 1000))"
    using handle_ends [OF h(1)] h(2) by (auto simp: closure_world_def)
  have eq: "(closure_world (Aware 1000))\<lparr>w_gatekeeper := gatekeeper_after (keyed_settings None)
      (registry_of [demo_licensed (Aware 1000)]) 300 16 []\<rparr> = closure_world (Aware 1000)"
    by (simp add: closure_world_def closure_gate_def demo_licensed_def)
  show ?thesis
    using no_licence_no_effect [where w = "closure_world (Aware 1000)" and gs = "keyed_settings None"
        and reg = "registry_of [demo_licensed (Aware 1000)]" and ttl = 300 and n = 16 and ops = "[]",
        unfolded eq, OF h(1)] eff
    by (auto simp: demo_payload demo_key demo_sha)
qed

theorem partial_batch_stays_published_witness:
  "\<exists>c c'. fst (publish_all (demo_closure (\<lambda>k. if k = 0 then SendOk else SendFailed False)) simulator_settings [c, c']
        (closure_world (Aware 1000))) = Inl (TransientFailure ''command_publish_failed'') \<and>
     w_commands (snd (publish_all (demo_closure (\<lambda>k. if k = 0 then SendOk else SendFailed False)) simulator_settings
        [c, c'] (closure_world (Aware 1000)))) = [c]"
  using partial_batch_stays_published [where w = "closure_world (Aware 1000)" and s = simulator_settings
      and env = "demo_closure (\<lambda>k. if k = 0 then SendOk else SendFailed False)" and cs = "[]"]
  by (auto simp: closure_world_def demo_closure_def simulator_facts)

theorem refused_record_is_settled_witness:
  "\<exists>delivered w'. handle steady simulator_settings demo_message (closure_world (Aware (-1))) =
     (Inr (DeadLettered ''license_license_expired'' delivered), w') \<and> w_commands w' = []"
  using refused_record_is_settled [OF demo_payload(1) [of "\<lambda>k. SendOk"], where s = simulator_settings and w = "closure_world (Aware (-1))"
      and code = "''license_expired''"] demo_refuses [of "\<lambda>k. SendOk"]
  by (auto simp: demo_payload closure_world_def)

lemma demo_records: "message_at [demo_message] 0 = demo_message"
  by (simp add: message_at_def demo_message_def)

theorem committed_records_settled_witness:
  "\<exists>c how. consumer_reaches steady simulator_settings [demo_message] 1 (closure_world (Aware 1000)) c \<and>
     co_committed c = Some 1 \<and> (0, how) \<in> set (co_settled c)"
proof -
  let ?w = "closure_world (Aware 1000)" and ?s = simulator_settings
  let ?a = "(consumer_init 1 ?w)\<lparr>co_assigned := True, co_position := 0\<rparr>"
  obtain b w' where h: "handle steady ?s demo_message ?w = (Inr (Closed b), w')" using demo_handle by blast
  let ?c = "(commit_landed ?a)\<lparr>co_world := w', co_position := Suc 0, co_streak := 0,
    co_settled := [(0, Closed b)]\<rparr>"
  have e: "s_auto_offset_reset ?s = Earliest" by (simp add: simulator_settings_def default_settings_def)
  have "consume_step steady ?s [demo_message] (consumer_init 1 ?w) ?a"
    using consume_step.assigned [of "consumer_init 1 ?w" steady ?s "[demo_message]"] e
    by (simp add: consumer_init_def start_position_def)
  moreover have "consume_step steady ?s [demo_message] ?a ?c"
    using consume_step.handled [of ?a steady ?s "[demo_message]" "Closed b" w'] h
    by (simp add: consumer_init_def demo_records)
  ultimately have r: "consumer_reaches steady ?s [demo_message] 1 ?w ?c"
    by (intro consumer_reaches.step [OF consumer_reaches.step [OF consumer_reaches.start]]) simp_all
  have "\<exists>how. (0, how) \<in> set (co_settled ?c)"
    using committed_records_settled [OF r] e by (simp add: commit_landed_def consumer_init_def)
  then show ?thesis using r by (intro exI [of _ ?c]) (simp add: commit_landed_def consumer_init_def)
qed

theorem naive_expiry_blocks_partition_witness:
  "fst (handle steady simulator_settings demo_message (closure_world (Naive 1000))) = Inl (OtherExn TypeErrorExn)"
proof -
  let ?reg = "registry_of [demo_licensed (Naive 1000)]"
  have eq: "(closure_world (Naive 1000))\<lparr>w_gatekeeper := gatekeeper_after (keyed_settings None) ?reg 300 16 []\<rparr> =
      closure_world (Naive 1000)"
    by (simp add: closure_world_def closure_gate_def demo_licensed_def)
  have sub: "sub_active (demo_licensed (Naive 1000))" "sub_expires_at (demo_licensed (Naive 1000)) = Naive 1000"
    by (simp_all add: demo_licensed_def demo_subscription_def)
  show ?thesis
    using naive_expiry_blocks_partition [where w = "closure_world (Naive 1000)" and gs = "keyed_settings None"
        and reg = ?reg and ttl = 300 and n = 16 and ops = "[]" and env = steady and s = simulator_settings
        and records = "[demo_message]" and i = 0 and p = "[(''license_key'', JStr ''k'')]" and key = "''k''"
        and sub = "demo_licensed (Naive 1000)" and t = 1000 and c = "consumer_init 1 (closure_world (Naive 1000))"
        and backlog = 1,
        unfolded eq demo_records] consumer_reaches.start
    by (auto simp: demo_payload demo_key demo_registry sub demo_sha consumer_init_def)
qed

end
