(* ===== verification/Graph_Contracts.thy ===== *)
theory Graph_Contracts
  imports Prelude
begin

text \<open>
  The contracts of the GraphRAG interceptor: the enumerations, the inbound payload with its validators,
  and what the two agents must emit (graphrag_interceptor.py, the validation and parsing layer).

  Type coercion is the library's: the functions here take values of the declared types, with their
  surrounding white space stripped, and apply the declared constraints and the validators of the code.
\<close>

section \<open>Enumerations\<close>

datatype asset_status = StOperational | StDegraded | StAlarm | StOffline | StMaintenance | StUnknown

fun status_value :: "asset_status \<Rightarrow> string" where
  "status_value StOperational = ''OPERATIONAL''"
| "status_value StDegraded = ''DEGRADED''"
| "status_value StAlarm = ''ALARM''"
| "status_value StOffline = ''OFFLINE''"
| "status_value StMaintenance = ''MAINTENANCE''"
| "status_value StUnknown = ''UNKNOWN''"

definition is_faulted :: "asset_status \<Rightarrow> bool" where
  "is_faulted s \<longleftrightarrow> s \<in> {StDegraded, StAlarm, StOffline}"

datatype fault_class = LocalizedComponent | InheritedCascade | Indeterminate | NoFaultDetected

datatype graph_action = IsolateValve | EmergencyShutdown | DegradeThrottle

definition irreversible_action :: "graph_action \<Rightarrow> bool" where
  "irreversible_action a \<longleftrightarrow> a = EmergencyShutdown"

datatype graph_priority = GpRoutine | GpHigh | GpCritical

datatype step_actor = HumanTechnician | HumanSupervisor | RoboticActuator | ControlSystem

datatype presence = Live | Tombstoned | Unobserved

fun presence_value :: "presence \<Rightarrow> string" where
  "presence_value Live = ''LIVE''"
| "presence_value Tombstoned = ''TOMBSTONED''"
| "presence_value Unobserved = ''UNOBSERVED''"

datatype tie_breaker = RemovedWins | AddWins | NotRequired

datatype band = BandNominal | BandWarn | BandCritical | BandHard | BandUnknown

fun band_value :: "band \<Rightarrow> string" where
  "band_value BandNominal = ''NOMINAL''"
| "band_value BandWarn = ''WARN''"
| "band_value BandCritical = ''CRITICAL''"
| "band_value BandHard = ''HARD''"
| "band_value BandUnknown = ''UNKNOWN''"

fun band_rank :: "band \<Rightarrow> nat" where
  "band_rank BandUnknown = 0"
| "band_rank BandNominal = 0"
| "band_rank BandWarn = 1"
| "band_rank BandCritical = 2"
| "band_rank BandHard = 3"

text \<open>Priorities are compared by urgency.\<close>

fun priority_rank :: "graph_priority \<Rightarrow> nat" where
  "priority_rank GpRoutine = 0"
| "priority_rank GpHigh = 1"
| "priority_rank GpCritical = 2"

instantiation graph_priority :: linorder
begin

definition less_eq_graph_priority :: "graph_priority \<Rightarrow> graph_priority \<Rightarrow> bool" where
  "p \<le> q \<longleftrightarrow> priority_rank p \<le> priority_rank q"

definition less_graph_priority :: "graph_priority \<Rightarrow> graph_priority \<Rightarrow> bool" where
  "p < q \<longleftrightarrow> priority_rank p < priority_rank q"

instance
proof
  fix x y :: graph_priority
  show "x \<le> y \<Longrightarrow> y \<le> x \<Longrightarrow> x = y"
    by (cases x; cases y) (simp_all add: less_eq_graph_priority_def)
qed (auto simp: less_eq_graph_priority_def less_graph_priority_def)

end

section \<open>Identifiers\<close>

definition node_char :: "char \<Rightarrow> bool" where
  "node_char c \<longleftrightarrow> is_alnum c \<or> c \<in> {CHR ''.'', CHR ''_'', CHR '':'', CHR ''-''}"

definition node_id_ok :: "string \<Rightarrow> bool" where
  "node_id_ok s \<longleftrightarrow> 2 \<le> length s \<and> length s \<le> 128 \<and> is_alnum (hd s) \<and> list_all node_char s"

definition validate_node_id :: "string \<Rightarrow> string raises" where
  "validate_node_id value =
     (let node = str_strip value in if node_id_ok node then Inr node else Inl ValidationErrorExn)"

definition is_hex :: "char \<Rightarrow> bool" where
  "is_hex c \<longleftrightarrow>
     (let n = (of_char c :: nat) in 48 \<le> n \<and> n \<le> 57 \<or> 97 \<le> n \<and> n \<le> 102 \<or> 65 \<le> n \<and> n \<le> 70)"

definition uuid_shape :: "string \<Rightarrow> bool" where
  "uuid_shape s \<longleftrightarrow>
     map length (str_split (CHR ''-'') s) = [8, 4, 4, 4, 12] \<and>
     list_all (list_all is_hex) (str_split (CHR ''-'') s)"

definition canonical_identifier :: "string \<Rightarrow> string raises" where
  "canonical_identifier value =
     (let candidate = str_strip value in
      if uuid_shape candidate then Inr (str_lower candidate) else validate_node_id candidate)"

section \<open>The inbound payload\<close>

record asset_metadata =
  am_uuid :: string
  am_name :: string
  am_model_number :: string
  am_status :: asset_status

definition len_within :: "nat \<Rightarrow> nat \<Rightarrow> 'a list \<Rightarrow> bool" where
  "len_within lo hi xs \<longleftrightarrow> lo \<le> length xs \<and> length xs \<le> hi"

definition make_asset :: "asset_metadata \<Rightarrow> asset_metadata raises" where
  "make_asset a =
     (if len_within 2 128 (am_uuid a) \<and> len_within 1 256 (am_name a) \<and> len_within 1 128 (am_model_number a)
      then bind_r (canonical_identifier (am_uuid a)) (\<lambda>u. Inr (a\<lparr>am_uuid := u\<rparr>))
      else Inl ValidationErrorExn)"

definition family_separator :: "char \<Rightarrow> bool" where
  "family_separator c \<longleftrightarrow> c \<in> {CHR ''-'', CHR ''_'', CHR ''/''} \<or> is_space c"

definition model_family :: "asset_metadata \<Rightarrow> string" where
  "model_family a = str_upper (takeWhile (\<lambda>c. \<not> family_separator c) (str_strip (am_model_number a)))"

record replica_observation =
  ro_replica_id :: string
  ro_add_stamp :: int
  ro_remove_stamp :: int

definition observation_ok :: "replica_observation \<Rightarrow> bool" where
  "observation_ok o' \<longleftrightarrow> len_within 1 128 (ro_replica_id o') \<and> 0 \<le> ro_add_stamp o' \<and> 0 \<le> ro_remove_stamp o'"

definition local_presence :: "replica_observation \<Rightarrow> presence" where
  "local_presence o' =
     (if ro_add_stamp o' = 0 \<and> ro_remove_stamp o' = 0 then Unobserved
      else if ro_add_stamp o' > ro_remove_stamp o' then Live else Tombstoned)"

record graph_context =
  gc_parent_system :: string
  gc_physical_location :: string
  gc_upstream :: "string list"
  gc_downstream :: "string list"
  gc_assigned_operator :: string
  gc_dependency_health :: "(string, asset_status) odict"
  gc_replica_observations :: "replica_observation list"
  gc_criticality :: string
  gc_maintenance_window :: "string option"

text \<open>Node ids are validated one by one, and a repeated one is dropped.\<close>

fun validate_edges :: "string list \<Rightarrow> string list \<Rightarrow> string list raises" where
  "validate_edges seen [] = Inr []"
| "validate_edges seen (raw # values) =
     bind_r (validate_node_id raw) (\<lambda>node.
       if node \<in> set seen then validate_edges seen values
       else bind_r (validate_edges (node # seen) values) (\<lambda>ordered. Inr (node # ordered)))"

definition make_context :: "graph_context \<Rightarrow> graph_context raises" where
  "make_context c =
     (if len_within 1 128 (gc_parent_system c) \<and> len_within 1 256 (gc_physical_location c) \<and>
         len_within 0 64 (gc_upstream c) \<and> len_within 0 128 (gc_downstream c) \<and>
         len_within 1 128 (gc_assigned_operator c) \<and> len_within 0 64 (gc_replica_observations c) \<and>
         list_all observation_ok (gc_replica_observations c) \<and> len_within 0 64 (gc_criticality c) \<and>
         (case gc_maintenance_window c of None \<Rightarrow> True | Some w \<Rightarrow> len_within 0 128 w)
      then
        bind_r (validate_node_id (gc_parent_system c)) (\<lambda>parent.
        bind_r (validate_edges [] (gc_upstream c)) (\<lambda>up.
        bind_r (validate_edges [] (gc_downstream c)) (\<lambda>down.
          Inr (c\<lparr>gc_parent_system := parent, gc_upstream := up, gc_downstream := down\<rparr>))))
      else Inl ValidationErrorExn)"

definition nearest_upstream :: "graph_context \<Rightarrow> string option" where
  "nearest_upstream c = (case gc_upstream c of [] \<Rightarrow> None | u # us \<Rightarrow> Some u)"

definition blast_radius_size :: "graph_context \<Rightarrow> nat" where
  "blast_radius_size c = length (gc_downstream c)"

definition neighbour_ids :: "graph_context \<Rightarrow> string set" where
  "neighbour_ids c = {gc_parent_system c} \<union> set (gc_upstream c) \<union> set (gc_downstream c)"

section \<open>Telemetry\<close>

text \<open>
  An undeclared channel arrives as any value; a number, or a string that \<open>float\<close> parses, is
  accepted.  An integer too large for a float raises OverflowError, which is not a ValueError and so
  is not turned into a validation error.
\<close>

datatype channel_value = ChFloat pyfloat | ChInt int | ChStr string | ChBool bool | ChOther

definition float_of_int :: "int \<Rightarrow> pyfloat raises" where
  "float_of_int i = (if 2 ^ 1024 - 2 ^ 970 \<le> \<bar>i\<bar> then Inl OverflowErrorExn else Inr (Fin (of_int i)))"

definition require_finite :: "pyfloat \<Rightarrow> pyfloat raises" where
  "require_finite x = (if is_finite x then Inr x else Inl ValidationErrorExn)"

definition coerce_channel :: "(string \<Rightarrow> pyfloat option) \<Rightarrow> channel_value \<Rightarrow> pyfloat raises" where
  "coerce_channel to_float v =
     (case v of
        ChFloat x \<Rightarrow> require_finite x
      | ChInt i \<Rightarrow> bind_r (float_of_int i) require_finite
      | ChStr s \<Rightarrow> (case to_float s of None \<Rightarrow> Inl ValidationErrorExn | Some x \<Rightarrow> require_finite x)
      | _ \<Rightarrow> Inl ValidationErrorExn)"

record telemetry_snapshot =
  ts_vibration_index :: "pyfloat option"
  ts_temperature_celsius :: "pyfloat option"
  ts_crdt_collision_rate :: "pyfloat option"
  ts_extra :: "(string, pyfloat) odict"

definition declared_channels :: "telemetry_snapshot \<Rightarrow> (string, pyfloat) odict" where
  "declared_channels t =
     [(name, x). (name, Some x) \<leftarrow>
        [(''vibration_index'', ts_vibration_index t), (''temperature_celsius'', ts_temperature_celsius t),
         (''crdt_collision_rate'', ts_crdt_collision_rate t)]]"

definition channels :: "telemetry_snapshot \<Rightarrow> (string, pyfloat) odict" where
  "channels t = fold (\<lambda>(k, x). AList.update k x) (ts_extra t) (declared_channels t)"

fun coerce_extras ::
    "(string \<Rightarrow> pyfloat option) \<Rightarrow> (string \<times> channel_value) list \<Rightarrow> (string, pyfloat) odict
      \<Rightarrow> (string, pyfloat) odict raises" where
  "coerce_extras to_float [] acc = Inr acc"
| "coerce_extras to_float ((key, v) # rest) acc =
     bind_r (coerce_channel to_float v) (\<lambda>x. coerce_extras to_float rest (AList.update (str_strip key) x acc))"

definition make_snapshot ::
    "(string \<Rightarrow> pyfloat option) \<Rightarrow> pyfloat option \<Rightarrow> pyfloat option \<Rightarrow> pyfloat option
      \<Rightarrow> (string \<times> channel_value) list \<Rightarrow> telemetry_snapshot raises" where
  "make_snapshot to_float vib temp coll extras =
     bind_r (coerce_extras to_float extras []) (\<lambda>coerced.
       let t = \<lparr>ts_vibration_index = vib, ts_temperature_celsius = temp, ts_crdt_collision_rate = coll,
                ts_extra = coerced\<rparr>
       in if channels t = [] then Inl ValidationErrorExn else Inr t)"

text \<open>The parts of a key around its first double colon.\<close>

fun split_channel :: "string \<Rightarrow> (string \<times> string) option" where
  "split_channel [] = None"
| "split_channel [c] = None"
| "split_channel (c # d # cs) =
     (if c = CHR '':'' \<and> d = CHR '':'' then Some ([], cs)
      else map_option (\<lambda>(a, b). (c # a, b)) (split_channel (d # cs)))"

definition local_channels :: "telemetry_snapshot \<Rightarrow> (string, pyfloat) odict" where
  "local_channels t = filter (\<lambda>(k, x). split_channel k = None) (channels t)"

definition attribute_channel ::
    "string \<times> pyfloat \<Rightarrow> (string, (string, pyfloat) odict) odict \<Rightarrow> (string, (string, pyfloat) odict) odict" where
  "attribute_channel kx acc =
     (case split_channel (fst kx) of
        None \<Rightarrow> acc
      | Some (node0, channel0) \<Rightarrow>
          (let node = str_strip node0; channel = str_strip channel0 in
           if node = [] \<or> channel = [] then acc
           else AList.update node
                  (AList.update channel (snd kx) (case map_of acc node of None \<Rightarrow> [] | Some d \<Rightarrow> d)) acc))"

definition attributed_channels :: "telemetry_snapshot \<Rightarrow> (string, (string, pyfloat) odict) odict" where
  "attributed_channels t = fold attribute_channel (channels t) []"

definition ts_get :: "telemetry_snapshot \<Rightarrow> string \<Rightarrow> pyfloat \<Rightarrow> pyfloat" where
  "ts_get t channel fallback = (case map_of (channels t) channel of None \<Rightarrow> fallback | Some x \<Rightarrow> x)"

section \<open>EnrichedGraphPayload\<close>

record graph_payload =
  gp_event_id :: string
  gp_timestamp :: rat
  gp_asset :: asset_metadata
  gp_context :: graph_context
  gp_telemetry :: telemetry_snapshot
  gp_lamport_clock :: int
  gp_degraded :: bool

text \<open>The validator that accepts the wire spelling of the asset key works on the raw object.\<close>

definition accept_wire_key :: "json \<Rightarrow> json" where
  "accept_wire_key data =
     (case data of
        JObj kvs \<Rightarrow>
          (case map_of kvs ''asset'' of
             Some v \<Rightarrow>
               if map_of kvs ''asset_metadata'' = None
               then JObj (AList.update ''asset_metadata'' v (AList.delete ''asset'' kvs)) else data
           | None \<Rightarrow> data)
      | _ \<Rightarrow> data)"

definition known_nodes :: "graph_payload \<Rightarrow> string set" where
  "known_nodes p = neighbour_ids (gp_context p) \<union> {am_uuid (gp_asset p)}"

definition cross_check_topology :: "graph_payload \<Rightarrow> graph_payload raises" where
  "cross_check_topology p =
     (let asset_id = am_uuid (gp_asset p); context = gp_context p in
      if asset_id \<in> set (gc_upstream context) \<or> asset_id \<in> set (gc_downstream context)
      then Inl ValidationErrorExn
      else if set (gc_upstream context) \<inter> set (gc_downstream context) \<noteq> {} then Inl ValidationErrorExn
      else if \<not> set (od_keys (gc_dependency_health context)) \<subseteq> known_nodes p then Inl ValidationErrorExn
      else if \<not> set (od_keys (attributed_channels (gp_telemetry p))) \<subseteq> known_nodes p then Inl ValidationErrorExn
      else Inr p)"

definition make_payload ::
    "(string \<Rightarrow> pyfloat option) \<Rightarrow> string \<Rightarrow> rat \<Rightarrow> asset_metadata \<Rightarrow> graph_context
      \<Rightarrow> pyfloat option \<times> pyfloat option \<times> pyfloat option \<times> (string \<times> channel_value) list
      \<Rightarrow> int \<Rightarrow> bool \<Rightarrow> graph_payload raises" where
  "make_payload to_float event_id timestamp raw_asset raw_context raw_telemetry lamport degraded =
     (let (vib, temp, coll, extras) = raw_telemetry in
      if \<not> len_within 1 128 event_id \<or> lamport < 0 then Inl ValidationErrorExn
      else
        bind_r (make_asset raw_asset) (\<lambda>asset.
        bind_r (make_context raw_context) (\<lambda>context.
        bind_r (make_snapshot to_float vib temp coll extras) (\<lambda>telemetry.
          cross_check_topology
            \<lparr>gp_event_id = event_id, gp_timestamp = timestamp, gp_asset = asset, gp_context = context,
             gp_telemetry = telemetry, gp_lamport_clock = lamport, gp_degraded = degraded\<rparr>))))"

section \<open>What the agents emit\<close>

record crdt_assessment =
  ca_presence :: presence
  ca_tie_breaker :: tie_breaker
  ca_contested :: bool
  ca_highest_add :: int
  ca_highest_remove :: int
  ca_diverging :: "string list"
  ca_collision_rate :: pyfloat
  ca_graph_trust :: rat
  ca_explanation :: string

fun rate_nonneg :: "pyfloat \<Rightarrow> bool" where
  "rate_nonneg (Fin x) = (0 \<le> x)"
| "rate_nonneg PInf = True"
| "rate_nonneg _ = False"

definition assessment_ok :: "crdt_assessment \<Rightarrow> bool" where
  "assessment_ok a \<longleftrightarrow>
     0 \<le> ca_highest_add a \<and> 0 \<le> ca_highest_remove a \<and> rate_nonneg (ca_collision_rate a) \<and>
     0 \<le> ca_graph_trust a \<and> ca_graph_trust a \<le> 1 \<and> len_within 1 1200 (ca_explanation a)"

record isolation_verdict =
  iv_fault :: fault_class
  iv_root_cause :: string
  iv_rationale :: string
  iv_cascade_path :: "string list"
  iv_localized :: "string list"
  iv_blast_radius :: "string list"
  iv_severity :: band
  iv_crdt :: crdt_assessment
  iv_containment :: graph_action
  iv_irreversible_permitted :: bool
  iv_confidence :: rat
  iv_evidence :: "string list"

definition verdict_ok :: "isolation_verdict \<Rightarrow> bool" where
  "verdict_ok v \<longleftrightarrow>
     len_within 1 128 (iv_root_cause v) \<and> len_within 1 2000 (iv_rationale v) \<and>
     len_within 0 64 (iv_cascade_path v) \<and> len_within 0 64 (iv_localized v) \<and>
     len_within 0 128 (iv_blast_radius v) \<and> assessment_ok (iv_crdt v) \<and>
     0 \<le> iv_confidence v \<and> iv_confidence v \<le> 1 \<and> len_within 0 64 (iv_evidence v)"

record isolation_step =
  st_sequence :: int
  st_actor :: step_actor
  st_instruction :: string
  st_target :: string
  st_verification :: string
  st_reversible :: bool
  st_seconds :: int
  st_manual :: "string option"

definition step_ok :: "isolation_step \<Rightarrow> bool" where
  "step_ok t \<longleftrightarrow>
     1 \<le> st_sequence t \<and> len_within 8 600 (st_instruction t) \<and> len_within 1 128 (st_target t) \<and>
     len_within 4 400 (st_verification t) \<and> 0 \<le> st_seconds t \<and> st_seconds t \<le> 86400 \<and>
     (case st_manual t of None \<Rightarrow> True | Some m \<Rightarrow> len_within 0 160 m)"

record strategic_plan =
  sp_action :: graph_action
  sp_target :: string
  sp_priority :: graph_priority
  sp_steps :: "isolation_step list"
  sp_protection :: "string list"
  sp_authorization :: bool
  sp_rationale :: string
  sp_references :: "string list"
  sp_confidence :: rat

definition contiguous :: "isolation_step list \<Rightarrow> bool" where
  "contiguous steps \<longleftrightarrow> map st_sequence steps = map int [1..<Suc (length steps)]"

definition plan_ok :: "strategic_plan \<Rightarrow> bool" where
  "plan_ok p \<longleftrightarrow>
     len_within 1 128 (sp_target p) \<and> len_within 1 40 (sp_steps p) \<and> list_all step_ok (sp_steps p) \<and>
     contiguous (sp_steps p) \<and> len_within 0 64 (sp_protection p) \<and> len_within 1 2000 (sp_rationale p) \<and>
     len_within 0 32 (sp_references p) \<and> 0 \<le> sp_confidence p \<and> sp_confidence p \<le> 1"

section \<open>Lemmas\<close>

lemma is_alnum_no_space: "is_alnum c \<Longrightarrow> \<not> is_space c"
  by (auto simp: is_alnum_def is_space_def Let_def)

lemma node_char_no_space: "node_char c \<Longrightarrow> \<not> is_space c"
proof -
  have "\<not> is_space (CHR ''.'')" "\<not> is_space (CHR ''_'')" "\<not> is_space (CHR '':'')" "\<not> is_space (CHR ''-'')"
    by (simp_all add: is_space_def)
  then show "node_char c \<Longrightarrow> \<not> is_space c" using is_alnum_no_space by (auto simp: node_char_def)
qed

lemma strip_unspaced: "list_all (\<lambda>c. \<not> is_space c) s \<Longrightarrow> str_strip s = s"
  by (rule str_strip_id) (cases s; auto simp: list_all_iff)

lemma node_id_strip: "node_id_ok s \<Longrightarrow> str_strip s = s"
  by (rule strip_unspaced) (auto simp: node_id_ok_def list_all_iff node_char_no_space)

lemma validate_node_id_ok: "validate_node_id v = Inr n \<Longrightarrow> node_id_ok n"
  by (auto simp: validate_node_id_def Let_def split: if_splits)

lemma validate_node_id_fix: "node_id_ok n \<Longrightarrow> validate_node_id n = Inr n"
  by (simp add: validate_node_id_def node_id_strip)

lemma validate_edges_ok:
  "validate_edges seen vs = Inr out \<Longrightarrow>
   list_all node_id_ok out \<and> distinct out \<and> set out \<inter> set seen = {} \<and> length out \<le> length vs"
proof (induction seen vs arbitrary: out rule: validate_edges.induct)
  case (2 seen raw vs)
  obtain node where n: "validate_node_id raw = Inr node" using "2.prems" by (auto simp: bind_r_Inr_iff)
  show ?case
  proof (cases "node \<in> set seen")
    case True
    then show ?thesis using "2.IH"(1) [OF True] "2.prems" n by (auto simp: le_SucI)
  next
    case False
    then obtain rest where r: "validate_edges (node # seen) vs = Inr rest" "out = node # rest"
      using "2.prems" n by (auto simp: bind_r_Inr_iff)
    then show ?thesis using "2.IH"(2) [OF False, of rest] validate_node_id_ok [OF n] False by auto
  qed
qed simp

lemma validate_edges_fix:
  "list_all node_id_ok out \<Longrightarrow> distinct out \<Longrightarrow> set out \<inter> set seen = {} \<Longrightarrow> validate_edges seen out = Inr out"
  by (induction out arbitrary: seen) (auto simp: validate_node_id_fix)

text \<open>Folding a UUID to lower case keeps its shape.\<close>

lemma of_char_lower_char:
  "of_char (lower_char c) =
     (if 65 \<le> (of_char c :: nat) \<and> of_char c \<le> (90 :: nat) then of_char c + 32 else (of_char c :: nat))"
  by (auto simp: lower_char_def Let_def)

lemma char_eq_nat: "c = d \<longleftrightarrow> (of_char c :: nat) = of_char d"
  by simp

lemma lower_char_dash: "lower_char c = CHR ''-'' \<longleftrightarrow> c = CHR ''-''"
  unfolding char_eq_nat of_char_lower_char by auto

lemma lower_char_hex: "is_hex c \<Longrightarrow> is_hex (lower_char c)"
  by (auto simp: is_hex_def of_char_lower_char Let_def)

lemma lower_char_idem: "lower_char (lower_char c) = lower_char c"
  unfolding char_eq_nat of_char_lower_char by auto

lemma hex_no_space: "is_hex c \<Longrightarrow> \<not> is_space c"
  by (auto simp: is_hex_def is_space_def Let_def)

lemma str_split_lower: "str_split (CHR ''-'') (str_lower s) = map str_lower (str_split (CHR ''-'') s)"
  by (induction s) (auto simp: str_lower_def lower_char_dash split: list.splits)

lemma str_split_chars: "list_all (list_all P) (str_split sep s) \<Longrightarrow> list_all (\<lambda>c. P c \<or> c = sep) s"
proof (induction s)
  case (Cons c s)
  then show ?case by (auto split: if_splits list.splits)
qed simp

lemma uuid_shape_lower: "uuid_shape s \<Longrightarrow> uuid_shape (str_lower s)"
proof -
  have l: "length (str_lower w) = length w" and h: "list_all is_hex w \<Longrightarrow> list_all is_hex (str_lower w)" for w
    by (auto simp: str_lower_def list_all_iff lower_char_hex)
  assume u: "uuid_shape s"
  show ?thesis using u h unfolding uuid_shape_def str_split_lower by (auto simp: list_all_iff l)
qed

lemma uuid_shape_strip: "uuid_shape s \<Longrightarrow> str_strip s = s"
proof -
  assume "uuid_shape s"
  then have "list_all (\<lambda>c. is_hex c \<or> c = CHR ''-'') s"
    by (intro str_split_chars) (simp add: uuid_shape_def)
  moreover have "\<not> is_space (CHR ''-'')" by (simp add: is_space_def)
  ultimately show ?thesis by (intro strip_unspaced) (auto simp: list_all_iff hex_no_space)
qed

lemma canonical_identifier_fix: "canonical_identifier v = Inr u \<Longrightarrow> canonical_identifier u = Inr u"
proof -
  assume a: "canonical_identifier v = Inr u"
  show ?thesis
  proof (cases "uuid_shape (str_strip v)")
    case True
    then have u: "u = str_lower (str_strip v)" using a by (simp add: canonical_identifier_def)
    then have "uuid_shape u" using True uuid_shape_lower by simp
    moreover have "str_lower u = u" unfolding u by (simp add: str_lower_def lower_char_idem)
    ultimately show ?thesis by (simp add: canonical_identifier_def uuid_shape_strip)
  next
    case False
    then have u: "node_id_ok u" "u = str_strip (str_strip v)"
      using a by (auto simp: canonical_identifier_def validate_node_id_def Let_def split: if_splits)
    have "u = str_strip v" using u False a validate_node_id_fix str_strip_idem by metis
    then show ?thesis using u(1) False by (simp add: canonical_identifier_def node_id_strip validate_node_id_fix)
  qed
qed

lemma make_asset_fix:
  assumes "make_asset a = Inr b"
  shows "canonical_identifier (am_uuid b) = Inr (am_uuid b) \<and> am_uuid b \<noteq> []"
proof -
  obtain u where u: "canonical_identifier (am_uuid a) = Inr u" "am_uuid b = u" "len_within 2 128 (am_uuid a)"
    using assms by (auto simp: make_asset_def bind_r_Inr_iff split: if_splits)
  have "u \<noteq> []"
    using u(1) by (auto simp: canonical_identifier_def validate_node_id_def node_id_ok_def uuid_shape_def
        str_lower_def Let_def split: if_splits)
  then show ?thesis using canonical_identifier_fix [OF u(1)] u(2) by simp
qed

lemma make_context_ok:
  assumes "make_context c = Inr d"
  shows "node_id_ok (gc_parent_system d) \<and> list_all node_id_ok (gc_upstream d) \<and> distinct (gc_upstream d) \<and>
    length (gc_upstream d) \<le> 64 \<and> list_all node_id_ok (gc_downstream d) \<and> distinct (gc_downstream d) \<and>
    length (gc_downstream d) \<le> 128 \<and> list_all observation_ok (gc_replica_observations d)"
proof -
  obtain parent up down where v: "validate_node_id (gc_parent_system c) = Inr parent"
    "validate_edges [] (gc_upstream c) = Inr up" "validate_edges [] (gc_downstream c) = Inr down"
    "d = c\<lparr>gc_parent_system := parent, gc_upstream := up, gc_downstream := down\<rparr>"
    "len_within 0 64 (gc_upstream c)" "len_within 0 128 (gc_downstream c)"
    "list_all observation_ok (gc_replica_observations c)"
    using assms by (auto simp: make_context_def bind_r_Inr_iff split: if_splits)
  show ?thesis
    using validate_edges_ok [OF v(2)] validate_edges_ok [OF v(3)] validate_node_id_ok [OF v(1)] v(4-7)
    by (simp add: len_within_def)
qed

lemma make_context_fix: "make_context c = Inr d \<Longrightarrow> make_context d = Inr d"
proof -
  assume a: "make_context c = Inr d"
  note ok = make_context_ok [OF a]
  have "len_within 1 128 (gc_parent_system d)" using ok by (auto simp: node_id_ok_def len_within_def)
  then show ?thesis
    using a ok validate_edges_fix [of "gc_upstream d" "[]"] validate_edges_fix [of "gc_downstream d" "[]"]
      validate_node_id_fix [of "gc_parent_system d"]
    by (auto simp: make_context_def bind_r_Inr_iff len_within_def split: if_splits)
qed

lemma coerce_extras_finite:
  "coerce_extras f extras acc = Inr out \<Longrightarrow> list_all (is_finite \<circ> snd) acc \<Longrightarrow> list_all (is_finite \<circ> snd) out"
proof (induction f extras acc arbitrary: out rule: coerce_extras.induct)
  case (2 f key v rest acc)
  obtain x where x: "coerce_channel f v = Inr x" using "2.prems" by (auto simp: bind_r_Inr_iff)
  have "is_finite x"
    using x by (auto simp: coerce_channel_def require_finite_def bind_r_Inr_iff
        split: channel_value.splits option.splits if_splits)
  then have "list_all (is_finite \<circ> snd) (AList.update (str_strip key) x acc)"
    using "2.prems"(2) by (induction acc) auto
  moreover have "coerce_extras f rest (AList.update (str_strip key) x acc) = Inr out" using "2.prems"(1) x by simp
  ultimately show ?case using "2.IH" by blast
qed simp

lemma make_snapshot_ok:
  "make_snapshot f a b c extras = Inr t \<Longrightarrow> channels t \<noteq> [] \<and> list_all (is_finite \<circ> snd) (ts_extra t)"
  by (auto simp: make_snapshot_def bind_r_Inr_iff Let_def split: if_splits dest!: coerce_extras_finite)

text \<open>What the payload that reaches the engine satisfies.\<close>

definition payload_wf :: "graph_payload \<Rightarrow> bool" where
  "payload_wf p \<longleftrightarrow>
     am_uuid (gp_asset p) \<noteq> [] \<and>
     list_all node_id_ok (gc_upstream (gp_context p)) \<and> list_all node_id_ok (gc_downstream (gp_context p)) \<and>
     distinct (am_uuid (gp_asset p) # gc_upstream (gp_context p) @ gc_downstream (gp_context p)) \<and>
     length (gc_upstream (gp_context p)) \<le> 64 \<and> length (gc_downstream (gp_context p)) \<le> 128 \<and>
     set (od_keys (gc_dependency_health (gp_context p))) \<subseteq> known_nodes p \<and>
     set (od_keys (attributed_channels (gp_telemetry p))) \<subseteq> known_nodes p \<and>
     list_all observation_ok (gc_replica_observations (gp_context p)) \<and>
     channels (gp_telemetry p) \<noteq> [] \<and> list_all (is_finite \<circ> snd) (ts_extra (gp_telemetry p))"

lemma make_payload_wf:
  assumes "make_payload f e t a c (v, te, co, ex) l d = Inr p"
  shows "payload_wf p"
proof -
  obtain asset ctx telemetry where m: "make_asset a = Inr asset" "make_context c = Inr ctx"
    "make_snapshot f v te co ex = Inr telemetry"
    "cross_check_topology \<lparr>gp_event_id = e, gp_timestamp = t, gp_asset = asset, gp_context = ctx,
       gp_telemetry = telemetry, gp_lamport_clock = l, gp_degraded = d\<rparr> = Inr p"
    using assms by (auto simp: make_payload_def bind_r_Inr_iff split: if_splits)
  have p: "p = \<lparr>gp_event_id = e, gp_timestamp = t, gp_asset = asset, gp_context = ctx,
       gp_telemetry = telemetry, gp_lamport_clock = l, gp_degraded = d\<rparr>"
    using m(4) by (auto simp: cross_check_topology_def Let_def split: if_splits)
  show ?thesis
    using m(4) make_asset_fix [OF m(1)] make_context_ok [OF m(2)] make_snapshot_ok [OF m(3)]
    by (auto simp: p payload_wf_def cross_check_topology_def Let_def split: if_splits)
qed

section \<open>Properties\<close>

text \<open>
  C20: An accepted payload is a well-formed localised graph.  The asset is not in its own dependency
  chain, no node is listed twice or on both sides of it, every edge is a valid node id, health and
  attributed telemetry speak of known nodes only, stamps are not negative, and there is at least one
  channel, of which the undeclared ones are finite.  Normalising what was accepted changes nothing.
\<close>
theorem accepted_payload_wf:
  "make_payload to_float e t a c (vib, temp, coll, extras) lamport degraded = Inr p \<Longrightarrow>
   payload_wf p \<and> canonical_identifier (am_uuid (gp_asset p)) = Inr (am_uuid (gp_asset p)) \<and>
   make_context (gp_context p) = Inr (gp_context p)"
proof -
  assume m: "make_payload to_float e t a c (vib, temp, coll, extras) lamport degraded = Inr p"
  then obtain asset ctx where ac: "make_asset a = Inr asset" "make_context c = Inr ctx"
    "gp_asset p = asset" "gp_context p = ctx"
    by (auto simp: make_payload_def bind_r_Inr_iff cross_check_topology_def Let_def split: if_splits)
  show ?thesis using make_payload_wf [OF m] make_asset_fix [OF ac(1)] make_context_fix [OF ac(2)] ac by simp
qed

text \<open>An engine fed by a pump, with one replica and one reading.\<close>

definition demo_asset :: asset_metadata where
  "demo_asset = \<lparr>am_uuid = ''engine-7'', am_name = ''Engine'', am_model_number = ''GX-40'', am_status = StAlarm\<rparr>"

definition demo_context :: graph_context where
  "demo_context =
     \<lparr>gc_parent_system = ''bay-1'', gc_physical_location = ''Hall A'', gc_upstream = [''pump-1'', ''tank-2'', ''pump-1''],
      gc_downstream = [''fan-3''], gc_assigned_operator = ''op-9'', gc_dependency_health = [(''tank-2'', StOffline)],
      gc_replica_observations = [\<lparr>ro_replica_id = ''r1'', ro_add_stamp = 4, ro_remove_stamp = 2\<rparr>],
      gc_criticality = [], gc_maintenance_window = None\<rparr>"

lemma demo_payload_made:
  "\<exists>p. make_payload (\<lambda>s. None) ''ev-1'' 0 demo_asset demo_context (Some (Fin 8), None, None, []) 0 False = Inr p \<and>
     gc_upstream (gp_context p) = [''pump-1'', ''tank-2'']"
proof -
  have a: "make_asset demo_asset = Inr demo_asset" by code_simp
  have c: "make_context demo_context = Inr (demo_context\<lparr>gc_upstream := [''pump-1'', ''tank-2'']\<rparr>)" by code_simp
  have t: "make_snapshot (\<lambda>s. None) (Some (Fin 8)) None None [] =
      Inr \<lparr>ts_vibration_index = Some (Fin 8), ts_temperature_celsius = None, ts_crdt_collision_rate = None, ts_extra = []\<rparr>"
    by (simp add: make_snapshot_def channels_def declared_channels_def)
  have x: "cross_check_topology
      \<lparr>gp_event_id = ''ev-1'', gp_timestamp = 0, gp_asset = demo_asset,
       gp_context = demo_context\<lparr>gc_upstream := [''pump-1'', ''tank-2'']\<rparr>,
       gp_telemetry = \<lparr>ts_vibration_index = Some (Fin 8), ts_temperature_celsius = None,
         ts_crdt_collision_rate = None, ts_extra = []\<rparr>, gp_lamport_clock = 0, gp_degraded = False\<rparr> =
      Inr \<lparr>gp_event_id = ''ev-1'', gp_timestamp = 0, gp_asset = demo_asset,
       gp_context = demo_context\<lparr>gc_upstream := [''pump-1'', ''tank-2'']\<rparr>,
       gp_telemetry = \<lparr>ts_vibration_index = Some (Fin 8), ts_temperature_celsius = None,
         ts_crdt_collision_rate = None, ts_extra = []\<rparr>, gp_lamport_clock = 0, gp_degraded = False\<rparr>"
    by (simp add: cross_check_topology_def known_nodes_def neighbour_ids_def attributed_channels_def channels_def
        declared_channels_def attribute_channel_def od_keys_def demo_asset_def demo_context_def)
  have l: "len_within 1 128 ''ev-1''" by (simp add: len_within_def)
  show ?thesis unfolding make_payload_def using l by (simp add: a c t x del: One_nat_def)
qed

theorem accepted_payload_wf_witness:
  "\<exists>p. make_payload (\<lambda>s. None) ''ev-1'' 0 demo_asset demo_context (Some (Fin 8), None, None, []) 0 False = Inr p \<and>
     payload_wf p"
  using demo_payload_made accepted_payload_wf by metis

end
