(* ===== verification/Graph_Crdt.thy ===== *)
theory Graph_Crdt
  imports Graph_Contracts "HOL-Library.Multiset"
begin

text \<open>
  The CRDT part of the topology kernel: the join of the replicas' Lamport timelines, the tie-breaker and
  the trust in the graph (resolve_crdt_presence in graphrag_interceptor.py).

  The float format \<open>%g\<close> is an argument.  Trust is exact up to the final rounding to three places.
\<close>

section \<open>The join\<close>

definition highest_stamp :: "(replica_observation \<Rightarrow> int) \<Rightarrow> replica_observation list \<Rightarrow> int" where
  "highest_stamp stamp os = Max (set (map stamp os))"

text \<open>Presence, the rule that decided a tie, and the reason, from the two highest stamps.\<close>

definition join_presence :: "int \<Rightarrow> int \<Rightarrow> bool \<Rightarrow> presence \<times> tie_breaker \<times> string" where
  "join_presence add remove live_downstream =
     (if add > remove then
        (Live, NotRequired,
         ''highest add stamp '' @ int_str add @ '' exceeds highest remove stamp '' @ int_str remove)
      else if remove > add then
        (Tombstoned, NotRequired,
         ''highest remove stamp '' @ int_str remove @ '' exceeds highest add stamp '' @ int_str add)
      else if add = 0 then (Unobserved, NotRequired, ''no replica has stamped this vertex'')
      else if live_downstream then
        (Live, AddWins,
         ''add and remove stamps tie at '' @ int_str add @
         ''; the vertex still feeds live downstream dependents, so add-wins keeps a physically present asset visible to operators'')
      else
        (Tombstoned, RemovedWins,
         ''add and remove stamps tie at '' @ int_str add @
         '' on a leaf vertex; removed-wins matches the replication core, and a later add can always resurrect it''))"

definition diverging_replicas :: "replica_observation list \<Rightarrow> presence \<Rightarrow> string list" where
  "diverging_replicas os p =
     sort (map ro_replica_id
             (filter (\<lambda>x. local_presence x \<noteq> Unobserved \<and> local_presence x \<noteq> p) os))"

section \<open>Trust\<close>

text \<open>
  The capped cost of the collision rate, as \<open>min(0.40, rate * 2.0)\<close> computes it.  A rate that is minus
  infinity, negative or not a number is refused with the assessment, whatever the trust comes to.
\<close>

fun rate_penalty :: "pyfloat \<Rightarrow> rat" where
  "rate_penalty (Fin x) = min (2/5) (x * 2)"
| "rate_penalty PInf = 2/5"
| "rate_penalty NaN = 2/5"
| "rate_penalty MInf = 0"

fun rate_positive :: "pyfloat \<Rightarrow> bool" where
  "rate_positive (Fin x) = (0 < x)"
| "rate_positive PInf = True"
| "rate_positive _ = False"

text \<open>The deductions, each with the note it leaves, in the order they are made.\<close>

definition deductions ::
    "(pyfloat \<Rightarrow> string) \<Rightarrow> bool \<Rightarrow> tie_breaker \<Rightarrow> string list \<Rightarrow> pyfloat \<Rightarrow> bool \<Rightarrow> (rat \<times> string) list" where
  "deductions fmt contested rule diverging rate retired_but_live =
     (if contested then [(1/4, ''stamp tie required a policy tie-breaker'')] else []) @
     (if rule = AddWins then [(1/10, ''topology overrode the default removed-wins policy'')] else []) @
     (if diverging \<noteq> [] then
        [(min (3/10) (1/10 * of_nat (length diverging)),
          int_str (int (length diverging)) @ '' replica(s) have not converged: '' @ str_join '', '' diverging)]
      else []) @
     (if rate_positive rate then [(rate_penalty rate, ''merge collision rate '' @ fmt rate)] else []) @
     (if retired_but_live then [(1/4, ''vertex is tombstoned but still emitting telemetry'')] else [])"

definition graph_trust :: "(rat \<times> string) list \<Rightarrow> rat" where
  "graph_trust ds = py_round (max 0 (min 1 (1 - sum_list (map fst ds)))) 3"

definition make_assessment :: "crdt_assessment \<Rightarrow> crdt_assessment raises" where
  "make_assessment a = (if assessment_ok a then Inr a else Inl ValidationErrorExn)"

definition resolve_crdt_presence ::
    "(pyfloat \<Rightarrow> string) \<Rightarrow> replica_observation list \<Rightarrow> bool \<Rightarrow> pyfloat \<Rightarrow> bool \<Rightarrow> crdt_assessment raises" where
  "resolve_crdt_presence fmt observations has_live_downstream collision_rate telemetry_is_live =
     (if observations = [] then
        make_assessment
          \<lparr>ca_presence = Unobserved, ca_tie_breaker = NotRequired, ca_contested = False, ca_highest_add = 0,
           ca_highest_remove = 0, ca_diverging = [], ca_collision_rate = collision_rate,
           ca_graph_trust = py_round (max 0 (7/10 - rate_penalty collision_rate)) 3,
           ca_explanation = ''No replica observations accompanied the mutation; vertex liveness is unverified. Treating the topology as provisional.''\<rparr>
      else
        (let add = highest_stamp ro_add_stamp observations;
             remove = highest_stamp ro_remove_stamp observations;
             contested = (add = remove \<and> add > 0);
             (presence, rule, reason) = join_presence add remove has_live_downstream;
             diverging = diverging_replicas observations presence;
             ds = deductions fmt contested rule diverging collision_rate (presence = Tombstoned \<and> telemetry_is_live)
         in make_assessment
              \<lparr>ca_presence = presence, ca_tie_breaker = rule, ca_contested = contested, ca_highest_add = add,
               ca_highest_remove = remove, ca_diverging = diverging, ca_collision_rate = collision_rate,
               ca_graph_trust = graph_trust ds,
               ca_explanation =
                 ''Vertex resolves '' @ presence_value presence @ '': '' @ reason @ ''.'' @
                 (if ds \<noteq> [] then '' Trust reduced by: '' @ str_join ''; '' (map snd ds) @ ''.'' else [])\<rparr>))"

section \<open>Lemmas\<close>

lemma join_presence_cases:
  "fst (join_presence a r d) = Live \<longleftrightarrow> r < a \<or> a = r \<and> a \<noteq> 0 \<and> d"
  "fst (join_presence a r d) = Tombstoned \<longleftrightarrow> a < r \<or> a = r \<and> a \<noteq> 0 \<and> \<not> d"
  "fst (join_presence a r d) = Unobserved \<longleftrightarrow> a = 0 \<and> r = 0"
  by (auto simp: join_presence_def)

lemma join_presence_rule:
  "fst (snd (join_presence a r d)) = (if a = r \<and> a \<noteq> 0 then (if d then AddWins else RemovedWins) else NotRequired)"
  by (auto simp: join_presence_def)

lemma make_assessment_Inr: "make_assessment a = Inr b \<longleftrightarrow> b = a \<and> assessment_ok a"
  by (auto simp: make_assessment_def)

text \<open>What an assessment records, for a non-empty list of observations.\<close>

lemma resolve_fields:
  assumes "resolve_crdt_presence fmt os d rate live = Inr a" "os \<noteq> []"
  defines "p \<equiv> fst (join_presence (highest_stamp ro_add_stamp os) (highest_stamp ro_remove_stamp os) d)"
  shows "ca_highest_add a = highest_stamp ro_add_stamp os \<and> ca_highest_remove a = highest_stamp ro_remove_stamp os \<and>
    ca_presence a = p \<and>
    ca_tie_breaker a = fst (snd (join_presence (ca_highest_add a) (ca_highest_remove a) d)) \<and>
    ca_contested a = (ca_highest_add a = ca_highest_remove a \<and> ca_highest_add a > 0) \<and>
    ca_diverging a = diverging_replicas os p \<and> ca_collision_rate a = rate \<and>
    ca_graph_trust a = graph_trust (deductions fmt (ca_contested a) (ca_tie_breaker a) (ca_diverging a) rate
       (p = Tombstoned \<and> live)) \<and> assessment_ok a"
  using assms
  by (auto simp: resolve_crdt_presence_def make_assessment_Inr Let_def case_prod_beta)

lemma resolve_ok: "resolve_crdt_presence fmt os d rate live = Inr a \<Longrightarrow> assessment_ok a"
  by (cases "os = []") (auto simp: resolve_crdt_presence_def make_assessment_Inr Let_def case_prod_beta)

lemma resolve_empty_fields:
  "resolve_crdt_presence fmt [] d rate live = Inr a \<Longrightarrow>
   ca_presence a = Unobserved \<and> ca_tie_breaker a = NotRequired \<and> \<not> ca_contested a \<and> assessment_ok a \<and>
   ca_graph_trust a = py_round (max 0 (7/10 - rate_penalty rate)) 3"
  by (auto simp: resolve_crdt_presence_def make_assessment_Inr)

lemma highest_stamp_append:
  "xs \<noteq> [] \<Longrightarrow> ys \<noteq> [] \<Longrightarrow> highest_stamp f (xs @ ys) = max (highest_stamp f xs) (highest_stamp f ys)"
  by (simp add: highest_stamp_def Max_Un)




text \<open>Rounding to three places is monotone, and exact on multiples of a thousandth.\<close>

lemma round_half_even_mono: "x \<le> y \<Longrightarrow> round_half_even x \<le> round_half_even y"
proof -
  assume a: "x \<le> y"
  have f: "\<lfloor>x\<rfloor> \<le> \<lfloor>y\<rfloor>" using a by (rule floor_mono)
  show ?thesis
  proof (cases "\<lfloor>x\<rfloor> = \<lfloor>y\<rfloor>")
    case True
    then show ?thesis using a by (auto simp: round_half_even_def Let_def)
  next
    case False
    then have "\<lfloor>x\<rfloor> + 1 \<le> \<lfloor>y\<rfloor>" using f by simp
    then show ?thesis by (auto simp: round_half_even_def Let_def)
  qed
qed

lemma py_round_mono: "x \<le> y \<Longrightarrow> py_round x n \<le> py_round y n"
proof -
  assume "x \<le> y"
  then have "round_half_even (x * 10 ^ n) \<le> round_half_even (y * 10 ^ n)"
    by (intro round_half_even_mono mult_right_mono) simp_all
  then show ?thesis by (simp add: py_round_def divide_right_mono)
qed

lemma py_round_thousandth: "py_round (of_int k / 1000) 3 = of_int k / 1000"
  by (simp add: py_round_def)

lemma graph_trust_le: "1 - sum_list (map fst ds) \<le> of_int k / 1000 \<Longrightarrow> 0 \<le> k \<Longrightarrow> graph_trust ds \<le> of_int k / 1000"
proof -
  assume "1 - sum_list (map fst ds) \<le> of_int k / 1000" "0 \<le> k"
  then have "max 0 (min 1 (1 - sum_list (map fst ds))) \<le> of_int k / 1000"
    by (intro max.boundedI min.coboundedI2) simp_all
  from py_round_mono [OF this, of 3] show ?thesis by (simp add: graph_trust_def py_round_thousandth)
qed

lemma graph_trust_ge: "of_int k / 1000 \<le> 1 - sum_list (map fst ds) \<Longrightarrow> k \<le> 1000 \<Longrightarrow> of_int k / 1000 \<le> graph_trust ds"
proof -
  assume a: "of_int k / 1000 \<le> 1 - sum_list (map fst ds)" "k \<le> 1000"
  have "of_int k / 1000 \<le> (1 :: rat)" using a(2) by simp
  then have "of_int k / 1000 \<le> max 0 (min 1 (1 - sum_list (map fst ds)))"
    using a(1) by (intro max.coboundedI2 min.boundedI)
  from py_round_mono [OF this, of 3] show ?thesis by (simp add: graph_trust_def py_round_thousandth)
qed

lemma deductions_nonneg: "rate_nonneg rate \<Longrightarrow> \<forall>x \<in> set (deductions fmt c r dv rate t). 0 \<le> fst x"
  by (cases rate) (auto simp: deductions_def)

lemma sum_deductions:
  "sum_list (map fst (deductions fmt c r dv rate t)) =
     (if c then 1/4 else 0) + (if r = AddWins then 1/10 else 0) +
     (if dv \<noteq> [] then min (3/10) (1/10 * of_nat (length dv)) else 0) +
     (if rate_positive rate then rate_penalty rate else 0) + (if t then 1/4 else 0)"
  by (simp add: deductions_def)

lemma rate_penalty_nonneg: "rate_positive rate \<Longrightarrow> 0 \<le> rate_penalty rate"
  by (cases rate) simp_all

text \<open>When the highest stamps tie and adds win, the replica with the highest remove stamp disagrees.\<close>

lemma add_wins_diverges:
  assumes "os \<noteq> []" "highest_stamp ro_add_stamp os = highest_stamp ro_remove_stamp os"
    "highest_stamp ro_add_stamp os \<noteq> 0"
  shows "diverging_replicas os Live \<noteq> []"
proof -
  let ?m = "highest_stamp ro_remove_stamp os"
  have "?m \<in> ro_remove_stamp ` set os" unfolding highest_stamp_def using assms(1) by (simp add: Max_in flip: set_map)
  then obtain x where x: "x \<in> set os" "ro_remove_stamp x = ?m" by auto
  have "ro_add_stamp x \<le> highest_stamp ro_add_stamp os" using x(1) by (simp add: highest_stamp_def)
  then have "local_presence x = Tombstoned" using x assms(2,3) by (auto simp: local_presence_def)
  then have "x \<in> set (filter (\<lambda>x. local_presence x \<noteq> Unobserved \<and> local_presence x \<noteq> Live) os)" using x(1) by simp
  then have "ro_replica_id x \<in> set (diverging_replicas os Live)" by (simp add: diverging_replicas_def)
  then show ?thesis by (metis empty_iff empty_set)
qed



section \<open>Properties\<close>


text \<open>
  Trust is a number between zero and one, and every doubt costs: at most 0.7 without observations,
  0.75 when the stamps tie, 0.75 when a retired vertex still reports, and at most 0.55 when the topology
  overrides the default policy, since then some replica has not converged either.
\<close>
theorem trust_costs:
  "resolve_crdt_presence fmt os d rate live = Inr a \<Longrightarrow>
   0 \<le> ca_graph_trust a \<and> ca_graph_trust a \<le> 1 \<and>
   (os = [] \<longrightarrow> ca_graph_trust a \<le> 7/10) \<and>
   (ca_contested a \<longrightarrow> ca_graph_trust a \<le> 3/4) \<and>
   (os \<noteq> [] \<and> ca_presence a = Tombstoned \<and> live \<longrightarrow> ca_graph_trust a \<le> 3/4) \<and>
   (ca_tie_breaker a = AddWins \<longrightarrow> ca_graph_trust a \<le> 11/20)"
proof (cases "os = []")
  case True
  assume r: "resolve_crdt_presence fmt os d rate live = Inr a"
  note f = resolve_empty_fields [OF r [unfolded True]]
  have "0 \<le> rate_penalty rate"
    using r True by (cases rate) (auto simp: resolve_crdt_presence_def make_assessment_Inr assessment_ok_def)
  then have "max 0 (7/10 - rate_penalty rate) \<le> of_int 700 / 1000" by (intro max.boundedI) simp_all
  from py_round_mono [OF this, of 3] have "ca_graph_trust a \<le> 7/10"
    unfolding py_round_thousandth using f by simp
  then show ?thesis using f True by (auto simp: assessment_ok_def)
next
  case False
  assume r: "resolve_crdt_presence fmt os d rate live = Inr a"
  note f = resolve_fields [OF r False]
  define ds where "ds = deductions fmt (ca_contested a) (ca_tie_breaker a) (ca_diverging a) rate
      (ca_presence a = Tombstoned \<and> live)"
  have t: "ca_graph_trust a = graph_trust ds" using f by (simp add: ds_def)
  obtain A B C D E where total: "sum_list (map fst ds) = A + B + C + D + E"
    and A: "A = (if ca_contested a then 1/4 else (0 :: rat))"
    and B: "B = (if ca_tie_breaker a = AddWins then 1/10 else (0 :: rat))"
    and C: "C = (if ca_diverging a \<noteq> [] then min (3/10) (1/10 * of_nat (length (ca_diverging a))) else (0 :: rat))"
    and D: "D = (if rate_positive rate then rate_penalty rate else 0)"
    and E: "E = (if ca_presence a = Tombstoned \<and> live then 1/4 else (0 :: rat))"
    unfolding ds_def sum_deductions by blast
  have pos: "0 \<le> A" "0 \<le> B" "0 \<le> C" "0 \<le> D" "0 \<le> E"
    unfolding A B C D E by (simp_all add: rate_penalty_nonneg)
  have le: "ca_graph_trust a \<le> of_int k / 1000" if "1 - (A + B + C + D + E) \<le> of_int k / 1000" "0 \<le> k" for k
    unfolding t using graph_trust_le [of ds k] that total by simp
  have c: "ca_contested a \<longrightarrow> ca_graph_trust a \<le> 3/4"
  proof
    assume "ca_contested a"
    then have "A = 1/4" by (simp add: A)
    then show "ca_graph_trust a \<le> 3/4" using le [of 750] pos by simp
  qed
  have d: "ca_presence a = Tombstoned \<and> live \<longrightarrow> ca_graph_trust a \<le> 3/4"
  proof
    assume "ca_presence a = Tombstoned \<and> live"
    then have "E = 1/4" by (simp add: E)
    then show "ca_graph_trust a \<le> 3/4" using le [of 750] pos by simp
  qed
  have w: "ca_tie_breaker a = AddWins \<longrightarrow> ca_graph_trust a \<le> 11/20"
  proof
    assume aw: "ca_tie_breaker a = AddWins"
    then have tie: "ca_highest_add a = ca_highest_remove a" "ca_highest_add a \<noteq> 0" "d"
      using f join_presence_rule [of "ca_highest_add a" "ca_highest_remove a" d] by (metis tie_breaker.distinct)+
    have nn: "0 \<le> ca_highest_add a" using f by (simp add: assessment_ok_def)
    have "ca_presence a = Live" using f tie join_presence_cases(1) by metis
    moreover have "ca_contested a" using f tie(1,2) nn by linarith
    moreover have "ca_diverging a \<noteq> []"
      using add_wins_diverges [OF False] tie f \<open>ca_presence a = Live\<close> by metis
    moreover have "1/10 \<le> min (3/10) (1/10 * (of_nat (length (ca_diverging a)) :: rat))"
      using \<open>ca_diverging a \<noteq> []\<close> by (cases "ca_diverging a") simp_all
    ultimately have "A = 1/4" "B = 1/10" "1/10 \<le> C" using aw by (simp_all add: A B C)
    then show "ca_graph_trust a \<le> 11/20" using le [of 550] pos by simp
  qed
  have "0 \<le> ca_graph_trust a" "ca_graph_trust a \<le> 1"
    using resolve_ok [OF r] unfolding assessment_ok_def by blast+
  then show ?thesis using c d w False by blast
qed

text \<open>
  Replicas that have not converged never block an irreversible action by themselves.  Without a tie,
  a collision rate or a retired vertex that reports, trust is at least 0.7 however many of the replicas
  disagree with the joined state, and the default threshold is 0.65.
\<close>
theorem divergence_alone_keeps_trust:
  "resolve_crdt_presence fmt os d (Fin 0) live = Inr a \<Longrightarrow> os \<noteq> [] \<Longrightarrow> \<not> ca_contested a \<Longrightarrow>
   \<not> (ca_presence a = Tombstoned \<and> live) \<Longrightarrow> 7/10 \<le> ca_graph_trust a"
proof -
  assume r: "resolve_crdt_presence fmt os d (Fin 0) live = Inr a" and ne: "os \<noteq> []"
    and c: "\<not> ca_contested a" and tl: "\<not> (ca_presence a = Tombstoned \<and> live)"
  note f = resolve_fields [OF r ne]
  have "0 \<le> ca_highest_add a" using resolve_ok [OF r] by (simp add: assessment_ok_def)
  then have "\<not> (ca_highest_add a = ca_highest_remove a \<and> ca_highest_add a \<noteq> 0)" using c f by linarith
  then have nr: "ca_tie_breaker a = NotRequired" using f join_presence_rule by metis
  have t: "ca_graph_trust a = graph_trust (deductions fmt False NotRequired (ca_diverging a) (Fin 0) False)"
    using f c nr tl by metis
  have "min (3/10) (1/10 * (of_nat (length (ca_diverging a)) :: rat)) \<le> 3/10" by (rule min.cobounded1)
  then have "of_int 700 / 1000 \<le> 1 - sum_list (map fst (deductions fmt False NotRequired (ca_diverging a) (Fin 0) False))"
    by (simp add: sum_deductions)
  from graph_trust_ge [OF this] show ?thesis by (simp add: t)
qed

section \<open>Witnesses\<close>

definition demo_obs :: "string \<Rightarrow> int \<Rightarrow> int \<Rightarrow> replica_observation" where
  "demo_obs r a b = \<lparr>ro_replica_id = r, ro_add_stamp = a, ro_remove_stamp = b\<rparr>"

text \<open>Two replicas of which one has not seen the other's add.\<close>

lemma demo_resolution:
  "\<exists>a. resolve_crdt_presence (\<lambda>x. ''0'') [demo_obs ''r1'' 5 2, demo_obs ''r2'' 1 2] False (Fin 0) True = Inr a \<and>
     ca_presence a = Live \<and> \<not> ca_contested a \<and> ca_highest_add a = 5 \<and> ca_highest_remove a = 2"
proof -
  have s: "\<lparr>ro_replica_id = ''r2'', ro_add_stamp = 1, ro_remove_stamp = 2\<rparr> \<noteq>
      \<lparr>ro_replica_id = ''r1'', ro_add_stamp = 5, ro_remove_stamp = 2\<rparr>" by simp
  have i: "int_str 5 = ''5''" "int_str 2 = ''2''" "int_str 1 = ''1''" by code_simp+
  show ?thesis
    by (simp add: resolve_crdt_presence_def make_assessment_def assessment_ok_def highest_stamp_def join_presence_def
        diverging_replicas_def local_presence_def deductions_def graph_trust_def demo_obs_def i len_within_def
        py_round_unit_bounds)
qed


theorem trust_costs_witness:
  "\<exists>a. resolve_crdt_presence (\<lambda>x. ''0'') [demo_obs ''r1'' 5 2, demo_obs ''r2'' 1 2] False (Fin 0) True = Inr a \<and>
     ca_graph_trust a \<le> 1"
  using demo_resolution trust_costs by blast

theorem divergence_alone_keeps_trust_witness:
  "\<exists>a. resolve_crdt_presence (\<lambda>x. ''0'') [demo_obs ''r1'' 5 2, demo_obs ''r2'' 1 2] False (Fin 0) True = Inr a \<and>
     7/10 \<le> ca_graph_trust a"
proof -
  obtain a where a: "resolve_crdt_presence (\<lambda>x. ''0'') [demo_obs ''r1'' 5 2, demo_obs ''r2'' 1 2] False (Fin 0) True = Inr a"
    "ca_presence a = Live" "\<not> ca_contested a"
    using demo_resolution by blast
  then show ?thesis using divergence_alone_keeps_trust [OF a(1)] by simp
qed

end
