(* ===== verification/Graph_Topology.thy ===== *)
theory Graph_Topology
  imports Graph_Crdt
begin

text \<open>
  The topology kernel of the GraphRAG interceptor: engineering limits, the upstream walk, classification,
  priority, recommended action and confidence (ChannelLimit, evaluate_channels, _node_is_faulted and
  analyse_topology in graphrag_interceptor.py).  It is pure; the float format is an argument.
\<close>

section \<open>Engineering limits\<close>

record channel_limit =
  lim_unit :: string
  lim_warn :: rat
  lim_critical :: rat
  lim_hard :: rat
  lim_physical :: bool

text \<open>Comparison of a reading with a limit; a reading that is not a number reaches none.\<close>

fun reaches :: "pyfloat \<Rightarrow> rat \<Rightarrow> bool" where
  "reaches (Fin x) l = (l \<le> x)"
| "reaches PInf l = True"
| "reaches MInf l = False"
| "reaches NaN l = False"

definition limit_band :: "channel_limit \<Rightarrow> pyfloat \<Rightarrow> band" where
  "limit_band l v =
     (if reaches v (lim_hard l) then BandHard
      else if reaches v (lim_critical l) then BandCritical
      else if reaches v (lim_warn l) then BandWarn
      else BandNominal)"

abbreviation limit :: "string \<Rightarrow> rat \<Rightarrow> rat \<Rightarrow> rat \<Rightarrow> bool \<Rightarrow> channel_limit" where
  "limit u w c h p \<equiv> \<lparr>lim_unit = u, lim_warn = w, lim_critical = c, lim_hard = h, lim_physical = p\<rparr>"

definition CHANNEL_LIMITS :: "(string \<times> channel_limit) list" where
  "CHANNEL_LIMITS =
     [(''vibration_index'', limit ''mm/s'' (9/2) 7 (19/2) True),
      (''temperature_celsius'', limit ''degC'' 85 110 130 True),
      (''pressure_bar'', limit ''bar'' 12 16 19 True),
      (''flow_deviation_pct'', limit ''%'' 8 18 30 True),
      (''rpm_deviation_pct'', limit ''%'' 5 12 20 True),
      (''current_draw_amps'', limit ''A'' 60 85 110 True),
      (''acoustic_emission_db'', limit ''dB'' 78 92 105 True),
      (''oil_particulate_ppm'', limit ''ppm'' 120 260 400 True),
      (''torque_nm'', limit ''N.m'' 320 420 500 True),
      (''differential_pressure_bar'', limit ''bar'' (3/2) (14/5) 4 True),
      (''crdt_collision_rate'', limit ''ratio'' (1/20) (3/20) (7/20) False),
      (''lamport_skew_ops'', limit ''ops'' 25 120 400 False),
      (''replica_lag_seconds'', limit ''s'' 30 300 1800 False)]"

record exceedance =
  ex_channel :: string
  ex_value :: pyfloat
  ex_band :: band
  ex_limit :: "channel_limit option"
  ex_node :: string

definition ex_physical :: "exceedance \<Rightarrow> bool" where
  "ex_physical e = (case ex_limit e of None \<Rightarrow> True | Some l \<Rightarrow> lim_physical l)"

definition describe :: "(pyfloat \<Rightarrow> string) \<Rightarrow> exceedance \<Rightarrow> string" where
  "describe fmt e =
     (case ex_limit e of
        None \<Rightarrow> ex_node e @ '':'' @ ex_channel e @ ''='' @ fmt (ex_value e) @ '' (no limit configured)''
      | Some l \<Rightarrow>
          ex_node e @ '':'' @ ex_channel e @ ''='' @ fmt (ex_value e) @ lim_unit l @ '' ['' @ band_value (ex_band e) @
          ''; warn '' @ fmt (Fin (lim_warn l)) @ '' / crit '' @ fmt (Fin (lim_critical l)) @
          '' / hard '' @ fmt (Fin (lim_hard l)) @ '']'')"

definition score_channel :: "string \<Rightarrow> string \<times> pyfloat \<Rightarrow> exceedance" where
  "score_channel node kv =
     (let l = map_of CHANNEL_LIMITS (fst kv) in
      \<lparr>ex_channel = fst kv, ex_value = snd kv,
       ex_band = (case l of None \<Rightarrow> BandUnknown | Some l' \<Rightarrow> limit_band l' (snd kv)),
       ex_limit = l, ex_node = node\<rparr>)"

definition severity_key :: "exceedance \<Rightarrow> int \<times> string" where
  "severity_key e = (- int (band_rank (ex_band e)), ex_channel e)"

definition evaluate_channels :: "(string, pyfloat) odict \<Rightarrow> string \<Rightarrow> exceedance list" where
  "evaluate_channels cs node = sort_key severity_key (map (score_channel node) cs)"

definition worst_band :: "exceedance list \<Rightarrow> band" where
  "worst_band es =
     fold (\<lambda>e worst. if band_rank (ex_band e) > band_rank worst then ex_band e else worst) es BandNominal"

section \<open>The upstream walk\<close>

definition node_is_faulted ::
    "(pyfloat \<Rightarrow> string) \<Rightarrow> string \<Rightarrow> (string, asset_status) odict \<Rightarrow> (string, (string, pyfloat) odict) odict
      \<Rightarrow> bool \<times> string list" where
  "node_is_faulted fmt node health attributed =
     (let by_status = (case map_of health node of
                         Some s \<Rightarrow> if is_faulted s then [node @ '' reports status '' @ status_value s] else []
                       | None \<Rightarrow> []);
          by_channels = (case map_of attributed node of
                           Some cs \<Rightarrow>
                             [describe fmt e. e \<leftarrow> evaluate_channels cs node,
                                ex_physical e \<and> band_rank (ex_band e) \<ge> band_rank BandCritical]
                         | None \<Rightarrow> []);
          reasons = by_status @ by_channels
      in (reasons \<noteq> [], reasons))"

text \<open>The faulted nodes of a chain, nearest first, and the evidence they leave.\<close>

fun walk_upstream :: "(string \<Rightarrow> bool \<times> string list) \<Rightarrow> string list \<Rightarrow> string list \<times> string list" where
  "walk_upstream faulted [] = ([], [])"
| "walk_upstream faulted (node # nodes) =
     (let (verdict, reasons) = faulted node; (rest, evidence) = walk_upstream faulted nodes
      in (if verdict then (node # rest, reasons @ evidence) else (rest, evidence)))"

definition cascade_path_to :: "string list \<Rightarrow> string \<Rightarrow> string \<Rightarrow> string list" where
  "cascade_path_to upstream origin asset =
     rev (take (Suc (length (takeWhile (\<lambda>n. n \<noteq> origin) upstream))) upstream) @ [asset]"

section \<open>Verdict, priority, action, confidence\<close>

record graph_settings =
  set_max_attempts :: nat
  set_retry_backoff :: rat
  set_timeout_seconds :: rat
  set_max_isolation_steps :: nat
  set_min_graph_trust :: rat
  set_retrieval_top_k :: nat

definition classify ::
    "(pyfloat \<Rightarrow> string) \<Rightarrow> string \<Rightarrow> string list \<Rightarrow> string list \<Rightarrow> exceedance list \<Rightarrow> band \<Rightarrow> band \<Rightarrow> bool
      \<Rightarrow> fault_class \<times> string list \<times> string \<times> string" where
  "classify fmt asset upstream faulted physical severity integrity untrusted =
     (if faulted \<noteq> [] then
        (let origin = last faulted; path = cascade_path_to upstream origin asset
         in (InheritedCascade, path, origin,
             ''cascade traced '' @ str_join '' -> '' path @ ''; intervening nodes are symptomatic, not causal''))
      else if band_rank severity \<ge> band_rank BandWarn then
        (LocalizedComponent, [], asset,
         ''no upstream node is faulting; the breach is contained to '' @ asset @ '' ('' @
         (let text = str_join '', '' [describe fmt e. e \<leftarrow> physical, band_rank (ex_band e) \<ge> 1]
          in if text = [] then ''nominal'' else text) @ '')'')
      else if band_rank integrity \<ge> band_rank BandWarn \<or> untrusted then
        (Indeterminate, [], asset,
         ''no physical limit is breached, but the replicated topology is not trustworthy; attribution cannot be completed from this payload'')
      else
        (NoFaultDetected, [], asset, ''all channels nominal and the topology has converged''))"

definition derive_priority :: "fault_class \<Rightarrow> band \<Rightarrow> bool \<Rightarrow> bool \<Rightarrow> graph_priority" where
  "derive_priority class severity wide_blast alarming =
     (let hard = band_rank severity \<ge> band_rank BandHard;
          critical = band_rank severity \<ge> band_rank BandCritical;
          local_fault = band_rank severity \<ge> band_rank BandWarn
      in if hard \<or> critical \<and> (wide_blast \<or> alarming) then GpCritical
         else if critical \<or> class = InheritedCascade \<and> local_fault then GpHigh
         else if local_fault \<or> class = Indeterminate then (if wide_blast then GpHigh else GpRoutine)
         else GpRoutine)"

definition derive_irreversible :: "bool \<Rightarrow> presence \<Rightarrow> bool \<Rightarrow> bool" where
  "derive_irreversible untrusted p telemetry_is_live \<longleftrightarrow>
     \<not> untrusted \<and> p \<noteq> Unobserved \<and> \<not> (p = Tombstoned \<and> telemetry_is_live)"

definition derive_action :: "fault_class \<Rightarrow> band \<Rightarrow> graph_priority \<Rightarrow> bool \<Rightarrow> graph_action" where
  "derive_action class severity priority permitted =
     (if class = Indeterminate \<or> \<not> permitted then DegradeThrottle
      else if band_rank severity \<ge> band_rank BandHard \<and> priority = GpCritical then EmergencyShutdown
      else if class \<in> {LocalizedComponent, InheritedCascade} \<and> priority \<in> {GpCritical, GpHigh} then IsolateValve
      else DegradeThrottle)"

definition derive_confidence :: "fault_class \<Rightarrow> bool \<Rightarrow> bool \<Rightarrow> bool \<Rightarrow> rat \<Rightarrow> rat" where
  "derive_confidence class degraded unobserved no_health trust =
     (let c = 9/10 - (if class = Indeterminate then 35/100 else 0) - (if degraded then 15/100 else 0)
              - (if unobserved then 1/10 else 0) - (if class = InheritedCascade \<and> no_health then 1/10 else 0)
      in py_round (max (1/20) (min 1 (c * (6/10 + 4/10 * trust)))) 3)"

text \<open>The keys of a dictionary built from a list: each element once, at its first place.\<close>

fun first_of_each :: "'a list \<Rightarrow> 'a list \<Rightarrow> 'a list" where
  "first_of_each seen [] = []"
| "first_of_each seen (x # xs) =
     (if x \<in> set seen then first_of_each seen xs else x # first_of_each (x # seen) xs)"

record topology_analysis =
  ta_asset_id :: string
  ta_asset_name :: string
  ta_parent_system :: string
  ta_location :: string
  ta_known_nodes :: "string set"
  ta_upstream :: "string list"
  ta_downstream :: "string list"
  ta_faulted_upstream :: "string list"
  ta_cascade_path :: "string list"
  ta_class :: fault_class
  ta_root_cause :: string
  ta_localized :: "string list"
  ta_physical :: "exceedance list"
  ta_integrity :: "exceedance list"
  ta_severity :: band
  ta_crdt :: crdt_assessment
  ta_priority :: graph_priority
  ta_action :: graph_action
  ta_irreversible_permitted :: bool
  ta_confidence :: rat
  ta_evidence :: "string list"

text \<open>
  The analysis given the CRDT assessment, and the whole kernel: the assessment is the only part that can
  raise.
\<close>

definition analysis_of ::
    "(pyfloat \<Rightarrow> string) \<Rightarrow> graph_payload \<Rightarrow> graph_settings \<Rightarrow> crdt_assessment \<Rightarrow> topology_analysis" where
  "analysis_of fmt payload settings crdt =
     (let asset = gp_asset payload; ctx = gp_context payload; telemetry = gp_telemetry payload;
          local = local_channels telemetry;
          attributed = attributed_channels telemetry;
          scored = evaluate_channels local (am_uuid asset);
          physical = filter ex_physical scored;
          integrity = filter (\<lambda>e. \<not> ex_physical e) scored;
          severity = worst_band physical;
          integrity_band = worst_band integrity;
          (faulted, walk_evidence) =
            walk_upstream (\<lambda>n. node_is_faulted fmt n (gc_dependency_health ctx) attributed) (gc_upstream ctx);
          untrusted = ca_graph_trust crdt < set_min_graph_trust settings;
          (class, path, cause, reason) =
            classify fmt (am_uuid asset) (gc_upstream ctx) faulted physical severity integrity_band untrusted;
          priority = derive_priority class severity (3 \<le> length (gc_downstream ctx))
                       (am_status asset \<in> {StAlarm, StOffline});
          permitted = derive_irreversible untrusted (ca_presence crdt) (local \<noteq> []);
          confidence = derive_confidence class (gp_degraded payload) (gc_replica_observations ctx = [])
                         (gc_dependency_health ctx = []) (ca_graph_trust crdt);
          evidence = walk_evidence @ [reason, ca_explanation crdt] @ map (describe fmt) (take 6 physical) @
                     map (describe fmt) (take 3 integrity)
      in \<lparr>ta_asset_id = am_uuid asset, ta_asset_name = am_name asset,
          ta_parent_system = gc_parent_system ctx, ta_location = gc_physical_location ctx,
          ta_known_nodes = known_nodes payload, ta_upstream = gc_upstream ctx,
          ta_downstream = gc_downstream ctx, ta_faulted_upstream = faulted, ta_cascade_path = path,
          ta_class = class, ta_root_cause = cause,
          ta_localized = [ex_channel e. e \<leftarrow> physical, band_rank (ex_band e) \<ge> band_rank BandWarn],
          ta_physical = physical, ta_integrity = integrity, ta_severity = severity, ta_crdt = crdt,
          ta_priority = priority, ta_action = derive_action class severity priority permitted,
          ta_irreversible_permitted = permitted, ta_confidence = confidence,
          ta_evidence = first_of_each [] evidence\<rparr>)"

definition analyse_topology ::
    "(pyfloat \<Rightarrow> string) \<Rightarrow> graph_payload \<Rightarrow> graph_settings \<Rightarrow> topology_analysis raises" where
  "analyse_topology fmt payload settings =
     (let ctx = gp_context payload; telemetry = gp_telemetry payload;
          live_downstream = filter (\<lambda>n. map_of (gc_dependency_health ctx) n \<noteq> Some StOffline) (gc_downstream ctx)
      in bind_r (resolve_crdt_presence fmt (gc_replica_observations ctx) (live_downstream \<noteq> [])
                  (ts_get telemetry ''crdt_collision_rate'' (Fin 0)) (local_channels telemetry \<noteq> []))
           (\<lambda>crdt. Inr (analysis_of fmt payload settings crdt)))"

section \<open>Lemmas\<close>

lemma walk_upstream_filter: "fst (walk_upstream f ns) = filter (\<lambda>n. fst (f n)) ns"
  by (induction ns) (auto simp: case_prod_beta Let_def)

lemma mset_evaluate: "mset (evaluate_channels cs node) = mset (map (score_channel node) cs)"
  by (simp add: evaluate_channels_def)

lemma evaluate_sorted: "sorted (map severity_key (evaluate_channels cs node))"
  by (simp add: evaluate_channels_def)

lemma worst_band_reaches:
  assumes "0 < k"
  shows "k \<le> band_rank (worst_band es) \<longleftrightarrow> (\<exists>e \<in> set es. k \<le> band_rank (ex_band e))"
proof -
  have "k \<le> band_rank (fold (\<lambda>e worst. if band_rank (ex_band e) > band_rank worst then ex_band e else worst) es b) \<longleftrightarrow>
      k \<le> band_rank b \<or> (\<exists>e \<in> set es. k \<le> band_rank (ex_band e))" for b
    by (induction es arbitrary: b) auto
  then show ?thesis using assms by (simp add: worst_band_def)
qed

lemma last_filter:
  assumes "filter P xs \<noteq> []" "distinct xs"
  shows "\<exists>a b. xs = a @ last (filter P xs) # b \<and> P (last (filter P xs)) \<and> list_all (\<lambda>y. \<not> P y) b \<and>
    last (filter P xs) \<notin> set a"
proof -
  have "\<exists>x \<in> set xs. P x" using assms(1) by (auto simp: filter_empty_conv)
  then obtain a x b where ab: "xs = a @ x # b" "P x" "\<forall>y \<in> set b. \<not> P y"
    using split_list_last_prop by metis
  have "filter P b = []" using ab(3) by simp
  then have "last (filter P xs) = x" using ab(1,2) by simp
  then show ?thesis using ab assms(2) by (auto simp: list_all_iff)
qed

lemma cascade_path_split:
  assumes "n \<notin> set a"
  shows "cascade_path_to (a @ n # b) n asset = n # rev a @ [asset]"
proof -
  have "takeWhile (\<lambda>x. x \<noteq> n) (a @ n # b) = a" using assms by (induction a) auto
  then show ?thesis by (simp add: cascade_path_to_def)
qed

text \<open>The decisions of an analysis, read off the one equation that defines it.\<close>

definition local_scored :: "graph_payload \<Rightarrow> exceedance list" where
  "local_scored p = evaluate_channels (local_channels (gp_telemetry p)) (am_uuid (gp_asset p))"

definition upstream_faulted :: "(pyfloat \<Rightarrow> string) \<Rightarrow> graph_payload \<Rightarrow> string \<Rightarrow> bool" where
  "upstream_faulted fmt p n =
     fst (node_is_faulted fmt n (gc_dependency_health (gp_context p)) (attributed_channels (gp_telemetry p)))"

lemma analysis_of_fields:
  fixes fmt p s crdt
  defines "t \<equiv> analysis_of fmt p s crdt"
  shows "ta_asset_id t = am_uuid (gp_asset p)" "ta_known_nodes t = known_nodes p" "ta_crdt t = crdt"
    "ta_downstream t = gc_downstream (gp_context p)" "ta_upstream t = gc_upstream (gp_context p)"
    "ta_faulted_upstream t = filter (upstream_faulted fmt p) (gc_upstream (gp_context p))"
    "ta_physical t = filter ex_physical (local_scored p)" "ta_severity t = worst_band (ta_physical t)"
    "ta_priority t = derive_priority (ta_class t) (ta_severity t) (3 \<le> length (gc_downstream (gp_context p)))
       (am_status (gp_asset p) \<in> {StAlarm, StOffline})"
    "ta_irreversible_permitted t = derive_irreversible (ca_graph_trust crdt < set_min_graph_trust s)
       (ca_presence crdt) (local_channels (gp_telemetry p) \<noteq> [])"
    "ta_action t = derive_action (ta_class t) (ta_severity t) (ta_priority t) (ta_irreversible_permitted t)"
    "ta_confidence t = derive_confidence (ta_class t) (gp_degraded p) (gc_replica_observations (gp_context p) = [])
       (gc_dependency_health (gp_context p) = []) (ca_graph_trust crdt)"
  unfolding t_def analysis_of_def Let_def case_prod_beta
  by (simp_all add: local_scored_def upstream_faulted_def [abs_def] walk_upstream_filter)

lemma analysis_of_classify:
  fixes fmt p s crdt
  defines "t \<equiv> analysis_of fmt p s crdt"
  shows "classify fmt (am_uuid (gp_asset p)) (gc_upstream (gp_context p)) (ta_faulted_upstream t) (ta_physical t)
     (ta_severity t) (worst_band (filter (\<lambda>e. \<not> ex_physical e) (local_scored p)))
     (ca_graph_trust crdt < set_min_graph_trust s) = (c, path, cause, reason) \<Longrightarrow>
   ta_class t = c \<and> ta_cascade_path t = path \<and> ta_root_cause t = cause"
  unfolding t_def analysis_of_def Let_def case_prod_beta by (simp add: local_scored_def)

lemma analyse_topology_Inr:
  assumes "analyse_topology fmt p s = Inr t"
  obtains crdt where "t = analysis_of fmt p s crdt" "assessment_ok crdt"
    "gc_replica_observations (gp_context p) = [] \<Longrightarrow> ca_presence crdt = Unobserved"
proof -
  obtain crdt d r l where c: "resolve_crdt_presence fmt (gc_replica_observations (gp_context p)) d r l = Inr crdt"
    "t = analysis_of fmt p s crdt"
    using assms by (auto simp: analyse_topology_def Let_def bind_r_Inr_iff)
  then show thesis using that resolve_ok [OF c(1)] resolve_empty_fields by metis
qed

lemma classify_cascade:
  "faulted \<noteq> [] \<Longrightarrow> \<exists>reason. classify fmt a up faulted ph sev integ u =
     (InheritedCascade, cascade_path_to up (last faulted) a, last faulted, reason)"
  by (simp add: classify_def Let_def)

lemma classify_local:
  "\<exists>reason. classify fmt a up [] ph sev integ u =
     ((if band_rank sev \<ge> 1 then LocalizedComponent
       else if band_rank integ \<ge> 1 \<or> u then Indeterminate else NoFaultDetected), [], a, reason)"
  by (simp add: classify_def)

text \<open>Attribution, in the two cases.\<close>

lemma analysis_cascade:
  fixes fmt p s crdt
  assumes "\<exists>n \<in> set (gc_upstream (gp_context p)). upstream_faulted fmt p n" "distinct (gc_upstream (gp_context p))"
  defines "t \<equiv> analysis_of fmt p s crdt"
  shows "\<exists>near far. gc_upstream (gp_context p) = near @ ta_root_cause t # far \<and> ta_class t = InheritedCascade \<and>
    upstream_faulted fmt p (ta_root_cause t) \<and> list_all (\<lambda>n. \<not> upstream_faulted fmt p n) far \<and>
    ta_cascade_path t = ta_root_cause t # rev near @ [am_uuid (gp_asset p)]"
proof -
  let ?up = "gc_upstream (gp_context p)"
  let ?f = "filter (upstream_faulted fmt p) ?up"
  have ne: "?f \<noteq> []" using assms(1) by (auto simp: filter_empty_conv)
  obtain a b where ab: "?up = a @ last ?f # b" "upstream_faulted fmt p (last ?f)"
    "list_all (\<lambda>n. \<not> upstream_faulted fmt p n) b" "last ?f \<notin> set a"
    using last_filter [OF ne assms(2)] by blast
  have "ta_class t = InheritedCascade \<and> ta_cascade_path t = cascade_path_to ?up (last ?f) (am_uuid (gp_asset p)) \<and>
      ta_root_cause t = last ?f"
    using analysis_of_classify [of fmt p s crdt] classify_cascade [OF ne]
    unfolding t_def analysis_of_fields(6) by metis
  moreover have "cascade_path_to ?up (last ?f) (am_uuid (gp_asset p)) = last ?f # rev a @ [am_uuid (gp_asset p)]"
    using cascade_path_split [OF ab(4)] ab(1) by metis
  ultimately show ?thesis using ab by auto
qed

lemma analysis_no_cascade:
  fixes fmt p s crdt
  assumes "\<not> (\<exists>n \<in> set (gc_upstream (gp_context p)). upstream_faulted fmt p n)"
  defines "t \<equiv> analysis_of fmt p s crdt"
  shows "ta_root_cause t = am_uuid (gp_asset p) \<and> ta_cascade_path t = [] \<and>
    ta_class t = (if band_rank (ta_severity t) \<ge> 1 then LocalizedComponent
      else if band_rank (worst_band (filter (\<lambda>e. \<not> ex_physical e) (local_scored p))) \<ge> 1 \<or>
              ca_graph_trust crdt < set_min_graph_trust s then Indeterminate else NoFaultDetected)"
proof -
  have f: "ta_faulted_upstream t = []" using assms(1) by (simp add: t_def analysis_of_fields(6) filter_empty_conv)
  obtain reason where r: "classify fmt (am_uuid (gp_asset p)) (gc_upstream (gp_context p)) [] (ta_physical t)
      (ta_severity t) (worst_band (filter (\<lambda>e. \<not> ex_physical e) (local_scored p)))
      (ca_graph_trust crdt < set_min_graph_trust s) =
     ((if band_rank (ta_severity t) \<ge> 1 then LocalizedComponent
       else if band_rank (worst_band (filter (\<lambda>e. \<not> ex_physical e) (local_scored p))) \<ge> 1 \<or>
               ca_graph_trust crdt < set_min_graph_trust s then Indeterminate else NoFaultDetected),
      [], am_uuid (gp_asset p), reason)"
    using classify_local by blast
  show ?thesis using analysis_of_classify [of fmt p s crdt, folded t_def, unfolded f, OF r] by simp
qed

lemma analysis_class_cascade:
  "ta_class (analysis_of fmt p s crdt) = InheritedCascade \<longleftrightarrow>
     (\<exists>n \<in> set (gc_upstream (gp_context p)). upstream_faulted fmt p n)"
proof (cases "\<exists>n \<in> set (gc_upstream (gp_context p)). upstream_faulted fmt p n")
  case True
  then have "filter (upstream_faulted fmt p) (gc_upstream (gp_context p)) \<noteq> []" by (auto simp: filter_empty_conv)
  from classify_cascade [OF this] have "ta_class (analysis_of fmt p s crdt) = InheritedCascade"
    using analysis_of_classify [of fmt p s crdt] unfolding analysis_of_fields(6) by metis
  then show ?thesis using True by simp
next
  case False
  then show ?thesis using analysis_no_cascade [of p fmt s crdt] by simp
qed

section \<open>Properties\<close>

text \<open>
  C11: The fault is attributed to its origin.  The kernel reports an inherited cascade exactly when some
  upstream node is itself faulting; then the root cause is the furthest such node, and the cascade path
  runs from it through every node between it and the asset, each a known node and none twice.
  Otherwise the asset itself is the root cause and there is no path.
\<close>
theorem cascade_attribution:
  "analyse_topology fmt p s = Inr t \<Longrightarrow> payload_wf p \<Longrightarrow>
   (ta_class t = InheritedCascade \<longleftrightarrow> (\<exists>n \<in> set (gc_upstream (gp_context p)). upstream_faulted fmt p n)) \<and>
   (if ta_class t = InheritedCascade
    then \<exists>near far. gc_upstream (gp_context p) = near @ ta_root_cause t # far \<and>
           upstream_faulted fmt p (ta_root_cause t) \<and> list_all (\<lambda>n. \<not> upstream_faulted fmt p n) far \<and>
           ta_cascade_path t = ta_root_cause t # rev near @ [am_uuid (gp_asset p)]
    else ta_root_cause t = am_uuid (gp_asset p) \<and> ta_cascade_path t = []) \<and>
   distinct (ta_cascade_path t) \<and> set (ta_root_cause t # ta_cascade_path t) \<subseteq> ta_known_nodes t"
proof -
  assume a: "analyse_topology fmt p s = Inr t" and wf: "payload_wf p"
  obtain crdt where t: "t = analysis_of fmt p s crdt" using a by (rule analyse_topology_Inr)
  have d: "distinct (am_uuid (gp_asset p) # gc_upstream (gp_context p))" using wf by (simp add: payload_wf_def)
  show ?thesis
  proof (cases "\<exists>n \<in> set (gc_upstream (gp_context p)). upstream_faulted fmt p n")
    case True
    obtain near far where nf: "gc_upstream (gp_context p) = near @ ta_root_cause t # far"
      "ta_class t = InheritedCascade" "upstream_faulted fmt p (ta_root_cause t)"
      "list_all (\<lambda>n. \<not> upstream_faulted fmt p n) far"
      "ta_cascade_path t = ta_root_cause t # rev near @ [am_uuid (gp_asset p)]"
      using analysis_cascade [OF True, of s crdt] d unfolding t by auto
    have "distinct (ta_cascade_path t)" using d nf(1) by (auto simp: nf(5))
    moreover have "set (ta_root_cause t # ta_cascade_path t) \<subseteq> ta_known_nodes t"
    proof -
      have "ta_known_nodes t = known_nodes p" by (simp add: t analysis_of_fields(2))
      then show ?thesis using nf(1) by (auto simp: nf(5) known_nodes_def neighbour_ids_def)
    qed
    ultimately show ?thesis using nf True by auto
  next
    case False
    note n = analysis_no_cascade [OF False, of s crdt]
    then have "ta_class t \<noteq> InheritedCascade" by (simp add: t)
    then show ?thesis using n False by (simp add: t analysis_of_fields(2) known_nodes_def)
  qed
qed

text \<open>
  C5: An irreversible action is recommended exactly when some physical channel of the asset itself is at
  its hard limit and irreversible work is permitted; and it is permitted only on a graph of sufficient
  trust in which the vertex was observed, and is not a retired vertex that still reports.  The blast
  radius plays no part in it.
\<close>
theorem irreversible_only_when_trusted:
  "analyse_topology fmt p s = Inr t \<Longrightarrow>
   (ta_action t = EmergencyShutdown \<longleftrightarrow>
      ta_irreversible_permitted t \<and> (\<exists>e \<in> set (local_scored p). ex_physical e \<and> ex_band e = BandHard)) \<and>
   (ta_irreversible_permitted t \<longleftrightarrow>
      set_min_graph_trust s \<le> ca_graph_trust (ta_crdt t) \<and> ca_presence (ta_crdt t) \<noteq> Unobserved \<and>
      \<not> (ca_presence (ta_crdt t) = Tombstoned \<and> local_channels (gp_telemetry p) \<noteq> [])) \<and>
   (ta_irreversible_permitted t \<longrightarrow> gc_replica_observations (gp_context p) \<noteq> [])"
proof -
  assume a: "analyse_topology fmt p s = Inr t"
  obtain crdt where t: "t = analysis_of fmt p s crdt"
    and obs: "gc_replica_observations (gp_context p) = [] \<longrightarrow> ca_presence crdt = Unobserved"
    using analyse_topology_Inr [OF a] by metis
  have crdt: "ta_crdt t = crdt" by (simp add: t analysis_of_fields)
  have hard: "3 \<le> band_rank (ta_severity t) \<longleftrightarrow> (\<exists>e \<in> set (local_scored p). ex_physical e \<and> ex_band e = BandHard)"
  proof -
    have "3 \<le> band_rank b \<longleftrightarrow> b = BandHard" for b by (cases b) simp_all
    moreover have "ta_severity t = worst_band (filter ex_physical (local_scored p))"
      by (simp add: t analysis_of_fields(7,8))
    ultimately show ?thesis using worst_band_reaches [of 3 "filter ex_physical (local_scored p)"] by auto
  qed
  have cls: "3 \<le> band_rank (ta_severity t) \<Longrightarrow> ta_class t \<noteq> Indeterminate"
  proof (cases "\<exists>n \<in> set (gc_upstream (gp_context p)). upstream_faulted fmt p n")
    case True
    then show ?thesis using analysis_class_cascade [of fmt p s crdt] by (simp add: t)
  next
    case False
    assume "3 \<le> band_rank (ta_severity t)"
    then show ?thesis using analysis_no_cascade [OF False, of s crdt] by (simp add: t)
  qed
  have perm: "ta_irreversible_permitted t \<longleftrightarrow>
      set_min_graph_trust s \<le> ca_graph_trust crdt \<and> ca_presence crdt \<noteq> Unobserved \<and>
      \<not> (ca_presence crdt = Tombstoned \<and> local_channels (gp_telemetry p) \<noteq> [])"
    by (auto simp: t analysis_of_fields(10) derive_irreversible_def)
  have prio: "3 \<le> band_rank (ta_severity t) \<Longrightarrow> ta_priority t = GpCritical"
    unfolding t analysis_of_fields(9) by (simp add: derive_priority_def)
  have "ta_action t = derive_action (ta_class t) (ta_severity t) (ta_priority t) (ta_irreversible_permitted t)"
    unfolding t by (rule analysis_of_fields(11))
  then have act: "ta_action t = EmergencyShutdown \<longleftrightarrow> ta_irreversible_permitted t \<and> 3 \<le> band_rank (ta_severity t)"
    using cls prio by (auto simp: derive_action_def)
  show ?thesis using act hard perm obs crdt by auto
qed

text \<open>
  Scoring neither loses nor invents a channel, lists the worst first and channels of the same rank
  by name, and the severity of a list is the highest rank in it.
\<close>
theorem scoring_is_complete:
  "mset (map (\<lambda>e. (ex_channel e, ex_value e)) (evaluate_channels cs node)) = mset cs \<and>
   sorted (map severity_key (evaluate_channels cs node)) \<and>
   (\<forall>k > 0. k \<le> band_rank (worst_band es) \<longleftrightarrow> (\<exists>e \<in> set es. k \<le> band_rank (ex_band e)))"
proof -
  have "map (\<lambda>e. (ex_channel e, ex_value e)) (map (score_channel node) cs) = cs"
    by (induction cs) (simp_all add: score_channel_def Let_def)
  then have "image_mset (\<lambda>e. (ex_channel e, ex_value e)) (mset (map (score_channel node) cs)) = mset cs"
    by (metis mset_map)
  then have "mset (map (\<lambda>e. (ex_channel e, ex_value e)) (evaluate_channels cs node)) = mset cs"
    by (simp only: mset_map mset_evaluate)
  then show ?thesis using evaluate_sorted worst_band_reaches by blast
qed

text \<open>
  The longest cascade the inbound contract admits does not fit the outbound one.  With 64 upstream
  nodes of which the furthest is faulting, the kernel's own cascade path has 65 nodes, and no verdict
  that cites it is valid.
\<close>
theorem longest_cascade_overflows:
  "analyse_topology fmt p s = Inr t \<Longrightarrow> payload_wf p \<Longrightarrow> length (gc_upstream (gp_context p)) = 64 \<Longrightarrow>
   upstream_faulted fmt p (last (gc_upstream (gp_context p))) \<Longrightarrow>
   length (ta_cascade_path t) = 65 \<and> (\<forall>v. iv_cascade_path v = ta_cascade_path t \<longrightarrow> \<not> verdict_ok v)"
proof -
  assume a: "analyse_topology fmt p s = Inr t" and wf: "payload_wf p"
    and n: "length (gc_upstream (gp_context p)) = 64"
    and f: "upstream_faulted fmt p (last (gc_upstream (gp_context p)))"
  obtain crdt where t: "t = analysis_of fmt p s crdt" using a by (rule analyse_topology_Inr)
  have ne: "gc_upstream (gp_context p) \<noteq> []" using n by auto
  have ex: "\<exists>n \<in> set (gc_upstream (gp_context p)). upstream_faulted fmt p n" using f ne by (metis last_in_set)
  obtain near far where nf: "gc_upstream (gp_context p) = near @ ta_root_cause t # far"
    "list_all (\<lambda>n. \<not> upstream_faulted fmt p n) far"
    "ta_cascade_path t = ta_root_cause t # rev near @ [am_uuid (gp_asset p)]"
    using analysis_cascade [OF ex, of s crdt] wf unfolding t payload_wf_def by auto
  have "far = []"
  proof (rule ccontr)
    assume "far \<noteq> []"
    then have "last (gc_upstream (gp_context p)) = last far" "last far \<in> set far" using nf(1) by simp_all
    then show False using f nf(2) by (auto simp: list_all_iff)
  qed
  then have "length (ta_cascade_path t) = 65" using nf(1,3) n by simp
  then show ?thesis by (auto simp: verdict_ok_def len_within_def)
qed

text \<open>
  A reading that is not a number looks healthy.  The snapshot validator refuses it on an undeclared
  channel but accepts it on a declared one, and every limit then scores it nominal, while an infinite
  reading is at the hard limit.
\<close>
theorem nan_reading_is_nominal:
  "limit_band l NaN = BandNominal \<and> limit_band l PInf = BandHard \<and>
   (\<exists>t. make_snapshot to_float (Some NaN) None None [] = Inr t \<and>
      local_scored (p\<lparr>gp_telemetry := t\<rparr>) =
        [\<lparr>ex_channel = ''vibration_index'', ex_value = NaN, ex_band = BandNominal,
          ex_limit = map_of CHANNEL_LIMITS ''vibration_index'', ex_node = am_uuid (gp_asset p)\<rparr>]) \<and>
   make_snapshot to_float None None None [(name, ChFloat NaN)] = Inl ValidationErrorExn"
proof -
  have b: "limit_band l NaN = BandNominal" "limit_band l PInf = BandHard" for l
    by (simp_all add: limit_band_def)
  let ?t = "\<lparr>ts_vibration_index = Some NaN, ts_temperature_celsius = None, ts_crdt_collision_rate = None, ts_extra = []\<rparr>"
  have c: "channels ?t = [(''vibration_index'', NaN)]" by (simp add: channels_def declared_channels_def)
  have m: "make_snapshot to_float (Some NaN) None None [] = Inr ?t"
    using c by (simp add: make_snapshot_def)
  have lim: "map_of CHANNEL_LIMITS ''vibration_index'' = Some (limit ''mm/s'' (9/2) 7 (19/2) True)"
    by (simp add: CHANNEL_LIMITS_def)
  have loc: "local_channels ?t = [(''vibration_index'', NaN)]"
    unfolding local_channels_def c by simp
  have "local_scored (p\<lparr>gp_telemetry := ?t\<rparr>) = [score_channel (am_uuid (gp_asset p)) (''vibration_index'', NaN)]"
    by (simp add: local_scored_def loc evaluate_channels_def)
  also have "\<dots> = [\<lparr>ex_channel = ''vibration_index'', ex_value = NaN, ex_band = BandNominal,
          ex_limit = map_of CHANNEL_LIMITS ''vibration_index'', ex_node = am_uuid (gp_asset p)\<rparr>]"
    using lim by (simp add: score_channel_def b)
  finally show ?thesis
    using b m by (auto simp: make_snapshot_def coerce_channel_def require_finite_def)
qed

section \<open>Witnesses\<close>

definition demo_payload :: "string list \<Rightarrow> pyfloat \<Rightarrow> graph_payload" where
  "demo_payload upstream vibration =
     \<lparr>gp_event_id = ''ev-1'', gp_timestamp = 0, gp_asset = demo_asset,
      gp_context = demo_context\<lparr>gc_upstream := upstream, gc_dependency_health := [(last upstream, StOffline)]\<rparr>,
      gp_telemetry = \<lparr>ts_vibration_index = Some vibration, ts_temperature_celsius = None,
        ts_crdt_collision_rate = None, ts_extra = []\<rparr>, gp_lamport_clock = 0, gp_degraded = False\<rparr>"

definition demo_graph_settings :: graph_settings where
  "demo_graph_settings =
     \<lparr>set_max_attempts = 3, set_retry_backoff = 2/5, set_timeout_seconds = 30, set_max_isolation_steps = 12,
      set_min_graph_trust = 13/20, set_retrieval_top_k = 4\<rparr>"

lemma demo_channels:
  "channels (gp_telemetry (demo_payload up v)) = [(''vibration_index'', v)]"
  "local_channels (gp_telemetry (demo_payload up v)) = [(''vibration_index'', v)]"
  "attributed_channels (gp_telemetry (demo_payload up v)) = []"
  by (simp_all add: demo_payload_def channels_def declared_channels_def local_channels_def attributed_channels_def
      attribute_channel_def)

lemma demo_assessed:
  "\<exists>a. resolve_crdt_presence fmt (gc_replica_observations demo_context) d (Fin 0) live = Inr a \<and>
     ca_graph_trust a = 1 \<and> ca_presence a = Live"
proof -
  have i: "int_str 4 = ''4''" "int_str 2 = ''2''" by code_simp+
  let ?o = "[\<lparr>ro_replica_id = ''r1'', ro_add_stamp = 4, ro_remove_stamp = 2\<rparr>]"
  have obs: "gc_replica_observations demo_context = ?o" by (simp add: demo_context_def)
  have h: "highest_stamp ro_add_stamp ?o = 4" "highest_stamp ro_remove_stamp ?o = 2"
    by (simp_all add: highest_stamp_def)
  have j: "join_presence 4 2 d = (Live, NotRequired, ''highest add stamp 4 exceeds highest remove stamp 2'')"
    by (simp add: join_presence_def i)
  have dv: "diverging_replicas ?o Live = []" by (simp add: diverging_replicas_def local_presence_def)
  have ds: "deductions fmt False NotRequired [] (Fin 0) False = []" by (simp add: deductions_def)
  have tr: "graph_trust [] = 1" using py_round_thousandth [of 1000] by (simp add: graph_trust_def)
  have eq: "resolve_crdt_presence fmt ?o d (Fin 0) live = make_assessment
      \<lparr>ca_presence = Live, ca_tie_breaker = NotRequired, ca_contested = False, ca_highest_add = 4,
       ca_highest_remove = 2, ca_diverging = [], ca_collision_rate = Fin 0, ca_graph_trust = 1,
       ca_explanation = ''Vertex resolves LIVE: highest add stamp 4 exceeds highest remove stamp 2.''\<rparr>"
    unfolding resolve_crdt_presence_def Let_def h j by (simp add: dv ds tr)
  show ?thesis unfolding obs eq make_assessment_def by (simp add: assessment_ok_def len_within_def)
qed

lemma demo_analysed: "\<exists>t. analyse_topology fmt (demo_payload up v) s = Inr t \<and> ca_graph_trust (ta_crdt t) = 1 \<and>
    ca_presence (ta_crdt t) = Live"
proof -
  have g: "ts_get (gp_telemetry (demo_payload up v)) ''crdt_collision_rate'' (Fin 0) = Fin 0"
    by (simp add: ts_get_def demo_channels)
  have r: "gc_replica_observations (gp_context (demo_payload up v)) = gc_replica_observations demo_context"
    by (simp add: demo_payload_def)
  obtain a where a: "resolve_crdt_presence fmt (gc_replica_observations demo_context)
      (filter (\<lambda>n. map_of (gc_dependency_health (gp_context (demo_payload up v))) n \<noteq> Some StOffline)
        (gc_downstream (gp_context (demo_payload up v))) \<noteq> []) (Fin 0)
      (local_channels (gp_telemetry (demo_payload up v)) \<noteq> []) = Inr a" "ca_graph_trust a = 1" "ca_presence a = Live"
    using demo_assessed by blast
  then have "analyse_topology fmt (demo_payload up v) s = Inr (analysis_of fmt (demo_payload up v) s a)"
    unfolding analyse_topology_def Let_def g r by simp
  then show ?thesis using a(2,3) analysis_of_fields(3) by metis
qed

lemma demo_faulted: "upstream_faulted fmt (demo_payload up v) n \<longleftrightarrow> n = last up"
  unfolding upstream_faulted_def node_is_faulted_def demo_channels
  by (simp add: demo_payload_def is_faulted_def Let_def)

theorem cascade_attribution_witness:
  "\<exists>t. analyse_topology (\<lambda>x. []) (demo_payload [''pump-1'', ''tank-2''] (Fin 8)) demo_graph_settings = Inr t \<and>
     ta_class t = InheritedCascade \<and> ta_root_cause t \<in> ta_known_nodes t"
proof -
  obtain t where t: "analyse_topology (\<lambda>x. []) (demo_payload [''pump-1'', ''tank-2''] (Fin 8)) demo_graph_settings = Inr t"
    using demo_analysed by blast
  have wf: "payload_wf (demo_payload [''pump-1'', ''tank-2''] (Fin 8))"
  proof -
    have "list_all node_id_ok [''pump-1'', ''tank-2'', ''fan-3'']" by code_simp
    then show ?thesis
      unfolding payload_wf_def demo_channels
      by (simp add: demo_payload_def demo_context_def demo_asset_def od_keys_def known_nodes_def neighbour_ids_def
          observation_ok_def len_within_def)
  qed
  show ?thesis
    using cascade_attribution [OF t wf] t by (auto simp: demo_faulted) (auto simp: demo_payload_def)
qed

theorem irreversible_only_when_trusted_witness:
  "\<exists>t. analyse_topology (\<lambda>x. []) (demo_payload [''pump-1'', ''tank-2''] (Fin 10)) demo_graph_settings = Inr t \<and>
     ta_action t = EmergencyShutdown"
proof -
  obtain t where t: "analyse_topology (\<lambda>x. []) (demo_payload [''pump-1'', ''tank-2''] (Fin 10)) demo_graph_settings = Inr t"
    "ca_graph_trust (ta_crdt t) = 1" "ca_presence (ta_crdt t) = Live"
    using demo_analysed by blast
  have "\<exists>e \<in> set (local_scored (demo_payload [''pump-1'', ''tank-2''] (Fin 10))). ex_physical e \<and> ex_band e = BandHard"
    unfolding local_scored_def demo_channels
    by (simp add: evaluate_channels_def score_channel_def CHANNEL_LIMITS_def limit_band_def ex_physical_def Let_def)
  then show ?thesis
    using irreversible_only_when_trusted [OF t(1)] t by (auto simp: demo_graph_settings_def)
qed

text \<open>Sixty-four distinct node ids of two letters.\<close>

definition long_chain :: "string list" where
  "long_chain = concat (map (\<lambda>a. map (\<lambda>b. [a, b]) ''abcdefgh'') ''abcdefgh'')"

lemma long_chain_facts: "distinct long_chain" "length long_chain = 64" "list_all node_id_ok long_chain"
  by code_simp+

theorem longest_cascade_overflows_witness:
  "\<exists>t. analyse_topology (\<lambda>x. []) (demo_payload long_chain (Fin 8)) demo_graph_settings = Inr t \<and>
     length (ta_cascade_path t) = 65"
proof -
  obtain t where t: "analyse_topology (\<lambda>x. []) (demo_payload long_chain (Fin 8)) demo_graph_settings = Inr t"
    using demo_analysed by blast
  have up: "gc_upstream (gp_context (demo_payload long_chain (Fin 8))) = long_chain" by (simp add: demo_payload_def)
  have n: "''engine-7'' \<notin> set long_chain" "''fan-3'' \<notin> set long_chain" "last long_chain \<in> set long_chain"
    by code_simp+
  have "list_all node_id_ok [''fan-3'']" by code_simp
  then have wf: "payload_wf (demo_payload long_chain (Fin 8))"
    unfolding payload_wf_def demo_channels up using long_chain_facts n
    by (simp add: demo_payload_def demo_context_def demo_asset_def od_keys_def known_nodes_def neighbour_ids_def
        observation_ok_def len_within_def)
  show ?thesis
    using longest_cascade_overflows [OF t wf] t long_chain_facts(2) by (simp add: up demo_faulted)
qed

theorem scoring_is_complete_witness:
  "mset (map (\<lambda>e. (ex_channel e, ex_value e))
     (evaluate_channels [(''flow_deviation_pct'', Fin 20), (''vibration_index'', Fin 8)] ''engine-7'')) =
     {#(''vibration_index'', Fin 8), (''flow_deviation_pct'', Fin 20)#} \<and>
   2 \<le> band_rank (worst_band [score_channel ''engine-7'' (''vibration_index'', Fin 8)])"
proof -
  have "ex_band (score_channel ''engine-7'' (''vibration_index'', Fin 8)) = BandCritical"
    by (simp add: score_channel_def CHANNEL_LIMITS_def limit_band_def)
  then show ?thesis
    using scoring_is_complete [of "[(''flow_deviation_pct'', Fin 20), (''vibration_index'', Fin 8)]" "''engine-7''"
        "[score_channel ''engine-7'' (''vibration_index'', Fin 8)]"] by simp
qed

end
