(* ===== verification/Graph_Engine.thy ===== *)
theory Graph_Engine
  imports Graph_Topology
begin

text \<open>
  The two-agent engine of the GraphRAG interceptor: one agent turn with its retries and validation, the
  checks of an answer against the graph, the safety guardrails and the response
  (MultiAgentGraphEngine and build_command_response in graphrag_interceptor.py).

  An agent is an environment: what its n-th turn gives.  What it is told (the briefing, the retrieved
  guidelines) does not appear, because every answer is allowed.
\<close>

section \<open>One agent turn\<close>

datatype emission = EmTimeout | EmRaised | EmRefused | EmAnswer json nat nat

datatype agent_error = AgentTimedOut | AgentInvalid | AgentRejected | AgentTransport | NoAttempt

record agent_trace =
  tr_agent :: string
  tr_attempts :: nat
  tr_input_tokens :: nat
  tr_output_tokens :: nat

text \<open>
  An attempt: the answer is parsed by the library (None when it does not have the shape of the model),
  then its constraints and the check against the graph apply.  A client may also refuse the turn itself
  (EmRefused), with the error that the graph check raises.
\<close>

definition attempt_turn ::
    "(json \<Rightarrow> 'a option) \<Rightarrow> ('a \<Rightarrow> bool) \<Rightarrow> ('a \<Rightarrow> bool) \<Rightarrow> emission \<Rightarrow> agent_error + ('a \<times> nat \<times> nat)" where
  "attempt_turn parse model_ok validate e =
     (case e of
        EmTimeout \<Rightarrow> Inl AgentTimedOut
      | EmRaised \<Rightarrow> Inl AgentTransport
      | EmRefused \<Rightarrow> Inl AgentRejected
      | EmAnswer payload i t \<Rightarrow>
          (case parse payload of
             None \<Rightarrow> Inl AgentInvalid
           | Some a \<Rightarrow>
               if \<not> model_ok a then Inl AgentInvalid
               else if \<not> validate a then Inl AgentRejected
               else Inr (a, i, t)))"

text \<open>
  The loop over the attempts, by the number of attempts left.  The second result is the time slept
  before each further attempt.
\<close>

fun invoke_from ::
    "string \<Rightarrow> (nat \<Rightarrow> agent_error + ('a \<times> nat \<times> nat)) \<Rightarrow> nat \<Rightarrow> rat \<Rightarrow> nat \<Rightarrow> agent_error
      \<Rightarrow> (agent_error + ('a \<times> agent_trace)) \<times> rat list" where
  "invoke_from agent turn max_attempts backoff 0 last_error = (Inl last_error, [])"
| "invoke_from agent turn max_attempts backoff (Suc n) last_error =
     (let attempt = max_attempts - n in
      case turn attempt of
        Inr (a, i, t) \<Rightarrow>
          (Inr (a, \<lparr>tr_agent = agent, tr_attempts = attempt, tr_input_tokens = i, tr_output_tokens = t\<rparr>), [])
      | Inl e \<Rightarrow>
          (let (result, sleeps) = invoke_from agent turn max_attempts backoff n e
           in (result,
               (if attempt < max_attempts \<and> backoff \<noteq> 0 then [backoff * of_nat attempt] else []) @ sleeps)))"

definition invoke ::
    "string \<Rightarrow> (nat \<Rightarrow> agent_error + ('a \<times> nat \<times> nat)) \<Rightarrow> graph_settings
      \<Rightarrow> (agent_error + ('a \<times> agent_trace)) \<times> rat list" where
  "invoke agent turn s =
     invoke_from agent turn (set_max_attempts s) (set_retry_backoff s) (set_max_attempts s) NoAttempt"

section \<open>Validation against the graph\<close>

definition validate_verdict :: "topology_analysis \<Rightarrow> isolation_verdict \<Rightarrow> bool" where
  "validate_verdict t v \<longleftrightarrow>
     set (iv_root_cause v # iv_cascade_path v @ iv_blast_radius v) \<subseteq> ta_known_nodes t \<and>
     \<not> (iv_fault v = InheritedCascade \<and> iv_cascade_path v = [])"

definition validate_plan :: "topology_analysis \<Rightarrow> strategic_plan \<Rightarrow> bool" where
  "validate_plan t p \<longleftrightarrow> set (sp_target p # map st_target (sp_steps p)) \<subseteq> ta_known_nodes t"

section \<open>The guardrails\<close>

datatype forced_reason = IrreversibleWork | CriticalPriority | LowTrust rat

datatype guardrail =
    TargetRedirected string string
  | Downgraded rat rat
  | StepsRemoved nat
  | RaisedToCritical
  | RaisedToHigh
  | StepsTruncated nat nat
  | HandoverAppended
  | AuthorizationForced forced_reason

definition untrusted :: "graph_settings \<Rightarrow> isolation_verdict \<Rightarrow> bool" where
  "untrusted s v \<longleftrightarrow> ca_graph_trust (iv_crdt v) < set_min_graph_trust s"

definition downgrades :: "graph_settings \<Rightarrow> isolation_verdict \<Rightarrow> graph_action \<Rightarrow> bool" where
  "downgrades s v action \<longleftrightarrow> irreversible_action action \<and> (\<not> iv_irreversible_permitted v \<or> untrusted s v)"

definition hold_step :: "string \<Rightarrow> isolation_step" where
  "hold_step node =
     \<lparr>st_sequence = 1, st_actor = ControlSystem,
      st_instruction = ''Hold '' @ node @
        '' at its documented safe-state setpoint and inhibit automatic recovery until the asset graph reconciles.'',
      st_target = node, st_verification = ''Setpoint reads safe-state and the recovery inhibit is latched.'',
      st_reversible = True, st_seconds = 120, st_manual = None\<rparr>"

definition handover_step :: "nat \<Rightarrow> string \<Rightarrow> isolation_step" where
  "handover_step n node =
     \<lparr>st_sequence = int n, st_actor = HumanSupervisor,
      st_instruction = ''Hand '' @ node @
        '' to the accountable operator with the recorded evidence and the agreed next action.'',
      st_target = node, st_verification = ''Handover acknowledged by the accountable operator.'',
      st_reversible = True, st_seconds = 180, st_manual = None\<rparr>"

definition retained_steps :: "graph_settings \<Rightarrow> isolation_verdict \<Rightarrow> strategic_plan \<Rightarrow> isolation_step list" where
  "retained_steps s v p =
     (if downgrades s v (sp_action p) then
        (let kept = filter st_reversible (sp_steps p) in if kept = [] then [hold_step (iv_root_cause v)] else kept)
      else sp_steps p)"

definition has_supervisor :: "isolation_step list \<Rightarrow> bool" where
  "has_supervisor steps \<longleftrightarrow> list_ex (\<lambda>t. st_actor t = HumanSupervisor) steps"

definition finish_steps :: "graph_settings \<Rightarrow> string \<Rightarrow> isolation_step list \<Rightarrow> isolation_step list" where
  "finish_steps s target steps =
     (let cut = take (set_max_isolation_steps s) steps
      in if cut \<noteq> [] \<and> \<not> has_supervisor cut then cut @ [handover_step (Suc (length cut)) target] else cut)"

definition renumber :: "isolation_step list \<Rightarrow> isolation_step list" where
  "renumber steps = map2 (\<lambda>i t. t\<lparr>st_sequence := int i\<rparr>) [1..<Suc (length steps)] steps"

definition final_action :: "graph_settings \<Rightarrow> isolation_verdict \<Rightarrow> strategic_plan \<Rightarrow> graph_action" where
  "final_action s v p = (if downgrades s v (sp_action p) then DegradeThrottle else sp_action p)"

text \<open>Priority after the third and the fourth rule, with the notes they leave.\<close>

definition raise_priority ::
    "graph_action \<Rightarrow> graph_priority \<Rightarrow> graph_priority \<Rightarrow> graph_priority \<times> guardrail list" where
  "raise_priority action scored priority =
     (let (p1, n1) = (if irreversible_action action \<and> priority \<noteq> GpCritical then (GpCritical, [RaisedToCritical])
                      else (priority, []))
      in if scored = GpCritical \<and> p1 = GpRoutine then (GpHigh, n1 @ [RaisedToHigh]) else (p1, n1))"

definition force_authorization ::
    "graph_settings \<Rightarrow> isolation_verdict \<Rightarrow> graph_action \<Rightarrow> graph_priority \<Rightarrow> isolation_step list \<Rightarrow> bool
      \<Rightarrow> forced_reason option" where
  "force_authorization s v action priority steps authorized =
     (if authorized then None
      else if irreversible_action action \<or> \<not> list_all st_reversible steps then Some IrreversibleWork
      else if priority = GpCritical then Some CriticalPriority
      else if untrusted s v then Some (LowTrust (ca_graph_trust (iv_crdt v)))
      else None)"

text \<open>The notes of the seven rules, in the order the code records them.\<close>

definition applied_guardrails ::
    "graph_settings \<Rightarrow> strategic_plan \<Rightarrow> isolation_verdict \<Rightarrow> topology_analysis \<Rightarrow> guardrail list" where
  "applied_guardrails s plan verdict analysis =
     (let target = iv_root_cause verdict;
          action = final_action s verdict plan;
          kept = retained_steps s verdict plan;
          dropped = length (sp_steps plan) - length (filter st_reversible (sp_steps plan));
          (priority, priority_notes) = raise_priority action (ta_priority analysis) (sp_priority plan);
          steps = finish_steps s target kept
      in (if sp_target plan \<noteq> target then [TargetRedirected (sp_target plan) target] else []) @
         (if downgrades s verdict (sp_action plan)
          then Downgraded (ca_graph_trust (iv_crdt verdict)) (set_min_graph_trust s) #
               (if dropped \<noteq> 0 then [StepsRemoved dropped] else [])
          else []) @
         priority_notes @
         (if length kept > set_max_isolation_steps s
          then [StepsTruncated (length kept) (set_max_isolation_steps s)] else []) @
         (if steps \<noteq> take (set_max_isolation_steps s) kept then [HandoverAppended] else []) @
         (case force_authorization s verdict action priority steps (sp_authorization plan) of
            None \<Rightarrow> [] | Some r \<Rightarrow> [AuthorizationForced r]))"

definition enforce_safety_invariants ::
    "graph_settings \<Rightarrow> strategic_plan \<Rightarrow> isolation_verdict \<Rightarrow> topology_analysis \<Rightarrow> strategic_plan \<times> guardrail list" where
  "enforce_safety_invariants s plan verdict analysis =
     (let action = final_action s verdict plan;
          priority = fst (raise_priority action (ta_priority analysis) (sp_priority plan));
          steps = finish_steps s (iv_root_cause verdict) (retained_steps s verdict plan);
          forced = force_authorization s verdict action priority steps (sp_authorization plan);
          applied = applied_guardrails s plan verdict analysis
      in if applied = [] then (plan, [])
         else (plan\<lparr>sp_target := iv_root_cause verdict, sp_action := action, sp_priority := priority,
                    sp_steps := renumber steps, sp_authorization := (sp_authorization plan \<or> forced \<noteq> None),
                    sp_confidence := py_round (max (1/20) (sp_confidence plan * (9/10))) 3\<rparr>, applied))"

section \<open>The engine and the response\<close>

record agent_env =
  ag_emit :: "string \<Rightarrow> nat \<Rightarrow> emission"
  ag_parse_verdict :: "json \<Rightarrow> isolation_verdict option"
  ag_parse_plan :: "json \<Rightarrow> strategic_plan option"
  ag_format :: "pyfloat \<Rightarrow> string"

record engine_outcome =
  eo_analysis :: topology_analysis
  eo_verdict :: isolation_verdict
  eo_plan :: strategic_plan
  eo_guardrails :: "guardrail list"
  eo_trace :: "agent_trace list"

datatype engine_error = KernelRaised py_exn | AgentFailed agent_error

definition AGENT_ONE :: string where "AGENT_ONE = ''topology_isolator''"

definition AGENT_TWO :: string where "AGENT_TWO = ''strategic_action_planner''"

definition run_topology_isolator ::
    "agent_env \<Rightarrow> graph_settings \<Rightarrow> topology_analysis \<Rightarrow> agent_error + (isolation_verdict \<times> agent_trace)" where
  "run_topology_isolator env s t =
     fst (invoke AGENT_ONE (\<lambda>k. attempt_turn (ag_parse_verdict env) verdict_ok (validate_verdict t) (ag_emit env AGENT_ONE k)) s)"

definition run_action_planner ::
    "agent_env \<Rightarrow> graph_settings \<Rightarrow> topology_analysis \<Rightarrow> agent_error + (strategic_plan \<times> agent_trace)" where
  "run_action_planner env s t =
     fst (invoke AGENT_TWO (\<lambda>k. attempt_turn (ag_parse_plan env) plan_ok (validate_plan t) (ag_emit env AGENT_TWO k)) s)"

definition run_engine :: "agent_env \<Rightarrow> graph_settings \<Rightarrow> graph_payload \<Rightarrow> engine_error + engine_outcome" where
  "run_engine env s payload =
     (case analyse_topology (ag_format env) payload s of
        Inl e \<Rightarrow> Inl (KernelRaised e)
      | Inr t \<Rightarrow>
          (case run_topology_isolator env s t of
             Inl e \<Rightarrow> Inl (AgentFailed e)
           | Inr (verdict, trace1) \<Rightarrow>
               (case run_action_planner env s t of
                  Inl e \<Rightarrow> Inl (AgentFailed e)
                | Inr (drafted, trace2) \<Rightarrow>
                    (let (plan, notes) = enforce_safety_invariants s drafted verdict t
                     in Inr \<lparr>eo_analysis = t, eo_verdict = verdict, eo_plan = plan, eo_guardrails = notes,
                             eo_trace = [trace1, trace2]\<rparr>))))"

record command_action =
  ac_command_id :: string
  ac_event_id :: string
  ac_tenant :: string
  ac_source_asset :: string
  ac_target :: string
  ac_action :: graph_action
  ac_priority :: graph_priority
  ac_steps :: "isolation_step list"
  ac_authorization :: bool
  ac_reversible :: bool
  ac_fault :: fault_class
  ac_cascade_path :: "string list"
  ac_blast_radius :: "string list"
  ac_protection :: "string list"
  ac_crdt :: crdt_assessment
  ac_confidence :: rat
  ac_rationale :: string
  ac_evidence :: "string list"
  ac_guardrails :: "guardrail list"
  ac_trace :: "agent_trace list"

text \<open>The command; its manual references, which come from retrieval, are not part of it here.\<close>

definition build_command :: "string \<Rightarrow> graph_payload \<Rightarrow> engine_outcome \<Rightarrow> string \<Rightarrow> command_action" where
  "build_command hex payload outcome tenant =
     (let plan = eo_plan outcome; verdict = eo_verdict outcome in
      \<lparr>ac_command_id = ''cmd_'' @ hex, ac_event_id = gp_event_id payload, ac_tenant = tenant,
       ac_source_asset = am_uuid (gp_asset payload), ac_target = sp_target plan, ac_action = sp_action plan,
       ac_priority = sp_priority plan, ac_steps = sp_steps plan, ac_authorization = sp_authorization plan,
       ac_reversible = (\<not> irreversible_action (sp_action plan) \<and> list_all st_reversible (sp_steps plan)),
       ac_fault = iv_fault verdict, ac_cascade_path = iv_cascade_path verdict,
       ac_blast_radius = iv_blast_radius verdict, ac_protection = sp_protection plan, ac_crdt = iv_crdt verdict, ac_confidence = sp_confidence plan,
       ac_rationale = str_strip (iv_rationale verdict @ '' '' @ sp_rationale plan), ac_evidence = iv_evidence verdict,
       ac_guardrails = eo_guardrails outcome, ac_trace = eo_trace outcome\<rparr>)"

section \<open>Lemmas\<close>

lemma contiguous_renumber: "contiguous (renumber steps)"
  unfolding contiguous_def renumber_def
  by (rule nth_equalityI) (auto simp del: upt_Suc)

lemma renumber_contiguous: "contiguous steps \<Longrightarrow> renumber steps = steps"
proof -
  assume c: "contiguous steps"
  show "renumber steps = steps"
  proof (rule nth_equalityI)
    show "length (renumber steps) = length steps" by (simp add: renumber_def del: upt_Suc)
  next
    fix i assume "i < length (renumber steps)"
    then have i: "i < length steps" by (simp add: renumber_def del: upt_Suc)
    then have "map st_sequence steps ! i = map int [1..<Suc (length steps)] ! i"
      using c by (simp add: contiguous_def del: upt_Suc)
    then have "st_sequence (steps ! i) = int (Suc i)" using i by (simp del: upt_Suc)
    then show "renumber steps ! i = steps ! i" using i by (simp add: renumber_def del: upt_Suc)
  qed
qed

lemma renumber_all:
  assumes "\<And>t i. P (t\<lparr>st_sequence := i\<rparr>) = P t"
  shows "list_all P (renumber steps) = list_all P steps"
  unfolding list_all_length renumber_def by (simp add: assms del: upt_Suc)

lemma renumber_length [simp]: "length (renumber steps) = length steps"
  by (simp add: renumber_def del: upt_Suc)

lemma renumber_any:
  assumes "\<And>t i. P (t\<lparr>st_sequence := i\<rparr>) = P t"
  shows "list_ex P (renumber steps) = list_ex P steps"
  using renumber_all [of "\<lambda>t. \<not> P t" steps] assms by (auto simp: list_all_iff list_ex_iff)

lemma renumber_supervisor [simp]: "has_supervisor (renumber steps) = has_supervisor steps"
  unfolding has_supervisor_def by (rule renumber_any) simp

lemma renumber_reversible [simp]: "list_all st_reversible (renumber steps) = list_all st_reversible steps"
  by (rule renumber_all) simp

lemma finish_steps_facts:
  assumes "steps \<noteq> []" "0 < set_max_isolation_steps s"
  shows "finish_steps s n steps \<noteq> []" "has_supervisor (finish_steps s n steps)"
    "length (finish_steps s n steps) \<le> Suc (set_max_isolation_steps s)"
    "length (finish_steps s n steps) \<le> Suc (length steps)"
    "list_all st_reversible steps \<Longrightarrow> list_all st_reversible (finish_steps s n steps)"
    "set (finish_steps s n steps) \<subseteq> set steps \<union> {handover_step (Suc (length (take (set_max_isolation_steps s) steps))) n}"
proof -
  have "list_all st_reversible steps \<Longrightarrow> list_all st_reversible (take k steps)" for k
    by (auto simp: list_all_iff dest: in_set_takeD)
  then show "list_all st_reversible steps \<Longrightarrow> list_all st_reversible (finish_steps s n steps)"
    by (auto simp: finish_steps_def handover_step_def Let_def)
  show "set (finish_steps s n steps) \<subseteq> set steps \<union> {handover_step (Suc (length (take (set_max_isolation_steps s) steps))) n}"
    by (auto simp: finish_steps_def Let_def dest: in_set_takeD)
qed (use assms in \<open>auto simp: finish_steps_def has_supervisor_def handover_step_def Let_def\<close>)

lemma no_guardrail:
  assumes "applied_guardrails s p v t = []" and c: "contiguous (sp_steps p)"
  shows "sp_target p = iv_root_cause v" "final_action s v p = sp_action p"
    "fst (raise_priority (sp_action p) (ta_priority t) (sp_priority p)) = sp_priority p"
    "renumber (finish_steps s (iv_root_cause v) (retained_steps s v p)) = sp_steps p"
    "force_authorization s v (sp_action p) (sp_priority p)
       (finish_steps s (iv_root_cause v) (retained_steps s v p)) (sp_authorization p) = None"
proof -
  obtain pr n1 where r: "raise_priority (final_action s v p) (ta_priority t) (sp_priority p) = (pr, n1)"
    by (meson surj_pair)
  note a = assms(1) [unfolded applied_guardrails_def Let_def r split_conv append_is_Nil_conv]
  show tgt: "sp_target p = iv_root_cause v" using a by (metis list.discI)
  have nd: "\<not> downgrades s v (sp_action p)" using a by (metis list.discI)
  then show act: "final_action s v p = sp_action p" by (simp add: final_action_def)
  have n1: "n1 = []" using a by blast
  then have prio: "pr = sp_priority p" using r by (auto simp: raise_priority_def split: if_splits)
  then show "fst (raise_priority (sp_action p) (ta_priority t) (sp_priority p)) = sp_priority p" using r act by simp
  have kept: "retained_steps s v p = sp_steps p" using nd by (simp add: retained_steps_def)
  have "\<not> set_max_isolation_steps s < length (sp_steps p)" using a kept by (metis list.discI)
  moreover have "finish_steps s (iv_root_cause v) (retained_steps s v p) = take (set_max_isolation_steps s) (sp_steps p)"
    using a kept by (metis list.discI)
  ultimately have "finish_steps s (iv_root_cause v) (retained_steps s v p) = sp_steps p" by simp
  then show "renumber (finish_steps s (iv_root_cause v) (retained_steps s v p)) = sp_steps p"
    using renumber_contiguous [OF c] by simp
  show "force_authorization s v (sp_action p) (sp_priority p)
       (finish_steps s (iv_root_cause v) (retained_steps s v p)) (sp_authorization p) = None"
    using a act prio by (auto split: option.splits)
qed

text \<open>Every rule at once: the corrected plan, whether or not a rule applied.\<close>

lemma enforce_fields:
  assumes e: "enforce_safety_invariants s p v t = (q, notes)" and c: "contiguous (sp_steps p)"
  shows "sp_target q = iv_root_cause v" "sp_action q = final_action s v p"
    "sp_priority q = fst (raise_priority (final_action s v p) (ta_priority t) (sp_priority p))"
    "sp_steps q = renumber (finish_steps s (iv_root_cause v) (retained_steps s v p))"
    "sp_authorization q \<longleftrightarrow> sp_authorization p \<or>
       force_authorization s v (sp_action q) (sp_priority q)
         (finish_steps s (iv_root_cause v) (retained_steps s v p)) (sp_authorization p) \<noteq> None"
    "notes = [] \<Longrightarrow> q = p"
proof -
  have "sp_target q = iv_root_cause v \<and> sp_action q = final_action s v p \<and>
    sp_priority q = fst (raise_priority (final_action s v p) (ta_priority t) (sp_priority p)) \<and>
    sp_steps q = renumber (finish_steps s (iv_root_cause v) (retained_steps s v p)) \<and>
    (sp_authorization q \<longleftrightarrow> sp_authorization p \<or>
       force_authorization s v (sp_action q) (sp_priority q)
         (finish_steps s (iv_root_cause v) (retained_steps s v p)) (sp_authorization p) \<noteq> None) \<and>
    (notes = [] \<longrightarrow> q = p)"
  proof (cases "applied_guardrails s p v t = []")
    case True
    then have "q = p" using e by (simp add: enforce_safety_invariants_def Let_def)
    then show ?thesis using no_guardrail [OF True c] by simp
  next
    case False
    then show ?thesis using e by (auto simp: enforce_safety_invariants_def Let_def)
  qed
  then show "sp_target q = iv_root_cause v" "sp_action q = final_action s v p"
    "sp_priority q = fst (raise_priority (final_action s v p) (ta_priority t) (sp_priority p))"
    "sp_steps q = renumber (finish_steps s (iv_root_cause v) (retained_steps s v p))"
    "sp_authorization q \<longleftrightarrow> sp_authorization p \<or>
       force_authorization s v (sp_action q) (sp_priority q)
         (finish_steps s (iv_root_cause v) (retained_steps s v p)) (sp_authorization p) \<noteq> None"
    "notes = [] \<Longrightarrow> q = p"
    by blast+
qed

lemma raise_priority_facts:
  "p \<le> fst (raise_priority a k p)"
  "irreversible_action a \<Longrightarrow> fst (raise_priority a k p) = GpCritical"
  "k = GpCritical \<Longrightarrow> GpHigh \<le> fst (raise_priority a k p)"
  by (cases p; auto simp: raise_priority_def Let_def less_eq_graph_priority_def)+

lemma retained_steps_facts:
  "sp_steps p \<noteq> [] \<Longrightarrow> retained_steps s v p \<noteq> []"
  "downgrades s v (sp_action p) \<Longrightarrow> list_all st_reversible (retained_steps s v p)"
  "set (retained_steps s v p) \<subseteq> set (sp_steps p) \<union> {hold_step (iv_root_cause v)}"
  by (auto simp: retained_steps_def hold_step_def Let_def list_all_iff)

lemma forced_facts:
  "force_authorization s v a p steps False \<noteq> None \<longleftrightarrow>
     irreversible_action a \<or> \<not> list_all st_reversible steps \<or> p = GpCritical \<or> untrusted s v"
  by (simp add: force_authorization_def)

text \<open>The loop over the attempts: the first acceptable answer, or the last error.\<close>

definition slept :: "rat \<Rightarrow> nat \<Rightarrow> nat \<Rightarrow> rat list" where
  "slept backoff a b = (if backoff = 0 then [] else map (\<lambda>j. backoff * of_nat j) [a..<b])"

lemma slept_Cons: "a < b \<Longrightarrow> (if backoff \<noteq> 0 then [backoff * of_nat a] else []) @ slept backoff (Suc a) b = slept backoff a b"
  by (simp add: slept_def upt_rec)

lemma invoke_from_outcome:
  assumes "n \<le> m"
  shows "(\<exists>k r i t. m - n < k \<and> k \<le> m \<and> turn k = Inr (r, i, t) \<and> (\<forall>j. m - n < j \<longrightarrow> j < k \<longrightarrow> isl (turn j)) \<and>
      invoke_from agent turn m b n e =
        (Inr (r, \<lparr>tr_agent = agent, tr_attempts = k, tr_input_tokens = i, tr_output_tokens = t\<rparr>), slept b (Suc (m - n)) k)) \<or>
    (\<forall>j. m - n < j \<longrightarrow> j \<le> m \<longrightarrow> isl (turn j)) \<and>
      invoke_from agent turn m b n e = (Inl (if n = 0 then e else projl (turn m)), slept b (Suc (m - n)) m)"
  using assms
proof (induction n arbitrary: e)
  case 0
  then show ?case by (auto simp: slept_def)
next
  case (Suc n)
  have eq: "m - n = Suc (m - Suc n)" using Suc.prems by simp
  have lt: "m - Suc n < j \<longleftrightarrow> j = m - n \<or> m - n < j" for j using eq by auto
  show ?case
  proof (cases "turn (m - n)")
    case (Inr x)
    obtain r i t where x: "x = (r, i, t)" by (cases x) auto
    have "slept b (Suc (m - Suc n)) (m - n) = []" by (simp add: eq slept_def)
    then show ?thesis using Inr x eq Suc.prems by (intro disjI1 exI [of _ "m - n"]) auto
  next
    case (Inl e1)
    have step: "invoke_from agent turn m b (Suc n) e =
        (fst (invoke_from agent turn m b n e1),
         (if m - n < m \<and> b \<noteq> 0 then [b * of_nat (m - n)] else []) @ snd (invoke_from agent turn m b n e1))"
      using Inl by (simp add: Let_def case_prod_beta)
    have ih: "(\<exists>k r i t. m - n < k \<and> k \<le> m \<and> turn k = Inr (r, i, t) \<and> (\<forall>j. m - n < j \<longrightarrow> j < k \<longrightarrow> isl (turn j)) \<and>
        invoke_from agent turn m b n e1 =
          (Inr (r, \<lparr>tr_agent = agent, tr_attempts = k, tr_input_tokens = i, tr_output_tokens = t\<rparr>), slept b (Suc (m - n)) k)) \<or>
      (\<forall>j. m - n < j \<longrightarrow> j \<le> m \<longrightarrow> isl (turn j)) \<and>
        invoke_from agent turn m b n e1 = (Inl (if n = 0 then e1 else projl (turn m)), slept b (Suc (m - n)) m)"
      using Suc.IH Suc.prems by simp
    then show ?thesis
    proof (elim disjE exE conjE)
      fix k r i t
      assume k: "m - n < k" "k \<le> m" "turn k = Inr (r, i, t)" "\<forall>j. m - n < j \<longrightarrow> j < k \<longrightarrow> isl (turn j)"
        and ih: "invoke_from agent turn m b n e1 =
          (Inr (r, \<lparr>tr_agent = agent, tr_attempts = k, tr_input_tokens = i, tr_output_tokens = t\<rparr>), slept b (Suc (m - n)) k)"
      have "invoke_from agent turn m b (Suc n) e =
          (Inr (r, \<lparr>tr_agent = agent, tr_attempts = k, tr_input_tokens = i, tr_output_tokens = t\<rparr>), slept b (Suc (m - Suc n)) k)"
        unfolding step ih using slept_Cons [OF k(1), of b] k(1,2) by (simp del: invoke_from.simps add: eq [symmetric])
      then show ?thesis using k Inl lt eq by (intro disjI1 exI [of _ k]) auto
    next
      assume l: "\<forall>j. m - n < j \<longrightarrow> j \<le> m \<longrightarrow> isl (turn j)"
        and ih: "invoke_from agent turn m b n e1 = (Inl (if n = 0 then e1 else projl (turn m)), slept b (Suc (m - n)) m)"
      have "(if m - n < m \<and> b \<noteq> 0 then [b * of_nat (m - n)] else []) @ slept b (Suc (m - n)) m = slept b (m - n) m"
      proof (cases "m - n < m")
        case True
        then show ?thesis using slept_Cons [OF True, of b] by simp
      qed (simp add: slept_def)
      then have "invoke_from agent turn m b (Suc n) e = (Inl (projl (turn m)), slept b (Suc (m - Suc n)) m)"
        unfolding step ih using Inl Suc.prems by (cases "n = 0") (simp_all del: invoke_from.simps add: eq [symmetric] slept_def)
      then show ?thesis using l Inl lt by (intro disjI2) auto
    qed
  qed
qed

lemma invoke_outcome:
  "(\<exists>k r i t. 1 \<le> k \<and> k \<le> set_max_attempts s \<and> turn k = Inr (r, i, t) \<and> (\<forall>j. 1 \<le> j \<longrightarrow> j < k \<longrightarrow> isl (turn j)) \<and>
      invoke agent turn s =
        (Inr (r, \<lparr>tr_agent = agent, tr_attempts = k, tr_input_tokens = i, tr_output_tokens = t\<rparr>),
         slept (set_retry_backoff s) 1 k)) \<or>
    (\<forall>j. 1 \<le> j \<longrightarrow> j \<le> set_max_attempts s \<longrightarrow> isl (turn j)) \<and>
      invoke agent turn s =
        (Inl (if set_max_attempts s = 0 then NoAttempt else projl (turn (set_max_attempts s))),
         slept (set_retry_backoff s) 1 (set_max_attempts s))"
  using invoke_from_outcome [of "set_max_attempts s" "set_max_attempts s" turn agent "set_retry_backoff s" NoAttempt]
  unfolding invoke_def by (simp add: Suc_le_eq del: invoke_from.simps)

lemma invoke_answers_iff:
  "\<not> isl (fst (invoke agent turn s)) \<longleftrightarrow> (\<exists>k. 1 \<le> k \<and> k \<le> set_max_attempts s \<and> \<not> isl (turn k))"
  using invoke_outcome [of s turn agent]
proof (elim disjE exE conjE)
  fix k r i t
  assume "1 \<le> k" "k \<le> set_max_attempts s" "turn k = Inr (r, i, t)" and eq: "invoke agent turn s =
        (Inr (r, \<lparr>tr_agent = agent, tr_attempts = k, tr_input_tokens = i, tr_output_tokens = t\<rparr>),
         slept (set_retry_backoff s) 1 k)"
  then have "\<not> isl (turn k)" "\<not> isl (fst (invoke agent turn s))" by simp_all
  then show ?thesis using \<open>1 \<le> k\<close> \<open>k \<le> set_max_attempts s\<close> by blast
next
  assume l: "\<forall>j. 1 \<le> j \<longrightarrow> j \<le> set_max_attempts s \<longrightarrow> isl (turn j)" and eq: "invoke agent turn s =
        (Inl (if set_max_attempts s = 0 then NoAttempt else projl (turn (set_max_attempts s))),
         slept (set_retry_backoff s) 1 (set_max_attempts s))"
  have "isl (fst (invoke agent turn s))" unfolding eq by simp
  then show ?thesis using l by blast
qed

lemma invoke_sound: "fst (invoke agent turn s) = Inr (r, tr) \<Longrightarrow> \<exists>k i t. turn k = Inr (r, i, t)"
  using invoke_outcome [of s turn agent] by (elim disjE exE conjE) auto

lemma attempt_turn_Inr:
  "attempt_turn parse ok val e = Inr (a, i, t) \<longleftrightarrow> (\<exists>j. e = EmAnswer j i t \<and> parse j = Some a \<and> ok a \<and> val a)"
  by (auto simp: attempt_turn_def split: emission.splits option.splits)

lemma isolator_sound:
  "run_topology_isolator env s t = Inr (v, tr) \<Longrightarrow> verdict_ok v \<and> validate_verdict t v"
  unfolding run_topology_isolator_def by (drule invoke_sound) (auto simp: attempt_turn_Inr)

lemma planner_sound:
  "run_action_planner env s t = Inr (p, tr) \<Longrightarrow> plan_ok p \<and> validate_plan t p"
  unfolding run_action_planner_def by (drule invoke_sound) (auto simp: attempt_turn_Inr)

lemma run_engine_Inr:
  assumes "run_engine env s payload = Inr out"
  obtains t v p tr1 tr2 where "analyse_topology (ag_format env) payload s = Inr t"
    "run_topology_isolator env s t = Inr (v, tr1)" "run_action_planner env s t = Inr (p, tr2)"
    "enforce_safety_invariants s p v t = (eo_plan out, eo_guardrails out)" "eo_verdict out = v" "eo_analysis out = t"
  using assms by (auto simp: run_engine_def Let_def split: sum.splits prod.splits)

lemma analysis_known_nodes:
  "analyse_topology fmt payload s = Inr t \<Longrightarrow> ta_known_nodes t = known_nodes payload"
  by (erule analyse_topology_Inr) (simp add: analysis_of_def Let_def split: prod.splits)

lemma enforced_targets:
  assumes "enforce_safety_invariants s p v t = (q, notes)" "contiguous (sp_steps p)" "sp_steps p \<noteq> []"
    "0 < set_max_isolation_steps s" "x \<in> set (sp_steps q)"
  shows "st_target x = iv_root_cause v \<or> st_target x \<in> st_target ` set (sp_steps p)"
proof -
  let ?f = "finish_steps s (iv_root_cause v) (retained_steps s v p)"
  have "list_all (\<lambda>y. st_target y = iv_root_cause v \<or> st_target y \<in> st_target ` set (sp_steps p)) ?f"
    using finish_steps_facts(6) [of "retained_steps s v p" s "iv_root_cause v"] retained_steps_facts(1,3) [where p = p and s = s and v = v] assms(3,4)
    by (fastforce simp: list_all_iff hold_step_def handover_step_def)
  then have "list_all (\<lambda>y. st_target y = iv_root_cause v \<or> st_target y \<in> st_target ` set (sp_steps p)) (sp_steps q)"
    unfolding enforce_fields(4) [OF assms(1,2)] by (subst renumber_all) simp_all
  then show ?thesis using assms(5) by (auto simp: list_all_iff)
qed

lemma enforced_guardrails:
  "enforce_safety_invariants s p v t = (q, notes) \<Longrightarrow> plan_ok p \<Longrightarrow> 0 < set_max_isolation_steps s \<Longrightarrow>
   sp_target q = iv_root_cause v \<and>
   (irreversible_action (sp_action q) \<longrightarrow>
      iv_irreversible_permitted v \<and> set_min_graph_trust s \<le> ca_graph_trust (iv_crdt v) \<and>
      sp_priority q = GpCritical \<and> sp_authorization q) \<and>
   (sp_action q \<noteq> sp_action p \<longrightarrow> sp_action q = DegradeThrottle \<and> list_all st_reversible (sp_steps q)) \<and>
   sp_priority p \<le> sp_priority q \<and> (ta_priority t = GpCritical \<longrightarrow> GpHigh \<le> sp_priority q) \<and>
   contiguous (sp_steps q) \<and> sp_steps q \<noteq> [] \<and> has_supervisor (sp_steps q) \<and>
   length (sp_steps q) \<le> Suc (set_max_isolation_steps s) \<and>
   (\<not> list_all st_reversible (sp_steps q) \<or> sp_priority q = GpCritical \<or> untrusted s v \<longrightarrow> sp_authorization q) \<and>
   (notes = [] \<longrightarrow> q = p)"
proof -
  assume e: "enforce_safety_invariants s p v t = (q, notes)" and ok: "plan_ok p"
    and m: "0 < set_max_isolation_steps s"
  have c: "contiguous (sp_steps p)" "sp_steps p \<noteq> []" using ok by (auto simp: plan_ok_def len_within_def)
  note f = enforce_fields [OF e c(1)]
  let ?k = "retained_steps s v p"
  let ?f = "finish_steps s (iv_root_cause v) ?k"
  have kept: "?k \<noteq> []" using retained_steps_facts(1) [OF c(2)] .
  note steps = finish_steps_facts [OF kept m, of "iv_root_cause v"]
  have auth: "irreversible_action (sp_action q) \<or> \<not> list_all st_reversible (sp_steps q) \<or>
      sp_priority q = GpCritical \<or> untrusted s v \<Longrightarrow> sp_authorization q"
    using forced_facts [of s v "sp_action q" "sp_priority q" ?f] by (auto simp: f(4,5))
  have irr: "irreversible_action (sp_action q) \<Longrightarrow> iv_irreversible_permitted v \<and> \<not> untrusted s v"
    by (auto simp: f(2) final_action_def downgrades_def irreversible_action_def split: if_splits)
  have down: "sp_action q \<noteq> sp_action p \<Longrightarrow> sp_action q = DegradeThrottle \<and> downgrades s v (sp_action p)"
    by (auto simp: f(2) final_action_def split: if_splits)
  have rev: "list_all st_reversible (sp_steps q)" if "sp_action q \<noteq> sp_action p"
    using down [OF that] retained_steps_facts(2) steps(5) by (simp add: f(4))
  have crit: "irreversible_action (sp_action q) \<Longrightarrow> sp_priority q = GpCritical"
    using raise_priority_facts(2) by (simp add: f(2,3))
  have ne: "sp_steps q \<noteq> []" using steps(1) renumber_length [of ?f] by (auto simp: f(4) simp del: renumber_length)
  have prio: "sp_priority p \<le> sp_priority q" "ta_priority t = GpCritical \<Longrightarrow> GpHigh \<le> sp_priority q"
    unfolding f(3) by (rule raise_priority_facts) (simp add: raise_priority_facts)
  have shape: "contiguous (sp_steps q)" "has_supervisor (sp_steps q)"
    "length (sp_steps q) \<le> Suc (set_max_isolation_steps s)"
    unfolding f(4) using steps(2,3) by (simp_all add: contiguous_renumber)
  show ?thesis using f(1,6) irr crit auth down rev prio shape ne by (auto simp: untrusted_def)
qed

lemma engine_returns:
  "\<not> isl (run_engine env s payload) \<longleftrightarrow>
   (\<exists>t. analyse_topology (ag_format env) payload s = Inr t \<and>
      (\<exists>k j i o' v. 1 \<le> k \<and> k \<le> set_max_attempts s \<and> ag_emit env AGENT_ONE k = EmAnswer j i o' \<and>
         ag_parse_verdict env j = Some v \<and> verdict_ok v \<and> validate_verdict t v) \<and>
      (\<exists>k j i o' p. 1 \<le> k \<and> k \<le> set_max_attempts s \<and> ag_emit env AGENT_TWO k = EmAnswer j i o' \<and>
         ag_parse_plan env j = Some p \<and> plan_ok p \<and> validate_plan t p))"
proof -
  have at: "\<not> isl (attempt_turn parse ok val e) \<longleftrightarrow> (\<exists>j i o' a. e = EmAnswer j i o' \<and> parse j = Some a \<and> ok a \<and> val a)"
    for parse :: "json \<Rightarrow> 'x option" and ok val e
    by (auto simp: attempt_turn_def split: emission.splits option.splits)
  have one: "\<not> isl (run_topology_isolator env s t) \<longleftrightarrow>
      (\<exists>k j i o' v. 1 \<le> k \<and> k \<le> set_max_attempts s \<and> ag_emit env AGENT_ONE k = EmAnswer j i o' \<and>
         ag_parse_verdict env j = Some v \<and> verdict_ok v \<and> validate_verdict t v)" for t
    unfolding run_topology_isolator_def invoke_answers_iff at by blast
  have two: "\<not> isl (run_action_planner env s t) \<longleftrightarrow>
      (\<exists>k j i o' p. 1 \<le> k \<and> k \<le> set_max_attempts s \<and> ag_emit env AGENT_TWO k = EmAnswer j i o' \<and>
         ag_parse_plan env j = Some p \<and> plan_ok p \<and> validate_plan t p)" for t
    unfolding run_action_planner_def invoke_answers_iff at by blast
  have "\<not> isl (run_engine env s payload) \<longleftrightarrow>
      (\<exists>t. analyse_topology (ag_format env) payload s = Inr t \<and> \<not> isl (run_topology_isolator env s t) \<and>
         \<not> isl (run_action_planner env s t))"
    by (auto simp: run_engine_def split: sum.splits prod.splits)
  then show ?thesis unfolding one two .
qed

section \<open>Properties\<close>

text \<open>
  C1: The guardrails hold whatever the planner drafted.  The command lands on the attributed root cause;
  an irreversible one is permitted by the verdict, made on a trusted graph, CRITICAL and authorised by a
  human; a downgraded one has reversible steps only; priority never falls, and is at least HIGH when the
  kernel scored CRITICAL; the steps are contiguous, not empty and hand over to a supervisor; irreversible
  steps, a CRITICAL priority and an untrusted graph each force human authorisation; and a plan on which
  no rule left a note is unchanged.
\<close>
theorem guardrails_hold:
  "enforce_safety_invariants s p v t = (q, notes) \<Longrightarrow> plan_ok p \<Longrightarrow> 0 < set_max_isolation_steps s \<Longrightarrow>
   sp_target q = iv_root_cause v \<and>
   (irreversible_action (sp_action q) \<longrightarrow>
      iv_irreversible_permitted v \<and> set_min_graph_trust s \<le> ca_graph_trust (iv_crdt v) \<and>
      sp_priority q = GpCritical \<and> sp_authorization q) \<and>
   (sp_action q \<noteq> sp_action p \<longrightarrow> sp_action q = DegradeThrottle \<and> list_all st_reversible (sp_steps q)) \<and>
   sp_priority p \<le> sp_priority q \<and> (ta_priority t = GpCritical \<longrightarrow> GpHigh \<le> sp_priority q) \<and>
   contiguous (sp_steps q) \<and> sp_steps q \<noteq> [] \<and> has_supervisor (sp_steps q) \<and>
   length (sp_steps q) \<le> Suc (set_max_isolation_steps s) \<and>
   (\<not> list_all st_reversible (sp_steps q) \<or> sp_priority q = GpCritical \<or> untrusted s v \<longrightarrow> sp_authorization q) \<and>
   (notes = [] \<longrightarrow> q = p)"
  by (rule enforced_guardrails)

text \<open>
  One pass of the guardrails is enough.  On a corrected plan within the step limit a second pass has
  nothing to note and changes nothing.
\<close>
theorem guardrails_settle:
  "enforce_safety_invariants s p v t = (q, notes) \<Longrightarrow> plan_ok p \<Longrightarrow> 0 < set_max_isolation_steps s \<Longrightarrow>
   length (sp_steps q) \<le> set_max_isolation_steps s \<Longrightarrow> enforce_safety_invariants s q v t = (q, [])"
proof -
  assume e: "enforce_safety_invariants s p v t = (q, notes)" and ok: "plan_ok p"
    and m: "0 < set_max_isolation_steps s" and len: "length (sp_steps q) \<le> set_max_isolation_steps s"
  have c: "contiguous (sp_steps p)" "sp_steps p \<noteq> []" using ok by (auto simp: plan_ok_def len_within_def)
  note f = enforce_fields [OF e c(1)]
  let ?f = "finish_steps s (iv_root_cause v) (retained_steps s v p)"
  have nd: "\<not> downgrades s v (sp_action q)"
    by (auto simp: f(2) final_action_def downgrades_def irreversible_action_def)
  then have act: "final_action s v q = sp_action q" and kept: "retained_steps s v q = sp_steps q"
    by (simp_all add: final_action_def retained_steps_def)
  have pr: "raise_priority (sp_action q) (ta_priority t) (sp_priority q) = (sp_priority q, [])"
    using raise_priority_facts(2) [of "sp_action q" "ta_priority t" "sp_priority p"]
      raise_priority_facts(3) [of "ta_priority t" "sp_action q" "sp_priority p"]
    by (auto simp: f(2,3) raise_priority_def less_eq_graph_priority_def)
  have sup: "has_supervisor (sp_steps q)"
    using finish_steps_facts(2) [OF retained_steps_facts(1) [OF c(2)] m] by (simp add: f(4))
  have fin: "finish_steps s (iv_root_cause v) (sp_steps q) = sp_steps q"
    using len sup by (simp add: finish_steps_def)
  have forced: "force_authorization s v (sp_action q) (sp_priority q) (sp_steps q) (sp_authorization q) = None"
  proof (cases "sp_authorization q")
    case False
    then have "force_authorization s v (sp_action q) (sp_priority q) ?f False = None" using f(5) by auto
    then show ?thesis using False forced_facts [of s v "sp_action q" "sp_priority q" ?f]
        forced_facts [of s v "sp_action q" "sp_priority q" "sp_steps q"] by (auto simp: f(4))
  qed (simp add: force_authorization_def)
  have "applied_guardrails s q v t = []"
    unfolding applied_guardrails_def Let_def act pr kept fin using nd len forced by (simp add: f(1))
  then show ?thesis by (simp add: enforce_safety_invariants_def)
qed

text \<open>
  The handover is appended after the truncation.  When the retained steps reach the limit and none
  of those within it is a supervisor's, the issued sequence has one step more than the configured limit.
\<close>
theorem handover_exceeds_limit:
  "enforce_safety_invariants s p v t = (q, notes) \<Longrightarrow> plan_ok p \<Longrightarrow> 0 < set_max_isolation_steps s \<Longrightarrow>
   set_max_isolation_steps s \<le> length (retained_steps s v p) \<Longrightarrow>
   \<not> has_supervisor (take (set_max_isolation_steps s) (retained_steps s v p)) \<Longrightarrow>
   length (sp_steps q) = Suc (set_max_isolation_steps s) \<and> HandoverAppended \<in> set notes"
proof -
  assume e: "enforce_safety_invariants s p v t = (q, notes)" and ok: "plan_ok p"
    and m: "0 < set_max_isolation_steps s" and n: "set_max_isolation_steps s \<le> length (retained_steps s v p)"
    and ns: "\<not> has_supervisor (take (set_max_isolation_steps s) (retained_steps s v p))"
  have c: "contiguous (sp_steps p)" using ok by (simp add: plan_ok_def)
  have ne: "take (set_max_isolation_steps s) (retained_steps s v p) \<noteq> []" using m n by auto
  have fin: "finish_steps s r (retained_steps s v p) =
      take (set_max_isolation_steps s) (retained_steps s v p) @
      [handover_step (Suc (set_max_isolation_steps s)) r]" for r
    using ne ns n by (simp add: finish_steps_def Let_def min_absorb2)
  obtain pr n1 where "raise_priority (final_action s v p) (ta_priority t) (sp_priority p) = (pr, n1)"
    by (meson surj_pair)
  then have "HandoverAppended \<in> set (applied_guardrails s p v t)"
    by (simp add: applied_guardrails_def Let_def fin)
  moreover have "notes = applied_guardrails s p v t"
    using e by (auto simp: enforce_safety_invariants_def Let_def split: if_splits)
  moreover have "length (sp_steps q) = Suc (set_max_isolation_steps s)"
    using enforce_fields(4) [OF e c] n by (simp add: fin min_absorb2)
  ultimately show ?thesis by simp
qed

text \<open>
  The guardrails trust the isolator's verdict, not the kernel.  Whatever the kernel derived, for
  each node of the graph there is a verdict on it that passes the schema and the graph check, and with
  it an emergency shutdown is issued.
\<close>
theorem verdict_overrides_kernel:
  "node \<in> ta_known_nodes t \<Longrightarrow> len_within 1 128 node \<Longrightarrow> set_min_graph_trust s \<le> 1 \<Longrightarrow>
   \<exists>v. verdict_ok v \<and> validate_verdict t v \<and> iv_root_cause v = node \<and>
     (\<forall>p. plan_ok p \<longrightarrow> sp_action p = EmergencyShutdown \<longrightarrow>
        sp_action (fst (enforce_safety_invariants s p v t)) = EmergencyShutdown)"
proof -
  assume n: "node \<in> ta_known_nodes t" "len_within 1 128 node" and m: "set_min_graph_trust s \<le> 1"
  define v where "v =
    \<lparr>iv_fault = LocalizedComponent, iv_root_cause = node, iv_rationale = ''r'', iv_cascade_path = [], iv_localized = [],
     iv_blast_radius = [], iv_severity = BandNominal,
     iv_crdt = \<lparr>ca_presence = Live, ca_tie_breaker = NotRequired, ca_contested = False, ca_highest_add = 0,
       ca_highest_remove = 0, ca_diverging = [], ca_collision_rate = Fin 0, ca_graph_trust = 1, ca_explanation = ''e''\<rparr>,
     iv_containment = EmergencyShutdown, iv_irreversible_permitted = True, iv_confidence = 1, iv_evidence = []\<rparr>"
  have "verdict_ok v" "validate_verdict t v" "iv_root_cause v = node"
    using n by (simp_all add: v_def verdict_ok_def validate_verdict_def assessment_ok_def len_within_def)
  moreover have "sp_action (fst (enforce_safety_invariants s p v t)) = EmergencyShutdown"
    if "plan_ok p" "sp_action p = EmergencyShutdown" for p
  proof -
    have "\<not> downgrades s v EmergencyShutdown" using m by (simp add: v_def downgrades_def untrusted_def)
    then show ?thesis using enforce_fields(2) [of s p v t] that
      by (metis final_action_def plan_ok_def prod.collapse)
  qed
  ultimately show ?thesis by blast
qed

text \<open>
  An agent turn returns the first acceptable answer among the configured attempts, with the number
  of the attempt on record, or, when there is none, the error of the last attempt; between attempts it
  sleeps a back-off proportional to the attempt's number, and never after the last.
\<close>
theorem agent_turn_outcome:
  "invoke agent turn s = (result, sleeps) \<Longrightarrow> 0 < set_max_attempts s \<Longrightarrow>
   (\<exists>k r i o'. 1 \<le> k \<and> k \<le> set_max_attempts s \<and> turn k = Inr (r, i, o') \<and>
      (\<forall>j. 1 \<le> j \<longrightarrow> j < k \<longrightarrow> isl (turn j)) \<and>
      result = Inr (r, \<lparr>tr_agent = agent, tr_attempts = k, tr_input_tokens = i, tr_output_tokens = o'\<rparr>) \<and>
      sleeps = slept (set_retry_backoff s) 1 k) \<or>
   (\<forall>j. 1 \<le> j \<longrightarrow> j \<le> set_max_attempts s \<longrightarrow> isl (turn j)) \<and>
      result = Inl (projl (turn (set_max_attempts s))) \<and>
      sleeps = slept (set_retry_backoff s) 1 (set_max_attempts s)"
  using invoke_outcome [of s turn agent] by (elim disjE exE conjE) auto

text \<open>
  C24: The engine answers exactly when the kernel does and each agent gives, within its attempts, an
  answer that parses, meets its schema and stays inside the graph.
\<close>
theorem engine_answers_iff:
  "\<not> isl (run_engine env s payload) \<longleftrightarrow>
   (\<exists>t. analyse_topology (ag_format env) payload s = Inr t \<and>
      (\<exists>k j i o' v. 1 \<le> k \<and> k \<le> set_max_attempts s \<and> ag_emit env AGENT_ONE k = EmAnswer j i o' \<and>
         ag_parse_verdict env j = Some v \<and> verdict_ok v \<and> validate_verdict t v) \<and>
      (\<exists>k j i o' p. 1 \<le> k \<and> k \<le> set_max_attempts s \<and> ag_emit env AGENT_TWO k = EmAnswer j i o' \<and>
         ag_parse_plan env j = Some p \<and> plan_ok p \<and> validate_plan t p))"
  by (rule engine_returns)

text \<open>
  C4: The issued command stays inside the payload's graph and says what it needs.  Its target and the
  target of every step are known nodes, as are the cascade and the blast radius it reports; a command
  that cannot be undone is marked so and requires authorisation; an emergency shutdown is CRITICAL and
  rests on the trust the command reports; and the steps are contiguous and end with a human owner among
  them.
\<close>
theorem command_grounded:
  "run_engine env s payload = Inr out \<Longrightarrow> build_command hex payload out tenant = c \<Longrightarrow>
   0 < set_max_isolation_steps s \<Longrightarrow>
   ac_target c \<in> known_nodes payload \<and> list_all (\<lambda>x. st_target x \<in> known_nodes payload) (ac_steps c) \<and>
   set (ac_cascade_path c) \<subseteq> known_nodes payload \<and> set (ac_blast_radius c) \<subseteq> known_nodes payload \<and>
   (\<not> ac_reversible c \<longrightarrow> ac_authorization c) \<and>
   (ac_action c = EmergencyShutdown \<longrightarrow>
      \<not> ac_reversible c \<and> ac_priority c = GpCritical \<and> set_min_graph_trust s \<le> ca_graph_trust (ac_crdt c)) \<and>
   contiguous (ac_steps c) \<and> has_supervisor (ac_steps c) \<and> ac_tenant c = tenant"
proof -
  assume r: "run_engine env s payload = Inr out" and c: "build_command hex payload out tenant = c"
    and m: "0 < set_max_isolation_steps s"
  obtain t v p tr1 tr2 where e: "analyse_topology (ag_format env) payload s = Inr t"
    "run_topology_isolator env s t = Inr (v, tr1)" "run_action_planner env s t = Inr (p, tr2)"
    "enforce_safety_invariants s p v t = (eo_plan out, eo_guardrails out)" "eo_verdict out = v"
    using r by (rule run_engine_Inr)
  have v: "set (iv_root_cause v # iv_cascade_path v @ iv_blast_radius v) \<subseteq> known_nodes payload"
    using isolator_sound [OF e(2)] analysis_known_nodes [OF e(1)] unfolding validate_verdict_def by blast
  have p: "plan_ok p" "st_target ` set (sp_steps p) \<subseteq> known_nodes payload"
    using planner_sound [OF e(3)] analysis_known_nodes [OF e(1)] unfolding validate_plan_def by auto
  have ps: "contiguous (sp_steps p)" "sp_steps p \<noteq> []" using p(1) by (auto simp: plan_ok_def len_within_def)
  note g = enforced_guardrails [OF e(4) p(1) m]
  have steps: "list_all (\<lambda>x. st_target x \<in> known_nodes payload) (sp_steps (eo_plan out))"
    unfolding list_all_iff
  proof
    fix x assume "x \<in> set (sp_steps (eo_plan out))"
    then have "st_target x = iv_root_cause v \<or> st_target x \<in> st_target ` set (sp_steps p)"
      by (rule enforced_targets [OF e(4) ps m])
    then show "st_target x \<in> known_nodes payload" using v p(2) by auto
  qed
  have f: "ac_target c = sp_target (eo_plan out)" "ac_steps c = sp_steps (eo_plan out)"
    "ac_cascade_path c = iv_cascade_path v" "ac_blast_radius c = iv_blast_radius v"
    "ac_reversible c \<longleftrightarrow> \<not> irreversible_action (sp_action (eo_plan out)) \<and> list_all st_reversible (sp_steps (eo_plan out))"
    "ac_authorization c = sp_authorization (eo_plan out)" "ac_action c = sp_action (eo_plan out)"
    "ac_priority c = sp_priority (eo_plan out)" "ac_crdt c = iv_crdt v" "ac_tenant c = tenant"
    using c e(5) by (auto simp: build_command_def Let_def)
  have a: "\<not> ac_reversible c \<longrightarrow> ac_authorization c" unfolding f using g by blast
  have b: "ac_action c = EmergencyShutdown \<longrightarrow> \<not> ac_reversible c \<and> ac_priority c = GpCritical \<and>
      set_min_graph_trust s \<le> ca_graph_trust (ac_crdt c)"
    unfolding f irreversible_action_def using g by (metis irreversible_action_def)
  have d: "sp_target (eo_plan out) \<in> known_nodes payload" using g v by simp
  show ?thesis using a b d g v steps by (simp add: f(1-4,10))
qed

section \<open>Witnesses\<close>

definition demo_step :: "bool \<Rightarrow> nat \<Rightarrow> isolation_step" where
  "demo_step undoable i =
     \<lparr>st_sequence = int i, st_actor = ControlSystem, st_instruction = ''close inlet'', st_target = ''pump-1'',
      st_verification = ''valve shut'', st_reversible = undoable, st_seconds = 60, st_manual = None\<rparr>"

definition demo_plan :: "graph_action \<Rightarrow> bool \<Rightarrow> nat \<Rightarrow> strategic_plan" where
  "demo_plan action undoable n =
     \<lparr>sp_action = action, sp_target = ''pump-1'', sp_priority = GpRoutine, sp_steps = map (demo_step undoable) [1..<Suc n],
      sp_protection = [], sp_authorization = False, sp_rationale = ''r'', sp_references = [], sp_confidence = 1\<rparr>"

definition demo_verdict :: isolation_verdict where
  "demo_verdict =
    \<lparr>iv_fault = LocalizedComponent, iv_root_cause = ''tank-2'', iv_rationale = ''r'', iv_cascade_path = [],
     iv_localized = [], iv_blast_radius = [''fan-3''], iv_severity = BandHard,
     iv_crdt = \<lparr>ca_presence = Live, ca_tie_breaker = NotRequired, ca_contested = False, ca_highest_add = 0,
       ca_highest_remove = 0, ca_diverging = [], ca_collision_rate = Fin 0, ca_graph_trust = 1, ca_explanation = ''e''\<rparr>,
     iv_containment = EmergencyShutdown, iv_irreversible_permitted = False, iv_confidence = 1, iv_evidence = []\<rparr>"

lemma demo_plan_ok: "plan_ok (demo_plan EmergencyShutdown False 1)" "plan_ok (demo_plan IsolateValve True 3)"
  by (simp_all add: plan_ok_def demo_plan_def len_within_def contiguous_def step_ok_def demo_step_def upt_rec
      del: One_nat_def)

lemma demo_retained:
  "retained_steps demo_graph_settings demo_verdict (demo_plan EmergencyShutdown False 1) = [hold_step ''tank-2'']"
  by (simp add: retained_steps_def downgrades_def irreversible_action_def demo_verdict_def demo_plan_def demo_step_def)

theorem guardrails_hold_witness:
  "\<exists>t q notes. analyse_topology (\<lambda>x. []) (demo_payload [''pump-1'', ''tank-2''] (Fin 10)) demo_graph_settings = Inr t \<and>
     enforce_safety_invariants demo_graph_settings (demo_plan EmergencyShutdown False 1) demo_verdict t = (q, notes) \<and>
     sp_target q = ''tank-2'' \<and> sp_action q = DegradeThrottle \<and> list_all st_reversible (sp_steps q)"
proof -
  obtain t where t: "analyse_topology (\<lambda>x. []) (demo_payload [''pump-1'', ''tank-2''] (Fin 10)) demo_graph_settings = Inr t"
    using demo_analysed by blast
  obtain q ns where e:
    "enforce_safety_invariants demo_graph_settings (demo_plan EmergencyShutdown False 1) demo_verdict t = (q, ns)"
    by (meson surj_pair)
  have m: "0 < set_max_isolation_steps demo_graph_settings" by (simp add: demo_graph_settings_def)
  have v: "\<not> iv_irreversible_permitted demo_verdict" "iv_root_cause demo_verdict = ''tank-2''"
    by (simp_all add: demo_verdict_def)
  have "sp_action (demo_plan EmergencyShutdown False 1) = EmergencyShutdown" by (simp add: demo_plan_def)
  then have "sp_action q \<noteq> sp_action (demo_plan EmergencyShutdown False 1)"
    using guardrails_hold [OF e demo_plan_ok(1) m] v by (auto simp: irreversible_action_def)
  then show ?thesis using guardrails_hold [OF e demo_plan_ok(1) m] v t e by auto
qed

theorem guardrails_settle_witness:
  "\<exists>t q notes. analyse_topology (\<lambda>x. []) (demo_payload [''pump-1'', ''tank-2''] (Fin 10)) demo_graph_settings = Inr t \<and>
     enforce_safety_invariants demo_graph_settings (demo_plan EmergencyShutdown False 1) demo_verdict t = (q, notes) \<and>
     enforce_safety_invariants demo_graph_settings q demo_verdict t = (q, [])"
proof -
  obtain t where t: "analyse_topology (\<lambda>x. []) (demo_payload [''pump-1'', ''tank-2''] (Fin 10)) demo_graph_settings = Inr t"
    using demo_analysed by blast
  obtain q ns where e:
    "enforce_safety_invariants demo_graph_settings (demo_plan EmergencyShutdown False 1) demo_verdict t = (q, ns)"
    by (meson surj_pair)
  have m: "0 < set_max_isolation_steps demo_graph_settings" by (simp add: demo_graph_settings_def)
  have c: "contiguous (sp_steps (demo_plan EmergencyShutdown False 1))" using demo_plan_ok by (simp add: plan_ok_def)
  have "length (sp_steps q) \<le> 2"
    using finish_steps_facts(4) [of "[hold_step ''tank-2'']" demo_graph_settings "iv_root_cause demo_verdict"] m
    unfolding enforce_fields(4) [OF e c] demo_retained by simp
  then have "length (sp_steps q) \<le> set_max_isolation_steps demo_graph_settings"
    by (simp add: demo_graph_settings_def)
  then show ?thesis using guardrails_settle [OF e demo_plan_ok(1) m] t e by blast
qed

theorem handover_exceeds_limit_witness:
  "\<exists>t q notes. analyse_topology (\<lambda>x. []) (demo_payload [''pump-1'', ''tank-2''] (Fin 10)) demo_graph_settings = Inr t \<and>
     enforce_safety_invariants (demo_graph_settings\<lparr>set_max_isolation_steps := 3\<rparr>) (demo_plan IsolateValve True 3)
       demo_verdict t = (q, notes) \<and> length (sp_steps q) = 4"
proof -
  let ?s = "demo_graph_settings\<lparr>set_max_isolation_steps := 3\<rparr>"
  obtain t where t: "analyse_topology (\<lambda>x. []) (demo_payload [''pump-1'', ''tank-2''] (Fin 10)) demo_graph_settings = Inr t"
    using demo_analysed by blast
  obtain q ns where e: "enforce_safety_invariants ?s (demo_plan IsolateValve True 3) demo_verdict t = (q, ns)"
    by (meson surj_pair)
  have k: "retained_steps ?s demo_verdict (demo_plan IsolateValve True 3) = map (demo_step True) [1..<Suc 3]"
    by (simp add: retained_steps_def downgrades_def irreversible_action_def demo_plan_def)
  have "length (sp_steps q) = Suc (set_max_isolation_steps ?s)"
    using handover_exceeds_limit [OF e demo_plan_ok(2)] unfolding k
    by (simp add: has_supervisor_def demo_step_def upt_rec)
  then show ?thesis using t e by auto
qed

theorem verdict_overrides_kernel_witness:
  "\<exists>t v. analyse_topology (\<lambda>x. []) (demo_payload [''pump-1'', ''tank-2''] (Fin 10)) demo_graph_settings = Inr t \<and>
     verdict_ok v \<and> validate_verdict t v \<and> iv_root_cause v = ''tank-2'' \<and>
     sp_action (fst (enforce_safety_invariants demo_graph_settings (demo_plan EmergencyShutdown False 1) v t)) =
       EmergencyShutdown"
proof -
  obtain t where t: "analyse_topology (\<lambda>x. []) (demo_payload [''pump-1'', ''tank-2''] (Fin 10)) demo_graph_settings = Inr t"
    using demo_analysed by blast
  have n: "''tank-2'' \<in> ta_known_nodes t"
    by (simp add: analysis_known_nodes [OF t] demo_payload_def known_nodes_def neighbour_ids_def)
  have l: "len_within 1 128 ''tank-2''" by (simp add: len_within_def)
  have m: "set_min_graph_trust demo_graph_settings \<le> 1" by (simp add: demo_graph_settings_def)
  have a: "sp_action (demo_plan EmergencyShutdown False 1) = EmergencyShutdown" by (simp add: demo_plan_def)
  show ?thesis using verdict_overrides_kernel [OF n l m] demo_plan_ok(1) a t by metis
qed

theorem agent_turn_outcome_witness:
  "\<exists>sleeps. invoke ''a'' (\<lambda>k. if k < 2 then Inl AgentTimedOut else Inr (True, 5, 7)) demo_graph_settings =
     (Inr (True, \<lparr>tr_agent = ''a'', tr_attempts = 2, tr_input_tokens = 5, tr_output_tokens = 7\<rparr>), sleeps)"
proof -
  let ?turn = "\<lambda>k :: nat. if k < 2 then Inl AgentTimedOut else Inr (True, 5 :: nat, 7 :: nat)"
  obtain result sleeps where r: "invoke ''a'' ?turn demo_graph_settings = (result, sleeps)" by (meson surj_pair)
  have m: "set_max_attempts demo_graph_settings = 3" by (simp add: demo_graph_settings_def)
  have pos: "0 < set_max_attempts demo_graph_settings" by (simp add: m)
  from agent_turn_outcome [OF r pos] show ?thesis
  proof (elim disjE exE conjE)
    fix k r' i o'
    assume k: "1 \<le> k" "?turn k = Inr (r', i, o')" "\<forall>j. 1 \<le> j \<longrightarrow> j < k \<longrightarrow> isl (?turn j)"
      and res: "result = Inr (r', \<lparr>tr_agent = ''a'', tr_attempts = k, tr_input_tokens = i, tr_output_tokens = o'\<rparr>)"
    have "2 \<le> k" using k(2) by (cases "k < 2") auto
    moreover have "\<not> 2 < k" using k(3) by (auto dest: spec [of _ 2])
    ultimately have "k = 2" by simp
    then show ?thesis using k(2) res r by auto
  next
    assume "\<forall>j. 1 \<le> j \<longrightarrow> j \<le> set_max_attempts demo_graph_settings \<longrightarrow> isl (?turn j)"
    then have "isl (?turn 2)" using m by (elim allE [of _ 2]) simp
    then show ?thesis by simp
  qed
qed

definition demo_agents :: agent_env where
  "demo_agents =
     \<lparr>ag_emit = (\<lambda>agent k. if k = 1 then EmTimeout else EmAnswer JNull 100 50),
      ag_parse_verdict = (\<lambda>j. Some demo_verdict), ag_parse_plan = (\<lambda>j. Some (demo_plan EmergencyShutdown False 1)),
      ag_format = (\<lambda>x. [])\<rparr>"

theorem command_grounded_witness:
  "\<exists>out c. run_engine demo_agents demo_graph_settings (demo_payload [''pump-1'', ''tank-2''] (Fin 10)) = Inr out \<and>
     build_command ''0f'' (demo_payload [''pump-1'', ''tank-2''] (Fin 10)) out ''acme'' = c \<and>
     ac_target c \<in> known_nodes (demo_payload [''pump-1'', ''tank-2''] (Fin 10)) \<and> has_supervisor (ac_steps c)"
proof -
  let ?p = "demo_payload [''pump-1'', ''tank-2''] (Fin 10)"
  have fmt: "ag_format demo_agents = (\<lambda>x. [])" by (simp add: demo_agents_def)
  obtain t where t: "analyse_topology (ag_format demo_agents) ?p demo_graph_settings = Inr t"
    unfolding fmt using demo_analysed by blast
  have "verdict_ok demo_verdict"
    by (simp add: demo_verdict_def verdict_ok_def assessment_ok_def len_within_def)
  moreover have "validate_verdict t demo_verdict" "validate_plan t (demo_plan EmergencyShutdown False 1)"
    unfolding validate_verdict_def validate_plan_def analysis_known_nodes [OF t]
    by (simp_all add: demo_verdict_def demo_plan_def demo_step_def demo_payload_def demo_context_def known_nodes_def neighbour_ids_def)
  moreover have "ag_emit demo_agents a 2 = EmAnswer JNull 100 50" "ag_parse_verdict demo_agents JNull = Some demo_verdict"
    "ag_parse_plan demo_agents JNull = Some (demo_plan EmergencyShutdown False 1)" for a
    by (simp_all add: demo_agents_def)
  moreover have "(1 :: nat) \<le> 2" "2 \<le> set_max_attempts demo_graph_settings" by (simp_all add: demo_graph_settings_def)
  ultimately have "\<not> isl (run_engine demo_agents demo_graph_settings ?p)"
    unfolding engine_returns using t demo_plan_ok(1) by blast
  then obtain out where out: "run_engine demo_agents demo_graph_settings ?p = Inr out" by (metis isl_def old.sum.exhaust)
  have m: "0 < set_max_isolation_steps demo_graph_settings" by (simp add: demo_graph_settings_def)
  show ?thesis using command_grounded [OF out refl m, of "''0f''" "''acme''"] out by blast
qed

end
