(* ===== verification/Bridge.thy ===== *)
theory Bridge
  imports Graph_Engine Interceptor_Client Replay_Store
begin

text \<open>
  The projection between the engine's mutation and the GraphRAG contract, and the worker-facing route
  built on it (bridge.py and the mutation route of service.py).

  The mutation is the JSON object the route receives, read with the dynamic checks of the code.  The text
  of a value that is not a string, the parsing of a timestamp and of an integer by the validation
  library, and the clock are an environment record.  The plan is given in the record the command worker
  reads it into.
\<close>

section \<open>Dynamic access\<close>

record bridge_env =
  br_repr :: "json \<Rightarrow> string"
  br_time :: "json \<Rightarrow> rat raises"
  br_int :: "json \<Rightarrow> int raises"
  br_now :: json
  br_to_float :: "string \<Rightarrow> pyfloat option"

text \<open>\<open>value or {}\<close> followed by a method call of a dictionary.\<close>

definition dict_or_empty :: "json \<Rightarrow> (string \<times> json) list raises" where
  "dict_or_empty v =
     (case v of JObj kvs \<Rightarrow> Inr kvs | _ \<Rightarrow> if py_truthy v then Inl AttributeErrorExn else Inr [])"

fun py_iter :: "json \<Rightarrow> json list raises" where
  "py_iter (JList xs) = Inr xs"
| "py_iter (JStr s) = Inr (map (\<lambda>c. JStr [c]) s)"
| "py_iter (JObj kvs) = Inr (map (\<lambda>kv. JStr (fst kv)) kvs)"
| "py_iter _ = Inl TypeErrorExn"

definition as_object :: "json \<Rightarrow> (string \<times> json) list option" where
  "as_object v = (case v of JObj kvs \<Rightarrow> Some kvs | _ \<Rightarrow> None)"

text \<open>The objects of a collection that may be absent.\<close>

definition objects_of :: "json \<Rightarrow> ((string \<times> json) list) list raises" where
  "objects_of v =
     (if \<not> py_truthy v then Inr [] else bind_r (py_iter v) (\<lambda>xs. Inr (List.map_filter as_object xs)))"

text \<open>
  The order of two sort keys.  Numbers compare with numbers and strings with strings; other keys raise,
  as they do in Python unless both are lists, which no producer emits here.
\<close>

fun json_number :: "json \<Rightarrow> rat option" where
  "json_number (JInt i) = Some (of_int i)"
| "json_number (JFloat x) = Some x"
| "json_number (JBool b) = Some (if b then 1 else 0)"
| "json_number _ = None"

definition py_less :: "json \<Rightarrow> json \<Rightarrow> bool raises" where
  "py_less a b =
     (case (json_number a, json_number b) of
        (Some x, Some y) \<Rightarrow> Inr (x < y)
      | _ \<Rightarrow> (case (a, b) of (JStr s, JStr t) \<Rightarrow> Inr (s < t) | _ \<Rightarrow> Inl TypeErrorExn))"

fun least_from :: "('a \<Rightarrow> json) \<Rightarrow> 'a \<Rightarrow> 'a list \<Rightarrow> 'a raises" where
  "least_from key best [] = Inr best"
| "least_from key best (x # xs) =
     bind_r (py_less (key x) (key best)) (\<lambda>less. least_from key (if less then x else best) xs)"

definition or_zero :: "json \<Rightarrow> json" where
  "or_zero v = (if py_truthy v then v else JInt 0)"

section \<open>The projection of a mutation\<close>

definition valid_node :: "bridge_env \<Rightarrow> json \<Rightarrow> string option" where
  "valid_node env v =
     (if \<not> py_truthy v then None
      else (let node = str_strip (py_str (br_repr env) v) in if node_id_ok node then Some node else None))"

definition site_or_unscoped :: "bridge_env \<Rightarrow> (string \<times> json) list \<Rightarrow> string \<Rightarrow> string" where
  "site_or_unscoped env ctx asset_id =
     (case valid_node env (j_get ctx ''site'') of Some node \<Rightarrow> node | None \<Rightarrow> ''UNSCOPED:'' @ asset_id)"

definition nearest_parent_system :: "bridge_env \<Rightarrow> (string \<times> json) list \<Rightarrow> string \<Rightarrow> string raises" where
  "nearest_parent_system env ctx asset_id =
     bind_r (objects_of (j_get ctx ''parent_systems'')) (\<lambda>systems.
       case systems of
         [] \<Rightarrow> Inr (site_or_unscoped env ctx asset_id)
       | s # ss \<Rightarrow>
           bind_r (least_from (\<lambda>x. or_zero (j_get x ''depth'')) s ss) (\<lambda>nearest.
             Inr (case valid_node env (j_get nearest ''node_id'') of
                    Some node \<Rightarrow> node | None \<Rightarrow> site_or_unscoped env ctx asset_id)))"

fun collect_nodes :: "bridge_env \<Rightarrow> string \<Rightarrow> string list \<Rightarrow> ((string \<times> json) list) list \<Rightarrow> string list" where
  "collect_nodes env exclude seen [] = []"
| "collect_nodes env exclude seen (e # es) =
     (case valid_node env (j_get e ''asset_id'') of
        None \<Rightarrow> collect_nodes env exclude seen es
      | Some node \<Rightarrow>
          if node \<in> set seen \<or> node = exclude then collect_nodes env exclude seen es
          else node # collect_nodes env exclude (node # seen) es)"

definition flow_ids :: "bridge_env \<Rightarrow> json \<Rightarrow> string \<Rightarrow> string list raises" where
  "flow_ids env entries exclude = bind_r (objects_of entries) (\<lambda>es. Inr (collect_nodes env exclude [] es))"

text \<open>One reading of a snapshot, added to the channels.\<close>

definition py_float_of_number :: "json \<Rightarrow> rat option raises" where
  "py_float_of_number v =
     (case v of
        JInt i \<Rightarrow> bind_r (float_of_int i) (\<lambda>x. Inr (case x of Fin r \<Rightarrow> Some r | _ \<Rightarrow> None))
      | _ \<Rightarrow> Inr (json_number v))"

definition add_reading ::
    "bridge_env \<Rightarrow> (string \<times> json) list \<Rightarrow> (string, rat) odict \<Rightarrow> (string, rat) odict raises" where
  "add_reading env reading chs =
     (let sensor = j_get reading ''sensor_id'' in
      if \<not> py_truthy sensor then Inr chs
      else bind_r (py_float_of_number (j_get reading ''value'')) (\<lambda>value.
             Inr (case value of None \<Rightarrow> chs | Some x \<Rightarrow> AList.update (py_str (br_repr env) sensor) x chs)))"

fun add_readings ::
    "bridge_env \<Rightarrow> ((string \<times> json) list) list \<Rightarrow> (string, rat) odict \<Rightarrow> (string, rat) odict raises" where
  "add_readings env [] chs = Inr chs"
| "add_readings env (r # rs) chs = bind_r (add_reading env r chs) (add_readings env rs)"

definition bridge_channels :: "bridge_env \<Rightarrow> (string \<times> json) list \<Rightarrow> (string, rat) odict raises" where
  "bridge_channels env snapshot =
     bind_r (objects_of (j_get snapshot ''readings'')) (\<lambda>readings.
     bind_r (add_readings env readings []) (\<lambda>chs.
       case j_get snapshot ''trigger'' of JObj trigger \<Rightarrow> add_reading env trigger chs | _ \<Rightarrow> Inr chs))"

definition status_for :: "json \<Rightarrow> bool \<Rightarrow> asset_status raises" where
  "status_for severity degraded =
     (if degraded then Inr StUnknown
      else case severity of
             JStr s \<Rightarrow> Inr (if s \<in> {''CRITICAL'', ''HIGH''} then StAlarm else StOperational)
           | JList _ \<Rightarrow> Inl TypeErrorExn
           | JObj _ \<Rightarrow> Inl TypeErrorExn
           | _ \<Rightarrow> Inr StOperational)"

definition bridge_operator :: "bridge_env \<Rightarrow> (string \<times> json) list \<Rightarrow> string raises" where
  "bridge_operator env ctx =
     bind_r (objects_of (j_get ctx ''assigned_operators'')) (\<lambda>operators.
       case operators of
         [] \<Rightarrow> Inr ''Unassigned''
       | o' # os \<Rightarrow>
           bind_r (least_from (\<lambda>x. or_zero (j_get x ''escalation_order'')) o' os) (\<lambda>first.
             Inr (let name = j_get first ''name''; ident = j_get first ''operator_id'' in
                  if py_truthy name then py_str (br_repr env) name
                  else if py_truthy ident then py_str (br_repr env) ident else ''Unassigned'')))"

text \<open>The replica observations; the identifier is stripped by the inbound model.\<close>

fun observations :: "bridge_env \<Rightarrow> ((string \<times> json) list) list \<Rightarrow> replica_observation list raises" where
  "observations env [] = Inr []"
| "observations env (e # es) =
     (let replica = j_get e ''replica_id'' in
      if \<not> py_truthy replica then observations env es
      else
        bind_r (py_int (or_zero (j_get e ''add_stamp''))) (\<lambda>a.
        bind_r (py_int (or_zero (j_get e ''remove_stamp''))) (\<lambda>r.
        bind_r (observations env es) (\<lambda>rest.
          Inr (\<lparr>ro_replica_id = str_strip (py_str (br_repr env) replica), ro_add_stamp = a, ro_remove_stamp = r\<rparr> # rest)))))"

text \<open>A string field of the inbound model, and an optional one with its length limit.\<close>

definition field_str :: "json \<Rightarrow> string raises" where
  "field_str v = (case v of JStr s \<Rightarrow> Inr (str_strip s) | _ \<Rightarrow> Inl ValidationErrorExn)"

definition field_opt_str :: "nat \<Rightarrow> json \<Rightarrow> string option raises" where
  "field_opt_str bound v =
     (case v of
        JNull \<Rightarrow> Inr None
      | JStr s \<Rightarrow> if length (str_strip s) \<le> bound then Inr (Some (str_strip s)) else Inl ValidationErrorExn
      | _ \<Rightarrow> Inl ValidationErrorExn)"

definition json_or :: "json \<Rightarrow> json \<Rightarrow> json" where
  "json_or a b = (if py_truthy a then a else b)"

definition undeclared_channels :: "(string, rat) odict \<Rightarrow> (string \<times> channel_value) list" where
  "undeclared_channels chs =
     map (\<lambda>(k, x). (k, ChFloat (Fin x)))
       (filter (\<lambda>(k, x). k \<notin> {''vibration_index'', ''temperature_celsius'', ''crdt_collision_rate''}) chs)"

definition validate_projection ::
    "bridge_env \<Rightarrow> (string \<times> json) list \<Rightarrow> (string \<times> json) list \<Rightarrow> string \<Rightarrow> asset_status
      \<Rightarrow> string \<times> string list \<times> string list \<times> string \<times> replica_observation list \<Rightarrow> (string, rat) odict
      \<Rightarrow> graph_payload raises" where
  "validate_projection env m ctx asset_id status topology chs =
     (let (parent, up, down, operator, obs) = topology;
          declared = (\<lambda>k. map_option Fin (map_of chs k)) in
      bind_r (field_str (j_get m ''event_id'')) (\<lambda>event_id.
      bind_r (br_time env (json_or (j_get m ''emitted_at'') (br_now env))) (\<lambda>timestamp.
      bind_r (field_str (json_or (j_get ctx ''asset_name'') (JStr asset_id))) (\<lambda>name.
      bind_r (field_str (json_or (j_get ctx ''model_number'') (json_or (j_get ctx ''asset_class'') (JStr asset_id))))
        (\<lambda>model_number.
      bind_r (field_str (json_or (j_get ctx ''site'') (JStr ''UNKNOWN-SITE''))) (\<lambda>location.
      bind_r (field_str (json_or (j_get ctx ''criticality'') (JStr ''UNKNOWN''))) (\<lambda>criticality.
      bind_r (field_opt_str 128 (j_get ctx ''maintenance_window'')) (\<lambda>window.
      bind_r (field_opt_str 128 (j_get m ''origin_replica'')) (\<lambda>origin.
      bind_r (field_opt_str 128 (j_get m ''graph_revision'')) (\<lambda>revision.
      bind_r (br_int env (or_zero (j_get m ''lamport_clock''))) (\<lambda>lamport.
        make_payload (br_to_float env) event_id timestamp
          \<lparr>am_uuid = asset_id, am_name = name, am_model_number = model_number, am_status = status\<rparr>
          \<lparr>gc_parent_system = parent, gc_physical_location = location, gc_upstream = up, gc_downstream = down,
           gc_assigned_operator = str_strip operator, gc_dependency_health = [], gc_replica_observations = obs,
           gc_criticality = criticality, gc_maintenance_window = window\<rparr>
          (declared ''vibration_index'', declared ''temperature_celsius'', declared ''crdt_collision_rate'',
           undeclared_channels chs)
          lamport (py_truthy (j_get m ''degraded'')))))))))))))"

definition mutation_asset_id :: "bridge_env \<Rightarrow> (string \<times> json) list \<Rightarrow> string" where
  "mutation_asset_id env m =
     (let v = j_get m ''asset_id'' in if py_truthy v then str_strip (py_str (br_repr env) v) else [])"

definition mutation_to_graph_payload :: "bridge_env \<Rightarrow> (string \<times> json) list \<Rightarrow> graph_payload raises" where
  "mutation_to_graph_payload env m =
     (let asset_id = mutation_asset_id env m in
      bind_r (dict_or_empty (j_get m ''ontology_context'')) (\<lambda>ctx.
      bind_r (dict_or_empty (j_get m ''telemetry_snapshot'')) (\<lambda>snapshot.
      bind_r (flow_ids env (j_get ctx ''upstream_dependencies'') asset_id) (\<lambda>up.
      bind_r (flow_ids env (j_get ctx ''downstream_impacts'') asset_id) (\<lambda>down.
      bind_r (status_for (j_get m ''severity'') (py_truthy (j_get m ''degraded''))) (\<lambda>status.
      bind_r (nearest_parent_system env ctx asset_id) (\<lambda>parent.
      bind_r (bridge_operator env ctx) (\<lambda>operator.
      bind_r (objects_of (j_get ctx ''replica_observations'')) (\<lambda>os.
      bind_r (observations env os) (\<lambda>obs.
      bind_r (bridge_channels env snapshot) (\<lambda>chs.
        validate_projection env m ctx asset_id status
          (parent, filter (\<lambda>n. n \<notin> set down) up, down, operator, obs) chs)))))))))))"

section \<open>The plan of an action\<close>

fun graph_action_value :: "graph_action \<Rightarrow> string" where
  "graph_action_value IsolateValve = ''ISOLATE_VALVE''"
| "graph_action_value EmergencyShutdown = ''EMERGENCY_SHUTDOWN''"
| "graph_action_value DegradeThrottle = ''DEGRADE_THROTTLE''"

fun graph_priority_value :: "graph_priority \<Rightarrow> string" where
  "graph_priority_value GpCritical = ''CRITICAL''"
| "graph_priority_value GpHigh = ''HIGH''"
| "graph_priority_value GpRoutine = ''ROUTINE''"

fun actor_value :: "step_actor \<Rightarrow> string" where
  "actor_value HumanTechnician = ''HUMAN_TECHNICIAN''"
| "actor_value HumanSupervisor = ''HUMAN_SUPERVISOR''"
| "actor_value RoboticActuator = ''ROBOTIC_ACTUATOR''"
| "actor_value ControlSystem = ''CONTROL_SYSTEM''"

fun action_to_worker :: "graph_action \<Rightarrow> string" where
  "action_to_worker IsolateValve = ''ISOLATE''"
| "action_to_worker EmergencyShutdown = ''SHUTDOWN''"
| "action_to_worker DegradeThrottle = ''SHIFT_SPEED''"

fun actor_label :: "step_actor \<Rightarrow> string" where
  "actor_label HumanTechnician = ''Field technician''"
| "actor_label HumanSupervisor = ''Shift supervisor''"
| "actor_label RoboticActuator = ''Robotic actuator''"
| "actor_label ControlSystem = ''Control system''"

fun reversible_step_action :: "step_actor \<Rightarrow> string" where
  "reversible_step_action ControlSystem = ''SHIFT_SPEED''"
| "reversible_step_action RoboticActuator = ''SHIFT_SPEED''"
| "reversible_step_action HumanSupervisor = ''NOTIFY''"
| "reversible_step_action HumanTechnician = ''INSPECT''"

text \<open>The text of a guardrail note.\<close>

fun forced_text :: "(pyfloat \<Rightarrow> string) \<Rightarrow> forced_reason \<Rightarrow> string" where
  "forced_text g IrreversibleWork = ''the sequence contains irreversible work''"
| "forced_text g CriticalPriority = ''the command is CRITICAL priority''"
| "forced_text g (LowTrust trust) =
     ''graph trust '' @ g (Fin trust) @ '' is below the threshold for unattended execution''"

fun guardrail_text :: "(pyfloat \<Rightarrow> string) \<Rightarrow> guardrail \<Rightarrow> string" where
  "guardrail_text g (TargetRedirected old new) =
     ''target redirected from '' @ old @ '' to the attributed root cause '' @ new"
| "guardrail_text g (Downgraded trust threshold) =
     ''EMERGENCY_SHUTDOWN downgraded to DEGRADE_THROTTLE: graph trust '' @ g (Fin trust) @ '' is below the '' @
     g (Fin threshold) @ '' threshold for irreversible action''"
| "guardrail_text g (StepsRemoved n) =
     int_str (int n) @ '' irreversible step(s) removed from the sequence to match the downgraded action''"
| "guardrail_text g RaisedToCritical = ''execution priority raised to CRITICAL for an irreversible command''"
| "guardrail_text g RaisedToHigh = ''execution priority raised to HIGH: the kernel scored this event CRITICAL''"
| "guardrail_text g (StepsTruncated n bound) =
     ''isolation sequence truncated from '' @ int_str (int n) @ '' to '' @ int_str (int bound) @ '' steps''"
| "guardrail_text g HandoverAppended =
     ''supervisor handover appended: no step returned the asset to a human owner''"
| "guardrail_text g (AuthorizationForced r) = ''human authorisation forced: '' @ forced_text g r"

definition step_command :: "string \<Rightarrow> string \<Rightarrow> isolation_step \<Rightarrow> planned_action" where
  "step_command worker_action priority t =
     \<lparr>pa_sequence = st_sequence t, pa_target_component = st_target t,
      pa_action = (if st_reversible t then reversible_step_action (st_actor t) else worker_action),
      pa_priority = priority, pa_assigned_to = actor_label (st_actor t), pa_assigned_operator_id = None,
      pa_parameters =
        [(''actor'', JStr (actor_value (st_actor t))), (''reversible'', JBool (st_reversible t)),
         (''manual_reference'', case st_manual t of None \<Rightarrow> JNull | Some r \<Rightarrow> JStr r)],
      pa_expected_effect = st_instruction t,
      pa_rollback =
        Some (if st_reversible t then ''Reversible. Confirm by: '' @ st_verification t
              else ''Not reversible without a maintenance intervention; confirm before proceeding by: '' @
                   st_verification t),
      pa_deadline_seconds = st_seconds t\<rparr>"

definition action_to_plan :: "(pyfloat \<Rightarrow> string) \<Rightarrow> string \<Rightarrow> rat \<Rightarrow> command_action \<Rightarrow> action_plan" where
  "action_to_plan g model latency a =
     (let worker_action = action_to_worker (ac_action a);
          priority = graph_priority_value (ac_priority a);
          stepwise = map (step_command worker_action priority) (ac_steps a);
          fallback =
            \<lparr>pa_sequence = 1, pa_target_component = ac_target a, pa_action = worker_action, pa_priority = priority,
             pa_assigned_to = ''Shift supervisor'', pa_assigned_operator_id = None, pa_parameters = [],
             pa_expected_effect = ac_rationale a,
             pa_rollback = Some (if ac_reversible a then ''Reversible.'' else ''Not reversible.''),
             pa_deadline_seconds = 900\<rparr>
      in \<lparr>pl_plan_id = ac_command_id a, pl_event_id = ac_event_id a, pl_asset_id = ac_source_asset a,
          pl_tenant = ac_tenant a, pl_model = model, pl_confidence = ac_confidence a,
          pl_reasoning_summary = ac_rationale a,
          pl_commands = (if stepwise = [] then [fallback] else stepwise),
          pl_escalation =
            \<lparr>es_required = ac_authorization a, es_notify = [],
             es_reason = (if \<not> ac_reversible a then ''Irreversible action against a live asset''
                          else ''Human authorization required by tier policy''),
             es_sla_seconds = (if ac_authorization a then 900 else 0)\<rparr>,
          pl_evidence = ac_evidence a @ map (\<lambda>n. ''guardrail: '' @ guardrail_text g n) (ac_guardrails a),
          pl_latency_ms = latency\<rparr>)"

section \<open>The route\<close>

datatype route_answer =
    Planned action_plan bool
  | NotProjectable
  | EngineRaised engine_error

record route_env =
  re_bridge :: bridge_env
  re_agents :: agent_env
  re_settings :: graph_settings
  re_model :: string
  re_hex :: string
  re_latency :: rat

definition route_key :: "route_env \<Rightarrow> string \<Rightarrow> (string \<times> json) list \<Rightarrow> event_key" where
  "route_key env tenant m =
     (let event = j_get m ''event_id'' in
      (tenant, if py_truthy event then py_str (br_repr (re_bridge env)) event else []))"

text \<open>The cached action carries the time it took, so the cache holds the pair.\<close>

definition render :: "route_env \<Rightarrow> command_action \<times> rat \<Rightarrow> action_plan" where
  "render env stored = action_to_plan (ag_format (re_agents env)) (re_model env) (snd stored) (fst stored)"

definition intercept_mutation ::
    "route_env \<Rightarrow> string \<Rightarrow> (string \<times> json) list \<Rightarrow> (command_action \<times> rat) command_cache
      \<Rightarrow> route_answer \<times> (command_action \<times> rat) command_cache" where
  "intercept_mutation env tenant m cache =
     (let key = route_key env tenant m; (cached, c1) = command_cache_get key cache
      in case cached of
           Some stored \<Rightarrow> (Planned (render env stored) True, c1)
         | None \<Rightarrow>
             (case mutation_to_graph_payload (re_bridge env) m of
                Inl e \<Rightarrow> (NotProjectable, c1)
              | Inr payload \<Rightarrow>
                  (case run_engine (re_agents env) (re_settings env) payload of
                     Inl e \<Rightarrow> (EngineRaised e, c1)
                   | Inr out \<Rightarrow>
                       (let stored = (build_command (re_hex env) payload out tenant, re_latency env)
                        in (Planned (render env stored) False, command_cache_put key stored c1)))))"

text \<open>Requests of any tenant, one after the other.\<close>

definition serve_all ::
    "(route_env \<times> string \<times> (string \<times> json) list) list \<Rightarrow> (command_action \<times> rat) command_cache
      \<Rightarrow> (command_action \<times> rat) command_cache" where
  "serve_all reqs cache = fold (\<lambda>(env, tenant, m) c. snd (intercept_mutation env tenant m c)) reqs cache"

text \<open>The label under which the service counts a guardrail.\<close>

definition guardrail_label :: "(pyfloat \<Rightarrow> string) \<Rightarrow> guardrail \<Rightarrow> string" where
  "guardrail_label g n = take 64 (guardrail_text g n)"

section \<open>Lemmas\<close>

lemma valid_node_ok: "valid_node env v = Some n \<Longrightarrow> node_id_ok n"
  by (auto simp: valid_node_def Let_def split: if_splits)

lemma collect_nodes_ok:
  "distinct (collect_nodes env x seen es) \<and> list_all node_id_ok (collect_nodes env x seen es) \<and>
   set (collect_nodes env x seen es) \<inter> set seen = {} \<and> x \<notin> set (collect_nodes env x seen es)"
  by (induction env x seen es rule: collect_nodes.induct) (auto split: option.splits dest: valid_node_ok)

lemma flow_ids_ok:
  "flow_ids env v x = Inr ns \<Longrightarrow> distinct ns \<and> list_all node_id_ok ns \<and> x \<notin> set ns"
  using collect_nodes_ok [of env x "[]"] by (auto simp: flow_ids_def bind_r_Inr_iff)

lemma make_payload_parts:
  assumes "make_payload f e t a c (v, te, co, ex) l d = Inr p"
  shows "make_asset a = Inr (gp_asset p)" "make_context c = Inr (gp_context p)"
    "make_snapshot f v te co ex = Inr (gp_telemetry p)" "gp_event_id p = e" "len_within 1 128 e" "gp_degraded p = d"
  using assms
  by (auto simp: make_payload_def bind_r_Inr_iff cross_check_topology_def Let_def split: if_splits)

lemma make_context_unchanged:
  assumes "make_context c = Inr d" "list_all node_id_ok (gc_upstream c)" "distinct (gc_upstream c)"
    "list_all node_id_ok (gc_downstream c)" "distinct (gc_downstream c)"
  shows "gc_upstream d = gc_upstream c" "gc_downstream d = gc_downstream c"
    "gc_dependency_health d = gc_dependency_health c" "gc_replica_observations d = gc_replica_observations c"
proof -
  have "validate_edges [] (gc_upstream c) = Inr (gc_upstream c)" "validate_edges [] (gc_downstream c) = Inr (gc_downstream c)"
    using validate_edges_fix [of "gc_upstream c" "[]"] validate_edges_fix [of "gc_downstream c" "[]"] assms by auto
  then show "gc_upstream d = gc_upstream c" "gc_downstream d = gc_downstream c"
    "gc_dependency_health d = gc_dependency_health c" "gc_replica_observations d = gc_replica_observations c"
    using assms(1) by (auto simp: make_context_def bind_r_Inr_iff split: if_splits)
qed

text \<open>What the projection puts into the payload.\<close>

lemma projection_parts:
  assumes "mutation_to_graph_payload env m = Inr p"
  obtains ctx up down where "dict_or_empty (j_get m ''ontology_context'') = Inr ctx"
    "flow_ids env (j_get ctx ''upstream_dependencies'') (mutation_asset_id env m) = Inr up"
    "flow_ids env (j_get ctx ''downstream_impacts'') (mutation_asset_id env m) = Inr down"
    "gc_upstream (gp_context p) = filter (\<lambda>n. n \<notin> set down) up" "gc_downstream (gp_context p) = down"
    "gc_dependency_health (gp_context p) = []" "payload_wf p" "gp_event_id p \<noteq> []"
    "gp_degraded p = py_truthy (j_get m ''degraded'')"
proof -
  obtain ctx up down status parent operator obs chs where ctx: "dict_or_empty (j_get m ''ontology_context'') = Inr ctx"
    and up: "flow_ids env (j_get ctx ''upstream_dependencies'') (mutation_asset_id env m) = Inr up"
    and down: "flow_ids env (j_get ctx ''downstream_impacts'') (mutation_asset_id env m) = Inr down"
    and v: "validate_projection env m ctx (mutation_asset_id env m) status
        (parent, filter (\<lambda>n. n \<notin> set down) up, down, operator, obs) chs = Inr p"
    using assms by (auto simp: mutation_to_graph_payload_def bind_r_Inr_iff Let_def)
  obtain e t a c tel l where mp: "make_payload (br_to_float env) e t a c tel l (py_truthy (j_get m ''degraded'')) = Inr p"
    and c: "gc_upstream c = filter (\<lambda>n. n \<notin> set down) up" "gc_downstream c = down" "gc_dependency_health c = []"
    using v by (fastforce simp: validate_projection_def bind_r_Inr_iff Let_def)
  obtain vi te co ex where tel: "tel = (vi, te, co, ex)" by (cases tel)
  note parts = make_payload_parts [OF mp [unfolded tel]]
  have ok: "list_all node_id_ok (gc_upstream c)" "distinct (gc_upstream c)" "list_all node_id_ok (gc_downstream c)"
    "distinct (gc_downstream c)"
    using flow_ids_ok [OF up] flow_ids_ok [OF down] by (auto simp: c list_all_iff)
  note same = make_context_unchanged [OF parts(2) ok]
  have wf: "payload_wf p" using make_payload_wf mp tel by blast
  have e: "gp_event_id p \<noteq> []" using parts(4,5) by (auto simp: len_within_def)
  show thesis using that [OF ctx up down _ _ _ wf e parts(6)] same c by simp
qed

lemma action_words_known:
  "map_of ACTION_ALIASES (str_upper (str_strip (action_to_worker a))) =
     Some (case a of IsolateValve \<Rightarrow> ISOLATE | EmergencyShutdown \<Rightarrow> SHUTDOWN | DegradeThrottle \<Rightarrow> SHIFT_SPEED)"
  "map_of ACTION_ALIASES (str_upper (str_strip (reversible_step_action r))) =
     Some (case r of ControlSystem \<Rightarrow> SHIFT_SPEED | RoboticActuator \<Rightarrow> SHIFT_SPEED | HumanSupervisor \<Rightarrow> NOTIFY
           | HumanTechnician \<Rightarrow> INSPECT)"
proof -
  have w: "str_upper (str_strip ''ISOLATE'') = ''ISOLATE''" "str_upper (str_strip ''SHUTDOWN'') = ''SHUTDOWN''"
    "str_upper (str_strip ''SHIFT_SPEED'') = ''SHIFT_SPEED''" "str_upper (str_strip ''NOTIFY'') = ''NOTIFY''"
    "str_upper (str_strip ''INSPECT'') = ''INSPECT''"
    by code_simp+
  show "map_of ACTION_ALIASES (str_upper (str_strip (action_to_worker a))) =
     Some (case a of IsolateValve \<Rightarrow> ISOLATE | EmergencyShutdown \<Rightarrow> SHUTDOWN | DegradeThrottle \<Rightarrow> SHIFT_SPEED)"
    by (cases a) (simp_all add: w ACTION_ALIASES_def)
  show "map_of ACTION_ALIASES (str_upper (str_strip (reversible_step_action r))) =
     Some (case r of ControlSystem \<Rightarrow> SHIFT_SPEED | RoboticActuator \<Rightarrow> SHIFT_SPEED | HumanSupervisor \<Rightarrow> NOTIFY
           | HumanTechnician \<Rightarrow> INSPECT)"
    by (cases r) (simp_all add: w ACTION_ALIASES_def)
qed

lemma priority_words:
  "map_of PRIORITY_ALIASES (str_upper (str_strip (graph_priority_value p))) =
     (case p of GpCritical \<Rightarrow> Some PrioCritical | GpHigh \<Rightarrow> Some PrioHigh | GpRoutine \<Rightarrow> None)"
proof -
  have w: "str_upper (str_strip ''CRITICAL'') = ''CRITICAL''" "str_upper (str_strip ''HIGH'') = ''HIGH''"
    "str_upper (str_strip ''ROUTINE'') = ''ROUTINE''"
    by code_simp+
  show ?thesis by (cases p) (simp_all add: w PRIORITY_ALIASES_def)
qed

text \<open>The worker's action for a step of a plan.\<close>

definition step_action :: "graph_action \<Rightarrow> isolation_step \<Rightarrow> action_type" where
  "step_action action t =
     (if st_reversible t then
        (case st_actor t of ControlSystem \<Rightarrow> SHIFT_SPEED | RoboticActuator \<Rightarrow> SHIFT_SPEED | HumanSupervisor \<Rightarrow> NOTIFY
         | HumanTechnician \<Rightarrow> INSPECT)
      else (case action of IsolateValve \<Rightarrow> ISOLATE | EmergencyShutdown \<Rightarrow> SHUTDOWN | DegradeThrottle \<Rightarrow> SHIFT_SPEED))"

lemma step_command_action:
  "map_of ACTION_ALIASES (str_upper (str_strip (pa_action (step_command (action_to_worker action) prio t)))) =
     Some (step_action action t)"
  by (simp add: step_command_def step_action_def action_words_known)

lemma plan_steps:
  "ac_steps a \<noteq> [] \<Longrightarrow> pl_commands (action_to_plan g model lat a) =
     map (step_command (action_to_worker (ac_action a)) (graph_priority_value (ac_priority a))) (ac_steps a)"
  by (simp add: action_to_plan_def Let_def)

lemma map_r_first_error: "xs \<noteq> [] \<Longrightarrow> f (hd xs) = Inl e \<Longrightarrow> map_r f xs = Inl e"
  by (cases xs) auto

text \<open>The plan as the worker's contract reads it: the strings of its actions stripped.\<close>

definition worker_reads :: "action_plan \<Rightarrow> action_plan" where
  "worker_reads p = p\<lparr>pl_commands := map strip_action (pl_commands p)\<rparr>"

lemma strip_step_action:
  "map_of ACTION_ALIASES (str_upper (str_strip (pa_action (strip_action (step_command (action_to_worker action) prio t))))) =
     Some (step_action action t)"
  using step_command_action [of action prio t] by (simp add: strip_action_def)

lemma translate_step_more:
  assumes "translate_step uuid5 t m plan sub s corr (k, p) = Inr c"
  shows "cp_target_component c = map_option str_strip (if pa_target_component p = [] then None else Some (pa_target_component p))"
    "cp_escalation_required c = es_required (pl_escalation plan)"
  using assms
  by (auto simp: translate_step_def make_command_Inr strip_command_def Let_def split: option.splits sum.splits)

lemma worker_reads_steps:
  "ac_steps a \<noteq> [] \<Longrightarrow> pl_commands (worker_reads (action_to_plan g model lat a)) =
     map (\<lambda>x. strip_action (step_command (action_to_worker (ac_action a)) (graph_priority_value (ac_priority a)) x)) (ac_steps a)"
  by (simp add: worker_reads_def plan_steps)

lemma bridged_step:
  assumes tr: "translate_plan uuid5 t m (worker_reads (action_to_plan g model lat a)) sub s corr = Inr cs"
    and ne: "ac_steps a \<noteq> []" and i: "i < length cs"
  shows "i < length (ac_steps a)" "cp_action_type (cs ! i) = step_action (ac_action a) (ac_steps a ! i)"
    "cp_requires_human_approval (cs ! i) = requires_approval sub (cp_action_type (cs ! i))"
    "cp_target_asset_id (cs ! i) = str_strip (mu_asset_id m)"
    "cp_escalation_required (cs ! i) = ac_authorization a"
    "st_target (ac_steps a ! i) \<noteq> [] \<Longrightarrow> node_id_ok (st_target (ac_steps a ! i)) \<Longrightarrow>
       cp_target_component (cs ! i) = Some (st_target (ac_steps a ! i))"
proof -
  note r = translate_plan_Inr [OF tr]
  have steps: "planned_steps s (worker_reads (action_to_plan g model lat a)) =
      map (\<lambda>x. strip_action (step_command (action_to_worker (ac_action a)) (graph_priority_value (ac_priority a)) x))
        (take (nat (s_max_commands s)) (ac_steps a))"
    unfolding planned_steps_def worker_reads_steps [OF ne] by (simp add: take_map)
  have l: "i < length (take (nat (s_max_commands s)) (ac_steps a))" using r i by (simp add: steps)
  then show len: "i < length (ac_steps a)" by simp
  let ?p = "strip_action (step_command (action_to_worker (ac_action a)) (graph_priority_value (ac_priority a)) (ac_steps a ! i))"
  have nth: "planned_steps s (worker_reads (action_to_plan g model lat a)) ! i = ?p"
    unfolding steps nth_map [OF l] using l by simp
  have "translate_step uuid5 t m (worker_reads (action_to_plan g model lat a)) sub s corr
      (int (Suc i), planned_steps s (worker_reads (action_to_plan g model lat a)) ! i) = Inr (cs ! i)"
    using r i by blast
  then have "translate_step uuid5 t m (worker_reads (action_to_plan g model lat a)) sub s corr (int (Suc i), ?p) = Inr (cs ! i)"
    by (simp only: nth)
  note st = translate_step_Inr [OF this] translate_step_more [OF this]
  show "cp_action_type (cs ! i) = step_action (ac_action a) (ac_steps a ! i)"
    "cp_requires_human_approval (cs ! i) = requires_approval sub (cp_action_type (cs ! i))"
    "cp_target_asset_id (cs ! i) = str_strip (mu_asset_id m)"
    using st(1) by (auto simp: strip_step_action)
  show "cp_escalation_required (cs ! i) = ac_authorization a"
    using st(3) by (simp add: worker_reads_def action_to_plan_def Let_def)
  show "cp_target_component (cs ! i) = Some (st_target (ac_steps a ! i))"
    if "st_target (ac_steps a ! i) \<noteq> []" "node_id_ok (st_target (ac_steps a ! i))"
    using st(2) that node_id_strip [OF that(2)] by (simp add: strip_action_def step_command_def)
qed

text \<open>The steps the guardrails leave keep the limits a step of the worker's plan has.\<close>

lemma step_ok_seconds: "step_ok t \<Longrightarrow> 0 \<le> st_seconds t \<and> st_seconds t \<le> 604800"
  by (simp add: step_ok_def)

lemma enforced_seconds:
  assumes "enforce_safety_invariants s p v t = (q, notes)" "plan_ok p" "0 < set_max_isolation_steps s"
  shows "list_all (\<lambda>x. 0 \<le> st_seconds x \<and> st_seconds x \<le> 604800) (sp_steps q)"
proof -
  let ?f = "finish_steps s (iv_root_cause v) (retained_steps s v p)"
  have ps: "contiguous (sp_steps p)" "sp_steps p \<noteq> []" "list_all step_ok (sp_steps p)"
    using assms(2) by (auto simp: plan_ok_def len_within_def)
  have "list_all (\<lambda>x. 0 \<le> st_seconds x \<and> st_seconds x \<le> 604800) ?f"
    using finish_steps_facts(6) [of "retained_steps s v p" s "iv_root_cause v"]
      retained_steps_facts(1,3) [where p = p and s = s and v = v] ps assms(3) step_ok_seconds
    by (fastforce simp: list_all_iff hold_step_def handover_step_def)
  then show ?thesis unfolding enforce_fields(4) [OF assms(1) ps(1)] by (subst renumber_all) simp_all
qed

lemma enforced_confidence:
  "enforce_safety_invariants s p v t = (q, notes) \<Longrightarrow> plan_ok p \<Longrightarrow> 0 \<le> sp_confidence q \<and> sp_confidence q \<le> 1"
  using py_round_unit_bounds [of "max (1/20) (sp_confidence p * (9/10))" 3]
  by (auto simp: enforce_safety_invariants_def plan_ok_def Let_def split: if_splits)

lemma contiguous_positive: "contiguous steps \<Longrightarrow> x \<in> set steps \<Longrightarrow> 1 \<le> st_sequence x"
proof -
  assume c: "contiguous steps" "x \<in> set steps"
  then have "st_sequence x \<in> set (map int [1..<Suc (length steps)])"
    unfolding contiguous_def by (metis image_eqI set_map)
  then show "1 \<le> st_sequence x" by auto
qed

text \<open>What an issued command has, as far as its plan needs it.\<close>

definition command_sound :: "command_action \<Rightarrow> bool" where
  "command_sound a \<longleftrightarrow>
     ac_command_id a \<noteq> [] \<and> ac_event_id a \<noteq> [] \<and> ac_source_asset a \<noteq> [] \<and> 0 \<le> ac_confidence a \<and>
     ac_confidence a \<le> 1 \<and> ac_steps a \<noteq> [] \<and> contiguous (ac_steps a) \<and>
     list_all (\<lambda>x. 0 \<le> st_seconds x \<and> st_seconds x \<le> 604800) (ac_steps a)"

lemma issued_command_sound:
  assumes "mutation_to_graph_payload benv m = Inr p" "run_engine env s p = Inr out" "0 < set_max_isolation_steps s"
  shows "command_sound (build_command hex p out tenant)"
proof -
  obtain t v d tr1 tr2 where e: "run_action_planner env s t = Inr (d, tr2)"
    "enforce_safety_invariants s d v t = (eo_plan out, eo_guardrails out)"
    using assms(2) by (rule run_engine_Inr)
  have ok: "plan_ok d" using planner_sound [OF e(1)] by blast
  note g = enforced_guardrails [OF e(2) ok assms(3)]
  have p: "payload_wf p" "gp_event_id p \<noteq> []" using assms(1) by (auto elim: projection_parts)
  then show ?thesis
    using g enforced_seconds [OF e(2) ok assms(3)] enforced_confidence [OF e(2) ok]
    by (simp add: command_sound_def build_command_def payload_wf_def Let_def)
qed

lemma words_not_empty:
  "action_to_worker a \<noteq> []" "reversible_step_action r \<noteq> []" "graph_priority_value p \<noteq> []"
  by - (cases a; simp; fail | cases r; simp; fail | cases p; simp; fail)+

lemma sound_plan_valid:
  assumes "command_sound a"
  shows "action_plan_ok (action_to_plan g model lat a)"
proof -
  have ne: "ac_steps a \<noteq> []" using assms by (simp add: command_sound_def)
  have "planned_action_ok (step_command (action_to_worker (ac_action a)) (graph_priority_value (ac_priority a)) x)"
    if "x \<in> set (ac_steps a)" for x
    using that assms contiguous_positive [of "ac_steps a" x]
    by (simp add: planned_action_ok_def step_command_def words_not_empty command_sound_def list_all_iff)
  then have "list_all planned_action_ok (pl_commands (action_to_plan g model lat a))"
    by (auto simp: plan_steps [OF ne] list_all_iff)
  moreover have "pl_commands (action_to_plan g model lat a) \<noteq> []" using ne by (simp add: plan_steps)
  ultimately show ?thesis using assms
    by (simp add: action_plan_ok_def command_sound_def) (simp add: action_to_plan_def Let_def)
qed

text \<open>What a request does to the cache: a lookup, then an insertion only if nothing was found.\<close>

lemma intercept_mutation_ops:
  "\<exists>ops. snd (intercept_mutation env tenant m c) = fold (command_lru.apply_op) ops c \<and>
     (\<forall>x \<in> set ops. op_key x = route_key env tenant m) \<and>
     (fst (command_cache_get (route_key env tenant m) c) \<noteq> None \<longrightarrow> (\<forall>x \<in> set ops. \<not> puts_key (route_key env tenant m) x))"
proof -
  let ?k = "route_key env tenant m"
  have "snd (intercept_mutation env tenant m c) = snd (command_cache_get ?k c) \<or>
     fst (command_cache_get ?k c) = None \<and>
     (\<exists>v. snd (intercept_mutation env tenant m c) = command_cache_put ?k v (snd (command_cache_get ?k c)))"
    by (auto simp: intercept_mutation_def Let_def split: prod.splits option.splits sum.splits)
  then show ?thesis
  proof (elim disjE conjE exE)
    assume "snd (intercept_mutation env tenant m c) = snd (command_cache_get ?k c)"
    then show ?thesis by (intro exI [of _ "[OpGet ?k]"]) simp
  next
    fix v assume "fst (command_cache_get ?k c) = None"
      "snd (intercept_mutation env tenant m c) = command_cache_put ?k v (snd (command_cache_get ?k c))"
    then show ?thesis by (intro exI [of _ "[OpGet ?k, OpPut ?k v]"]) simp
  qed
qed

lemma serve_all_ops:
  assumes "card ((\<lambda>(env, tenant, m). route_key env tenant m) ` set reqs - {k}) < cc_max c"
  shows "\<exists>ops. serve_all reqs (command_cache_put k v c) = fold command_lru.apply_op ops (command_cache_put k v c) \<and>
     (\<forall>x \<in> set ops. \<not> puts_key k x) \<and> op_key ` set ops \<subseteq> (\<lambda>(env, tenant, m). route_key env tenant m) ` set reqs"
  using assms
proof (induction reqs rule: rev_induct)
  case Nil
  then show ?case by (intro exI [of _ "[]"]) (simp add: serve_all_def)
next
  case (snoc r reqs)
  obtain env tenant m where r: "r = (env, tenant, m)" by (cases r) auto
  let ?keys = "\<lambda>rs. (\<lambda>(env, tenant, m). route_key env tenant m) ` set rs"
  have "?keys reqs \<subseteq> ?keys (reqs @ [r])" by (rule image_mono) auto
  then have "card (?keys reqs - {k}) \<le> card (?keys (reqs @ [r]) - {k})" by (intro card_mono Diff_mono) auto
  then have small: "card (?keys reqs - {k}) < cc_max c" using snoc.prems by linarith
  then obtain ops where ops: "serve_all reqs (command_cache_put k v c) = fold command_lru.apply_op ops (command_cache_put k v c)"
    "\<forall>x \<in> set ops. \<not> puts_key k x" "op_key ` set ops \<subseteq> ?keys reqs"
    using snoc.IH by blast
  have "card (op_key ` set ops - {k}) \<le> card (?keys reqs - {k})" using ops(3) by (intro card_mono) auto
  then have found: "fst (command_cache_get k (serve_all reqs (command_cache_put k v c))) = Some v"
    unfolding ops(1) using small ops(2) by (intro command_lru.replay_stable) simp_all
  obtain more where more:
    "snd (intercept_mutation env tenant m (serve_all reqs (command_cache_put k v c))) =
       fold command_lru.apply_op more (serve_all reqs (command_cache_put k v c))"
    "\<forall>x \<in> set more. op_key x = route_key env tenant m"
    "fst (command_cache_get (route_key env tenant m) (serve_all reqs (command_cache_put k v c))) \<noteq> None \<longrightarrow>
       (\<forall>x \<in> set more. \<not> puts_key (route_key env tenant m) x)"
    using intercept_mutation_ops by blast
  have "\<not> puts_key k x" if "x \<in> set more" for x
  proof (cases "route_key env tenant m = k")
    case True
    have "fst (command_cache_get (route_key env tenant m) (serve_all reqs (command_cache_put k v c))) \<noteq> None"
      using found True by simp
    then show ?thesis using more(3) that True by blast
  next
    case False
    then have "op_key x \<noteq> k" using more(2) that by simp
    then show ?thesis by (cases x) simp_all
  qed
  then show ?case using ops more by (intro exI [of _ "ops @ more"]) (auto simp: serve_all_def r)
qed

lemma planned_afresh:
  assumes "intercept_mutation env tenant m c = (Planned pl False, c1)"
  obtains stored c0 where "pl = render env stored" "c1 = command_cache_put (route_key env tenant m) stored c0"
    "cc_max c0 = cc_max c"
  using assms by (auto simp: intercept_mutation_def command_cache_get_def Let_def split: prod.splits option.splits sum.splits if_splits)

section \<open>Properties\<close>

text \<open>
  A cyclic flow network does not cost the alarm its plan.  In a projected payload the upstream nodes
  are the valid, distinct ones of the mutation in their order, less the asset and those that are also
  downstream; the downstream nodes are kept; and the payload meets the whole contract of the engine.  The
  status of the neighbours is never carried over.
\<close>
theorem projection_resolves_loops:
  "mutation_to_graph_payload env m = Inr p \<Longrightarrow>
   (\<exists>ctx up down. dict_or_empty (j_get m ''ontology_context'') = Inr ctx \<and>
      flow_ids env (j_get ctx ''upstream_dependencies'') (mutation_asset_id env m) = Inr up \<and>
      flow_ids env (j_get ctx ''downstream_impacts'') (mutation_asset_id env m) = Inr down \<and>
      gc_upstream (gp_context p) = filter (\<lambda>n. n \<notin> set down) up \<and> gc_downstream (gp_context p) = down \<and>
      distinct (mutation_asset_id env m # gc_upstream (gp_context p) @ down)) \<and>
   payload_wf p \<and> gc_dependency_health (gp_context p) = []"
  (is "_ \<Longrightarrow> (\<exists>ctx up down. ?parts ctx up down) \<and> _")
proof -
  assume "mutation_to_graph_payload env m = Inr p"
  then obtain ctx up down where c: "dict_or_empty (j_get m ''ontology_context'') = Inr ctx"
    "flow_ids env (j_get ctx ''upstream_dependencies'') (mutation_asset_id env m) = Inr up"
    "flow_ids env (j_get ctx ''downstream_impacts'') (mutation_asset_id env m) = Inr down"
    "gc_upstream (gp_context p) = filter (\<lambda>n. n \<notin> set down) up" "gc_downstream (gp_context p) = down"
    "gc_dependency_health (gp_context p) = []" "payload_wf p"
    by (rule projection_parts)
  have d: "distinct (mutation_asset_id env m # gc_upstream (gp_context p) @ down)"
    using flow_ids_ok [OF c(2)] flow_ids_ok [OF c(3)] by (auto simp: c(4))
  have "?parts ctx up down" by (intro conjI c d)
  then show ?thesis using c(6,7) by blast
qed

text \<open>
  Through the worker-facing route no cascade is ever found.  The projection carries no health of the
  neighbours, so unless a sensor id itself names a node with a double colon, the kernel attributes every
  fault to the reporting asset, whatever the state of the nodes upstream.
\<close>
theorem bridged_faults_stay_local:
  "mutation_to_graph_payload env m = Inr p \<Longrightarrow>
   list_all (\<lambda>(k, x). split_channel k = None) (channels (gp_telemetry p)) \<Longrightarrow>
   analyse_topology fmt p s = Inr t \<Longrightarrow>
   ta_class t \<noteq> InheritedCascade \<and> ta_root_cause t = am_uuid (gp_asset p) \<and> ta_cascade_path t = []"
proof -
  assume "mutation_to_graph_payload env m = Inr p" and l: "list_all (\<lambda>(k, x). split_channel k = None) (channels (gp_telemetry p))"
    and t: "analyse_topology fmt p s = Inr t"
  then have h: "gc_dependency_health (gp_context p) = []" by (auto elim: projection_parts)
  have att: "fold attribute_channel cs acc = acc" if "list_all (\<lambda>(k, x). split_channel k = None) cs" for cs acc
    using that by (induction cs arbitrary: acc) (auto simp: attribute_channel_def)
  have "attributed_channels (gp_telemetry p) = []" using att [OF l] by (simp add: attributed_channels_def)
  then have "\<not> upstream_faulted fmt p n" for n
    by (simp add: upstream_faulted_def node_is_faulted_def h Let_def)
  then have nf: "\<not> (\<exists>n \<in> set (gc_upstream (gp_context p)). upstream_faulted fmt p n)" by blast
  obtain crdt where "t = analysis_of fmt p s crdt" using t by (rule analyse_topology_Inr)
  then show ?thesis using analysis_no_cascade [OF nf, of s crdt] by (auto split: if_splits)
qed

text \<open>
  C15: A plan the engine issues is a valid plan of the worker's contract, with one command per step of the
  sequence in its order; and every action word in it is one the worker knows, an irreversible step being
  the action itself and a reversible one what its actor does.
\<close>
theorem bridged_plan_valid:
  "mutation_to_graph_payload benv m = Inr p \<Longrightarrow> run_engine env s p = Inr out \<Longrightarrow> 0 < set_max_isolation_steps s \<Longrightarrow>
   build_command hex p out tenant = a \<Longrightarrow>
   action_plan_ok (action_to_plan g model lat a) \<and>
   map (\<lambda>c. map_of ACTION_ALIASES (str_upper (str_strip (pa_action c)))) (pl_commands (action_to_plan g model lat a)) =
     map (\<lambda>x. Some (step_action (ac_action a) x)) (ac_steps a)"
proof -
  assume a: "mutation_to_graph_payload benv m = Inr p" "run_engine env s p = Inr out" "0 < set_max_isolation_steps s"
    "build_command hex p out tenant = a"
  have c: "command_sound a" using issued_command_sound [OF a(1-3)] a(4) by blast
  then have "ac_steps a \<noteq> []" by (simp add: command_sound_def)
  then show ?thesis using sound_plan_valid [OF c] by (simp add: plan_steps step_command_action)
qed

text \<open>
  What the worker publishes for an issued command: one command for each of the first steps, as many as
  it accepts, in their order.  The action is that of the step; the target is the asset of the mutation, the
  node of the step being the component; whether the engine forced authorisation arrives as the escalation
  flag only, and approval is asked again by the worker's own rule.
\<close>
theorem bridged_commands:
  "translate_plan uuid5 t m (worker_reads (action_to_plan g model lat a)) sub s corr = Inr cs \<Longrightarrow>
   ac_steps a \<noteq> [] \<Longrightarrow> list_all (\<lambda>x. node_id_ok (st_target x)) (ac_steps a) \<Longrightarrow>
   map cp_action_type cs = map (step_action (ac_action a)) (take (nat (s_max_commands s)) (ac_steps a)) \<and>
   map cp_target_component cs = map (Some \<circ> st_target) (take (nat (s_max_commands s)) (ac_steps a)) \<and>
   list_all (\<lambda>c. cp_target_asset_id c = str_strip (mu_asset_id m) \<and> cp_escalation_required c = ac_authorization a \<and>
     (cp_requires_human_approval c \<longleftrightarrow>
        \<not> autonomous_execution_allowed sub \<or> cp_action_type c \<in> {ISOLATE, SHUTDOWN})) cs"
proof -
  assume tr: "translate_plan uuid5 t m (worker_reads (action_to_plan g model lat a)) sub s corr = Inr cs"
    and ne: "ac_steps a \<noteq> []" and ok: "list_all (\<lambda>x. node_id_ok (st_target x)) (ac_steps a)"
  let ?taken = "take (nat (s_max_commands s)) (ac_steps a)"
  have l: "length cs = length ?taken"
    using translate_plan_Inr [OF tr] by (simp add: planned_steps_def worker_reads_steps [OF ne])
  note b = bridged_step [OF tr ne]
  have nid: "st_target x \<noteq> [] \<and> node_id_ok (st_target x)" if "x \<in> set (ac_steps a)" for x
    using ok that by (auto simp: list_all_iff node_id_ok_def)
  have "cp_target_component (cs ! i) = Some (st_target (ac_steps a ! i))" if "i < length cs" for i
    using b(6) [OF that] nid b(1) [OF that] by simp
  then have comp: "map cp_target_component cs = map (Some \<circ> st_target) ?taken"
    using l by (intro nth_equalityI) simp_all
  have act: "map cp_action_type cs = map (step_action (ac_action a)) ?taken"
    using l b(2) by (intro nth_equalityI) simp_all
  have "cp_target_asset_id c = str_strip (mu_asset_id m) \<and> cp_escalation_required c = ac_authorization a \<and>
     (cp_requires_human_approval c \<longleftrightarrow> \<not> autonomous_execution_allowed sub \<or> cp_action_type c \<in> {ISOLATE, SHUTDOWN})"
    if c: "c \<in> set cs" for c
  proof -
    obtain i where i: "i < length cs" "c = cs ! i" using c by (metis in_set_conv_nth)
    have "requires_approval sub x \<longleftrightarrow> \<not> autonomous_execution_allowed sub \<or> x \<in> {ISOLATE, SHUTDOWN}" for x
      unfolding requires_approval_def is_irreversible_def by blast
    then show ?thesis unfolding i(2) by (intro conjI b(4) [OF i(1)] b(5) [OF i(1)]) (simp only: b(3) [OF i(1)])
  qed
  then have "list_all (\<lambda>c. cp_target_asset_id c = str_strip (mu_asset_id m) \<and> cp_escalation_required c = ac_authorization a \<and>
     (cp_requires_human_approval c \<longleftrightarrow>
        \<not> autonomous_execution_allowed sub \<or> cp_action_type c \<in> {ISOLATE, SHUTDOWN})) cs"
    unfolding list_all_iff by blast
  then show ?thesis using act comp by blast
qed

text \<open>
  A ROUTINE command never reaches the field.  The worker has no such priority, so the plan of every
  command the engine issues at ROUTINE is refused as permanently invalid.
\<close>
theorem routine_plan_refused:
  "ac_priority a = GpRoutine \<Longrightarrow> ac_steps a \<noteq> [] \<Longrightarrow> 1 \<le> s_max_commands s \<Longrightarrow>
   translate_plan uuid5 t m (worker_reads (action_to_plan g model lat a)) sub s corr =
     Inl (PermanentMessageError ''unknown_execution_priority'')"
proof -
  assume r: "ac_priority a = GpRoutine" and ne: "ac_steps a \<noteq> []" and m: "1 \<le> s_max_commands s"
  obtain x xs where xs: "ac_steps a = x # xs" using ne by (cases "ac_steps a") auto
  obtain n where n: "nat (s_max_commands s) = Suc n" using m by (cases "nat (s_max_commands s)") auto
  let ?step = "\<lambda>x. strip_action (step_command (action_to_worker (ac_action a)) (graph_priority_value (ac_priority a)) x)"
  let ?taken = "numbered (take (nat (s_max_commands s)) (pl_commands (worker_reads (action_to_plan g model lat a))))"
  have taken: "?taken = numbered (?step x # take n (map ?step xs))" by (simp add: worker_reads_steps [OF ne] xs n)
  have hd: "hd ?taken = (1, ?step x)" "?taken \<noteq> []"
    unfolding taken by (simp_all add: numbered_def upt_rec del: upt_Suc)
  have "map_of PRIORITY_ALIASES (str_upper (str_strip (pa_priority (?step x)))) = None"
    using priority_words [of GpRoutine] by (simp add: strip_action_def step_command_def r)
  then have "translate_step uuid5 t m (worker_reads (action_to_plan g model lat a)) sub s corr (hd ?taken) =
      Inl (PermanentMessageError ''unknown_execution_priority'')"
    unfolding hd translate_step_def using strip_step_action by simp
  then have "map_r (translate_step uuid5 t m (worker_reads (action_to_plan g model lat a)) sub s corr) ?taken =
      Inl (PermanentMessageError ''unknown_execution_priority'')"
    by (rule map_r_first_error [OF hd(2)])
  then show ?thesis unfolding translate_plan_def by (simp only: bind_r_simps)
qed

text \<open>
  A redelivered mutation is answered with the plan it got.  Once planned, and while the requests in
  between, of any tenant, name fewer other events than the cache holds, the same request is answered with
  the same plan, marked as a replay, without another turn of an agent.
\<close>
theorem mutation_route_replays:
  "intercept_mutation env tenant m c = (Planned pl False, c1) \<Longrightarrow>
   card ((\<lambda>(e, n, x). route_key e n x) ` set reqs - {route_key env tenant m}) < cc_max c \<Longrightarrow>
   route_key env2 tenant m = route_key env tenant m \<Longrightarrow> re_model env2 = re_model env \<Longrightarrow>
   ag_format (re_agents env2) = ag_format (re_agents env) \<Longrightarrow>
   fst (intercept_mutation env2 tenant m (serve_all reqs c1)) = Planned pl True"
proof -
  assume p: "intercept_mutation env tenant m c = (Planned pl False, c1)"
    and few: "card ((\<lambda>(e, n, x). route_key e n x) ` set reqs - {route_key env tenant m}) < cc_max c"
    and same: "route_key env2 tenant m = route_key env tenant m" "re_model env2 = re_model env"
      "ag_format (re_agents env2) = ag_format (re_agents env)"
  obtain stored c0 where st: "pl = render env stored" "c1 = command_cache_put (route_key env tenant m) stored c0"
    "cc_max c0 = cc_max c"
    using p by (rule planned_afresh)
  let ?k = "route_key env tenant m"
  obtain ops where ops: "serve_all reqs c1 = fold command_lru.apply_op ops c1" "\<forall>x \<in> set ops. \<not> puts_key ?k x"
    "op_key ` set ops \<subseteq> (\<lambda>(e, n, x). route_key e n x) ` set reqs"
    using serve_all_ops [of reqs ?k c0 stored] few st by auto
  have "card (op_key ` set ops - {?k}) \<le> card ((\<lambda>(e, n, x). route_key e n x) ` set reqs - {?k})"
    using ops(3) by (intro card_mono) auto
  then have "fst (command_cache_get ?k (fold command_lru.apply_op ops (command_cache_put ?k stored c0))) = Some stored"
    using few st(3) ops(2) by (intro command_lru.replay_stable) simp_all
  then have "fst (command_cache_get ?k (serve_all reqs c1)) = Some stored" using ops(1) unfolding st(2) by metis
  moreover have "fst (intercept_mutation env2 tenant m c') = Planned (render env2 x) True"
    if f: "fst (command_cache_get (route_key env2 tenant m) c') = Some x" for c' x
  proof -
    obtain c2 where "command_cache_get (route_key env2 tenant m) c' = (Some x, c2)" 
      using f by (cases "command_cache_get (route_key env2 tenant m) c'") auto
    then show ?thesis by (simp add: intercept_mutation_def Let_def)
  qed
  moreover have "render env2 stored = pl" using same st(1) by (simp add: render_def)
  ultimately show ?thesis using same(1) by simp
qed

section \<open>Witnesses\<close>

definition demo_bridge :: bridge_env where
  "demo_bridge =
     \<lparr>br_repr = (\<lambda>j. []), br_time = (\<lambda>j. Inr 0), br_int = (\<lambda>j. Inr 0), br_now = JNull, br_to_float = (\<lambda>s. None)\<rparr>"

definition demo_flow :: "string \<Rightarrow> json" where
  "demo_flow n = JObj [(''asset_id'', JStr n)]"

definition demo_bridge_mutation :: "(string \<times> json) list" where
  "demo_bridge_mutation =
     [(''event_id'', JStr ''evt-1''), (''asset_id'', JStr ''pump-1''), (''severity'', JStr ''CRITICAL''),
      (''ontology_context'', JObj
         [(''upstream_dependencies'', JList [demo_flow ''pump-1'', demo_flow ''tank-2'', demo_flow ''fan-3'']),
          (''downstream_impacts'', JList [demo_flow ''fan-3''])]),
      (''telemetry_snapshot'', JObj [(''trigger'', JObj [(''sensor_id'', JStr ''flow''), (''value'', JFloat 7)])])]"

lemma demo_projected: "\<not> isl (mutation_to_graph_payload demo_bridge demo_bridge_mutation)"
  by code_simp

definition demo_found :: command_action where
  "demo_found =
     \<lparr>ac_command_id = ''cmd_0f'', ac_event_id = ''evt-1'', ac_tenant = ''acme'', ac_source_asset = ''pump-7'',
      ac_target = ''tank-2'', ac_action = DegradeThrottle, ac_priority = GpHigh,
      ac_steps = [demo_step False 1, handover_step 2 ''tank-2''],
      ac_authorization = True, ac_reversible = False, ac_fault = LocalizedComponent, ac_cascade_path = [],
      ac_blast_radius = [], ac_protection = [], ac_crdt = iv_crdt demo_verdict, ac_confidence = 1,
      ac_rationale = ''r'', ac_evidence = [], ac_guardrails = [], ac_trace = []\<rparr>"

definition demo_route :: route_env where
  "demo_route =
     \<lparr>re_bridge = demo_bridge, re_agents = demo_agents, re_settings = demo_graph_settings, re_model = ''m'',
      re_hex = ''0f'', re_latency = 12\<rparr>"

definition route_planned :: "route_answer \<Rightarrow> bool" where
  "route_planned r = (case r of Planned p replayed \<Rightarrow> \<not> replayed | _ \<Rightarrow> False)"

lemma demo_route_plans:
  "route_planned (fst (intercept_mutation demo_route ''acme'' demo_bridge_mutation \<lparr>cc_max = 2, cc_data = []\<rparr>))"
  by code_simp

lemma demo_engine_runs:
  "case mutation_to_graph_payload demo_bridge demo_bridge_mutation of
     Inl e \<Rightarrow> False
   | Inr p \<Rightarrow> \<not> isl (run_engine demo_agents demo_graph_settings p) \<and>
       \<not> isl (analyse_topology (\<lambda>x. []) p demo_graph_settings) \<and> gc_upstream (gp_context p) = [''tank-2''] \<and>
       list_all (\<lambda>(k, x). split_channel k = None) (channels (gp_telemetry p))"
  by code_simp

lemma demo_found_translates:
  "\<not> isl (translate_plan (\<lambda>s. []) 5 (demo_mutation SevHigh False) (worker_reads (action_to_plan (\<lambda>x. []) ''m'' 0 demo_found))
     demo_subscription default_settings ''c1'')"
  by code_simp

lemma demo_engine:
  obtains p out where "mutation_to_graph_payload demo_bridge demo_bridge_mutation = Inr p"
    "run_engine demo_agents demo_graph_settings p = Inr out" "\<exists>t. analyse_topology (\<lambda>x. []) p demo_graph_settings = Inr t"
    "gc_upstream (gp_context p) = [''tank-2'']"
    "list_all (\<lambda>(k, x). split_channel k = None) (channels (gp_telemetry p))"
  using demo_engine_runs by (auto simp: isl_def split: sum.splits) (metis old.sum.exhaust)

theorem projection_resolves_loops_witness:
  "\<exists>p. mutation_to_graph_payload demo_bridge demo_bridge_mutation = Inr p \<and>
     gc_upstream (gp_context p) = [''tank-2''] \<and> payload_wf p"
  by (rule demo_engine) (use projection_resolves_loops in blast)

theorem bridged_faults_stay_local_witness:
  "\<exists>p t. mutation_to_graph_payload demo_bridge demo_bridge_mutation = Inr p \<and>
     analyse_topology (\<lambda>x. []) p demo_graph_settings = Inr t \<and> ta_cascade_path t = []"
  by (rule demo_engine) (use bridged_faults_stay_local in blast)

theorem bridged_plan_valid_witness:
  "\<exists>p out. mutation_to_graph_payload demo_bridge demo_bridge_mutation = Inr p \<and>
     run_engine demo_agents demo_graph_settings p = Inr out \<and>
     action_plan_ok (action_to_plan (\<lambda>x. []) ''m'' 0 (build_command ''0f'' p out ''acme''))"
proof -
  obtain p out where p: "mutation_to_graph_payload demo_bridge demo_bridge_mutation = Inr p"
    "run_engine demo_agents demo_graph_settings p = Inr out" by (rule demo_engine)
  have "0 < set_max_isolation_steps demo_graph_settings" by (simp add: demo_graph_settings_def)
  then show ?thesis using bridged_plan_valid [OF p _ refl] p by blast
qed

theorem bridged_commands_witness:
  "\<exists>cs. translate_plan (\<lambda>s. []) 5 (demo_mutation SevHigh False)
       (worker_reads (action_to_plan (\<lambda>x. []) ''m'' 0 demo_found)) demo_subscription default_settings ''c1'' = Inr cs \<and>
     map cp_action_type cs = [SHIFT_SPEED, NOTIFY] \<and>
     list_all (\<lambda>c. cp_escalation_required c \<and> \<not> cp_requires_human_approval c) cs"
proof -
  obtain cs where tr: "translate_plan (\<lambda>s. []) 5 (demo_mutation SevHigh False)
       (worker_reads (action_to_plan (\<lambda>x. []) ''m'' 0 demo_found)) demo_subscription default_settings ''c1'' = Inr cs"
    using demo_found_translates by (metis isl_def old.sum.exhaust)
  have c: "ac_steps demo_found \<noteq> []" "list_all (\<lambda>x. node_id_ok (st_target x)) (ac_steps demo_found)"
    "map (step_action (ac_action demo_found)) (take (nat (s_max_commands default_settings)) (ac_steps demo_found)) =
      [SHIFT_SPEED, NOTIFY]" "ac_authorization demo_found" "autonomous_execution_allowed demo_subscription"
    by code_simp+
  have acts: "map cp_action_type cs = [SHIFT_SPEED, NOTIFY]" using bridged_commands [OF tr c(1,2)] c(3) by simp
  then have "list_all (\<lambda>c. cp_action_type c \<notin> {ISOLATE, SHUTDOWN}) cs" by auto
  then show ?thesis using bridged_commands [OF tr c(1,2)] acts c(4,5) tr by (auto simp: list_all_iff)
qed

theorem routine_plan_refused_witness:
  "translate_plan (\<lambda>s. []) 5 (demo_mutation SevHigh False)
     (worker_reads (action_to_plan (\<lambda>x. []) ''m'' 0 (demo_found\<lparr>ac_priority := GpRoutine\<rparr>)))
     demo_subscription default_settings ''c1'' = Inl (PermanentMessageError ''unknown_execution_priority'')"
  by (rule routine_plan_refused) (simp_all add: demo_found_def default_limits)

theorem mutation_route_replays_witness:
  "\<exists>pl c1. intercept_mutation demo_route ''acme'' demo_bridge_mutation \<lparr>cc_max = 2, cc_data = []\<rparr> = (Planned pl False, c1) \<and>
     fst (intercept_mutation demo_route ''acme'' demo_bridge_mutation
       (serve_all [(demo_route, ''other'', demo_bridge_mutation), (demo_route, ''acme'', demo_bridge_mutation)] c1)) =
     Planned pl True"
proof -
  let ?c = "\<lparr>cc_max = 2, cc_data = []\<rparr> :: (command_action \<times> rat) command_cache"
  obtain pl c1 where p: "intercept_mutation demo_route ''acme'' demo_bridge_mutation ?c = (Planned pl False, c1)"
    using demo_route_plans
    by (cases "intercept_mutation demo_route ''acme'' demo_bridge_mutation ?c")
      (auto simp: route_planned_def split: route_answer.splits)
  let ?reqs = "[(demo_route, ''other'', demo_bridge_mutation), (demo_route, ''acme'', demo_bridge_mutation)]"
  have "card ({route_key demo_route ''other'' demo_bridge_mutation, k} - {k}) < 2" for k
    by (rule le_less_trans [OF card_mono [of "{route_key demo_route ''other'' demo_bridge_mutation}"]]) auto
  then have few: "card ((\<lambda>(e, n, x). route_key e n x) ` set ?reqs - {route_key demo_route ''acme'' demo_bridge_mutation}) < cc_max ?c"
    by (simp only: list.set image_insert image_empty split_conv command_cache.select_convs)
  then show ?thesis using mutation_route_replays [OF p few refl refl refl] p by blast
qed

end
