(* ===== verification/Manual_Corpus.thy ===== *)
theory Manual_Corpus
  imports Graph_Engine "HOL-Library.Word"
begin

text \<open>
  The maintenance manual of the GraphRAG interceptor and its retrieval: the chunks of the corpus, the
  hashed embedding, the hybrid score, the ranked search and the merge of the two queries of a verdict
  (section 3 of graphrag_interceptor.py, MultiAgentGraphEngine._retrieve and the guideline references of
  build_command_response).

  The digest of a token, of which 64 bits are used, and the square root are arguments.
\<close>

section \<open>Text\<close>

text \<open>The maximal runs of the characters that satisfy a predicate.\<close>

function char_runs :: "(char \<Rightarrow> bool) \<Rightarrow> string \<Rightarrow> string list" where
  "char_runs P s =
     (case dropWhile (\<lambda>c. \<not> P c) s of
        [] \<Rightarrow> []
      | c # cs \<Rightarrow> (c # takeWhile P cs) # char_runs P (dropWhile P cs))"
  by pat_completeness auto

termination
proof (relation "measure (\<lambda>(P, s). length s)")
  fix P :: "char \<Rightarrow> bool" and s c cs
  assume "dropWhile (\<lambda>c. \<not> P c) s = c # cs"
  then have "length (c # cs) \<le> length s" by (metis length_dropWhile_le)
  moreover have "length (dropWhile P cs) \<le> length cs" by (rule length_dropWhile_le)
  ultimately show "((P, dropWhile P cs), (P, s)) \<in> measure (\<lambda>(P, s). length s)" by simp
qed simp

declare char_runs.simps [simp del]

definition py_words :: "string \<Rightarrow> string list" where
  "py_words s = char_runs (\<lambda>c. \<not> is_space c) s"

definition token_char :: "char \<Rightarrow> bool" where
  "token_char c \<longleftrightarrow> (let n = (of_char c :: nat) in 97 \<le> n \<and> n \<le> 122 \<or> 48 \<le> n \<and> n \<le> 57)"

definition tokenize :: "string \<Rightarrow> string list" where
  "tokenize text = char_runs token_char (str_lower text)"

section \<open>The corpus\<close>

record procedure_step =
  ps_actor :: step_actor
  ps_instruction :: string
  ps_verification :: string
  ps_reversible :: bool
  ps_seconds :: int

record manual_chunk =
  mc_doc_id :: string
  mc_title :: string
  mc_source :: string
  mc_revision :: string
  mc_body :: string
  mc_procedure :: "procedure_step list"
  mc_families :: "string list"
  mc_actions :: "graph_action list"
  mc_classes :: "fault_class list"
  mc_tags :: "string list"
  mc_supplementary :: bool

fun graph_action_text :: "graph_action \<Rightarrow> string" where
  "graph_action_text IsolateValve = ''ISOLATE_VALVE''"
| "graph_action_text EmergencyShutdown = ''EMERGENCY_SHUTDOWN''"
| "graph_action_text DegradeThrottle = ''DEGRADE_THROTTLE''"

fun fault_text :: "fault_class \<Rightarrow> string" where
  "fault_text LocalizedComponent = ''LOCALIZED_COMPONENT''"
| "fault_text InheritedCascade = ''INHERITED_CASCADE''"
| "fault_text Indeterminate = ''INDETERMINATE''"
| "fault_text NoFaultDetected = ''NO_FAULT_DETECTED''"

definition indexable_text :: "manual_chunk \<Rightarrow> string" where
  "indexable_text c =
     str_join '' ''
       [mc_title c, mc_body c, str_join '' '' (mc_tags c), str_join '' '' (mc_families c),
        str_join '' '' (map graph_action_text (mc_actions c)), str_join '' '' (map fault_text (mc_classes c))]"

text \<open>The mark of a cut excerpt is the ellipsis character, in UTF-8.\<close>

definition str_rstrip :: "string \<Rightarrow> string" where
  "str_rstrip s = rev (dropWhile is_space (rev s))"

definition excerpt :: "nat \<Rightarrow> manual_chunk \<Rightarrow> string" where
  "excerpt bound c =
     (let text = str_join '' '' (py_words (mc_body c)) in
      if length text \<le> bound then text
      else str_rstrip (take (bound - 1) text) @ [CHR 0xE2, CHR 0x80, CHR 0xA6])"

definition manual_rot :: manual_chunk where
  "manual_rot =
     \<lparr>mc_doc_id = ''MM-ROT-004-7.3'', mc_title = ''Rotating Equipment: Vibration Excursion Containment'',
      mc_source = ''MAINT-MAN-ROT-004 sec. 7.3'', mc_revision = ''Rev G'',
      mc_body =
        ''Broadband velocity above the critical limit on a rotating assembly indicates bearing '' @
        ''distress, coupling misalignment or rotor imbalance. Reduce shaft speed before any '' @
        ''isolation attempt: closing a discharge path against a rotating assembly at speed '' @
        ''drives the machine into surge. Confirm the reduced-speed vibration signature before '' @
        ''committing to isolation, then close the discharge valve and lock the actuator.'',
      mc_procedure =
       [\<lparr>ps_actor = ControlSystem,
         ps_instruction =
           ''Ramp {target_name} ({target}) to 60 percent of commanded speed over 90 seconds; '' @
           ''hold and re-sample the vibration signature.'',
         ps_verification = ''Vibration velocity trends downward within two sample windows.'',
         ps_reversible = True, ps_seconds = 120\<rparr>,
        \<lparr>ps_actor = RoboticActuator,
         ps_instruction =
           ''Close the discharge isolation valve on {target} to 20 percent, then to fully shut '' @
           ''in two stages, monitoring differential pressure between stages.'',
         ps_verification = ''Valve position feedback reads shut and downstream pressure decays.'',
         ps_reversible = True, ps_seconds = 180\<rparr>,
        \<lparr>ps_actor = HumanTechnician,
         ps_instruction =
           ''Apply mechanical lockout to the {target} actuator at {location} and tag the '' @
           ''isolation against the work order.'',
         ps_verification = ''Lockout tag photographed and attached to the work order record.'',
         ps_reversible = True, ps_seconds = 300\<rparr>],
      mc_families = [''TRB'', ''PMP'', ''CMP'', ''FAN''], mc_actions = [IsolateValve, DegradeThrottle],
      mc_classes = [LocalizedComponent],
      mc_tags = [''vibration'', ''bearing'', ''rotating'', ''isolation'', ''surge''], mc_supplementary = False\<rparr>"

definition manual_thm :: manual_chunk where
  "manual_thm =
     \<lparr>mc_doc_id = ''MM-THM-011-2.1'', mc_title = ''Hard Thermal Limit: Emergency Shutdown Sequence'',
      mc_source = ''MAINT-MAN-THM-011 sec. 2.1'', mc_revision = ''Rev D'',
      mc_body =
        ''A metal temperature at or above the hard limit is a permit-to-operate breach. Trip the '' @
        ''asset on its own emergency stop rather than by removing supply: an upstream cut leaves '' @
        ''the rotor windmilling without lubrication. Maintain auxiliary lubrication and cooling '' @
        ''through the coast-down, and evacuate the immediate radius before the trip lands.'',
      mc_procedure =
       [\<lparr>ps_actor = HumanSupervisor,
         ps_instruction =
           ''Clear personnel from the {location} radius and confirm the evacuation over the '' @
           ''unit channel before the trip is armed.'',
         ps_verification = ''Muster count confirmed against the site access log.'',
         ps_reversible = True, ps_seconds = 180\<rparr>,
        \<lparr>ps_actor = ControlSystem,
         ps_instruction =
           ''Arm and execute the emergency stop on {target_name} ({target}); hold auxiliary '' @
           ''lubrication and cooling online through the full coast-down.'',
         ps_verification = ''Shaft speed reaches zero with lube oil pressure maintained above minimum.'',
         ps_reversible = False, ps_seconds = 240\<rparr>,
        \<lparr>ps_actor = RoboticActuator,
         ps_instruction =
           ''Shut the supply isolation valve on {target} only after coast-down completes.'',
         ps_verification = ''Valve position feedback reads shut and inlet pressure decays to ambient.'',
         ps_reversible = False, ps_seconds = 120\<rparr>,
        \<lparr>ps_actor = HumanTechnician,
         ps_instruction =
           ''Record metal temperature at 5-minute intervals until it falls below the warn '' @
           ''limit; do not break containment before then.'',
         ps_verification = ''Three consecutive readings below the warn limit are logged.'',
         ps_reversible = True, ps_seconds = 1800\<rparr>],
      mc_families = [], mc_actions = [EmergencyShutdown],
      mc_classes = [LocalizedComponent, InheritedCascade],
      mc_tags = [''temperature'', ''thermal'', ''shutdown'', ''trip'', ''coast-down'', ''emergency''], mc_supplementary = False\<rparr>"

definition manual_cas :: manual_chunk where
  "manual_cas =
     \<lparr>mc_doc_id = ''MM-CAS-021-4.4'', mc_title = ''Upstream Feed Isolation for Inherited Cascade Faults'',
      mc_source = ''MAINT-MAN-CAS-021 sec. 4.4'', mc_revision = ''Rev C'',
      mc_body =
        ''When the disturbance originates upstream, isolating the reporting asset removes the '' @
        ''symptom and leaves the source live to propagate along its remaining paths. Stabilise '' @
        ''the reporting asset first so it survives the transient, then isolate at the origin '' @
        ''node, then verify that the intervening nodes recover on their own. Intervening nodes '' @
        ''that do not recover after origin isolation are independent faults and need their own '' @
        ''work orders.'',
      mc_procedure =
       [\<lparr>ps_actor = ControlSystem,
         ps_instruction =
           ''Hold {asset_name} ({asset}) at reduced load to ride out the upstream transient; '' @
           ''do not isolate the reporting asset yet.'',
         ps_verification = ''Reporting asset remains within its warn band at reduced load.'',
         ps_reversible = True, ps_seconds = 120\<rparr>,
        \<lparr>ps_actor = RoboticActuator,
         ps_instruction =
           ''Close the outlet isolation valve at the cascade origin {target} to arrest '' @
           ''propagation along {cascade_summary}.'',
         ps_verification = ''Origin outlet valve reads shut and its downstream pressure decays.'',
         ps_reversible = True, ps_seconds = 240\<rparr>,
        \<lparr>ps_actor = HumanTechnician,
         ps_instruction =
           ''Walk the cascade path {cascade_summary} and confirm each intervening node returns '' @
           ''to nominal once the origin is isolated.'',
         ps_verification = ''Every intervening node is nominal, or is raised as an independent fault.'',
         ps_reversible = True, ps_seconds = 900\<rparr>],
      mc_families = [], mc_actions = [IsolateValve, EmergencyShutdown],
      mc_classes = [InheritedCascade],
      mc_tags = [''cascade'', ''upstream'', ''propagation'', ''origin'', ''isolation''], mc_supplementary = False\<rparr>"

definition manual_deg :: manual_chunk where
  "manual_deg =
     \<lparr>mc_doc_id = ''MM-DEG-008-3.2'', mc_title = ''Throttle to Safe State under Degraded Ontology Confidence'',
      mc_source = ''MAINT-MAN-DEG-008 sec. 3.2'', mc_revision = ''Rev B'',
      mc_body =
        ''Where the asset register cannot be trusted -- an unresolved replication conflict, a '' @
        ''tombstoned vertex still reporting, or diverging replicas -- no irreversible field '' @
        ''action may be authorised. Throttle to the documented safe state, which is reversible '' @
        ''from the control room, and force a graph reconciliation before escalating. Throttling '' @
        ''buys time without committing the site to an action that cannot be undone.'',
      mc_procedure =
       [\<lparr>ps_actor = ControlSystem,
         ps_instruction =
           ''Throttle {target_name} ({target}) to the documented safe-state setpoint and '' @
           ''inhibit automatic setpoint recovery.'',
         ps_verification = ''Setpoint reads safe-state and the recovery inhibit is latched.'',
         ps_reversible = True, ps_seconds = 90\<rparr>,
        \<lparr>ps_actor = HumanTechnician,
         ps_instruction =
           ''Verify the asset register entry for {target} against the physical nameplate at '' @
           ''{location} and report the discrepancy.'',
         ps_verification = ''Nameplate photograph attached to the reconciliation ticket.'',
         ps_reversible = True, ps_seconds = 600\<rparr>],
      mc_families = [], mc_actions = [DegradeThrottle],
      mc_classes = [Indeterminate, NoFaultDetected],
      mc_tags = [''degraded'', ''safe-state'', ''throttle'', ''reversible'', ''reconciliation'', ''crdt''], mc_supplementary = False\<rparr>"

definition manual_blr :: manual_chunk where
  "manual_blr =
     \<lparr>mc_doc_id = ''MM-BLR-002-5.1'', mc_title = ''Blast Radius Protection for Downstream Consumers'',
      mc_source = ''MAINT-MAN-BLR-002 sec. 5.1'', mc_revision = ''Rev F'',
      mc_body =
        ''Before any supply interruption, place every downstream consumer into a state that '' @
        ''tolerates loss of feed. Consumers taken out from under load trip on their own '' @
        ''protection and turn one isolation into a unit-wide outage. Sequence the downstream '' @
        ''transfer before the isolation, never after.'',
      mc_procedure =
       [\<lparr>ps_actor = ControlSystem,
         ps_instruction =
           ''Transfer downstream consumers {downstream_summary} to standby feed or reduced '' @
           ''load before the isolation lands.'',
         ps_verification = ''Each downstream consumer reports a stable state on standby feed.'',
         ps_reversible = True, ps_seconds = 180\<rparr>,
        \<lparr>ps_actor = HumanSupervisor,
         ps_instruction =
           ''Notify {operator} and the {parent} control room that {downstream_count} downstream '' @
           ''node(s) are exposed by this action.'',
         ps_verification = ''Acknowledgement received from the control room.'',
         ps_reversible = True, ps_seconds = 120\<rparr>],
      mc_families = [], mc_actions = [],
      mc_classes = [],
      mc_tags = [''blast'', ''downstream'', ''consumers'', ''standby'', ''protection''], mc_supplementary = True\<rparr>"

definition manual_crdt :: manual_chunk where
  "manual_crdt =
     \<lparr>mc_doc_id = ''MM-CRDT-014-1.6'', mc_title = ''CRDT Reconciliation Before Irreversible Field Action'',
      mc_source = ''MAINT-MAN-CRDT-014 sec. 1.6'', mc_revision = ''Rev A'',
      mc_body =
        ''The replicated asset graph converges without coordination, so a field crew may be '' @
        ''acting on a vertex whose liveness is still contested. Where the add and remove stamps '' @
        ''tie, or replicas disagree, force a reconciliation pass and re-read the vertex before '' @
        ''committing an irreversible action. A tie resolves to removed on a leaf and to added '' @
        ''where live downstream dependents exist; either way the resolution must be recorded '' @
        ''against the work order.'',
      mc_procedure =
       [\<lparr>ps_actor = ControlSystem,
         ps_instruction =
           ''Force a reconciliation pass across the replicas holding {target} and re-read the '' @
           ''vertex once the merge settles.'',
         ps_verification = ''Vertex liveness is uncontested on every replica after the merge.'',
         ps_reversible = True, ps_seconds = 120\<rparr>,
        \<lparr>ps_actor = HumanSupervisor,
         ps_instruction =
           ''Record the applied tie-breaker rule and the resolved liveness against the work '' @
           ''order before authorising field work on {target}.'',
         ps_verification = ''Tie-breaker rule and resolved presence captured in the work order.'',
         ps_reversible = True, ps_seconds = 180\<rparr>],
      mc_families = [], mc_actions = [],
      mc_classes = [],
      mc_tags = [''crdt'', ''lamport'', ''reconciliation'', ''replica'', ''tie-breaker'', ''convergence''], mc_supplementary = True\<rparr>"

definition manual_loto :: manual_chunk where
  "manual_loto =
     \<lparr>mc_doc_id = ''MM-LOTO-006-9.2'', mc_title = ''Valve Actuator Lockout and Tagout'',
      mc_source = ''MAINT-MAN-LOTO-006 sec. 9.2'', mc_revision = ''Rev H'',
      mc_body =
        ''A commanded-shut valve is not an isolation until its actuator is mechanically locked '' @
        ''and the stored energy is bled. Prove the isolation by attempting to open against the '' @
        ''lock, then bleed the trapped volume to a safe receiver.'',
      mc_procedure =
       [\<lparr>ps_actor = HumanTechnician,
         ps_instruction =
           ''Lock the {target} actuator in the shut position and attempt a controlled open to '' @
           ''prove the lock holds.'',
         ps_verification = ''Actuator does not move under the open command; lock proven.'',
         ps_reversible = True, ps_seconds = 420\<rparr>,
        \<lparr>ps_actor = HumanTechnician,
         ps_instruction =
           ''Bleed trapped volume downstream of {target} to the safe receiver and confirm zero '' @
           ''gauge pressure.'',
         ps_verification = ''Local gauge reads zero and the bleed is witnessed.'',
         ps_reversible = True, ps_seconds = 300\<rparr>],
      mc_families = [], mc_actions = [IsolateValve, EmergencyShutdown],
      mc_classes = [],
      mc_tags = [''lockout'', ''tagout'', ''valve'', ''actuator'', ''stored-energy'', ''loto''], mc_supplementary = True\<rparr>"

definition manual_hex :: manual_chunk where
  "manual_hex =
     \<lparr>mc_doc_id = ''MM-HEX-017-6.5'', mc_title = ''Heat Exchanger Fouling and Differential Pressure'',
      mc_source = ''MAINT-MAN-HEX-017 sec. 6.5'', mc_revision = ''Rev C'',
      mc_body =
        ''Rising differential pressure with rising outlet temperature indicates tube-side '' @
        ''fouling. Throttle rather than isolate while the bundle is hot: a cold-side isolation '' @
        ''on a hot bundle thermally shocks the tube sheet.'',
      mc_procedure =
       [\<lparr>ps_actor = ControlSystem,
         ps_instruction =
           ''Reduce throughput across {target_name} ({target}) in 10 percent decrements until '' @
           ''differential pressure falls below the warn limit.'',
         ps_verification = ''Differential pressure below warn limit for two sample windows.'',
         ps_reversible = True, ps_seconds = 300\<rparr>,
        \<lparr>ps_actor = HumanTechnician,
         ps_instruction =
           ''Raise a bundle cleaning work order against {target} for the next window at '' @
           ''{location}.'',
         ps_verification = ''Work order number recorded against the asset.'',
         ps_reversible = True, ps_seconds = 600\<rparr>],
      mc_families = [''HX'', ''HEX'', ''COOL''], mc_actions = [DegradeThrottle, IsolateValve],
      mc_classes = [],
      mc_tags = [''fouling'', ''differential'', ''exchanger'', ''thermal-shock'', ''throttle''], mc_supplementary = False\<rparr>"

definition manual_ctl :: manual_chunk where
  "manual_ctl =
     \<lparr>mc_doc_id = ''MM-CTL-009-2.8'', mc_title = ''Control Loop Saturation and Actuator Wind-Up'',
      mc_source = ''MAINT-MAN-CTL-009 sec. 2.8'', mc_revision = ''Rev E'',
      mc_body =
        ''A saturated loop reports a deviation the plant cannot close. Break the loop to manual '' @
        ''at the last known good output before the integrator winds further; isolating the '' @
        ''actuator while the loop is saturated produces a step change on release.'',
      mc_procedure =
       [\<lparr>ps_actor = ControlSystem,
         ps_instruction =
           ''Place the {target} control loop in manual at the last known good output and clear '' @
           ''the integrator.'',
         ps_verification = ''Loop reads manual, output matches the last good value, integrator cleared.'',
         ps_reversible = True, ps_seconds = 60\<rparr>,
        \<lparr>ps_actor = HumanTechnician,
         ps_instruction =
           ''Stroke the {target} actuator locally through its range and record the response '' @
           ''against the commissioning curve.'',
         ps_verification = ''Stroke response is within the commissioning tolerance.'',
         ps_reversible = True, ps_seconds = 900\<rparr>],
      mc_families = [''CTRL'', ''FADEC'', ''PLC''], mc_actions = [DegradeThrottle],
      mc_classes = [],
      mc_tags = [''control'', ''saturation'', ''wind-up'', ''manual'', ''loop''], mc_supplementary = False\<rparr>"

definition manual_cls :: manual_chunk where
  "manual_cls =
     \<lparr>mc_doc_id = ''MM-CLS-001-8.9'', mc_title = ''Post-Intervention Verification and Work Order Capture'',
      mc_source = ''MAINT-MAN-CLS-001 sec. 8.9'', mc_revision = ''Rev J'',
      mc_body =
        ''Every intervention closes the same way: prove the intended physical state, write the '' @
        ''resulting state back to the asset graph so the next mutation is evaluated against '' @
        ''reality, and hand the asset to the accountable operator with an explicit next action.'',
      mc_procedure =
       [\<lparr>ps_actor = HumanTechnician,
         ps_instruction =
           ''Confirm the achieved physical state of {target} and write the resulting status '' @
           ''back to the asset graph vertex.'',
         ps_verification = ''Graph vertex status matches the observed physical state.'',
         ps_reversible = True, ps_seconds = 240\<rparr>,
        \<lparr>ps_actor = HumanSupervisor,
         ps_instruction =
           ''Hand {target} to {operator} with the recorded evidence and the agreed next '' @
           ''action.'',
         ps_verification = ''Handover acknowledged by the accountable operator.'',
         ps_reversible = True, ps_seconds = 180\<rparr>],
      mc_families = [], mc_actions = [],
      mc_classes = [],
      mc_tags = [''verification'', ''closure'', ''handover'', ''work-order'', ''graph-writeback''], mc_supplementary = True\<rparr>"

definition MAINTENANCE_CORPUS :: "manual_chunk list" where
  "MAINTENANCE_CORPUS =
     [manual_rot, manual_thm, manual_cas, manual_deg, manual_blr, manual_crdt, manual_loto, manual_hex, manual_ctl, manual_cls]"

section \<open>The embedding and the score\<close>

record embed_env =
  ee_digest :: "string \<Rightarrow> 64 word"
  ee_sqrt :: "rat \<Rightarrow> rat"

definition EMBEDDING_DIM :: nat where "EMBEDDING_DIM = 256"

definition token_bucket :: "64 word \<Rightarrow> nat" where
  "token_bucket w = unat w mod EMBEDDING_DIM"

definition token_sign :: "64 word \<Rightarrow> rat" where
  "token_sign w = (if bit w 63 then 1 else - 1)"

definition add_token :: "embed_env \<Rightarrow> string \<Rightarrow> rat list \<Rightarrow> rat list" where
  "add_token env token v =
     (let w = ee_digest env token; i = token_bucket w in v[i := v ! i + token_sign w])"

definition embed :: "embed_env \<Rightarrow> string \<Rightarrow> rat list" where
  "embed env text =
     (let v = fold (add_token env) (tokenize text) (replicate EMBEDDING_DIM 0);
          norm = ee_sqrt env (sum_list (map (\<lambda>x. x * x) v))
      in if norm = 0 then v else map (\<lambda>x. x / norm) v)"

definition cosine :: "rat list \<Rightarrow> rat list \<Rightarrow> rat" where
  "cosine left right = sum_list (map2 (*) left right)"

record vector_store =
  vs_corpus :: "manual_chunk list"
  vs_embeddings :: "(string, rat list) odict"
  vs_tokens :: "(string, string list) odict"

text \<open>A set of tokens is the list of its elements, each once.\<close>

definition vector_store_init :: "embed_env \<Rightarrow> manual_chunk list \<Rightarrow> vector_store" where
  "vector_store_init env corpus =
     \<lparr>vs_corpus = corpus,
      vs_embeddings = fold (\<lambda>c. AList.update (mc_doc_id c) (embed env (indexable_text c))) corpus [],
      vs_tokens = fold (\<lambda>c. AList.update (mc_doc_id c) (remdups (tokenize (indexable_text c)))) corpus []\<rparr>"

definition od_item :: "('k, 'v list) odict \<Rightarrow> 'k \<Rightarrow> 'v list" where
  "od_item d k = (case map_of d k of None \<Rightarrow> [] | Some v \<Rightarrow> v)"

definition metadata_term :: "'a option \<Rightarrow> 'a list \<Rightarrow> rat \<Rightarrow> rat \<Rightarrow> rat" where
  "metadata_term wanted declared gain loss =
     (case wanted of
        None \<Rightarrow> 0
      | Some x \<Rightarrow> if declared = [] then 0 else if x \<in> set declared then gain else - loss)"

text \<open>An empty family counts as none.\<close>

definition chunk_score ::
    "vector_store \<Rightarrow> manual_chunk \<Rightarrow> rat list \<Rightarrow> string list \<Rightarrow> string option \<Rightarrow> graph_action option
      \<Rightarrow> fault_class option \<Rightarrow> rat" where
  "chunk_score store c query_vector query_tokens family action class =
     (let cos = cosine query_vector (od_item (vs_embeddings store) (mc_doc_id c));
          shared = filter (\<lambda>t. t \<in> set (od_item (vs_tokens store) (mc_doc_id c))) query_tokens;
          overlap = of_nat (length shared) / of_nat (max 1 (length query_tokens));
          wanted_family = (if family = Some [] then None else family)
      in py_round
           (55/100 * max 0 cos + 45/100 * overlap + metadata_term wanted_family (mc_families c) (25/100) (20/100) +
            metadata_term action (mc_actions c) (30/100) (35/100) +
            metadata_term class (mc_classes c) (20/100) (15/100)) 6)"

section \<open>Search and merge\<close>

definition rank_key :: "manual_chunk \<times> rat \<Rightarrow> rat \<times> string" where
  "rank_key p = (- snd p, mc_doc_id (fst p))"

definition search ::
    "embed_env \<Rightarrow> vector_store \<Rightarrow> string \<Rightarrow> nat \<Rightarrow> string option \<Rightarrow> graph_action option \<Rightarrow> fault_class option
      \<Rightarrow> bool \<Rightarrow> (manual_chunk \<times> rat) list" where
  "search env store query top_k family action class include_supplementary =
     (let qv = embed env query;
          qt = remdups (tokenize query);
          scored = map (\<lambda>c. (c, chunk_score store c qv qt family action class))
                     (filter (\<lambda>c. \<not> (mc_supplementary c \<and> \<not> include_supplementary)) (vs_corpus store))
      in take top_k (sort_key rank_key (filter (\<lambda>p. 0 < snd p) scored)))"

text \<open>The breached channels, worst first, and the two queries of a verdict.\<close>

definition analyse_channels_for_query :: "graph_payload \<Rightarrow> exceedance list" where
  "analyse_channels_for_query p =
     filter (\<lambda>e. band_rank (ex_band e) \<ge> band_rank BandWarn)
       (evaluate_channels (local_channels (gp_telemetry p)) (am_uuid (gp_asset p)))"

definition primary_query :: "graph_payload \<Rightarrow> isolation_verdict \<Rightarrow> string" where
  "primary_query p v =
     (let names = str_join '', '' (map ex_channel (analyse_channels_for_query p));
          breached = (if names = [] then ''no breached channel'' else names);
          asset = gp_asset p
      in fault_text (iv_fault v) @ '' on '' @ am_name asset @ '' model '' @ am_model_number asset @
         '' at '' @ gc_physical_location (gp_context p) @ ''; breached channels '' @ breached @
         ''; severity '' @ band_value (iv_severity v) @ ''; containment '' @ graph_action_text (iv_containment v))"

definition secondary_query :: "isolation_verdict \<Rightarrow> string" where
  "secondary_query v =
     str_join '' ''
       ([''downstream consumers blast radius standby feed protection closure handover''] @
        (if ca_contested (iv_crdt v) \<or> ca_diverging (iv_crdt v) \<noteq> []
         then [''crdt lamport reconciliation replica tie-breaker convergence''] else []) @
        (if iv_containment v \<in> {IsolateValve, EmergencyShutdown}
         then [''lockout tagout valve actuator stored energy''] else []))"

definition merge_pair :: "manual_chunk \<times> rat \<Rightarrow> (string, manual_chunk \<times> rat) odict \<Rightarrow> (string, manual_chunk \<times> rat) odict" where
  "merge_pair p merged =
     (case map_of merged (mc_doc_id (fst p)) of
        None \<Rightarrow> AList.update (mc_doc_id (fst p)) p merged
      | Some q \<Rightarrow> if snd p > snd q then AList.update (mc_doc_id (fst p)) p merged else merged)"

definition lead_key :: "manual_chunk \<times> rat \<Rightarrow> bool \<times> rat \<times> string" where
  "lead_key p = (mc_supplementary (fst p), - snd p, mc_doc_id (fst p))"

definition merge_ranked :: "(manual_chunk \<times> rat) list \<Rightarrow> (manual_chunk \<times> rat) list \<Rightarrow> (manual_chunk \<times> rat) list" where
  "merge_ranked primary secondary = sort_key lead_key (map snd (fold merge_pair (primary @ secondary) []))"

definition retrieve ::
    "embed_env \<Rightarrow> vector_store \<Rightarrow> graph_settings \<Rightarrow> graph_payload \<Rightarrow> isolation_verdict \<Rightarrow> (manual_chunk \<times> rat) list" where
  "retrieve env store s p v =
     merge_ranked
       (search env store (primary_query p v) (set_retrieval_top_k s) (Some (model_family (gp_asset p)))
          (Some (iv_containment v)) (Some (iv_fault v)) False)
       (search env store (secondary_query v) (set_retrieval_top_k s) None None None True)"

text \<open>The guidelines a response refers to: those the plan cites, or else the first three.\<close>

record guideline_reference =
  rg_doc_id :: string
  rg_title :: string
  rg_source :: string
  rg_revision :: string
  rg_score :: rat
  rg_excerpt :: string

definition cited_guidelines ::
    "(manual_chunk \<times> rat) list \<Rightarrow> string list \<Rightarrow> (manual_chunk \<times> rat) list" where
  "cited_guidelines guidelines references =
     (let by_id = fold (\<lambda>p. AList.update (mc_doc_id (fst p)) p) guidelines [];
          cited = List.map_filter (map_of by_id) references
      in if cited = [] then take 3 guidelines else cited)"

definition guideline_references ::
    "(manual_chunk \<times> rat) list \<Rightarrow> string list \<Rightarrow> guideline_reference list" where
  "guideline_references guidelines references =
     map (\<lambda>(c, score).
       \<lparr>rg_doc_id = mc_doc_id c, rg_title = mc_title c, rg_source = mc_source c, rg_revision = mc_revision c,
        rg_score = py_round score 4, rg_excerpt = excerpt 320 c\<rparr>)
       (cited_guidelines guidelines references)"

section \<open>Lemmas\<close>

lemma token_char_code [code]: "token_char c \<longleftrightarrow> c \<in> set ''abcdefghijklmnopqrstuvwxyz0123456789''"
proof -
  have "token_char c \<longleftrightarrow> c \<in> set (map char_of [97..<123 :: nat]) \<or> c \<in> set (map char_of [48..<58 :: nat])"
    unfolding token_char_def Let_def using char_range [of 123 c 97] char_range [of 58 c 48] by linarith
  also have "\<dots> \<longleftrightarrow> c \<in> set (''abcdefghijklmnopqrstuvwxyz'' @ ''0123456789'')" unfolding letters set_append by (rule Un_iff [symmetric])
  also have "''abcdefghijklmnopqrstuvwxyz'' @ ''0123456789'' = ''abcdefghijklmnopqrstuvwxyz0123456789''" by (simp only: append.simps)
  finally show ?thesis .
qed

lemma char_runs_Nil: "dropWhile (\<lambda>c. \<not> P c) s = [] \<Longrightarrow> char_runs P s = []"
  by (subst char_runs.simps) (simp only: list.case)

lemma filter_dropWhile_not: "filter P (dropWhile (\<lambda>c. \<not> P c) s) = filter P s"
  by (induction s) simp_all

text \<open>The runs are the satisfying characters in their order, and none is empty.\<close>

lemma char_runs_facts:
  "concat (char_runs P s) = filter P s \<and> (\<forall>w \<in> set (char_runs P s). w \<noteq> [] \<and> list_all P w)"
proof (induction P s rule: char_runs.induct)
  case (1 P s)
  show ?case
  proof (cases "dropWhile (\<lambda>c. \<not> P c) s")
    case Nil
    then have "filter P s = []" using filter_dropWhile_not [of P s] by simp
    then show ?thesis using Nil by (simp add: char_runs_Nil)
  next
    case (Cons c cs)
    have c: "P c" using hd_dropWhile [of "\<lambda>c. \<not> P c" s] Cons by simp
    have t: "list_all P (takeWhile P cs)" by (auto simp: list_all_iff dest: set_takeWhileD)
    have f: "filter P s = c # takeWhile P cs @ filter P (dropWhile P cs)"
    proof -
      have "filter P s = filter P (c # takeWhile P cs @ dropWhile P cs)"
        using filter_dropWhile_not [of P s] Cons by simp
      moreover have "filter P (takeWhile P cs) = takeWhile P cs" using t by (simp add: list_all_iff)
      ultimately show ?thesis using c by (simp only: filter.simps filter_append if_True)
    qed
    show ?thesis using "1.IH" [OF Cons] Cons c t f by (subst (1 2) char_runs.simps) simp
  qed
qed

lemma map_of_fold_update_other:
  "k \<notin> f ` set cs \<Longrightarrow> map_of (fold (\<lambda>c. AList.update (f c) (g c)) cs d) k = map_of d k"
  by (induction cs arbitrary: d) (simp_all add: update_conv)

lemma map_of_fold_update:
  "distinct (map f cs) \<Longrightarrow> c \<in> set cs \<Longrightarrow> map_of (fold (\<lambda>c. AList.update (f c) (g c)) cs d) (f c) = Some (g c)"
  by (induction cs arbitrary: d) (auto simp: map_of_fold_update_other update_conv)

text \<open>The score of a chunk, once the store is looked up.\<close>

definition score_of ::
    "embed_env \<Rightarrow> string \<Rightarrow> string option \<Rightarrow> graph_action option \<Rightarrow> fault_class option \<Rightarrow> manual_chunk \<Rightarrow> rat" where
  "score_of env query family action class c =
     chunk_score (vector_store_init env [c]) c (embed env query) (remdups (tokenize query)) family action class"

lemma chunk_score_store:
  assumes "distinct (map mc_doc_id corpus)" "c \<in> set corpus"
  shows "chunk_score (vector_store_init env corpus) c (embed env q) (remdups (tokenize q)) f a cl = score_of env q f a cl c"
proof -
  have e: "od_item (vs_embeddings (vector_store_init env cs)) (mc_doc_id c) = embed env (indexable_text c)"
    "od_item (vs_tokens (vector_store_init env cs)) (mc_doc_id c) = remdups (tokenize (indexable_text c))"
    if "distinct (map mc_doc_id cs)" "c \<in> set cs" for cs
    using map_of_fold_update [OF that, where g = "\<lambda>c. embed env (indexable_text c)" and d = "[]"]
      map_of_fold_update [OF that, where g = "\<lambda>c. remdups (tokenize (indexable_text c))" and d = "[]"]
    by (simp_all only: vector_store_init_def vector_store.select_convs od_item_def option.case)
  have "distinct (map mc_doc_id [c])" "c \<in> set [c]" by simp_all
  from e [OF assms] e [OF this] show ?thesis by (simp only: score_of_def chunk_score_def)
qed

definition admissible ::
    "embed_env \<Rightarrow> string \<Rightarrow> string option \<Rightarrow> graph_action option \<Rightarrow> fault_class option \<Rightarrow> bool \<Rightarrow> manual_chunk \<Rightarrow> bool" where
  "admissible env query family action class supp c \<longleftrightarrow>
     (mc_supplementary c \<longrightarrow> supp) \<and> 0 < score_of env query family action class c"

definition ranked_pairs ::
    "embed_env \<Rightarrow> manual_chunk list \<Rightarrow> string \<Rightarrow> string option \<Rightarrow> graph_action option \<Rightarrow> fault_class option \<Rightarrow> bool
      \<Rightarrow> (manual_chunk \<times> rat) list" where
  "ranked_pairs env corpus q f a cl supp =
     sort_key rank_key (map (\<lambda>c. (c, score_of env q f a cl c)) (filter (admissible env q f a cl supp) corpus))"

lemma search_ranked:
  assumes "distinct (map mc_doc_id corpus)"
  shows "search env (vector_store_init env corpus) q k f a cl supp = take k (ranked_pairs env corpus q f a cl supp)"
proof -
  have c: "vs_corpus (vector_store_init env corpus) = corpus" by (simp add: vector_store_init_def)
  have "filter (\<lambda>p. 0 < snd p) (map (\<lambda>c. (c, chunk_score (vector_store_init env corpus) c (embed env q)
          (remdups (tokenize q)) f a cl)) (filter (\<lambda>c. \<not> (mc_supplementary c \<and> \<not> supp)) cs)) =
      map (\<lambda>c. (c, score_of env q f a cl c)) (filter (admissible env q f a cl supp) cs)" if "set cs \<subseteq> set corpus" for cs
    using that by (induction cs) (auto simp: admissible_def chunk_score_store [OF assms])
  from this [of corpus] show ?thesis by (simp add: search_def ranked_pairs_def c Let_def)
qed

lemma distinct_rank_keys:
  assumes "distinct (map mc_doc_id cs)"
  shows "distinct (map (\<lambda>c. rank_key (c, score c)) cs)"
  using assms by (auto simp: distinct_map inj_on_def rank_key_def)

lemma ranked_sorted: "sorted (map rank_key (ranked_pairs env corpus q f a cl supp))"
  by (simp add: ranked_pairs_def)

lemma ranked_set:
  "set (ranked_pairs env corpus q f a cl supp) =
     (\<lambda>c. (c, score_of env q f a cl c)) ` {c \<in> set corpus. admissible env q f a cl supp c}"
  by (simp add: ranked_pairs_def)

lemma ranked_distinct:
  assumes "distinct (map mc_doc_id corpus)"
  shows "distinct (map rank_key (ranked_pairs env corpus q f a cl supp))"
proof -
  let ?xs = "map (\<lambda>c. (c, score_of env q f a cl c)) (filter (admissible env q f a cl supp) corpus)"
  have "distinct (map mc_doc_id (filter (admissible env q f a cl supp) corpus))"
    using assms by (rule distinct_map_filter)
  then have "distinct (map rank_key ?xs)" using distinct_rank_keys by (simp add: comp_def)
  moreover have "mset (map rank_key (ranked_pairs env corpus q f a cl supp)) = mset (map rank_key ?xs)"
    by (simp only: mset_map ranked_pairs_def mset_sort)
  ultimately show ?thesis by (metis distinct_count_atmost_1 mset_eq_imp_distinct_iff)
qed

text \<open>Nothing better is left out of a bounded prefix of a strictly sorted list.\<close>

lemma take_sorted_best:
  fixes key :: "'a \<Rightarrow> 'b::linorder"
  assumes "sorted (map key xs)" "distinct (map key xs)" "x \<in> set xs" "x \<notin> set (take k xs)"
  shows "length (take k xs) = k \<and> (\<forall>y \<in> set (take k xs). key y < key x)"
proof -
  have x: "x \<in> set (drop k xs)" using assms(3,4) by (metis UnE append_take_drop_id set_append)
  then have "drop k xs \<noteq> []" by (metis empty_iff empty_set)
  then have "k < length xs" by simp
  moreover have "key y < key x" if "y \<in> set (take k xs)" for y
  proof -
    have "sorted (map key (take k xs) @ map key (drop k xs))" "distinct (map key (take k xs) @ map key (drop k xs))"
      using assms(1,2) by (metis append_take_drop_id map_append)+
    then have "key y \<le> key x" "key y \<noteq> key x" using x that by (auto simp: sorted_append)
    then show ?thesis by simp
  qed
  ultimately show ?thesis by simp
qed

lemma search_best:
  assumes "distinct (map mc_doc_id corpus)" "search env (vector_store_init env corpus) q k f a cl supp = r"
  shows "length r \<le> k" "sorted (map rank_key r)" "distinct (map (mc_doc_id \<circ> fst) r)"
    "\<forall>p \<in> set r. fst p \<in> set corpus \<and> admissible env q f a cl supp (fst p) \<and> snd p = score_of env q f a cl (fst p)"
    "\<forall>c \<in> set corpus. admissible env q f a cl supp c \<longrightarrow> (c, score_of env q f a cl c) \<in> set r \<or>
       length r = k \<and> (\<forall>p \<in> set r. rank_key p < rank_key (c, score_of env q f a cl c))"
proof -
  let ?s = "ranked_pairs env corpus q f a cl supp"
  have r: "r = take k ?s" using assms by (simp add: search_ranked)
  show "length r \<le> k" by (simp add: r)
  show "sorted (map rank_key r)" using ranked_sorted by (simp add: r sorted_wrt_take flip: take_map)
  have inj: "inj_on mc_doc_id (set corpus)" using assms(1) by (simp add: distinct_map)
  have "distinct (map (mc_doc_id \<circ> fst) ?s)"
  proof -
    have "mset (map (mc_doc_id \<circ> fst) ?s) = mset (map mc_doc_id (filter (admissible env q f a cl supp) corpus))"
      unfolding ranked_pairs_def mset_map mset_sort by (simp add: image_mset.compositionality comp_def)
    moreover have "distinct (map mc_doc_id (filter (admissible env q f a cl supp) corpus))"
      using assms(1) by (rule distinct_map_filter)
    ultimately show ?thesis by (metis mset_eq_imp_distinct_iff)
  qed
  then show "distinct (map (mc_doc_id \<circ> fst) r)" by (simp add: r flip: take_map)
  show "\<forall>p \<in> set r. fst p \<in> set corpus \<and> admissible env q f a cl supp (fst p) \<and> snd p = score_of env q f a cl (fst p)"
    using ranked_set by (fastforce simp: r dest: in_set_takeD)
  show "\<forall>c \<in> set corpus. admissible env q f a cl supp c \<longrightarrow> (c, score_of env q f a cl c) \<in> set r \<or>
       length r = k \<and> (\<forall>p \<in> set r. rank_key p < rank_key (c, score_of env q f a cl c))"
    using take_sorted_best [OF ranked_sorted ranked_distinct [OF assms(1)]] ranked_set unfolding r by blast
qed

text \<open>The result of a search does not depend on the order of the corpus.\<close>

lemma search_order_free:
  assumes "mset corpus = mset corpus2" "distinct (map mc_doc_id corpus)"
  shows "search env (vector_store_init env corpus) q k f a cl supp = search env (vector_store_init env corpus2) q k f a cl supp"
proof -
  have d2: "distinct (map mc_doc_id corpus2)" using assms by (metis mset_eq_imp_distinct_iff mset_map)
  let ?xs = "\<lambda>cs. map (\<lambda>c. (c, score_of env q f a cl c)) (filter (admissible env q f a cl supp) cs)"
  have "mset (?xs corpus) = mset (?xs corpus2)" using assms(1) by (simp add: mset_map mset_filter)
  moreover have "inj_on rank_key (set (?xs corpus))"
  proof -
    have "inj_on mc_doc_id (set corpus)" using assms(2) by (simp add: distinct_map)
    then show ?thesis by (auto simp: inj_on_def rank_key_def)
  qed
  ultimately have "sort_key rank_key (?xs corpus) = sort_key rank_key (?xs corpus2)"
    by (intro sort_key_inj_key_eq) simp_all
  then show ?thesis by (simp add: search_ranked [OF assms(2)] search_ranked [OF d2] ranked_pairs_def)
qed

text \<open>The merge: one entry per chunk, with the better of its scores.\<close>

definition merge_wf :: "(string, manual_chunk \<times> rat) odict \<Rightarrow> bool" where
  "merge_wf m \<longleftrightarrow> distinct (od_keys m) \<and> (\<forall>(k, p) \<in> set m. k = mc_doc_id (fst p))"

lemma merge_pair_wf: "merge_wf m \<Longrightarrow> merge_wf (merge_pair p m)"
proof -
  assume m: "merge_wf m"
  have "merge_wf (AList.update (mc_doc_id (fst p)) p m)"
    unfolding merge_wf_def
  proof
    show "distinct (od_keys (AList.update (mc_doc_id (fst p)) p m))" using m by (auto simp: merge_wf_def)
    show "\<forall>(k, q) \<in> set (AList.update (mc_doc_id (fst p)) p m). k = mc_doc_id (fst q)"
      using m by (induction m) (auto simp: merge_wf_def od_simps)
  qed
  then show ?thesis using m by (auto simp: merge_pair_def split: option.splits)
qed

lemma merge_pair_lookup:
  "map_of (merge_pair p m) k =
     (if k = mc_doc_id (fst p)
      then (case map_of m k of None \<Rightarrow> Some p | Some q \<Rightarrow> Some (if snd p > snd q then p else q))
      else map_of m k)"
  by (auto simp: merge_pair_def update_conv split: option.splits)

lemma merged_origin:
  "map_of (fold merge_pair ps m) k = Some q \<Longrightarrow> map_of m k = Some q \<or> q \<in> set ps \<and> mc_doc_id (fst q) = k"
proof (induction ps arbitrary: m)
  case (Cons p ps)
  have "map_of (fold merge_pair ps (merge_pair p m)) k = Some q" using Cons.prems by simp
  from Cons.IH [OF this] show ?case
    by (auto simp: merge_pair_lookup split: option.splits if_splits)
qed simp

lemma merge_pair_better:
  assumes "r = p \<and> mc_doc_id (fst r) = k \<or> map_of m k = Some r"
  obtains q where "map_of (merge_pair p m) k = Some q" "snd r \<le> snd q"
proof -
  have "\<exists>q. map_of (merge_pair p m) k = Some q \<and> snd r \<le> snd q"
    using assms by (auto simp: merge_pair_lookup simp del: split_paired_Ex split: option.splits)
  then show thesis using that by blast
qed

lemma merged_better:
  assumes "r \<in> set ps \<and> mc_doc_id (fst r) = k \<or> map_of m k = Some r"
  shows "\<exists>q. map_of (fold merge_pair ps m) k = Some q \<and> snd r \<le> snd q"
  using assms
proof (induction ps arbitrary: m r)
  case (Cons p ps)
  let ?m = "merge_pair p m"
  show ?case
  proof (cases "r \<in> set ps \<and> mc_doc_id (fst r) = k")
    case True
    then show ?thesis using Cons.IH [of r ?m] by simp
  next
    case False
    then have "r = p \<and> mc_doc_id (fst r) = k \<or> map_of m k = Some r" using Cons.prems by auto
    then obtain q where q: "map_of ?m k = Some q" "snd r \<le> snd q" by (rule merge_pair_better)
    then obtain q2 where "map_of (fold merge_pair ps ?m) k = Some q2" "snd q \<le> snd q2" using Cons.IH [of q ?m] by blast
    then show ?thesis using q(2) by (intro exI [of _ q2]) simp
  qed
qed simp

lemma merged_wf: "merge_wf m \<Longrightarrow> merge_wf (fold merge_pair ps m)"
  by (induction ps arbitrary: m) (simp_all add: merge_pair_wf)

lemma merge_ranked_facts:
  assumes "merge_ranked xs ys = r"
  shows "sorted (map lead_key r)" "distinct (map (mc_doc_id \<circ> fst) r)" "set r \<subseteq> set xs \<union> set ys"
    "\<forall>p \<in> set xs \<union> set ys. \<exists>q \<in> set r. mc_doc_id (fst q) = mc_doc_id (fst p) \<and> snd p \<le> snd q"
proof -
  let ?m = "fold merge_pair (xs @ ys) []"
  have wf: "merge_wf ?m" by (rule merged_wf) (simp add: merge_wf_def od_simps)
  have set_r: "set r = snd ` set ?m" unfolding assms [symmetric] merge_ranked_def by (simp del: fold_append)
  have in_m: "map_of ?m (fst e) = Some (snd e)" if "e \<in> set ?m" for e
    using wf that by (simp add: merge_wf_def od_keys_def)
  show "sorted (map lead_key r)" using assms by (auto simp: merge_ranked_def)
  have "map (mc_doc_id \<circ> fst) (map snd ?m) = od_keys ?m"
    using wf by (auto simp: merge_wf_def od_keys_def)
  then have "distinct (map (mc_doc_id \<circ> fst) (map snd ?m))" using wf by (simp add: merge_wf_def)
  moreover have "mset (map (mc_doc_id \<circ> fst) r) = mset (map (mc_doc_id \<circ> fst) (map snd ?m))"
    unfolding assms [symmetric] merge_ranked_def mset_map [of "mc_doc_id \<circ> fst"] mset_sort ..
  ultimately show "distinct (map (mc_doc_id \<circ> fst) r)" by (metis mset_eq_imp_distinct_iff)
  show "set r \<subseteq> set xs \<union> set ys"
  proof
    fix p assume "p \<in> set r"
    then obtain e where "e \<in> set ?m" "snd e = p" unfolding set_r by blast
    then have "map_of ?m (fst e) = Some p" using in_m by blast
    then obtain k where "map_of ?m k = Some p" by blast
    then show "p \<in> set xs \<union> set ys" using merged_origin [of "xs @ ys" "[]" k p] by auto
  qed
  show "\<forall>p \<in> set xs \<union> set ys. \<exists>q \<in> set r. mc_doc_id (fst q) = mc_doc_id (fst p) \<and> snd p \<le> snd q"
  proof
    fix p assume "p \<in> set xs \<union> set ys"
    then obtain q where q: "map_of ?m (mc_doc_id (fst p)) = Some q" "snd p \<le> snd q"
      using merged_better [of p "xs @ ys" "mc_doc_id (fst p)" "[]"] by auto
    have "q \<in> set r" unfolding set_r using map_of_SomeD [OF q(1)] by (metis image_eqI snd_conv)
    moreover have "mc_doc_id (fst q) = mc_doc_id (fst p)" using merged_origin [OF q(1)] by simp
    ultimately show "\<exists>q \<in> set r. mc_doc_id (fst q) = mc_doc_id (fst p) \<and> snd p \<le> snd q" using q(2) by blast
  qed
qed

lemma lead_sorted:
  assumes "sorted (map lead_key r)" "i < j" "j < length r" "mc_supplementary (fst (r ! i))"
  shows "mc_supplementary (fst (r ! j))"
proof -
  have "lead_key (r ! i) \<le> lead_key (r ! j)" using sorted_nth_mono [OF assms(1), of i j] assms(2,3) by simp
  then show ?thesis using assms(4) by (auto simp: lead_key_def less_eq_prod_def)
qed

lemma corpus_ids_distinct: "distinct (map mc_doc_id MAINTENANCE_CORPUS)"
  by code_simp

text \<open>Nothing the secondary query found is lost in the merge.\<close>

lemma retrieve_has:
  assumes d: "distinct (map mc_doc_id corpus)" and r: "retrieve env (vector_store_init env corpus) s p v = r"
    and q: "q \<in> set (search env (vector_store_init env corpus) (secondary_query v) (set_retrieval_top_k s) None None None True)"
  shows "\<exists>t. (fst q, t) \<in> set r \<and> snd q \<le> t"
proof -
  obtain xs ys where xs: "search env (vector_store_init env corpus) (primary_query p v) (set_retrieval_top_k s)
        (Some (model_family (gp_asset p))) (Some (iv_containment v)) (Some (iv_fault v)) False = xs"
    and ys: "search env (vector_store_init env corpus) (secondary_query v) (set_retrieval_top_k s) None None None True = ys"
    by blast
  have m: "merge_ranked xs ys = r" using r by (simp add: retrieve_def xs ys)
  note f = merge_ranked_facts [OF m]
  have src: "fst x \<in> set corpus" if "x \<in> set xs \<union> set ys" for x
    using that search_best(4) [OF d xs] search_best(4) [OF d ys] by auto
  obtain q2 where q2: "q2 \<in> set r" "mc_doc_id (fst q2) = mc_doc_id (fst q)" "snd q \<le> snd q2"
    using f(4) q ys by blast
  have inj: "inj_on mc_doc_id (set corpus)" using d by (simp add: distinct_map)
  have "fst q2 \<in> set corpus" "fst q \<in> set corpus" using q2(1) f(3) src [of q2] src [of q] q ys by blast+
  then have "fst q2 = fst q" using inj_onD [OF inj q2(2)] by blast
  then have "(fst q, snd q2) \<in> set r" using q2(1) by (metis prod.collapse)
  then show ?thesis using q2(3) by blast
qed

section \<open>Properties\<close>

text \<open>
  A search returns the best admissible chunks, best first.  It returns at most as many as asked for,
  each once and in the order of the score, ties by document id; each is admissible (its score is positive,
  and it is not supplementary unless that was allowed); and an admissible chunk that is missing is beaten
  by every one that is there.
\<close>
theorem search_ranks_best:
  "distinct (map mc_doc_id corpus) \<Longrightarrow>
   search env (vector_store_init env corpus) q k f a cl supp = r \<Longrightarrow>
   length r \<le> k \<and> sorted (map rank_key r) \<and> distinct (map (mc_doc_id \<circ> fst) r) \<and>
   (\<forall>p \<in> set r. fst p \<in> set corpus \<and> 0 < snd p \<and> (mc_supplementary (fst p) \<longrightarrow> supp) \<and>
      snd p = score_of env q f a cl (fst p)) \<and>
   (\<forall>c \<in> set corpus. 0 < score_of env q f a cl c \<longrightarrow> (mc_supplementary c \<longrightarrow> supp) \<longrightarrow>
      c \<notin> fst ` set r \<longrightarrow> length r = k \<and> (\<forall>p \<in> set r. rank_key p < rank_key (c, score_of env q f a cl c)))"
proof -
  assume d: "distinct (map mc_doc_id corpus)" and r: "search env (vector_store_init env corpus) q k f a cl supp = r"
  note b = search_best [OF d r]
  have best: "\<forall>c \<in> set corpus. 0 < score_of env q f a cl c \<longrightarrow> (mc_supplementary c \<longrightarrow> supp) \<longrightarrow>
      c \<notin> fst ` set r \<longrightarrow> length r = k \<and> (\<forall>p \<in> set r. rank_key p < rank_key (c, score_of env q f a cl c))"
    using b(5) by (force simp: admissible_def)
  have sound: "\<forall>p \<in> set r. fst p \<in> set corpus \<and> 0 < snd p \<and> (mc_supplementary (fst p) \<longrightarrow> supp) \<and>
      snd p = score_of env q f a cl (fst p)"
    using b(4) by (simp add: admissible_def)
  show ?thesis by (intro conjI b(1-3) sound best)
qed

text \<open>
  Retrieval is reproducible.  A store built over the same chunks in any other order answers every
  query with the same list, so identical payloads retrieve identical guidelines.
\<close>
theorem retrieval_reproducible:
  "mset corpus = mset corpus2 \<Longrightarrow> distinct (map mc_doc_id corpus) \<Longrightarrow>
   retrieve env (vector_store_init env corpus) s p v = retrieve env (vector_store_init env corpus2) s p v"
  unfolding retrieve_def by (simp only: search_order_free)

text \<open>
  What the planner is handed.  The merge of the two queries has each chunk once, with the better of
  its scores; it is at most twice the configured size; the lead procedures come before the supplementary
  material; and every chunk comes from the manual with a positive score.
\<close>
theorem retrieved_guidelines:
  "distinct (map mc_doc_id corpus) \<Longrightarrow> retrieve env (vector_store_init env corpus) s p v = r \<Longrightarrow>
   distinct (map (mc_doc_id \<circ> fst) r) \<and> length r \<le> 2 * set_retrieval_top_k s \<and>
   (\<forall>i j. i < j \<and> j < length r \<and> mc_supplementary (fst (r ! i)) \<longrightarrow> mc_supplementary (fst (r ! j))) \<and>
   (\<forall>q \<in> set r. fst q \<in> set corpus \<and> 0 < snd q) \<and>
   (\<forall>q \<in> set (search env (vector_store_init env corpus) (secondary_query v) (set_retrieval_top_k s) None None None True).
      \<exists>t. (fst q, t) \<in> set r \<and> snd q \<le> t)"
proof -
  assume d: "distinct (map mc_doc_id corpus)" and r: "retrieve env (vector_store_init env corpus) s p v = r"
  let ?k = "set_retrieval_top_k s"
  obtain xs ys where xs: "search env (vector_store_init env corpus) (primary_query p v) ?k
        (Some (model_family (gp_asset p))) (Some (iv_containment v)) (Some (iv_fault v)) False = xs"
    and ys: "search env (vector_store_init env corpus) (secondary_query v) ?k None None None True = ys" by blast
  have m: "merge_ranked xs ys = r" using r by (simp add: retrieve_def xs ys)
  note f = merge_ranked_facts [OF m] and bx = search_best [OF d xs] and by' = search_best [OF d ys]
  have len: "length r \<le> 2 * ?k"
  proof -
    have "distinct r" using f(2) by (simp only: distinct_map)
    then have "length r = card (set r)" by (rule distinct_card [symmetric])
    also have "\<dots> \<le> card (set xs \<union> set ys)" using f(3) by (intro card_mono) simp_all
    also have "\<dots> \<le> length xs + length ys" using card_Un_le card_length by (metis (no_types) add_mono le_trans)
    finally show ?thesis using bx(1) by'(1) by linarith
  qed
  have src: "fst q \<in> set corpus \<and> 0 < snd q" if "q \<in> set xs \<union> set ys" for q
    using that bx(4) by'(4) by (auto simp: admissible_def)
  then have all: "\<forall>q \<in> set r. fst q \<in> set corpus \<and> 0 < snd q" using f(3) by blast
  have lead: "\<forall>i j. i < j \<and> j < length r \<and> mc_supplementary (fst (r ! i)) \<longrightarrow> mc_supplementary (fst (r ! j))"
    using lead_sorted [OF f(1)] by blast
  have "\<exists>t. (fst q, t) \<in> set r \<and> snd q \<le> t" if q: "q \<in> set ys" for q
    using retrieve_has [OF d r] q ys by blast
  then have "\<forall>q \<in> set ys. \<exists>t. (fst q, t) \<in> set r \<and> snd q \<le> t" by blast
  then show ?thesis unfolding ys by (intro conjI f(2) len lead all)
qed

section \<open>Witnesses\<close>

definition demo_embed :: embed_env where
  "demo_embed = \<lparr>ee_digest = (\<lambda>t. of_nat (length t)), ee_sqrt = (\<lambda>x. 0)\<rparr>"

theorem search_ranks_best_witness:
  "let r = search demo_embed (vector_store_init demo_embed MAINTENANCE_CORPUS) ''crdt replica'' 2 None None None True
   in length r \<le> 2 \<and> sorted (map rank_key r)"
  using search_ranks_best [OF corpus_ids_distinct refl] unfolding Let_def by blast

theorem retrieval_reproducible_witness:
  "retrieve demo_embed (vector_store_init demo_embed MAINTENANCE_CORPUS) demo_graph_settings
     (demo_payload [] (Fin 8)) demo_verdict =
   retrieve demo_embed (vector_store_init demo_embed (rev MAINTENANCE_CORPUS)) demo_graph_settings
     (demo_payload [] (Fin 8)) demo_verdict"
  by (rule retrieval_reproducible) (simp_all add: corpus_ids_distinct)

theorem retrieved_guidelines_witness:
  "length (retrieve demo_embed (vector_store_init demo_embed MAINTENANCE_CORPUS) demo_graph_settings
     (demo_payload [] (Fin 8)) demo_verdict) \<le> 8"
  using retrieved_guidelines [OF corpus_ids_distinct refl, of demo_embed demo_graph_settings]
  by (simp add: demo_graph_settings_def)

end
