(* ===== verification/Rule_Agents.thy ===== *)
theory Rule_Agents
  imports Manual_Corpus
begin

text \<open>
  The offline backend of the GraphRAG interceptor: the rule engine that plays both agents
  (DeterministicReasoningClient and its text helpers in graphrag_interceptor.py), and the engine run on
  it.  What it reads of the briefing is the analysis, the verdict, the guidelines and the step limit; the
  token estimate is an argument.
\<close>

section \<open>Templates\<close>

text \<open>Fields are plain names in braces, as in every template of the manual.\<close>

function format_map_t :: "(string \<Rightarrow> string) \<Rightarrow> string \<Rightarrow> string" where
  "format_map_t ctx [] = []"
| "format_map_t ctx (c # cs) =
     (if c = CHR ''{'' then
        ctx (takeWhile (\<lambda>d. d \<noteq> CHR ''}'') cs) @ format_map_t ctx (drop 1 (dropWhile (\<lambda>d. d \<noteq> CHR ''}'') cs))
      else c # format_map_t ctx cs)"
  by pat_completeness auto

termination
  by (relation "measure (\<lambda>(ctx, s). length s)") (auto simp: less_Suc_eq_le intro: le_trans [OF diff_le_self length_dropWhile_le])

type_synonym template_context = "(string \<times> string) list"

definition context_value :: "template_context \<Rightarrow> string \<Rightarrow> string" where
  "context_value ctx key = (case map_of ctx key of None \<Rightarrow> ''the affected component'' | Some v \<Rightarrow> v)"

definition render_template :: "template_context \<Rightarrow> string \<Rightarrow> string" where
  "render_template ctx template = str_join '' '' (py_words (format_map_t (context_value ctx) template))"

definition summarise :: "string \<Rightarrow> string list \<Rightarrow> string" where
  "summarise fallback nodes =
     (if nodes = [] then fallback
      else if 4 < length nodes
      then str_join '', '' (take 4 nodes) @ '' and '' @ int_str (int (length nodes) - 4) @ '' more''
      else str_join '', '' (take 4 nodes))"

definition summarise_downstream :: "string list \<Rightarrow> string" where
  "summarise_downstream = summarise ''no downstream consumers''"

section \<open>The isolator\<close>

definition breach_summary :: "(pyfloat \<Rightarrow> string) \<Rightarrow> exceedance list \<Rightarrow> string" where
  "breach_summary fmt es =
     (let shown = take 4 (filter (\<lambda>e. ex_band e \<in> {BandWarn, BandCritical, BandHard}) es);
          text = str_join ''; ''
            (map (\<lambda>e. ex_channel e @ '' at '' @ fmt (ex_value e) @
                       (case ex_limit e of None \<Rightarrow> [] | Some l \<Rightarrow> lim_unit l) @
                       '' ('' @ band_value (ex_band e) @ '')'') shown)
      in if text = [] then ''no physical limit breached'' else text)"

definition verdict_rationale :: "(pyfloat \<Rightarrow> string) \<Rightarrow> topology_analysis \<Rightarrow> string" where
  "verdict_rationale fmt t =
     (let breach = breach_summary fmt (ta_physical t); root = ta_root_cause t; asset = ta_asset_id t; crdt = ta_crdt t in
      case ta_class t of
        InheritedCascade \<Rightarrow>
          ''Walking the upstream chain nearest-first, '' @ summarise ''no node'' (ta_faulted_upstream t) @
          '' is faulting; the furthest faulting node '' @ root @
          '' is therefore the origin and every node between it and '' @ asset @
          '' is symptomatic. The reporting asset shows '' @ breach @
          '', which is consistent with an inherited disturbance rather than an independent failure. '' @
          ''Intervention belongs at '' @ root @ '', not at '' @ asset @ ''.''
      | LocalizedComponent \<Rightarrow>
          ''No node in the upstream chain ('' @ summarise ''none declared'' (ta_upstream t) @
          '') reports a fault or breaches an attributed limit, so the disturbance did not arrive from upstream. '' @
          asset @ '' itself shows '' @ breach @
          '', which contains the fault to the reporting asset and its components ('' @
          summarise ''unspecified'' (ta_localized t) @ '').''
      | Indeterminate \<Rightarrow>
          ''No physical limit is breached on '' @ asset @
          '' and no upstream node is faulting, but the replicated topology cannot be trusted at '' @
          fmt (Fin (ca_graph_trust crdt)) @ '': '' @ ca_explanation crdt @
          '' Attribution is withheld rather than guessed, and no irreversible action is permitted '' @
          ''on this vertex until the graph reconciles.''
      | NoFaultDetected \<Rightarrow>
          ''All channels on '' @ asset @ '' are within their warn limits and the vertex has converged ('' @
          ca_explanation crdt @ ''). The mutation is recorded but no fault is attributable.'')"

definition topology_verdict :: "(pyfloat \<Rightarrow> string) \<Rightarrow> topology_analysis \<Rightarrow> isolation_verdict" where
  "topology_verdict fmt t =
     \<lparr>iv_fault = ta_class t, iv_root_cause = ta_root_cause t, iv_rationale = verdict_rationale fmt t,
      iv_cascade_path = ta_cascade_path t, iv_localized = ta_localized t, iv_blast_radius = ta_downstream t,
      iv_severity = ta_severity t, iv_crdt = ta_crdt t, iv_containment = ta_action t,
      iv_irreversible_permitted = ta_irreversible_permitted t, iv_confidence = ta_confidence t,
      iv_evidence = take 24 (ta_evidence t)\<rparr>"

section \<open>The planner\<close>

record plan_briefing =
  pb_verdict :: isolation_verdict
  pb_analysis :: topology_analysis
  pb_guidelines :: "manual_chunk list"
  pb_max_steps :: nat
  pb_operator :: string
  pb_model_number :: string

definition plan_target :: "plan_briefing \<Rightarrow> string" where
  "plan_target b = iv_root_cause (pb_verdict b)"

definition plan_downstream :: "plan_briefing \<Rightarrow> string list" where
  "plan_downstream b =
     (if iv_blast_radius (pb_verdict b) = [] then ta_downstream (pb_analysis b) else iv_blast_radius (pb_verdict b))"

definition plan_context :: "plan_briefing \<Rightarrow> template_context" where
  "plan_context b =
     (let t = pb_analysis b; target = plan_target b; asset = ta_asset_id t; down = plan_downstream b;
          cascade = iv_cascade_path (pb_verdict b) in
      [(''target'', target),
       (''target_name'', if target = asset then ta_asset_name t else target),
       (''asset'', asset),
       (''asset_name'', ta_asset_name t),
       (''parent'', ta_parent_system t),
       (''location'', ta_location t),
       (''operator'', pb_operator b),
       (''downstream_summary'', summarise_downstream down),
       (''downstream_count'', int_str (int (length down))),
       (''cascade_summary'', if cascade \<noteq> [] then str_join '' -> '' cascade else target @ '' -> '' @ asset),
       (''model_number'', pb_model_number b)])"

definition chunk_reference :: "manual_chunk \<Rightarrow> string" where
  "chunk_reference c = mc_source c @ '' ('' @ mc_doc_id c @ '')''"

definition steps_from :: "template_context \<Rightarrow> string \<Rightarrow> manual_chunk \<Rightarrow> isolation_step list" where
  "steps_from ctx target c =
     map (\<lambda>p.
       \<lparr>st_sequence = 0, st_actor = ps_actor p, st_instruction = render_template ctx (ps_instruction p),
        st_target = target, st_verification = render_template ctx (ps_verification p),
        st_reversible = ps_reversible p, st_seconds = ps_seconds p, st_manual = Some (chunk_reference c)\<rparr>)
       (mc_procedure c)"

definition find_lead :: "graph_action \<Rightarrow> manual_chunk list \<Rightarrow> manual_chunk option" where
  "find_lead action guidelines =
     List.find (\<lambda>c. \<not> mc_supplementary c \<and> (mc_actions c = [] \<or> action \<in> set (mc_actions c))) guidelines"

definition find_tagged :: "string \<Rightarrow> manual_chunk list \<Rightarrow> manual_chunk option" where
  "find_tagged tag guidelines = List.find (\<lambda>c. mc_supplementary c \<and> tag \<in> set (mc_tags c)) guidelines"

definition safe_state_step :: "template_context \<Rightarrow> string \<Rightarrow> isolation_step" where
  "safe_state_step ctx target =
     \<lparr>st_sequence = 0, st_actor = ControlSystem,
      st_instruction = render_template ctx
        (''Hold {target_name} ({target}) at its documented safe-state setpoint; no '' @
         ''retrieved procedure covers this combination of fault and asset family.''),
      st_target = target, st_verification = ''Setpoint reads safe-state and is latched against recovery.'',
      st_reversible = True, st_seconds = 120, st_manual = None\<rparr>"

definition unsettled_graph :: "crdt_assessment \<Rightarrow> bool" where
  "unsettled_graph a \<longleftrightarrow> ca_contested a \<or> ca_diverging a \<noteq> [] \<or> ca_graph_trust a < 3/4"

text \<open>The chunks that contribute steps before the closure, in their order; the lead is marked.\<close>

definition body_chunks :: "plan_briefing \<Rightarrow> manual_chunk option list" where
  "body_chunks b =
     (let v = pb_verdict b; action = iv_containment v; gs = pb_guidelines b;
          chosen = (\<lambda>wanted c. case c of None \<Rightarrow> [] | Some x \<Rightarrow> if wanted then [Some x] else [])
      in chosen (unsettled_graph (iv_crdt v)) (find_tagged ''crdt'' gs) @
         chosen (plan_downstream b \<noteq> []) (find_tagged ''downstream'' gs) @
         [find_lead action gs] @
         chosen (action \<in> {IsolateValve, EmergencyShutdown}) (find_tagged ''loto'' gs))"

definition body_steps :: "plan_briefing \<Rightarrow> isolation_step list" where
  "body_steps b =
     concat (map (\<lambda>c. case c of None \<Rightarrow> [safe_state_step (plan_context b) (plan_target b)]
                        | Some x \<Rightarrow> steps_from (plan_context b) (plan_target b) x) (body_chunks b))"

definition closure_steps :: "plan_briefing \<Rightarrow> isolation_step list" where
  "closure_steps b =
     (case find_tagged ''closure'' (pb_guidelines b) of
        None \<Rightarrow> [] | Some c \<Rightarrow> steps_from (plan_context b) (plan_target b) c)"

definition plan_steps_of :: "plan_briefing \<Rightarrow> isolation_step list" where
  "plan_steps_of b =
     (let closure = closure_steps b; budget = max 1 (pb_max_steps b - length closure)
      in renumber (take budget (body_steps b) @ closure))"

definition plan_cited :: "plan_briefing \<Rightarrow> string list" where
  "plan_cited b =
     first_of_each []
       (map mc_doc_id
         (List.map_filter id (body_chunks b) @
          (case find_tagged ''closure'' (pb_guidelines b) of None \<Rightarrow> [] | Some c \<Rightarrow> [c])))"

definition plan_protection :: "plan_briefing \<Rightarrow> string list" where
  "plan_protection b =
     (let down = plan_downstream b; cascade = iv_cascade_path (pb_verdict b) in
      map (\<lambda>n. n @ '' transferred to standby feed or reduced load before the isolation lands'') (take 6 down) @
      (if 6 < length down
       then [int_str (int (length down) - 6) @ '' further downstream node(s) covered by the same transfer''] else []) @
      (if down = [] then [''No downstream consumers are exposed by this action''] else []) @
      (if cascade \<noteq> []
       then [''Cascade path '' @ str_join '' -> '' cascade @ '' re-walked after isolation to catch independent faults'']
       else []))"

definition plan_rationale :: "(pyfloat \<Rightarrow> string) \<Rightarrow> plan_briefing \<Rightarrow> string" where
  "plan_rationale fmt b =
     (let v = pb_verdict b; target = plan_target b; asset = ta_asset_id (pb_analysis b);
          action = graph_action_text (iv_containment v); n = int_str (int (length (plan_downstream b)));
          text = (case iv_fault v of
              InheritedCascade \<Rightarrow>
                ''The isolator attributed this to '' @ target @ '' upstream of the reporting asset '' @ asset @
                '', so '' @ action @ '' lands on the origin; isolating '' @ asset @
                '' would remove the symptom and leave the source live. '' @ n @
                '' downstream node(s) are protected before the supply is interrupted.''
            | Indeterminate \<Rightarrow>
                ''Attribution is incomplete and graph trust is '' @ fmt (Fin (ca_graph_trust (iv_crdt v))) @
                '', so the plan is limited to the reversible '' @ action @ '' on '' @ target @
                '' plus a forced reconciliation. No irreversible field action is authorised until the vertex resolves.''
            | _ \<Rightarrow>
                ''The fault is contained to '' @ target @ '', so '' @ action @ '' is applied locally at '' @
                ta_location (pb_analysis b) @ '' after stabilising the asset and protecting '' @ n @
                '' downstream node(s).'')
      in text @ (case find_lead (iv_containment v) (pb_guidelines b) of
                   None \<Rightarrow> [] | Some c \<Rightarrow> '' Procedure grounded in '' @ mc_source c @ ''.''))"

definition plan_confidence :: "plan_briefing \<Rightarrow> rat" where
  "plan_confidence b =
     (let v = pb_verdict b;
          c1 = iv_confidence v * (if find_lead (iv_containment v) (pb_guidelines b) = None then 7/10 else 1);
          c2 = (if ca_graph_trust (iv_crdt v) < 3/4 then c1 * (9/10) else c1)
      in py_round (max (1/20) (min 1 c2)) 3)"

definition plan_authorization :: "plan_briefing \<Rightarrow> bool" where
  "plan_authorization b \<longleftrightarrow>
     irreversible_action (iv_containment (pb_verdict b)) \<or> ta_priority (pb_analysis b) = GpCritical \<or>
     ca_graph_trust (iv_crdt (pb_verdict b)) < 3/4 \<or> \<not> list_all st_reversible (plan_steps_of b)"

definition rule_action_plan :: "(pyfloat \<Rightarrow> string) \<Rightarrow> plan_briefing \<Rightarrow> strategic_plan" where
  "rule_action_plan fmt b =
     \<lparr>sp_action = iv_containment (pb_verdict b), sp_target = plan_target b, sp_priority = ta_priority (pb_analysis b),
      sp_steps = plan_steps_of b, sp_protection = plan_protection b, sp_authorization = plan_authorization b,
      sp_rationale = plan_rationale fmt b, sp_references = plan_cited b, sp_confidence = plan_confidence b\<rparr>"

section \<open>The engine on the offline backend\<close>

definition engine_briefing ::
    "embed_env \<Rightarrow> vector_store \<Rightarrow> graph_settings \<Rightarrow> graph_payload \<Rightarrow> topology_analysis \<Rightarrow> isolation_verdict
      \<Rightarrow> plan_briefing" where
  "engine_briefing env store s p t v =
     \<lparr>pb_verdict = v, pb_analysis = t, pb_guidelines = map fst (retrieve env store s p v),
      pb_max_steps = set_max_isolation_steps s, pb_operator = gc_assigned_operator (gp_context p),
      pb_model_number = am_model_number (gp_asset p)\<rparr>"

text \<open>
  The deterministic client sleeps for the latency it simulates before it answers, and takes no further time.
  The engine cancels a turn when its deadline is reached; the timer of the deadline is set before that of
  the sleep, so that a sleep of exactly that length is too long.
\<close>

definition slow_turn :: "graph_settings \<Rightarrow> int \<Rightarrow> bool" where
  "slow_turn s latency_ms \<longleftrightarrow> latency_ms \<noteq> 0 \<and> set_timeout_seconds s * 1000 \<le> of_int latency_ms"

text \<open>Both agents, as the engine sees them: each turn in time answers with what the rules compose.\<close>

definition offline_agents ::
    "graph_settings \<Rightarrow> int \<Rightarrow> (pyfloat \<Rightarrow> string) \<Rightarrow> nat \<Rightarrow> nat \<Rightarrow> isolation_verdict \<Rightarrow> strategic_plan \<Rightarrow> agent_env" where
  "offline_agents s latency_ms fmt tokens_in tokens_out v plan =
     \<lparr>ag_emit = (\<lambda>agent k. if slow_turn s latency_ms then EmTimeout else EmAnswer JNull tokens_in tokens_out),
      ag_parse_verdict = (\<lambda>j. Some v), ag_parse_plan = (\<lambda>j. Some plan), ag_format = fmt\<rparr>"

definition offline_answers ::
    "(pyfloat \<Rightarrow> string) \<Rightarrow> embed_env \<Rightarrow> vector_store \<Rightarrow> graph_settings \<Rightarrow> graph_payload \<Rightarrow> topology_analysis
      \<Rightarrow> isolation_verdict \<times> strategic_plan" where
  "offline_answers fmt env store s p t =
     (let v = topology_verdict fmt t in (v, rule_action_plan fmt (engine_briefing env store s p t v)))"

section \<open>Lemmas\<close>

subsection \<open>Rendered text\<close>

abbreviation printing :: "string \<Rightarrow> string" where
  "printing s \<equiv> filter (\<lambda>c. \<not> is_space c) s"

lemma printing_join: "printing (str_join sep ws) = str_join (printing sep) (map printing ws)"
  by (induction sep ws rule: str_join.induct) simp_all

lemma str_join_Nil_sep: "str_join [] ws = concat ws"
  by (induction "[] :: string" ws rule: str_join.induct) simp_all

lemma printing_render: "printing (render_template ctx t) = printing (format_map_t (context_value ctx) t)"
proof -
  have w: "concat (py_words s) = printing s" for s
    using char_runs_facts [of "\<lambda>c. \<not> is_space c" s] by (simp add: py_words_def)
  have "is_space (CHR '' '')" by (simp add: is_space_def)
  then have "printing (str_join '' '' (py_words s)) = printing (concat (py_words s))" for s
    by (simp add: printing_join str_join_Nil_sep filter_concat)
  then show ?thesis by (simp add: render_template_def w)
qed

text \<open>The fixed text of a template: every field replaced by nothing.\<close>

definition template_literal :: "string \<Rightarrow> string" where
  "template_literal t = format_map_t (\<lambda>key. []) t"

lemma literal_le: "length (printing (template_literal t)) \<le> length (printing (format_map_t ctx t))"
  unfolding template_literal_def by (induction ctx t rule: format_map_t.induct) (auto intro: trans_le_add2)

lemma render_length: "length (printing (template_literal t)) \<le> length (render_template ctx t)"
proof -
  have "length (printing (template_literal t)) \<le> length (printing (render_template ctx t))"
    unfolding printing_render by (rule literal_le)
  also have "\<dots> \<le> length (render_template ctx t)" by (rule length_filter_le)
  finally show ?thesis .
qed

subsection \<open>Well-formed chunks\<close>

definition step_template_ok :: "procedure_step \<Rightarrow> bool" where
  "step_template_ok p \<longleftrightarrow>
     8 \<le> length (printing (template_literal (ps_instruction p))) \<and>
     4 \<le> length (printing (template_literal (ps_verification p))) \<and> 0 \<le> ps_seconds p \<and> ps_seconds p \<le> 86400"

definition chunk_ok :: "manual_chunk \<Rightarrow> bool" where
  "chunk_ok c \<longleftrightarrow>
     mc_procedure c \<noteq> [] \<and> length (mc_procedure c) \<le> 4 \<and> list_all step_template_ok (mc_procedure c) \<and>
     length (chunk_reference c) \<le> 160"

lemma manual_chunks_ok:
  "chunk_ok manual_rot"
  "chunk_ok manual_thm"
  "chunk_ok manual_cas"
  "chunk_ok manual_deg"
  "chunk_ok manual_blr"
  "chunk_ok manual_crdt"
  "chunk_ok manual_loto"
  "chunk_ok manual_hex"
  "chunk_ok manual_ctl"
  "chunk_ok manual_cls"
  by code_simp+

lemma corpus_chunks_ok: "list_all chunk_ok MAINTENANCE_CORPUS"
  by (simp add: MAINTENANCE_CORPUS_def manual_chunks_ok)

definition text_fits :: "isolation_step \<Rightarrow> bool" where
  "text_fits x \<longleftrightarrow> length (st_instruction x) \<le> 600 \<and> length (st_verification x) \<le> 400"

text \<open>A step that meets every limit but those on its texts.\<close>

definition almost_ok :: "isolation_step \<Rightarrow> bool" where
  "almost_ok x \<longleftrightarrow> (\<forall>i \<ge> 1. step_ok (x\<lparr>st_sequence := i\<rparr>) \<longleftrightarrow> text_fits x)"

lemma steps_from_almost_ok:
  assumes "chunk_ok c" "len_within 1 128 target"
  shows "list_all almost_ok (steps_from ctx target c)"
  unfolding list_all_iff
proof
  fix x assume "x \<in> set (steps_from ctx target c)"
  then obtain p where p: "p \<in> set (mc_procedure c)" "x =
      \<lparr>st_sequence = 0, st_actor = ps_actor p, st_instruction = render_template ctx (ps_instruction p),
        st_target = target, st_verification = render_template ctx (ps_verification p),
        st_reversible = ps_reversible p, st_seconds = ps_seconds p, st_manual = Some (chunk_reference c)\<rparr>"
    by (auto simp: steps_from_def)
  have "step_template_ok p" using assms(1) p(1) by (simp add: chunk_ok_def list_all_iff)
  moreover note render_length [of "ps_instruction p" ctx] render_length [of "ps_verification p" ctx]
  ultimately have "8 \<le> length (render_template ctx (ps_instruction p))" "4 \<le> length (render_template ctx (ps_verification p))"
    "0 \<le> ps_seconds p" "ps_seconds p \<le> 86400"
    by (simp_all add: step_template_ok_def)
  moreover have "length (chunk_reference c) \<le> 160" using assms(1) by (simp add: chunk_ok_def)
  ultimately show "almost_ok x" using assms(2) by (simp add: almost_ok_def step_ok_def text_fits_def p(2) len_within_def)
qed

lemma safe_state_almost_ok: "len_within 1 128 target \<Longrightarrow> almost_ok (safe_state_step ctx target)"
proof -
  assume t: "len_within 1 128 target"
  have "8 \<le> length (printing (template_literal
      (''Hold {target_name} ({target}) at its documented safe-state setpoint; no '' @
       ''retrieved procedure covers this combination of fault and asset family.'')))"
    by code_simp
  then have "8 \<le> length (st_instruction (safe_state_step ctx target))"
    unfolding safe_state_step_def isolation_step.select_convs using render_length le_trans by blast
  moreover have "length ''Setpoint reads safe-state and is latched against recovery.'' = 58" by simp
  ultimately show ?thesis using t by (simp add: almost_ok_def step_ok_def text_fits_def safe_state_step_def len_within_def)
qed

lemma renumber_almost_ok: "list_all almost_ok xs \<Longrightarrow> list_all step_ok (renumber xs) \<longleftrightarrow> list_all text_fits xs"
proof -
  assume a: "list_all almost_ok xs"
  have "renumber xs ! i = (xs ! i)\<lparr>st_sequence := int (Suc i)\<rparr>" if "i < length xs" for i
    using that by (simp add: renumber_def del: upt_Suc)
  then show ?thesis using a by (simp add: list_all_length almost_ok_def)
qed

subsection \<open>The plan of the rules\<close>

lemma find_in: "List.find P xs = Some x \<Longrightarrow> x \<in> set xs \<and> P x"
  by (metis find_Some_iff nth_mem)

lemma body_chunks_from: "Some c \<in> set (body_chunks b) \<Longrightarrow> c \<in> set (pb_guidelines b)"
  by (auto simp: body_chunks_def find_lead_def find_tagged_def Let_def dest: find_in dest!: sym [of "Some c"]
      split: option.splits if_splits)

lemma body_chunks_not_empty: "body_chunks b \<noteq> []"
  by (simp add: body_chunks_def Let_def)

lemma body_almost_ok:
  assumes "list_all chunk_ok (pb_guidelines b)" "len_within 1 128 (plan_target b)"
  shows "list_all almost_ok (body_steps b)" "list_all almost_ok (closure_steps b)" "length (closure_steps b) \<le> 4"
    "body_steps b \<noteq> []"
proof -
  have ok: "chunk_ok c" if "c \<in> set (pb_guidelines b)" for c using assms(1) that by (simp add: list_all_iff)
  show "list_all almost_ok (body_steps b)"
    unfolding body_steps_def list_all_iff
    using steps_from_almost_ok [OF ok assms(2)] safe_state_almost_ok [OF assms(2)] body_chunks_from
    by (fastforce simp: list_all_iff split: option.splits)
  show "list_all almost_ok (closure_steps b)" "length (closure_steps b) \<le> 4"
    using steps_from_almost_ok [OF ok assms(2)] ok
    by (auto simp: closure_steps_def find_tagged_def steps_from_def chunk_ok_def dest: find_in split: option.splits)
  obtain c cs where c: "body_chunks b = c # cs" using body_chunks_not_empty by (cases "body_chunks b") auto
  have "steps_from ctx x d \<noteq> []" if "c = Some d" for ctx x d
    using ok [of d] body_chunks_from [of d b] c that by (auto simp: steps_from_def chunk_ok_def)
  then show "body_steps b \<noteq> []" by (auto simp: body_steps_def c split: option.splits)
qed

lemma plan_steps_length:
  assumes "list_all chunk_ok (pb_guidelines b)" "len_within 1 128 (plan_target b)"
  shows "plan_steps_of b \<noteq> []" "length (plan_steps_of b) \<le> max (pb_max_steps b) 5"
    "length (closure_steps b) < pb_max_steps b \<Longrightarrow> length (plan_steps_of b) \<le> pb_max_steps b"
proof -
  let ?xs = "take (max 1 (pb_max_steps b - length (closure_steps b))) (body_steps b) @ closure_steps b"
  note ok = body_almost_ok(3,4) [OF assms]
  have l: "length (plan_steps_of b) = length ?xs" by (simp add: plan_steps_of_def Let_def)
  have "?xs \<noteq> []" using ok(2) by simp
  then have "length (plan_steps_of b) \<noteq> 0" unfolding l by (simp only: length_0_conv not_False_eq_True)
  then show "plan_steps_of b \<noteq> []" by auto
  show "length (plan_steps_of b) \<le> max (pb_max_steps b) 5"
    "length (closure_steps b) < pb_max_steps b \<Longrightarrow> length (plan_steps_of b) \<le> pb_max_steps b"
    unfolding l using ok(1) by auto
qed

lemma first_of_each_length: "length (first_of_each seen xs) \<le> length xs"
  by (induction seen xs rule: first_of_each.induct) (auto intro: le_SucI)

lemma plan_cited_length: "length (plan_cited b) \<le> 5"
proof -
  have "length (body_chunks b) \<le> 4" by (auto simp: body_chunks_def Let_def split: option.splits)
  moreover have "length (List.map_filter id xs) \<le> length xs" for xs :: "manual_chunk option list"
    by (simp add: List.map_filter_def)
  ultimately have "length (List.map_filter id (body_chunks b)) \<le> 4" by (metis le_trans)
  then have "length (map mc_doc_id (List.map_filter id (body_chunks b) @
      (case find_tagged ''closure'' (pb_guidelines b) of None \<Rightarrow> [] | Some c \<Rightarrow> [c]))) \<le> 5"
    by (auto split: option.splits)
  then show ?thesis unfolding plan_cited_def by (rule le_trans [OF first_of_each_length])
qed

lemma rounded_bounds: "0 \<le> py_round (max (1/20) (min 1 x)) 3 \<and> py_round (max (1/20) (min 1 x)) 3 \<le> 1"
proof -
  have "(0 :: rat) \<le> max (1/20) (min 1 x)" by (rule max.coboundedI1) simp
  moreover have "max (1/20) (min 1 x) \<le> (1 :: rat)" by simp
  ultimately show ?thesis by (rule py_round_unit_bounds)
qed

lemma plan_confidence_bounds: "0 \<le> plan_confidence b \<and> plan_confidence b \<le> 1"
  unfolding plan_confidence_def Let_def by (rule rounded_bounds)

text \<open>The plan of the rules meets its contract exactly when its texts fit.\<close>

lemma rule_plan_ok:
  assumes "list_all chunk_ok (pb_guidelines b)" "len_within 1 128 (plan_target b)" "pb_max_steps b \<le> 40"
  shows "plan_ok (rule_action_plan fmt b) \<longleftrightarrow>
    list_all text_fits (plan_steps_of b) \<and> length (plan_rationale fmt b) \<le> 2000"
proof -
  let ?xs = "take (max 1 (pb_max_steps b - length (closure_steps b))) (body_steps b) @ closure_steps b"
  note ok = body_almost_ok [OF assms(1,2)]
  have xs: "plan_steps_of b = renumber ?xs" by (simp add: plan_steps_of_def Let_def)
  have "list_all almost_ok ?xs" using ok(1,2) by (auto simp: list_all_iff dest: in_set_takeD)
  then have fits: "list_all step_ok (plan_steps_of b) \<longleftrightarrow> list_all text_fits ?xs"
    unfolding xs by (rule renumber_almost_ok)
  have same: "list_all text_fits (plan_steps_of b) \<longleftrightarrow> list_all text_fits ?xs"
    unfolding xs by (rule renumber_all) (simp add: text_fits_def)
  have r: "plan_rationale fmt b \<noteq> []" by (simp add: plan_rationale_def Let_def split: fault_class.splits)
  have p: "length (plan_protection b) \<le> 64" by (simp add: plan_protection_def Let_def)
  note l = plan_steps_length(1,2) [OF assms(1,2)]
  have "contiguous (plan_steps_of b)" unfolding xs by (rule contiguous_renumber)
  then show ?thesis
    using fits same r p l assms(2,3) plan_cited_length [of b] plan_confidence_bounds [of b]
    by (auto simp: plan_ok_def rule_action_plan_def len_within_def plan_target_def Suc_le_eq)
qed

lemma rule_plan_targets: "set (sp_target (rule_action_plan fmt b) # map st_target (sp_steps (rule_action_plan fmt b))) = {plan_target b}"
  if "list_all chunk_ok (pb_guidelines b)" "len_within 1 128 (plan_target b)"
proof -
  let ?xs = "take (max 1 (pb_max_steps b - length (closure_steps b))) (body_steps b) @ closure_steps b"
  have f: "st_target x = plan_target b" if "x \<in> set (steps_from (plan_context b) (plan_target b) c)" for x c
    using that by (auto simp: steps_from_def)
  have "list_all (\<lambda>x. st_target x = plan_target b) ?xs"
    using f by (auto simp: list_all_iff body_steps_def closure_steps_def safe_state_step_def dest!: in_set_takeD split: option.splits)
  then have "list_all (\<lambda>x. st_target x = plan_target b) (plan_steps_of b)"
    unfolding plan_steps_of_def Let_def by (subst renumber_all) simp_all
  then show ?thesis by (auto simp: rule_action_plan_def list_all_iff)
qed

subsection \<open>The verdict of the rules\<close>

lemma derive_confidence_bounds: "0 \<le> derive_confidence c d u h k \<and> derive_confidence c d u h k \<le> 1"
  unfolding derive_confidence_def Let_def by (rule rounded_bounds)

text \<open>What the kernel hands on stays in the graph.\<close>

lemma analysis_grounded:
  assumes t: "analyse_topology fmt p s = Inr t" and wf: "payload_wf p"
  shows "set (ta_root_cause t # ta_cascade_path t @ ta_downstream t) \<subseteq> ta_known_nodes t"
    "ta_class t = InheritedCascade \<Longrightarrow> ta_cascade_path t \<noteq> []" "assessment_ok (ta_crdt t)"
    "0 \<le> ta_confidence t \<and> ta_confidence t \<le> 1" "length (ta_downstream t) \<le> 128"
    "ta_root_cause t = am_uuid (gp_asset p) \<or> node_id_ok (ta_root_cause t)"
proof -
  obtain crdt where c: "t = analysis_of fmt p s crdt" "assessment_ok crdt" using t by (rule analyse_topology_Inr)
  note f = analysis_of_fields [of fmt p s crdt, folded c(1)]
  have known: "insert (am_uuid (gp_asset p)) (set (gc_upstream (gp_context p)) \<union> set (gc_downstream (gp_context p))) \<subseteq>
      ta_known_nodes t"
    by (auto simp: f known_nodes_def neighbour_ids_def)
  have dist: "distinct (gc_upstream (gp_context p))" using wf by (simp add: payload_wf_def)
  have up: "list_all node_id_ok (gc_upstream (gp_context p))" using wf by (simp add: payload_wf_def)
  have "set (ta_root_cause t # ta_cascade_path t) \<subseteq> ta_known_nodes t \<and>
      (ta_class t = InheritedCascade \<longrightarrow> ta_cascade_path t \<noteq> []) \<and>
      (ta_root_cause t = am_uuid (gp_asset p) \<or> node_id_ok (ta_root_cause t))"
  proof (cases "\<exists>n \<in> set (gc_upstream (gp_context p)). upstream_faulted fmt p n")
    case True
    obtain near far where n: "gc_upstream (gp_context p) = near @ ta_root_cause t # far"
      "ta_cascade_path t = ta_root_cause t # rev near @ [am_uuid (gp_asset p)]"
      using analysis_cascade [OF True dist, of s crdt] unfolding c(1) by blast
    have "node_id_ok (ta_root_cause t)" using up n(1) by (simp add: list_all_iff)
    moreover have "set (ta_root_cause t # ta_cascade_path t) \<subseteq>
        insert (am_uuid (gp_asset p)) (set (gc_upstream (gp_context p)))"
      unfolding n(2) by (auto simp: n(1))
    ultimately show ?thesis using known n(2) by auto
  next
    case False
    then show ?thesis using analysis_no_cascade [OF False, of s crdt] unfolding c(1) [symmetric] using known by auto
  qed
  then show "set (ta_root_cause t # ta_cascade_path t @ ta_downstream t) \<subseteq> ta_known_nodes t"
    "ta_class t = InheritedCascade \<Longrightarrow> ta_cascade_path t \<noteq> []"
    "ta_root_cause t = am_uuid (gp_asset p) \<or> node_id_ok (ta_root_cause t)"
    using known by (auto simp: f(4))
  show "assessment_ok (ta_crdt t)" using c(2) by (simp add: f)
  show "0 \<le> ta_confidence t \<and> ta_confidence t \<le> 1" unfolding f(12) by (rule derive_confidence_bounds)
  show "length (ta_downstream t) \<le> 128" using wf by (simp add: f payload_wf_def)
qed

lemma rule_verdict_validates:
  "analyse_topology fmt p s = Inr t \<Longrightarrow> payload_wf p \<Longrightarrow> validate_verdict t (topology_verdict fmt t)"
  using analysis_grounded(1,2) by (simp add: validate_verdict_def topology_verdict_def)

lemma root_cause_length:
  assumes "analyse_topology fmt p s = Inr t" "payload_wf p" "length (am_uuid (gp_asset p)) \<le> 128"
  shows "len_within 1 128 (ta_root_cause t)"
  using analysis_grounded(6) [OF assms(1,2)] assms(2,3)
  by (auto simp: len_within_def node_id_ok_def payload_wf_def Suc_le_eq)

lemma rule_verdict_ok:
  assumes "analyse_topology fmt p s = Inr t" "payload_wf p" "length (am_uuid (gp_asset p)) \<le> 128"
  shows "verdict_ok (topology_verdict fmt t) \<longleftrightarrow>
    length (verdict_rationale fmt t) \<le> 2000 \<and> length (ta_cascade_path t) \<le> 64 \<and> length (ta_localized t) \<le> 64"
proof -
  have "verdict_rationale fmt t \<noteq> []" by (simp add: verdict_rationale_def Let_def split: fault_class.splits)
  then show ?thesis
    using analysis_grounded(3-5) [OF assms(1,2)] root_cause_length [OF assms]
    by (auto simp: verdict_ok_def topology_verdict_def len_within_def Suc_le_eq)
qed

lemma offline_run:
  "\<not> isl (run_engine (offline_agents s ms fmt i o' v plan) s p) \<longleftrightarrow>
     \<not> slow_turn s ms \<and> 1 \<le> set_max_attempts s \<and> verdict_ok v \<and> plan_ok plan \<and>
     (\<exists>t. analyse_topology fmt p s = Inr t \<and> validate_verdict t v \<and> validate_plan t plan)"
  unfolding engine_returns by (auto simp: offline_agents_def)

lemma guidelines_ok:
  "set (map fst (retrieve env (vector_store_init env MAINTENANCE_CORPUS) s p v)) \<subseteq> set MAINTENANCE_CORPUS"
proof -
  obtain xs ys where xs: "search env (vector_store_init env MAINTENANCE_CORPUS) (primary_query p v) (set_retrieval_top_k s)
        (Some (model_family (gp_asset p))) (Some (iv_containment v)) (Some (iv_fault v)) False = xs"
    and ys: "search env (vector_store_init env MAINTENANCE_CORPUS) (secondary_query v) (set_retrieval_top_k s) None None None True = ys"
    by blast
  have "set (retrieve env (vector_store_init env MAINTENANCE_CORPUS) s p v) \<subseteq> set xs \<union> set ys"
    using merge_ranked_facts(3) [OF refl] by (simp add: retrieve_def xs ys)
  then show ?thesis
    using search_best(4) [OF corpus_ids_distinct xs] search_best(4) [OF corpus_ids_distinct ys] by auto
qed

subsection \<open>Guardrails on the plan of the rules\<close>

lemma closure_in_corpus:
  assumes "set gs \<subseteq> set MAINTENANCE_CORPUS" "manual_cls \<in> set gs"
  shows "find_tagged ''closure'' gs = Some manual_cls"
proof -
  have only: "list_all (\<lambda>c. mc_supplementary c \<and> ''closure'' \<in> set (mc_tags c) \<longrightarrow> c = manual_cls) MAINTENANCE_CORPUS"
    "mc_supplementary manual_cls \<and> ''closure'' \<in> set (mc_tags manual_cls)"
    by code_simp+
  then have "find_tagged ''closure'' gs \<noteq> None" using assms(2) by (auto simp: find_tagged_def find_None_iff)
  then obtain c where c: "find_tagged ''closure'' gs = Some c" by blast
  then have "c \<in> set gs" "mc_supplementary c \<and> ''closure'' \<in> set (mc_tags c)"
    using find_in [of _ gs c] by (auto simp: find_tagged_def)
  then show ?thesis using only(1) assms(1) c by (auto simp: list_all_iff)
qed

lemma closure_supervised: "has_supervisor (steps_from ctx target manual_cls)" "length (steps_from ctx target manual_cls) = 2"
proof -
  have "list_ex (\<lambda>p. ps_actor p = HumanSupervisor) (mc_procedure manual_cls)" "length (mc_procedure manual_cls) = 2"
    by code_simp+
  then show "has_supervisor (steps_from ctx target manual_cls)" "length (steps_from ctx target manual_cls) = 2"
    by (auto simp: has_supervisor_def steps_from_def list_ex_iff)
qed

lemma kernel_action_permitted:
  assumes "analyse_topology fmt p s = Inr t" "irreversible_action (ta_action t)"
  shows "ta_irreversible_permitted t" "set_min_graph_trust s \<le> ca_graph_trust (ta_crdt t)" "ta_priority t = GpCritical"
proof -
  obtain crdt where c: "t = analysis_of fmt p s crdt" using assms(1) by (rule analyse_topology_Inr)
  note f = analysis_of_fields [of fmt p s crdt, folded c]
  have a: "ta_irreversible_permitted t \<and> ta_priority t = GpCritical"
    using assms(2) unfolding f(11) by (auto simp: derive_action_def irreversible_action_def split: if_splits)
  then show "ta_irreversible_permitted t" "ta_priority t = GpCritical" by simp_all
  then have "derive_irreversible (ca_graph_trust crdt < set_min_graph_trust s) (ca_presence crdt)
      (local_channels (gp_telemetry p) \<noteq> [])" using f(10) by simp
  then show "set_min_graph_trust s \<le> ca_graph_trust (ta_crdt t)" unfolding f(3) by (simp add: derive_irreversible_def)
qed

lemma rules_pass:
  assumes t: "analyse_topology fmt p s = Inr t" and v: "pb_verdict b = topology_verdict fmt t" and a: "pb_analysis b = t"
    and m: "pb_max_steps b = set_max_isolation_steps s" "3 \<le> set_max_isolation_steps s"
    and trust: "set_min_graph_trust s \<le> 3/4"
    and gs: "set (pb_guidelines b) \<subseteq> set MAINTENANCE_CORPUS" "manual_cls \<in> set (pb_guidelines b)"
    and target: "len_within 1 128 (plan_target b)"
  shows "applied_guardrails s (rule_action_plan fmt b) (topology_verdict fmt t) t = []"
proof -
  let ?v = "topology_verdict fmt t" and ?p = "rule_action_plan fmt b"
  have f: "iv_root_cause ?v = ta_root_cause t" "iv_crdt ?v = ta_crdt t" "iv_containment ?v = ta_action t"
    "iv_irreversible_permitted ?v = ta_irreversible_permitted t"
    by (simp_all add: topology_verdict_def)
  have g: "sp_target ?p = ta_root_cause t" "sp_action ?p = ta_action t" "sp_priority ?p = ta_priority t"
    "sp_steps ?p = plan_steps_of b" "sp_authorization ?p = plan_authorization b"
    by (simp_all add: rule_action_plan_def plan_target_def v a f)
  have ok: "list_all chunk_ok (pb_guidelines b)" using gs(1) corpus_chunks_ok by (auto simp: list_all_iff)
  have cl: "closure_steps b = steps_from (plan_context b) (plan_target b) manual_cls"
    by (simp add: closure_steps_def closure_in_corpus [OF gs])
  have nd: "\<not> downgrades s ?v (ta_action t)"
    using kernel_action_permitted [OF t] by (auto simp: downgrades_def untrusted_def f)
  have prio: "raise_priority (ta_action t) (ta_priority t) (ta_priority t) = (ta_priority t, [])"
    using kernel_action_permitted(3) [OF t] by (auto simp: raise_priority_def)
  have len: "length (plan_steps_of b) \<le> set_max_isolation_steps s"
    using plan_steps_length(3) [OF ok target] closure_supervised(2) m by (simp add: cl)
  have "has_supervisor (plan_steps_of b)"
    using closure_supervised(1) unfolding plan_steps_of_def Let_def renumber_supervisor cl
    by (auto simp: has_supervisor_def)
  then have fin: "finish_steps s (ta_root_cause t) (plan_steps_of b) = plan_steps_of b"
    using len by (simp add: finish_steps_def)
  have "force_authorization s ?v (ta_action t) (ta_priority t) (plan_steps_of b) (plan_authorization b) = None"
    using trust by (auto simp: force_authorization_def plan_authorization_def v a f untrusted_def)
  then show ?thesis
    using nd len by (simp add: applied_guardrails_def g f retained_steps_def final_action_def fin prio Let_def)
qed

subsection \<open>The step budget\<close>

lemma corpus_shape:
  "list_all (\<lambda>c. mc_supplementary c \<longrightarrow> list_all ps_reversible (mc_procedure c) \<and> length (mc_procedure c) = 2) MAINTENANCE_CORPUS"
  "list_all (\<lambda>c. ps_reversible (hd (mc_procedure c))) MAINTENANCE_CORPUS"
  by code_simp+

lemma steps_from_facts:
  "length (steps_from ctx target c) = length (mc_procedure c)"
  "map st_reversible (steps_from ctx target c) = map ps_reversible (mc_procedure c)"
  by (simp_all add: steps_from_def)

lemma tagged_steps:
  assumes "set gs \<subseteq> set MAINTENANCE_CORPUS" "find_tagged tag gs = Some c"
  shows "list_all st_reversible (steps_from ctx target c)" "length (steps_from ctx target c) = 2"
proof -
  have "c \<in> set MAINTENANCE_CORPUS" "mc_supplementary c"
    using assms find_in [of _ gs c] by (auto simp: find_tagged_def)
  then have c: "list_all ps_reversible (mc_procedure c)" "length (mc_procedure c) = 2"
    using corpus_shape(1) by (auto simp: list_all_iff)
  then show "length (steps_from ctx target c) = 2" by (simp add: steps_from_facts)
  have "list_all id (map st_reversible (steps_from ctx target c))"
    unfolding steps_from_facts(2) using c(1) by (simp add: list.pred_map)
  then show "list_all st_reversible (steps_from ctx target c)" by (simp add: list.pred_map)
qed

lemma lead_first_step:
  fixes a ctx target
  assumes "set (pb_guidelines b) \<subseteq> set MAINTENANCE_CORPUS"
  defines "lead \<equiv> (case find_lead a (pb_guidelines b) of
     None \<Rightarrow> [safe_state_step ctx target] | Some x \<Rightarrow> steps_from ctx target x)"
  shows "lead \<noteq> []" "st_reversible (hd lead)"
proof -
  have c: "mc_procedure c \<noteq> [] \<and> ps_reversible (hd (mc_procedure c))" if "c \<in> set MAINTENANCE_CORPUS" for c
    using that corpus_shape(2) corpus_chunks_ok by (auto simp: list_all_iff chunk_ok_def)
  have s: "steps_from ctx target x \<noteq> [] \<and> st_reversible (hd (steps_from ctx target x))"
    if "find_lead a (pb_guidelines b) = Some x" for x
  proof -
    have "x \<in> set MAINTENANCE_CORPUS" using that assms(1) find_in [of _ "pb_guidelines b" x] by (auto simp: find_lead_def)
    then show ?thesis using c [of x] by (cases "mc_procedure x") (auto simp: steps_from_def)
  qed
  show "lead \<noteq> []" "st_reversible (hd lead)"
    using s by (auto simp: lead_def safe_state_step_def split: option.splits)
qed

lemma take_after:
  assumes "k \<le> Suc (length xs)" "list_all P xs" "ys \<noteq> []" "P (hd ys)"
  shows "list_all P (take k (xs @ ys))"
proof -
  obtain y zs where y: "ys = y # zs" using assms(3) by (cases ys) auto
  have "set (take k (xs @ ys)) \<subseteq> set xs \<union> {y}"
  proof -
    have "take k (xs @ ys) = take k (xs @ [y])"
      using assms(1) by (cases "k \<le> length xs") (simp_all add: y le_Suc_eq)
    then show ?thesis using set_take_subset [of k "xs @ [y]"] by auto
  qed
  then show ?thesis using assms(2,4) by (auto simp: list_all_iff y)
qed

lemma body_steps_split:
  assumes gs: "set (pb_guidelines b) \<subseteq> set MAINTENANCE_CORPUS"
  obtains pre rest where "body_steps b = pre @ rest" "list_all st_reversible pre" "length pre \<le> 4"
    "plan_downstream b \<noteq> [] \<Longrightarrow> manual_blr \<in> set (pb_guidelines b) \<Longrightarrow> 2 \<le> length pre"
    "rest \<noteq> []" "st_reversible (hd rest)"
    "\<And>c. find_lead (iv_containment (pb_verdict b)) (pb_guidelines b) = Some c \<Longrightarrow>
       \<exists>more. rest = steps_from (plan_context b) (plan_target b) c @ more"
proof -
  let ?s = "steps_from (plan_context b) (plan_target b)"
  let ?g = "\<lambda>c. case c of None \<Rightarrow> [safe_state_step (plan_context b) (plan_target b)] | Some x \<Rightarrow> ?s x"
  let ?a = "iv_containment (pb_verdict b)"
  define front where "front wanted c = (case c of None \<Rightarrow> [] | Some x \<Rightarrow> if wanted then [Some x] else [])"
    for wanted and c :: "manual_chunk option"
  let ?crdt = "front (unsettled_graph (iv_crdt (pb_verdict b))) (find_tagged ''crdt'' (pb_guidelines b))"
  let ?blast = "front (plan_downstream b \<noteq> []) (find_tagged ''downstream'' (pb_guidelines b))"
  let ?loto = "front (?a \<in> {IsolateValve, EmergencyShutdown}) (find_tagged ''loto'' (pb_guidelines b))"
  let ?lead = "?g (find_lead ?a (pb_guidelines b))"
  have chunks: "body_chunks b = ?crdt @ ?blast @ [find_lead ?a (pb_guidelines b)] @ ?loto"
    by (simp add: body_chunks_def front_def Let_def)
  have part: "list_all st_reversible (concat (map ?g (front w (find_tagged tag (pb_guidelines b)))))"
    "length (concat (map ?g (front w (find_tagged tag (pb_guidelines b))))) \<le> 2" for w tag
    using tagged_steps [OF gs] by (auto simp: front_def split: option.splits)
  have blast: "2 \<le> length (concat (map ?g ?blast))" if "plan_downstream b \<noteq> []" "manual_blr \<in> set (pb_guidelines b)"
  proof -
    have "mc_supplementary manual_blr \<and> ''downstream'' \<in> set (mc_tags manual_blr)" by code_simp
    then have "find_tagged ''downstream'' (pb_guidelines b) \<noteq> None" using that(2) by (auto simp: find_tagged_def find_None_iff)
    then obtain c where "find_tagged ''downstream'' (pb_guidelines b) = Some c" by blast
    then show ?thesis using tagged_steps(2) [OF gs] that(1) by (simp add: front_def)
  qed
  note lead = lead_first_step [OF gs, where a = ?a and ctx = "plan_context b" and target = "plan_target b"]
  show thesis
  proof (rule that)
    show "body_steps b = (concat (map ?g ?crdt) @ concat (map ?g ?blast)) @ (?lead @ concat (map ?g ?loto))"
      by (simp add: body_steps_def chunks)
    show "list_all st_reversible (concat (map ?g ?crdt) @ concat (map ?g ?blast))" using part(1) by simp
    show "length (concat (map ?g ?crdt) @ concat (map ?g ?blast)) \<le> 4"
      using add_mono [OF part(2) part(2)] by simp
    show "2 \<le> length (concat (map ?g ?crdt) @ concat (map ?g ?blast))"
      if "plan_downstream b \<noteq> []" "manual_blr \<in> set (pb_guidelines b)"
      using blast [OF that] by simp
    show "?lead @ concat (map ?g ?loto) \<noteq> []" "st_reversible (hd (?lead @ concat (map ?g ?loto)))"
      using lead by simp_all
    show "\<exists>more. ?lead @ concat (map ?g ?loto) = ?s c @ more"
      if "find_lead ?a (pb_guidelines b) = Some c" for c
      using that by simp
  qed
qed

subsection \<open>Placeholders\<close>

function template_fields :: "string \<Rightarrow> string list" where
  "template_fields [] = []"
| "template_fields (c # cs) =
     (if c = CHR ''{'' then
        takeWhile (\<lambda>d. d \<noteq> CHR ''}'') cs # template_fields (drop 1 (dropWhile (\<lambda>d. d \<noteq> CHR ''}'') cs))
      else template_fields cs)"
  by pat_completeness auto

termination
  by (relation "measure length") (auto simp: less_Suc_eq_le intro: le_trans [OF diff_le_self length_dropWhile_le])

lemma field_le: "f \<in> set (template_fields t) \<Longrightarrow> length (printing (ctx f)) \<le> length (printing (format_map_t ctx t))"
  by (induction ctx t rule: format_map_t.induct) (auto split: if_splits intro: trans_le_add2)

lemma field_length: "f \<in> set (template_fields t) \<Longrightarrow> length (printing (context_value ctx f)) \<le> length (render_template ctx t)"
proof -
  assume "f \<in> set (template_fields t)"
  then have "length (printing (context_value ctx f)) \<le> length (printing (render_template ctx t))"
    unfolding printing_render by (rule field_le)
  also have "\<dots> \<le> length (render_template ctx t)" by (rule length_filter_le)
  finally show ?thesis .
qed

lemma nth_in_take: "i < k \<Longrightarrow> i < length xs \<Longrightarrow> xs ! i \<in> set (take k xs)"
  by (auto simp: in_set_conv_nth)

lemma cascade_in_template:
  "1 < length (mc_procedure manual_cas)"
  "''cascade_summary'' \<in> set (template_fields (ps_instruction (mc_procedure manual_cas ! 1)))"
  by code_simp+

section \<open>Properties\<close>

text \<open>
  C27: The offline backend answers in time, up to the size of its texts.  On a well-formed payload the kernel
  accepts, the engine run on the rule engine issues a command exactly when the latency the client simulates
  is zero or shorter than a turn may last, the rationale of the verdict and of the plan have at most 2000
  characters, the cascade path and the list of components at most 64 entries, and every step of the plan
  at most 600 and 400.  Nothing else is refused: the verdict and the plan stay in the graph, and the
  sequence, the references, the confidence and the other limits always fit.
\<close>
theorem offline_engine_answers:
  "payload_wf p \<Longrightarrow> length (am_uuid (gp_asset p)) \<le> 128 \<Longrightarrow> analyse_topology fmt p s = Inr t \<Longrightarrow>
   1 \<le> set_max_attempts s \<Longrightarrow> set_max_isolation_steps s \<le> 40 \<Longrightarrow>
   offline_answers fmt env (vector_store_init env MAINTENANCE_CORPUS) s p t = (v, plan) \<Longrightarrow>
   \<not> isl (run_engine (offline_agents s latency_ms fmt i o' v plan) s p) \<longleftrightarrow>
     (latency_ms = 0 \<or> of_int latency_ms < set_timeout_seconds s * 1000) \<and>
     length (iv_rationale v) \<le> 2000 \<and> length (iv_cascade_path v) \<le> 64 \<and> length (iv_localized v) \<le> 64 \<and>
     list_all text_fits (sp_steps plan) \<and> length (sp_rationale plan) \<le> 2000"
proof -
  assume wf: "payload_wf p" and l: "length (am_uuid (gp_asset p)) \<le> 128" and t: "analyse_topology fmt p s = Inr t"
    and n: "1 \<le> set_max_attempts s" and m: "set_max_isolation_steps s \<le> 40"
    and ans: "offline_answers fmt env (vector_store_init env MAINTENANCE_CORPUS) s p t = (v, plan)"
  let ?b = "engine_briefing env (vector_store_init env MAINTENANCE_CORPUS) s p t (topology_verdict fmt t)"
  have v: "v = topology_verdict fmt t" "plan = rule_action_plan fmt ?b"
    using ans by (auto simp: offline_answers_def Let_def)
  have ok: "list_all chunk_ok (pb_guidelines ?b)"
    using guidelines_ok corpus_chunks_ok by (fastforce simp: engine_briefing_def list_all_iff)
  have tgt: "plan_target ?b = ta_root_cause t" by (simp add: plan_target_def engine_briefing_def topology_verdict_def)
  have len: "len_within 1 128 (plan_target ?b)" using root_cause_length [OF t wf l] by (simp add: tgt)
  have steps: "pb_max_steps ?b \<le> 40" using m by (simp add: engine_briefing_def)
  have "ta_root_cause t \<in> ta_known_nodes t" using analysis_grounded(1) [OF t wf] by simp
  then have "validate_plan t plan" unfolding v validate_plan_def rule_plan_targets [OF ok len] tgt by simp
  then show ?thesis
    unfolding offline_run using n t rule_verdict_validates [OF t wf] rule_verdict_ok [OF t wf l] rule_plan_ok [OF ok len steps]
    by (auto simp: v topology_verdict_def rule_action_plan_def slow_turn_def)
qed

text \<open>
  C17: The rule engine needs no guardrail.  With the shipped thresholds and the closure chapter among the
  guidelines, the plan the rules compose passes all seven rules unchanged and without a note: target,
  action, priority, sequence, handover and authorisation are already what the rules enforce.
\<close>
theorem offline_plan_passes_guardrails:
  "analyse_topology fmt p s = Inr t \<Longrightarrow> payload_wf p \<Longrightarrow> length (am_uuid (gp_asset p)) \<le> 128 \<Longrightarrow>
   3 \<le> set_max_isolation_steps s \<Longrightarrow> set_min_graph_trust s \<le> 3/4 \<Longrightarrow>
   offline_answers fmt env (vector_store_init env MAINTENANCE_CORPUS) s p t = (v, plan) \<Longrightarrow>
   manual_cls \<in> fst ` set (retrieve env (vector_store_init env MAINTENANCE_CORPUS) s p v) \<Longrightarrow>
   enforce_safety_invariants s plan v t = (plan, [])"
proof -
  assume t: "analyse_topology fmt p s = Inr t" and wf: "payload_wf p" "length (am_uuid (gp_asset p)) \<le> 128"
    and m: "3 \<le> set_max_isolation_steps s" "set_min_graph_trust s \<le> 3/4"
    and ans: "offline_answers fmt env (vector_store_init env MAINTENANCE_CORPUS) s p t = (v, plan)"
    and cls: "manual_cls \<in> fst ` set (retrieve env (vector_store_init env MAINTENANCE_CORPUS) s p v)"
  let ?b = "engine_briefing env (vector_store_init env MAINTENANCE_CORPUS) s p t (topology_verdict fmt t)"
  have v: "v = topology_verdict fmt t" "plan = rule_action_plan fmt ?b"
    using ans by (auto simp: offline_answers_def Let_def)
  have "applied_guardrails s plan v t = []"
    unfolding v
  proof (rule rules_pass [OF t])
    show "set (pb_guidelines ?b) \<subseteq> set MAINTENANCE_CORPUS" using guidelines_ok by (simp add: engine_briefing_def)
    show "manual_cls \<in> set (pb_guidelines ?b)" using cls by (simp add: engine_briefing_def v)
    show "len_within 1 128 (plan_target ?b)"
      using root_cause_length [OF t wf] by (simp add: plan_target_def engine_briefing_def topology_verdict_def)
  qed (use m in \<open>simp_all add: engine_briefing_def\<close>)
  then show ?thesis by (simp add: enforce_safety_invariants_def Let_def)
qed

text \<open>
  A small step limit cuts the shutdown out of a shutdown plan.  The service may be configured with a
  limit of 3, 4 or 5 steps; then, whenever downstream consumers have to be protected first, the plan that
  orders an emergency shutdown consists of reversible steps only: the trip itself is cut off.
\<close>
theorem small_budget_drops_trip:
  "set (pb_guidelines b) \<subseteq> set MAINTENANCE_CORPUS \<Longrightarrow> {manual_blr, manual_cls} \<subseteq> set (pb_guidelines b) \<Longrightarrow>
   plan_downstream b \<noteq> [] \<Longrightarrow> pb_max_steps b \<le> 5 \<Longrightarrow> iv_containment (pb_verdict b) = EmergencyShutdown \<Longrightarrow>
   sp_action (rule_action_plan fmt b) = EmergencyShutdown \<and>
   list_all st_reversible (sp_steps (rule_action_plan fmt b))"
proof -
  assume gs: "set (pb_guidelines b) \<subseteq> set MAINTENANCE_CORPUS" and m: "{manual_blr, manual_cls} \<subseteq> set (pb_guidelines b)"
    and down: "plan_downstream b \<noteq> []" and k: "pb_max_steps b \<le> 5" and a: "iv_containment (pb_verdict b) = EmergencyShutdown"
  obtain pre rest where b: "body_steps b = pre @ rest" "list_all st_reversible pre" "2 \<le> length pre" "rest \<noteq> []"
    "st_reversible (hd rest)"
    using body_steps_split [OF gs] m down by (metis insert_subset)
  have cls: "find_tagged ''closure'' (pb_guidelines b) = Some manual_cls" using closure_in_corpus [OF gs] m by simp
  then have c: "list_all st_reversible (closure_steps b)" "length (closure_steps b) = 2"
    using tagged_steps [OF gs cls] by (simp_all add: closure_steps_def)
  have "max 1 (pb_max_steps b - length (closure_steps b)) \<le> Suc (length pre)" using k b(3) c(2) by simp
  then have "list_all st_reversible (take (max 1 (pb_max_steps b - length (closure_steps b))) (body_steps b))"
    unfolding b(1) using b(2,4,5) by (rule take_after)
  then have "list_all st_reversible (plan_steps_of b)" using c(1) by (simp add: plan_steps_of_def Let_def)
  then show ?thesis by (simp add: rule_action_plan_def a)
qed

text \<open>
  A long cascade gets no plan from the offline backend.  Where the cascade procedure leads and the step
  limit is at least the shipped one, a cascade path whose text has more than 600 characters makes a step
  longer than the contract allows, so the plan is refused on every attempt, as the rules are deterministic.
\<close>
theorem long_cascade_gets_no_plan:
  "set (pb_guidelines b) \<subseteq> set MAINTENANCE_CORPUS \<Longrightarrow> 12 \<le> pb_max_steps b \<Longrightarrow>
   find_lead (iv_containment (pb_verdict b)) (pb_guidelines b) = Some manual_cas \<Longrightarrow>
   iv_cascade_path (pb_verdict b) \<noteq> [] \<Longrightarrow>
   600 < length (printing (str_join '' -> '' (iv_cascade_path (pb_verdict b)))) \<Longrightarrow>
   \<not> plan_ok (rule_action_plan fmt b) \<and> 
   isl (run_engine (offline_agents s latency_ms fmt i o' v (rule_action_plan fmt b)) s p)"
proof -
  assume gs: "set (pb_guidelines b) \<subseteq> set MAINTENANCE_CORPUS" and m: "12 \<le> pb_max_steps b"
    and lead: "find_lead (iv_containment (pb_verdict b)) (pb_guidelines b) = Some manual_cas"
    and path: "iv_cascade_path (pb_verdict b) \<noteq> []"
    and long: "600 < length (printing (str_join '' -> '' (iv_cascade_path (pb_verdict b))))"
  let ?s = "steps_from (plan_context b) (plan_target b) manual_cas"
  obtain pre rest where b: "body_steps b = pre @ rest" "length pre \<le> 4" "\<exists>more. rest = ?s @ more"
    using body_steps_split [OF gs] lead by metis
  obtain more where more: "rest = ?s @ more" using b(3) by blast
  have "length (closure_steps b) \<le> 2"
    using tagged_steps(2) [OF gs] by (auto simp: closure_steps_def split: option.splits)
  then have budget: "length pre + 1 < max 1 (pb_max_steps b - length (closure_steps b))" using m b(2) by simp
  have l: "1 < length ?s" using cascade_in_template(1) by (simp add: steps_from_facts)
  then have nth: "body_steps b ! (length pre + 1) = ?s ! 1" by (simp add: b(1) more nth_append)
  have "length pre + 1 < length (body_steps b)" using l by (simp add: b(1) more)
  from nth_in_take [OF budget this]
  have "?s ! 1 \<in> set (take (max 1 (pb_max_steps b - length (closure_steps b))) (body_steps b))"
    by (simp only: nth)
  then have in_plan: "?s ! 1 \<in> set (take (max 1 (pb_max_steps b - length (closure_steps b))) (body_steps b) @ closure_steps b)"
    by simp
  have "context_value (plan_context b) ''cascade_summary'' = str_join '' -> '' (iv_cascade_path (pb_verdict b))"
    using path by (simp add: context_value_def plan_context_def Let_def)
  then have "600 < length (st_instruction (?s ! 1))"
    using long field_length [OF cascade_in_template(2), of "plan_context b"] l by (simp add: steps_from_def)
  then have "\<not> text_fits (?s ! 1)" by (simp add: text_fits_def)
  then have "\<not> list_all text_fits (take (max 1 (pb_max_steps b - length (closure_steps b))) (body_steps b) @ closure_steps b)"
    using in_plan unfolding list_all_iff by blast
  moreover have "list_all text_fits (renumber xs) = list_all text_fits xs" for xs
    by (rule renumber_all) (simp add: text_fits_def)
  ultimately have "\<not> list_all text_fits (plan_steps_of b)" by (simp only: plan_steps_of_def Let_def not_False_eq_True)
  moreover have "text_fits x" if "step_ok x" for x using that by (simp add: step_ok_def text_fits_def len_within_def)
  ultimately have "\<not> list_all step_ok (plan_steps_of b)" by (auto simp: list_all_iff)
  then have no: "\<not> plan_ok (rule_action_plan fmt b)" by (auto simp: plan_ok_def rule_action_plan_def)
  then show ?thesis using offline_run [of s latency_ms fmt i o' v "rule_action_plan fmt b" p] by blast
qed

text \<open>
  Every placeholder in the manual is one the planner fills.  No template of the corpus refers to a name
  outside the context, so the fallback phrase for an unknown placeholder is never issued to the field.
\<close>
theorem manual_placeholders_known:
  "list_all (\<lambda>c. list_all (\<lambda>p.
     set (template_fields (ps_instruction p) @ template_fields (ps_verification p)) \<subseteq> set (map fst (plan_context b)))
     (mc_procedure c)) MAINTENANCE_CORPUS"
proof -
  have keys: "map fst (plan_context b) =
      [''target'', ''target_name'', ''asset'', ''asset_name'', ''parent'', ''location'', ''operator'',
       ''downstream_summary'', ''downstream_count'', ''cascade_summary'', ''model_number'']"
    by (simp add: plan_context_def Let_def)
  show ?thesis unfolding keys by code_simp
qed

section \<open>Witnesses\<close>

abbreviation demo_source :: graph_payload where
  "demo_source \<equiv> demo_payload [''pump-1'', ''tank-2''] (Fin 10)"

lemma demo_source_facts: "payload_wf demo_source" "length (am_uuid (gp_asset demo_source)) \<le> 128"
proof -
  have "list_all node_id_ok [''pump-1'', ''tank-2'', ''fan-3'']" by code_simp
  then show "payload_wf demo_source"
    unfolding payload_wf_def demo_channels
    by (simp add: demo_payload_def demo_context_def demo_asset_def od_keys_def known_nodes_def neighbour_ids_def
        observation_ok_def len_within_def)
  show "length (am_uuid (gp_asset demo_source)) \<le> 128" by (simp add: demo_payload_def demo_asset_def)
qed

theorem offline_engine_answers_witness:
  "\<exists>t v plan. analyse_topology (\<lambda>x. []) demo_source demo_graph_settings = Inr t \<and>
     offline_answers (\<lambda>x. []) demo_embed (vector_store_init demo_embed MAINTENANCE_CORPUS) demo_graph_settings
       demo_source t = (v, plan) \<and>
     (\<not> isl (run_engine (offline_agents demo_graph_settings 25 (\<lambda>x. []) 0 0 v plan) demo_graph_settings demo_source) \<longleftrightarrow>
        length (iv_rationale v) \<le> 2000 \<and> length (iv_cascade_path v) \<le> 64 \<and> length (iv_localized v) \<le> 64 \<and>
        list_all text_fits (sp_steps plan) \<and> length (sp_rationale plan) \<le> 2000)"
proof -
  obtain t where t: "analyse_topology (\<lambda>x. []) demo_source demo_graph_settings = Inr t" using demo_analysed by blast
  obtain v plan where a: "offline_answers (\<lambda>x. []) demo_embed (vector_store_init demo_embed MAINTENANCE_CORPUS)
      demo_graph_settings demo_source t = (v, plan)" by (meson surj_pair)
  have s: "1 \<le> set_max_attempts demo_graph_settings" "set_max_isolation_steps demo_graph_settings \<le> 40"
    by (simp_all add: demo_graph_settings_def)
  have "of_int 25 < set_timeout_seconds demo_graph_settings * 1000" by (simp add: demo_graph_settings_def)
  then show ?thesis using offline_engine_answers [OF demo_source_facts t s a] t a by blast
qed

text \<open>With room for the whole manual the closure chapter is always retrieved.\<close>

lemma closure_scores: "0 < score_of env (secondary_query v) None None None manual_cls"
proof -
  let ?q = "remdups (tokenize (secondary_query v))"
  let ?shared = "filter (\<lambda>t. t \<in> set (remdups (tokenize (indexable_text manual_cls)))) ?q"
  have word: "''closure'' \<in> set (tokenize (indexable_text manual_cls))" by code_simp
  have "length ?q \<le> 45 \<and> ''closure'' \<in> set ?q"
  proof -
    have q: "secondary_query v = str_join '' ''
       ([''downstream consumers blast radius standby feed protection closure handover''] @
        (if a then [''crdt lamport reconciliation replica tie-breaker convergence''] else []) @
        (if b then [''lockout tagout valve actuator stored energy''] else []))"
      if "a = (ca_contested (iv_crdt v) \<or> ca_diverging (iv_crdt v) \<noteq> [])"
        "b = (iv_containment v \<in> {IsolateValve, EmergencyShutdown})" for a b
      by (simp add: secondary_query_def that)
    have "list_all (\<lambda>(a, b). let q = remdups (tokenize (str_join '' ''
       ([''downstream consumers blast radius standby feed protection closure handover''] @
        (if a then [''crdt lamport reconciliation replica tie-breaker convergence''] else []) @
        (if b then [''lockout tagout valve actuator stored energy''] else []))))
      in length q \<le> 45 \<and> ''closure'' \<in> set q)
      [(True, True), (True, False), (False, True), (False, False)]"
      by code_simp
    then have all: "let q = remdups (tokenize (str_join '' ''
       ([''downstream consumers blast radius standby feed protection closure handover''] @
        (if a then [''crdt lamport reconciliation replica tie-breaker convergence''] else []) @
        (if b then [''lockout tagout valve actuator stored energy''] else []))))
      in length q \<le> 45 \<and> ''closure'' \<in> set q" for a b
      by (cases a; cases b) (simp_all only: list.pred_inject split_conv if_True if_False simp_thms)
    show ?thesis unfolding q [OF refl refl] using all unfolding Let_def by blast
  qed
  moreover from this have "''closure'' \<in> set ?shared" using word by (simp only: set_filter set_remdups mem_Collect_eq)
  ultimately have "length ?q \<le> 45 \<and> ?shared \<noteq> []" by (metis empty_iff empty_set)
  then have n: "length ?q \<le> 45" "1 \<le> length ?shared" by (simp_all add: Suc_le_eq)
  have "(1 :: rat) / 45 \<le> of_nat (length ?shared) / of_nat (max 1 (length ?q))"
  proof (rule frac_le)
    show "(1 :: rat) \<le> of_nat (length ?shared)" using n(2) by (metis of_nat_1 of_nat_mono)
    show "of_nat (max 1 (length ?q)) \<le> (45 :: rat)" using n(1) by (metis max.bounded_iff of_nat_le_iff of_nat_numeral one_le_numeral)
  qed simp_all
  then have "45/100 * ((1 :: rat) / 45) \<le> 45/100 * (of_nat (length ?shared) / of_nat (max 1 (length ?q)))"
    by (rule mult_left_mono) simp
  moreover have "(0 :: rat) \<le> 55/100 * max 0 c" for c by simp
  moreover have "1/100 \<le> x + y" if "45/100 * (1/45) \<le> y" "0 \<le> x" for x y :: rat using that by simp
  ultimately have "1/100 \<le> 55/100 * max 0 c + 45/100 * (of_nat (length ?shared) / of_nat (max 1 (length ?q)) :: rat)" for c
    by blast
  then have "py_round (1/100) 6 \<le> py_round
      (55/100 * max 0 c + 45/100 * (of_nat (length ?shared) / of_nat (max 1 (length ?q)))) 6" for c
    by (intro py_round_mono)
  moreover have "(0 :: rat) < py_round (1/100) 6" by code_simp
  ultimately have pos: "0 < py_round
      (55/100 * max 0 c + 45/100 * (of_nat (length ?shared) / of_nat (max 1 (length ?q)))) 6" for c
    by (meson less_le_trans)
  have "score_of env (secondary_query v) None None None manual_cls = py_round
      (55/100 * max 0 (cosine (embed env (secondary_query v)) (embed env (indexable_text manual_cls))) +
       45/100 * (of_nat (length ?shared) / of_nat (max 1 (length ?q)))) 6"
    by (simp add: score_of_def chunk_score_def vector_store_init_def od_item_def metadata_term_def Let_def mult.commute)
  then show ?thesis using pos by simp
qed

lemma closure_retrieved:
  assumes "11 \<le> set_retrieval_top_k s"
  shows "manual_cls \<in> fst ` set (retrieve env (vector_store_init env MAINTENANCE_CORPUS) s p v)"
proof -
  obtain ys where ys: "search env (vector_store_init env MAINTENANCE_CORPUS) (secondary_query v) (set_retrieval_top_k s)
      None None None True = ys" by blast
  note b = search_best [OF corpus_ids_distinct ys]
  have "length ys \<le> 10"
  proof -
    have "distinct (map fst ys)" using b(3) by (metis distinct_map map_map)
    moreover have "set (map fst ys) \<subseteq> set MAINTENANCE_CORPUS" using b(4) by auto
    ultimately have "length (map fst ys) \<le> card (set MAINTENANCE_CORPUS)"
      by (metis List.finite_set card_mono distinct_card)
    also have "\<dots> \<le> length MAINTENANCE_CORPUS" by (rule card_length)
    finally show ?thesis by (simp add: MAINTENANCE_CORPUS_def)
  qed
  moreover have "manual_cls \<in> set MAINTENANCE_CORPUS" by (simp add: MAINTENANCE_CORPUS_def)
  moreover have "admissible env (secondary_query v) None None None True manual_cls"
    using closure_scores by (simp add: admissible_def)
  ultimately obtain x where "(manual_cls, x) \<in> set ys" using b(5) assms by fastforce
  then obtain y where "(manual_cls, y) \<in> set (retrieve env (vector_store_init env MAINTENANCE_CORPUS) s p v)"
    using retrieve_has [OF corpus_ids_distinct refl] ys by fastforce
  then show ?thesis by force
qed

theorem offline_plan_passes_guardrails_witness:
  "\<exists>t v plan. analyse_topology (\<lambda>x. []) demo_source (demo_graph_settings\<lparr>set_retrieval_top_k := 12\<rparr>) = Inr t \<and>
     offline_answers (\<lambda>x. []) demo_embed (vector_store_init demo_embed MAINTENANCE_CORPUS)
       (demo_graph_settings\<lparr>set_retrieval_top_k := 12\<rparr>) demo_source t = (v, plan) \<and>
     enforce_safety_invariants (demo_graph_settings\<lparr>set_retrieval_top_k := 12\<rparr>) plan v t = (plan, [])"
proof -
  let ?s = "demo_graph_settings\<lparr>set_retrieval_top_k := 12\<rparr>"
  obtain t where t: "analyse_topology (\<lambda>x. []) demo_source ?s = Inr t" using demo_analysed by blast
  obtain v plan where a: "offline_answers (\<lambda>x. []) demo_embed (vector_store_init demo_embed MAINTENANCE_CORPUS)
      ?s demo_source t = (v, plan)" by (meson surj_pair)
  have s: "3 \<le> set_max_isolation_steps ?s" "set_min_graph_trust ?s \<le> 3/4" "11 \<le> set_retrieval_top_k ?s"
    by (simp_all add: demo_graph_settings_def)
  show ?thesis
    using offline_plan_passes_guardrails [OF t demo_source_facts s(1,2) a closure_retrieved [OF s(3)]] t a by blast
qed

definition demo_rule_briefing :: "topology_analysis \<Rightarrow> isolation_verdict \<Rightarrow> manual_chunk list \<Rightarrow> nat \<Rightarrow> plan_briefing" where
  "demo_rule_briefing t v gs n =
     \<lparr>pb_verdict = v, pb_analysis = t, pb_guidelines = gs, pb_max_steps = n, pb_operator = ''Ada'', pb_model_number = ''PMP-2''\<rparr>"

theorem small_budget_drops_trip_witness:
  "\<exists>t. analyse_topology (\<lambda>x. []) demo_source demo_graph_settings = Inr t \<and>
     list_all st_reversible (sp_steps (rule_action_plan (\<lambda>x. [])
       (demo_rule_briefing t (demo_verdict\<lparr>iv_containment := EmergencyShutdown\<rparr>) [manual_thm, manual_blr, manual_cls] 5)))"
proof -
  obtain t where t: "analyse_topology (\<lambda>x. []) demo_source demo_graph_settings = Inr t" using demo_analysed by blast
  let ?b = "demo_rule_briefing t (demo_verdict\<lparr>iv_containment := EmergencyShutdown\<rparr>) [manual_thm, manual_blr, manual_cls] 5"
  have "set (pb_guidelines ?b) \<subseteq> set MAINTENANCE_CORPUS" "{manual_blr, manual_cls} \<subseteq> set (pb_guidelines ?b)"
    "plan_downstream ?b \<noteq> []" "pb_max_steps ?b \<le> 5" "iv_containment (pb_verdict ?b) = EmergencyShutdown"
    by (simp_all add: demo_rule_briefing_def MAINTENANCE_CORPUS_def plan_downstream_def demo_verdict_def)
  from small_budget_drops_trip [OF this] t show ?thesis by blast
qed

theorem long_cascade_gets_no_plan_witness:
  "\<exists>t. analyse_topology (\<lambda>x. []) demo_source demo_graph_settings = Inr t \<and>
     \<not> plan_ok (rule_action_plan (\<lambda>x. [])
       (demo_rule_briefing t (demo_verdict\<lparr>iv_containment := IsolateValve, iv_cascade_path := replicate 17 (replicate 36 CHR ''a'')\<rparr>)
         [manual_cas] 12))"
proof -
  obtain t where t: "analyse_topology (\<lambda>x. []) demo_source demo_graph_settings = Inr t" using demo_analysed by blast
  let ?v = "demo_verdict\<lparr>iv_containment := IsolateValve, iv_cascade_path := replicate 17 (replicate 36 CHR ''a'')\<rparr>"
  let ?b = "demo_rule_briefing t ?v [manual_cas] 12"
  have "600 < length (printing (str_join '' -> '' (replicate 17 (replicate 36 CHR ''a''))))" by code_simp
  then have long: "600 < length (printing (str_join '' -> '' (iv_cascade_path (pb_verdict ?b))))"
    by (simp only: demo_rule_briefing_def plan_briefing.select_convs isolation_verdict.select_convs
        isolation_verdict.update_convs demo_verdict_def)
  have "mc_actions manual_cas = [IsolateValve, EmergencyShutdown] \<and> \<not> mc_supplementary manual_cas" by code_simp
  then have "find_lead (iv_containment (pb_verdict ?b)) (pb_guidelines ?b) = Some manual_cas"
    by (simp add: find_lead_def demo_rule_briefing_def demo_verdict_def)
  moreover have "set (pb_guidelines ?b) \<subseteq> set MAINTENANCE_CORPUS" "12 \<le> pb_max_steps ?b"
    "iv_cascade_path (pb_verdict ?b) \<noteq> []"
    by (simp_all add: demo_rule_briefing_def MAINTENANCE_CORPUS_def demo_verdict_def)
  ultimately show ?thesis using long_cascade_gets_no_plan [of ?b "\<lambda>x. []"] long t by blast
qed

end
