(* ===== verification/Json_Text.thy ===== *)
theory Json_Text
  imports Prelude "HOL-Library.Multiset"
begin

text \<open>
  The text form of JSON values as the prompt of the AI interceptor uses it: \<open>json.dumps\<close> with an indent
  of two and sorted keys, and \<open>json.loads\<close> (llm.py, render_user and _extract_briefing).  The text of a
  float and its reading are arguments.  Characters outside printable ASCII are escaped, as the default of
  \<open>dumps\<close> does.
\<close>

section \<open>Printing\<close>

definition plain_char :: "char \<Rightarrow> bool" where
  "plain_char c \<longleftrightarrow> 32 \<le> (of_char c :: nat) \<and> (of_char c :: nat) \<le> 126 \<and> c \<noteq> CHR 0x22 \<and> c \<noteq> CHR 0x5C"

definition hex_char :: "nat \<Rightarrow> char" where
  "hex_char n = (if n < 10 then char_of (48 + n) else char_of (87 + n))"

definition SHORT_ESCAPES :: "(char \<times> char) list" where
  "SHORT_ESCAPES =
     [(CHR 0x22, CHR 0x22), (CHR 0x5C, CHR 0x5C), (CHR 0x0A, CHR ''n''), (CHR 0x0D, CHR ''r''), (CHR 0x09, CHR ''t''),
      (CHR 0x0C, CHR ''f''), (CHR 0x08, CHR ''b'')]"

definition escape_char :: "char \<Rightarrow> string" where
  "escape_char c =
     (if plain_char c then [c]
      else (case map_of SHORT_ESCAPES c of
              Some e \<Rightarrow> [CHR 0x5C, e]
            | None \<Rightarrow> [CHR 0x5C, CHR ''u'', CHR ''0'', CHR ''0'', hex_char (of_char c div 16), hex_char (of_char c mod 16)]))"

definition dump_string :: "string \<Rightarrow> string" where
  "dump_string s = CHR 0x22 # concat (map escape_char s) @ [CHR 0x22]"

definition line_break :: "nat \<Rightarrow> string" where
  "line_break n = CHR 0x0A # replicate (2 * n) (CHR '' '')"

lemma member_size [termination_simp]: "(k, v) \<in> set kvs \<Longrightarrow> size v < size_list (size_prod (\<lambda>x. 0) size) kvs"
  by (induction kvs) auto

function dump_json :: "(rat \<Rightarrow> string) \<Rightarrow> nat \<Rightarrow> json \<Rightarrow> string" where
  "dump_json f n JNull = ''null''"
| "dump_json f n (JBool b) = (if b then ''true'' else ''false'')"
| "dump_json f n (JInt i) = int_str i"
| "dump_json f n (JFloat x) = f x"
| "dump_json f n (JStr s) = dump_string s"
| "dump_json f n (JList xs) =
     (if xs = [] then ''[]''
      else ''['' @ line_break (Suc n) @
        str_join (CHR '','' # line_break (Suc n)) (map (dump_json f (Suc n)) xs) @ line_break n @ '']'')"
| "dump_json f n (JObj kvs) =
     (if kvs = [] then ''{}''
      else ''{'' @ line_break (Suc n) @
        str_join (CHR '','' # line_break (Suc n))
          (map (\<lambda>(k, v). dump_string k @ '': '' @ dump_json f (Suc n) v) kvs) @ line_break n @ ''}'')"
  by pat_completeness auto

termination
  by (relation "measure (\<lambda>(f, n, v). size v)") (auto simp: less_Suc_eq_le size_list_estimation' dest: member_size)

text \<open>The keys of every object in their order.\<close>

function sort_json :: "json \<Rightarrow> json" where
  "sort_json (JList xs) = JList (map sort_json xs)"
| "sort_json (JObj kvs) = JObj (sort_key fst (map (\<lambda>(k, v). (k, sort_json v)) kvs))"
| "sort_json JNull = JNull"
| "sort_json (JBool b) = JBool b"
| "sort_json (JInt i) = JInt i"
| "sort_json (JFloat x) = JFloat x"
| "sort_json (JStr s) = JStr s"
  by pat_completeness auto

termination
  by (relation "measure size") (auto simp: less_Suc_eq_le size_list_estimation' dest: member_size)

definition json_dumps :: "(rat \<Rightarrow> string) \<Rightarrow> json \<Rightarrow> string" where
  "json_dumps f v = dump_json f 0 (sort_json v)"

section \<open>Parsing\<close>

definition unhex_char :: "char \<Rightarrow> nat option" where
  "unhex_char c =
     (let n = of_char c in
      if 48 \<le> n \<and> n \<le> 57 then Some (n - 48)
      else if 97 \<le> n \<and> n \<le> 102 then Some (n - 87)
      else if 65 \<le> n \<and> n \<le> 70 then Some (n - 55) else None)"

definition LONG_ESCAPES :: "(char \<times> char) list" where
  "LONG_ESCAPES =
     [(CHR 0x22, CHR 0x22), (CHR 0x5C, CHR 0x5C), (CHR ''/'', CHR ''/''), (CHR ''n'', CHR 0x0A), (CHR ''r'', CHR 0x0D),
      (CHR ''t'', CHR 0x09), (CHR ''f'', CHR 0x0C), (CHR ''b'', CHR 0x08)]"

text \<open>Code points from 256 are outside the alphabet of the model.\<close>

definition unescape_u :: "char \<Rightarrow> char \<Rightarrow> char \<Rightarrow> char \<Rightarrow> char option" where
  "unescape_u a b c d =
     (case (unhex_char a, unhex_char b, unhex_char c, unhex_char d) of
        (Some 0, Some 0, Some h, Some l) \<Rightarrow> Some (char_of (16 * h + l))
      | _ \<Rightarrow> None)"

fun parse_string :: "string \<Rightarrow> (string \<times> string) option" where
  "parse_string [] = None"
| "parse_string (c # cs) =
     (if c = CHR 0x22 then Some ([], cs)
      else if c = CHR 0x5C then
        (case cs of
           [] \<Rightarrow> None
         | e # ds \<Rightarrow>
             if e = CHR ''u'' then
               (case ds of
                  a # b # h # l # es \<Rightarrow>
                    (case unescape_u a b h l of
                       None \<Rightarrow> None
                     | Some d \<Rightarrow> map_option (\<lambda>(s, rest). (d # s, rest)) (parse_string es))
                | _ \<Rightarrow> None)
             else
               (case map_of LONG_ESCAPES e of
                  None \<Rightarrow> None
                | Some d \<Rightarrow> map_option (\<lambda>(s, rest). (d # s, rest)) (parse_string ds)))
      else if (of_char c :: nat) < 32 then None
      else map_option (\<lambda>(s, rest). (c # s, rest)) (parse_string cs))"

definition digit_char :: "char \<Rightarrow> bool" where
  "digit_char c \<longleftrightarrow> 48 \<le> (of_char c :: nat) \<and> (of_char c :: nat) \<le> 57"

definition number_char :: "char \<Rightarrow> bool" where
  "number_char c \<longleftrightarrow> digit_char c \<or> c \<in> set ''-+.eE''"

text \<open>A number without a fraction or an exponent is an integer; it has no leading zero.\<close>

definition parse_number :: "(string \<Rightarrow> rat option) \<Rightarrow> string \<Rightarrow> json option" where
  "parse_number pf token =
     (let neg = (hd token = CHR ''-''); digits = (if neg then tl token else token) in
      if list_all digit_char digits then
        (if digits = [] \<or> (hd digits = CHR ''0'' \<and> length digits \<noteq> 1) then None
         else map_option (\<lambda>n. JInt (if neg then - int n else int n)) (digits_value digits 0))
      else map_option JFloat (pf token))"

definition json_space :: "char \<Rightarrow> bool" where
  "json_space c \<longleftrightarrow> c = CHR '' '' \<or> c = CHR 0x0A \<or> c = CHR 0x0D \<or> c = CHR 0x09"

definition skip_space :: "string \<Rightarrow> string" where
  "skip_space s = dropWhile json_space s"

definition parse_word :: "string \<Rightarrow> json \<Rightarrow> string \<Rightarrow> (json \<times> string) option" where
  "parse_word w v s = (if take (length w) s = w then Some (v, drop (length w) s) else None)"

text \<open>
  A value, the elements of a list after the bracket, the members of an object after the brace.  Every call
  consumes a character, so the length of the text is enough for the bound of the recursion.
\<close>

fun parse_value :: "(string \<Rightarrow> rat option) \<Rightarrow> nat \<Rightarrow> string \<Rightarrow> (json \<times> string) option"
  and parse_elements :: "(string \<Rightarrow> rat option) \<Rightarrow> nat \<Rightarrow> string \<Rightarrow> (json list \<times> string) option"
  and parse_members :: "(string \<Rightarrow> rat option) \<Rightarrow> nat \<Rightarrow> string \<Rightarrow> ((string \<times> json) list \<times> string) option"
where
  "parse_value pf 0 s = None"
| "parse_value pf (Suc k) s =
     (case s of
        [] \<Rightarrow> None
      | c # cs \<Rightarrow>
          if c = CHR 0x22 then map_option (\<lambda>(t, rest). (JStr t, rest)) (parse_string cs)
          else if c = CHR ''['' then
            (case skip_space cs of
               [] \<Rightarrow> None
             | d # ds \<Rightarrow> if d = CHR '']'' then Some (JList [], ds)
                        else map_option (\<lambda>(xs, rest). (JList xs, rest)) (parse_elements pf k (d # ds)))
          else if c = CHR ''{'' then
            (case skip_space cs of
               [] \<Rightarrow> None
             | d # ds \<Rightarrow> if d = CHR ''}'' then Some (JObj [], ds)
                        else map_option (\<lambda>(kvs, rest). (JObj (fold (\<lambda>(j, v). AList.update j v) kvs []), rest))
                               (parse_members pf k (d # ds)))
          else if c = CHR ''n'' then parse_word ''null'' JNull s
          else if c = CHR ''t'' then parse_word ''true'' (JBool True) s
          else if c = CHR ''f'' then parse_word ''false'' (JBool False) s
          else if digit_char c \<or> c = CHR ''-'' then
            map_option (\<lambda>v. (v, dropWhile number_char s)) (parse_number pf (takeWhile number_char s))
          else None)"
| "parse_elements pf 0 s = None"
| "parse_elements pf (Suc k) s =
     (case parse_value pf k s of
        None \<Rightarrow> None
      | Some (x, rest) \<Rightarrow>
          (case skip_space rest of
             [] \<Rightarrow> None
           | c # cs \<Rightarrow>
               if c = CHR '','' then map_option (\<lambda>(xs, rest). (x # xs, rest)) (parse_elements pf k (skip_space cs))
               else if c = CHR '']'' then Some ([x], cs) else None))"
| "parse_members pf 0 s = None"
| "parse_members pf (Suc k) s =
     (case s of
        [] \<Rightarrow> None
      | q # body \<Rightarrow>
          if q \<noteq> CHR 0x22 then None
          else
            (case parse_string body of
               None \<Rightarrow> None
             | Some (key, rest) \<Rightarrow>
                 (case skip_space rest of
                    [] \<Rightarrow> None
                  | c # cs \<Rightarrow>
                      if c \<noteq> CHR '':'' then None
                      else
                        (case parse_value pf k (skip_space cs) of
                           None \<Rightarrow> None
                         | Some (v, rest2) \<Rightarrow>
                             (case skip_space rest2 of
                                [] \<Rightarrow> None
                              | d # ds \<Rightarrow>
                                  if d = CHR '','' then
                                    map_option (\<lambda>(kvs, rest). ((key, v) # kvs, rest)) (parse_members pf k (skip_space ds))
                                  else if d = CHR ''}'' then Some ([(key, v)], ds) else None)))))"

definition json_loads :: "(string \<Rightarrow> rat option) \<Rightarrow> string \<Rightarrow> json option" where
  "json_loads pf s =
     (case parse_value pf (Suc (length s)) (skip_space s) of
        Some (v, rest) \<Rightarrow> if skip_space rest = [] then Some v else None
      | None \<Rightarrow> None)"

section \<open>What is parsed is what was printed\<close>

text \<open>Strings.\<close>

lemma unhex_hex: "n < 16 \<Longrightarrow> unhex_char (hex_char n) = Some n"
  by (cases "n < 10") (auto simp: unhex_char_def hex_char_def Let_def)

lemma parse_escape: "parse_string (escape_char c @ t) = map_option (\<lambda>(s, rest). (c # s, rest)) (parse_string t)"
proof (cases "plain_char c")
  case True
  then show ?thesis by (auto simp: escape_char_def plain_char_def)
next
  case False
  show ?thesis
  proof (cases "map_of SHORT_ESCAPES c")
    case (Some e)
    then show ?thesis using False
      by (auto simp: escape_char_def SHORT_ESCAPES_def LONG_ESCAPES_def split: if_splits)
  next
    case None
    have "of_char c div 16 < (16 :: nat)" using of_char_less_256 [of c] less_mult_imp_div_less [of "of_char c" 16 16] by simp
    moreover have "unhex_char (CHR ''0'') = Some 0" by (simp add: unhex_char_def)
    ultimately have "unescape_u (CHR ''0'') (CHR ''0'') (hex_char (of_char c div 16)) (hex_char (of_char c mod 16)) = Some c"
      by (simp add: unescape_u_def unhex_hex)
    then show ?thesis using False None by (simp add: escape_char_def)
  qed
qed

lemma parse_dumped_string: "parse_string (concat (map escape_char s) @ CHR 0x22 # rest) = Some (s, rest)"
  by (induction s) (simp_all add: parse_escape)

text \<open>Numbers.\<close>

definition stops :: "string \<Rightarrow> bool" where
  "stops rest \<longleftrightarrow> rest = [] \<or> \<not> number_char (hd rest)"

lemma take_number: "list_all number_char w \<Longrightarrow> stops rest \<Longrightarrow> takeWhile number_char (w @ rest) = w \<and> dropWhile number_char (w @ rest) = rest"
  by (cases rest) (auto simp: stops_def list_all_iff takeWhile_append dropWhile_append)

lemma nat_digits_all: "list_all digit_char (nat_digits n)"
  using nat_digits_chars by (auto simp: list_all_iff digit_char_def)

lemma nat_digits_nonempty: "nat_digits n \<noteq> []"
  by (subst nat_digits.simps) simp

lemma nat_digits_lead: "hd (nat_digits n) = CHR ''0'' \<Longrightarrow> length (nat_digits n) = 1"
proof (induction n rule: nat_digits.induct)
  case (1 n)
  show ?case
  proof (cases "n < 10")
    case True
    then show ?thesis by (subst nat_digits.simps) simp
  next
    case False
    then have "hd (nat_digits (n div 10)) = CHR ''0''"
      using "1.prems" nat_digits_nonempty [of "n div 10"] by (subst (asm) nat_digits.simps) simp
    then have "length (nat_digits (n div 10)) = 1" using "1.IH" False by blast
    moreover have "nat_digits (n div 10) \<noteq> ''0''"
    proof
      assume z: "nat_digits (n div 10) = ''0''"
      then have "digits_value ''0'' 0 = Some (n div 10)" using digits_value_nat_digits [of "n div 10"] by simp
      then show False using False by (simp add: Let_def)
    qed
    ultimately show ?thesis using \<open>hd (nat_digits (n div 10)) = CHR ''0''\<close>
      by (cases "nat_digits (n div 10)") auto
  qed
qed

lemma digit_not_minus: "list_all digit_char w \<Longrightarrow> w \<noteq> [] \<Longrightarrow> hd w \<noteq> CHR ''-''"
  by (cases w) (auto simp: digit_char_def)

lemma parse_int: "parse_number pf (int_str i) = Some (JInt i)"
  using digit_not_minus [OF nat_digits_all nat_digits_nonempty, of "nat i"] nat_digits_lead [of "nat i"] nat_digits_lead [of "nat (- i)"]
  by (auto simp: parse_number_def int_str_def nat_digits_all nat_digits_nonempty digits_value_nat_digits Let_def)

lemma int_str_shape:
  "int_str i \<noteq> [] \<and> list_all number_char (int_str i) \<and> (digit_char (hd (int_str i)) \<or> hd (int_str i) = CHR ''-'')"
  using nat_digits_all [of "nat i"] nat_digits_all [of "nat (- i)"] nat_digits_nonempty [of "nat i"]
  by (cases "nat_digits (nat i)") (auto simp: int_str_def number_char_def list_all_iff)

text \<open>
  What is required of the text of a float: a number with a fraction or an exponent, read back as the float.
  And of a value: every float has such a text, and the keys of every object are distinct.
\<close>

definition float_text :: "(string \<Rightarrow> rat option) \<Rightarrow> (rat \<Rightarrow> string) \<Rightarrow> rat \<Rightarrow> bool" where
  "float_text pf f x \<longleftrightarrow>
     pf (f x) = Some x \<and> f x \<noteq> [] \<and> list_all number_char (f x) \<and> (digit_char (hd (f x)) \<or> hd (f x) = CHR ''-'') \<and>
     \<not> list_all digit_char (if hd (f x) = CHR ''-'' then tl (f x) else f x)"

function json_wf :: "(rat \<Rightarrow> bool) \<Rightarrow> json \<Rightarrow> bool" where
  "json_wf P (JList xs) = list_all (json_wf P) xs"
| "json_wf P (JObj kvs) = (distinct (map fst kvs) \<and> list_all (\<lambda>(k, v). json_wf P v) kvs)"
| "json_wf P (JFloat x) = P x"
| "json_wf P JNull = True"
| "json_wf P (JBool b) = True"
| "json_wf P (JInt i) = True"
| "json_wf P (JStr s) = True"
  by pat_completeness auto

termination
  by (relation "measure (\<lambda>(P, v). size v)") (auto simp: less_Suc_eq_le size_list_estimation' dest: member_size)

lemma parse_float: "float_text pf f x \<Longrightarrow> parse_number pf (f x) = Some (JFloat x)"
  by (auto simp: parse_number_def float_text_def Let_def)

lemma number_start: "digit_char c \<or> c = CHR ''-'' \<Longrightarrow> c \<notin> {CHR 0x22, CHR ''['', CHR ''{'', CHR '']'', CHR ''}'', CHR ''n'', CHR ''t'', CHR ''f''} \<and> \<not> json_space c"
  by (auto simp: digit_char_def json_space_def)

lemma parse_number_value:
  assumes "w \<noteq> []" "list_all number_char w" "digit_char (hd w) \<or> hd w = CHR ''-''" "parse_number pf w = Some v" "stops rest"
  shows "parse_value pf (Suc k) (w @ rest) = Some (v, rest)"
proof -
  obtain c cs where w: "w = c # cs" using assms(1) by (cases w) auto
  show ?thesis
    using number_start [of c] take_number [OF assms(2,5)] assms(3,4) by (auto simp: w)
qed

text \<open>White space between tokens, and the first character of a value.\<close>

lemma skip_break: "skip_space (line_break n @ s) = skip_space s"
  by (induction n) (auto simp: line_break_def skip_space_def json_space_def)

lemma skip_blank: "skip_space (CHR '' '' # s) = skip_space s"
  by (simp add: skip_space_def json_space_def)

lemma skip_id: "s = [] \<or> \<not> json_space (hd s) \<Longrightarrow> skip_space s = s"
  unfolding skip_space_def by (rule dropWhile_hd_False)

lemma stops_simps [simp]: "stops []" "stops (line_break n @ s)" "stops (CHR '','' # s)"
  by (simp_all add: stops_def line_break_def number_char_def digit_char_def)

definition value_start :: "char \<Rightarrow> bool" where
  "value_start c \<longleftrightarrow> \<not> json_space c \<and> c \<noteq> CHR '']'' \<and> c \<noteq> CHR ''}''"

lemma dump_start:
  assumes "json_wf (float_text pf f) v"
  shows "dump_json f n v \<noteq> [] \<and> value_start (hd (dump_json f n v))"
  using assms int_str_shape number_start
  by (cases v) (auto simp: value_start_def json_space_def dump_string_def float_text_def)

lemma skip_start: "w \<noteq> [] \<and> value_start (hd w) \<Longrightarrow> skip_space (w @ s) = w @ s"
  by (rule skip_id) (auto simp: value_start_def)

text \<open>The bound that is enough for a value.\<close>

function weight :: "json \<Rightarrow> nat" where
  "weight (JList xs) = Suc (\<Sum>x\<leftarrow>xs. Suc (weight x))"
| "weight (JObj kvs) = Suc (\<Sum>(k, v)\<leftarrow>kvs. Suc (weight v))"
| "weight JNull = 1"
| "weight (JBool b) = 1"
| "weight (JInt i) = 1"
| "weight (JFloat x) = 1"
| "weight (JStr s) = 1"
  by pat_completeness auto

termination
  by (relation "measure size") (auto simp: less_Suc_eq_le size_list_estimation' dest: member_size)

text \<open>The elements of a list and the members of an object, given that each value is read back.\<close>

lemma parse_printed_elements:
  assumes "xs \<noteq> []" "(\<Sum>x\<leftarrow>xs. Suc (weight x)) \<le> fuel"
    and "\<And>x k rest. x \<in> set xs \<Longrightarrow> weight x \<le> k \<Longrightarrow> stops rest \<Longrightarrow> parse_value pf k (p x @ rest) = Some (x, rest)"
    and "\<And>x. x \<in> set xs \<Longrightarrow> p x \<noteq> [] \<and> value_start (hd (p x))"
  shows "parse_elements pf fuel (str_join (CHR '','' # line_break m) (map p xs) @ line_break n @ CHR '']'' # rest) = Some (xs, rest)"
  using assms
proof (induction xs arbitrary: fuel)
  case (Cons x xs)
  obtain k where fuel: "fuel = Suc k" using Cons.prems(2) by (cases fuel) auto
  show ?case
  proof (cases xs)
    case Nil
    have "parse_value pf k (p x @ line_break n @ CHR '']'' # rest) = Some (x, line_break n @ CHR '']'' # rest)"
      using Cons.prems(2,3) fuel by (simp add: Nil)
    then show ?thesis by (simp add: Nil fuel skip_break) (simp add: skip_id json_space_def)
  next
    case (Cons y ys)
    let ?more = "str_join (CHR '','' # line_break m) (map p xs) @ line_break n @ CHR '']'' # rest"
    have more: "parse_elements pf k ?more = Some (xs, rest)"
      using Cons.IH Cons Cons.prems fuel by simp
    have "skip_space ?more = ?more"
      using Cons.prems(4) [of y] Cons by (cases ys) (auto intro!: skip_start)
    moreover have "parse_value pf k (p x @ CHR '','' # line_break m @ ?more) = Some (x, CHR '','' # line_break m @ ?more)"
      using Cons.prems(2,3) fuel by simp
    ultimately show ?thesis using more Cons
      by (simp add: fuel skip_break) (simp add: skip_id json_space_def skip_break)
  qed
qed simp

lemma parse_printed_members:
  assumes "kvs \<noteq> []" "(\<Sum>(k, v)\<leftarrow>kvs. Suc (weight v)) \<le> fuel"
    and "\<And>j v k rest. (j, v) \<in> set kvs \<Longrightarrow> weight v \<le> k \<Longrightarrow> stops rest \<Longrightarrow> parse_value pf k (p v @ rest) = Some (v, rest)"
    and "\<And>j v. (j, v) \<in> set kvs \<Longrightarrow> p v \<noteq> [] \<and> value_start (hd (p v))"
  shows "parse_members pf fuel
    (str_join (CHR '','' # line_break m) (map (\<lambda>(j, v). dump_string j @ '': '' @ p v) kvs) @ line_break n @ CHR ''}'' # rest) =
     Some (kvs, rest)"
  using assms
proof (induction kvs arbitrary: fuel)
  case (Cons kv kvs)
  obtain j v where kv [simp]: "kv = (j, v)" by (cases kv)
  obtain k where fuel: "fuel = Suc k" using Cons.prems(2) by (cases fuel) auto
  let ?more = "str_join (CHR '','' # line_break m) (map (\<lambda>(j, v). dump_string j @ '': '' @ p v) kvs) @ line_break n @ CHR ''}'' # rest"
  let ?tail = "if kvs = [] then line_break n @ CHR ''}'' # rest else CHR '','' # line_break m @ ?more"
  have printed: "str_join (CHR '','' # line_break m) (map (\<lambda>(j, v). dump_string j @ '': '' @ p v) (kv # kvs)) @ line_break n @ CHR ''}'' # rest =
      CHR 0x22 # (concat (map escape_char j) @ CHR 0x22 # CHR '':'' # CHR '' '' # p v @ ?tail)"
    by (cases kvs) (auto simp: dump_string_def)
  have colon: "skip_space (CHR '':'' # CHR '' '' # p v @ ?tail) = CHR '':'' # CHR '' '' # p v @ ?tail"
    by (rule skip_id) (simp add: json_space_def)
  have blank: "skip_space (CHR '' '' # p v @ ?tail) = p v @ ?tail"
    unfolding skip_blank by (rule skip_start) (use Cons.prems(4) [of j v] in simp)
  have val: "parse_value pf k (p v @ ?tail) = Some (v, ?tail)"
    by (rule Cons.prems(3) [of j]) (use Cons.prems(2) fuel in auto)
  show ?case
  proof (cases kvs)
    case Nil
    have "skip_space ?tail = CHR ''}'' # rest" by (simp add: Nil skip_break) (simp add: skip_id json_space_def)
    then show ?thesis
      unfolding printed fuel using colon blank val by (simp add: parse_dumped_string Nil)
  next
    case more: (Cons lw lws)
    obtain l w where lw [simp]: "lw = (l, w)" by (cases lw)
    have all: "parse_members pf k ?more = Some (kvs, rest)"
    proof (rule Cons.IH)
      show "parse_value pf i (p v' @ rest') = Some (v', rest')"
        if "(j', v') \<in> set kvs" "weight v' \<le> i" "stops rest'" for j' v' i rest'
        by (rule Cons.prems(3) [of j']) (use that in auto)
      show "p v' \<noteq> [] \<and> value_start (hd (p v'))" if "(j', v') \<in> set kvs" for j' v'
        by (rule Cons.prems(4) [of j']) (use that in auto)
    qed (use more Cons.prems(2) fuel in auto)
    have tail: "skip_space ?tail = CHR '','' # line_break m @ ?more"
      using more by (simp add: skip_id json_space_def)
    have next_key: "skip_space (line_break m @ ?more) = ?more"
      unfolding skip_break using more by (cases lws) (auto simp: dump_string_def skip_id json_space_def)
    have "parse_members pf fuel (CHR 0x22 # (concat (map escape_char j) @ CHR 0x22 # CHR '':'' # CHR '' '' # p v @ ?tail)) =
        map_option (\<lambda>(kvs, rest). ((j, v) # kvs, rest)) (parse_members pf k (skip_space (line_break m @ ?more)))"
      unfolding fuel parse_members.simps using colon blank val tail by (simp add: parse_dumped_string)
    then show ?thesis unfolding printed next_key all by simp
  qed
qed simp

lemma update_fresh: "j \<notin> fst ` set d \<Longrightarrow> AList.update j v d = d @ [(j, v)]"
  by (induction d) auto

lemma fold_update_distinct:
  "distinct (map fst (d @ kvs)) \<Longrightarrow> fold (\<lambda>(j, v). AList.update j v) kvs d = d @ kvs"
  by (induction kvs arbitrary: d) (auto simp: update_fresh)

text \<open>Every printed value is read back, whatever follows that does not continue a number.\<close>

lemma parse_dumped:
  assumes "json_wf (float_text pf f) v" "weight v \<le> fuel" "stops rest"
  shows "parse_value pf fuel (dump_json f n v @ rest) = Some (v, rest)"
  using assms
proof (induction f n v arbitrary: fuel rest rule: dump_json.induct)
  case (1 f n)
  then show ?case by (cases fuel) (auto simp: parse_word_def)
next
  case (2 f n b)
  then show ?case by (cases fuel) (auto simp: parse_word_def)
next
  case (3 f n i)
  then obtain k where "fuel = Suc k" by (cases fuel) auto
  then show ?case
    using parse_number_value [of "int_str i" pf "JInt i" rest k] int_str_shape [of i] parse_int 3 by simp
next
  case (4 f n x)
  then obtain k where "fuel = Suc k" by (cases fuel) auto
  then show ?case
    using parse_number_value [of "f x" pf "JFloat x" rest k] parse_float 4 by (simp add: float_text_def)
next
  case (5 f n s)
  then obtain k where "fuel = Suc k" by (cases fuel) auto
  then show ?case by (simp add: dump_string_def parse_dumped_string)
next
  case (6 f n xs)
  then obtain k where k: "fuel = Suc k" by (cases fuel) auto
  show ?case
  proof (cases "xs = []")
    case True
    then show ?thesis by (simp add: k) (simp add: skip_id json_space_def)
  next
    case False
    let ?s = "str_join (CHR '','' # line_break (Suc n)) (map (dump_json f (Suc n)) xs) @ line_break n @ CHR '']'' # rest"
    have wf: "json_wf (float_text pf f) x" if "x \<in> set xs" for x using 6(2) that by (simp add: list_all_iff)
    note start = dump_start [OF wf]
    have "parse_elements pf k ?s = Some (xs, rest)"
      by (rule parse_printed_elements) (use False 6 k wf start in auto)
    moreover have "?s \<noteq> [] \<and> value_start (hd ?s)"
      using False start [of "hd xs" "Suc n"] by (cases xs; cases "tl xs") auto
    moreover from this have "skip_space ?s = ?s" by (auto simp: value_start_def intro: skip_id)
    ultimately show ?thesis using False
      by (cases ?s) (simp_all add: k skip_break value_start_def)
  qed
next
  case (7 f n kvs)
  then obtain k where k: "fuel = Suc k" by (cases fuel) auto
  show ?case
  proof (cases "kvs = []")
    case True
    then show ?thesis by (simp add: k) (simp add: skip_id json_space_def)
  next
    case False
    let ?s = "str_join (CHR '','' # line_break (Suc n))
        (map (\<lambda>(j, v). dump_string j @ '': '' @ dump_json f (Suc n) v) kvs) @ line_break n @ CHR ''}'' # rest"
    have wf: "json_wf (float_text pf f) v" if "(j, v) \<in> set kvs" for j v using 7(2) that by (auto simp: list_all_iff)
    note start = dump_start [OF wf]
    have "parse_members pf k ?s = Some (kvs, rest)"
      by (rule parse_printed_members) (use False 7 k wf start in auto)
    moreover have "?s \<noteq> [] \<and> value_start (hd ?s)"
      using False by (cases kvs; cases "tl kvs") (auto simp: dump_string_def value_start_def json_space_def)
    moreover from this have "skip_space ?s = ?s" by (auto simp: value_start_def intro: skip_id)
    moreover have "fold (\<lambda>(j, v). AList.update j v) kvs [] = kvs" using 7(2) by (simp add: fold_update_distinct)
    ultimately show ?thesis using False
      by (cases ?s) (simp_all add: k skip_break value_start_def)
  qed
qed

text \<open>The length of the text is enough for the bound, and sorting keeps a value well formed.\<close>

lemma join_length: "(\<Sum>x\<leftarrow>xs. Suc (length x)) \<le> Suc (length (str_join (c # s) xs))"
  by (induction "c # s" xs rule: str_join.induct) auto

lemma sum_weights:
  assumes "\<And>x. x \<in> set xs \<Longrightarrow> w x \<le> length (p x)"
  shows "(\<Sum>x\<leftarrow>xs. Suc (w x)) \<le> (\<Sum>x\<leftarrow>xs. Suc (length (p x)))"
  using assms by (intro sum_list_mono) simp

lemma weight_length: "json_wf (float_text pf f) v \<Longrightarrow> weight v \<le> length (dump_json f n v)"
proof (induction f n v rule: dump_json.induct)
  case (3 f n i)
  then show ?case using int_str_shape [of i] by (simp add: Suc_le_eq)
next
  case (4 f n x)
  then show ?case by (simp add: float_text_def Suc_le_eq)
next
  case (6 f n xs)
  let ?t = "map (dump_json f (Suc n)) xs"
  have "(\<Sum>x\<leftarrow>xs. Suc (weight x)) \<le> (\<Sum>x\<leftarrow>xs. Suc (length (dump_json f (Suc n) x)))"
    by (intro sum_weights) (use 6 in \<open>force simp: list_all_iff\<close>)
  also have "\<dots> = (\<Sum>x\<leftarrow>?t. Suc (length x))" by (simp add: comp_def)
  also have "\<dots> \<le> Suc (length (str_join (CHR '','' # line_break (Suc n)) ?t))" by (rule join_length)
  finally show ?case by (simp add: line_break_def)
next
  case (7 f n kvs)
  let ?t = "map (\<lambda>(k, v). dump_string k @ '': '' @ dump_json f (Suc n) v) kvs"
  have "(\<Sum>(k, v)\<leftarrow>kvs. Suc (weight v)) = (\<Sum>kv\<leftarrow>kvs. Suc (weight (snd kv)))"
    by (intro arg_cong [of _ _ sum_list] map_cong) auto
  also have "\<dots> \<le> (\<Sum>kv\<leftarrow>kvs. Suc (length (dump_string (fst kv) @ '': '' @ dump_json f (Suc n) (snd kv))))"
    using 7 by (intro sum_weights) (fastforce simp: list_all_iff)
  also have "\<dots> = (\<Sum>x\<leftarrow>?t. Suc (length x))" by (simp add: comp_def case_prod_beta)
  also have "\<dots> \<le> Suc (length (str_join (CHR '','' # line_break (Suc n)) ?t))" by (rule join_length)
  finally show ?case by (simp add: line_break_def)
qed (simp_all add: dump_string_def)

lemma sorted_keys: "distinct (map fst (sort_key fst (map (\<lambda>(k, v). (k, g v)) kvs))) \<longleftrightarrow> distinct (map fst kvs)"
proof -
  have "map fst (map (\<lambda>(k, v). (k, g v)) kvs) = map fst kvs" by (simp add: case_prod_beta comp_def)
  then have "mset (map fst (sort_key fst (map (\<lambda>(k, v). (k, g v)) kvs))) = mset (map fst kvs)"
    by (metis mset_map mset_sort)
  then show ?thesis by (rule mset_eq_imp_distinct_iff)
qed

lemma sort_json_wf: "json_wf P v \<Longrightarrow> json_wf P (sort_json v)"
proof (induction v rule: sort_json.induct)
  case (1 xs)
  then show ?case by (auto simp: list_all_iff)
next
  case (2 kvs)
  then show ?case by (fastforce simp: list_all_iff sorted_keys)
qed simp_all

text \<open>
  A round trip: what the interceptor prints for a briefing is what the reader of the prompt parses, up to the
  order of the keys.
\<close>

lemma loads_dumps:
  assumes "json_wf (float_text pf f) v"
  shows "json_loads pf (json_dumps f v) = Some (sort_json v)"
proof -
  let ?t = "json_dumps f v"
  note wf = sort_json_wf [OF assms]
  have "skip_space ?t = ?t" using dump_start [OF wf] by (auto simp: json_dumps_def value_start_def intro: skip_id)
  moreover have "parse_value pf (Suc (length ?t)) (?t @ []) = Some (sort_json v, [])"
    unfolding json_dumps_def by (rule parse_dumped [OF wf]) (use weight_length [OF wf, of 0] in simp_all)
  ultimately show ?thesis by (simp add: json_loads_def skip_space_def)
qed

text \<open>Members of a sorted object are those of the object.\<close>

lemma sorted_member:
  assumes "distinct (map fst kvs)"
  shows "map_of (sort_key fst (map (\<lambda>(k, v). (k, sort_json v)) kvs)) j = map_option sort_json (map_of kvs j)"
proof -
  let ?m = "map (\<lambda>(k, v). (k, sort_json v)) kvs"
  have "distinct (map fst (sort_key fst ?m))" using assms by (simp only: sorted_keys)
  then have "map_of (sort_key fst ?m) = map_of ?m"
    using assms by (intro map_of_inject_set [THEN iffD2]) (auto simp: case_prod_beta comp_def)
  then show ?thesis by (simp add: map_of_map)
qed

section \<open>Characters of the text\<close>

text \<open>The strings of a value, keys included, satisfy a predicate.\<close>

function json_text_all :: "(string \<Rightarrow> bool) \<Rightarrow> json \<Rightarrow> bool" where
  "json_text_all P (JList xs) = list_all (json_text_all P) xs"
| "json_text_all P (JObj kvs) = list_all (\<lambda>(k, v). P k \<and> json_text_all P v) kvs"
| "json_text_all P (JStr s) = P s"
| "json_text_all P JNull = True"
| "json_text_all P (JBool b) = True"
| "json_text_all P (JInt i) = True"
| "json_text_all P (JFloat x) = True"
  by pat_completeness auto

termination
  by (relation "measure (\<lambda>(P, v). size v)") (auto simp: less_Suc_eq_le size_list_estimation' dest: member_size)

lemma sort_json_text_all: "json_text_all P v \<Longrightarrow> json_text_all P (sort_json v)"
  by (induction v rule: sort_json.induct) (fastforce simp: list_all_iff)+

lemma absent_join: "c \<notin> set s \<Longrightarrow> (\<And>x. x \<in> set xs \<Longrightarrow> c \<notin> set x) \<Longrightarrow> c \<notin> set (str_join s xs)"
  by (induction s xs rule: str_join.induct) auto

lemma escape_no_backtick: "c \<noteq> CHR ''`'' \<Longrightarrow> CHR ''`'' \<notin> set (escape_char c)"
proof -
  assume c: "c \<noteq> CHR ''`''"
  have "CHR ''`'' \<noteq> hex_char n" if "n < 16" for n
  proof
    assume "CHR ''`'' = hex_char n"
    then have "unhex_char (CHR ''`'') = Some n" using unhex_hex [OF that] by simp
    then show False by (simp add: unhex_char_def)
  qed
  moreover have "of_char c div 16 < (16 :: nat)" using of_char_less_256 [of c] less_mult_imp_div_less [of "of_char c" 16 16] by simp
  ultimately show ?thesis using c
    by (auto simp: escape_char_def SHORT_ESCAPES_def split: if_splits)
qed

lemma dump_string_no_backtick: "CHR ''`'' \<notin> set s \<Longrightarrow> CHR ''`'' \<notin> set (dump_string s)"
proof -
  assume s: "CHR ''`'' \<notin> set s"
  have "CHR ''`'' \<notin> set (escape_char c)" if "c \<in> set s" for c
    by (rule escape_no_backtick) (use s that in blast)
  then show ?thesis by (simp add: dump_string_def)
qed

lemma dump_no_backtick:
  "json_wf (float_text pf f) v \<Longrightarrow> json_text_all (\<lambda>s. CHR ''`'' \<notin> set s) v \<Longrightarrow> CHR ''`'' \<notin> set (dump_json f n v)"
proof (induction f n v rule: dump_json.induct)
  case (3 f n i)
  then show ?case using int_str_shape [of i] by (auto simp: list_all_iff number_char_def digit_char_def)
next
  case (4 f n x)
  then show ?case by (auto simp: float_text_def list_all_iff number_char_def digit_char_def)
next
  case (5 f n s)
  then show ?case using dump_string_no_backtick by simp
next
  case (6 f n xs)
  then have "CHR ''`'' \<notin> set (dump_json f (Suc n) x)" if "x \<in> set xs" for x
    using that by (cases xs) (auto simp: list_all_iff)
  then have "CHR ''`'' \<notin> set (str_join (CHR '','' # line_break (Suc n)) (map (dump_json f (Suc n)) xs))"
    by (intro absent_join) (auto simp: line_break_def)
  then show ?case by (simp add: line_break_def)
next
  case (7 f n kvs)
  have "CHR ''`'' \<notin> set (dump_string k @ '': '' @ dump_json f (Suc n) v)" if m: "(k, v) \<in> set kvs" for k v
  proof -
    have "kvs \<noteq> []" using m by auto
    then have "CHR ''`'' \<notin> set (dump_json f (Suc n) v)" using 7(1) [OF _ m refl] 7(2,3) m by (auto simp: list_all_iff)
    moreover have "CHR ''`'' \<notin> set k" using 7(3) m by (auto simp: list_all_iff)
    ultimately show ?thesis using dump_string_no_backtick by simp
  qed
  then have "CHR ''`'' \<notin> set (str_join (CHR '','' # line_break (Suc n))
      (map (\<lambda>(k, v). dump_string k @ '': '' @ dump_json f (Suc n) v) kvs))"
    by (intro absent_join) (auto simp: line_break_def)
  then show ?case by (simp add: line_break_def)
qed simp_all

end
