(* ===== verification/Planner_Contracts.thy ===== *)
theory Planner_Contracts
  imports Json_Text Contracts
begin

text \<open>
  The contracts of the AI interceptor (ai-interceptor/app/models.py): the enriched context payload of the
  resolution engine with what its models derive from it, and the command sequence the service answers with.

  A timestamp is its ISO text, a float a rational number.  Reading the types out of JSON is the work of the
  model library; what its validators add (the stripped strings, the schema version, the collections that may
  be null, the limits of the fields) is here.  The \<open>%g\<close> text of a float is the argument \<open>g\<close>.
\<close>

section \<open>The inbound payload\<close>

datatype ai_severity = SevInfoAi | SevHighAi | SevCriticalAi

fun ai_severity_value :: "ai_severity \<Rightarrow> string" where
  "ai_severity_value SevInfoAi = ''INFO''"
| "ai_severity_value SevHighAi = ''HIGH''"
| "ai_severity_value SevCriticalAi = ''CRITICAL''"

datatype ai_transition = Raised | Escalated | Sustained | Cleared

fun ai_transition_value :: "ai_transition \<Rightarrow> string" where
  "ai_transition_value Raised = ''RAISED''"
| "ai_transition_value Escalated = ''ESCALATED''"
| "ai_transition_value Sustained = ''SUSTAINED''"
| "ai_transition_value Cleared = ''CLEARED''"

record sensor_reading =
  rd_sensor_id :: string
  rd_value :: rat
  rd_unit :: "string option"
  rd_observed_at :: string
  rd_age_seconds :: rat

record telemetry_snapshot =
  ts_trigger :: sensor_reading
  ts_readings :: "sensor_reading list"
  ts_captured_at :: string
  ts_complete :: bool

text \<open>The text \<open>(' ' + unit) if unit else ''\<close>.\<close>

definition unit_suffix :: "string option \<Rightarrow> string" where
  "unit_suffix u = (case u of None \<Rightarrow> [] | Some t \<Rightarrow> if t = [] then [] else '' '' @ t)"

definition snapshot_reading :: "telemetry_snapshot \<Rightarrow> string \<Rightarrow> sensor_reading option" where
  "snapshot_reading t sensor_id = find (\<lambda>r. rd_sensor_id r = sensor_id) (ts_readings t)"

definition reading_line :: "(rat \<Rightarrow> string) \<Rightarrow> string \<Rightarrow> rat \<Rightarrow> string option \<Rightarrow> rat \<Rightarrow> string" where
  "reading_line g sensor_id v u age =
     sensor_id @ ''='' @ g v @ unit_suffix u @ '' (age '' @ g age @ ''s)''"

definition as_lines :: "(rat \<Rightarrow> string) \<Rightarrow> telemetry_snapshot \<Rightarrow> string list" where
  "as_lines g t = map (\<lambda>r. reading_line g (rd_sensor_id r) (rd_value r) (rd_unit r) (rd_age_seconds r)) (ts_readings t)"

record ai_operator =
  aop_operator_id :: string
  aop_name :: string
  aop_role :: string
  aop_shift :: "string option"
  aop_contact :: "string option"
  aop_escalation_order :: int

record ai_system_node =
  asn_node_id :: string
  asn_name :: string
  asn_type :: string
  asn_depth :: int

record ai_observation =
  aob_replica_id :: string
  aob_add_stamp :: int
  aob_remove_stamp :: int

definition observation_is_live :: "ai_observation \<Rightarrow> bool" where
  "observation_is_live r \<longleftrightarrow> aob_remove_stamp r < aob_add_stamp r"

datatype flow_relation = Supplies | Impacts

record flow_ref =
  fr_asset_id :: string
  fr_name :: string
  fr_model_number :: string
  fr_status :: string
  fr_relation :: flow_relation
  fr_hops :: int

record ai_context =
  ac_asset_id :: string
  ac_asset_name :: string
  ac_asset_class :: string
  ac_site :: string
  ac_criticality :: string
  ac_parent_systems :: "ai_system_node list"
  ac_components :: "string list"
  ac_assigned_operators :: "ai_operator list"
  ac_maintenance_window :: "string option"
  ac_resolved_at :: "string option"
  ac_source :: string
  ac_model_number :: string
  ac_upstream_dependencies :: "flow_ref list"
  ac_downstream_impacts :: "flow_ref list"
  ac_blast_radius :: int
  ac_replica_observations :: "ai_observation list"
  ac_cache_hit :: bool

definition ai_primary_operator :: "ai_context \<Rightarrow> ai_operator option" where
  "ai_primary_operator c = py_min_by aop_escalation_order (ac_assigned_operators c)"

definition ai_escalation_chain :: "ai_context \<Rightarrow> ai_operator list" where
  "ai_escalation_chain c = sort_key aop_escalation_order (ac_assigned_operators c)"

definition topology_is_contested :: "ai_context \<Rightarrow> bool" where
  "topology_is_contested c =
     (if length (ac_replica_observations c) < 2 then False
      else 1 < length (remdups (map observation_is_live (ac_replica_observations c))))"

definition nearest_upstream :: "ai_context \<Rightarrow> flow_ref option" where
  "nearest_upstream c = (case ac_upstream_dependencies c of [] \<Rightarrow> None | f # _ \<Rightarrow> Some f)"

definition ai_immediate_parent :: "ai_context \<Rightarrow> ai_system_node option" where
  "ai_immediate_parent c = py_min_by asn_depth (ac_parent_systems c)"

record ai_rule =
  ar_rule_id :: string
  ar_sensor_id :: string
  ar_operator :: string
  ar_threshold :: rat
  ar_unit :: "string option"
  ar_observed_value :: rat
  ar_exceeded_by :: rat
  ar_exceeded_pct :: rat
  ar_description :: "string option"

record ai_payload =
  ap_event_id :: string
  ap_schema_version :: string
  ap_producer :: string
  ap_emitted_at :: string
  ap_asset_id :: string
  ap_transition :: ai_transition
  ap_severity :: ai_severity
  ap_anomaly_active_since :: "string option"
  ap_breach_count :: int
  ap_rule :: ai_rule
  ap_snapshot :: telemetry_snapshot
  ap_context :: ai_context
  ap_degraded :: bool
  ap_degraded_reason :: "string option"
  ap_source_partition :: "int option"
  ap_source_offset :: "int option"
  ap_origin_replica :: "string option"
  ap_lamport_clock :: int
  ap_graph_revision :: "string option"

definition SUPPORTED_SCHEMA_VERSIONS :: "string list" where
  "SUPPORTED_SCHEMA_VERSIONS = [''openontology.mutation.v1'', ''openontology.mutation.v2'']"

definition supported_schema :: "string \<Rightarrow> bool" where
  "supported_schema v \<longleftrightarrow> list_ex (\<lambda>p. str_startswith v p) SUPPORTED_SCHEMA_VERSIONS"

definition carries_flow_topology :: "ai_payload \<Rightarrow> bool" where
  "carries_flow_topology p \<longleftrightarrow> \<not> str_startswith (ap_schema_version p) ''openontology.mutation.v1''"

section \<open>Reading a payload\<close>

text \<open>Go prints a nil slice as null.  A collection that is not given at all is empty by default.\<close>

definition null_is_empty :: "'a list option \<Rightarrow> 'a list" where
  "null_is_empty v = (case v of None \<Rightarrow> [] | Some xs \<Rightarrow> xs)"

definition strip_reading :: "sensor_reading \<Rightarrow> sensor_reading" where
  "strip_reading r = r\<lparr>rd_sensor_id := str_strip (rd_sensor_id r), rd_unit := map_option str_strip (rd_unit r)\<rparr>"

definition make_ai_snapshot :: "sensor_reading \<Rightarrow> sensor_reading list option \<Rightarrow> string \<Rightarrow> bool \<Rightarrow> telemetry_snapshot" where
  "make_ai_snapshot trigger readings captured_at is_complete =
     \<lparr>ts_trigger = strip_reading trigger, ts_readings = map strip_reading (null_is_empty readings),
      ts_captured_at = captured_at, ts_complete = is_complete\<rparr>"

definition strip_operator :: "ai_operator \<Rightarrow> ai_operator" where
  "strip_operator p =
     p\<lparr>aop_operator_id := str_strip (aop_operator_id p), aop_name := str_strip (aop_name p),
       aop_role := str_strip (aop_role p), aop_shift := map_option str_strip (aop_shift p),
       aop_contact := map_option str_strip (aop_contact p)\<rparr>"

definition strip_node :: "ai_system_node \<Rightarrow> ai_system_node" where
  "strip_node n =
     n\<lparr>asn_node_id := str_strip (asn_node_id n), asn_name := str_strip (asn_name n), asn_type := str_strip (asn_type n)\<rparr>"

definition strip_observation :: "ai_observation \<Rightarrow> ai_observation" where
  "strip_observation r = r\<lparr>aob_replica_id := str_strip (aob_replica_id r)\<rparr>"

definition strip_flow :: "flow_ref \<Rightarrow> flow_ref" where
  "strip_flow f =
     f\<lparr>fr_asset_id := str_strip (fr_asset_id f), fr_name := str_strip (fr_name f),
       fr_model_number := str_strip (fr_model_number f), fr_status := str_strip (fr_status f)\<rparr>"

text \<open>The scalar fields come in the record, the five collections that may be null on their own.\<close>

definition make_ai_context ::
    "ai_context \<Rightarrow> ai_system_node list option \<Rightarrow> string list option \<Rightarrow> ai_operator list option
      \<Rightarrow> flow_ref list option \<Rightarrow> flow_ref list option \<Rightarrow> ai_context" where
  "make_ai_context c parents components operators upstream downstream =
     c\<lparr>ac_asset_id := str_strip (ac_asset_id c), ac_asset_name := str_strip (ac_asset_name c),
       ac_asset_class := str_strip (ac_asset_class c), ac_site := str_strip (ac_site c),
       ac_criticality := str_strip (ac_criticality c),
       ac_parent_systems := map strip_node (null_is_empty parents),
       ac_components := map str_strip (null_is_empty components),
       ac_assigned_operators := map strip_operator (null_is_empty operators),
       ac_maintenance_window := map_option str_strip (ac_maintenance_window c),
       ac_source := str_strip (ac_source c), ac_model_number := str_strip (ac_model_number c),
       ac_upstream_dependencies := map strip_flow (null_is_empty upstream),
       ac_downstream_impacts := map strip_flow (null_is_empty downstream),
       ac_replica_observations := map strip_observation (ac_replica_observations c)\<rparr>"

definition strip_rule :: "ai_rule \<Rightarrow> ai_rule" where
  "strip_rule r =
     r\<lparr>ar_rule_id := str_strip (ar_rule_id r), ar_sensor_id := str_strip (ar_sensor_id r),
       ar_operator := str_strip (ar_operator r), ar_unit := map_option str_strip (ar_unit r),
       ar_description := map_option str_strip (ar_description r)\<rparr>"

text \<open>The nested models are built already; the version is checked after it is stripped.\<close>

definition make_ai_payload :: "ai_payload \<Rightarrow> ai_payload raises" where
  "make_ai_payload p =
     (if supported_schema (str_strip (ap_schema_version p)) then
        Inr (p\<lparr>ap_event_id := str_strip (ap_event_id p), ap_schema_version := str_strip (ap_schema_version p),
               ap_producer := str_strip (ap_producer p), ap_asset_id := str_strip (ap_asset_id p),
               ap_rule := strip_rule (ap_rule p),
               ap_degraded_reason := map_option str_strip (ap_degraded_reason p),
               ap_origin_replica := map_option str_strip (ap_origin_replica p),
               ap_graph_revision := map_option str_strip (ap_graph_revision p)\<rparr>)
      else Inl ValidationErrorExn)"

section \<open>The outbound command sequence\<close>

datatype ai_action = AiIsolate | AiShutdown | AiThrottle | AiInspect | AiScheduleMaintenance | AiNotify | AiAcknowledge

fun ai_action_value :: "ai_action \<Rightarrow> string" where
  "ai_action_value AiIsolate = ''ISOLATE''"
| "ai_action_value AiShutdown = ''SHUTDOWN''"
| "ai_action_value AiThrottle = ''THROTTLE''"
| "ai_action_value AiInspect = ''INSPECT''"
| "ai_action_value AiScheduleMaintenance = ''SCHEDULE_MAINTENANCE''"
| "ai_action_value AiNotify = ''NOTIFY''"
| "ai_action_value AiAcknowledge = ''ACKNOWLEDGE''"

datatype ai_priority = AiCritical | AiHigh | AiMedium | AiLow

fun ai_priority_value :: "ai_priority \<Rightarrow> string" where
  "ai_priority_value AiCritical = ''CRITICAL''"
| "ai_priority_value AiHigh = ''HIGH''"
| "ai_priority_value AiMedium = ''MEDIUM''"
| "ai_priority_value AiLow = ''LOW''"

record ai_command =
  acm_sequence :: int
  acm_target_component :: string
  acm_action :: ai_action
  acm_priority :: ai_priority
  acm_assigned_to :: string
  acm_assigned_operator_id :: "string option"
  acm_parameters :: "(string \<times> json) list"
  acm_expected_effect :: string
  acm_rollback :: "string option"
  acm_deadline_seconds :: int

definition ai_command_ok :: "ai_command \<Rightarrow> bool" where
  "ai_command_ok c \<longleftrightarrow>
     1 \<le> acm_sequence c \<and> acm_target_component c \<noteq> [] \<and> acm_assigned_to c \<noteq> [] \<and> acm_expected_effect c \<noteq> [] \<and>
     0 \<le> acm_deadline_seconds c \<and> acm_deadline_seconds c \<le> 604800"

record ai_escalation =
  aes_required :: bool
  aes_notify :: "string list"
  aes_reason :: string
  aes_sla_seconds :: int

definition ai_escalation_ok :: "ai_escalation \<Rightarrow> bool" where
  "ai_escalation_ok e \<longleftrightarrow> 0 \<le> aes_sla_seconds e"

record llm_plan =
  lp_confidence :: rat
  lp_reasoning_summary :: string
  lp_commands :: "ai_command list"
  lp_escalation :: ai_escalation
  lp_evidence :: "string list"

definition sequences_are_contiguous :: "ai_command list \<Rightarrow> bool" where
  "sequences_are_contiguous commands \<longleftrightarrow> map acm_sequence commands = map int [1..<Suc (length commands)]"

definition llm_plan_ok :: "llm_plan \<Rightarrow> bool" where
  "llm_plan_ok p \<longleftrightarrow>
     0 \<le> lp_confidence p \<and> lp_confidence p \<le> 1 \<and>
     lp_reasoning_summary p \<noteq> [] \<and> length (lp_reasoning_summary p) \<le> 2000 \<and>
     lp_commands p \<noteq> [] \<and> list_all ai_command_ok (lp_commands p) \<and> ai_escalation_ok (lp_escalation p) \<and>
     sequences_are_contiguous (lp_commands p)"

record token_usage =
  tu_input_tokens :: int
  tu_output_tokens :: int

record command_sequence =
  cs_plan_id :: string
  cs_event_id :: string
  cs_asset_id :: string
  cs_tenant :: string
  cs_generated_at :: rat
  cs_model :: string
  cs_severity :: ai_severity
  cs_transition :: ai_transition
  cs_confidence :: rat
  cs_reasoning_summary :: string
  cs_commands :: "ai_command list"
  cs_escalation :: ai_escalation
  cs_evidence :: "string list"
  cs_context_degraded :: bool
  cs_latency_ms :: rat
  cs_usage :: token_usage

definition command_sequence_ok :: "command_sequence \<Rightarrow> bool" where
  "command_sequence_ok c \<longleftrightarrow>
     0 \<le> cs_confidence c \<and> cs_confidence c \<le> 1 \<and> list_all ai_command_ok (cs_commands c) \<and>
     ai_escalation_ok (cs_escalation c)"

definition make_command_sequence :: "command_sequence \<Rightarrow> command_sequence raises" where
  "make_command_sequence c = (if command_sequence_ok c then Inr c else Inl ValidationErrorExn)"

end
