(* ===== verification/Planner_Prompt.thy ===== *)
theory Planner_Prompt
  imports Planner_Contracts
begin

text \<open>
  The prompt of the AI interceptor (ai-interceptor/app/llm.py): the briefing, the text of the user turn, the
  tool schema the answer is constrained by, and the reading of the briefing back out of the user turn by the
  offline provider.  The main result is a round trip: as long as no text of the payload contains a backtick,
  the offline provider plans from exactly the briefing that was rendered.

  The \<open>%g\<close> text of a float is the argument \<open>g\<close>, its \<open>repr\<close> in JSON is \<open>f\<close>.  The em dash of the warning
  line is the one character 0x97.
\<close>

section \<open>The tool schema\<close>

definition TOOL_NAME :: string where
  "TOOL_NAME = ''emit_command_sequence''"

definition DEFAULT_ALLOWED_ACTIONS :: "ai_action list" where
  "DEFAULT_ALLOWED_ACTIONS =
     [AiIsolate, AiShutdown, AiThrottle, AiInspect, AiScheduleMaintenance, AiNotify, AiAcknowledge]"

definition SYSTEM_PROMPT :: string where
  "SYSTEM_PROMPT = concat (map (\<lambda>line. line @ [CHR 0x0A])
     [''You are the OpenOntology remediation planner for industrial and aerospace digital twins.'',
      '''',
      ''You receive one ontology mutation: an asset that breached a monitored threshold, the'',
      ''live multi-variable telemetry snapshot at the moment of the breach, and the asset's'',
      ''graph context (parent systems, components, accountable operators).'',
      '''',
      ''Produce an executable command sequence for the maintenance and operations crew.'',
      '''',
      ''Rules:'',
      ''- Act on named components from the ontology context. Never invent a component,'',
      ''  operator, or identifier that is not present in the briefing.'',
      ''- Order commands by execution order, starting at sequence 1.'',
      ''- Reserve ISOLATE and SHUTDOWN for CRITICAL severity or safety-critical assets.'',
      ''- Every command names an assignee drawn from the assigned operators; if none exist,'',
      ''  assign to the site duty desk and require escalation.'',
      ''- Set deadline_seconds proportional to severity: minutes for CRITICAL, hours otherwise.'',
      ''- State confidence honestly. Degraded context or an incomplete telemetry snapshot'',
      ''  must lower it.'',
      ''- Return the plan exclusively through the emit_command_sequence tool.''])"

definition COMMAND_SEQUENCE_TOOL :: json where
  "COMMAND_SEQUENCE_TOOL =
     JObj
      [(''name'', JStr ''emit_command_sequence''),
       (''description'', JStr ''Emit the ordered, executable remediation command sequence for an anomalous industrial asset. Call this exactly once.''),
       (''strict'', JBool True),
       (''input_schema'', JObj
        [(''type'', JStr ''object''),
         (''properties'', JObj
          [(''confidence'', JObj
            [(''type'', JStr ''number''),
             (''description'', JStr ''Confidence in the plan, 0.0 to 1.0.'')]),
           (''reasoning_summary'', JObj
            [(''type'', JStr ''string''),
             (''description'', JStr ''Two to four sentences justifying the sequence, citing observed values.'')]),
           (''commands'', JObj
            [(''type'', JStr ''array''),
             (''description'', JStr ''Ordered commands, sequence starting at 1.''),
             (''items'', JObj
              [(''type'', JStr ''object''),
               (''properties'', JObj
                [(''sequence'', JObj
                  [(''type'', JStr ''integer''),
                   (''description'', JStr ''1-based execution order.'')]),
                 (''target_component'', JObj
                  [(''type'', JStr ''string''),
                   (''description'', JStr ''Component or subsystem from the ontology context.'')]),
                 (''action'', JObj
                  [(''type'', JStr ''string''),
                   (''enum'', JList (map (\<lambda>a. JStr (ai_action_value a)) DEFAULT_ALLOWED_ACTIONS))]),
                 (''priority'', JObj
                  [(''type'', JStr ''string''),
                   (''enum'', JList (map (\<lambda>p. JStr (ai_priority_value p)) [AiCritical, AiHigh, AiMedium, AiLow]))]),
                 (''assigned_to'', JObj
                  [(''type'', JStr ''string''),
                   (''description'', JStr ''Assignee name or duty desk.'')]),
                 (''assigned_operator_id'', JObj
                  [(''type'', JList (map JStr [''string'', ''null''])),
                   (''description'', JStr ''Graph operator id, or null when unassigned.'')]),
                 (''parameters'', JObj
                  [(''type'', JStr ''object''),
                   (''description'', JStr ''Action-specific parameters.''),
                   (''additionalProperties'', JBool True)]),
                 (''expected_effect'', JObj
                  [(''type'', JStr ''string''),
                   (''description'', JStr ''The physical outcome this command is expected to produce.'')]),
                 (''rollback'', JObj
                  [(''type'', JList (map JStr [''string'', ''null''])),
                   (''description'', JStr ''How to reverse the command, or null when irreversible.'')]),
                 (''deadline_seconds'', JObj
                  [(''type'', JStr ''integer''),
                   (''description'', JStr ''Seconds within which the command must be executed.'')])]),
               (''required'', JList (map JStr [''sequence'', ''target_component'', ''action'', ''priority'', ''assigned_to'', ''assigned_operator_id'', ''parameters'', ''expected_effect'', ''rollback'', ''deadline_seconds''])),
               (''additionalProperties'', JBool False)])]),
           (''escalation'', JObj
            [(''type'', JStr ''object''),
             (''properties'', JObj
              [(''required'', JObj [(''type'', JStr ''boolean'')]),
               (''notify'', JObj [(''type'', JStr ''array''), (''items'', JObj [(''type'', JStr ''string'')])]),
               (''reason'', JObj [(''type'', JStr ''string'')]),
               (''sla_seconds'', JObj [(''type'', JStr ''integer'')])]),
             (''required'', JList (map JStr [''required'', ''notify'', ''reason'', ''sla_seconds''])),
             (''additionalProperties'', JBool False)]),
           (''evidence'', JObj
            [(''type'', JStr ''array''),
             (''description'', JStr ''Telemetry or ontology facts the plan relies on.''),
             (''items'', JObj [(''type'', JStr ''string'')])])]),
         (''required'', JList (map JStr [''confidence'', ''reasoning_summary'', ''commands'', ''escalation'', ''evidence''])),
         (''additionalProperties'', JBool False)])]"

section \<open>The briefing\<close>

record prompt_context =
  pc_payload :: ai_payload
  pc_tenant :: string
  pc_tier :: string
  pc_max_commands :: int
  pc_allowed_actions :: "ai_action list"
  pc_policy_notes :: "string list"

definition make_prompt_context :: "ai_payload \<Rightarrow> string \<Rightarrow> string \<Rightarrow> int \<Rightarrow> string list \<Rightarrow> prompt_context raises" where
  "make_prompt_context payload tenant tier max_commands policy_notes =
     (if 1 \<le> max_commands \<and> max_commands \<le> 20 then
        Inr \<lparr>pc_payload = payload, pc_tenant = tenant, pc_tier = tier, pc_max_commands = max_commands,
             pc_allowed_actions = DEFAULT_ALLOWED_ACTIONS, pc_policy_notes = policy_notes\<rparr>
      else Inl ValidationErrorExn)"

definition opt_str :: "string option \<Rightarrow> json" where
  "opt_str v = (case v of None \<Rightarrow> JNull | Some s \<Rightarrow> JStr s)"

definition node_json :: "ai_system_node \<Rightarrow> json" where
  "node_json n =
     JObj [(''node_id'', JStr (asn_node_id n)), (''name'', JStr (asn_name n)), (''type'', JStr (asn_type n)),
           (''depth'', JInt (asn_depth n))]"

definition asset_json :: "ai_payload \<Rightarrow> json" where
  "asset_json p =
     (let c = ap_context p in
      JObj [(''asset_id'', JStr (if ac_asset_id c \<noteq> [] then ac_asset_id c else ap_asset_id p)),
            (''name'', JStr (ac_asset_name c)),
            (''class'', JStr (ac_asset_class c)),
            (''site'', JStr (ac_site c)),
            (''criticality'', JStr (ac_criticality c)),
            (''maintenance_window'', opt_str (ac_maintenance_window c)),
            (''components'', JList (map JStr (ac_components c))),
            (''parent_systems'', JList (map node_json (sort_key asn_depth (ac_parent_systems c))))])"

definition anomaly_json :: "(rat \<Rightarrow> string) \<Rightarrow> ai_payload \<Rightarrow> json" where
  "anomaly_json g p =
     (let r = ap_rule p in
      JObj [(''severity'', JStr (ai_severity_value (ap_severity p))),
            (''transition'', JStr (ai_transition_value (ap_transition p))),
            (''breach_count'', JInt (ap_breach_count p)),
            (''active_since'', opt_str (ap_anomaly_active_since p)),
            (''rule_id'', JStr (ar_rule_id r)),
            (''sensor_id'', JStr (ar_sensor_id r)),
            (''condition'', JStr (ar_sensor_id r @ '' '' @ ar_operator r @ '' '' @ g (ar_threshold r))),
            (''observed_value'', JFloat (ar_observed_value r)),
            (''threshold'', JFloat (ar_threshold r)),
            (''unit'', opt_str (ar_unit r)),
            (''exceeded_by'', JFloat (ar_exceeded_by r)),
            (''exceeded_pct'', JFloat (ar_exceeded_pct r))])"

definition reading_json :: "sensor_reading \<Rightarrow> json" where
  "reading_json r =
     JObj [(''sensor_id'', JStr (rd_sensor_id r)), (''value'', JFloat (rd_value r)), (''unit'', opt_str (rd_unit r)),
           (''age_seconds'', JFloat (rd_age_seconds r))]"

definition snapshot_json :: "telemetry_snapshot \<Rightarrow> json" where
  "snapshot_json t =
     JObj [(''captured_at'', JStr (ts_captured_at t)), (''complete'', JBool (ts_complete t)),
           (''readings'', JList (map reading_json (ts_readings t)))]"

definition operator_json :: "ai_operator \<Rightarrow> json" where
  "operator_json p =
     JObj [(''operator_id'', JStr (aop_operator_id p)), (''name'', JStr (aop_name p)), (''role'', JStr (aop_role p)),
           (''shift'', opt_str (aop_shift p)), (''contact'', opt_str (aop_contact p)),
           (''escalation_order'', JInt (aop_escalation_order p))]"

definition constraints_json :: "prompt_context \<Rightarrow> json" where
  "constraints_json x =
     JObj [(''tenant'', JStr (pc_tenant x)),
           (''tier'', JStr (pc_tier x)),
           (''max_commands'', JInt (pc_max_commands x)),
           (''allowed_actions'', JList (map (\<lambda>a. JStr (ai_action_value a)) (pc_allowed_actions x))),
           (''context_degraded'', JBool (ap_degraded (pc_payload x))),
           (''degraded_reason'', opt_str (ap_degraded_reason (pc_payload x))),
           (''policy_notes'', JList (map JStr (pc_policy_notes x)))]"

definition briefing :: "(rat \<Rightarrow> string) \<Rightarrow> prompt_context \<Rightarrow> json" where
  "briefing g x =
     (let p = pc_payload x in
      JObj [(''event_id'', JStr (ap_event_id p)),
            (''asset'', asset_json p),
            (''anomaly'', anomaly_json g p),
            (''telemetry_snapshot'', snapshot_json (ap_snapshot p)),
            (''operators'', JList (map operator_json (ai_escalation_chain (ap_context p)))),
            (''constraints'', constraints_json x)])"

section \<open>The text of the two turns\<close>

definition render_system :: string where
  "render_system = SYSTEM_PROMPT"

definition EM_DASH :: string where
  "EM_DASH = [CHR 0x97]"

definition headline :: "(rat \<Rightarrow> string) \<Rightarrow> ai_payload \<Rightarrow> string" where
  "headline g p =
     (let r = ap_rule p; c = ap_context p in
      ai_severity_value (ap_severity p) @ '' '' @ ai_transition_value (ap_transition p) @ '' on '' @
      (if ac_asset_name c \<noteq> [] then ac_asset_name c else ap_asset_id p) @
      '' ('' @ ar_sensor_id r @ ''='' @ g (ar_observed_value r) @ unit_suffix (ar_unit r) @
      '', limit '' @ g (ar_threshold r) @ '', '' @ g (ar_exceeded_pct r) @ ''% over).'')"

definition situation :: "(rat \<Rightarrow> string) \<Rightarrow> ai_payload \<Rightarrow> string list" where
  "situation g p =
     (let c = ap_context p in
      [headline g p,
       ''Site: '' @ (if ac_site c \<noteq> [] then ac_site c else ''unknown'') @ '' | Criticality: '' @ ac_criticality c,
       ''Immediate parent system: '' @
         (case ai_immediate_parent c of Some n \<Rightarrow> asn_name n | None \<Rightarrow> ''unmapped''),
       ''Primary operator: '' @
         (case ai_primary_operator c of
            Some q \<Rightarrow> aop_name q @ '' ('' @ aop_role q @ '')''
          | None \<Rightarrow> ''none assigned'')] @
      (if ap_degraded p then
         [''WARNING: context is degraded '' @ EM_DASH @ '' '' @
            (case ap_degraded_reason p of Some t \<Rightarrow> t | None \<Rightarrow> ''None'')]
       else []))"

definition FENCE :: string where
  "FENCE = ''```''"

definition NL :: char where
  "NL = CHR 0x0A"

definition render_user :: "(rat \<Rightarrow> string) \<Rightarrow> (rat \<Rightarrow> string) \<Rightarrow> prompt_context \<Rightarrow> string" where
  "render_user g f x =
     str_join [NL] (situation g (pc_payload x)) @
     [NL, NL] @ ''Briefing:'' @ [NL] @ FENCE @ ''json'' @ [NL] @
     json_dumps f (briefing g x) @
     [NL] @ FENCE @ [NL, NL] @ ''Call '' @ TOOL_NAME @ '' with at most '' @ int_str (pc_max_commands x) @ '' commands.''"

section \<open>Finding the briefing in the prompt\<close>

text \<open>
  The pattern is the word json after a fence, white space, a brace, the fewest characters up to a brace that is
  followed by white space and a fence.  The search takes the leftmost match.
\<close>

fun close_fence :: "string \<Rightarrow> string option" where
  "close_fence [] = None"
| "close_fence (c # cs) =
     (if c = CHR ''}'' \<and> str_startswith (dropWhile is_space cs) FENCE then Some [c]
      else map_option ((#) c) (close_fence cs))"

definition fenced_here :: "string \<Rightarrow> string option" where
  "fenced_here s =
     (if str_startswith s (FENCE @ ''json'') then
        (case dropWhile is_space (drop 7 s) of
           [] \<Rightarrow> None
         | c # cs \<Rightarrow> if c = CHR ''{'' then map_option ((#) c) (close_fence cs) else None)
      else None)"

fun find_fenced :: "string \<Rightarrow> string option" where
  "find_fenced [] = None"
| "find_fenced (c # cs) = (case fenced_here (c # cs) of Some body \<Rightarrow> Some body | None \<Rightarrow> find_fenced cs)"

definition extract_briefing :: "(string \<Rightarrow> rat option) \<Rightarrow> string \<Rightarrow> json option" where
  "extract_briefing pf user = Option.bind (find_fenced user) (json_loads pf)"

section \<open>The round trip\<close>

lemma close_fence_found:
  "CHR ''`'' \<notin> set body \<Longrightarrow> str_startswith (dropWhile is_space rest) FENCE \<Longrightarrow>
   close_fence (body @ CHR ''}'' # rest) = Some (body @ [CHR ''}''])"
proof (induction body)
  case (Cons c cs)
  have "\<not> str_startswith (dropWhile is_space (cs @ CHR ''}'' # rest)) FENCE"
  proof -
    have "dropWhile is_space (cs @ CHR ''}'' # rest) = dropWhile is_space cs @ CHR ''}'' # rest"
      by (induction cs) (auto simp: is_space_def)
    moreover have "hd (dropWhile is_space cs @ CHR ''}'' # rest) \<noteq> CHR ''`''"
    proof (cases "dropWhile is_space cs")
      case (Cons d ds)
      then have "d \<in> set cs" using set_dropWhileD by (metis list.set_intros(1))
      then show ?thesis using Cons \<open>CHR ''`'' \<notin> set (c # cs)\<close> by auto
    next
      case Nil
      show ?thesis unfolding Nil by simp
    qed
    ultimately show ?thesis by (cases "dropWhile is_space cs") (auto simp: str_startswith_def FENCE_def)
  qed
  then show ?case using Cons by simp
qed simp

lemma fence_free_prefix:
  "CHR ''`'' \<notin> set pre \<Longrightarrow> find_fenced (pre @ s) = find_fenced s"
  by (induction pre) (auto simp: fenced_here_def str_startswith_def FENCE_def)

lemma find_fenced_found:
  assumes "CHR ''`'' \<notin> set pre" "CHR ''`'' \<notin> set body" "str_startswith (dropWhile is_space rest) FENCE"
  shows "find_fenced (pre @ FENCE @ ''json'' @ NL # CHR ''{'' # body @ CHR ''}'' # rest) = Some (CHR ''{'' # body @ [CHR ''}''])"
proof -
  have "fenced_here (FENCE @ ''json'' @ NL # CHR ''{'' # body @ CHR ''}'' # rest) = Some (CHR ''{'' # body @ [CHR ''}''])"
    using close_fence_found [OF assms(2,3)]
    by (simp add: fenced_here_def FENCE_def NL_def is_space_def str_startswith_def)
  then show ?thesis
    unfolding fence_free_prefix [OF assms(1)] by (simp add: FENCE_def)
qed

lemma object_text:
  assumes "kvs \<noteq> []"
  shows "\<exists>body. json_dumps f (JObj kvs) = CHR ''{'' # body @ [CHR ''}'']"
proof -
  have "sort_key fst (map (\<lambda>(k, v). (k, sort_json v)) kvs) \<noteq> []" using assms
    by (metis length_map length_sort length_0_conv)
  then show ?thesis by (simp add: json_dumps_def)
qed

text \<open>The texts of the prompt before the fence and inside it are free of backticks.\<close>

definition backtick_free :: "(rat \<Rightarrow> string) \<Rightarrow> prompt_context \<Rightarrow> bool" where
  "backtick_free g x \<longleftrightarrow>
     CHR ''`'' \<notin> set (str_join [NL] (situation g (pc_payload x))) \<and>
     json_text_all (\<lambda>t. CHR ''`'' \<notin> set t) (briefing g x)"

lemma find_rendered:
  assumes "json_wf (float_text pf f) (briefing g x)" "backtick_free g x"
  shows "find_fenced (render_user g f x) = Some (json_dumps f (briefing g x))"
proof -
  let ?tail = "[NL] @ FENCE @ [NL, NL] @ ''Call '' @ TOOL_NAME @ '' with at most '' @ int_str (pc_max_commands x) @ '' commands.''"
  let ?pre = "str_join [NL] (situation g (pc_payload x)) @ [NL, NL] @ ''Briefing:'' @ [NL]"
  obtain body where body: "json_dumps f (briefing g x) = CHR ''{'' # body @ [CHR ''}'']"
    using object_text [of _ f] unfolding briefing_def Let_def by blast
  have "CHR ''`'' \<notin> set (json_dumps f (briefing g x))"
    unfolding json_dumps_def
    using assms by (intro dump_no_backtick sort_json_wf sort_json_text_all) (simp_all add: backtick_free_def)
  then have "CHR ''`'' \<notin> set body" by (simp add: body)
  moreover have "CHR ''`'' \<notin> set ?pre" using assms(2) by (simp add: backtick_free_def NL_def)
  moreover have "str_startswith (dropWhile is_space ?tail) FENCE"
    by (simp add: NL_def is_space_def FENCE_def str_startswith_def)
  ultimately have "find_fenced (?pre @ FENCE @ ''json'' @ NL # CHR ''{'' # body @ CHR ''}'' # ?tail) = Some (CHR ''{'' # body @ [CHR ''}''])"
    by (intro find_fenced_found)
  moreover have "render_user g f x = ?pre @ FENCE @ ''json'' @ NL # CHR ''{'' # body @ CHR ''}'' # ?tail"
    by (simp add: render_user_def body)
  ultimately show ?thesis by (simp only: body)
qed

lemma extract_rendered:
  assumes "json_wf (float_text pf f) (briefing g x)" "backtick_free g x"
  shows "extract_briefing pf (render_user g f x) = Some (sort_json (briefing g x))"
  using find_rendered [OF assms] loads_dumps [OF assms(1)] by (simp add: extract_briefing_def)

end
