(* ===== verification/Planner.thy ===== *)
theory Planner
  imports Planner_Prompt "HOL-Library.Monad_Syntax"
begin

text \<open>
  The planner of the AI interceptor (ai-interceptor/app/llm.py): the deterministic plan of the offline
  provider, the planner that calls a provider and validates its answer, and the envelope of the response.

  The offline provider plans from the JSON briefing it finds in the prompt.  What it reads of the briefing is
  the record \<open>briefing_view\<close>.  A briefing it cannot read makes \<open>read_briefing\<close> return None: a missing member
  raises in the source, and so does a member of the wrong type wherever the source uses it as its type; the
  model is stricter where the source only prints the member.
\<close>

section \<open>What the offline provider reads\<close>

record briefing_view =
  bv_severity :: string
  bv_transition :: string
  bv_sensor_id :: string
  bv_observed :: rat
  bv_observed_json :: json
  bv_threshold :: rat
  bv_unit :: string
  bv_exceeded_pct :: rat
  bv_breach_count :: int
  bv_criticality :: "string option"
  bv_site :: "string option"
  bv_label :: string
  bv_components :: "string list"
  bv_parent_name :: "string option"
  bv_maintenance_window :: json
  bv_operators :: "(string \<times> string option) list"
  bv_max_commands :: int
  bv_allowed :: "string list"
  bv_degraded :: bool
  bv_complete :: bool
  bv_readings :: "(string \<times> rat \<times> string option \<times> rat) list"

fun obj_of :: "json \<Rightarrow> (string \<times> json) list option" where
  "obj_of (JObj kvs) = Some kvs"
| "obj_of _ = None"

fun list_of :: "json \<Rightarrow> json list option" where
  "list_of (JList xs) = Some xs"
| "list_of _ = None"

fun str_of :: "json \<Rightarrow> string option" where
  "str_of (JStr s) = Some s"
| "str_of _ = None"

fun rat_of :: "json \<Rightarrow> rat option" where
  "rat_of (JFloat x) = Some x"
| "rat_of (JInt i) = Some (of_int i)"
| "rat_of _ = None"

fun int_of :: "json \<Rightarrow> int option" where
  "int_of (JInt i) = Some i"
| "int_of _ = None"

fun opt_str_of :: "json \<Rightarrow> string option option" where
  "opt_str_of JNull = Some None"
| "opt_str_of (JStr s) = Some (Some s)"
| "opt_str_of _ = None"

fun all_some :: "('a \<Rightarrow> 'b option) \<Rightarrow> 'a list \<Rightarrow> 'b list option" where
  "all_some h [] = Some []"
| "all_some h (x # xs) = do { y \<leftarrow> h x; ys \<leftarrow> all_some h xs; Some (y # ys) }"

text \<open>The id of an operator is read of the first two only.\<close>

definition read_operator :: "nat \<times> json \<Rightarrow> (string \<times> string option) option" where
  "read_operator kj =
     do { m \<leftarrow> obj_of (snd kj);
          name \<leftarrow> Option.bind (map_of m ''name'') str_of;
          oid \<leftarrow> if fst kj < 2 then Option.bind (map_of m ''operator_id'') opt_str_of else Some None;
          Some (name, oid) }"

definition read_reading :: "json \<Rightarrow> (string \<times> rat \<times> string option \<times> rat) option" where
  "read_reading j =
     do { m \<leftarrow> obj_of j;
          sensor \<leftarrow> Option.bind (map_of m ''sensor_id'') str_of;
          v \<leftarrow> Option.bind (map_of m ''value'') rat_of;
          u \<leftarrow> opt_str_of (j_get m ''unit'');
          age \<leftarrow> rat_of (j_get_default m ''age_seconds'' (JInt 0));
          Some (sensor, v, u, age) }"

definition or_empty :: "string option \<Rightarrow> string" where
  "or_empty v = (case v of None \<Rightarrow> [] | Some s \<Rightarrow> s)"

definition read_label :: "(string \<times> json) list \<Rightarrow> string option" where
  "read_label asset =
     do { name \<leftarrow> opt_str_of (j_get asset ''name'');
          if or_empty name \<noteq> [] then name else Option.bind (map_of asset ''asset_id'') str_of }"

definition read_parent :: "(string \<times> json) list \<Rightarrow> string option option" where
  "read_parent asset =
     (if \<not> py_truthy (j_get asset ''parent_systems'') then Some None
      else do { ps \<leftarrow> list_of (j_get asset ''parent_systems'');
                m \<leftarrow> obj_of (hd ps);
                name \<leftarrow> Option.bind (map_of m ''name'') str_of;
                Some (Some name) })"

definition read_briefing :: "json \<Rightarrow> briefing_view option" where
  "read_briefing j =
     do { b \<leftarrow> obj_of j;
          asset \<leftarrow> Option.bind (map_of b ''asset'') obj_of;
          anomaly \<leftarrow> Option.bind (map_of b ''anomaly'') obj_of;
          constraints \<leftarrow> Option.bind (map_of b ''constraints'') obj_of;
          operators \<leftarrow> list_of (j_get_default b ''operators'' (JList []));
          snapshot \<leftarrow> obj_of (j_get_default b ''telemetry_snapshot'' (JObj []));
          severity \<leftarrow> Option.bind (map_of anomaly ''severity'') str_of;
          transition \<leftarrow> Option.bind (map_of anomaly ''transition'') str_of;
          sensor \<leftarrow> Option.bind (map_of anomaly ''sensor_id'') str_of;
          observed_json \<leftarrow> map_of anomaly ''observed_value'';
          observed \<leftarrow> rat_of observed_json;
          threshold \<leftarrow> Option.bind (map_of anomaly ''threshold'') rat_of;
          unit \<leftarrow> opt_str_of (j_get anomaly ''unit'');
          pct \<leftarrow> rat_of (j_get_default anomaly ''exceeded_pct'' (JInt 0));
          breaches \<leftarrow> int_of (j_get_default anomaly ''breach_count'' (JInt 0));
          criticality \<leftarrow> opt_str_of (j_get asset ''criticality'');
          site \<leftarrow> opt_str_of (j_get asset ''site'');
          max_commands \<leftarrow> int_of (j_get_default constraints ''max_commands'' (JInt 6));
          allowed \<leftarrow> Option.bind (list_of (j_get_default constraints ''allowed_actions'' (JList []))) (all_some str_of);
          label \<leftarrow> read_label asset;
          components \<leftarrow> Option.bind (list_of (j_get_default asset ''components'' (JList []))) (all_some str_of);
          parent \<leftarrow> read_parent asset;
          ops \<leftarrow> all_some read_operator (List.enumerate 0 operators);
          readings \<leftarrow> Option.bind (list_of (j_get_default snapshot ''readings'' (JList []))) (all_some read_reading);
          Some \<lparr>bv_severity = severity, bv_transition = transition, bv_sensor_id = sensor, bv_observed = observed,
                bv_observed_json = observed_json, bv_threshold = threshold, bv_unit = or_empty unit,
                bv_exceeded_pct = pct, bv_breach_count = breaches, bv_criticality = criticality, bv_site = site,
                bv_label = label, bv_components = components, bv_parent_name = parent,
                bv_maintenance_window = j_get asset ''maintenance_window'', bv_operators = ops,
                bv_max_commands = max_commands, bv_allowed = allowed,
                bv_degraded = py_truthy (j_get constraints ''context_degraded''),
                bv_complete = py_truthy (j_get_default snapshot ''complete'' (JBool False)),
                bv_readings = readings\<rparr> }"

section \<open>The deterministic plan\<close>

definition COMPONENT_AFFINITY :: "(string \<times> string list) list" where
  "COMPONENT_AFFINITY =
     [(''vibration_index'', [''bearing'', ''spindle'', ''coupling'', ''rotor'', ''fan'', ''drive'', ''pump'']),
      (''temperature_celsius'', [''bearing'', ''egt'', ''thermal'', ''coolant'', ''inverter'', ''seal'', ''motor''])]"

definition SENSOR_LABEL :: "(string \<times> string) list" where
  "SENSOR_LABEL = [(''vibration_index'', ''broadband vibration''), (''temperature_celsius'', ''temperature'')]"

fun str_contains :: "string \<Rightarrow> string \<Rightarrow> bool" where
  "str_contains w [] = (w = [])"
| "str_contains w (c # cs) = (str_startswith (c # cs) w \<or> str_contains w cs)"

fun first_match :: "string list \<Rightarrow> string list \<Rightarrow> string option" where
  "first_match [] components = None"
| "first_match (w # ws) components =
     (case find (\<lambda>c. str_contains w (str_lower c)) components of
        Some c \<Rightarrow> Some c
      | None \<Rightarrow> first_match ws components)"

definition select_component :: "string \<Rightarrow> string list \<Rightarrow> string \<Rightarrow> string" where
  "select_component sensor_id components fallback =
     (case first_match (case map_of COMPONENT_AFFINITY sensor_id of None \<Rightarrow> [] | Some ws \<Rightarrow> ws) components of
        Some c \<Rightarrow> c
      | None \<Rightarrow> (case components of [] \<Rightarrow> fallback | c # _ \<Rightarrow> c))"

definition DUTY_DESK :: string where
  "DUTY_DESK = ''Site duty desk''"

text \<open>The names a plan of the view acts on.\<close>

definition view_target :: "briefing_view \<Rightarrow> string" where
  "view_target v = select_component (bv_sensor_id v) (bv_components v) (bv_label v)"

definition view_parent :: "briefing_view \<Rightarrow> string" where
  "view_parent v = (case bv_parent_name v of Some n \<Rightarrow> n | None \<Rightarrow> bv_label v)"

definition view_primary :: "briefing_view \<Rightarrow> string \<times> string option" where
  "view_primary v = (case bv_operators v of [] \<Rightarrow> (DUTY_DESK, None) | p # _ \<Rightarrow> p)"

definition view_notify :: "briefing_view \<Rightarrow> string list" where
  "view_notify v = (case map fst (tl (bv_operators v)) of [] \<Rightarrow> [DUTY_DESK] | ns \<Rightarrow> ns)"

definition view_second_id :: "briefing_view \<Rightarrow> string option" where
  "view_second_id v = (case bv_operators v of _ # p # _ \<Rightarrow> snd p | _ \<Rightarrow> None)"

definition sensor_label :: "briefing_view \<Rightarrow> string" where
  "sensor_label v = (case map_of SENSOR_LABEL (bv_sensor_id v) of Some l \<Rightarrow> l | None \<Rightarrow> bv_sensor_id v)"

definition view_unit :: "briefing_view \<Rightarrow> string" where
  "view_unit v = unit_suffix (Some (bv_unit v))"

definition magnitude :: "(rat \<Rightarrow> string) \<Rightarrow> briefing_view \<Rightarrow> string" where
  "magnitude g v = g (bv_observed v) @ view_unit v @ '' against a '' @ g (bv_threshold v) @ '' limit''"

text \<open>\<open>add\<close>: a command the tier does not allow, or beyond the limit, is dropped.\<close>

definition add_command :: "string list \<Rightarrow> int \<Rightarrow> ai_command \<Rightarrow> ai_command list \<Rightarrow> ai_command list" where
  "add_command allowed max_commands c commands =
     (if ai_action_value (acm_action c) \<notin> set allowed \<or> max_commands \<le> int (length commands) then commands
      else commands @ [c\<lparr>acm_sequence := int (length commands) + 1\<rparr>])"

definition proposal ::
    "ai_action \<Rightarrow> ai_priority \<Rightarrow> string \<Rightarrow> string \<Rightarrow> string option \<Rightarrow> string \<Rightarrow> string option \<Rightarrow> int
      \<Rightarrow> (string \<times> json) list \<Rightarrow> ai_command" where
  "proposal action priority component assignee operator_id effect rollback deadline parameters =
     \<lparr>acm_sequence = 0, acm_target_component = component, acm_action = action, acm_priority = priority,
      acm_assigned_to = assignee, acm_assigned_operator_id = operator_id, acm_parameters = parameters,
      acm_expected_effect = effect, acm_rollback = rollback, acm_deadline_seconds = deadline\<rparr>"

definition cleared_proposals :: "briefing_view \<Rightarrow> ai_command list" where
  "cleared_proposals v =
     (let target = view_target v; (primary_name, primary_id) = view_primary v in
      [proposal AiAcknowledge AiLow target primary_name primary_id
         (''Close the '' @ sensor_label v @ '' alarm on '' @ bv_label v @ '' after recovery below limit.'')
         (Some ''Re-open the alarm if the reading breaches again within one shift.'')
         3600
         [(''reason'', JStr ''value recovered below the clearing threshold'')],
       proposal AiScheduleMaintenance AiLow target primary_name primary_id
         (''Book a trend review of '' @ target @ '' at the next maintenance window.'')
         (Some ''Cancel the work order if the trend review is not required.'')
         86400
         [(''maintenance_window'', bv_maintenance_window v)]])"

definition critical_proposals :: "(rat \<Rightarrow> string) \<Rightarrow> briefing_view \<Rightarrow> ai_command list" where
  "critical_proposals g v =
     (let target = view_target v; (primary_name, primary_id) = view_primary v; parent_name = view_parent v;
          notify = view_notify v in
      [proposal AiIsolate AiCritical target primary_name primary_id
         (''Remove '' @ target @ '' from load, halting '' @ sensor_label v @ '' excursion at '' @ magnitude g v @ ''.'')
         (Some ''Return to service only after inspection sign-off and a clean restart trend.'')
         300
         [(''isolation_scope'', JStr parent_name), (''confirm_zero_energy'', JBool True),
          (''sensor_id'', JStr (bv_sensor_id v)), (''observed_value'', bv_observed_json v)]] @
      (if bv_criticality v = Some ''SAFETY_CRITICAL'' then
         [proposal AiShutdown AiCritical parent_name primary_name primary_id
            (''Bring '' @ parent_name @ '' to a controlled stop; the asset is safety critical.'')
            (Some ''Restart per the approved return-to-service procedure.'')
            600
            [(''mode'', JStr ''controlled''),
             (''reason'', JStr (sensor_label v @ '' exceeded limit by '' @ g (bv_exceeded_pct v) @ ''%''))]]
       else []) @
      [proposal AiInspect AiHigh target primary_name primary_id
         (''Confirm the root cause of the '' @ sensor_label v @ '' excursion on '' @ target @ ''.'')
         None
         1800
         [(''method'', JStr (if bv_sensor_id v = ''temperature_celsius'' then ''borescope+thermography''
                            else ''vibration_survey''))],
       proposal AiNotify AiHigh (bv_label v) (hd notify) (view_second_id v)
         ''Escalate to the accountable engineer and open an incident record.''
         None
         600
         [(''channel'', JStr ''incident_bridge''), (''recipients'', JList (map JStr notify))]])"

definition contained_proposals :: "(rat \<Rightarrow> string) \<Rightarrow> briefing_view \<Rightarrow> ai_command list" where
  "contained_proposals g v =
     (let target = view_target v; (primary_name, primary_id) = view_primary v in
      [proposal AiThrottle AiHigh target primary_name primary_id
         (''Reduce duty on '' @ target @ '' to bring '' @ sensor_label v @ '' back below '' @ g (bv_threshold v) @
            view_unit v @ ''.'')
         (Some ''Restore the previous setpoint once the reading is stable below the limit.'')
         900
         [(''target_reduction_pct'', JInt 20), (''sensor_id'', JStr (bv_sensor_id v))],
       proposal AiInspect AiMedium target primary_name primary_id
         (''Trend '' @ sensor_label v @ '' on '' @ target @ '' for the remainder of the shift.'')
         None
         7200
         [(''sample_interval_seconds'', JInt 60)],
       proposal AiScheduleMaintenance AiMedium target primary_name primary_id
         (''Raise a work order against '' @ target @ '' for the next maintenance window.'')
         (Some ''Cancel the work order if the trend returns to nominal.'')
         86400
         [(''maintenance_window'', bv_maintenance_window v)]])"

datatype plan_branch = OnCleared | OnCritical | OnContained

definition branch_of :: "briefing_view \<Rightarrow> plan_branch" where
  "branch_of v =
     (if bv_transition v = ai_transition_value Cleared then OnCleared
      else if bv_severity v = ai_severity_value SevCriticalAi then OnCritical
      else OnContained)"

definition proposals :: "(rat \<Rightarrow> string) \<Rightarrow> briefing_view \<Rightarrow> ai_command list" where
  "proposals g v =
     (case branch_of v of
        OnCleared \<Rightarrow> cleared_proposals v
      | OnCritical \<Rightarrow> critical_proposals g v
      | OnContained \<Rightarrow> contained_proposals g v)"

definition fallback_command :: "briefing_view \<Rightarrow> ai_command" where
  "fallback_command v =
     (proposal AiNotify AiHigh (view_target v) (fst (view_primary v)) (snd (view_primary v))
        ''Hand the anomaly to a human for manual disposition.'' None 900
        [(''reason'', JStr ''no permitted action available for this tier'')])\<lparr>acm_sequence := 1\<rparr>"

definition derived_commands :: "(rat \<Rightarrow> string) \<Rightarrow> briefing_view \<Rightarrow> ai_command list" where
  "derived_commands g v =
     (let commands = fold (add_command (bv_allowed v) (bv_max_commands v)) (proposals g v) [] in
      if commands = [] then [fallback_command v] else commands)"

definition derived_confidence :: "briefing_view \<Rightarrow> rat" where
  "derived_confidence v =
     (let c0 = (case branch_of v of OnCleared \<Rightarrow> 72 / 100 | OnCritical \<Rightarrow> 91 / 100 | OnContained \<Rightarrow> 78 / 100);
          c1 = (if bv_degraded v then py_round (c0 - 2 / 10) 2 else c0);
          c2 = (if bv_complete v then c1 else py_round (c1 - 5 / 100) 2)
      in max (5 / 100) (min 1 c2))"

definition derived_escalation :: "(rat \<Rightarrow> string) \<Rightarrow> briefing_view \<Rightarrow> ai_escalation" where
  "derived_escalation g v =
     (case branch_of v of
        OnCleared \<Rightarrow>
          \<lparr>aes_required = False, aes_notify = view_notify v,
           aes_reason = ''Anomaly cleared; no escalation required.'', aes_sla_seconds = 0\<rparr>
      | OnCritical \<Rightarrow>
          \<lparr>aes_required = True, aes_notify = view_notify v,
           aes_reason = sensor_label v @ '' on '' @ bv_label v @ '' reached '' @ magnitude g v @ '' ('' @
             g (bv_exceeded_pct v) @ ''% over limit).'',
           aes_sla_seconds = 900\<rparr>
      | OnContained \<Rightarrow>
          \<lparr>aes_required = False, aes_notify = view_notify v,
           aes_reason = ''Threshold breach contained by throttling; monitoring in place.'', aes_sla_seconds = 3600\<rparr>)"

definition none_text :: "string option \<Rightarrow> string" where
  "none_text v = (case v of None \<Rightarrow> ''None'' | Some s \<Rightarrow> s)"

definition derived_evidence :: "(rat \<Rightarrow> string) \<Rightarrow> briefing_view \<Rightarrow> string list" where
  "derived_evidence g v =
     [bv_sensor_id v @ '' observed at '' @ g (bv_observed v) @ view_unit v @ '' vs limit '' @ g (bv_threshold v) @ '' ('' @
        g (bv_exceeded_pct v) @ ''% over)'',
      ''transition='' @ bv_transition v @ '', breach_count='' @ int_str (bv_breach_count v),
      ''asset criticality='' @ none_text (bv_criticality v) @ '', site='' @ none_text (bv_site v)] @
     map (\<lambda>(sensor, x, u, age). reading_line g sensor x u age) (bv_readings v)"

definition derived_summary :: "(rat \<Rightarrow> string) \<Rightarrow> briefing_view \<Rightarrow> string" where
  "derived_summary g v =
     bv_severity v @ '' '' @ bv_transition v @ '' on '' @ bv_label v @ '': '' @ sensor_label v @ '' reached '' @
     magnitude g v @ ''. The plan acts on '' @ view_target v @ '' within '' @ view_parent v @ '', assigns '' @
     fst (view_primary v) @ '', and '' @
     (if aes_required (derived_escalation g v) then ''escalates to the accountable engineer''
      else ''keeps the asset under observation'') @ ''.''"

definition derive_plan :: "(rat \<Rightarrow> string) \<Rightarrow> briefing_view \<Rightarrow> llm_plan" where
  "derive_plan g v =
     \<lparr>lp_confidence = derived_confidence v, lp_reasoning_summary = derived_summary g v,
      lp_commands = derived_commands g v, lp_escalation = derived_escalation g v, lp_evidence = derived_evidence g v\<rparr>"

section \<open>Providers and the planner\<close>

text \<open>
  A provider's turn ends with a tool call or an exception.  The tool input is a plan of the right
  shape, or nothing where the model library finds a field missing, of the wrong type or extra.  A provider
  answers with the seconds its turn takes and the turn.
\<close>

record tool_call =
  tc_input :: "llm_plan option"
  tc_model :: string
  tc_input_tokens :: int
  tc_output_tokens :: int

datatype provider_turn = ToolCalled tool_call | ProviderRaised

datatype planner_error = PlannerTimedOut | PlannerCallFailed | PlannerMalformed

text \<open>
  The offline provider.  It sleeps for the latency it simulates and takes no further time.  A
  briefing it does not find or cannot read is an exception.  \<open>plan_length\<close> is the length of the JSON text of
  the plan.
\<close>

definition mock_complete ::
    "int \<Rightarrow> (rat \<Rightarrow> string) \<Rightarrow> (string \<Rightarrow> rat option) \<Rightarrow> (llm_plan \<Rightarrow> nat) \<Rightarrow> string \<Rightarrow> string \<Rightarrow> string \<Rightarrow> json
      \<Rightarrow> rat \<times> provider_turn" where
  "mock_complete latency_ms g pf plan_length model system user tool =
     (of_int latency_ms / 1000,
      case Option.bind (extract_briefing pf user) read_briefing of
        None \<Rightarrow> ProviderRaised
      | Some v \<Rightarrow>
          (let plan = derive_plan g v in
           ToolCalled \<lparr>tc_input = Some plan, tc_model = model,
                       tc_input_tokens = int ((length system + length user) div 4),
                       tc_output_tokens = int (plan_length plan div 4)\<rparr>))"

record plan_result =
  pr_plan :: llm_plan
  pr_usage :: token_usage
  pr_model :: string
  pr_latency_ms :: rat

text \<open>
  \<open>RemediationPlanner.plan\<close>: the provider is a function of the model, the two turns and the tool.  A turn that
  waits is cancelled when the deadline is reached: the timer of the deadline is set before that of the
  provider, so that a turn of exactly that length is too late.
\<close>

definition overruns :: "rat \<Rightarrow> rat \<Rightarrow> bool" where
  "overruns timeout seconds \<longleftrightarrow> seconds \<noteq> 0 \<and> timeout \<le> seconds"

definition planner_plan ::
    "(rat \<Rightarrow> string) \<Rightarrow> (rat \<Rightarrow> string) \<Rightarrow> (string \<Rightarrow> string \<Rightarrow> string \<Rightarrow> json \<Rightarrow> rat \<times> provider_turn) \<Rightarrow> string
      \<Rightarrow> rat \<Rightarrow> rat \<Rightarrow> prompt_context \<Rightarrow> planner_error + plan_result" where
  "planner_plan g f provider model timeout elapsed_ms x =
     (let (seconds, turn) = provider model render_system (render_user g f x) COMMAND_SEQUENCE_TOOL in
      if overruns timeout seconds then Inl PlannerTimedOut
      else (case turn of
        ProviderRaised \<Rightarrow> Inl PlannerCallFailed
      | ToolCalled call \<Rightarrow>
          (case tc_input call of
             None \<Rightarrow> Inl PlannerMalformed
           | Some plan \<Rightarrow>
               if llm_plan_ok plan then
                 Inr \<lparr>pr_plan = plan,
                      pr_usage = \<lparr>tu_input_tokens = tc_input_tokens call, tu_output_tokens = tc_output_tokens call\<rparr>,
                      pr_model = (if tc_model call \<noteq> [] then tc_model call else model),
                      pr_latency_ms = elapsed_ms\<rparr>
               else Inl PlannerMalformed)))"

definition build_command_sequence :: "ai_payload \<Rightarrow> plan_result \<Rightarrow> string \<Rightarrow> string \<Rightarrow> rat \<Rightarrow> command_sequence" where
  "build_command_sequence p r tenant plan_hex now =
     \<lparr>cs_plan_id = ''plan_'' @ take 20 plan_hex, cs_event_id = ap_event_id p, cs_asset_id = ap_asset_id p,
      cs_tenant = tenant, cs_generated_at = now, cs_model = pr_model r, cs_severity = ap_severity p,
      cs_transition = ap_transition p, cs_confidence = lp_confidence (pr_plan r),
      cs_reasoning_summary = lp_reasoning_summary (pr_plan r), cs_commands = lp_commands (pr_plan r),
      cs_escalation = lp_escalation (pr_plan r), cs_evidence = lp_evidence (pr_plan r),
      cs_context_degraded = ap_degraded p, cs_latency_ms = py_round (pr_latency_ms r) 2, cs_usage = pr_usage r\<rparr>"

section \<open>What the offline provider reads back\<close>

text \<open>The view of a context, with no text in between.\<close>

definition view_of :: "prompt_context \<Rightarrow> briefing_view" where
  "view_of x =
     (let p = pc_payload x; c = ap_context p; r = ap_rule p in
      \<lparr>bv_severity = ai_severity_value (ap_severity p), bv_transition = ai_transition_value (ap_transition p),
       bv_sensor_id = ar_sensor_id r, bv_observed = ar_observed_value r,
       bv_observed_json = JFloat (ar_observed_value r), bv_threshold = ar_threshold r,
       bv_unit = or_empty (ar_unit r), bv_exceeded_pct = ar_exceeded_pct r, bv_breach_count = ap_breach_count p,
       bv_criticality = Some (ac_criticality c), bv_site = Some (ac_site c),
       bv_label = (if ac_asset_name c \<noteq> [] then ac_asset_name c
                   else if ac_asset_id c \<noteq> [] then ac_asset_id c else ap_asset_id p),
       bv_components = ac_components c,
       bv_parent_name = (case sort_key asn_depth (ac_parent_systems c) of [] \<Rightarrow> None | n # _ \<Rightarrow> Some (asn_name n)),
       bv_maintenance_window = opt_str (ac_maintenance_window c),
       bv_operators = map (\<lambda>(k, q). (aop_name q, if k < 2 then Some (aop_operator_id q) else None))
                        (List.enumerate 0 (ai_escalation_chain c)),
       bv_max_commands = pc_max_commands x, bv_allowed = map ai_action_value (pc_allowed_actions x),
       bv_degraded = ap_degraded p, bv_complete = ts_complete (ap_snapshot p),
       bv_readings = map (\<lambda>q. (rd_sensor_id q, rd_value q, rd_unit q, rd_age_seconds q)) (ts_readings (ap_snapshot p))\<rparr>)"

lemma all_some_map: "(\<And>x. x \<in> set xs \<Longrightarrow> h (q x) = Some (r x)) \<Longrightarrow> all_some h (map q xs) = Some (map r xs)"
  by (induction xs) auto

lemma sort_opt_str [simp]: "sort_json (opt_str v) = opt_str v"
  by (cases v) (simp_all add: opt_str_def)

lemma opt_str_of_opt_str [simp]: "opt_str_of (opt_str v) = Some v"
  by (cases v) (simp_all add: opt_str_def)

lemma all_some_strings: "all_some str_of (map JStr xs) = Some xs"
  using all_some_map [of xs str_of JStr "\<lambda>x. x"] by simp

lemma read_sorted_reading:
  "read_reading (sort_json (reading_json r)) = Some (rd_sensor_id r, rd_value r, rd_unit r, rd_age_seconds r)"
  by (simp add: read_reading_def reading_json_def j_get_def j_get_default_def)

lemma read_sorted_operator:
  "read_operator (k, sort_json (operator_json p)) = Some (aop_name p, if k < 2 then Some (aop_operator_id p) else None)"
  by (simp add: read_operator_def operator_json_def)

lemma read_sorted_operators:
  "all_some read_operator (List.enumerate k (map sort_json (map operator_json ops))) =
     Some (map (\<lambda>(k, q). (aop_name q, if k < 2 then Some (aop_operator_id q) else None)) (List.enumerate k ops))"
  by (induction ops arbitrary: k) (auto simp: read_sorted_operator)

lemma read_sorted_readings:
  "all_some read_reading (map sort_json (map reading_json rs)) =
     Some (map (\<lambda>q. (rd_sensor_id q, rd_value q, rd_unit q, rd_age_seconds q)) rs)"
  using all_some_map [of rs read_reading "\<lambda>r. sort_json (reading_json r)"] read_sorted_reading by (simp add: comp_def)

lemma read_sorted_asset:
  "\<exists>m. sort_json (asset_json p) = JObj m \<and> read_label m =
      Some (if ac_asset_name (ap_context p) \<noteq> [] then ac_asset_name (ap_context p)
            else if ac_asset_id (ap_context p) \<noteq> [] then ac_asset_id (ap_context p) else ap_asset_id p) \<and>
    j_get m ''criticality'' = JStr (ac_criticality (ap_context p)) \<and> j_get m ''site'' = JStr (ac_site (ap_context p)) \<and>
    j_get m ''maintenance_window'' = opt_str (ac_maintenance_window (ap_context p)) \<and>
    j_get_default m ''components'' d = JList (map JStr (ac_components (ap_context p))) \<and>
    read_parent m = Some (case sort_key asn_depth (ac_parent_systems (ap_context p)) of [] \<Rightarrow> None | n # _ \<Rightarrow> Some (asn_name n))"
  by (cases "sort_key asn_depth (ac_parent_systems (ap_context p))")
    (simp_all add: asset_json_def Let_def read_label_def read_parent_def j_get_def j_get_default_def or_empty_def
      node_json_def comp_def)

lemma read_sorted_anomaly:
  "\<exists>m. sort_json (anomaly_json g p) = JObj m \<and> map_of m ''severity'' = Some (JStr (ai_severity_value (ap_severity p))) \<and>
    map_of m ''transition'' = Some (JStr (ai_transition_value (ap_transition p))) \<and>
    map_of m ''sensor_id'' = Some (JStr (ar_sensor_id (ap_rule p))) \<and>
    map_of m ''observed_value'' = Some (JFloat (ar_observed_value (ap_rule p))) \<and>
    map_of m ''threshold'' = Some (JFloat (ar_threshold (ap_rule p))) \<and> j_get m ''unit'' = opt_str (ar_unit (ap_rule p)) \<and>
    j_get_default m ''exceeded_pct'' d = JFloat (ar_exceeded_pct (ap_rule p)) \<and>
    j_get_default m ''breach_count'' e = JInt (ap_breach_count p)"
  by (simp add: anomaly_json_def Let_def j_get_def j_get_default_def)

lemma read_sorted_snapshot:
  "\<exists>m. sort_json (snapshot_json t) = JObj m \<and> py_truthy (j_get_default m ''complete'' d) = ts_complete t \<and>
    j_get_default m ''readings'' e = JList (map sort_json (map reading_json (ts_readings t)))"
  by (simp add: snapshot_json_def j_get_default_def)

lemma read_sorted_constraints:
  "\<exists>m. sort_json (constraints_json x) = JObj m \<and> j_get_default m ''max_commands'' d = JInt (pc_max_commands x) \<and>
    j_get_default m ''allowed_actions'' e = JList (map JStr (map ai_action_value (pc_allowed_actions x))) \<and>
    py_truthy (j_get m ''context_degraded'') = ap_degraded (pc_payload x)"
  by (simp add: constraints_json_def j_get_def j_get_default_def)

lemma read_sorted_briefing:
  "\<exists>m. sort_json (briefing g x) = JObj m \<and> map_of m ''asset'' = Some (sort_json (asset_json (pc_payload x))) \<and>
    map_of m ''anomaly'' = Some (sort_json (anomaly_json g (pc_payload x))) \<and>
    map_of m ''constraints'' = Some (sort_json (constraints_json x)) \<and>
    j_get_default m ''operators'' d = JList (map sort_json (map operator_json (ai_escalation_chain (ap_context (pc_payload x))))) \<and>
    j_get_default m ''telemetry_snapshot'' e = sort_json (snapshot_json (ap_snapshot (pc_payload x)))"
  by (simp add: briefing_def Let_def j_get_default_def)

lemma read_sorted: "read_briefing (sort_json (briefing g x)) = Some (view_of x)"
proof -
  obtain b where b: "sort_json (briefing g x) = JObj b" "map_of b ''asset'' = Some (sort_json (asset_json (pc_payload x)))"
    "map_of b ''anomaly'' = Some (sort_json (anomaly_json g (pc_payload x)))"
    "map_of b ''constraints'' = Some (sort_json (constraints_json x))"
    "j_get_default b ''operators'' (JList []) =
       JList (map sort_json (map operator_json (ai_escalation_chain (ap_context (pc_payload x)))))"
    "j_get_default b ''telemetry_snapshot'' (JObj []) = sort_json (snapshot_json (ap_snapshot (pc_payload x)))"
    using read_sorted_briefing by blast
  obtain a where a: "sort_json (asset_json (pc_payload x)) = JObj a"
    "read_label a = Some (if ac_asset_name (ap_context (pc_payload x)) \<noteq> [] then ac_asset_name (ap_context (pc_payload x))
        else if ac_asset_id (ap_context (pc_payload x)) \<noteq> [] then ac_asset_id (ap_context (pc_payload x))
        else ap_asset_id (pc_payload x))"
    "j_get a ''criticality'' = JStr (ac_criticality (ap_context (pc_payload x)))"
    "j_get a ''site'' = JStr (ac_site (ap_context (pc_payload x)))"
    "j_get a ''maintenance_window'' = opt_str (ac_maintenance_window (ap_context (pc_payload x)))"
    "j_get_default a ''components'' (JList []) = JList (map JStr (ac_components (ap_context (pc_payload x))))"
    "read_parent a = Some (case sort_key asn_depth (ac_parent_systems (ap_context (pc_payload x))) of
        [] \<Rightarrow> None | n # _ \<Rightarrow> Some (asn_name n))"
    using read_sorted_asset by blast
  obtain n where n: "sort_json (anomaly_json g (pc_payload x)) = JObj n"
    "map_of n ''severity'' = Some (JStr (ai_severity_value (ap_severity (pc_payload x))))"
    "map_of n ''transition'' = Some (JStr (ai_transition_value (ap_transition (pc_payload x))))"
    "map_of n ''sensor_id'' = Some (JStr (ar_sensor_id (ap_rule (pc_payload x))))"
    "map_of n ''observed_value'' = Some (JFloat (ar_observed_value (ap_rule (pc_payload x))))"
    "map_of n ''threshold'' = Some (JFloat (ar_threshold (ap_rule (pc_payload x))))"
    "j_get n ''unit'' = opt_str (ar_unit (ap_rule (pc_payload x)))"
    "j_get_default n ''exceeded_pct'' (JInt 0) = JFloat (ar_exceeded_pct (ap_rule (pc_payload x)))"
    "j_get_default n ''breach_count'' (JInt 0) = JInt (ap_breach_count (pc_payload x))"
    using read_sorted_anomaly by blast
  obtain t where t: "sort_json (snapshot_json (ap_snapshot (pc_payload x))) = JObj t"
    "py_truthy (j_get_default t ''complete'' (JBool False)) = ts_complete (ap_snapshot (pc_payload x))"
    "j_get_default t ''readings'' (JList []) = JList (map sort_json (map reading_json (ts_readings (ap_snapshot (pc_payload x)))))"
    using read_sorted_snapshot by blast
  obtain c where c: "sort_json (constraints_json x) = JObj c" "j_get_default c ''max_commands'' (JInt 6) = JInt (pc_max_commands x)"
    "j_get_default c ''allowed_actions'' (JList []) = JList (map JStr (map ai_action_value (pc_allowed_actions x)))"
    "py_truthy (j_get c ''context_degraded'') = ap_degraded (pc_payload x)"
    using read_sorted_constraints by blast
  show ?thesis
    by (simp add: read_briefing_def b a n t c view_of_def Let_def all_some_strings read_sorted_operators read_sorted_readings
        del: map_map)
qed

section \<open>Lemmas on the derived commands\<close>

lemma add_command_cases:
  "add_command allowed m c cs = cs \<or>
   (ai_action_value (acm_action c) \<in> set allowed \<and> int (length cs) < m \<and>
    add_command allowed m c cs = cs @ [c\<lparr>acm_sequence := int (length cs) + 1\<rparr>])"
  by (auto simp: add_command_def)

lemma contiguous_snoc:
  "sequences_are_contiguous cs \<Longrightarrow> sequences_are_contiguous (cs @ [c\<lparr>acm_sequence := int (length cs) + 1\<rparr>])"
  by (simp add: sequences_are_contiguous_def)

definition drawn_from :: "string list \<Rightarrow> ai_command list \<Rightarrow> ai_command \<Rightarrow> bool" where
  "drawn_from allowed ps c \<longleftrightarrow>
     ai_action_value (acm_action c) \<in> set allowed \<and> (\<exists>p \<in> set ps. c = p\<lparr>acm_sequence := acm_sequence c\<rparr>)"

lemma fold_add_command:
  assumes "sequences_are_contiguous cs" "int (length cs) \<le> max 0 m" "list_all (drawn_from allowed qs) cs" "set ps \<subseteq> set qs"
  shows "sequences_are_contiguous (fold (add_command allowed m) ps cs) \<and>
    int (length (fold (add_command allowed m) ps cs)) \<le> max 0 m \<and>
    list_all (drawn_from allowed qs) (fold (add_command allowed m) ps cs)"
  using assms
proof (induction ps arbitrary: cs)
  case (Cons p ps)
  have "sequences_are_contiguous (add_command allowed m p cs) \<and> int (length (add_command allowed m p cs)) \<le> max 0 m \<and>
      list_all (drawn_from allowed qs) (add_command allowed m p cs)"
    using add_command_cases [of allowed m p cs]
  proof (elim disjE conjE)
    assume c: "ai_action_value (acm_action p) \<in> set allowed" "int (length cs) < m"
      "add_command allowed m p cs = cs @ [p\<lparr>acm_sequence := int (length cs) + 1\<rparr>]"
    have "drawn_from allowed qs (p\<lparr>acm_sequence := int (length cs) + 1\<rparr>)"
      using c(1) Cons.prems(4) by (auto simp: drawn_from_def intro!: bexI [of _ p])
    then show ?thesis unfolding c(3) using Cons.prems contiguous_snoc c(2) by simp
  qed (use Cons.prems in simp)
  then show ?case using Cons by simp
qed simp

lemma fold_add_first:
  assumes "ai_action_value (acm_action p) \<in> set allowed" "1 \<le> m"
  shows "\<exists>cs. fold (add_command allowed m) (p # ps) [] = p\<lparr>acm_sequence := 1\<rparr> # cs"
proof -
  have "\<exists>cs. fold (add_command allowed m) ps (c # acc) = c # cs" for c acc
    by (induction ps arbitrary: acc) (auto simp: add_command_def)
  then show ?thesis using assms by (simp add: add_command_def)
qed

lemma first_proposal_added:
  assumes "proposals g v = c # ps" "ai_action_value (acm_action c) \<in> set (bv_allowed v)" "1 \<le> bv_max_commands v"
  shows "\<exists>cs. derived_commands g v = c\<lparr>acm_sequence := 1\<rparr> # cs"
  using fold_add_first [OF assms(2,3), of ps] by (auto simp: derived_commands_def assms(1) Let_def)

lemma derived_commands_drawn:
  "sequences_are_contiguous (derived_commands g v) \<and> derived_commands g v \<noteq> [] \<and>
   int (length (derived_commands g v)) \<le> max 1 (bv_max_commands v) \<and>
   (derived_commands g v = [fallback_command v] \<or> list_all (drawn_from (bv_allowed v) (proposals g v)) (derived_commands g v))"
proof -
  have "sequences_are_contiguous []" "sequences_are_contiguous [fallback_command v]"
    by (simp_all add: sequences_are_contiguous_def fallback_command_def)
  then show ?thesis
    using fold_add_command [of "[]" "bv_max_commands v" "bv_allowed v" "proposals g v" "proposals g v"]
    by (auto simp: derived_commands_def Let_def)
qed

lemma sequences_positive: "sequences_are_contiguous cs \<Longrightarrow> c \<in> set cs \<Longrightarrow> 1 \<le> acm_sequence c"
proof -
  assume "sequences_are_contiguous cs" "c \<in> set cs"
  then have "acm_sequence c \<in> set (map int [1..<Suc (length cs)])"
    unfolding sequences_are_contiguous_def by (metis image_eqI list.set_map)
  then show ?thesis by (auto simp del: upt_Suc)
qed

lemma drawn_fields:
  "drawn_from allowed ps c \<Longrightarrow> \<exists>p \<in> set ps. acm_action c = acm_action p \<and> acm_priority c = acm_priority p \<and>
     acm_target_component c = acm_target_component p \<and> acm_assigned_to c = acm_assigned_to p \<and>
     acm_assigned_operator_id c = acm_assigned_operator_id p \<and> acm_expected_effect c = acm_expected_effect p \<and>
     acm_deadline_seconds c = acm_deadline_seconds p \<and> ai_action_value (acm_action c) \<in> set allowed"
  unfolding drawn_from_def by (metis ai_command.select_convs ai_command.surjective ai_command.update_convs(1))

text \<open>The names a plan acts on.\<close>

lemma first_match_member: "first_match ws cs = Some c \<Longrightarrow> c \<in> set cs"
  by (induction ws) (auto simp: find_Some_iff split: option.splits)

lemma view_target_member: "view_target v \<in> insert (bv_label v) (set (bv_components v))"
  using first_match_member by (auto simp: view_target_def select_component_def split: option.splits list.splits)

lemma view_primary_member: "fst (view_primary v) \<in> insert DUTY_DESK (fst ` set (bv_operators v))"
  by (auto simp: view_primary_def split: list.splits)

lemma view_notify_member: "view_notify v \<noteq> [] \<and> set (view_notify v) \<subseteq> insert DUTY_DESK (fst ` set (bv_operators v))"
  by (cases "bv_operators v") (auto simp: view_notify_def split: list.splits)

definition act_names :: "briefing_view \<Rightarrow> string set" where
  "act_names v = {view_target v, view_parent v, bv_label v}"

definition assignee_names :: "briefing_view \<Rightarrow> string set" where
  "assignee_names v = {fst (view_primary v), hd (view_notify v)}"

definition proposal_ok :: "briefing_view \<Rightarrow> ai_command \<Rightarrow> bool" where
  "proposal_ok v c \<longleftrightarrow>
     acm_target_component c \<in> act_names v \<and> acm_assigned_to c \<in> assignee_names v \<and>
     acm_expected_effect c \<noteq> [] \<and> 0 \<le> acm_deadline_seconds c \<and> acm_deadline_seconds c \<le> 604800 \<and>
     (acm_action c \<in> {AiIsolate, AiShutdown} \<longrightarrow> branch_of v = OnCritical) \<and>
     (acm_action c = AiShutdown \<longrightarrow> bv_criticality v = Some ''SAFETY_CRITICAL'')"

lemma proposals_ok: "p \<in> set (proposals g v) \<Longrightarrow> proposal_ok v p"
  by (cases "view_primary v")
    (auto simp: proposals_def cleared_proposals_def critical_proposals_def contained_proposals_def proposal_def Let_def
      proposal_ok_def act_names_def assignee_names_def split: plan_branch.splits if_splits)

lemma fallback_ok: "proposal_ok v (fallback_command v)"
  by (simp add: fallback_command_def proposal_def proposal_ok_def act_names_def assignee_names_def)

lemma derived_command_ok:
  assumes "c \<in> set (derived_commands g v)"
  shows "proposal_ok v c"
proof (cases "derived_commands g v = [fallback_command v]")
  case True
  then show ?thesis using assms fallback_ok by simp
next
  case False
  then have "drawn_from (bv_allowed v) (proposals g v) c"
    using derived_commands_drawn [of g v] assms by (auto simp: list_all_iff)
  then show ?thesis using proposals_ok [of _ g v] drawn_fields
    by (metis (no_types, opaque_lifting) proposal_ok_def)
qed

text \<open>Who is assigned, and by when.\<close>

definition proposal_ruled :: "briefing_view \<Rightarrow> ai_command \<Rightarrow> bool" where
  "proposal_ruled v c \<longleftrightarrow>
     (acm_assigned_to c \<in> fst ` set (bv_operators v) \<or>
      acm_assigned_to c = DUTY_DESK \<and>
        (bv_operators v = [] \<or> length (bv_operators v) = 1 \<and> acm_action c = AiNotify)) \<and>
     300 \<le> acm_deadline_seconds c \<and> acm_deadline_seconds c \<le> 86400 \<and>
     (branch_of v = OnCritical \<longrightarrow> acm_deadline_seconds c \<le> 1800)"

lemma view_notify_first:
  "hd (view_notify v) \<in> fst ` set (bv_operators v) \<or>
   hd (view_notify v) = DUTY_DESK \<and> (bv_operators v = [] \<or> length (bv_operators v) = 1)"
  by (cases "bv_operators v"; cases "tl (bv_operators v)") (auto simp: view_notify_def)

lemma view_primary_first:
  "fst (view_primary v) \<in> fst ` set (bv_operators v) \<or> fst (view_primary v) = DUTY_DESK \<and> bv_operators v = []"
  by (cases "bv_operators v") (auto simp: view_primary_def)

lemma proposal_ruledI:
  assumes "n \<in> fst ` set (bv_operators v) \<or>
      n = DUTY_DESK \<and> (bv_operators v = [] \<or> length (bv_operators v) = 1 \<and> action = AiNotify)"
    and "300 \<le> deadline" "deadline \<le> 86400" "branch_of v = OnCritical \<Longrightarrow> deadline \<le> 1800"
  shows "proposal_ruled v (proposal action priority component n i effect rollback deadline parameters)"
  using assms by (simp add: proposal_ruled_def proposal_def)

lemma proposals_ruled:
  assumes "p \<in> set (proposals g v)"
  shows "proposal_ruled v p"
proof -
  obtain n i where n: "view_primary v = (n, i)" by fastforce
  have prim: "n \<in> fst ` set (bv_operators v) \<or>
      n = DUTY_DESK \<and> (bv_operators v = [] \<or> length (bv_operators v) = 1 \<and> action = AiNotify)" for action
    using view_primary_first [of v] by (auto simp: n)
  have desk: "hd (view_notify v) \<in> fst ` set (bv_operators v) \<or>
      hd (view_notify v) = DUTY_DESK \<and>
        (bv_operators v = [] \<or> length (bv_operators v) = 1 \<and> AiNotify = AiNotify)"
    using view_notify_first [of v] by simp
  note rules = proposal_ruledI [OF prim] proposal_ruledI [OF desk]
  show ?thesis
  proof (cases "branch_of v")
    case OnCleared
    then have "list_all (proposal_ruled v) (proposals g v)"
      by (simp add: proposals_def cleared_proposals_def n Let_def) (intro conjI impI rules; simp add: OnCleared)
    then show ?thesis using assms by (simp add: list_all_iff)
  next
    case OnCritical
    then have "list_all (proposal_ruled v) (proposals g v)"
      by (simp add: proposals_def critical_proposals_def n Let_def) (intro conjI impI rules; simp add: OnCritical)
    then show ?thesis using assms by (simp add: list_all_iff)
  next
    case OnContained
    then have "list_all (proposal_ruled v) (proposals g v)"
      by (simp add: proposals_def contained_proposals_def n Let_def) (intro conjI impI rules; simp add: OnContained)
    then show ?thesis using assms by (simp add: list_all_iff)
  qed
qed

lemma fallback_ruled: "proposal_ruled v (fallback_command v)"
  using view_primary_first [of v] by (auto simp: fallback_command_def proposal_def proposal_ruled_def)

lemma derived_command_ruled:
  assumes "c \<in> set (derived_commands g v)"
  shows "proposal_ruled v c"
proof (cases "derived_commands g v = [fallback_command v]")
  case True
  then show ?thesis using assms fallback_ruled by simp
next
  case False
  then have "drawn_from (bv_allowed v) (proposals g v) c"
    using derived_commands_drawn [of g v] assms by (auto simp: list_all_iff)
  then show ?thesis using proposals_ruled [of _ g v] drawn_fields
    by (metis (no_types, opaque_lifting) proposal_ruled_def)
qed

lemma derived_action_allowed:
  "c \<in> set (derived_commands g v) \<Longrightarrow> ai_action_value (acm_action c) \<in> set (bv_allowed v) \<or> acm_action c = AiNotify"
  using derived_commands_drawn [of g v] drawn_fields
  by (auto simp: list_all_iff fallback_command_def proposal_def)

lemma derived_confidence_range: "0 \<le> derived_confidence v \<and> derived_confidence v \<le> 1"
  by (auto simp: derived_confidence_def Let_def)

lemma derived_confidence_lowered:
  "(bv_degraded v \<longrightarrow> derived_confidence v < derived_confidence (v\<lparr>bv_degraded := False\<rparr>)) \<and>
   (\<not> bv_complete v \<longrightarrow> derived_confidence v < derived_confidence (v\<lparr>bv_complete := True\<rparr>))"
proof -
  have b: "branch_of (v\<lparr>bv_degraded := False\<rparr>) = branch_of v" "branch_of (v\<lparr>bv_complete := True\<rparr>) = branch_of v"
    by (simp_all add: branch_of_def)
  have r: "py_round (13 / 25 :: rat) 2 = 13 / 25" "py_round (71 / 100 :: rat) 2 = 71 / 100"
    "py_round (29 / 50 :: rat) 2 = 29 / 50" "py_round (67 / 100 :: rat) 2 = 67 / 100"
    "py_round (43 / 50 :: rat) 2 = 43 / 50" "py_round (73 / 100 :: rat) 2 = 73 / 100"
    "py_round (47 / 100 :: rat) 2 = 47 / 100" "py_round (33 / 50 :: rat) 2 = 33 / 50"
    "py_round (53 / 100 :: rat) 2 = 53 / 100"
    by code_simp+
  show ?thesis
    by (cases "branch_of v"; cases "bv_degraded v"; cases "bv_complete v") (simp_all add: derived_confidence_def b r)
qed

text \<open>A plan is valid when no name it acts on is empty and the summary is within its limit.\<close>

lemma derived_plan_valid:
  assumes "[] \<notin> act_names v" "[] \<notin> assignee_names v" "length (derived_summary g v) \<le> 2000"
  shows "llm_plan_ok (derive_plan g v)"
proof -
  have "ai_command_ok c" if "c \<in> set (derived_commands g v)" for c
  proof -
    have "1 \<le> acm_sequence c"
      using derived_commands_drawn [of g v] that sequences_positive by blast
    then show ?thesis using derived_command_ok [OF that] assms by (auto simp: proposal_ok_def ai_command_ok_def)
  qed
  then show ?thesis
    using derived_commands_drawn [of g v] derived_confidence_range [of v] assms(3)
    by (auto simp: llm_plan_ok_def derive_plan_def list_all_iff ai_escalation_ok_def derived_escalation_def derived_summary_def
        split: plan_branch.splits)
qed

section \<open>Names of the context\<close>

text \<open>What the view draws on are names of the payload.\<close>

definition payload_label :: "ai_payload \<Rightarrow> string" where
  "payload_label p =
     (let c = ap_context p in
      if ac_asset_name c \<noteq> [] then ac_asset_name c else if ac_asset_id c \<noteq> [] then ac_asset_id c else ap_asset_id p)"

definition payload_names :: "ai_payload \<Rightarrow> string set" where
  "payload_names p =
     insert (payload_label p) (set (ac_components (ap_context p)) \<union> asn_name ` set (ac_parent_systems (ap_context p)))"

definition operator_names :: "ai_payload \<Rightarrow> string set" where
  "operator_names p = insert DUTY_DESK (aop_name ` set (ac_assigned_operators (ap_context p)))"

lemma view_of_label: "bv_label (view_of x) = payload_label (pc_payload x)"
  by (simp add: view_of_def payload_label_def Let_def)

lemma view_of_fields:
  "bv_components (view_of x) = ac_components (ap_context (pc_payload x))"
  "bv_parent_name (view_of x) =
     (case sort_key asn_depth (ac_parent_systems (ap_context (pc_payload x))) of [] \<Rightarrow> None | n # _ \<Rightarrow> Some (asn_name n))"
  "bv_operators (view_of x) = map (\<lambda>(k, q). (aop_name q, if k < 2 then Some (aop_operator_id q) else None))
     (List.enumerate 0 (ai_escalation_chain (ap_context (pc_payload x))))"
  by (simp_all add: view_of_def Let_def)

lemma view_act_names: "act_names (view_of x) \<subseteq> payload_names (pc_payload x)"
proof -
  have "view_target (view_of x) \<in> payload_names (pc_payload x)"
    using view_target_member [of "view_of x"] by (auto simp: payload_names_def view_of_label view_of_fields)
  moreover have "view_parent (view_of x) \<in> payload_names (pc_payload x)"
  proof (cases "sort_key asn_depth (ac_parent_systems (ap_context (pc_payload x)))")
    case Nil
    then show ?thesis by (simp add: view_parent_def payload_names_def view_of_label view_of_fields)
  next
    case (Cons n ns)
    then have "n \<in> set (ac_parent_systems (ap_context (pc_payload x)))" by (metis list.set_intros(1) set_sort)
    then show ?thesis using Cons by (auto simp: view_parent_def payload_names_def view_of_fields)
  qed
  ultimately show ?thesis by (simp add: act_names_def payload_names_def view_of_label)
qed

lemma view_operator_names: "fst ` set (bv_operators (view_of x)) = aop_name ` set (ac_assigned_operators (ap_context (pc_payload x)))"
proof -
  have ops: "fst ` set (map (\<lambda>(k, q). (aop_name q, if k < 2 then Some (aop_operator_id q) else None)) (List.enumerate n ops)) =
      aop_name ` set ops" for n ops
    by (induction ops arbitrary: n) auto
  show ?thesis unfolding view_of_fields ops by (simp add: ai_escalation_chain_def)
qed

lemma view_operator_count:
  "length (bv_operators (view_of x)) = length (ac_assigned_operators (ap_context (pc_payload x)))"
  "bv_operators (view_of x) = [] \<longleftrightarrow> ac_assigned_operators (ap_context (pc_payload x)) = []"
proof -
  show l: "length (bv_operators (view_of x)) = length (ac_assigned_operators (ap_context (pc_payload x)))"
    by (simp add: view_of_fields ai_escalation_chain_def)
  show "bv_operators (view_of x) = [] \<longleftrightarrow> ac_assigned_operators (ap_context (pc_payload x)) = []"
    using l by (metis length_0_conv)
qed

lemma view_assignees: "assignee_names (view_of x) \<subseteq> operator_names (pc_payload x)"
proof -
  have "hd (view_notify (view_of x)) \<in> insert DUTY_DESK (fst ` set (bv_operators (view_of x)))"
    using view_notify_member [of "view_of x"] hd_in_set by blast
  then show ?thesis
    using view_primary_member [of "view_of x"] by (simp add: view_operator_names assignee_names_def operator_names_def)
qed

lemma branch_view_of:
  "branch_of (view_of x) =
     (if ap_transition (pc_payload x) = Cleared then OnCleared
      else if ap_severity (pc_payload x) = SevCriticalAi then OnCritical else OnContained)"
  by (cases "ap_transition (pc_payload x)"; cases "ap_severity (pc_payload x)") (simp_all add: branch_of_def view_of_def Let_def)

section \<open>Properties\<close>

text \<open>
  C6: Round trip of the prompt.  What the service renders for the model is what the offline provider plans
  from: as long as no text of the payload contains a backtick, the briefing found between the fences is the
  one that was printed, and the provider's plan is the plan of the typed context.  A float is assumed to be
  printed as a number that reads back as itself.
\<close>
theorem prompt_round_trip:
  "json_wf (float_text pf f) (briefing g x) \<Longrightarrow> backtick_free g x \<Longrightarrow>
   extract_briefing pf (render_user g f x) = Some (sort_json (briefing g x)) \<and>
   (\<exists>inputs outputs. mock_complete latency_ms g pf plan_length model render_system (render_user g f x)
        COMMAND_SEQUENCE_TOOL =
      (of_int latency_ms / 1000,
       ToolCalled \<lparr>tc_input = Some (derive_plan g (view_of x)), tc_model = model, tc_input_tokens = inputs,
                   tc_output_tokens = outputs\<rparr>))"
  using extract_rendered read_sorted by (simp add: mock_complete_def Let_def)

text \<open>
  C18: The deterministic plan keeps these rules of the system prompt.  It isolates only at critical severity and
  before the anomaly has cleared, and shuts down only a safety-critical asset; every target is a component, a
  parent system or the asset itself; every action is permitted or a notification; the commands are
  numbered from one, at least one and at most max_commands; the deadlines of a critical plan are within
  half an hour; degraded context and an incomplete snapshot each lower the confidence.  Every assignee is
  an assigned operator, save that the duty desk is assigned where there is none and is notified where
  there is only one.  It does not keep the rule that a plan without operators requires an escalation
  (theorem unassigned_plan_not_escalated), nor that of deadlines in hours outside the critical case: a
  throttle is due within 15 minutes, so that only the bounds of 5 minutes and one day are claimed.
\<close>
theorem offline_plan_policy:
  "1 \<le> pc_max_commands x \<Longrightarrow> plan = derive_plan g (view_of x) \<Longrightarrow>
   commands = lp_commands plan \<Longrightarrow> p = pc_payload x \<Longrightarrow> operators = ac_assigned_operators (ap_context p) \<Longrightarrow>
   commands \<noteq> [] \<and> int (length commands) \<le> pc_max_commands x \<and> sequences_are_contiguous commands \<and>
   (\<forall>c \<in> set commands.
      (acm_action c \<in> {AiIsolate, AiShutdown} \<longrightarrow> ap_severity p = SevCriticalAi \<and> ap_transition p \<noteq> Cleared) \<and>
      (acm_action c = AiShutdown \<longrightarrow> ac_criticality (ap_context p) = ''SAFETY_CRITICAL'') \<and>
      (acm_action c \<in> set (pc_allowed_actions x) \<or> acm_action c = AiNotify) \<and>
      acm_target_component c \<in> payload_names p \<and>
      (acm_assigned_to c \<in> aop_name ` set operators \<or>
       acm_assigned_to c = DUTY_DESK \<and> (operators = [] \<or> length operators = 1 \<and> acm_action c = AiNotify)) \<and>
      300 \<le> acm_deadline_seconds c \<and> acm_deadline_seconds c \<le> 86400 \<and>
      (ap_severity p = SevCriticalAi \<and> ap_transition p \<noteq> Cleared \<longrightarrow> acm_deadline_seconds c \<le> 1800)) \<and>
   (ap_degraded p \<longrightarrow> lp_confidence plan < lp_confidence (derive_plan g ((view_of x)\<lparr>bv_degraded := False\<rparr>))) \<and>
   (\<not> ts_complete (ap_snapshot p) \<longrightarrow>
      lp_confidence plan < lp_confidence (derive_plan g ((view_of x)\<lparr>bv_complete := True\<rparr>)))"
proof -
  assume m: "1 \<le> pc_max_commands x" and plan: "plan = derive_plan g (view_of x)" and c: "commands = lp_commands plan"
    and p: "p = pc_payload x" and o: "operators = ac_assigned_operators (ap_context p)"
  have commands: "commands = derived_commands g (view_of x)" by (simp add: c plan derive_plan_def)
  have view: "bv_max_commands (view_of x) = pc_max_commands x" "bv_allowed (view_of x) = map ai_action_value (pc_allowed_actions x)"
    "bv_criticality (view_of x) = Some (ac_criticality (ap_context p))"
    "bv_degraded (view_of x) = ap_degraded p" "bv_complete (view_of x) = ts_complete (ap_snapshot p)"
    by (simp_all add: view_of_def Let_def p)
  have inj: "ai_action_value a = ai_action_value b \<longleftrightarrow> a = b" for a b by (cases a; cases b) simp_all
  have each: "(acm_action k \<in> {AiIsolate, AiShutdown} \<longrightarrow> ap_severity p = SevCriticalAi \<and> ap_transition p \<noteq> Cleared) \<and>
      (acm_action k = AiShutdown \<longrightarrow> ac_criticality (ap_context p) = ''SAFETY_CRITICAL'') \<and>
      (acm_action k \<in> set (pc_allowed_actions x) \<or> acm_action k = AiNotify) \<and> acm_target_component k \<in> payload_names p"
    if "k \<in> set commands" for k
  proof -
    have ok: "proposal_ok (view_of x) k" using derived_command_ok that by (simp add: commands)
    moreover have "acm_action k \<in> set (pc_allowed_actions x) \<or> acm_action k = AiNotify"
      using derived_action_allowed [of k g "view_of x"] that by (auto simp: commands view(2) inj)
    ultimately show ?thesis using view_act_names [of x]
      by (auto simp: proposal_ok_def view(3) branch_view_of p split: if_splits)
  qed
  have rules: "(acm_assigned_to k \<in> aop_name ` set operators \<or>
       acm_assigned_to k = DUTY_DESK \<and> (operators = [] \<or> length operators = 1 \<and> acm_action k = AiNotify)) \<and>
      300 \<le> acm_deadline_seconds k \<and> acm_deadline_seconds k \<le> 86400 \<and>
      (ap_severity p = SevCriticalAi \<and> ap_transition p \<noteq> Cleared \<longrightarrow> acm_deadline_seconds k \<le> 1800)"
    if "k \<in> set commands" for k
    using derived_command_ruled [of k g "view_of x"] that
    by (auto simp: commands proposal_ruled_def view_operator_names view_operator_count branch_view_of p o)
  have low: "lp_confidence (derive_plan g v) = derived_confidence v" for v by (simp add: derive_plan_def)
  have "max 1 (pc_max_commands x) = pc_max_commands x" using m by simp
  then have shape: "commands \<noteq> [] \<and> int (length commands) \<le> pc_max_commands x \<and> sequences_are_contiguous commands"
    using derived_commands_drawn [of g "view_of x"] by (simp add: commands view(1))
  show ?thesis
    using shape each rules derived_confidence_lowered [of "view_of x"] unfolding plan low view by blast
qed

text \<open>
  C28: The offline service answers.  Assume that the latency it simulates is below the planner's deadline,
  that a float is printed as a number that reads back as itself, that no text of the payload has a
  backtick, that asset, components, parent systems and operators all have names and that the summary fits
  in 2000 characters.  Then the payload gets a plan, and the plan is the derived one with nothing changed.
\<close>
theorem offline_planner_answers:
  "of_int latency_ms / 1000 < timeout \<Longrightarrow>
   json_wf (float_text pf f) (briefing g x) \<Longrightarrow> backtick_free g x \<Longrightarrow>
   [] \<notin> payload_names (pc_payload x) \<Longrightarrow> [] \<notin> operator_names (pc_payload x) \<Longrightarrow>
   length (derived_summary g (view_of x)) \<le> 2000 \<Longrightarrow>
   \<exists>r. planner_plan g f (mock_complete latency_ms g pf plan_length) model timeout ms x = Inr r \<and>
     pr_plan r = derive_plan g (view_of x) \<and> pr_model r = model \<and> llm_plan_ok (pr_plan r)"
proof -
  assume fast: "of_int latency_ms / 1000 < timeout"
    and wf: "json_wf (float_text pf f) (briefing g x)" and free: "backtick_free g x"
    and n: "[] \<notin> payload_names (pc_payload x)" "[] \<notin> operator_names (pc_payload x)"
    and len: "length (derived_summary g (view_of x)) \<le> 2000"
  have "llm_plan_ok (derive_plan g (view_of x))"
    using derived_plan_valid n len view_act_names [of x] view_assignees [of x] by blast
  then show ?thesis
    using extract_rendered [OF wf free] read_sorted fast
    by (simp add: planner_plan_def mock_complete_def overruns_def Let_def)
qed

text \<open>
  The settings accept a simulated latency up to the deadline and beyond.  Under such settings the offline
  service never answers: whatever is in the payload, the planner times out.
\<close>
theorem slow_planner_never_answers:
  "0 < latency_ms \<Longrightarrow> timeout \<le> of_int latency_ms / 1000 \<Longrightarrow>
   planner_plan g f (mock_complete latency_ms g pf plan_length) model timeout ms x = Inl PlannerTimedOut"
  by (simp add: planner_plan_def mock_complete_def overruns_def)

text \<open>
  One empty name is enough to never get a plan.  The contract of the payload accepts an operator without a
  name; when such an operator is first in the escalation chain, every plan the offline provider derives is
  refused as malformed, on each redelivery of the mutation again, unless it times out before.
\<close>
theorem nameless_operator_gets_no_plan:
  "json_wf (float_text pf f) (briefing g x) \<Longrightarrow> backtick_free g x \<Longrightarrow>
   ai_escalation_chain (ap_context (pc_payload x)) = q # qs \<Longrightarrow> aop_name q = [] \<Longrightarrow>
   1 \<le> pc_max_commands x \<Longrightarrow> pc_allowed_actions x = DEFAULT_ALLOWED_ACTIONS \<Longrightarrow>
   \<exists>e. planner_plan g f (mock_complete latency_ms g pf plan_length) model timeout ms x = Inl e \<and>
     (of_int latency_ms / 1000 < timeout \<longrightarrow> e = PlannerMalformed)"
proof -
  assume wf: "json_wf (float_text pf f) (briefing g x)" and free: "backtick_free g x"
    and q: "ai_escalation_chain (ap_context (pc_payload x)) = q # qs" "aop_name q = []"
    and m: "1 \<le> pc_max_commands x" and all: "pc_allowed_actions x = DEFAULT_ALLOWED_ACTIONS"
  have primary: "fst (view_primary (view_of x)) = []"
    using q by (simp add: view_primary_def view_of_def Let_def)
  have "\<exists>c ps. proposals g (view_of x) = c # ps \<and> acm_assigned_to c = fst (view_primary (view_of x))"
    by (cases "view_primary (view_of x)")
      (auto simp: proposals_def cleared_proposals_def critical_proposals_def contained_proposals_def proposal_def Let_def
        split: plan_branch.splits)
  then obtain c ps where c: "proposals g (view_of x) = c # ps" "acm_assigned_to c = []" using primary by auto
  have "ai_action_value (acm_action c) \<in> set (bv_allowed (view_of x))"
    by (cases "acm_action c") (simp_all add: view_of_def Let_def all DEFAULT_ALLOWED_ACTIONS_def)
  moreover have "1 \<le> bv_max_commands (view_of x)" using m by (simp add: view_of_def Let_def)
  ultimately obtain cs where "derived_commands g (view_of x) = c\<lparr>acm_sequence := 1\<rparr> # cs"
    using first_proposal_added [OF c(1)] by blast
  then have "\<not> llm_plan_ok (derive_plan g (view_of x))"
    using c(2) by (simp add: llm_plan_ok_def derive_plan_def ai_command_ok_def)
  then show ?thesis
    using extract_rendered [OF wf free] read_sorted
    by (simp add: planner_plan_def mock_complete_def overruns_def Let_def)
qed

text \<open>
  A degraded graph does not soften the plan.  At critical severity the first command isolates, and the
  commands are the same whatever the payload says of degradation, of the replicas' observations and of the
  process flow; degradation lowers the confidence only.  The policy note about preferring inspection and the
  downgrade that topology_is_contested describes have no effect on this planner.
\<close>
theorem degraded_context_still_isolates:
  "ap_severity (pc_payload x) = SevCriticalAi \<Longrightarrow> ap_transition (pc_payload x) \<noteq> Cleared \<Longrightarrow>
   AiIsolate \<in> set (pc_allowed_actions x) \<Longrightarrow> 1 \<le> pc_max_commands x \<Longrightarrow>
   y = x\<lparr>pc_payload := (pc_payload x)\<lparr>ap_degraded := degraded, ap_degraded_reason := reason,
          ap_context := (ap_context (pc_payload x))\<lparr>ac_replica_observations := observations,
            ac_upstream_dependencies := upstream, ac_downstream_impacts := downstream, ac_blast_radius := radius\<rparr>\<rparr>,
        pc_policy_notes := policy\<rparr> \<Longrightarrow>
   lp_commands (derive_plan g (view_of y)) = lp_commands (derive_plan g (view_of x)) \<and>
   acm_action (hd (lp_commands (derive_plan g (view_of y)))) = AiIsolate"
proof -
  assume sev: "ap_severity (pc_payload x) = SevCriticalAi" "ap_transition (pc_payload x) \<noteq> Cleared"
    and al: "AiIsolate \<in> set (pc_allowed_actions x)" and m: "1 \<le> pc_max_commands x"
    and y: "y = x\<lparr>pc_payload := (pc_payload x)\<lparr>ap_degraded := degraded, ap_degraded_reason := reason,
          ap_context := (ap_context (pc_payload x))\<lparr>ac_replica_observations := observations,
            ac_upstream_dependencies := upstream, ac_downstream_impacts := downstream, ac_blast_radius := radius\<rparr>\<rparr>,
        pc_policy_notes := policy\<rparr>"
  have view: "view_of y = (view_of x)\<lparr>bv_degraded := degraded\<rparr>"
    by (simp add: y view_of_def ai_escalation_chain_def Let_def)
  have parts: "view_target (v\<lparr>bv_degraded := d\<rparr>) = view_target v" "view_parent (v\<lparr>bv_degraded := d\<rparr>) = view_parent v"
    "view_primary (v\<lparr>bv_degraded := d\<rparr>) = view_primary v" "view_notify (v\<lparr>bv_degraded := d\<rparr>) = view_notify v"
    "view_second_id (v\<lparr>bv_degraded := d\<rparr>) = view_second_id v" "sensor_label (v\<lparr>bv_degraded := d\<rparr>) = sensor_label v"
    "magnitude g (v\<lparr>bv_degraded := d\<rparr>) = magnitude g v" "view_unit (v\<lparr>bv_degraded := d\<rparr>) = view_unit v"
    "branch_of (v\<lparr>bv_degraded := d\<rparr>) = branch_of v"
    "bv_label (v\<lparr>bv_degraded := d\<rparr>) = bv_label v" "bv_maintenance_window (v\<lparr>bv_degraded := d\<rparr>) = bv_maintenance_window v"
    "bv_sensor_id (v\<lparr>bv_degraded := d\<rparr>) = bv_sensor_id v" "bv_observed_json (v\<lparr>bv_degraded := d\<rparr>) = bv_observed_json v"
    "bv_criticality (v\<lparr>bv_degraded := d\<rparr>) = bv_criticality v" "bv_exceeded_pct (v\<lparr>bv_degraded := d\<rparr>) = bv_exceeded_pct v"
    "bv_threshold (v\<lparr>bv_degraded := d\<rparr>) = bv_threshold v" for v d
    by (simp_all add: view_target_def view_parent_def view_primary_def view_notify_def view_second_id_def sensor_label_def
        magnitude_def view_unit_def branch_of_def split: option.splits)
  have same: "derived_commands g (v\<lparr>bv_degraded := d\<rparr>) = derived_commands g v" for v d
  proof -
    have "proposals g (v\<lparr>bv_degraded := d\<rparr>) = proposals g v"
      unfolding proposals_def cleared_proposals_def critical_proposals_def contained_proposals_def parts ..
    moreover have "fallback_command (v\<lparr>bv_degraded := d\<rparr>) = fallback_command v" unfolding fallback_command_def parts ..
    ultimately show ?thesis by (simp add: derived_commands_def Let_def)
  qed
  have branch: "branch_of (view_of x) = OnCritical" using sev by (simp add: branch_view_of)
  obtain c ps where c: "proposals g (view_of x) = c # ps" "acm_action c = AiIsolate"
    by (cases "view_primary (view_of x)") (simp add: proposals_def branch critical_proposals_def proposal_def Let_def)
  have "ai_action_value (acm_action c) \<in> set (bv_allowed (view_of x))" "1 \<le> bv_max_commands (view_of x)"
    using al m c(2) by (simp_all add: view_of_def Let_def) (metis ai_action_value.simps(1) image_eqI)
  then obtain cs where "derived_commands g (view_of x) = c\<lparr>acm_sequence := 1\<rparr> # cs"
    using first_proposal_added [OF c(1)] by blast
  then show ?thesis by (simp add: view same derive_plan_def c(2))
qed

text \<open>
  A fence inside the asset's name wins.  The offline provider takes the leftmost fenced object of the
  prompt, and the headline prints the asset's name before the briefing: a name that carries a fenced object of
  its own is planned from instead of the briefing.
\<close>
theorem injected_fence_wins:
  "ac_asset_name (ap_context (pc_payload x)) =
     FENCE @ ''json'' @ NL # CHR ''{'' # body @ CHR ''}'' # NL # FENCE @ suffix \<Longrightarrow>
   CHR ''`'' \<notin> set body \<Longrightarrow>
   extract_briefing pf (render_user g f x) = json_loads pf (CHR ''{'' # body @ [CHR ''}''])"
proof -
  assume name: "ac_asset_name (ap_context (pc_payload x)) =
      FENCE @ ''json'' @ NL # CHR ''{'' # body @ CHR ''}'' # NL # FENCE @ suffix"
    and body: "CHR ''`'' \<notin> set body"
  let ?p = "pc_payload x"
  let ?pre = "ai_severity_value (ap_severity ?p) @ '' '' @ ai_transition_value (ap_transition ?p) @ '' on ''"
  have "\<exists>post. render_user g f x = ?pre @ ac_asset_name (ap_context ?p) @ post"
  proof -
    have "\<exists>post. headline g ?p = ?pre @ ac_asset_name (ap_context ?p) @ post"
      by (simp add: headline_def Let_def name)
    moreover have "\<exists>w ws. situation g ?p = headline g ?p # w # ws" by (simp add: situation_def Let_def)
    ultimately show ?thesis by (auto simp: render_user_def)
  qed
  then obtain post where whole: "render_user g f x =
      ?pre @ FENCE @ ''json'' @ NL # CHR ''{'' # body @ CHR ''}'' # (NL # FENCE @ suffix @ post)"
    by (auto simp: name)
  have "find_fenced (render_user g f x) = Some (CHR ''{'' # body @ [CHR ''}''])"
    unfolding whole
  proof (rule find_fenced_found [OF _ body])
    show "CHR ''`'' \<notin> set ?pre" by (cases "ap_severity ?p"; cases "ap_transition ?p") simp_all
    show "str_startswith (dropWhile is_space (NL # FENCE @ suffix @ post)) FENCE"
      by (simp add: NL_def is_space_def FENCE_def str_startswith_def)
  qed
  then show ?thesis by (simp add: extract_briefing_def)
qed

text \<open>
  A plan nobody is assigned to is not escalated.  Without operators every command goes to the duty desk;
  the system prompt asks for an escalation in that case, but the deterministic plan requires one only when it
  is critical.
\<close>
theorem unassigned_plan_not_escalated:
  "ac_assigned_operators (ap_context (pc_payload x)) = [] \<Longrightarrow>
   list_all (\<lambda>c. acm_assigned_to c = DUTY_DESK \<and> acm_assigned_operator_id c = None) (lp_commands (derive_plan g (view_of x))) \<and>
   (aes_required (lp_escalation (derive_plan g (view_of x))) \<longleftrightarrow>
      ap_severity (pc_payload x) = SevCriticalAi \<and> ap_transition (pc_payload x) \<noteq> Cleared)"
proof -
  assume none: "ac_assigned_operators (ap_context (pc_payload x)) = []"
  have ops: "bv_operators (view_of x) = []" by (simp add: view_of_fields ai_escalation_chain_def none)
  have desk: "view_primary (view_of x) = (DUTY_DESK, None)" "view_notify (view_of x) = [DUTY_DESK]" "view_second_id (view_of x) = None"
    by (simp_all add: ops view_primary_def view_notify_def view_second_id_def)
  have p: "acm_assigned_to q = DUTY_DESK \<and> acm_assigned_operator_id q = None" if "q \<in> set (proposals g (view_of x))" for q
    using that
    by (auto simp: proposals_def cleared_proposals_def critical_proposals_def contained_proposals_def proposal_def Let_def desk
        split: plan_branch.splits if_splits)
  have "list_all (\<lambda>c. acm_assigned_to c = DUTY_DESK \<and> acm_assigned_operator_id c = None) (derived_commands g (view_of x))"
  proof (cases "derived_commands g (view_of x) = [fallback_command (view_of x)]")
    case True
    then show ?thesis by (simp add: fallback_command_def proposal_def desk)
  next
    case False
    then have "list_all (drawn_from (bv_allowed (view_of x)) (proposals g (view_of x))) (derived_commands g (view_of x))"
      using derived_commands_drawn [of g "view_of x"] by blast
    then show ?thesis using p drawn_fields unfolding list_all_iff by metis
  qed
  then show ?thesis by (auto simp: derive_plan_def derived_escalation_def branch_view_of)
qed

section \<open>Witnesses\<close>

definition demo_reading :: sensor_reading where
  "demo_reading =
     \<lparr>rd_sensor_id = ''vibration_index'', rd_value = 9 / 2, rd_unit = Some ''mm/s'', rd_observed_at = ''t0'',
      rd_age_seconds = 9 / 2\<rparr>"

definition demo_ai_operator :: "string \<Rightarrow> ai_operator" where
  "demo_ai_operator name =
     \<lparr>aop_operator_id = ''op-1'', aop_name = name, aop_role = ''lead'', aop_shift = None, aop_contact = None,
      aop_escalation_order = 0\<rparr>"

definition demo_ai_context :: "string \<Rightarrow> string list \<Rightarrow> ai_context" where
  "demo_ai_context name operators =
     \<lparr>ac_asset_id = ''pump-7'', ac_asset_name = name, ac_asset_class = ''pump'', ac_site = ''hall'',
      ac_criticality = ''SAFETY_CRITICAL'',
      ac_parent_systems = [\<lparr>asn_node_id = ''sys'', asn_name = ''Cooling loop'', asn_type = ''SYSTEM'', asn_depth = 1\<rparr>],
      ac_components = [''seal'', ''main bearing''], ac_assigned_operators = map demo_ai_operator operators,
      ac_maintenance_window = None, ac_resolved_at = None, ac_source = ''graph'', ac_model_number = [],
      ac_upstream_dependencies = [], ac_downstream_impacts = [], ac_blast_radius = 0, ac_replica_observations = [],
      ac_cache_hit = False\<rparr>"

definition demo_ai_payload :: "ai_severity \<Rightarrow> string \<Rightarrow> string list \<Rightarrow> ai_payload" where
  "demo_ai_payload severity name operators =
     \<lparr>ap_event_id = ''e1'', ap_schema_version = ''openontology.mutation.v2'', ap_producer = ''engine'',
      ap_emitted_at = ''t0'', ap_asset_id = ''pump-7'', ap_transition = Raised, ap_severity = severity,
      ap_anomaly_active_since = None, ap_breach_count = 3,
      ap_rule = \<lparr>ar_rule_id = ''r1'', ar_sensor_id = ''vibration_index'', ar_operator = ''>'', ar_threshold = 9 / 2,
                 ar_unit = Some ''mm/s'', ar_observed_value = 9 / 2, ar_exceeded_by = 9 / 2, ar_exceeded_pct = 9 / 2,
                 ar_description = None\<rparr>,
      ap_snapshot = \<lparr>ts_trigger = demo_reading, ts_readings = [demo_reading], ts_captured_at = ''t0'', ts_complete = True\<rparr>,
      ap_context = demo_ai_context name operators, ap_degraded = False, ap_degraded_reason = None,
      ap_source_partition = None, ap_source_offset = None, ap_origin_replica = None, ap_lamport_clock = 0,
      ap_graph_revision = None\<rparr>"

definition demo_prompt :: "ai_severity \<Rightarrow> string \<Rightarrow> string list \<Rightarrow> prompt_context" where
  "demo_prompt severity name operators =
     \<lparr>pc_payload = demo_ai_payload severity name operators, pc_tenant = ''acme'', pc_tier = ''ENTERPRISE'',
      pc_max_commands = 6, pc_allowed_actions = DEFAULT_ALLOWED_ACTIONS, pc_policy_notes = [''note'']\<rparr>"

definition demo_float :: "rat \<Rightarrow> string" where
  "demo_float x = ''4.5''"

definition demo_unfloat :: "string \<Rightarrow> rat option" where
  "demo_unfloat t = (if t = ''4.5'' then Some (9 / 2) else None)"

lemma demo_briefing_wf:
  "json_wf (float_text demo_unfloat demo_float) (briefing demo_float (demo_prompt SevCriticalAi ''Pump 7'' [''Ada'']))"
  "json_wf (float_text demo_unfloat demo_float) (briefing demo_float (demo_prompt SevCriticalAi ''Pump 7'' [[]]))"
  by code_simp+

lemma demo_backtick_free:
  "backtick_free demo_float (demo_prompt SevCriticalAi ''Pump 7'' [''Ada''])"
  "backtick_free demo_float (demo_prompt SevCriticalAi ''Pump 7'' [[]])"
  by code_simp+

theorem prompt_round_trip_witness:
  "extract_briefing demo_unfloat (render_user demo_float demo_float (demo_prompt SevCriticalAi ''Pump 7'' [''Ada''])) =
     Some (sort_json (briefing demo_float (demo_prompt SevCriticalAi ''Pump 7'' [''Ada''])))"
  using prompt_round_trip [OF demo_briefing_wf(1) demo_backtick_free(1)] by blast

theorem offline_plan_policy_witness:
  "int (length (lp_commands (derive_plan demo_float (view_of (demo_prompt SevCriticalAi ''Pump 7'' [''Ada'']))))) \<le> 6"
  using offline_plan_policy [of "demo_prompt SevCriticalAi ''Pump 7'' [''Ada'']", OF _ refl refl refl refl, of demo_float]
  by (simp add: demo_prompt_def)

lemma demo_names:
  "[] \<notin> payload_names (pc_payload (demo_prompt SevCriticalAi ''Pump 7'' [''Ada'']))"
  "[] \<notin> operator_names (pc_payload (demo_prompt SevCriticalAi ''Pump 7'' [''Ada'']))"
  by (simp_all add: payload_names_def operator_names_def payload_label_def demo_prompt_def demo_ai_payload_def
      demo_ai_context_def demo_ai_operator_def DUTY_DESK_def Let_def)

lemma demo_summary:
  "length (derived_summary demo_float (view_of (demo_prompt SevCriticalAi ''Pump 7'' [''Ada'']))) \<le> 2000"
  by code_simp

theorem offline_planner_answers_witness:
  "\<exists>r. planner_plan demo_float demo_float (mock_complete 40 demo_float demo_unfloat (\<lambda>p. 100)) ''m'' 30 1
      (demo_prompt SevCriticalAi ''Pump 7'' [''Ada'']) = Inr r \<and> llm_plan_ok (pr_plan r)"
proof -
  have "of_int 40 / 1000 < (30 :: rat)" by simp
  from offline_planner_answers [OF this demo_briefing_wf(1) demo_backtick_free(1) demo_names demo_summary]
  show ?thesis by blast
qed

theorem slow_planner_never_answers_witness:
  "planner_plan demo_float demo_float (mock_complete 5000 demo_float demo_unfloat (\<lambda>p. 100)) ''m'' 2 1
      (demo_prompt SevCriticalAi ''Pump 7'' [''Ada'']) = Inl PlannerTimedOut"
  by (rule slow_planner_never_answers) simp_all

theorem nameless_operator_gets_no_plan_witness:
  "planner_plan demo_float demo_float (mock_complete 40 demo_float demo_unfloat (\<lambda>p. 100)) ''m'' 30 1
      (demo_prompt SevCriticalAi ''Pump 7'' [[]]) = Inl PlannerMalformed"
  using nameless_operator_gets_no_plan [OF demo_briefing_wf(2) demo_backtick_free(2), of "demo_ai_operator []" "[]" 40
      "\<lambda>p. 100" "''m''" 30 1]
  by (simp add: demo_prompt_def demo_ai_payload_def demo_ai_context_def demo_ai_operator_def ai_escalation_chain_def)

theorem degraded_context_still_isolates_witness:
  "acm_action (hd (lp_commands (derive_plan demo_float
     (view_of ((demo_prompt SevCriticalAi ''Pump 7'' [''Ada''])\<lparr>pc_payload :=
        (pc_payload (demo_prompt SevCriticalAi ''Pump 7'' [''Ada'']))\<lparr>ap_degraded := True, ap_degraded_reason := None,
          ap_context := (ap_context (pc_payload (demo_prompt SevCriticalAi ''Pump 7'' [''Ada''])))\<lparr>
            ac_replica_observations := [], ac_upstream_dependencies := [], ac_downstream_impacts := [],
            ac_blast_radius := 9\<rparr>\<rparr>, pc_policy_notes := []\<rparr>))))) = AiIsolate"
  by (rule degraded_context_still_isolates [OF _ _ _ _ refl, THEN conjunct2])
    (simp_all add: demo_prompt_def demo_ai_payload_def DEFAULT_ALLOWED_ACTIONS_def)

theorem injected_fence_wins_witness:
  "extract_briefing demo_unfloat (render_user demo_float demo_float
     (demo_prompt SevCriticalAi (FENCE @ ''json'' @ NL # CHR ''{'' # [] @ CHR ''}'' # NL # FENCE @ []) [''Ada''])) =
     Some (JObj [])"
proof -
  have "json_loads demo_unfloat (CHR ''{'' # [] @ [CHR ''}'']) = Some (JObj [])" by code_simp
  then show ?thesis
    by (subst injected_fence_wins [of _ "[]" "[]"]) (simp_all add: demo_prompt_def demo_ai_payload_def demo_ai_context_def)
qed

theorem unassigned_plan_not_escalated_witness:
  "\<not> aes_required (lp_escalation (derive_plan demo_float (view_of (demo_prompt SevHighAi ''Pump 7'' []))))"
  using unassigned_plan_not_escalated [of "demo_prompt SevHighAi ''Pump 7'' []" demo_float]
  by (simp add: demo_prompt_def demo_ai_payload_def demo_ai_context_def)

end
