(* ===== verification/Redis_Limiter.thy ===== *)
theory Redis_Limiter
  imports Quota
begin

text \<open>
  The shared quota of the AI interceptor (ai-interceptor/app/redis_state.py): the sliding window as a script
  over a sorted set, the limiter around it with its failure policy and counters, and several replicas that
  meter against one server.

  The server is not part of the repository: its sorted-set commands are the fields of \<open>zset_server\<close> over an
  abstract state, and \<open>zset_laws\<close> names what is documented of them through three observers (the scores of a
  key in order, its members, its expiry).  Times of the server are milliseconds.  The main result is that any
  interleaving of replicas answers like one in-process SlidingWindowLimiter, which carries its window bound
  over.
\<close>

section \<open>The server\<close>

text \<open>
  \<open>zs_at\<close> is what is left of the state at a time of the server's clock: keys whose expiry has passed are gone.
\<close>

record 's zset_server =
  zs_at :: "int \<Rightarrow> 's \<Rightarrow> 's"
  zs_trim :: "string \<Rightarrow> int \<Rightarrow> 's \<Rightarrow> 's"
  zs_card :: "string \<Rightarrow> 's \<Rightarrow> int"
  zs_lowest :: "string \<Rightarrow> 's \<Rightarrow> int option"
  zs_add :: "string \<Rightarrow> int \<Rightarrow> string \<Rightarrow> 's \<Rightarrow> 's"
  zs_expire_at :: "string \<Rightarrow> int \<Rightarrow> 's \<Rightarrow> 's"

record 's zset_view =
  zv_scores :: "'s \<Rightarrow> string \<Rightarrow> int list"
  zv_members :: "'s \<Rightarrow> string \<Rightarrow> string set"
  zv_expiry :: "'s \<Rightarrow> string \<Rightarrow> int option"

definition expired :: "int \<Rightarrow> int option \<Rightarrow> bool" where
  "expired now e \<longleftrightarrow> (case e of None \<Rightarrow> False | Some t \<Rightarrow> t \<le> now)"

text \<open>ZREMRANGEBYSCORE, ZCARD, ZRANGE, ZADD of a fresh member, and PEXPIRE; a key without elements is absent.\<close>

definition at_law :: "'s zset_server \<Rightarrow> 's zset_view \<Rightarrow> bool" where
  "at_law r v \<longleftrightarrow> (\<forall>s now k.
     zv_scores v (zs_at r now s) k = (if expired now (zv_expiry v s k) then [] else zv_scores v s k) \<and>
     zv_members v (zs_at r now s) k \<subseteq> zv_members v s k \<and>
     zv_expiry v (zs_at r now s) k = (if expired now (zv_expiry v s k) then None else zv_expiry v s k))"

definition trim_law :: "'s zset_server \<Rightarrow> 's zset_view \<Rightarrow> bool" where
  "trim_law r v \<longleftrightarrow> (\<forall>s k bound j.
     zv_scores v (zs_trim r k bound s) j =
       (if j = k then filter (\<lambda>x. bound < x) (zv_scores v s j) else zv_scores v s j) \<and>
     zv_members v (zs_trim r k bound s) j \<subseteq> zv_members v s j \<and>
     zv_expiry v (zs_trim r k bound s) j =
       (if j = k \<and> zv_scores v (zs_trim r k bound s) k = [] then None else zv_expiry v s j))"

definition read_law :: "'s zset_server \<Rightarrow> 's zset_view \<Rightarrow> bool" where
  "read_law r v \<longleftrightarrow> (\<forall>s k. sorted (zv_scores v s k) \<and> zs_card r k s = int (length (zv_scores v s k)) \<and>
     zs_lowest r k s = (case zv_scores v s k of [] \<Rightarrow> None | x # _ \<Rightarrow> Some x))"

definition add_law :: "'s zset_server \<Rightarrow> 's zset_view \<Rightarrow> bool" where
  "add_law r v \<longleftrightarrow> (\<forall>s k x m j. m \<notin> zv_members v s k \<longrightarrow>
     zv_scores v (zs_add r k x m s) j = (if j = k then insort x (zv_scores v s j) else zv_scores v s j) \<and>
     zv_members v (zs_add r k x m s) j = (if j = k then insert m (zv_members v s j) else zv_members v s j) \<and>
     zv_expiry v (zs_add r k x m s) j = zv_expiry v s j)"

definition expire_law :: "'s zset_server \<Rightarrow> 's zset_view \<Rightarrow> bool" where
  "expire_law r v \<longleftrightarrow> (\<forall>s k t j.
     zv_scores v (zs_expire_at r k t s) j = zv_scores v s j \<and> zv_members v (zs_expire_at r k t s) j = zv_members v s j \<and>
     zv_expiry v (zs_expire_at r k t s) j = (if j = k \<and> zv_scores v s k \<noteq> [] then Some t else zv_expiry v s j))"

definition zset_laws :: "'s zset_server \<Rightarrow> 's zset_view \<Rightarrow> bool" where
  "zset_laws r v \<longleftrightarrow> at_law r v \<and> trim_law r v \<and> read_law r v \<and> add_law r v \<and> expire_law r v"

section \<open>The script\<close>

text \<open>\<open>SLIDING_WINDOW_SCRIPT\<close> with the reading of \<open>TIME\<close> as its argument \<open>now\<close>.\<close>

definition sliding_window_script ::
    "'s zset_server \<Rightarrow> int \<Rightarrow> string \<Rightarrow> int \<Rightarrow> int \<Rightarrow> string \<Rightarrow> 's \<Rightarrow> (int \<times> int \<times> int) \<times> 's" where
  "sliding_window_script r now key window limit member s =
     (let s1 = zs_trim r key (now - window) (zs_at r now s); used = zs_card r key s1 in
      if used \<ge> limit then
        (let retry = (case zs_lowest r key s1 of None \<Rightarrow> 0 | Some oldest \<Rightarrow> max 0 (oldest + window - now))
         in ((0, 0, retry), zs_expire_at r key (now + window) s1))
      else ((1, limit - used - 1, 0), zs_expire_at r key (now + window) (zs_add r key now member s1)))"

section \<open>The limiter\<close>

record limiter_stats =
  ls_backend :: string
  ls_fail_open :: bool
  ls_checked :: nat
  ls_allowed :: nat
  ls_throttled :: nat
  ls_failed_open :: nat
  ls_errors :: nat

record redis_limiter =
  rl_window_ms :: int
  rl_prefix :: string
  rl_fail_open :: bool
  rl_stats :: limiter_stats

definition stats_init :: "string \<Rightarrow> bool \<Rightarrow> limiter_stats" where
  "stats_init backend fail_open =
     \<lparr>ls_backend = backend, ls_fail_open = fail_open, ls_checked = 0, ls_allowed = 0, ls_throttled = 0,
      ls_failed_open = 0, ls_errors = 0\<rparr>"

definition redis_limiter_init :: "int \<Rightarrow> string \<Rightarrow> bool \<Rightarrow> redis_limiter" where
  "redis_limiter_init window_seconds key_prefix fail_open =
     \<lparr>rl_window_ms = window_seconds * 1000, rl_prefix = key_prefix, rl_fail_open = fail_open,
      rl_stats = stats_init ''redis'' fail_open\<rparr>"

definition key_for :: "redis_limiter \<Rightarrow> string \<Rightarrow> string" where
  "key_for l key = rl_prefix l @ key"

text \<open>
  A check calls the script with the prefixed key, the window and the limit.  The call answers or fails in
  transport, and then the server may or may not have run it.
\<close>

type_synonym 's script_call = "string \<Rightarrow> int \<Rightarrow> int \<Rightarrow> 's \<Rightarrow> (int \<times> int \<times> int) option \<times> 's"

definition redis_check :: "'s script_call \<Rightarrow> string \<Rightarrow> int \<Rightarrow> redis_limiter \<times> 's \<Rightarrow> (bool \<times> int \<times> rat) \<times> (redis_limiter \<times> 's)" where
  "redis_check call key limit st =
     (let l = fst st; k1 = (rl_stats l)\<lparr>ls_checked := Suc (ls_checked (rl_stats l))\<rparr>;
          (reply, s) = call (key_for l key) (rl_window_ms l) limit (snd st)
      in case reply of
           None \<Rightarrow>
             (let k2 = k1\<lparr>ls_errors := Suc (ls_errors k1)\<rparr> in
              if \<not> rl_fail_open l then
                ((False, 0, of_int (rl_window_ms l) / 1000),
                 (l\<lparr>rl_stats := k2\<lparr>ls_throttled := Suc (ls_throttled k2)\<rparr>\<rparr>, s))
              else
                ((True, limit, 0),
                 (l\<lparr>rl_stats := k2\<lparr>ls_failed_open := Suc (ls_failed_open k2), ls_allowed := Suc (ls_allowed k2)\<rparr>\<rparr>, s)))
         | Some (allowed, remaining, retry_ms) \<Rightarrow>
             if allowed = 1 then
               ((True, remaining, 0), (l\<lparr>rl_stats := k1\<lparr>ls_allowed := Suc (ls_allowed k1)\<rparr>\<rparr>, s))
             else
               ((False, 0, of_int retry_ms / 1000), (l\<lparr>rl_stats := k1\<lparr>ls_throttled := Suc (ls_throttled k1)\<rparr>\<rparr>, s)))"

definition script_answers :: "'s zset_server \<Rightarrow> int \<Rightarrow> string \<Rightarrow> 's script_call" where
  "script_answers r now member key window limit s =
     (let (reply, s') = sliding_window_script r now key window limit member s in (Some reply, s'))"

section \<open>Replicas\<close>

text \<open>
  A check of a history: the replica that makes it, the server's clock, the member id it drew, key and limit.
  Each replica has a limiter of its own, the server is one.
\<close>

record replica_check =
  rc_replica :: nat
  rc_now :: int
  rc_member :: string
  rc_key :: string
  rc_limit :: int

fun replicas_run ::
    "'s zset_server \<Rightarrow> replica_check list \<Rightarrow> (nat \<Rightarrow> redis_limiter) \<times> 's \<Rightarrow> (bool \<times> int \<times> rat) list" where
  "replicas_run r [] st = []"
| "replicas_run r (c # cs) st =
     (let (answer, (l, s)) = redis_check (script_answers r (rc_now c) (rc_member c)) (rc_key c) (rc_limit c)
                               (fst st (rc_replica c), snd st)
      in answer # replicas_run r cs ((fst st)(rc_replica c := l), s))"

definition seconds :: "int \<Rightarrow> rat" where
  "seconds ms = of_int ms / 1000"

fun local_run :: "replica_check list \<Rightarrow> window_limiter \<Rightarrow> quota_answer list" where
  "local_run [] w = []"
| "local_run (c # cs) w =
     (let (answer, w') = sliding_window_check (seconds (rc_now c)) (rc_key c) (rc_limit c) w in answer # local_run cs w')"

section \<open>The relation between the server and the in-process limiter\<close>

text \<open>
  At a time of the clock, a bucket of the limiter is some expired admissions followed by the scores of the key,
  and a key that expires holds no score inside the window at that moment.
\<close>

definition key_related :: "'s zset_view \<Rightarrow> int \<Rightarrow> int \<Rightarrow> 's \<Rightarrow> string \<Rightarrow> rat list \<Rightarrow> bool" where
  "key_related v window now s k bucket \<longleftrightarrow>
     (\<exists>pre. bucket = pre @ map seconds (zv_scores v s k) \<and> (\<forall>t \<in> set pre. t \<le> seconds (now - window))) \<and>
     (\<forall>x \<in> set (zv_scores v s k). x \<le> now \<and> (\<forall>e. zv_expiry v s k = Some e \<longrightarrow> x + window \<le> e))"

lemma seconds_le [simp]: "seconds x \<le> seconds y \<longleftrightarrow> x \<le> y"
  by (simp add: seconds_def divide_le_cancel)

lemma seconds_arith: "seconds x - seconds y = seconds (x - y)" "seconds x + seconds y = seconds (x + y)"
  by (simp_all add: seconds_def diff_divide_distrib add_divide_distrib)

lemma seconds_max: "max 0 (seconds x) = seconds (max 0 x)"
  by (simp add: seconds_def max_def divide_le_0_iff zero_le_divide_iff)

lemma dropWhile_sorted: "sorted xs \<Longrightarrow> dropWhile (\<lambda>x. x \<le> b) xs = filter (\<lambda>x. b < x) (xs :: int list)"
proof (induction xs)
  case (Cons x xs)
  then show ?case by (cases "x \<le> b") (auto intro!: filter_True [symmetric])
qed simp

lemma insort_last: "\<forall>x \<in> set xs. x \<le> (y :: int) \<Longrightarrow> sorted xs \<Longrightarrow> insort y xs = xs @ [y]"
  by (induction xs) (auto simp: insort_is_Cons)

text \<open>Later, and after the expired keys are gone, the relation still holds.\<close>

lemma key_related_at:
  assumes "at_law r v" "key_related v window prev s k bucket" "prev \<le> now"
  shows "key_related v window now (zs_at r now s) k bucket"
proof -
  obtain pre where pre: "bucket = pre @ map seconds (zv_scores v s k)" "\<forall>t \<in> set pre. t \<le> seconds (prev - window)"
    and sc: "\<forall>x \<in> set (zv_scores v s k). x \<le> prev \<and> (\<forall>e. zv_expiry v s k = Some e \<longrightarrow> x + window \<le> e)"
    using assms(2) by (auto simp: key_related_def)
  have pre': "\<forall>t \<in> set pre. t \<le> seconds (now - window)"
  proof
    fix t assume "t \<in> set pre"
    then have "t \<le> seconds (prev - window)" using pre(2) by blast
    also have "\<dots> \<le> seconds (now - window)" using assms(3) by simp
    finally show "t \<le> seconds (now - window)" .
  qed
  show ?thesis
  proof (cases "expired now (zv_expiry v s k)")
    case True
    then obtain e where e: "zv_expiry v s k = Some e" "e \<le> now" by (auto simp: expired_def split: option.splits)
    have "\<forall>t \<in> set bucket. t \<le> seconds (now - window)"
    proof
      fix t assume "t \<in> set bucket"
      then consider "t \<in> set pre" | x where "x \<in> set (zv_scores v s k)" "t = seconds x" using pre(1) by auto
      then show "t \<le> seconds (now - window)" using pre' sc e by cases fastforce+
    qed
    then show ?thesis using assms(1) True by (auto simp: key_related_def at_law_def)
  next
    case False
    then show ?thesis using assms(1,3) pre pre' sc by (fastforce simp: key_related_def at_law_def)
  qed
qed

text \<open>Trimming the key drops what has left the window.\<close>

lemma key_related_trim:
  assumes "trim_law r v" "read_law r v" "key_related v window now s k bucket"
  shows "live_bucket (seconds window) (seconds now) bucket = map seconds (zv_scores v (zs_trim r k (now - window) s) k)"
    and "key_related v window now (zs_trim r k (now - window) s) k
           (live_bucket (seconds window) (seconds now) bucket)"
proof -
  obtain pre where pre: "bucket = pre @ map seconds (zv_scores v s k)" "\<forall>t \<in> set pre. t \<le> seconds (now - window)"
    and sc: "\<forall>x \<in> set (zv_scores v s k). x \<le> now \<and> (\<forall>e. zv_expiry v s k = Some e \<longrightarrow> x + window \<le> e)"
    using assms(3) by (auto simp: key_related_def)
  have "dropWhile (\<lambda>t. t \<le> seconds (now - window)) bucket =
      dropWhile (\<lambda>t. t \<le> seconds (now - window)) (map seconds (zv_scores v s k))"
    unfolding pre(1) using pre(2) by (intro dropWhile_append2) auto
  also have "\<dots> = map seconds (filter (\<lambda>x. now - window < x) (zv_scores v s k))"
    using assms(2) by (simp add: dropWhile_map comp_def dropWhile_sorted read_law_def)
  finally show live: "live_bucket (seconds window) (seconds now) bucket = map seconds (zv_scores v (zs_trim r k (now - window) s) k)"
    using assms(1) by (simp add: live_bucket_def seconds_arith trim_law_def)
  show "key_related v window now (zs_trim r k (now - window) s) k (live_bucket (seconds window) (seconds now) bucket)"
    unfolding live key_related_def using assms(1) sc by (auto simp: trim_law_def split: if_splits)
qed

text \<open>One check of a replica and of the in-process limiter.\<close>

definition all_related :: "'s zset_view \<Rightarrow> int \<Rightarrow> string \<Rightarrow> string set \<Rightarrow> int \<Rightarrow> 's \<Rightarrow> window_limiter \<Rightarrow> bool" where
  "all_related v window pre used now s w \<longleftrightarrow>
     wl_window w = seconds window \<and> (\<forall>k. key_related v window now s (pre @ k) (wl_bucket w k) \<and> zv_members v s (pre @ k) \<subseteq> used)"

lemma script_related:
  assumes laws: "zset_laws r v" and rel: "all_related v window pre used prev s w" and le: "prev \<le> now"
    and fresh: "m \<notin> used" and pos: "0 < limit"
    and script: "sliding_window_script r now (pre @ k) window limit m s = ((ok, rem, retry), s')"
    and loc: "sliding_window_check (seconds now) k limit w = (answer, w')"
  shows "answer = (if ok = 1 then Inr (True, rem, 0) else Inr (False, 0, of_int retry / 1000))"
    and "all_related v window pre (insert m used) now s' w'"
proof -
  let ?K = "pre @ k"
  let ?s0 = "zs_at r now s"
  let ?s1 = "zs_trim r ?K (now - window) ?s0"
  let ?sc = "zv_scores v ?s1 ?K"
  let ?live = "live_bucket (seconds window) (seconds now) (wl_bucket w k)"
  have w: "wl_window w = seconds window" using rel by (simp add: all_related_def)
  have l: "at_law r v" "trim_law r v" "read_law r v" "add_law r v" "expire_law r v" using laws by (simp_all add: zset_laws_def)
  have at: "key_related v window now ?s0 (pre @ j) (wl_bucket w j)" for j
    using key_related_at [OF l(1) _ le] rel by (simp add: all_related_def)
  note live = key_related_trim [OF l(2,3) at [of k]]
  have used1: "zv_members v ?s1 (pre @ j) \<subseteq> used" for j
    using l(1,2) rel unfolding at_law_def trim_law_def all_related_def by blast
  have other: "key_related v window now ?s1 (pre @ j) (wl_bucket w j)" if "j \<noteq> k" for j
    using at [of j] l(2) that by (simp add: key_related_def trim_law_def)
  have card: "zs_card r ?K ?s1 = int (length ?live)" using l(3) live(1) by (simp add: read_law_def)
  have sc: "\<forall>x \<in> set ?sc. x \<le> now" "sorted ?sc" using live(2) l(3) by (auto simp: key_related_def read_law_def)
  show "answer = (if ok = 1 then Inr (True, rem, 0) else Inr (False, 0, of_int retry / 1000)) "
    and "all_related v window pre (insert m used) now s' w'"
  proof (atomize (full), cases "limit \<le> int (length ?live)")
    case True
    then obtain o1 os where sc1: "?sc = o1 # os" using pos live(1) by (cases ?sc) auto
    have low: "zs_lowest r ?K ?s1 = Some o1" using l(3) sc1 by (simp add: read_law_def)
    have res: "ok = 0" "retry = max 0 (o1 + window - now)" "s' = zs_expire_at r ?K (now + window) ?s1"
      using script True low by (auto simp: sliding_window_script_def Let_def card)
    have live1: "?live = seconds o1 # map seconds os" using live(1) sc1 by simp
    have ans: "answer = Inr (False, 0, seconds (max 0 (o1 + window - now)))" "wl_window w' = wl_window w"
        "wl_bucket w' j = (if j = k then ?live else wl_bucket w j)" for j
      using window_limiter.refuse [of limit w "seconds now" k] window_limiter.others [of j k "seconds now" limit w]
        window_limiter.same_window [of "seconds now" k limit w] True loc live1
      by (auto simp: w seconds_arith seconds_max)
    have "key_related v window now s' (pre @ j) (wl_bucket w' j) \<and> zv_members v s' (pre @ j) \<subseteq> insert m used" for j
      using live(2) other [of j] used1 [of j] l(5) sc(1)
      by (cases "j = k") (auto simp: ans(3) res(3) key_related_def expire_law_def)
    then show "answer = (if ok = 1 then Inr (True, rem, 0) else Inr (False, 0, of_int retry / 1000)) \<and>
        all_related v window pre (insert m used) now s' w'"
      using ans(1,2) res(1,2) w by (simp add: all_related_def seconds_def)
  next
    case False
    let ?s2 = "zs_add r ?K now m ?s1"
    have m: "m \<notin> zv_members v ?s1 ?K" using used1 [of k] fresh by blast
    have res: "ok = 1" "rem = limit - int (length ?live) - 1" "s' = zs_expire_at r ?K (now + window) ?s2"
      using script False by (auto simp: sliding_window_script_def Let_def card)
    have add: "zv_scores v ?s2 j = (if j = ?K then ?sc @ [now] else zv_scores v ?s1 j)"
      "zv_members v ?s2 j = (if j = ?K then insert m (zv_members v ?s1 j) else zv_members v ?s1 j)"
      "zv_expiry v ?s2 j = zv_expiry v ?s1 j" for j
      using l(4) m insort_last [OF sc] by (auto simp: add_law_def)
    have ans: "answer = Inr (True, limit - int (length ?live) - 1, 0)" "wl_window w' = wl_window w"
        "wl_bucket w' j = (if j = k then ?live @ [seconds now] else wl_bucket w j)" for j
      using window_limiter.admit [of w "seconds now" k limit] window_limiter.others [of j k "seconds now" limit w]
        window_limiter.same_window [of "seconds now" k limit w] False loc
      by (auto simp: w)
    have "key_related v window now s' (pre @ j) (wl_bucket w' j) \<and> zv_members v s' (pre @ j) \<subseteq> insert m used" for j
    proof (cases "j = k")
      case True
      then show ?thesis using l(5) add live(1) sc(1) used1 [of k]
        by (auto simp: ans(3) res(3) key_related_def expire_law_def)
    next
      case False
      then show ?thesis using l(5) add other [OF False] used1 [of j]
        by (auto simp: ans(3) res(3) key_related_def expire_law_def)
    qed
    then show "answer = (if ok = 1 then Inr (True, rem, 0) else Inr (False, 0, of_int retry / 1000)) \<and>
        all_related v window pre (insert m used) now s' w'"
      using ans(1,2) res(1,2) w by (simp add: all_related_def)
  qed
qed

text \<open>A history of replicas.\<close>

definition same_setup :: "int \<Rightarrow> string \<Rightarrow> (nat \<Rightarrow> redis_limiter) \<Rightarrow> bool" where
  "same_setup window pre ls \<longleftrightarrow> (\<forall>i. rl_window_ms (ls i) = window \<and> rl_prefix (ls i) = pre)"

lemma checked_answer:
  assumes "redis_check (script_answers r now m) k limit (l, s) = (answer, (l', s'))"
  shows "\<exists>ok rem retry. sliding_window_script r now (rl_prefix l @ k) (rl_window_ms l) limit m s = ((ok, rem, retry), s') \<and>
    answer = (if ok = 1 then (True, rem, 0) else (False, 0, of_int retry / 1000)) \<and>
    rl_window_ms l' = rl_window_ms l \<and> rl_prefix l' = rl_prefix l"
proof -
  obtain ok rem retry s1 where e: "sliding_window_script r now (rl_prefix l @ k) (rl_window_ms l) limit m s = ((ok, rem, retry), s1)"
    by (metis surj_pair)
  show ?thesis
    using assms e
    by (intro exI [of _ ok] exI [of _ rem] exI [of _ retry])
      (auto simp: redis_check_def script_answers_def key_for_def Let_def split: if_splits)
qed

lemma replicas_related:
  assumes "zset_laws r v" "all_related v window pre used prev s w" "same_setup window pre ls"
    and "sorted (map rc_now cs)" "\<forall>c \<in> set cs. prev \<le> rc_now c" "distinct (map rc_member cs)"
    and "\<forall>c \<in> set cs. rc_member c \<notin> used" "\<forall>c \<in> set cs. 0 < rc_limit c"
  shows "map Inr (replicas_run r cs (ls, s)) = local_run cs w"
  using assms(2-)
proof (induction cs arbitrary: ls s w used prev)
  case (Cons c cs)
  obtain answer l' s' where check: "redis_check (script_answers r (rc_now c) (rc_member c)) (rc_key c) (rc_limit c) (ls (rc_replica c), s) =
      (answer, (l', s'))" by (metis surj_pair)
  obtain local_answer w' where loc: "sliding_window_check (seconds (rc_now c)) (rc_key c) (rc_limit c) w = (local_answer, w')"
    by (metis surj_pair)
  have wired: "rl_window_ms (ls (rc_replica c)) = window" "rl_prefix (ls (rc_replica c)) = pre"
    using Cons.prems(2) by (simp_all add: same_setup_def)
  obtain ok rem retry where script: "sliding_window_script r (rc_now c) (pre @ rc_key c) window (rc_limit c) (rc_member c) s = ((ok, rem, retry), s')"
    and ans: "answer = (if ok = 1 then (True, rem, 0) else (False, 0, of_int retry / 1000))"
    and l': "rl_window_ms l' = window" "rl_prefix l' = pre"
    using checked_answer [OF check] wired by auto
  have c: "prev \<le> rc_now c" "rc_member c \<notin> used" "0 < rc_limit c" using Cons.prems by simp_all
  note step = script_related [OF assms(1) Cons.prems(1) c script loc]
  have "same_setup window pre (ls(rc_replica c := l'))" using Cons.prems(2) l' by (simp add: same_setup_def)
  moreover have "\<forall>d \<in> set cs. rc_member d \<notin> insert (rc_member c) used" using Cons.prems(5,6) by (fastforce simp: image_iff)
  ultimately have "map Inr (replicas_run r cs (ls(rc_replica c := l'), s')) = local_run cs w'"
    using Cons.IH [OF step(2)] Cons.prems by simp
  then show ?case using step(1) ans by (simp add: check loc)
qed simp

lemma related_initially:
  assumes "\<forall>k. zv_scores v s k = [] \<and> zv_members v s k = {}"
  shows "all_related v window pre {} prev s (window_limiter_init (seconds window))"
  using assms by (simp add: all_related_def key_related_def window_limiter_init_def wl_bucket_def)

lemma replicas_local:
  assumes "zset_laws r v" "\<forall>k. zv_scores v s k = [] \<and> zv_members v s k = {}" "same_setup window pre ls"
    and "sorted (map rc_now cs)" "distinct (map rc_member cs)" "\<forall>c \<in> set cs. 0 < rc_limit c"
  shows "map Inr (replicas_run r cs (ls, s)) = local_run cs (window_limiter_init (seconds window))"
proof (cases cs)
  case (Cons c rest)
  have "\<forall>d \<in> set cs. rc_now c \<le> rc_now d" using assms(4) Cons by auto
  then show ?thesis
    using replicas_related [OF assms(1) related_initially [OF assms(2)] assms(3,4) _ assms(5) _ assms(6)] by simp
qed simp

text \<open>The admissions of a key in a history, given the answers.\<close>

definition admissions_of :: "string \<Rightarrow> replica_check list \<Rightarrow> (bool \<times> int \<times> rat) list \<Rightarrow> rat list" where
  "admissions_of key cs answers =
     map (\<lambda>p. seconds (rc_now (fst p))) (filter (\<lambda>p. rc_key (fst p) = key \<and> fst (snd p)) (zip cs answers))"

lemma admissions_local:
  "map Inr answers = local_run cs w \<Longrightarrow>
   admitted_times sliding_window_check key (map (\<lambda>c. (seconds (rc_now c), rc_key c, rc_limit c)) cs) w = admissions_of key cs answers"
proof (induction cs arbitrary: w answers)
  case (Cons c cs)
  obtain a w' where loc: "sliding_window_check (seconds (rc_now c)) (rc_key c) (rc_limit c) w = (a, w')" by (metis surj_pair)
  obtain b bs where b: "answers = b # bs" "a = Inr b" "map Inr bs = local_run cs w'"
    using Cons.prems loc by (cases answers) auto
  show ?case using Cons.IH [OF b(3)] loc b(1,2) by (cases b) (simp add: admissions_of_def)
qed (simp add: admissions_of_def)

text \<open>The counters after a history of checks with arbitrary calls.\<close>

fun checks_run :: "('s script_call \<times> string \<times> int) list \<Rightarrow> redis_limiter \<times> 's \<Rightarrow> redis_limiter \<times> 's" where
  "checks_run [] st = st"
| "checks_run ((call, key, limit) # cs) st = checks_run cs (snd (redis_check call key limit st))"

definition counters_ok :: "redis_limiter \<Rightarrow> bool" where
  "counters_ok l \<longleftrightarrow>
     (let k = rl_stats l in
      ls_checked k = ls_allowed k + ls_throttled k \<and> ls_fail_open k = rl_fail_open l \<and>
      (if rl_fail_open l then ls_failed_open k = ls_errors k \<and> ls_errors k \<le> ls_allowed k
       else ls_failed_open k = 0 \<and> ls_errors k \<le> ls_throttled k))"

lemma check_counts:
  "counters_ok (fst st) \<Longrightarrow> counters_ok (fst (snd (redis_check call key limit st))) \<and>
   ls_checked (rl_stats (fst (snd (redis_check call key limit st)))) = Suc (ls_checked (rl_stats (fst st)))"
  by (cases "call (key_for (fst st) key) (rl_window_ms (fst st)) limit (snd st)")
    (auto simp: redis_check_def counters_ok_def Let_def split: option.splits if_splits)

lemma checks_run_counts:
  "counters_ok (fst st) \<Longrightarrow> counters_ok (fst (checks_run cs st)) \<and>
   ls_checked (rl_stats (fst (checks_run cs st))) = ls_checked (rl_stats (fst st)) + length cs \<and>
   rl_fail_open (fst (checks_run cs st)) = rl_fail_open (fst st)"
proof (induction cs st rule: checks_run.induct)
  case (2 call key limit cs st)
  have "rl_fail_open (fst (snd (redis_check call key limit st))) = rl_fail_open (fst st)"
    by (cases "call (key_for (fst st) key) (rl_window_ms (fst st)) limit (snd st)")
      (auto simp: redis_check_def Let_def split: option.splits)
  then show ?case using 2 check_counts [of st call key limit] by simp
qed simp

section \<open>Properties\<close>

text \<open>
  C36: Any number of replicas meter like one process.  Over a server that keeps the documented laws, and for
  every interleaving of replicas with a clock that does not run backwards, distinct member ids and positive
  limits, each check answers exactly what one in-process limiter answers to the merged history: the same
  decision, the same remaining quota and the same delay.
\<close>
theorem replicas_meter_as_one:
  "zset_laws r v \<Longrightarrow> \<forall>k. zv_scores v s k = [] \<and> zv_members v s k = {} \<Longrightarrow> same_setup window pre ls \<Longrightarrow>
   sorted (map rc_now cs) \<Longrightarrow> distinct (map rc_member cs) \<Longrightarrow> \<forall>c \<in> set cs. 0 < rc_limit c \<Longrightarrow>
   map Inr (replicas_run r cs (ls, s)) = local_run cs (window_limiter_init (seconds window))"
  by (rule replicas_local)

text \<open>
  The licensed quota holds across replicas.  However many replicas race, no window of the configured
  length holds more admissions of a key than its limit.
\<close>
theorem replicas_window_bound:
  "zset_laws r v \<Longrightarrow> \<forall>k. zv_scores v s k = [] \<and> zv_members v s k = {} \<Longrightarrow> same_setup window pre ls \<Longrightarrow>
   sorted (map rc_now cs) \<Longrightarrow> distinct (map rc_member cs) \<Longrightarrow> \<forall>c \<in> set cs. 0 < rc_limit c \<Longrightarrow>
   \<forall>c \<in> set cs. rc_key c = key \<longrightarrow> rc_limit c = int L \<Longrightarrow>
   length (in_window (seconds window) t (admissions_of key cs (replicas_run r cs (ls, s)))) \<le> L"
proof -
  assume laws: "zset_laws r v" and init: "\<forall>k. zv_scores v s k = [] \<and> zv_members v s k = {}" and wired: "same_setup window pre ls"
    and cs: "sorted (map rc_now cs)" "distinct (map rc_member cs)" "\<forall>c \<in> set cs. 0 < rc_limit c"
    and lim: "\<forall>c \<in> set cs. rc_key c = key \<longrightarrow> rc_limit c = int L"
  let ?w = "window_limiter_init (seconds window)"
  let ?rs = "map (\<lambda>c. (seconds (rc_now c), rc_key c, rc_limit c)) cs"
  note adm = admissions_local [OF replicas_local [OF laws init wired cs], of key]
  have "sorted (map fst ?rs)" using cs(1) by (simp add: comp_def sorted_map)
  then have "length (in_window (wl_window ?w) t (admitted_times sliding_window_check key ?rs ?w)) \<le> L"
    using lim by (intro window_limiter.at_most_limit_per_window) (auto simp: window_limiter_init_def wl_bucket_def)
  then show ?thesis by (simp add: adm) (simp add: window_limiter_init_def)
qed

text \<open>
  The counters add up, whatever the server does.  After any checks, with any mixture of answers and
  failures, every check is counted as allowed or throttled exactly once, and the failures are exactly the
  checks admitted without metering when the limiter fails open, and none is when it fails closed.
\<close>
theorem limiter_counters_add_up:
  "checks_run cs (redis_limiter_init seconds_per_window prefix fail_open, s) = (l, s') \<Longrightarrow>
   ls_checked (rl_stats l) = length cs \<and> ls_allowed (rl_stats l) + ls_throttled (rl_stats l) = length cs \<and>
   (fail_open \<longrightarrow> ls_failed_open (rl_stats l) = ls_errors (rl_stats l) \<and> ls_errors (rl_stats l) \<le> ls_allowed (rl_stats l)) \<and>
   (\<not> fail_open \<longrightarrow> ls_failed_open (rl_stats l) = 0 \<and> ls_errors (rl_stats l) \<le> ls_throttled (rl_stats l))"
proof -
  assume run: "checks_run cs (redis_limiter_init seconds_per_window prefix fail_open, s) = (l, s')"
  have "counters_ok (redis_limiter_init seconds_per_window prefix fail_open)"
    by (simp add: counters_ok_def redis_limiter_init_def stats_init_def Let_def)
  then have "counters_ok l \<and> ls_checked (rl_stats l) = length cs \<and> rl_fail_open l = fail_open"
    using checks_run_counts [of "(redis_limiter_init seconds_per_window prefix fail_open, s)" cs] run
    by (simp add: redis_limiter_init_def stats_init_def)
  then show ?thesis by (auto simp: counters_ok_def Let_def)
qed

text \<open>
  A limit of zero is refused by the script, where the in-process limiter indexes an empty bucket.
\<close>

theorem zero_limit_refused:
  "zset_laws r v \<Longrightarrow> \<forall>k. zv_scores v s k = [] \<Longrightarrow>
   fst (redis_check (script_answers r now m) key 0 (l, s)) = (False, 0, 0) \<and>
   fst (sliding_window_check (seconds now) key 0 (window_limiter_init w)) = Inl IndexErrorExn"
proof -
  assume laws: "zset_laws r v" and init: "\<forall>k. zv_scores v s k = []"
  have "zv_scores v (zs_trim r (rl_prefix l @ key) (now - rl_window_ms l) (zs_at r now s)) (rl_prefix l @ key) = []"
    using laws init by (simp add: zset_laws_def at_law_def trim_law_def)
  then have "zs_card r (rl_prefix l @ key) (zs_trim r (rl_prefix l @ key) (now - rl_window_ms l) (zs_at r now s)) = 0"
    "zs_lowest r (rl_prefix l @ key) (zs_trim r (rl_prefix l @ key) (now - rl_window_ms l) (zs_at r now s)) = None"
    using laws by (simp_all add: zset_laws_def read_law_def)
  then show ?thesis
    by (simp add: redis_check_def script_answers_def sliding_window_script_def key_for_def sliding_window_check_def
        window_limiter_init_def wl_bucket_def Let_def)
qed

section \<open>Witnesses\<close>

text \<open>A server that keeps the laws: each key holds its members in the order of their scores, and its expiry.\<close>

type_synonym demo_keys = "string \<Rightarrow> (string \<times> int) list \<times> int option"

definition demo_server :: "demo_keys zset_server" where
  "demo_server =
     \<lparr>zs_at = (\<lambda>now s k. if expired now (snd (s k)) then ([], None) else s k),
      zs_trim = (\<lambda>k bound s.
        let kept = filter (\<lambda>p. bound < snd p) (fst (s k)) in s(k := (kept, if kept = [] then None else snd (s k)))),
      zs_card = (\<lambda>k s. int (length (fst (s k)))),
      zs_lowest = (\<lambda>k s. case sort (map snd (fst (s k))) of [] \<Rightarrow> None | x # _ \<Rightarrow> Some x),
      zs_add = (\<lambda>k x m s. s(k := ((m, x) # filter (\<lambda>p. fst p \<noteq> m) (fst (s k)), snd (s k)))),
      zs_expire_at = (\<lambda>k t s. if fst (s k) = [] then s else s(k := (fst (s k), Some t)))\<rparr>"

definition demo_view :: "demo_keys zset_view" where
  "demo_view =
     \<lparr>zv_scores = (\<lambda>s k. sort (map snd (fst (s k)))), zv_members = (\<lambda>s k. fst ` set (fst (s k))),
      zv_expiry = (\<lambda>s k. snd (s k))\<rparr>"

lemma sort_Nil: "sort xs = [] \<longleftrightarrow> xs = []"
  by (metis length_0_conv length_sort)

lemma demo_laws: "zset_laws demo_server demo_view"
proof -
  have fresh: "filter (\<lambda>p. fst p \<noteq> m) xs = xs" if "m \<notin> fst ` set xs" for m and xs :: "(string \<times> int) list"
    using that by (auto simp: filter_id_conv)
  have trim: "sort (map snd (filter (\<lambda>p. b < snd p) xs)) = filter (\<lambda>x. b < x) (sort (map snd xs))"
    for b and xs :: "(string \<times> int) list"
    by (simp add: filter_sort filter_map comp_def)
  have "at_law demo_server demo_view" "read_law demo_server demo_view" "expire_law demo_server demo_view"
    by (auto simp: at_law_def read_law_def expire_law_def demo_server_def demo_view_def sort_Nil)
  moreover have "trim_law demo_server demo_view"
    by (auto simp: trim_law_def demo_server_def demo_view_def Let_def trim sort_Nil filter_empty_conv)
  moreover have "add_law demo_server demo_view"
    by (auto simp: add_law_def demo_server_def demo_view_def fresh)
  ultimately show ?thesis by (simp add: zset_laws_def)
qed

definition demo_checks :: "replica_check list" where
  "demo_checks =
     [\<lparr>rc_replica = 0, rc_now = 0, rc_member = ''a'', rc_key = ''k'', rc_limit = 2\<rparr>,
      \<lparr>rc_replica = 1, rc_now = 10, rc_member = ''b'', rc_key = ''k'', rc_limit = 2\<rparr>,
      \<lparr>rc_replica = 0, rc_now = 10, rc_member = ''c'', rc_key = ''k'', rc_limit = 2\<rparr>,
      \<lparr>rc_replica = 1, rc_now = 60001, rc_member = ''d'', rc_key = ''k'', rc_limit = 2\<rparr>]"

theorem replicas_meter_as_one_witness:
  "map Inr (replicas_run demo_server demo_checks (\<lambda>i. redis_limiter_init 60 ''quota:'' True, \<lambda>k. ([], None))) =
     local_run demo_checks (window_limiter_init (seconds 60000))"
  by (rule replicas_meter_as_one [OF demo_laws, where pre = "''quota:''"])
    (simp_all add: demo_view_def same_setup_def redis_limiter_init_def demo_checks_def)

theorem replicas_window_bound_witness:
  "length (in_window (seconds 60000) (seconds 60000) (admissions_of ''k'' demo_checks
     (replicas_run demo_server demo_checks (\<lambda>i. redis_limiter_init 60 ''quota:'' True, \<lambda>k. ([], None))))) \<le> 2"
  by (rule replicas_window_bound [OF demo_laws, where pre = "''quota:''"])
    (simp_all add: demo_view_def same_setup_def redis_limiter_init_def demo_checks_def)

theorem limiter_counters_add_up_witness:
  "\<exists>l s'. checks_run [(\<lambda>k w n s. (None, s), ''k'', 5), (\<lambda>k w n s. (Some (1, 4, 0), s), ''k'', 5)]
       (redis_limiter_init 60 ''quota:'' True, ()) = (l, s') \<and> ls_allowed (rl_stats l) + ls_throttled (rl_stats l) = 2"
proof -
  obtain l s' where r: "checks_run [(\<lambda>k w n s. (None, s), ''k'', 5), (\<lambda>k w n s. (Some (1, 4, 0), s), ''k'', 5)]
       (redis_limiter_init 60 ''quota:'' True, ()) = (l, s')" by (metis surj_pair)
  then show ?thesis using limiter_counters_add_up [OF r] by auto
qed

theorem zero_limit_refused_witness:
  "fst (redis_check (script_answers demo_server 5 ''a'') ''k'' 0 (redis_limiter_init 60 ''quota:'' True, \<lambda>k. ([], None))) =
     (False, 0, 0)"
  using zero_limit_refused [OF demo_laws, of "\<lambda>k. ([], None)" 5 "''a''" "''k''"] by (simp add: demo_view_def)

end
