(* ===== verification/Interceptor_Settings.thy ===== *)
theory Interceptor_Settings
  imports Worker_Settings
begin

text \<open>
  The configuration of the AI interceptor (ai-interceptor/app/config.py): the fields of class Settings with
  their bounds, its validators and the checks after construction.  The environment supplies the raw record.
\<close>

definition REDIS_URL_SCHEMES :: "string list" where
  "REDIS_URL_SCHEMES = [''redis://'', ''rediss://'', ''unix://'']"

definition MOCK_MODEL_ID :: string where
  "MOCK_MODEL_ID = ''openontology-mock-planner''"

datatype effort_level = EffortLow | EffortMedium | EffortHigh | EffortXhigh | EffortMax

datatype llm_provider = ProviderMock | ProviderCloud

record ai_settings =
  ais_service_name :: string
  ais_environment :: string
  ais_log_level :: string
  ais_docs_enabled :: bool
  ais_license_header :: string
  ais_license_registry_path :: "string option"
  ais_rate_limit_window_seconds :: int
  ais_llm_provider :: llm_provider
  ais_llm_model :: string
  ais_llm_max_tokens :: int
  ais_llm_effort :: effort_level
  ais_llm_timeout_seconds :: rat
  ais_llm_simulated_latency_ms :: int
  ais_llm_api_key :: "string option"
  ais_max_commands :: int
  ais_idempotency_cache_size :: int
  ais_redis_url :: "string option"
  ais_require_shared_state :: bool
  ais_quota_key_prefix :: string
  ais_plan_key_prefix :: string
  ais_redis_op_timeout_seconds :: rat
  ais_redis_pool_size :: int
  ais_idempotency_ttl_seconds :: int
  ais_rate_limit_fail_open :: bool
  ais_idempotency_fail_open :: bool

text \<open>What the fields are when the environment does not say.\<close>

definition ai_settings_defaults :: ai_settings where
  "ai_settings_defaults =
     \<lparr>ais_service_name = ''openontology-ai-interceptor'', ais_environment = ''local'', ais_log_level = ''INFO'',
      ais_docs_enabled = True, ais_license_header = ''X-License-Key'', ais_license_registry_path = None,
      ais_rate_limit_window_seconds = 60, ais_llm_provider = ProviderMock, ais_llm_model = MOCK_MODEL_ID,
      ais_llm_max_tokens = 4096, ais_llm_effort = EffortMedium, ais_llm_timeout_seconds = 30,
      ais_llm_simulated_latency_ms = 40, ais_llm_api_key = None, ais_max_commands = 6,
      ais_idempotency_cache_size = 512, ais_redis_url = None, ais_require_shared_state = False,
      ais_quota_key_prefix = ''quota:'', ais_plan_key_prefix = ''plan:'', ais_redis_op_timeout_seconds = 2,
      ais_redis_pool_size = 16, ais_idempotency_ttl_seconds = 86400, ais_rate_limit_fail_open = True,
      ais_idempotency_fail_open = False\<rparr>"

definition ai_settings_fields_ok :: "ai_settings \<Rightarrow> bool" where
  "ai_settings_fields_ok s \<longleftrightarrow>
     1 \<le> ais_rate_limit_window_seconds s \<and> ais_rate_limit_window_seconds s \<le> 3600 \<and>
     256 \<le> ais_llm_max_tokens s \<and> ais_llm_max_tokens s \<le> 64000 \<and>
     0 < ais_llm_timeout_seconds s \<and>
     0 \<le> ais_llm_simulated_latency_ms s \<and> ais_llm_simulated_latency_ms s \<le> 5000 \<and>
     1 \<le> ais_max_commands s \<and> ais_max_commands s \<le> 20 \<and>
     0 \<le> ais_idempotency_cache_size s \<and> ais_idempotency_cache_size s \<le> 100000 \<and>
     0 < ais_redis_op_timeout_seconds s \<and> ais_redis_op_timeout_seconds s \<le> 30 \<and>
     1 \<le> ais_redis_pool_size s \<and> ais_redis_pool_size s \<le> 512 \<and>
     60 \<le> ais_idempotency_ttl_seconds s \<and> ais_idempotency_ttl_seconds s \<le> 604800"

section \<open>Validators\<close>

definition normalise_redis_url :: "string option \<Rightarrow> string option raises" where
  "normalise_redis_url v =
     (case v of
        None \<Rightarrow> Inr None
      | Some raw \<Rightarrow>
          (let url = str_strip raw in
           if url = [] then Inr None
           else if list_ex (str_startswith url) REDIS_URL_SCHEMES then Inr (Some url)
           else Inl ValueError))"

definition non_empty_prefix :: "string \<Rightarrow> string raises" where
  "non_empty_prefix v = (let prefix = str_strip v in if prefix = [] then Inl ValueError else Inr prefix)"

definition non_empty_model :: "string \<Rightarrow> string raises" where
  "non_empty_model v = (let model = str_strip v in if model = [] then Inl ValueError else Inr model)"

definition ai_log_level :: "string \<Rightarrow> string raises" where
  "ai_log_level v =
     (let level = str_upper (str_strip v) in
      if level \<notin> {''DEBUG'', ''INFO'', ''WARNING'', ''ERROR'', ''CRITICAL''} then Inl ValueError else Inr level)"

definition require_live_llm :: "ai_settings \<Rightarrow> bool" where
  "require_live_llm s \<longleftrightarrow> ais_llm_provider s = ProviderCloud"

definition shared_state_enabled :: "ai_settings \<Rightarrow> bool" where
  "shared_state_enabled s \<longleftrightarrow> (case ais_redis_url s of None \<Rightarrow> False | Some url \<Rightarrow> url \<noteq> [])"

definition state_backend :: "ai_settings \<Rightarrow> string" where
  "state_backend s = (if shared_state_enabled s then ''redis'' else ''memory'')"

definition ai_settings_post_init :: "ai_settings \<Rightarrow> ai_settings raises" where
  "ai_settings_post_init s =
     (if ais_require_shared_state s \<and> \<not> shared_state_enabled s then Inl ValueError
      else if ais_quota_key_prefix s = ais_plan_key_prefix s then Inl ValueError
      else if require_live_llm s \<and> ais_llm_model s = MOCK_MODEL_ID then Inl ValueError
      else Inr s)"

text \<open>Construction: the bounds, the validators, then the checks across fields.\<close>

definition make_ai_settings :: "ai_settings \<Rightarrow> ai_settings raises" where
  "make_ai_settings raw =
     (if \<not> ai_settings_fields_ok raw then Inl ValidationErrorExn
      else bind_r (ai_log_level (ais_log_level raw)) (\<lambda>level.
           bind_r (non_empty_model (ais_llm_model raw)) (\<lambda>model.
           bind_r (normalise_redis_url (ais_redis_url raw)) (\<lambda>url.
           bind_r (non_empty_prefix (ais_quota_key_prefix raw)) (\<lambda>quota.
           bind_r (non_empty_prefix (ais_plan_key_prefix raw)) (\<lambda>plan.
             ai_settings_post_init
               (raw\<lparr>ais_log_level := level, ais_llm_model := model, ais_redis_url := url,
                    ais_quota_key_prefix := quota, ais_plan_key_prefix := plan\<rparr>)))))))"

section \<open>What a configuration that was accepted is\<close>

definition redis_url_ok :: "string \<Rightarrow> bool" where
  "redis_url_ok url \<longleftrightarrow> str_strip url = url \<and> list_ex (str_startswith url) REDIS_URL_SCHEMES"

definition ai_settings_wf :: "ai_settings \<Rightarrow> bool" where
  "ai_settings_wf s \<longleftrightarrow>
     ai_settings_fields_ok s \<and> ais_log_level s \<in> {''DEBUG'', ''INFO'', ''WARNING'', ''ERROR'', ''CRITICAL''} \<and>
     ais_llm_model s \<noteq> [] \<and> ais_quota_key_prefix s \<noteq> [] \<and> ais_plan_key_prefix s \<noteq> [] \<and>
     ais_quota_key_prefix s \<noteq> ais_plan_key_prefix s \<and>
     (case ais_redis_url s of None \<Rightarrow> \<not> ais_require_shared_state s | Some url \<Rightarrow> redis_url_ok url) \<and>
     (ais_llm_provider s = ProviderCloud \<longrightarrow> ais_llm_model s \<noteq> MOCK_MODEL_ID)"

lemma normalise_redis_url_Inr:
  "normalise_redis_url v = Inr u \<Longrightarrow> (case u of None \<Rightarrow> True | Some url \<Rightarrow> redis_url_ok url)"
  by (auto simp: normalise_redis_url_def redis_url_ok_def Let_def str_strip_idem split: option.splits if_splits)

lemma redis_url_nonempty: "redis_url_ok url \<Longrightarrow> url \<noteq> []"
  by (auto simp: redis_url_ok_def REDIS_URL_SCHEMES_def str_startswith_def)

lemma shared_state_wf: "ai_settings_wf s \<Longrightarrow> shared_state_enabled s \<longleftrightarrow> ais_redis_url s \<noteq> None"
  by (auto simp: ai_settings_wf_def shared_state_enabled_def dest: redis_url_nonempty split: option.splits)

lemma make_ai_settings_wf:
  assumes "make_ai_settings raw = Inr s"
  shows "ai_settings_wf s"
proof -
  obtain level model url quota plan where ok: "ai_settings_fields_ok raw"
    and v: "ai_log_level (ais_log_level raw) = Inr level" "non_empty_model (ais_llm_model raw) = Inr model"
      "normalise_redis_url (ais_redis_url raw) = Inr url" "non_empty_prefix (ais_quota_key_prefix raw) = Inr quota"
      "non_empty_prefix (ais_plan_key_prefix raw) = Inr plan"
    and post: "ai_settings_post_init
       (raw\<lparr>ais_log_level := level, ais_llm_model := model, ais_redis_url := url,
            ais_quota_key_prefix := quota, ais_plan_key_prefix := plan\<rparr>) = Inr s"
    using assms by (auto simp: make_ai_settings_def bind_r_Inr_iff split: if_splits)
  have s: "s = raw\<lparr>ais_log_level := level, ais_llm_model := model, ais_redis_url := url,
            ais_quota_key_prefix := quota, ais_plan_key_prefix := plan\<rparr>"
    using post by (simp add: ai_settings_post_init_def split: if_splits)
  have "ai_settings_fields_ok s" using ok unfolding ai_settings_fields_ok_def s by simp
  moreover have "level \<in> {''DEBUG'', ''INFO'', ''WARNING'', ''ERROR'', ''CRITICAL''}"
    using v(1) unfolding ai_log_level_def Let_def by (cases "str_upper (str_strip (ais_log_level raw)) \<in> {''DEBUG'', ''INFO'', ''WARNING'', ''ERROR'', ''CRITICAL''}") (simp_all only: simp_thms if_True if_False sum.inject sum.distinct)
  moreover have "model \<noteq> []" "quota \<noteq> []" "plan \<noteq> []"
    using v(2,4,5) by (auto simp: non_empty_model_def non_empty_prefix_def Let_def split: if_splits)
  moreover have "quota \<noteq> plan" "url = None \<longrightarrow> \<not> ais_require_shared_state raw"
    "ais_llm_provider raw = ProviderCloud \<longrightarrow> model \<noteq> MOCK_MODEL_ID"
    using post by (auto simp: ai_settings_post_init_def shared_state_enabled_def require_live_llm_def split: if_splits)
  ultimately show ?thesis using normalise_redis_url_Inr [OF v(3)] by (auto simp: ai_settings_wf_def s split: option.splits)
qed

section \<open>Properties\<close>

text \<open>
  A configuration that is accepted is well formed: every number in its range, no empty prefix or model, the two
  key prefixes different, shared state required only with a Redis URL of a scheme the client takes, and a live
  provider only with a model that is not the offline default.  The reported backend tells which of the two
  kinds of state is in use.
\<close>

theorem ai_settings_accepted:
  "make_ai_settings raw = Inr s \<Longrightarrow>
   ai_settings_wf s \<and> (state_backend s = ''redis'' \<longleftrightarrow> ais_redis_url s \<noteq> None) \<and>
   (ais_require_shared_state s \<longrightarrow> state_backend s = ''redis'')"
proof -
  assume "make_ai_settings raw = Inr s"
  then have wf: "ai_settings_wf s" by (rule make_ai_settings_wf)
  then show ?thesis using shared_state_wf [OF wf]
    by (auto simp: state_backend_def ai_settings_wf_def split: option.splits)
qed

lemma defaults_accepted: "make_ai_settings ai_settings_defaults = Inr ai_settings_defaults"
proof -
  have "ai_settings_fields_ok ai_settings_defaults" by (simp add: ai_settings_fields_ok_def ai_settings_defaults_def)
  moreover have "ai_log_level ''INFO'' = Inr ''INFO''" "non_empty_model MOCK_MODEL_ID = Inr MOCK_MODEL_ID"
    "non_empty_prefix ''quota:'' = Inr ''quota:''" "non_empty_prefix ''plan:'' = Inr ''plan:''"
    by code_simp+
  ultimately show ?thesis
    by (simp add: make_ai_settings_def ai_settings_defaults_def normalise_redis_url_def ai_settings_post_init_def
        shared_state_enabled_def require_live_llm_def)
qed

theorem ai_settings_accepted_witness:
  "ai_settings_wf ai_settings_defaults \<and> state_backend ai_settings_defaults = ''memory''"
  using ai_settings_accepted [OF defaults_accepted] by (simp add: state_backend_def ai_settings_defaults_def split: if_splits)

end
