(* ===== verification/Interceptor_App.thy ===== *)
theory Interceptor_App
  imports Planner Redis_Limiter License_Gate Interceptor_Settings "HOL-Library.Char_ord"
    "HOL-Library.List_Lexorder"
begin

text \<open>
  The AI interceptor as a service (ai-interceptor/app/main.py, with llm_cloud.py, the timing middleware of
  metrics.py and the factories of llm.py, redis_state.py and idempotency.py): start-up, the routes with their
  error handlers, and the middlewares around them.  A request runs on an explicit state: the limiter, the
  plan store and the counters.

  Outside the repository are the framework's composition of the middlewares (\<open>stack\<close>, with the documented
  law \<open>later_is_outer\<close>), the conversion of a plan to and from JSON (\<open>plan_codec\<close>, which \<open>codec_ok\<close> says is
  lossless) and the number texts.  What differs from request to request is a record \<open>ai_world\<close>: the clocks,
  the drawn ids, the replies of Redis and the model provider, all arbitrary.
\<close>

section \<open>The environment\<close>

type_synonym plan_record = "(string \<times> json) list"

record ai_library =
  li_g :: "rat \<Rightarrow> string"
  li_f :: "rat \<Rightarrow> string"
  li_unfloat :: "string \<Rightarrow> rat option"
  li_plan_length :: "llm_plan \<Rightarrow> nat"
  li_read_plan :: "json \<Rightarrow> llm_plan option"
  li_dump :: "command_sequence \<Rightarrow> plan_record"
  li_load :: "plan_record \<Rightarrow> command_sequence raises"
  li_dumps :: "json \<Rightarrow> string"
  li_loads :: "string \<Rightarrow> json option"
  li_sha :: "string \<Rightarrow> string"

text \<open>\<open>model_dump\<close> and \<open>model_validate\<close> are inverse on a valid plan, and a plan has fields.\<close>

definition codec_ok :: "ai_library \<Rightarrow> bool" where
  "codec_ok lib \<longleftrightarrow> (\<forall>c. command_sequence_ok c \<longrightarrow> li_dump lib c \<noteq> [] \<and> li_load lib (li_dump lib c) = Inr c)"

section \<open>The live provider\<close>

record cloud_block =
  cb_type :: "string option"
  cb_name :: "string option"
  cb_input :: json

record cloud_reply =
  cr_stop_reason :: "string option"
  cr_content :: "cloud_block list"
  cr_model :: "string option"
  cr_input_tokens :: "int option"
  cr_output_tokens :: "int option"

text \<open>The exchange answers or raises.\<close>

type_synonym cloud_exchange = "string \<Rightarrow> string \<Rightarrow> string \<Rightarrow> json \<Rightarrow> cloud_reply option"

definition find_tool_use :: "cloud_reply \<Rightarrow> string \<Rightarrow> cloud_block option" where
  "find_tool_use response tool_name =
     find (\<lambda>b. cb_type b = Some ''tool_use'' \<and> cb_name b = Some tool_name) (cr_content response)"

definition cloud_complete :: "(json \<Rightarrow> llm_plan option) \<Rightarrow> cloud_exchange \<Rightarrow> string \<Rightarrow> string \<Rightarrow> string \<Rightarrow> json \<Rightarrow> provider_turn" where
  "cloud_complete read_plan exchange model system user tool =
     (case exchange model system user tool of
        None \<Rightarrow> ProviderRaised
      | Some response \<Rightarrow>
          if cr_stop_reason response = Some ''refusal'' then ProviderRaised
          else (case find_tool_use response TOOL_NAME of
                  None \<Rightarrow> ProviderRaised
                | Some block \<Rightarrow>
                    (case cb_input block of
                       JObj kvs \<Rightarrow>
                         ToolCalled \<lparr>tc_input = read_plan (JObj kvs),
                           tc_model = (case cr_model response of Some m \<Rightarrow> if m \<noteq> [] then m else model | None \<Rightarrow> model),
                           tc_input_tokens = (case cr_input_tokens response of Some n \<Rightarrow> n | None \<Rightarrow> 0),
                           tc_output_tokens = (case cr_output_tokens response of Some n \<Rightarrow> n | None \<Rightarrow> 0)\<rparr>
                     | _ \<Rightarrow> ProviderRaised)))"

text \<open>
  One provider is chosen at start-up.  How long a live model takes is up to the world; the offline one
  takes the latency it is told to simulate.
\<close>

definition build_provider ::
    "ai_settings \<Rightarrow> ai_library \<Rightarrow> cloud_exchange \<Rightarrow> rat \<Rightarrow> string \<Rightarrow> string \<Rightarrow> string \<Rightarrow> json \<Rightarrow> rat \<times> provider_turn" where
  "build_provider settings lib exchange duration =
     (if require_live_llm settings
      then (\<lambda>model system user tool. (duration, cloud_complete (li_read_plan lib) exchange model system user tool))
      else mock_complete (ais_llm_simulated_latency_ms settings) (li_g lib) (li_unfloat lib) (li_plan_length lib))"

record ai_world =
  aw_now :: rat
  aw_wall :: rat
  aw_fresh_id :: string
  aw_elapsed :: string
  aw_plan_hex :: string
  aw_latency_ms :: rat
  aw_script :: "string \<Rightarrow> int \<Rightarrow> int \<Rightarrow> (int \<times> int \<times> int) option"
  aw_get :: "string \<Rightarrow> string option redis_reply"
  aw_set :: "string \<Rightarrow> string \<Rightarrow> int \<Rightarrow> bool redis_reply"
  aw_ping :: bool
  aw_exchange :: cloud_exchange
  aw_llm_seconds :: rat

definition world_provider ::
    "ai_settings \<Rightarrow> ai_library \<Rightarrow> ai_world \<Rightarrow> string \<Rightarrow> string \<Rightarrow> string \<Rightarrow> json \<Rightarrow> rat \<times> provider_turn" where
  "world_provider settings lib w = build_provider settings lib (aw_exchange w) (aw_llm_seconds w)"

section \<open>Shared or local state\<close>

datatype limiter = LocalLimiter window_limiter | RedisLimiter redis_limiter

definition redis_configured :: "ai_settings \<Rightarrow> bool" where
  "redis_configured settings \<longleftrightarrow> shared_state_enabled settings"

definition build_limiter :: "ai_settings \<Rightarrow> limiter" where
  "build_limiter settings =
     (if \<not> redis_configured settings then
        LocalLimiter (window_limiter_init (of_int (ais_rate_limit_window_seconds settings)))
      else RedisLimiter (redis_limiter_init (ais_rate_limit_window_seconds settings) (ais_quota_key_prefix settings)
             (ais_rate_limit_fail_open settings)))"

definition limiter_check :: "ai_world \<Rightarrow> string \<Rightarrow> int \<Rightarrow> limiter \<Rightarrow> quota_answer \<times> limiter" where
  "limiter_check w key limit l =
     (case l of
        LocalLimiter wl \<Rightarrow> map_prod id LocalLimiter (sliding_window_check (aw_now w) key limit wl)
      | RedisLimiter rl \<Rightarrow>
          map_prod Inr (\<lambda>st. RedisLimiter (fst st))
            (redis_check (\<lambda>k window n s. (aw_script w k window n, s)) key limit (rl, ())))"

definition limiter_report :: "limiter \<Rightarrow> limiter_stats option" where
  "limiter_report l = (case l of LocalLimiter _ \<Rightarrow> None | RedisLimiter rl \<Rightarrow> Some (rl_stats rl))"

datatype plan_store = MemoryStore "plan_record plan_cache" | SharedStore redis_plan_store

definition build_plan_store :: "ai_settings \<Rightarrow> plan_store" where
  "build_plan_store settings =
     (if \<not> redis_configured settings then
        MemoryStore \<lparr>pc_max = nat (ais_idempotency_cache_size settings), pc_data = [], pc_hits = 0, pc_misses = 0, pc_stores = 0\<rparr>
      else SharedStore
        \<lparr>rs_prefix = ais_plan_key_prefix settings, rs_ttl_ms = ais_idempotency_ttl_seconds settings * 1000,
         rs_fail_open = ais_idempotency_fail_open settings, rs_hits = 0, rs_misses = 0, rs_stores = 0, rs_conflicts = 0,
         rs_write_errors = 0, rs_read_errors = 0, rs_failed_open = 0, rs_failed_closed = 0\<rparr>)"

text \<open>\<open>PlanStoreStats\<close>; the local store counts lookups and insertions only.\<close>

record plan_store_stats =
  ss_backend :: string
  ss_fail_open :: bool
  ss_hits :: nat
  ss_misses :: nat
  ss_stores :: nat
  ss_conflicts :: nat
  ss_write_errors :: nat
  ss_read_errors :: nat
  ss_failed_open :: nat
  ss_failed_closed :: nat

definition plan_store_report :: "plan_store \<Rightarrow> plan_store_stats" where
  "plan_store_report store =
     (case store of
        MemoryStore c \<Rightarrow>
          \<lparr>ss_backend = ''memory'', ss_fail_open = True, ss_hits = pc_hits c, ss_misses = pc_misses c,
           ss_stores = pc_stores c, ss_conflicts = 0, ss_write_errors = 0, ss_read_errors = 0, ss_failed_open = 0,
           ss_failed_closed = 0\<rparr>
      | SharedStore s \<Rightarrow>
          \<lparr>ss_backend = ''redis'', ss_fail_open = rs_fail_open s, ss_hits = rs_hits s, ss_misses = rs_misses s,
           ss_stores = rs_stores s, ss_conflicts = rs_conflicts s, ss_write_errors = rs_write_errors s,
           ss_read_errors = rs_read_errors s, ss_failed_open = rs_failed_open s,
           ss_failed_closed = rs_failed_closed s\<rparr>)"

definition store_get :: "ai_library \<Rightarrow> ai_world \<Rightarrow> event_key \<Rightarrow> plan_store \<Rightarrow> (store_error + plan_record option) \<times> plan_store" where
  "store_get lib w key store =
     (case store of
        MemoryStore c \<Rightarrow> map_prod Inr MemoryStore (plan_cache_get key c)
      | SharedStore s \<Rightarrow> map_prod id SharedStore (redis_plan_get (li_loads lib) (aw_get w) key s))"

definition store_put :: "ai_library \<Rightarrow> ai_world \<Rightarrow> event_key \<Rightarrow> plan_record \<Rightarrow> plan_store \<Rightarrow> plan_store" where
  "store_put lib w key v store =
     (case store of
        MemoryStore c \<Rightarrow> MemoryStore (plan_cache_put key v c)
      | SharedStore s \<Rightarrow> SharedStore (redis_plan_put (aw_set w) (li_dumps lib) key v s))"

section \<open>State, requests and answers\<close>

text \<open>
  Counters are the lists of the labels they were incremented with.  A timing is the route template and the
  status of a request.
\<close>

record app_state = "limiter gate_state" +
  as_store :: plan_store
  as_redis_ready :: bool
  as_timings :: "(string \<times> string) list"
  as_replays :: "string list"
  as_issued :: "(string \<times> string \<times> string \<times> bool) list"
  as_planned :: "string list"

record ai_call =
  call_request :: http_request
  call_method :: string
  call_body :: "ai_payload raises"

record license_view =
  lv_key_id :: string
  lv_tenant :: string
  lv_tier :: string
  lv_features :: "string list"
  lv_quota_per_minute :: int
  lv_expires_at :: py_datetime
  lv_valid :: bool

record health_view =
  hv_service :: string
  hv_environment :: string
  hv_llm_provider :: llm_provider
  hv_llm_model :: string
  hv_state_backend :: string

record ready_view =
  rv_status :: string
  rv_state_backend :: string
  rv_configured :: bool
  rv_reachable :: "bool option"
  rv_limiter :: "limiter_stats option"
  rv_store :: plan_store_stats

datatype app_content =
    PlanBody command_sequence
  | LicenseBody license_view
  | HealthBody health_view
  | ReadyBody ready_view
  | OtherBody

datatype app_error =
    RequestInvalid
  | StoreDown
  | PlannerDown planner_error
  | Unhandled py_exn

text \<open>Start-up: where shared state is required, an unreachable server stops the process.\<close>

definition lifespan_start :: "ai_settings \<Rightarrow> bool \<Rightarrow> app_state raises" where
  "lifespan_start settings ping =
     (if redis_configured settings \<and> \<not> ping \<and> ais_require_shared_state settings then Inl RuntimeErrorExn
      else Inr \<lparr>gs_limiter = build_limiter settings, gs_rejections = [], gs_decisions = [],
                as_store = build_plan_store settings, as_redis_ready = (redis_configured settings \<and> ping),
                as_timings = [], as_replays = [], as_issued = [], as_planned = []\<rparr>)"

section \<open>The routes\<close>

definition require_license :: "license option \<Rightarrow> app_error + license" where
  "require_license l = (case l of None \<Rightarrow> Inl (Unhandled RuntimeErrorExn) | Some lic \<Rightarrow> Inr lic)"

definition policy_notes :: "license \<Rightarrow> ai_payload \<Rightarrow> string list" where
  "policy_notes lic p =
     [''Tenant '' @ lic_tenant lic @ '' is on the '' @ lic_tier lic @ '' tier.''] @
     (if lic_tier lic \<noteq> ''ENTERPRISE''
      then [''Autonomous execution is not licensed; every command requires human approval.''] else []) @
     (if ap_degraded p
      then [''Graph or snapshot context is incomplete; prefer inspection over irreversible actions.''] else []) @
     (if ac_criticality (ap_context p) = ''SAFETY_CRITICAL''
      then [''Asset is safety critical; airworthiness/permit-to-work sign-off is mandatory.''] else [])"

text \<open>A fresh plan: context, planner, envelope, and the validation of the envelope.\<close>

definition plan_mutation :: "ai_settings \<Rightarrow> ai_library \<Rightarrow> ai_world \<Rightarrow> license \<Rightarrow> ai_payload \<Rightarrow> app_error + command_sequence" where
  "plan_mutation settings lib w lic p =
     (case make_prompt_context p (lic_tenant lic) (lic_tier lic) (ais_max_commands settings) (policy_notes lic p) of
        Inl e \<Rightarrow> Inl (Unhandled e)
      | Inr x \<Rightarrow>
          (case planner_plan (li_g lib) (li_f lib) (world_provider settings lib w) (ais_llm_model settings)
                  (ais_llm_timeout_seconds settings) (aw_latency_ms w) x of
             Inl e \<Rightarrow> Inl (PlannerDown e)
           | Inr r \<Rightarrow>
               (case make_command_sequence (build_command_sequence p r (lic_tenant lic) (aw_plan_hex w) (aw_wall w)) of
                  Inl e \<Rightarrow> Inl (Unhandled e)
                | Inr c \<Rightarrow> Inr c)))"

text \<open>
  \<open>if cached := ...\<close>: an empty record is not a hit.  A record that is not a plan is an exception no handler
  is registered for.  The answer carries X-Idempotent-Replay.
\<close>

definition intercept_route ::
    "ai_settings \<Rightarrow> ai_library \<Rightarrow> ai_world \<Rightarrow> license \<Rightarrow> ai_payload \<Rightarrow> app_state
      \<Rightarrow> (app_error + command_sequence \<times> bool) \<times> app_state" where
  "intercept_route settings lib w lic p s =
     (let key = (lic_tenant lic, ap_event_id p); (found, store) = store_get lib w key (as_store s);
          s1 = s\<lparr>as_store := store\<rparr>;
          fresh = (case plan_mutation settings lib w lic p of
                     Inl e \<Rightarrow> (Inl e, s1)
                   | Inr c \<Rightarrow>
                       (Inr (c, False),
                        s1\<lparr>as_store := store_put lib w key (li_dump lib c) store,
                           as_issued := as_issued s @ [(lic_tenant lic, lic_tier lic, ai_severity_value (ap_severity p), ap_degraded p)],
                           as_planned := as_planned s @ map (\<lambda>k. ai_action_value (acm_action k)) (cs_commands c)\<rparr>))
      in case found of
           Inl PlanStoreUnavailable \<Rightarrow> (Inl StoreDown, s1)
         | Inr (Some (kv # kvs)) \<Rightarrow>
             (let s2 = s1\<lparr>as_replays := as_replays s @ [lic_tenant lic]\<rparr> in
              case li_load lib (kv # kvs) of Inl e \<Rightarrow> (Inl (Unhandled e), s2) | Inr c \<Rightarrow> (Inr (c, True), s2))
         | _ \<Rightarrow> fresh)"

definition introspect :: "rat \<Rightarrow> license \<Rightarrow> app_error + license_view" where
  "introspect wall lic =
     (case lic_is_expired wall lic of
        Inl e \<Rightarrow> Inl (Unhandled e)
      | Inr gone \<Rightarrow>
          Inr \<lparr>lv_key_id = lic_key_id lic, lv_tenant = lic_tenant lic, lv_tier = lic_tier lic,
               lv_features = sort (remdups (lic_features lic)), lv_quota_per_minute = lic_quota_per_minute lic,
               lv_expires_at = lic_expires_at lic, lv_valid = (\<not> gone)\<rparr>)"

definition healthz :: "ai_settings \<Rightarrow> health_view" where
  "healthz settings =
     \<lparr>hv_service = ais_service_name settings, hv_environment = ais_environment settings,
      hv_llm_provider = ais_llm_provider settings, hv_llm_model = ais_llm_model settings,
      hv_state_backend = state_backend settings\<rparr>"

definition readyz :: "ai_settings \<Rightarrow> ai_world \<Rightarrow> app_state \<Rightarrow> int \<times> ready_view" where
  "readyz settings w s =
     (let configured = redis_configured settings;
          ready = (if configured then aw_ping w \<or> \<not> ais_require_shared_state settings
                   else \<not> ais_require_shared_state settings)
      in (if ready then 200 else 503,
          \<lparr>rv_status = (if ready then ''ready'' else ''degraded''), rv_state_backend = state_backend settings,
           rv_configured = configured, rv_reachable = (if configured then Some (aw_ping w) else None),
           rv_limiter = limiter_report (gs_limiter s),
           rv_store = plan_store_report (as_store s)\<rparr>))"

section \<open>Error handlers and middlewares\<close>

definition ok_response :: "app_content \<Rightarrow> (string \<times> string) list \<Rightarrow> app_content http_response" where
  "ok_response content headers = \<lparr>rs_status = 200, rs_code = [], rs_headers = headers, rs_content = Some content\<rparr>"

text \<open>What no handler of its own is registered for leaves the routes, and the middlewares, as an exception.\<close>

definition error_handler :: "string \<Rightarrow> app_error \<Rightarrow> app_content http_response raises" where
  "error_handler request_id err =
     (case err of
        RequestInvalid \<Rightarrow> Inr (error_response 422 ''payload_invalid'' request_id [])
      | StoreDown \<Rightarrow> Inr (error_response 503 ''idempotency_unavailable'' request_id [(''Retry-After'', ''5'')])
      | PlannerDown _ \<Rightarrow> Inr (error_response 502 ''planner_unavailable'' request_id [])
      | Unhandled e \<Rightarrow> Inl e)"

definition ROUTES :: "(string \<times> string) list" where
  "ROUTES =
     [(''/healthz'', ''GET''), (''/readyz'', ''GET''), (''/metrics'', ''GET''), (''/v1/license'', ''GET''), (''/v1/intercept'', ''POST'')]"

definition normalise_endpoint :: "string \<Rightarrow> string" where
  "normalise_endpoint path = (if path \<in> fst ` set ROUTES then path else ''<unmatched>'')"

type_synonym app = "license option \<Rightarrow> ai_call \<Rightarrow> app_state \<Rightarrow> app_content http_response raises \<times> app_state"

definition call_id :: "ai_world \<Rightarrow> ai_call \<Rightarrow> string" where
  "call_id w call =
     (case rq_header (call_request call) ''X-Request-ID'' of
        Some i \<Rightarrow> if i \<noteq> [] then i else aw_fresh_id w | None \<Rightarrow> aw_fresh_id w)"

definition intercept_app :: "ai_settings \<Rightarrow> ai_library \<Rightarrow> ai_world \<Rightarrow> app" where
  "intercept_app settings lib w lic call s =
     (case require_license lic of
        Inl err \<Rightarrow> (error_handler (call_id w call) err, s)
      | Inr l \<Rightarrow>
          (case bind_r (call_body call) make_ai_payload of
             Inl _ \<Rightarrow> (error_handler (call_id w call) RequestInvalid, s)
           | Inr p \<Rightarrow>
               (case intercept_route settings lib w l p s of
                  (Inl err, s') \<Rightarrow> (error_handler (call_id w call) err, s')
                | (Inr (c, replay), s') \<Rightarrow>
                    (Inr (ok_response (PlanBody c) [(''X-Idempotent-Replay'', if replay then ''true'' else ''false'')]), s'))))"

definition routes :: "ai_settings \<Rightarrow> ai_library \<Rightarrow> ai_world \<Rightarrow> app" where
  "routes settings lib w lic call s =
     (let path = rq_path (call_request call) in
      if path \<notin> fst ` set ROUTES then (Inr \<lparr>rs_status = 404, rs_code = [], rs_headers = [], rs_content = None\<rparr>, s)
      else if (path, call_method call) \<notin> set ROUTES then
        (Inr \<lparr>rs_status = 405, rs_code = [], rs_headers = [], rs_content = None\<rparr>, s)
      else if path = ''/v1/intercept'' then intercept_app settings lib w lic call s
      else if path = ''/v1/license'' then
        (case bind_r (require_license lic) (introspect (aw_wall w)) of
           Inl err \<Rightarrow> (error_handler (call_id w call) err, s)
         | Inr v \<Rightarrow> (Inr (ok_response (LicenseBody v) []), s))
      else if path = ''/readyz'' then
        (let (status_code, v) = readyz settings w s in
         (Inr ((ok_response (ReadyBody v) [])\<lparr>rs_status := status_code\<rparr>), s))
      else if path = ''/healthz'' then (Inr (ok_response (HealthBody (healthz settings)) []), s)
      else (Inr (ok_response OtherBody []), s))"

definition timing_layer :: "app \<Rightarrow> app" where
  "timing_layer inner lic call s =
     (let (answer, s') = inner lic call s;
          status_code = (case answer of Inl _ \<Rightarrow> ''500'' | Inr resp \<Rightarrow> int_str (rs_status resp))
      in (answer, s'\<lparr>as_timings := as_timings s' @ [(normalise_endpoint (rq_path (call_request call)), status_code)]\<rparr>))"

definition license_layer :: "ai_settings \<Rightarrow> ai_library \<Rightarrow> license_registry \<Rightarrow> ai_world \<Rightarrow> app \<Rightarrow> app" where
  "license_layer settings lib registry w inner lic call s =
     dispatch (li_sha lib)
       \<lparr>mw_registry = registry, mw_header = ais_license_header settings, mw_exempt = EXEMPT_PATHS,
        mw_feature_by_prefix = FEATURE_BY_PREFIX\<rparr>
       (limiter_check w) (aw_wall w) (aw_fresh_id w) (aw_elapsed w) (\<lambda>l. inner l call) (call_request call) s"

text \<open>The layers in the order create_app registers them, and the law of the framework about that order.\<close>

definition registered_layers :: "ai_settings \<Rightarrow> ai_library \<Rightarrow> license_registry \<Rightarrow> ai_world \<Rightarrow> (app \<Rightarrow> app) list" where
  "registered_layers settings lib registry w = [timing_layer, license_layer settings lib registry w]"

definition later_is_outer :: "((app \<Rightarrow> app) list \<Rightarrow> app \<Rightarrow> app) \<Rightarrow> bool" where
  "later_is_outer stack \<longleftrightarrow> (\<forall>layers inner. stack layers inner = fold (\<lambda>layer a. layer a) layers inner)"

text \<open>
  The answer to a request.  An exception that passes the layers is answered 500; the request id is reset by
  then, so the answer carries the default.
\<close>

definition serve ::
    "((app \<Rightarrow> app) list \<Rightarrow> app \<Rightarrow> app) \<Rightarrow> ai_settings \<Rightarrow> ai_library \<Rightarrow> license_registry \<Rightarrow> ai_world \<Rightarrow> ai_call
      \<Rightarrow> app_state \<Rightarrow> app_content http_response \<times> app_state" where
  "serve stack settings lib registry w call s =
     (case stack (registered_layers settings lib registry w) (routes settings lib w) None call s of
        (Inl _, s') \<Rightarrow> (error_response 500 ''internal_error'' ''-'' [], s')
      | (Inr resp, s') \<Rightarrow> (resp, s'))"

text \<open>Requests one after another: each is served before the next is taken.\<close>

fun serve_calls ::
    "((app \<Rightarrow> app) list \<Rightarrow> app \<Rightarrow> app) \<Rightarrow> ai_settings \<Rightarrow> ai_library \<Rightarrow> license_registry \<Rightarrow> (ai_world \<times> ai_call) list
      \<Rightarrow> app_state \<Rightarrow> app_content http_response list \<times> app_state" where
  "serve_calls stack settings lib registry [] s = ([], s)"
| "serve_calls stack settings lib registry ((w, call) # calls) s =
     (let (resp, s') = serve stack settings lib registry w call s;
          (resps, s'') = serve_calls stack settings lib registry calls s'
      in (resp # resps, s''))"

section \<open>The layers\<close>

lemma stack_layers:
  "later_is_outer stack \<Longrightarrow> stack (registered_layers settings lib registry w) inner =
     license_layer settings lib registry w (timing_layer inner)"
  by (simp add: later_is_outer_def registered_layers_def)

definition gate_of :: "ai_settings \<Rightarrow> license_registry \<Rightarrow> middleware" where
  "gate_of settings registry =
     \<lparr>mw_registry = registry, mw_header = ais_license_header settings, mw_exempt = EXEMPT_PATHS,
      mw_feature_by_prefix = FEATURE_BY_PREFIX\<rparr>"

lemma license_layer_dispatch:
  "license_layer settings lib registry w inner lic call s =
     dispatch (li_sha lib) (gate_of settings registry) (limiter_check w) (aw_wall w) (aw_fresh_id w) (aw_elapsed w)
       (\<lambda>l. inner l call) (call_request call) s"
  by (simp add: license_layer_def gate_of_def)

text \<open>The licence a call presents, and whether the quota admits it.\<close>

definition call_license :: "ai_settings \<Rightarrow> ai_library \<Rightarrow> license_registry \<Rightarrow> ai_world \<Rightarrow> ai_call \<Rightarrow> license option" where
  "call_license settings lib registry w call =
     gate_license (li_sha lib) (gate_of settings registry) (aw_wall w) (call_request call)"

definition call_exempt :: "ai_call \<Rightarrow> bool" where
  "call_exempt call \<longleftrightarrow> rq_path (call_request call) \<in> set EXEMPT_PATHS"

lemma is_exempt_gate_of: "is_exempt (gate_of settings registry) path \<longleftrightarrow> path \<in> set EXEMPT_PATHS"
  by (simp add: is_exempt_def gate_of_def)

lemma app_fields:
  "gate_state.more s = gate_state.more (t :: app_state) \<Longrightarrow>
   as_store s = as_store t \<and> as_timings s = as_timings t \<and> as_issued s = as_issued t \<and>
   as_replays s = as_replays t \<and> as_planned s = as_planned t"
  by (cases s; cases t) simp

text \<open>
  The four ways a request goes: exempt, turned away before the quota, turned away by it, or handled.
\<close>

definition handled_by :: "ai_settings \<Rightarrow> ai_library \<Rightarrow> ai_world \<Rightarrow> license option \<Rightarrow> ai_call \<Rightarrow> app_state
    \<Rightarrow> app_content http_response \<times> app_state \<Rightarrow> bool" where
  "handled_by settings lib w lic call s outcome \<longleftrightarrow>
     (\<exists>s2. gate_state.more s2 = gate_state.more s \<and>
       (case timing_layer (routes settings lib w) lic call s2 of
          (Inl _, s3) \<Rightarrow> outcome = (error_response 500 ''internal_error'' ''-'' [], s3)
        | (Inr resp, s3) \<Rightarrow> snd outcome = s3 \<and> rs_status (fst outcome) = rs_status resp \<and>
            rs_code (fst outcome) = rs_code resp \<and> rs_content (fst outcome) = rs_content resp))"

lemma respond_handled:
  assumes "gate_state.more s2 = gate_state.more s"
    and "\<And>resp. rs_status (g resp) = rs_status resp \<and> rs_code (g resp) = rs_code resp \<and> rs_content (g resp) = rs_content resp"
    and "answer = respond g (timing_layer (routes settings lib w) lic call s2)"
  shows "handled_by settings lib w lic call s
    (case answer of (Inl _, s') \<Rightarrow> (error_response 500 ''internal_error'' ''-'' [], s') | (Inr resp, s') \<Rightarrow> (resp, s'))"
proof (cases "timing_layer (routes settings lib w) lic call s2")
  case (Pair a s3)
  then show ?thesis using assms unfolding handled_by_def
    by (intro exI [of _ s2]) (cases a; simp add: respond_def)
qed

lemma serve_cases:
  assumes "later_is_outer stack"
  obtains
    (exempt) "call_exempt call" "handled_by settings lib w None call s (serve stack settings lib registry w call s)"
  | (refused) "\<not> call_exempt call" "call_license settings lib registry w call = None"
      "gate_state.more (snd (serve stack settings lib registry w call s)) = gate_state.more s"
      "rs_content (fst (serve stack settings lib registry w call s)) = None"
  | (throttled) lic where "\<not> call_exempt call" "call_license settings lib registry w call = Some lic"
      "\<not> admission (fst (limiter_check w (lic_key_id lic) (lic_quota_per_minute lic) (gs_limiter s)))"
      "gate_state.more (snd (serve stack settings lib registry w call s)) = gate_state.more s"
      "rs_content (fst (serve stack settings lib registry w call s)) = None"
  | (handled) lic where "\<not> call_exempt call" "call_license settings lib registry w call = Some lic"
      "admission (fst (limiter_check w (lic_key_id lic) (lic_quota_per_minute lic) (gs_limiter s)))"
      "handled_by settings lib w (Some lic) call s (serve stack settings lib registry w call s)"
proof -
  let ?d = "dispatch (li_sha lib) (gate_of settings registry) (limiter_check w) (aw_wall w) (aw_fresh_id w)
      (aw_elapsed w) (\<lambda>l. timing_layer (routes settings lib w) l call) (call_request call) s"
  have serve: "serve stack settings lib registry w call s =
      (case ?d of (Inl _, s') \<Rightarrow> (error_response 500 ''internal_error'' ''-'' [], s') | (Inr resp, s') \<Rightarrow> (resp, s'))"
    by (simp add: serve_def stack_layers [OF assms] license_layer_dispatch)
  show thesis
  proof (cases "call_exempt call")
    case True
    then have e: "is_exempt (gate_of settings registry) (rq_path (call_request call))"
      by (simp add: call_exempt_def is_exempt_gate_of)
    obtain i' e' where d: "?d = respond (finalise i' e') (timing_layer (routes settings lib w) None call s)"
      using dispatch_exempt [OF e] by blast
    have "handled_by settings lib w None call s (serve stack settings lib registry w call s)"
      unfolding serve by (rule respond_handled [OF refl _ d]) (simp add: finalise_def set_header_def)
    then show thesis using exempt True by blast
  next
    case False
    then have ne: "\<not> is_exempt (gate_of settings registry) (rq_path (call_request call))"
      by (simp add: call_exempt_def is_exempt_gate_of)
    show thesis
    proof (cases "call_license settings lib registry w call")
      case None
      then have no: "gate_license (li_sha lib) (gate_of settings registry) (aw_wall w) (call_request call) = None"
        by (simp add: call_license_def)
      have more: "gate_state.more (snd ?d) = gate_state.more s"
        by (rule dispatch_unlicensed [OF ne no, THEN conjunct2, THEN conjunct1])
      have content: "\<forall>resp. fst ?d = Inr resp \<longrightarrow> rs_content resp = None"
        by (rule dispatch_no_content [OF ne]) (simp add: no)
      show thesis using refused [OF False None] more content unfolding serve
        by (cases ?d) (auto simp: error_response_def set_header_def split: sum.splits)
    next
      case (Some lic)
      then have yes: "gate_license (li_sha lib) (gate_of settings registry) (aw_wall w) (call_request call) = Some lic"
        by (simp add: call_license_def)
      show thesis
      proof (cases "admission (fst (limiter_check w (lic_key_id lic) (lic_quota_per_minute lic) (gs_limiter s)))")
        case True
        obtain s2 g where g: "?d = respond g (timing_layer (routes settings lib w) (Some lic) call s2)"
          "gs_limiter s2 = snd (limiter_check w (lic_key_id lic) (lic_quota_per_minute lic) (gs_limiter s))"
          "gate_state.more s2 = gate_state.more s"
          "\<And>resp. rs_status (g resp) = rs_status resp \<and> rs_code (g resp) = rs_code resp \<and> rs_content (g resp) = rs_content resp"
          by (rule dispatch_admitted [where check = "limiter_check w" and s = s and f =
                "\<lambda>l. timing_layer (routes settings lib w) l call" and i = "aw_fresh_id w" and e = "aw_elapsed w",
                OF ne yes True]) (rule that)
        have "handled_by settings lib w (Some lic) call s (serve stack settings lib registry w call s)"
          unfolding serve by (rule respond_handled [OF g(3) g(4) g(1)])
        then show thesis using handled [OF False Some True] by blast
      next
        case no: False
        have more: "gate_state.more (snd ?d) = gate_state.more s"
          by (rule dispatch_refused [where check = "limiter_check w" and s = s, OF ne yes no, THEN conjunct2, THEN conjunct1])
        have content: "\<forall>resp. fst ?d = Inr resp \<longrightarrow> rs_content resp = None"
          by (rule dispatch_no_content [OF ne]) (simp add: yes no)
        show thesis using throttled [OF False Some no] more content unfolding serve
          by (cases ?d) (auto simp: error_response_def set_header_def split: sum.splits)
      qed
    qed
  qed
qed

section \<open>What a fresh plan is\<close>

definition plan_bound :: "license \<Rightarrow> ai_payload \<Rightarrow> command_sequence \<Rightarrow> bool" where
  "plan_bound lic p c \<longleftrightarrow>
     command_sequence_ok c \<and> cs_commands c \<noteq> [] \<and> sequences_are_contiguous (cs_commands c) \<and>
     cs_tenant c = lic_tenant lic \<and> cs_event_id c = ap_event_id p \<and> cs_asset_id c = ap_asset_id p \<and>
     cs_severity c = ap_severity p \<and> cs_transition c = ap_transition p \<and> cs_context_degraded c = ap_degraded p"

lemma planner_plan_ok: "planner_plan g f provider model timeout ms x = Inr r \<Longrightarrow> llm_plan_ok (pr_plan r)"
  by (auto simp: planner_plan_def Let_def case_prod_beta split: provider_turn.splits option.splits if_splits)

lemma envelope_valid:
  "llm_plan_ok (pr_plan r) \<Longrightarrow> make_command_sequence (build_command_sequence p r tenant hex now) =
     Inr (build_command_sequence p r tenant hex now)"
  by (simp add: make_command_sequence_def command_sequence_ok_def build_command_sequence_def llm_plan_ok_def)

lemma plan_mutation_bound:
  assumes "plan_mutation settings lib w lic p = Inr c"
  shows "plan_bound lic p c"
proof -
  obtain r where r: "llm_plan_ok (pr_plan r)" "c = build_command_sequence p r (lic_tenant lic) (aw_plan_hex w) (aw_wall w)"
    using assms by (auto simp: plan_mutation_def envelope_valid planner_plan_ok dest: planner_plan_ok split: sum.splits)
  then show ?thesis
    by (simp add: plan_bound_def command_sequence_ok_def llm_plan_ok_def build_command_sequence_def)
qed

lemma plan_mutation_id: "plan_mutation settings lib w lic p = Inr c \<Longrightarrow> \<exists>h. cs_plan_id c = ''plan_'' @ h"
  by (auto simp: plan_mutation_def make_command_sequence_def build_command_sequence_def split: sum.splits if_splits)

lemma plan_mutation_errors:
  assumes "ai_settings_wf settings"
  shows "plan_mutation settings lib w lic p = Inl err \<Longrightarrow> \<exists>e. err = PlannerDown e"
proof -
  have "\<exists>x. make_prompt_context p (lic_tenant lic) (lic_tier lic) (ais_max_commands settings) (policy_notes lic p) = Inr x"
    using assms by (simp add: make_prompt_context_def ai_settings_wf_def ai_settings_fields_ok_def)
  then show "plan_mutation settings lib w lic p = Inl err \<Longrightarrow> \<exists>e. err = PlannerDown e"
    by (auto simp: plan_mutation_def envelope_valid dest!: planner_plan_ok split: sum.splits)
qed

section \<open>The local plan store\<close>

definition stored_plan :: "ai_library \<Rightarrow> event_key \<Rightarrow> plan_record \<Rightarrow> bool" where
  "stored_plan lib key d \<longleftrightarrow>
     (\<exists>q. d = li_dump lib q \<and> command_sequence_ok q \<and> cs_commands q \<noteq> [] \<and> sequences_are_contiguous (cs_commands q) \<and>
        cs_tenant q = fst key \<and> cs_event_id q = snd key)"

definition store_ok :: "ai_library \<Rightarrow> plan_store \<Rightarrow> bool" where
  "store_ok lib store \<longleftrightarrow>
     (case store of MemoryStore m \<Rightarrow> \<forall>(k, d) \<in> set (pc_data m). stored_plan lib k d | SharedStore _ \<Rightarrow> False)"

lemma memory_get:
  "store_get lib w key (MemoryStore m) = (Inr (fst (plan_cache_get key m)), MemoryStore (snd (plan_cache_get key m)))"
  by (simp add: store_get_def map_prod_def case_prod_beta)

lemma move_to_end_set: "set (od_move_to_end k d) \<subseteq> set d"
  by (auto simp: od_move_to_end_def AList.delete_eq dest: map_of_SomeD split: option.splits)

lemma plan_cache_get_set:
  "fst (plan_cache_get k m) = Some d \<Longrightarrow> (k, d) \<in> set (pc_data m)"
  "set (pc_data (snd (plan_cache_get k m))) \<subseteq> set (pc_data m)"
  using move_to_end_set [of k "pc_data m"]
  by (auto simp: plan_cache_get_def dest: map_of_SomeD split: option.splits if_splits)

lemma plan_cache_put_set: "set (pc_data (plan_cache_put k v m)) \<subseteq> insert (k, v) (set (pc_data m))"
proof (cases "pc_max m = 0")
  case False
  then have "pc_data (plan_cache_put k v m) = od_evict (pc_max m) (AList.delete k (pc_data m) @ [(k, v)])"
    by (simp add: plan_cache_put_data)
  then show ?thesis
    by (auto simp: od_evict_drop AList.delete_eq dest!: in_set_dropD)
qed (auto simp: plan_cache_put_def)

lemma store_ok_get: "store_ok lib store \<Longrightarrow> store_ok lib (snd (store_get lib w k store))"
  using plan_cache_get_set(2) by (fastforce simp: store_ok_def store_get_def map_prod_def case_prod_beta split: plan_store.splits)

lemma store_ok_put: "store_ok lib store \<Longrightarrow> stored_plan lib k d \<Longrightarrow> store_ok lib (store_put lib w k d store)"
  using plan_cache_put_set by (fastforce simp: store_ok_def store_put_def split: plan_store.splits)

lemma store_ok_found: "store_ok lib store \<Longrightarrow> fst (store_get lib w k store) = Inr (Some d) \<Longrightarrow> stored_plan lib k d"
  using plan_cache_get_set(1) by (fastforce simp: store_ok_def store_get_def map_prod_def case_prod_beta split: plan_store.splits)

lemma store_ok_answers: "store_ok lib store \<Longrightarrow> \<exists>v. fst (store_get lib w k store) = Inr v"
  by (auto simp: store_ok_def store_get_def map_prod_def case_prod_beta split: plan_store.splits)

lemma bound_stored: "plan_bound lic p c \<Longrightarrow> stored_plan lib (lic_tenant lic, ap_event_id p) (li_dump lib c)"
  by (auto simp: plan_bound_def stored_plan_def)

section \<open>The intercept route over the local store\<close>

text \<open>A plan is either fresh and bound to its request, or one that was stored for the same tenant and event.\<close>

lemma intercept_route_cases:
  assumes "codec_ok lib" "store_ok lib (as_store s)"
  obtains (replayed) q where "intercept_route settings lib w lic p s =
      (Inr (q, True), s\<lparr>as_store := snd (store_get lib w (lic_tenant lic, ap_event_id p) (as_store s)),
         as_replays := as_replays s @ [lic_tenant lic]\<rparr>)"
      "fst (store_get lib w (lic_tenant lic, ap_event_id p) (as_store s)) = Inr (Some (li_dump lib q))"
      "command_sequence_ok q" "cs_commands q \<noteq> []" "sequences_are_contiguous (cs_commands q)"
      "cs_tenant q = lic_tenant lic" "cs_event_id q = ap_event_id p"
  | (failed) err where "intercept_route settings lib w lic p s =
      (Inl err, s\<lparr>as_store := snd (store_get lib w (lic_tenant lic, ap_event_id p) (as_store s))\<rparr>)"
      "plan_mutation settings lib w lic p = Inl err"
      "fst (store_get lib w (lic_tenant lic, ap_event_id p) (as_store s)) = Inr None"
  | (planned) c where "intercept_route settings lib w lic p s =
      (Inr (c, False), s\<lparr>as_store := store_put lib w (lic_tenant lic, ap_event_id p) (li_dump lib c)
           (snd (store_get lib w (lic_tenant lic, ap_event_id p) (as_store s))),
         as_issued := as_issued s @ [(lic_tenant lic, lic_tier lic, ai_severity_value (ap_severity p), ap_degraded p)],
         as_planned := as_planned s @ map (\<lambda>k. ai_action_value (acm_action k)) (cs_commands c)\<rparr>)"
      "plan_mutation settings lib w lic p = Inr c" "plan_bound lic p c"
      "fst (store_get lib w (lic_tenant lic, ap_event_id p) (as_store s)) = Inr None"
proof -
  obtain found store where g: "store_get lib w (lic_tenant lic, ap_event_id p) (as_store s) = (found, store)" by fastforce
  obtain v where v: "found = Inr v" using store_ok_answers [OF assms(2)] g by (metis fst_conv)
  show thesis
  proof (cases v)
    case None
    show thesis
    proof (cases "plan_mutation settings lib w lic p")
      case (Inl err)
      then show thesis by (intro failed [of err]) (simp_all add: intercept_route_def g v None)
    next
      case (Inr c)
      then show thesis
        by (intro planned [of c]) (simp_all add: intercept_route_def g v None plan_mutation_bound)
    qed
  next
    case (Some d)
    then have "stored_plan lib (lic_tenant lic, ap_event_id p) d"
      using store_ok_found [OF assms(2)] g v by (metis fst_conv)
    then obtain q where q: "d = li_dump lib q" "command_sequence_ok q" "cs_commands q \<noteq> []"
      "sequences_are_contiguous (cs_commands q)" "cs_tenant q = lic_tenant lic" "cs_event_id q = ap_event_id p"
      by (auto simp: stored_plan_def)
    then have "d \<noteq> []" "li_load lib d = Inr q" using assms(1) by (auto simp: codec_ok_def)
    then obtain kv kvs where "d = kv # kvs" "li_load lib (kv # kvs) = Inr q" by (cases d) auto
    then show thesis using q by (intro replayed [of q]) (simp_all add: intercept_route_def g v Some)
  qed
qed

lemma intercept_route_store:
  assumes "codec_ok lib" "store_ok lib (as_store s)"
  shows "store_ok lib (as_store (snd (intercept_route settings lib w lic p s)))"
  by (rule intercept_route_cases [OF assms, of settings w lic p])
    (simp_all add: store_ok_get store_ok_put bound_stored assms(2))

lemma intercept_route_plan:
  assumes "codec_ok lib" "store_ok lib (as_store s)" "fst (intercept_route settings lib w lic p s) = Inr (c, replay)"
  shows "command_sequence_ok c \<and> cs_commands c \<noteq> [] \<and> sequences_are_contiguous (cs_commands c) \<and>
    cs_tenant c = lic_tenant lic \<and> cs_event_id c = ap_event_id p"
  by (rule intercept_route_cases [OF assms(1,2), of settings w lic p]) (use assms(3) in \<open>auto simp: plan_bound_def\<close>)

text \<open>What reaches the plan store from a request.\<close>

definition route_on :: "ai_settings \<Rightarrow> ai_library \<Rightarrow> ai_world \<Rightarrow> license option \<Rightarrow> ai_call \<Rightarrow> app_state
    \<Rightarrow> ((app_error + command_sequence \<times> bool) \<times> app_state) option" where
  "route_on settings lib w lic call s =
     (if rq_path (call_request call) = ''/v1/intercept'' \<and> call_method call = ''POST'' then
        (case lic of None \<Rightarrow> None
         | Some l \<Rightarrow>
             (case bind_r (call_body call) make_ai_payload of
                Inl _ \<Rightarrow> None | Inr p \<Rightarrow> Some (intercept_route settings lib w l p s)))
      else None)"

lemma routes_elsewhere:
  assumes "\<not> (rq_path (call_request call) = ''/v1/intercept'' \<and> call_method call = ''POST'')"
  shows "snd (routes settings lib w lic call s) = s \<and>
    (\<forall>resp c. fst (routes settings lib w lic call s) = Inr resp \<longrightarrow> rs_content resp \<noteq> Some (PlanBody c))"
proof -
  have "(rq_path (call_request call), call_method call) \<in> set ROUTES \<Longrightarrow> rq_path (call_request call) \<noteq> ''/v1/intercept''"
    using assms by (auto simp: ROUTES_def)
  then have "rq_path (call_request call) = ''/v1/intercept'' \<Longrightarrow> (rq_path (call_request call), call_method call) \<notin> set ROUTES"
    by blast
  then show ?thesis
    by (cases "bind_r (require_license lic) (introspect (aw_wall w))")
      (auto simp: routes_def ok_response_def error_handler_def error_response_def set_header_def Let_def case_prod_beta
        split: app_error.splits if_splits)
qed

lemma routes_intercept:
  "rq_path (call_request call) = ''/v1/intercept'' \<Longrightarrow> call_method call = ''POST'' \<Longrightarrow>
   routes settings lib w lic call s = intercept_app settings lib w lic call s"
  by (simp add: routes_def ROUTES_def)

lemma routes_plan:
  "case route_on settings lib w lic call s of
      None \<Rightarrow> snd (routes settings lib w lic call s) = s \<and>
        (\<forall>resp c. fst (routes settings lib w lic call s) = Inr resp \<longrightarrow> rs_content resp \<noteq> Some (PlanBody c))
    | Some (Inl err, s1) \<Rightarrow> routes settings lib w lic call s = (error_handler (call_id w call) err, s1)
    | Some (Inr (c, replay), s1) \<Rightarrow> routes settings lib w lic call s =
        (Inr (ok_response (PlanBody c) [(''X-Idempotent-Replay'', if replay then ''true'' else ''false'')]), s1)"
proof (cases "rq_path (call_request call) = ''/v1/intercept'' \<and> call_method call = ''POST''")
  case False
  then have "route_on settings lib w lic call s = None" unfolding route_on_def by (rule if_not_P)
  then show ?thesis using routes_elsewhere [OF False] by simp
next
  case True
  then have r: "routes settings lib w l call s = intercept_app settings lib w l call s" for l
    by (simp add: routes_intercept)
  show ?thesis
  proof (cases lic)
    case None
    then show ?thesis using True by (simp add: r intercept_app_def require_license_def route_on_def error_handler_def)
  next
    case (Some l)
    then show ?thesis using True
      by (cases "bind_r (call_body call) make_ai_payload")
        (auto simp: r intercept_app_def require_license_def route_on_def error_handler_def error_response_def
          set_header_def split: prod.splits sum.splits)
  qed
qed

text \<open>A request changes the plan store only through the route, and answers a plan only from it.\<close>

lemma handled_store:
  assumes "handled_by settings lib w lic call s (resp, s')"
  obtains (elsewhere) "as_store s' = as_store s" "as_issued s' = as_issued s" "\<And>c. rs_content resp \<noteq> Some (PlanBody c)"
  | (routed) l p s2 where "lic = Some l" "bind_r (call_body call) make_ai_payload = Inr p"
      "rq_path (call_request call) = ''/v1/intercept''" "call_method call = ''POST''"
      "gate_state.more s2 = gate_state.more s"
      "as_store s' = as_store (snd (intercept_route settings lib w l p s2))"
      "as_issued s' = as_issued (snd (intercept_route settings lib w l p s2))"
      "\<And>c. rs_content resp = Some (PlanBody c) \<Longrightarrow> \<exists>replay. fst (intercept_route settings lib w l p s2) = Inr (c, replay)"
      "\<And>c replay. fst (intercept_route settings lib w l p s2) = Inr (c, replay) \<Longrightarrow> rs_content resp = Some (PlanBody c) \<and> rs_status resp = 200"
      "\<And>e. fst (intercept_route settings lib w l p s2) = Inl (PlannerDown e) \<Longrightarrow> rs_status resp = 502"
proof -
  obtain s2 where s2: "gate_state.more s2 = gate_state.more s"
    "case timing_layer (routes settings lib w) lic call s2 of
       (Inl _, s3) \<Rightarrow> (resp, s') = (error_response 500 ''internal_error'' ''-'' [], s3)
     | (Inr r, s3) \<Rightarrow> s' = s3 \<and> rs_status resp = rs_status r \<and> rs_code resp = rs_code r \<and> rs_content resp = rs_content r"
    using assms [unfolded handled_by_def fst_conv snd_conv] by (elim exE conjE) (rule that)
  obtain answer s1 where r: "routes settings lib w lic call s2 = (answer, s1)" by fastforce
  have h: "case answer of Inl _ \<Rightarrow> resp = error_response 500 ''internal_error'' ''-'' []
      | Inr r \<Rightarrow> rs_status resp = rs_status r \<and> rs_content resp = rs_content r"
    "as_store s' = as_store s1" "as_issued s' = as_issued s1"
    using s2(2) by (auto simp: timing_layer_def r Let_def split: sum.splits)
  note plan = routes_plan [of settings lib w lic call s2, unfolded r]
  show thesis
  proof (cases "route_on settings lib w lic call s2")
    case None
    then show thesis using plan h app_fields [OF s2(1)]
      by (intro elsewhere) (auto simp: error_response_def set_header_def split: sum.splits)
  next
    case (Some outcome)
    then obtain l p where lp: "lic = Some l" "bind_r (call_body call) make_ai_payload = Inr p"
      "rq_path (call_request call) = ''/v1/intercept''" "call_method call = ''POST''"
      "outcome = intercept_route settings lib w l p s2"
      by (auto simp: route_on_def split: if_splits option.splits sum.splits)
    obtain res s4 where out: "outcome = (res, s4)" by fastforce
    have s4: "s1 = s4" using plan Some out by (auto split: sum.splits)
    have run: "intercept_route settings lib w l p s2 = (res, s4)" using lp(5) out by simp
    show thesis
    proof (rule routed [OF lp(1-4) s2(1)])
      show "as_store s' = as_store (snd (intercept_route settings lib w l p s2))"
        "as_issued s' = as_issued (snd (intercept_route settings lib w l p s2))"
        using h(2,3) run s4 by simp_all
    next
      fix c assume c: "rs_content resp = Some (PlanBody c)"
      show "\<exists>replay. fst (intercept_route settings lib w l p s2) = Inr (c, replay)"
      proof (cases res)
        case (Inl err)
        then have "answer = error_handler (call_id w call) err" using plan Some out by simp
        then show ?thesis using h(1) c
          by (cases err) (auto simp: error_handler_def error_response_def set_header_def)
      next
        case (Inr cr)
        then show ?thesis using plan Some out h(1) c run by (cases cr) (auto simp: ok_response_def)
      qed
    next
      fix c replay assume "fst (intercept_route settings lib w l p s2) = Inr (c, replay)"
      then show "rs_content resp = Some (PlanBody c) \<and> rs_status resp = 200"
        using plan Some out h(1) run by (auto simp: ok_response_def)
    next
      fix e assume "fst (intercept_route settings lib w l p s2) = Inl (PlannerDown e)"
      then have "answer = error_handler (call_id w call) (PlannerDown e)" using plan Some out run by auto
      then show "rs_status resp = 502" using h(1) by (simp add: error_handler_def error_response_def set_header_def)
    qed
  qed
qed

text \<open>The outcome of a request, with the plan store and the plan it answers.\<close>

lemma serve_route:
  assumes "later_is_outer stack"
  obtains (elsewhere) "as_store (snd (serve stack settings lib registry w call s)) = as_store s"
      "\<And>c. rs_content (fst (serve stack settings lib registry w call s)) \<noteq> Some (PlanBody c)"
  | (routed) lic p s2 where "call_license settings lib registry w call = Some lic"
      "bind_r (call_body call) make_ai_payload = Inr p" "as_store s2 = as_store s"
      "as_store (snd (serve stack settings lib registry w call s)) = as_store (snd (intercept_route settings lib w lic p s2))"
      "\<And>c. rs_content (fst (serve stack settings lib registry w call s)) = Some (PlanBody c) \<Longrightarrow>
        \<exists>replay. fst (intercept_route settings lib w lic p s2) = Inr (c, replay)"
proof -
  obtain resp s' where serve: "serve stack settings lib registry w call s = (resp, s')" by fastforce
  consider (none) "handled_by settings lib w None call s (resp, s')"
    | (off) "gate_state.more s' = gate_state.more s" "rs_content resp = None"
    | (on) lic where "call_license settings lib registry w call = Some lic" "handled_by settings lib w (Some lic) call s (resp, s')"
    by (rule serve_cases [OF assms, of call settings lib w s registry]) (simp_all add: serve)
  then show thesis
  proof cases
    case none
    then show thesis by (rule handled_store) (use elsewhere serve in auto)
  next
    case off
    then show thesis using elsewhere app_fields [OF off(1)] serve by simp
  next
    case (on lic)
    from on(2) show thesis
    proof (rule handled_store)
      assume "as_store s' = as_store s" "\<And>c. rs_content resp \<noteq> Some (PlanBody c)"
      then show thesis using elsewhere serve by simp
    next
      fix l p s2
      assume r: "Some lic = Some l" "bind_r (call_body call) make_ai_payload = Inr p" "gate_state.more s2 = gate_state.more s"
        "as_store s' = as_store (snd (intercept_route settings lib w l p s2))"
        "\<And>c. rs_content resp = Some (PlanBody c) \<Longrightarrow> \<exists>replay. fst (intercept_route settings lib w l p s2) = Inr (c, replay)"
      then show thesis using routed [of lic p s2] on(1) serve app_fields [OF r(3)] by simp
    qed
  qed
qed

lemma serve_store_ok:
  assumes "later_is_outer stack" "codec_ok lib" "store_ok lib (as_store s)"
  shows "store_ok lib (as_store (snd (serve stack settings lib registry w call s)))"
  by (rule serve_route [OF assms(1), of settings lib registry w call s])
    (use assms in \<open>simp_all add: intercept_route_store\<close>)

definition answers_own_plan ::
    "ai_settings \<Rightarrow> ai_library \<Rightarrow> license_registry \<Rightarrow> ai_world \<Rightarrow> ai_call \<Rightarrow> command_sequence \<Rightarrow> bool" where
  "answers_own_plan settings lib registry w call c \<longleftrightarrow>
     (\<exists>lic p. call_license settings lib registry w call = Some lic \<and> bind_r (call_body call) make_ai_payload = Inr p \<and>
        cs_tenant c = lic_tenant lic \<and> cs_event_id c = ap_event_id p \<and> command_sequence_ok c \<and> cs_commands c \<noteq> [] \<and>
        sequences_are_contiguous (cs_commands c))"

lemma serve_own_plan:
  assumes "later_is_outer stack" "codec_ok lib" "store_ok lib (as_store s)"
    and "rs_content (fst (serve stack settings lib registry w call s)) = Some (PlanBody c)"
  shows "answers_own_plan settings lib registry w call c"
proof (rule serve_route [OF assms(1), of settings lib registry w call s])
  assume "\<And>c. rs_content (fst (serve stack settings lib registry w call s)) \<noteq> Some (PlanBody c)"
  then show ?thesis using assms(4) by blast
next
  fix lic p s2
  assume r: "call_license settings lib registry w call = Some lic" "bind_r (call_body call) make_ai_payload = Inr p"
    "as_store s2 = as_store s"
    "\<And>c. rs_content (fst (serve stack settings lib registry w call s)) = Some (PlanBody c) \<Longrightarrow>
        \<exists>replay. fst (intercept_route settings lib w lic p s2) = Inr (c, replay)"
  then obtain replay where "fst (intercept_route settings lib w lic p s2) = Inr (c, replay)" using assms(4) by blast
  then show ?thesis using intercept_route_plan [OF assms(2), of s2 settings w lic p c replay] r(1-3) assms(3)
    by (simp add: answers_own_plan_def)
qed

lemma serve_calls_own_plans:
  assumes "later_is_outer stack" "codec_ok lib"
  shows "store_ok lib (as_store s) \<Longrightarrow> serve_calls stack settings lib registry calls s = (resps, s') \<Longrightarrow>
    ((w, call), resp) \<in> set (zip calls resps) \<Longrightarrow> rs_content resp = Some (PlanBody c) \<Longrightarrow>
    answers_own_plan settings lib registry w call c"
proof (induction calls arbitrary: s resps s')
  case (Cons wc calls)
  obtain w1 call1 where wc: "wc = (w1, call1)" by fastforce
  obtain resp1 s1 where one: "serve stack settings lib registry w1 call1 s = (resp1, s1)" by fastforce
  obtain resps2 where two: "serve_calls stack settings lib registry calls s1 = (resps2, s')" "resps = resp1 # resps2"
    using Cons.prems(2) by (auto simp: wc one split: prod.splits)
  have ok: "store_ok lib (as_store s1)"
    using serve_store_ok [OF assms Cons.prems(1), of settings registry w1 call1] one by simp
  consider "(w, call) = (w1, call1)" "resp = resp1" | "((w, call), resp) \<in> set (zip calls resps2)"
    using Cons.prems(3) two(2) wc by auto
  then show ?case
  proof cases
    case 1
    then show ?thesis using serve_own_plan [OF assms Cons.prems(1), of settings registry w1 call1 c] one Cons.prems(4) by simp
  next
    case 2
    then show ?thesis using Cons.IH [OF ok two(1) _ Cons.prems(4)] by simp
  qed
qed simp

lemma start_store_ok:
  "\<not> redis_configured settings \<Longrightarrow> lifespan_start settings ping = Inr s \<Longrightarrow> store_ok lib (as_store s)"
  by (auto simp: lifespan_start_def store_ok_def build_plan_store_def)

section \<open>A plan stays in the local store\<close>

definition keeps_plan :: "event_key \<Rightarrow> plan_record \<Rightarrow> nat \<Rightarrow> event_key set \<Rightarrow> plan_store \<Rightarrow> bool" where
  "keeps_plan key d cap K store \<longleftrightarrow>
     (case store of MemoryStore m \<Rightarrow> pc_max m = cap \<and> recent_within key d K (pc_data m) | SharedStore _ \<Rightarrow> False)"

lemma keeps_get:
  assumes "0 < cap" "keeps_plan key d cap K store"
  shows "keeps_plan key d cap (K \<union> ({j} - {key})) (snd (store_get lib w j store))"
proof -
  obtain m where m: "store = MemoryStore m" "pc_max m = cap" "recent_within key d K (pc_data m)"
    using assms(2) by (auto simp: keeps_plan_def split: plan_store.splits)
  have "recent_within key d (insert j K - {key} \<union> K) (pc_data (snd (plan_cache_get j m)))"
    using plan_lru.apply_get_recent [of m key d K j] m assms(1) by simp
  moreover have "insert j K - {key} \<union> K = K \<union> ({j} - {key})" by auto
  moreover have "pc_max (snd (plan_cache_get j m)) = cap" using m(2) by (simp add: plan_lru.get_bound)
  ultimately show ?thesis by (simp add: keeps_plan_def m(1) memory_get)
qed

lemma keeps_put:
  assumes "keeps_plan key d cap K store" "j \<noteq> key" "finite K" "card (insert j K) < cap"
  shows "keeps_plan key d cap (insert j K) (store_put lib w j v store)"
proof -
  obtain m where m: "store = MemoryStore m" "pc_max m = cap" "recent_within key d K (pc_data m)"
    using assms(1) by (auto simp: keeps_plan_def split: plan_store.splits)
  have "pc_data (plan_cache_put j v m) = od_evict cap (AList.delete j (pc_data m) @ [(j, v)])"
    using assms(4) m(2) by (simp add: plan_cache_put_data)
  moreover have "recent_within key d (insert j K) (od_evict cap (AList.delete j (pc_data m) @ [(j, v)]))"
    by (rule recent_within_evict [OF recent_within_push_other [OF m(3) assms(2)]]) (use assms(3,4) in simp_all)
  moreover have "pc_max (plan_cache_put j v m) = cap" using m(2) by (simp add: plan_lru.put_bound)
  ultimately show ?thesis by (simp add: keeps_plan_def m(1) store_put_def)
qed

lemma keeps_found: "0 < cap \<Longrightarrow> keeps_plan key d cap K store \<Longrightarrow> fst (store_get lib w key store) = Inr (Some d)"
  by (auto simp: keeps_plan_def memory_get plan_lru.get_value recent_within_lookup split: plan_store.splits)

lemma keeps_fresh:
  assumes "0 < cap" "case store of MemoryStore m \<Rightarrow> pc_max m = cap | SharedStore _ \<Rightarrow> False"
  shows "keeps_plan key d cap {} (store_put lib w key d store)"
  using assms recent_within_evict [OF recent_within_push_self [of key d "{}"], of cap]
  by (auto simp: keeps_plan_def store_put_def plan_cache_put_data plan_lru.put_bound split: plan_store.splits)

lemma keeps_route:
  assumes "codec_ok lib" "store_ok lib (as_store s)" "keeps_plan key d cap K (as_store s)" "finite K" "Suc (card K) < cap"
  shows "\<exists>K'. finite K' \<and> card K' \<le> Suc (card K) \<and> keeps_plan key d cap K' (as_store (snd (intercept_route settings lib w lic p s)))"
proof -
  let ?j = "(lic_tenant lic, ap_event_id p)"
  let ?K = "K \<union> ({?j} - {key})"
  have get: "keeps_plan key d cap ?K (snd (store_get lib w ?j (as_store s)))" using assms(3,5) by (intro keeps_get) simp_all
  have "card ?K \<le> card K + card ({?j} - {key})" by (rule card_Un_le)
  also have "card ({?j} - {key}) \<le> 1" using card_mono [of "{?j}" "{?j} - {key}"] by simp
  finally have K: "finite ?K" "card ?K \<le> Suc (card K)" using assms(4) by simp_all
  have kept: ?thesis if "as_store (snd (intercept_route settings lib w lic p s)) = snd (store_get lib w ?j (as_store s))"
    unfolding that using K get by (intro exI [of _ ?K]) simp
  show ?thesis
  proof (rule intercept_route_cases [OF assms(1,2), of settings w lic p])
    fix c
    assume r: "intercept_route settings lib w lic p s =
      (Inr (c, False), s\<lparr>as_store := store_put lib w ?j (li_dump lib c) (snd (store_get lib w ?j (as_store s))),
         as_issued := as_issued s @ [(lic_tenant lic, lic_tier lic, ai_severity_value (ap_severity p), ap_degraded p)],
         as_planned := as_planned s @ map (\<lambda>k. ai_action_value (acm_action k)) (cs_commands c)\<rparr>)"
      and none: "fst (store_get lib w ?j (as_store s)) = Inr None"
    have j: "?j \<noteq> key" using none keeps_found [of cap key d K "as_store s" lib w] assms(3,5) by auto
    then have "insert ?j ?K = ?K" by auto
    then have "keeps_plan key d cap ?K (store_put lib w ?j (li_dump lib c) (snd (store_get lib w ?j (as_store s))))"
      using keeps_put [OF get j K(1), of lib w "li_dump lib c"] K(2) assms(5) by simp
    then show ?thesis using K unfolding r by (intro exI [of _ ?K]) simp
  qed (rule kept, simp)+
qed

lemma keeps_calls:
  assumes "later_is_outer stack" "codec_ok lib"
  shows "store_ok lib (as_store s) \<Longrightarrow> keeps_plan key d cap K (as_store s) \<Longrightarrow> finite K \<Longrightarrow> card K + length calls < cap \<Longrightarrow>
    \<exists>K'. keeps_plan key d cap K' (as_store (snd (serve_calls stack settings lib registry calls s))) \<and>
      store_ok lib (as_store (snd (serve_calls stack settings lib registry calls s)))"
proof (induction calls arbitrary: s K)
  case (Cons wc calls)
  obtain w call where wc: "wc = (w, call)" by fastforce
  let ?s1 = "snd (serve stack settings lib registry w call s)"
  have ok: "store_ok lib (as_store ?s1)" by (rule serve_store_ok [OF assms Cons.prems(1)])
  have "\<exists>K1. finite K1 \<and> card K1 \<le> Suc (card K) \<and> keeps_plan key d cap K1 (as_store ?s1)"
  proof (rule serve_route [OF assms(1), of settings lib registry w call s])
    assume "as_store ?s1 = as_store s"
    then show ?thesis using Cons.prems(2,3) by (intro exI [of _ K]) simp
  next
    fix lic p s2
    assume "as_store s2 = as_store s" "as_store ?s1 = as_store (snd (intercept_route settings lib w lic p s2))"
    then show ?thesis using keeps_route [OF assms(2), of s2 key d cap K settings w lic p] Cons.prems by simp
  qed
  then obtain K1 where K1: "finite K1" "card K1 \<le> Suc (card K)" "keeps_plan key d cap K1 (as_store ?s1)" by blast
  have "card K1 + length calls < cap" using Cons.prems(4) K1(2) by simp
  then show ?case using Cons.IH [OF ok K1(3,1)] by (simp add: wc case_prod_beta)
qed auto


text \<open>A call of the route with a licence and a body that passes is answered by the route.\<close>

lemma handled_routes:
  assumes "handled_by settings lib w (Some lic) call s (resp, s')" "rq_path (call_request call) = ''/v1/intercept''"
    "call_method call = ''POST''" "bind_r (call_body call) make_ai_payload = Inr p"
  obtains s2 where "gate_state.more s2 = gate_state.more s"
    "case intercept_route settings lib w lic p s2 of
       (Inl err, s3) \<Rightarrow> as_store s' = as_store s3 \<and> as_issued s' = as_issued s3 \<and>
         (case error_handler (call_id w call) err of
            Inl _ \<Rightarrow> resp = error_response 500 ''internal_error'' ''-'' [] | Inr r \<Rightarrow> rs_status resp = rs_status r)
     | (Inr (c, replay), s3) \<Rightarrow> as_store s' = as_store s3 \<and> as_issued s' = as_issued s3 \<and>
         rs_status resp = 200 \<and> rs_content resp = Some (PlanBody c)"
proof -
  obtain s2 where s2: "gate_state.more s2 = gate_state.more s"
    "case timing_layer (routes settings lib w) (Some lic) call s2 of
       (Inl _, s3) \<Rightarrow> (resp, s') = (error_response 500 ''internal_error'' ''-'' [], s3)
     | (Inr r, s3) \<Rightarrow> s' = s3 \<and> rs_status resp = rs_status r \<and> rs_code resp = rs_code r \<and> rs_content resp = rs_content r"
    using assms(1) [unfolded handled_by_def fst_conv snd_conv] by (elim exE conjE) (rule that)
  obtain res s3 where r: "intercept_route settings lib w lic p s2 = (res, s3)" by fastforce
  show thesis
    by (rule that [OF s2(1)]) (use s2(2) in \<open>cases res; force simp: timing_layer_def routes_intercept [OF assms(2,3)]
        intercept_app_def require_license_def assms(4) r ok_response_def Let_def split: sum.splits\<close>)
qed

lemma license_layer_refused:
  assumes "\<not> call_exempt call"
    and "case call_license settings lib registry w call of None \<Rightarrow> True
      | Some lic \<Rightarrow> \<not> admission (fst (limiter_check w (lic_key_id lic) (lic_quota_per_minute lic) (gs_limiter s)))"
  shows "gate_state.more (snd (license_layer settings lib registry w inner l call s)) = gate_state.more s"
proof -
  have ne: "\<not> is_exempt (gate_of settings registry) (rq_path (call_request call))"
    using assms(1) by (simp add: call_exempt_def is_exempt_gate_of)
  show ?thesis
  proof (cases "call_license settings lib registry w call")
    case None
    then show ?thesis unfolding license_layer_dispatch
      by (intro dispatch_unlicensed [OF ne, THEN conjunct2, THEN conjunct1]) (simp add: call_license_def)
  next
    case (Some lic)
    then show ?thesis unfolding license_layer_dispatch using assms(2)
      by (intro dispatch_refused [where lic = lic, OF ne, THEN conjunct2, THEN conjunct1]) (simp_all add: call_license_def)
  qed
qed

section \<open>Properties\<close>

text \<open>
  C10: A tenant is answered its own plans only.  From a start without Redis, and over any sequence of requests in
  any worlds, a plan in an answer carries the tenant of the licence that the request presented and the event of
  its body, whether it is fresh or replayed, and it satisfies the contract of a command sequence.
\<close>
theorem plans_stay_with_tenant:
  "later_is_outer stack \<Longrightarrow> codec_ok lib \<Longrightarrow> \<not> redis_configured settings \<Longrightarrow> lifespan_start settings ping = Inr s \<Longrightarrow>
   serve_calls stack settings lib registry calls s = (resps, s') \<Longrightarrow> ((w, call), resp) \<in> set (zip calls resps) \<Longrightarrow>
   rs_content resp = Some (PlanBody c) \<Longrightarrow>
   \<exists>lic p. call_license settings lib registry w call = Some lic \<and> bind_r (call_body call) make_ai_payload = Inr p \<and>
     cs_tenant c = lic_tenant lic \<and> cs_event_id c = ap_event_id p \<and>
     command_sequence_ok c \<and> cs_commands c \<noteq> [] \<and> sequences_are_contiguous (cs_commands c)"
proof -
  assume "later_is_outer stack" "codec_ok lib" and m: "\<not> redis_configured settings" "lifespan_start settings ping = Inr s"
    and run: "serve_calls stack settings lib registry calls s = (resps, s')" "((w, call), resp) \<in> set (zip calls resps)"
      "rs_content resp = Some (PlanBody c)"
  then have "answers_own_plan settings lib registry w call c"
    by (intro serve_calls_own_plans [OF _ _ start_store_ok [OF m] run])
  then show ?thesis by (simp add: answers_own_plan_def)
qed

text \<open>
  C39: A redelivered mutation gets the plan it got.  Once the route has planned an event, and while fewer requests
  come in between than the local store holds plans, the same tenant and event are answered with that plan as a
  replay: whatever the requests in between are, whatever the provider would answer now, and with no second plan
  counted.
\<close>
theorem redelivery_replays_plan:
  "later_is_outer stack \<Longrightarrow> codec_ok lib \<Longrightarrow> store_ok lib (as_store s) \<Longrightarrow> as_store s = MemoryStore m \<Longrightarrow>
   intercept_route settings lib w lic p s = (Inr (c, False), s1) \<Longrightarrow>
   length calls < pc_max m \<Longrightarrow> serve_calls stack settings lib registry calls s1 = (resps, s2) \<Longrightarrow>
   lic_tenant lic2 = lic_tenant lic \<Longrightarrow> ap_event_id p2 = ap_event_id p \<Longrightarrow>
   fst (intercept_route settings lib w2 lic2 p2 s2) = Inr (c, True) \<and>
   as_issued (snd (intercept_route settings lib w2 lic2 p2 s2)) = as_issued s2"
proof -
  assume st: "later_is_outer stack" and codec: "codec_ok lib" and ok: "store_ok lib (as_store s)" and m: "as_store s = MemoryStore m"
    and first: "intercept_route settings lib w lic p s = (Inr (c, False), s1)" and few: "length calls < pc_max m"
    and between: "serve_calls stack settings lib registry calls s1 = (resps, s2)"
    and same: "lic_tenant lic2 = lic_tenant lic" "ap_event_id p2 = ap_event_id p"
  let ?k = "(lic_tenant lic, ap_event_id p)"
  have cap: "0 < pc_max m" using few by simp
  have store: "as_store s1 = store_put lib w ?k (li_dump lib c) (snd (store_get lib w ?k (as_store s)))" and c: "command_sequence_ok c"
    by (rule intercept_route_cases [OF codec ok, of settings w lic p]; use first in \<open>simp add: plan_bound_def\<close>)+
  have "case snd (store_get lib w ?k (as_store s)) of MemoryStore n \<Rightarrow> pc_max n = pc_max m | SharedStore _ \<Rightarrow> False"
    by (simp add: m memory_get plan_lru.get_bound)
  then have kept: "keeps_plan ?k (li_dump lib c) (pc_max m) {} (as_store s1)" unfolding store by (rule keeps_fresh [OF cap])
  have ok1: "store_ok lib (as_store s1)" using intercept_route_store [OF codec ok, of settings w lic p] first by simp
  obtain K where K: "keeps_plan ?k (li_dump lib c) (pc_max m) K (as_store s2)" "store_ok lib (as_store s2)"
    using keeps_calls [OF st codec ok1 kept, of calls settings registry] few between by auto
  then have found: "fst (store_get lib w2 (lic_tenant lic2, ap_event_id p2) (as_store s2)) = Inr (Some (li_dump lib c))"
    using keeps_found [OF cap] same by simp
  show ?thesis
  proof (rule intercept_route_cases [OF codec K(2), of settings w2 lic2 p2])
    fix q
    assume q: "fst (store_get lib w2 (lic_tenant lic2, ap_event_id p2) (as_store s2)) = Inr (Some (li_dump lib q))"
      "command_sequence_ok q"
      and run: "intercept_route settings lib w2 lic2 p2 s2 =
        (Inr (q, True), s2\<lparr>as_store := snd (store_get lib w2 (lic_tenant lic2, ap_event_id p2) (as_store s2)),
           as_replays := as_replays s2 @ [lic_tenant lic2]\<rparr>)"
    have "li_dump lib q = li_dump lib c" using q(1) found by simp
    then have "q = c" using codec q(2) c unfolding codec_ok_def by (metis sum.inject(2))
    then show ?thesis by (simp add: run)
  qed (simp_all add: found)
qed

text \<open>
  No answer of a provider is worth more than a 502.  A licensed and admitted request whose body passes the
  contract is answered 200 with a valid plan or 502, whatever the provider does: raise, time out, decline, send
  no tool call, or send a plan that breaks the contract.  It is never answered 500.
\<close>

theorem provider_failures_are_502:
  "later_is_outer stack \<Longrightarrow> codec_ok lib \<Longrightarrow> ai_settings_wf settings \<Longrightarrow> store_ok lib (as_store s) \<Longrightarrow>
   rq_path (call_request call) = ''/v1/intercept'' \<Longrightarrow> call_method call = ''POST'' \<Longrightarrow>
   call_license settings lib registry w call = Some lic \<Longrightarrow>
   admission (fst (limiter_check w (lic_key_id lic) (lic_quota_per_minute lic) (gs_limiter s))) \<Longrightarrow>
   bind_r (call_body call) make_ai_payload = Inr p \<Longrightarrow>
   serve stack settings lib registry w call s = (resp, s') \<Longrightarrow>
   rs_status resp = 200 \<and> (\<exists>c. rs_content resp = Some (PlanBody c) \<and> command_sequence_ok c \<and> cs_tenant c = lic_tenant lic) \<or>
   rs_status resp = 502 \<and> (\<exists>e. plan_mutation settings lib w lic p = Inl (PlannerDown e))"
proof -
  assume st: "later_is_outer stack" and codec: "codec_ok lib" and wf: "ai_settings_wf settings" and ok: "store_ok lib (as_store s)"
    and call: "rq_path (call_request call) = ''/v1/intercept''" "call_method call = ''POST''"
    and lic: "call_license settings lib registry w call = Some lic"
    and adm: "admission (fst (limiter_check w (lic_key_id lic) (lic_quota_per_minute lic) (gs_limiter s)))"
    and p: "bind_r (call_body call) make_ai_payload = Inr p" and serve: "serve stack settings lib registry w call s = (resp, s')"
  have ne: "\<not> call_exempt call" by (simp add: call_exempt_def call(1) EXEMPT_PATHS_def)
  have "handled_by settings lib w (Some lic) call s (resp, s')"
    by (rule serve_cases [OF st, of call settings lib w s registry]) (use ne lic adm serve in simp_all)
  then obtain s2 where s2: "gate_state.more s2 = gate_state.more s"
    "case intercept_route settings lib w lic p s2 of
       (Inl err, s3) \<Rightarrow> as_store s' = as_store s3 \<and> as_issued s' = as_issued s3 \<and>
         (case error_handler (call_id w call) err of
            Inl _ \<Rightarrow> resp = error_response 500 ''internal_error'' ''-'' [] | Inr r \<Rightarrow> rs_status resp = rs_status r)
     | (Inr (c, replay), s3) \<Rightarrow> as_store s' = as_store s3 \<and> as_issued s' = as_issued s3 \<and>
         rs_status resp = 200 \<and> rs_content resp = Some (PlanBody c)"
    by (rule handled_routes [OF _ call p])
  have ok2: "store_ok lib (as_store s2)" using ok app_fields [OF s2(1)] by simp
  obtain res s3 where run: "intercept_route settings lib w lic p s2 = (res, s3)" by fastforce
  show ?thesis
  proof (cases res)
    case (Inl err)
    have e: "plan_mutation settings lib w lic p = Inl err"
      by (rule intercept_route_cases [OF codec ok2, of settings w lic p]) (use run Inl in simp_all)
    then obtain e' where "err = PlannerDown e'" using plan_mutation_errors [OF wf] by blast
    then show ?thesis using s2(2) e by (simp add: run Inl error_handler_def error_response_def set_header_def)
  next
    case (Inr cr)
    obtain c replay where cr: "cr = (c, replay)" by fastforce
    have "fst (intercept_route settings lib w lic p s2) = Inr (c, replay)" by (simp add: run Inr cr)
    then have "command_sequence_ok c \<and> cs_tenant c = lic_tenant lic" using intercept_route_plan [OF codec ok2] by blast
    then show ?thesis using s2(2) by (simp add: run Inr cr)
  qed
qed

text \<open>
  A refusal does not reach the latency histogram.  The licence layer is registered after the timing layer and is
  therefore the outer of the two: a request it turns away, for its licence or its quota, leaves no timing and
  nothing else behind the gate, where the comment at the registration says that it must.  With the order the
  comment assumes, every request would leave one.
\<close>

theorem refusals_leave_no_timing:
  "later_is_outer stack \<Longrightarrow> \<not> call_exempt call \<Longrightarrow>
   (case call_license settings lib registry w call of None \<Rightarrow> True
    | Some lic \<Rightarrow> \<not> admission (fst (limiter_check w (lic_key_id lic) (lic_quota_per_minute lic) (gs_limiter s)))) \<Longrightarrow>
   gate_state.more (snd (serve stack settings lib registry w call s)) = gate_state.more s \<and>
   as_timings (snd (serve stack settings lib registry w call s)) = as_timings s \<and>
   length (as_timings (snd (timing_layer (license_layer settings lib registry w (routes settings lib w)) None call s))) =
     Suc (length (as_timings s))"
proof -
  assume st: "later_is_outer stack" and ne: "\<not> call_exempt call"
    and off: "case call_license settings lib registry w call of None \<Rightarrow> True
    | Some lic \<Rightarrow> \<not> admission (fst (limiter_check w (lic_key_id lic) (lic_quota_per_minute lic) (gs_limiter s)))"
  have more: "gate_state.more (snd (serve stack settings lib registry w call s)) = gate_state.more s"
    by (rule serve_cases [OF st, of call settings lib w s registry]) (use ne off in simp_all)
  have "gate_state.more (snd (license_layer settings lib registry w inner None call s)) = gate_state.more s" for inner
    using license_layer_refused [OF ne off] by blast
  then have "as_timings (snd (license_layer settings lib registry w inner None call s)) = as_timings s" for inner
    using app_fields by blast
  then show ?thesis using more app_fields [OF more] by (simp add: timing_layer_def Let_def case_prod_beta)
qed

text \<open>
  A foreign record under a plan key is an internal error for as long as it lives.  When Redis answers with a JSON
  object that is not a plan, a licensed and admitted request is answered 500, not planned afresh as a record that
  is no JSON object would be, and without its request id; the provider is not asked and the store is not written.
\<close>

theorem foreign_record_answers_500:
  "later_is_outer stack \<Longrightarrow> as_store s = SharedStore st \<Longrightarrow>
   rq_path (call_request call) = ''/v1/intercept'' \<Longrightarrow> call_method call = ''POST'' \<Longrightarrow>
   call_license settings lib registry w call = Some lic \<Longrightarrow>
   admission (fst (limiter_check w (lic_key_id lic) (lic_quota_per_minute lic) (gs_limiter s))) \<Longrightarrow>
   bind_r (call_body call) make_ai_payload = Inr p \<Longrightarrow>
   aw_get w (plan_key_for (rs_prefix st) (lic_tenant lic, ap_event_id p)) = Reply (Some raw) \<Longrightarrow>
   li_loads lib raw = Some (JObj d) \<Longrightarrow> d \<noteq> [] \<Longrightarrow> li_load lib d = Inl e \<Longrightarrow>
   serve stack settings lib registry w call s = (resp, s') \<Longrightarrow>
   rs_status resp = 500 \<and> map_of (rs_headers resp) ''X-Request-ID'' = Some ''-'' \<and>
   as_store s' = SharedStore (st\<lparr>rs_hits := Suc (rs_hits st)\<rparr>) \<and> as_issued s' = as_issued s"
proof -
  assume stk: "later_is_outer stack" and st: "as_store s = SharedStore st"
    and call: "rq_path (call_request call) = ''/v1/intercept''" "call_method call = ''POST''"
    and lic: "call_license settings lib registry w call = Some lic"
    and adm: "admission (fst (limiter_check w (lic_key_id lic) (lic_quota_per_minute lic) (gs_limiter s)))"
    and p: "bind_r (call_body call) make_ai_payload = Inr p"
    and rec: "aw_get w (plan_key_for (rs_prefix st) (lic_tenant lic, ap_event_id p)) = Reply (Some raw)"
      "li_loads lib raw = Some (JObj d)" "d \<noteq> []" "li_load lib d = Inl e"
    and serve: "serve stack settings lib registry w call s = (resp, s')"
  obtain kv kvs where d: "d = kv # kvs" using rec(3) by (cases d) auto
  have route: "intercept_route settings lib w lic p s2 =
      (Inl (Unhandled e), s2\<lparr>as_store := SharedStore (st\<lparr>rs_hits := Suc (rs_hits st)\<rparr>),
         as_replays := as_replays s2 @ [lic_tenant lic]\<rparr>)" if "as_store s2 = SharedStore st" for s2
    using that rec by (simp add: intercept_route_def store_get_def redis_plan_get_def d Let_def)
  have ne: "\<not> call_exempt call" by (simp add: call_exempt_def call(1) EXEMPT_PATHS_def)
  have "handled_by settings lib w (Some lic) call s (resp, s')"
    by (rule serve_cases [OF stk, of call settings lib w s registry]) (use ne lic adm serve in simp_all)
  then obtain s2 where s2: "gate_state.more s2 = gate_state.more s"
    "case timing_layer (routes settings lib w) (Some lic) call s2 of
       (Inl _, s3) \<Rightarrow> (resp, s') = (error_response 500 ''internal_error'' ''-'' [], s3)
     | (Inr r, s3) \<Rightarrow> s' = s3 \<and> rs_status resp = rs_status r \<and> rs_code resp = rs_code r \<and> rs_content resp = rs_content r"
    unfolding handled_by_def fst_conv snd_conv by (elim exE conjE) (rule that)
  have f: "as_store s2 = SharedStore st" "as_issued s2 = as_issued s" using app_fields [OF s2(1)] st by simp_all
  show ?thesis using s2(2)
    by (simp add: timing_layer_def routes_intercept [OF call] intercept_app_def require_license_def p route [OF f(1)]
        error_handler_def Let_def error_response_def set_header_def f(2))
qed

section \<open>Witnesses\<close>

text \<open>A lossless codec of plans: an object whose one field lists the parts.\<close>

fun j_int :: "json \<Rightarrow> int" where
  "j_int (JInt i) = i"
| "j_int _ = 0"

fun j_rat :: "json \<Rightarrow> rat" where
  "j_rat (JFloat x) = x"
| "j_rat _ = 0"

fun j_str :: "json \<Rightarrow> string" where
  "j_str (JStr s) = s"
| "j_str _ = []"

fun j_list :: "json \<Rightarrow> json list" where
  "j_list (JList xs) = xs"
| "j_list _ = []"

fun j_obj :: "json \<Rightarrow> plan_record" where
  "j_obj (JObj kvs) = kvs"
| "j_obj _ = []"

fun j_opt :: "json \<Rightarrow> string option" where
  "j_opt (JStr s) = Some s"
| "j_opt _ = None"

definition enc_command :: "ai_command \<Rightarrow> json" where
  "enc_command c =
     JList [JInt (acm_sequence c), JStr (acm_target_component c), JStr (ai_action_value (acm_action c)),
            JStr (ai_priority_value (acm_priority c)), JStr (acm_assigned_to c), opt_str (acm_assigned_operator_id c),
            JObj (acm_parameters c), JStr (acm_expected_effect c), opt_str (acm_rollback c), JInt (acm_deadline_seconds c)]"

definition dec_command :: "json \<Rightarrow> ai_command" where
  "dec_command j =
     (let xs = j_list j in
      \<lparr>acm_sequence = j_int (xs ! 0), acm_target_component = j_str (xs ! 1),
       acm_action = hd (filter (\<lambda>a. ai_action_value a = j_str (xs ! 2)) DEFAULT_ALLOWED_ACTIONS),
       acm_priority = hd (filter (\<lambda>p. ai_priority_value p = j_str (xs ! 3)) [AiCritical, AiHigh, AiMedium, AiLow]),
       acm_assigned_to = j_str (xs ! 4), acm_assigned_operator_id = j_opt (xs ! 5), acm_parameters = j_obj (xs ! 6),
       acm_expected_effect = j_str (xs ! 7), acm_rollback = j_opt (xs ! 8), acm_deadline_seconds = j_int (xs ! 9)\<rparr>)"

definition enc_plan :: "command_sequence \<Rightarrow> plan_record" where
  "enc_plan c =
     [(''plan'', JList
       [JStr (cs_plan_id c), JStr (cs_event_id c), JStr (cs_asset_id c), JStr (cs_tenant c), JFloat (cs_generated_at c),
        JStr (cs_model c), JStr (ai_severity_value (cs_severity c)), JStr (ai_transition_value (cs_transition c)),
        JFloat (cs_confidence c), JStr (cs_reasoning_summary c), JList (map enc_command (cs_commands c)),
        JBool (aes_required (cs_escalation c)), JList (map JStr (aes_notify (cs_escalation c))),
        JStr (aes_reason (cs_escalation c)), JInt (aes_sla_seconds (cs_escalation c)),
        JList (map JStr (cs_evidence c)), JBool (cs_context_degraded c), JFloat (cs_latency_ms c),
        JInt (tu_input_tokens (cs_usage c)), JInt (tu_output_tokens (cs_usage c))])]"

definition dec_plan :: "plan_record \<Rightarrow> command_sequence raises" where
  "dec_plan d =
     (case map_of d ''plan'' of
        None \<Rightarrow> Inl ValidationErrorExn
      | Some j \<Rightarrow>
          (let xs = j_list j in Inr
           \<lparr>cs_plan_id = j_str (xs ! 0), cs_event_id = j_str (xs ! 1), cs_asset_id = j_str (xs ! 2), cs_tenant = j_str (xs ! 3),
            cs_generated_at = j_rat (xs ! 4), cs_model = j_str (xs ! 5),
            cs_severity = hd (filter (\<lambda>v. ai_severity_value v = j_str (xs ! 6)) [SevInfoAi, SevHighAi, SevCriticalAi]),
            cs_transition = hd (filter (\<lambda>v. ai_transition_value v = j_str (xs ! 7)) [Raised, Escalated, Sustained, Cleared]),
            cs_confidence = j_rat (xs ! 8), cs_reasoning_summary = j_str (xs ! 9),
            cs_commands = map dec_command (j_list (xs ! 10)),
            cs_escalation = \<lparr>aes_required = py_truthy (xs ! 11), aes_notify = map j_str (j_list (xs ! 12)),
                             aes_reason = j_str (xs ! 13), aes_sla_seconds = j_int (xs ! 14)\<rparr>,
            cs_evidence = map j_str (j_list (xs ! 15)), cs_context_degraded = py_truthy (xs ! 16),
            cs_latency_ms = j_rat (xs ! 17),
            cs_usage = \<lparr>tu_input_tokens = j_int (xs ! 18), tu_output_tokens = j_int (xs ! 19)\<rparr>\<rparr>))"

lemma j_opt_str [simp]: "j_opt (opt_str v) = v"
  by (cases v) (simp_all add: opt_str_def)

lemma dec_enc_command [simp]: "dec_command (enc_command c) = c"
  by (cases c, cases "acm_action c"; cases "acm_priority c")
    (simp_all add: dec_command_def enc_command_def DEFAULT_ALLOWED_ACTIONS_def)

lemma map_j_str [simp]: "map (j_str \<circ> JStr) xs = xs"
  by (induction xs) simp_all

lemma dec_enc_commands [simp]: "map (dec_command \<circ> enc_command) cs = cs"
  by (induction cs) simp_all

lemma dec_enc_plan: "dec_plan (enc_plan c) = Inr c"
proof -
  have "hd (filter (\<lambda>v. ai_severity_value v = ai_severity_value s) [SevInfoAi, SevHighAi, SevCriticalAi]) = s" for s
    by (cases s) simp_all
  moreover have "hd (filter (\<lambda>v. ai_transition_value v = ai_transition_value t) [Raised, Escalated, Sustained, Cleared]) = t" for t
    by (cases t) simp_all
  ultimately show ?thesis by (simp add: dec_plan_def enc_plan_def Let_def nth_Cons' del: filter.simps)
qed

definition demo_command :: ai_command where
  "demo_command =
     \<lparr>acm_sequence = 1, acm_target_component = ''bearing'', acm_action = AiInspect, acm_priority = AiHigh,
      acm_assigned_to = ''Ada'', acm_assigned_operator_id = None, acm_parameters = [], acm_expected_effect = ''known state'',
      acm_rollback = None, acm_deadline_seconds = 600\<rparr>"

definition demo_llm_plan :: llm_plan where
  "demo_llm_plan =
     \<lparr>lp_confidence = 1 / 2, lp_reasoning_summary = ''look at it'', lp_commands = [demo_command],
      lp_escalation = \<lparr>aes_required = False, aes_notify = [], aes_reason = [], aes_sla_seconds = 0\<rparr>, lp_evidence = []\<rparr>"

definition demo_library :: ai_library where
  "demo_library =
     \<lparr>li_g = demo_float, li_f = demo_float, li_unfloat = demo_unfloat, li_plan_length = (\<lambda>p. 100),
      li_read_plan = (\<lambda>j. Some demo_llm_plan), li_dump = enc_plan, li_load = dec_plan, li_dumps = (\<lambda>j. []),
      li_loads = (\<lambda>t. Some (JObj [(''x'', JNull)])), li_sha = id\<rparr>"

definition demo_exchange :: cloud_exchange where
  "demo_exchange model system user tool =
     Some \<lparr>cr_stop_reason = Some ''tool_use'',
           cr_content = [\<lparr>cb_type = Some ''text'', cb_name = None, cb_input = JNull\<rparr>,
                         \<lparr>cb_type = Some ''tool_use'', cb_name = Some TOOL_NAME, cb_input = JObj []\<rparr>],
           cr_model = None, cr_input_tokens = Some 9, cr_output_tokens = Some 7\<rparr>"

definition demo_world :: ai_world where
  "demo_world =
     \<lparr>aw_now = 0, aw_wall = 0, aw_fresh_id = ''r1'', aw_elapsed = ''1.00'', aw_plan_hex = ''abc'', aw_latency_ms = 5,
      aw_script = (\<lambda>k n m. Some (1, 9, 0)), aw_get = (\<lambda>k. Reply (Some [])), aw_set = (\<lambda>k v t. Reply True), aw_ping = True,
      aw_exchange = demo_exchange, aw_llm_seconds = 2\<rparr>"

definition demo_app_settings :: ai_settings where
  "demo_app_settings = ai_settings_defaults\<lparr>ais_llm_provider := ProviderCloud, ais_llm_model := ''m''\<rparr>"

definition demo_license :: license where
  "demo_license =
     \<lparr>lic_key_id = ''k1'', lic_key_digest = ''key'', lic_tenant = ''acme'', lic_tier = ''STANDARD'', lic_quota_per_minute = 10,
      lic_expires_at = Aware 5, lic_features = [''ai.intercept'']\<rparr>"

definition demo_call :: "string \<Rightarrow> ai_call" where
  "demo_call key =
     \<lparr>call_request = demo_request ''/v1/intercept'' key, call_method = ''POST'',
      call_body = Inr (demo_ai_payload SevHighAi ''Pump 7'' [''Ada''])\<rparr>"

definition demo_stack :: "(app \<Rightarrow> app) list \<Rightarrow> app \<Rightarrow> app" where
  "demo_stack layers inner = fold (\<lambda>layer a. layer a) layers inner"

lemma demo_stack_law: "later_is_outer demo_stack"
  by (simp add: later_is_outer_def demo_stack_def)

lemma demo_codec: "codec_ok demo_library"
  by (simp add: codec_ok_def demo_library_def dec_enc_plan enc_plan_def) (simp add: enc_plan_def [symmetric] dec_enc_plan)

definition demo_registry :: license_registry where
  "demo_registry = [(''key'', demo_license)]"

definition demo_start :: app_state where
  "demo_start =
     \<lparr>gs_limiter = build_limiter demo_app_settings, gs_rejections = [], gs_decisions = [],
      as_store = MemoryStore \<lparr>pc_max = 512, pc_data = [], pc_hits = 0, pc_misses = 0, pc_stores = 0\<rparr>, as_redis_ready = False,
      as_timings = [], as_replays = [], as_issued = [], as_planned = []\<rparr>"

lemma demo_app_fields:
  "redis_configured demo_app_settings = False" "ais_license_header demo_app_settings = ''X-License-Key''"
  "ais_idempotency_cache_size demo_app_settings = 512" "require_live_llm demo_app_settings"
  "ais_max_commands demo_app_settings = 6" "ais_llm_timeout_seconds demo_app_settings = 30"
  by (simp_all add: demo_app_settings_def ai_settings_defaults_def redis_configured_def shared_state_enabled_def require_live_llm_def)

lemma demo_started: "lifespan_start demo_app_settings False = Inr demo_start"
  by (simp add: lifespan_start_def demo_start_def demo_app_fields build_plan_store_def)

lemma demo_settings_wf: "ai_settings_wf demo_app_settings"
  using make_ai_settings_wf [OF defaults_accepted]
  by (simp add: ai_settings_wf_def demo_app_settings_def ai_settings_fields_ok_def ai_settings_defaults_def MOCK_MODEL_ID_def)

lemma demo_app_key:
  "key = ''key'' \<or> key = ''bad'' \<Longrightarrow> call_license demo_app_settings demo_library demo_registry w (demo_call key) =
     (if key = ''key'' \<and> aw_wall w < 5 then Some demo_license else None)"
  by (auto simp: call_license_def gate_license_def gate_of_def demo_call_def demo_request_def request_key_def
      demo_app_fields demo_library_def license_lookup_def license_key_digest_def demo_registry_def demo_license_def
      lacks_feature_def lic_has_def FEATURE_BY_PREFIX_def str_startswith_def str_strip_def is_space_def partition_space_def)

lemma demo_not_exempt: "\<not> call_exempt (demo_call key)"
  by (simp add: call_exempt_def demo_call_def demo_request_def EXEMPT_PATHS_def)

lemma demo_admitted:
  "admission (fst (limiter_check demo_world (lic_key_id demo_license) (lic_quota_per_minute demo_license) (gs_limiter demo_start)))"
  by (simp add: demo_start_def build_limiter_def demo_app_fields limiter_check_def sliding_window_check_def
      window_limiter_init_def wl_bucket_def live_bucket_def demo_license_def Let_def)

lemma demo_body: "\<exists>p. bind_r (call_body (demo_call key)) make_ai_payload = Inr p \<and> ap_event_id p = ''e1''"
proof -
  have "supported_schema (str_strip ''openontology.mutation.v2'')" "str_strip ''e1'' = ''e1''" by code_simp+
  then show ?thesis by (simp add: demo_call_def demo_ai_payload_def make_ai_payload_def)
qed

lemma demo_plans: "\<exists>c. plan_mutation demo_app_settings demo_library demo_world demo_license p = Inr c"
proof -
  have "llm_plan_ok demo_llm_plan"
    by (simp add: llm_plan_ok_def demo_llm_plan_def demo_command_def ai_command_ok_def ai_escalation_ok_def
        sequences_are_contiguous_def)
  then have "planner_plan g f (world_provider demo_app_settings demo_library demo_world) model 30 ms x =
      Inr \<lparr>pr_plan = demo_llm_plan, pr_usage = \<lparr>tu_input_tokens = 9, tu_output_tokens = 7\<rparr>,
           pr_model = model, pr_latency_ms = ms\<rparr>" for g f model ms x
    by (simp add: planner_plan_def overruns_def world_provider_def demo_world_def build_provider_def demo_app_fields cloud_complete_def
        demo_exchange_def find_tool_use_def TOOL_NAME_def demo_library_def)
  moreover have "llm_plan_ok demo_llm_plan" by fact
  ultimately show ?thesis
    by (simp add: plan_mutation_def make_prompt_context_def demo_app_fields envelope_valid)
qed

lemma demo_store_ok: "store_ok demo_library (as_store demo_start)"
  by (simp add: store_ok_def demo_start_def)

lemma demo_routed:
  "\<exists>c s1. intercept_route demo_app_settings demo_library demo_world demo_license p demo_start = (Inr (c, False), s1)"
proof -
  obtain c where c: "plan_mutation demo_app_settings demo_library demo_world demo_license p = Inr c" using demo_plans by blast
  have none: "fst (store_get demo_library demo_world k (as_store demo_start)) = Inr None" for k
    by (simp add: demo_start_def memory_get plan_cache_get_def)
  show ?thesis
    by (rule intercept_route_cases [OF demo_codec demo_store_ok, of demo_app_settings demo_world demo_license p])
      (use none c in auto)
qed

lemma demo_handled:
  "handled_by demo_app_settings demo_library demo_world (Some demo_license) (demo_call ''key'') demo_start
     (serve demo_stack demo_app_settings demo_library demo_registry demo_world (demo_call ''key'') demo_start)"
proof -
  have lic: "call_license demo_app_settings demo_library demo_registry demo_world (demo_call ''key'') = Some demo_license"
    by (simp add: demo_app_key demo_world_def)
  show ?thesis
    by (rule serve_cases [OF demo_stack_law, of "demo_call ''key''" demo_app_settings demo_library demo_world demo_start demo_registry])
      (use lic demo_not_exempt demo_admitted in simp_all)
qed

lemma demo_answer:
  "\<exists>c. rs_content (fst (serve demo_stack demo_app_settings demo_library demo_registry demo_world (demo_call ''key'') demo_start)) =
     Some (PlanBody c)"
proof -
  obtain p where p: "bind_r (call_body (demo_call ''key'')) make_ai_payload = Inr p" using demo_body by blast
  obtain resp s' where r: "serve demo_stack demo_app_settings demo_library demo_registry demo_world (demo_call ''key'') demo_start =
      (resp, s')" by fastforce
  have path: "rq_path (call_request (demo_call ''key'')) = ''/v1/intercept''" "call_method (demo_call ''key'') = ''POST''"
    by (simp_all add: demo_call_def demo_request_def)
  obtain s2 where s2: "gate_state.more s2 = gate_state.more demo_start"
    "case intercept_route demo_app_settings demo_library demo_world demo_license p s2 of
       (Inl err, s3) \<Rightarrow> as_store s' = as_store s3 \<and> as_issued s' = as_issued s3 \<and>
         (case error_handler (call_id demo_world (demo_call ''key'')) err of
            Inl _ \<Rightarrow> resp = error_response 500 ''internal_error'' ''-'' [] | Inr r \<Rightarrow> rs_status resp = rs_status r)
     | (Inr (c, replay), s3) \<Rightarrow> as_store s' = as_store s3 \<and> as_issued s' = as_issued s3 \<and>
         rs_status resp = 200 \<and> rs_content resp = Some (PlanBody c)"
    by (rule handled_routes [OF demo_handled [unfolded r] path p])
  obtain c where c: "plan_mutation demo_app_settings demo_library demo_world demo_license p = Inr c" using demo_plans by blast
  have store: "as_store s2 = as_store demo_start" using app_fields [OF s2(1)] by simp
  have "\<exists>d b. fst (intercept_route demo_app_settings demo_library demo_world demo_license p s2) = Inr (d, b)"
    by (rule intercept_route_cases [OF demo_codec, of s2 demo_app_settings demo_world demo_license p])
      (use store demo_store_ok c in auto)
  then show ?thesis using s2(2) r by (auto split: prod.splits)
qed

theorem plans_stay_with_tenant_witness:
  "\<exists>c. rs_content (hd (fst (serve_calls demo_stack demo_app_settings demo_library demo_registry
       [(demo_world, demo_call ''key''), (demo_world, demo_call ''bad'')] demo_start))) = Some (PlanBody c) \<and>
     cs_tenant c = ''acme''"
proof -
  let ?calls = "[(demo_world, demo_call ''key''), (demo_world, demo_call ''bad'')]"
  obtain resp s1 where one: "serve demo_stack demo_app_settings demo_library demo_registry demo_world (demo_call ''key'') demo_start =
      (resp, s1)" by fastforce
  obtain c where c: "rs_content resp = Some (PlanBody c)" using demo_answer one by auto
  obtain resps s' where run: "serve_calls demo_stack demo_app_settings demo_library demo_registry ?calls demo_start = (resp # resps, s')"
    by (cases "serve demo_stack demo_app_settings demo_library demo_registry demo_world (demo_call ''bad'') s1") (simp add: one)
  have "((demo_world, demo_call ''key''), resp) \<in> set (zip ?calls (resp # resps))" by simp
  then obtain lic where "call_license demo_app_settings demo_library demo_registry demo_world (demo_call ''key'') = Some lic"
    "cs_tenant c = lic_tenant lic"
    using plans_stay_with_tenant [OF demo_stack_law demo_codec _ demo_started run _ c, of demo_world "demo_call ''key''"]
    by (auto simp: demo_app_fields)
  then have "cs_tenant c = ''acme''" by (auto simp: demo_app_key demo_world_def demo_license_def)
  then show ?thesis using run c by simp
qed

theorem redelivery_replays_plan_witness:
  "\<exists>p c s1. bind_r (call_body (demo_call ''key'')) make_ai_payload = Inr p \<and>
     intercept_route demo_app_settings demo_library demo_world demo_license p demo_start = (Inr (c, False), s1) \<and>
     fst (intercept_route demo_app_settings demo_library demo_world demo_license p
       (snd (serve_calls demo_stack demo_app_settings demo_library demo_registry
          [(demo_world, demo_call ''key''), (demo_world, demo_call ''bad'')] s1))) = Inr (c, True)"
proof -
  obtain p where p: "bind_r (call_body (demo_call ''key'')) make_ai_payload = Inr p" using demo_body by blast
  obtain c s1 where first: "intercept_route demo_app_settings demo_library demo_world demo_license p demo_start = (Inr (c, False), s1)"
    using demo_routed by blast
  let ?calls = "[(demo_world, demo_call ''key''), (demo_world, demo_call ''bad'')]"
  have m: "as_store demo_start = MemoryStore \<lparr>pc_max = 512, pc_data = [], pc_hits = 0, pc_misses = 0, pc_stores = 0\<rparr>"
    by (simp add: demo_start_def)
  obtain resps s2 where run: "serve_calls demo_stack demo_app_settings demo_library demo_registry ?calls s1 = (resps, s2)"
    by fastforce
  have "fst (intercept_route demo_app_settings demo_library demo_world demo_license p s2) = Inr (c, True)"
    using redelivery_replays_plan [OF demo_stack_law demo_codec demo_store_ok m first _ run refl refl, of demo_world] by simp
  then show ?thesis using p first run by (metis snd_conv)
qed

theorem provider_failures_are_502_witness:
  "rs_status (fst (serve demo_stack demo_app_settings demo_library demo_registry demo_world (demo_call ''key'') demo_start)) \<in> {200, 502}"
proof -
  obtain p where p: "bind_r (call_body (demo_call ''key'')) make_ai_payload = Inr p" using demo_body by blast
  have lic: "call_license demo_app_settings demo_library demo_registry demo_world (demo_call ''key'') = Some demo_license"
    by (simp add: demo_app_key demo_world_def)
  show ?thesis
    using provider_failures_are_502 [OF demo_stack_law demo_codec demo_settings_wf demo_store_ok _ _ lic demo_admitted p]
    by (cases "serve demo_stack demo_app_settings demo_library demo_registry demo_world (demo_call ''key'') demo_start")
      (auto simp: demo_call_def demo_request_def)
qed

theorem refusals_leave_no_timing_witness:
  "as_timings (snd (serve demo_stack demo_app_settings demo_library demo_registry demo_world (demo_call ''bad'') demo_start)) =
     as_timings demo_start"
  using refusals_leave_no_timing [OF demo_stack_law demo_not_exempt, where settings = demo_app_settings and lib = demo_library and
      registry = demo_registry and w = demo_world and s = demo_start, of "''bad''"]
  by (simp add: demo_app_key)

definition demo_shared :: app_state where
  "demo_shared = demo_start\<lparr>as_store :=
     SharedStore \<lparr>rs_prefix = ''plan:'', rs_ttl_ms = 86400000, rs_fail_open = False, rs_hits = 0, rs_misses = 0, rs_stores = 0,
       rs_conflicts = 0, rs_write_errors = 0, rs_read_errors = 0, rs_failed_open = 0, rs_failed_closed = 0\<rparr>\<rparr>"

theorem foreign_record_answers_500_witness:
  "rs_status (fst (serve demo_stack demo_app_settings demo_library demo_registry demo_world (demo_call ''key'') demo_shared)) = 500"
proof -
  obtain p where p: "bind_r (call_body (demo_call ''key'')) make_ai_payload = Inr p" using demo_body by blast
  have lic: "call_license demo_app_settings demo_library demo_registry demo_world (demo_call ''key'') = Some demo_license"
    by (simp add: demo_app_key demo_world_def)
  have adm: "admission (fst (limiter_check demo_world (lic_key_id demo_license) (lic_quota_per_minute demo_license) (gs_limiter demo_shared)))"
    using demo_admitted by (simp add: demo_shared_def)
  obtain st where st: "as_store demo_shared = SharedStore st" by (simp add: demo_shared_def)
  obtain resp s' where run: "serve demo_stack demo_app_settings demo_library demo_registry demo_world (demo_call ''key'') demo_shared =
      (resp, s')" by fastforce
  have "rs_status resp = 500"
    using foreign_record_answers_500 [OF demo_stack_law st _ _ lic adm p _ _ _ _ run, of "[]" "[(''x'', JNull)]" ValidationErrorExn]
    by (simp add: demo_call_def demo_request_def demo_world_def demo_library_def dec_plan_def)
  then show ?thesis by (simp add: run)
qed

end
