(* ===== verification/Planner_Worker.thy ===== *)
theory Planner_Worker
  imports Interceptor_App Bridge
begin

text \<open>
  From the AI interceptor to the commands of the worker: the command sequence the service answers with
  (ai-interceptor/app/models.py) as the action plan the worker reads (ActionPlan in command_worker.py), and its
  translation.  Unlike the GraphRAG route, whose routine plans the worker refuses, every plan the AI interceptor
  issues translates, action by action.
\<close>

section \<open>The plan on the worker's side\<close>

text \<open>The fields of a command sequence that the worker's models declare; the others are ignored.\<close>

definition worker_action :: "ai_command \<Rightarrow> planned_action" where
  "worker_action c =
     \<lparr>pa_sequence = acm_sequence c, pa_target_component = acm_target_component c, pa_action = ai_action_value (acm_action c),
      pa_priority = ai_priority_value (acm_priority c), pa_assigned_to = acm_assigned_to c,
      pa_assigned_operator_id = acm_assigned_operator_id c, pa_parameters = acm_parameters c,
      pa_expected_effect = acm_expected_effect c, pa_rollback = acm_rollback c, pa_deadline_seconds = acm_deadline_seconds c\<rparr>"

definition worker_plan :: "command_sequence \<Rightarrow> action_plan" where
  "worker_plan c =
     \<lparr>pl_plan_id = cs_plan_id c, pl_event_id = cs_event_id c, pl_asset_id = cs_asset_id c, pl_tenant = cs_tenant c,
      pl_model = cs_model c, pl_confidence = cs_confidence c, pl_reasoning_summary = cs_reasoning_summary c,
      pl_commands = map worker_action (cs_commands c),
      pl_escalation = \<lparr>es_required = aes_required (cs_escalation c), es_notify = aes_notify (cs_escalation c),
                       es_reason = aes_reason (cs_escalation c), es_sla_seconds = aes_sla_seconds (cs_escalation c)\<rparr>,
      pl_evidence = cs_evidence c, pl_latency_ms = cs_latency_ms c\<rparr>"

text \<open>What the worker makes of the two vocabularies.\<close>

fun worker_action_type :: "ai_action \<Rightarrow> action_type" where
  "worker_action_type AiIsolate = ISOLATE"
| "worker_action_type AiShutdown = SHUTDOWN"
| "worker_action_type AiThrottle = SHIFT_SPEED"
| "worker_action_type AiInspect = INSPECT"
| "worker_action_type AiScheduleMaintenance = SCHEDULE_MAINTENANCE"
| "worker_action_type AiNotify = NOTIFY"
| "worker_action_type AiAcknowledge = ACKNOWLEDGE"

fun worker_priority :: "ai_priority \<Rightarrow> execution_priority" where
  "worker_priority AiCritical = PrioCritical"
| "worker_priority AiHigh = PrioHigh"
| "worker_priority AiMedium = PrioLow"
| "worker_priority AiLow = PrioLow"

lemma action_known:
  "map_of ACTION_ALIASES (str_upper (str_strip (ai_action_value a))) = Some (worker_action_type a)"
  by (cases a; simp only: ai_action_value.simps worker_action_type.simps; code_simp)

lemma priority_known:
  "map_of PRIORITY_ALIASES (str_upper (str_strip (ai_priority_value a))) = Some (worker_priority a)"
  by (cases a; simp only: ai_priority_value.simps worker_priority.simps; code_simp)

text \<open>What the worker needs of its own side: the mutation, the subscription and the record.\<close>

definition publishable :: "mutation \<Rightarrow> subscription \<Rightarrow> string \<Rightarrow> bool" where
  "publishable m sub corr \<longleftrightarrow>
     identifier_shape (str_strip (mu_asset_id m)) \<and> length (str_strip (mu_asset_id m)) \<le> 128 \<and>
     str_strip (sub_tenant sub) \<noteq> [] \<and> str_strip (sub_key_id sub) \<noteq> [] \<and> str_strip (mu_event_id m) \<noteq> [] \<and>
     str_strip corr \<noteq> []"

lemma plan_id_strip: "str_strip (''plan_'' @ h) \<noteq> []"
proof -
  have "\<not> is_space (CHR ''p'')" by code_simp
  then have "dropWhile is_space (rev (''plan_'' @ h)) \<noteq> []" by (auto simp: dropWhile_eq_Nil_conv)
  then show ?thesis using \<open>\<not> is_space (CHR ''p'')\<close> by (simp add: str_strip_def)
qed

lemma plan_step_translates:
  assumes "ai_command_ok k" "command_sequence_ok c" "str_strip (cs_plan_id c) \<noteq> []" "publishable m sub corr"
    and "1 \<le> s_default_deadline_seconds s" "s_default_deadline_seconds s \<le> 604800" "1 \<le> i"
  shows "\<exists>x. translate_step uuid5 t m (worker_reads (worker_plan c)) sub s corr (i, strip_action (worker_action k)) = Inr x \<and>
    cp_action_type x = worker_action_type (acm_action k) \<and> cp_execution_priority x = worker_priority (acm_priority k)"
proof -
  let ?k = "strip_action (worker_action k)"
  let ?d = "if acm_deadline_seconds k \<noteq> 0 then acm_deadline_seconds k else s_default_deadline_seconds s"
  have a: "map_of ACTION_ALIASES (str_upper (str_strip (pa_action ?k))) = Some (worker_action_type (acm_action k))"
    "map_of PRIORITY_ALIASES (str_upper (str_strip (pa_priority ?k))) = Some (worker_priority (acm_priority k))"
    "pa_deadline_seconds ?k = acm_deadline_seconds k"
    by (simp_all add: strip_action_def worker_action_def action_known priority_known)
  have p: "pl_plan_id (worker_reads (worker_plan c)) = cs_plan_id c" "pl_confidence (worker_reads (worker_plan c)) = cs_confidence c"
    by (simp_all add: worker_reads_def worker_plan_def)
  have d: "0 \<le> ?d" "?d \<le> 604800" using assms(1,5,6) by (auto simp: ai_command_ok_def)
  show ?thesis unfolding translate_step_def a case_prod_conv option.case Let_def
    using assms(2-4,7) d
    by (simp add: make_command_def strip_command_def command_ok_def publishable_def command_sequence_ok_def p
        identifier_shape_def Let_def split del: if_split)
qed

section \<open>Properties\<close>

text \<open>
  Every plan the AI interceptor issues can be published.  Whatever the provider planned, a plan for a mutation
  whose asset has an identifier and whose event has a name passes the worker's plan contract, and the worker
  translates it: one command for each planned command, as many as it accepts, with the same action, throttling
  being a shift of speed, and the same priority, medium and low being one.
\<close>
theorem issued_plan_translates:
  "plan_mutation settings lib w lic p = Inr c \<Longrightarrow> ap_event_id p \<noteq> [] \<Longrightarrow> ap_asset_id p \<noteq> [] \<Longrightarrow>
   publishable m sub corr \<Longrightarrow> settings_fields_ok s \<Longrightarrow>
   action_plan_ok (worker_plan c) \<and>
   (\<exists>cs. translate_plan uuid5 t m (worker_reads (worker_plan c)) sub s corr = Inr cs \<and>
      map cp_action_type cs = map (worker_action_type \<circ> acm_action) (take (nat (s_max_commands s)) (cs_commands c)) \<and>
      map cp_execution_priority cs = map (worker_priority \<circ> acm_priority) (take (nat (s_max_commands s)) (cs_commands c)))"
proof -
  assume plan: "plan_mutation settings lib w lic p = Inr c" and ids: "ap_event_id p \<noteq> []" "ap_asset_id p \<noteq> []"
    and pub: "publishable m sub corr" and wf: "settings_fields_ok s"
  have b: "plan_bound lic p c" by (rule plan_mutation_bound [OF plan])
  have pid: "\<exists>h. cs_plan_id c = ''plan_'' @ h" using plan_mutation_id [OF plan] .
  then have strip: "str_strip (cs_plan_id c) \<noteq> []" using plan_id_strip by auto
  have ok: "command_sequence_ok c" "cs_commands c \<noteq> []" "list_all ai_command_ok (cs_commands c)"
    using b by (simp_all add: plan_bound_def command_sequence_ok_def)
  have s: "1 \<le> s_default_deadline_seconds s" "s_default_deadline_seconds s \<le> 604800" "1 \<le> s_max_commands s"
    using wf by (simp_all add: settings_fields_ok_def)
  have each: "planned_action_ok (worker_action k)" if "k \<in> set (cs_commands c)" for k
    using ok(3) that by (cases "acm_action k"; cases "acm_priority k")
      (auto simp: list_all_iff planned_action_ok_def worker_action_def ai_command_ok_def)
  have valid: "action_plan_ok (worker_plan c)"
    using b ids pid each by (auto simp: action_plan_ok_def worker_plan_def plan_bound_def command_sequence_ok_def
        ai_escalation_ok_def list_all_iff)
  let ?taken = "take (nat (s_max_commands s)) (cs_commands c)"
  let ?f = "translate_step uuid5 t m (worker_reads (worker_plan c)) sub s corr"
  have steps: "planned_steps s (worker_reads (worker_plan c)) = map (strip_action \<circ> worker_action) ?taken"
    by (simp add: planned_steps_def worker_reads_def worker_plan_def take_map)
  have step: "\<exists>x. ?f (int (Suc i), strip_action (worker_action (?taken ! i))) = Inr x \<and>
      cp_action_type x = worker_action_type (acm_action (?taken ! i)) \<and>
      cp_execution_priority x = worker_priority (acm_priority (?taken ! i))" if "i < length ?taken" for i
  proof (rule plan_step_translates [OF _ ok(1) strip pub s(1,2)])
    have "?taken ! i \<in> set (cs_commands c)" by (rule in_set_takeD [OF nth_mem [OF that]])
    then show "ai_command_ok (?taken ! i)" using ok(3) by (simp add: list_all_iff)
  qed simp
  have "\<exists>y. ?f kq = Inr y" if kq: "kq \<in> set (numbered (planned_steps s (worker_reads (worker_plan c))))" for kq
  proof -
    obtain i where "i < length ?taken" "kq = (int (Suc i), strip_action (worker_action (?taken ! i)))"
      using kq set_numbered [of "fst kq" "snd kq" "planned_steps s (worker_reads (worker_plan c))"]
      by (auto simp: steps prod_eq_iff)
    then show ?thesis using step by metis
  qed
  then have "\<exists>ys. map_r ?f (numbered (planned_steps s (worker_reads (worker_plan c)))) = Inr ys"
    unfolding map_r_Inr_all by blast
  then obtain cs where cs: "map_r ?f (numbered (planned_steps s (worker_reads (worker_plan c)))) = Inr cs" by blast
  have len: "length cs = length ?taken" using map_r_Inr_length [OF cs] by (simp add: steps)
  have "?taken \<noteq> []" using ok(2) s(3) by (cases "cs_commands c") (simp_all add: take_Cons')
  then have "cs \<noteq> []" using len by (metis length_0_conv)
  then have tr: "translate_plan uuid5 t m (worker_reads (worker_plan c)) sub s corr = Inr cs"
    using cs by (simp add: translate_plan_def planned_steps_def)
  have "?f (int (Suc i), strip_action (worker_action (?taken ! i))) = Inr (cs ! i)" if "i < length cs" for i
    using translate_plan_Inr [OF tr] that len by (simp add: steps)
  then have "cp_action_type (cs ! i) = worker_action_type (acm_action (?taken ! i)) \<and>
      cp_execution_priority (cs ! i) = worker_priority (acm_priority (?taken ! i))" if "i < length cs" for i
    using step [of i] that len by fastforce
  then have "map cp_action_type cs = map (worker_action_type \<circ> acm_action) ?taken"
    "map cp_execution_priority cs = map (worker_priority \<circ> acm_priority) ?taken"
    using len by (simp_all add: list_eq_iff_nth_eq)
  then show ?thesis using valid tr by blast
qed

theorem issued_plan_translates_witness:
  "\<exists>p c cs. plan_mutation demo_app_settings demo_library demo_world demo_license p = Inr c \<and>
     translate_plan (\<lambda>s. []) 5 (demo_mutation SevHigh False) (worker_reads (worker_plan c)) demo_subscription default_settings ''c1'' =
       Inr cs"
proof -
  let ?p = "demo_ai_payload SevHighAi ''Pump 7'' [''Ada'']"
  obtain c where c: "plan_mutation demo_app_settings demo_library demo_world demo_license ?p = Inr c" using demo_plans by blast
  have "publishable (demo_mutation SevHigh False) demo_subscription ''c1''" by code_simp
  moreover have "settings_fields_ok default_settings" by (rule default_fields_ok)
  ultimately obtain cs where "translate_plan (\<lambda>s. []) 5 (demo_mutation SevHigh False) (worker_reads (worker_plan c))
      demo_subscription default_settings ''c1'' = Inr cs"
    using issued_plan_translates [OF c, of "demo_mutation SevHigh False" demo_subscription "''c1''" default_settings]
    by (auto simp: demo_ai_payload_def)
  then show ?thesis using c by blast
qed

end
