(* ===== verification/Worker_Http.thy ===== *)
theory Worker_Http
  imports Closure Preflight License_Gate
begin

text \<open>
  The outer shell of the command worker (command_worker.py): the key a caller presents and the
  dependency that checks it, the HTTP routes over the closure pipeline, the mapping of exceptions to
  answers, the probes, the export of the counters, and the life of the process from start-up over
  the consumer tasks to shutdown.

  The web framework is the caller of these functions: it decodes the body before the dependency of an
  endpoint runs, checks the declared type of the body after it, and turns an exception into the
  answer of the handler registered for it.
\<close>

section \<open>The log context\<close>

record log_context =
  lg_request_id :: string
  lg_tenant :: string
  lg_event_id :: string

definition unbound_context :: log_context where
  "unbound_context = \<lparr>lg_request_id = ''-'', lg_tenant = ''-'', lg_event_id = ''-''\<rparr>"

text \<open>Binding answers the context that was bound before, the token of the reset.\<close>

definition bind_log_context :: "string \<Rightarrow> string \<Rightarrow> string \<Rightarrow> log_context \<Rightarrow> log_context \<times> log_context" where
  "bind_log_context request_id tenant event_id ctx =
     (ctx, \<lparr>lg_request_id = request_id, lg_tenant = tenant, lg_event_id = event_id\<rparr>)"

definition reset_log_context :: "log_context \<Rightarrow> log_context \<Rightarrow> log_context" where
  "reset_log_context tokens ctx = tokens"

definition current_request_id :: "log_context \<Rightarrow> string" where
  "current_request_id ctx = lg_request_id ctx"

section \<open>The export of the counters\<close>

definition metrics_snapshot :: "metrics \<Rightarrow> (string \<times> nat) list" where
  "metrics_snapshot m =
     [(''mutations_consumed'', mt_consumed m),
      (''mutations_authorised'', mt_authorised m),
      (''license_rejections'', mt_license_rejected m),
      (''plans_requested'', mt_plans_requested m),
      (''plans_failed'', mt_plans_failed m),
      (''commands_issued'', mt_commands_issued m),
      (''batches_published'', mt_batches_published m),
      (''publish_failures'', mt_publish_failures m),
      (''dead_lettered'', mt_dead_lettered m),
      (''dlq_failures'', mt_dlq_failures m),
      (''transient_failures'', mt_transient_failures m),
      (''consumer_restarts'', mt_consumer_restarts m),
      (''messages_rewound'', mt_messages_rewound m)]"

definition interceptor_snapshot :: "metrics \<Rightarrow> (string \<times> nat) list" where
  "interceptor_snapshot m =
     [(''calls'', mt_interceptor_calls m),
      (''throttled_429'', mt_interceptor_throttled m),
      (''server_errors_5xx'', mt_interceptor_server_errors m),
      (''timeouts'', mt_interceptor_timeouts m),
      (''transport_errors'', mt_interceptor_transport_errors m),
      (''auth_failures'', mt_interceptor_auth_failures m),
      (''payload_rejections'', mt_interceptor_rejected m)]"

definition uptime_seconds :: "rat \<Rightarrow> rat \<Rightarrow> rat" where
  "uptime_seconds started_at now = py_round (now - started_at) 3"

text \<open>The names the collector asks the snapshot for, and the causes of the labelled family.\<close>

definition COUNTERS :: "string list" where
  "COUNTERS =
     [''mutations_consumed'', ''mutations_authorised'', ''license_rejections'', ''plans_requested'',
      ''plans_failed'', ''commands_issued'', ''batches_published'', ''publish_failures'',
      ''dead_lettered'', ''dlq_failures'', ''transient_failures'', ''consumer_restarts'',
      ''messages_rewound'']"

definition INTERCEPTOR_CAUSES :: "(string \<times> string) list" where
  "INTERCEPTOR_CAUSES =
     [(''calls'', ''ok''), (''throttled_429'', ''throttled''), (''server_errors_5xx'', ''server_error''),
      (''timeouts'', ''timeout''), (''transport_errors'', ''transport_error''),
      (''auth_failures'', ''auth_failure''), (''payload_rejections'', ''payload_rejected'')]"

datatype metric_family =
    GaugeFamily string rat
  | CounterFamily string nat
  | LabelledFamily string string "(string \<times> nat) list"

definition subscript :: "(string \<times> 'v) list \<Rightarrow> string \<Rightarrow> 'v raises" where
  "subscript d k = (case map_of d k of Some v \<Rightarrow> Inr v | None \<Rightarrow> Inl KeyErrorExn)"

definition collect_metrics :: "rat \<Rightarrow> metrics \<Rightarrow> metric_family list raises" where
  "collect_metrics uptime m =
     bind_r (map_r (\<lambda>field. bind_r (subscript (metrics_snapshot m) field)
               (\<lambda>v. Inr (CounterFamily (''openontology_worker_'' @ field) v))) COUNTERS) (\<lambda>counters.
     bind_r (map_r (\<lambda>(field, cause). bind_r (subscript (interceptor_snapshot m) field)
               (\<lambda>v. Inr (cause, v))) INTERCEPTOR_CAUSES) (\<lambda>causes.
       Inr (GaugeFamily ''openontology_worker_uptime_seconds'' uptime # counters @
            [LabelledFamily ''openontology_worker_interceptor_calls'' ''cause'' causes])))"

text \<open>
  The process-wide registry: the collectors registered with it, each the metrics object it reads.  An
  application instance has a metrics object of its own, here its name.
\<close>

record metrics_registry =
  mr_collectors :: "nat list"
  mr_bound :: "nat option"

definition register_worker_metrics :: "nat \<Rightarrow> metrics_registry \<Rightarrow> metrics_registry" where
  "register_worker_metrics metrics r =
     (case mr_bound r of
        Some i \<Rightarrow> r\<lparr>mr_collectors := (mr_collectors r)[i := metrics]\<rparr>
      | None \<Rightarrow> r\<lparr>mr_collectors := mr_collectors r @ [metrics], mr_bound := Some (length (mr_collectors r))\<rparr>)"

section \<open>Answers\<close>

record health_body =
  hb_mutations_topic :: string
  hb_commands_topic :: string
  hb_interceptor_mode :: interceptor_mode
  hb_uptime_seconds :: rat

text \<open>What a consumer task last wrote about itself.\<close>

datatype run_label =
  AwaitingPreflight | Connecting | Reconnecting | Consuming | Backpressure | Cancelled | Stopped

record ready_body =
  rb_ready :: bool
  rb_producer_ok :: bool
  rb_consumers :: "(nat \<times> run_label) list"
  rb_consuming :: nat
  rb_expected :: int
  rb_interceptor_mode :: interceptor_mode
  rb_preflight :: preflight_status

record stats_config =
  sg_mutations_topic :: string
  sg_commands_topic :: string
  sg_dlq_topic :: string
  sg_consumer_group :: string
  sg_consumer_workers :: int
  sg_interceptor_mode :: interceptor_mode
  sg_interceptor_endpoint :: "string option"
  sg_enterprise_endpoint :: "string option"
  sg_enterprise_tiers :: "string list"
  sg_entitled_plans :: "string list"
  sg_max_commands :: int

record stats_body =
  sb_config :: stats_config
  sb_uptime_seconds :: rat
  sb_metrics :: "(string \<times> nat) list"
  sb_interceptor :: "(string \<times> nat) list"
  sb_license_cache :: cache_stats
  sb_rate_gate :: "rate_gate_stats option"
  sb_preflight :: preflight_status
  sb_consumers :: "(nat \<times> run_label) list"

datatype worker_content =
    HealthContent health_body
  | ReadyContent ready_body
  | StatsContent stats_body
  | MetricsContent "metric_family list"
  | BatchContent command_batch
  | PlanContent action_plan

type_synonym worker_response = "worker_content http_response"

definition worker_error :: "int \<Rightarrow> string \<Rightarrow> log_context \<Rightarrow> (string \<times> string) list \<Rightarrow> worker_response" where
  "worker_error status_code code ctx headers =
     set_header ''X-Request-ID'' (current_request_id ctx)
       \<lparr>rs_status = status_code, rs_code = code, rs_headers = headers, rs_content = None\<rparr>"

definition success :: "worker_content \<Rightarrow> worker_response" where
  "success c = \<lparr>rs_status = 200, rs_code = [], rs_headers = [], rs_content = Some c\<rparr>"

text \<open>The registered exception handlers, and the one of the library's validation of a request.\<close>

definition exception_answer :: "log_context \<Rightarrow> worker_exn \<Rightarrow> worker_response" where
  "exception_answer ctx e =
     (case e of
        GateRejected code \<Rightarrow> worker_error 401 code ctx [(''WWW-Authenticate'', ''Bearer'')]
      | PermanentMessageError reason \<Rightarrow> worker_error 422 reason ctx []
      | TransientFailure reason \<Rightarrow> worker_error 503 reason ctx [(''Retry-After'', ''5'')]
      | _ \<Rightarrow> worker_error 500 ''internal_error'' ctx [])"

definition payload_invalid :: "log_context \<Rightarrow> worker_response" where
  "payload_invalid ctx = worker_error 422 ''payload_invalid'' ctx []"

section \<open>The caller's key\<close>

text \<open>\<open>a or b\<close> on optional text: an empty text counts as absent.\<close>

definition text_or :: "string option \<Rightarrow> string option \<Rightarrow> string option" where
  "text_or a b = (case a of Some v \<Rightarrow> if v \<noteq> [] then Some v else b | None \<Rightarrow> b)"

definition request_presented_key :: "settings \<Rightarrow> http_request \<Rightarrow> string option" where
  "request_presented_key s r =
     (let presented = text_or (rq_header r (s_license_header s)) (rq_header r ''X-License-Key'');
          (scheme, credentials) =
            partition_space (case rq_header r ''Authorization'' of None \<Rightarrow> [] | Some v \<Rightarrow> v)
      in case presented of
           Some v \<Rightarrow>
             if str_strip v \<noteq> [] then Some (str_strip v)
             else if str_lower scheme = ''bearer'' \<and> str_strip credentials \<noteq> [] then Some (str_strip credentials)
             else None
         | None \<Rightarrow>
             if str_lower scheme = ''bearer'' \<and> str_strip credentials \<noteq> [] then Some (str_strip credentials)
             else None)"

text \<open>The key the dependency checks: the declared header is its last resort.\<close>

definition dependency_key :: "settings \<Rightarrow> http_request \<Rightarrow> string" where
  "dependency_key s r =
     (case text_or (request_presented_key s r) (map_option str_strip (rq_header r ''X-License-Key'')) of
        Some k \<Rightarrow> k
      | None \<Rightarrow> [])"

definition require_subscription ::
    "closure_env \<Rightarrow> settings \<Rightarrow> http_request \<Rightarrow> world \<Rightarrow> (worker_exn + subscription) \<times> world" where
  "require_subscription env s r w =
     (let t = w_ticks w;
          (decision, g) = authorize (x_sha env) (x_mono env t) (x_wall env t)
                            (JObj [(''license_key'', JStr (dependency_key s r))]) False (w_gatekeeper w);
          w' = w\<lparr>w_gatekeeper := g, w_ticks := Suc t\<rparr>
      in case decision of
           Inl (LicenseRejected code) \<Rightarrow> (Inl (GateRejected code), w')
         | Inl (AuthRaised e) \<Rightarrow> (Inl (OtherExn e), w')
         | Inr sub \<Rightarrow> (Inr sub, w'))"

definition with_presented_key :: "settings \<Rightarrow> http_request \<Rightarrow> (string \<times> json) list \<Rightarrow> (string \<times> json) list" where
  "with_presented_key s r payload =
     (case request_presented_key s r of
        Some k \<Rightarrow> AList.update ''license_key'' (JStr k) payload
      | None \<Rightarrow> payload)"

section \<open>The application and its routes\<close>

text \<open>
  The application state.  The consumer tasks are kept by what they last wrote about themselves, the
  dictionary \<open>worker_states\<close> copies; the counters, the gate and the producer are in the world of the
  pipeline.
\<close>

record worker_app =
  wa_world :: world
  wa_log :: log_context
  wa_started_at :: rat
  wa_states :: "(nat \<times> run_label) list"
  wa_preflight :: preflight_status

text \<open>What the routes need beside the environment of the pipeline: the clock, and \<open>str\<close> of a JSON value.\<close>

record http_env =
  he_closure :: closure_env
  he_now :: rat
  he_repr :: "json \<Rightarrow> string"

definition healthz :: "http_env \<Rightarrow> settings \<Rightarrow> worker_app \<Rightarrow> worker_response" where
  "healthz he s a =
     success (HealthContent
       \<lparr>hb_mutations_topic = s_mutations_topic s, hb_commands_topic = s_commands_topic s,
        hb_interceptor_mode = s_interceptor_mode s,
        hb_uptime_seconds = uptime_seconds (wa_started_at a) (he_now he)\<rparr>)"

definition consuming_count :: "(nat \<times> run_label) list \<Rightarrow> nat" where
  "consuming_count states = length (filter (\<lambda>x. snd x \<in> {Consuming, Backpressure}) states)"

definition is_ready :: "settings \<Rightarrow> worker_app \<Rightarrow> bool" where
  "is_ready s a \<longleftrightarrow>
     w_producer_up (wa_world a) \<and> (s_consumer_workers s = 0 \<or> 0 < consuming_count (wa_states a))"

definition readyz :: "settings \<Rightarrow> worker_app \<Rightarrow> worker_response" where
  "readyz s a =
     \<lparr>rs_status = (if is_ready s a then 200 else 503), rs_code = [], rs_headers = [],
      rs_content = Some (ReadyContent
        \<lparr>rb_ready = is_ready s a, rb_producer_ok = w_producer_up (wa_world a), rb_consumers = wa_states a,
         rb_consuming = consuming_count (wa_states a), rb_expected = s_consumer_workers s,
         rb_interceptor_mode = s_interceptor_mode s, rb_preflight = wa_preflight a\<rparr>)\<rparr>"

definition metrics_endpoint :: "http_env \<Rightarrow> worker_app \<Rightarrow> worker_response raises" where
  "metrics_endpoint he a =
     bind_r (collect_metrics (uptime_seconds (wa_started_at a) (he_now he)) (w_metrics (wa_world a)))
       (\<lambda>families. Inr (success (MetricsContent families)))"

definition stats_config_of :: "settings \<Rightarrow> stats_config" where
  "stats_config_of s =
     \<lparr>sg_mutations_topic = s_mutations_topic s, sg_commands_topic = s_commands_topic s,
      sg_dlq_topic = s_commands_dlq_topic s, sg_consumer_group = s_consumer_group s,
      sg_consumer_workers = s_consumer_workers s, sg_interceptor_mode = s_interceptor_mode s,
      sg_interceptor_endpoint =
        (if s_interceptor_mode s = ModeHttp then Some (interceptor_endpoint s) else None),
      sg_enterprise_endpoint =
        (if enterprise_endpoint s \<noteq> [] then Some (enterprise_endpoint s) else None),
      sg_enterprise_tiers =
        (if enterprise_endpoint s \<noteq> [] then sorted_list_of_set (enterprise_tiers s) else []),
      sg_entitled_plans = sorted_list_of_set (entitled_plans s),
      sg_max_commands = s_max_commands s\<rparr>"

definition stats :: "http_env \<Rightarrow> settings \<Rightarrow> worker_app \<Rightarrow> worker_response" where
  "stats he s a =
     (let w = wa_world a in
      success (StatsContent
        \<lparr>sb_config = stats_config_of s,
         sb_uptime_seconds = uptime_seconds (wa_started_at a) (he_now he),
         sb_metrics = metrics_snapshot (w_metrics w), sb_interceptor = interceptor_snapshot (w_metrics w),
         sb_license_cache = license_cache_stats (gk_cache (w_gatekeeper w)),
         sb_rate_gate =
           (if s_interceptor_mode s = ModeHttp then Some (rate_gate_stats_of (cl_gate (w_client w))) else None),
         sb_preflight = wa_preflight a, sb_consumers = wa_states a\<rparr>))"

text \<open>The two commercial endpoints.  A handler answers a content or an exception.\<close>

type_synonym endpoint =
  "(string \<times> json) list \<Rightarrow> subscription \<Rightarrow> worker_app \<Rightarrow> (worker_exn + worker_content) \<times> worker_app"

definition issue_commands :: "http_env \<Rightarrow> settings \<Rightarrow> http_request \<Rightarrow> endpoint" where
  "issue_commands he s r payload sub a =
     (let env = he_closure he;
          corr = (case text_or (rq_header r ''X-Request-ID'') None of
                    Some i \<Rightarrow> i | None \<Rightarrow> x_uuid4 env (w_ticks (wa_world a)));
          (tokens, ctx) = bind_log_context corr (sub_tenant sub)
                            (py_str (he_repr he) (j_get_default payload ''event_id'' (JStr ''-''))) (wa_log a);
          (answer, w) = close_loop env s (with_presented_key s r payload) corr (wa_world a)
      in (map_sum id BatchContent answer, a\<lparr>wa_world := w, wa_log := reset_log_context tokens ctx\<rparr>))"

definition interceptor_stub :: "http_env \<Rightarrow> settings \<Rightarrow> endpoint" where
  "interceptor_stub he s payload sub a =
     (let env = he_closure he; c = x_client env in
      case validate_mutation (x_coerce_mutation env) payload of
        None \<Rightarrow> (Inl (PermanentMessageError ''mutation_invalid''), a)
      | Some m \<Rightarrow>
          (map_sum id PlanContent (stub_plan (ce_format_g c) (ce_plan_hex c) (ce_elapsed_ms c 0) s m sub), a))"

text \<open>
  What the framework does around such an endpoint: the body is decoded, the dependency runs, the type
  of the body is checked, the handler runs, and an exception is answered.
\<close>

datatype http_body = BodyMissing | BodyNotJson | BodyJson json

definition keyed_endpoint ::
    "http_env \<Rightarrow> settings \<Rightarrow> endpoint \<Rightarrow> http_request \<Rightarrow> http_body \<Rightarrow> worker_app \<Rightarrow> worker_response \<times> worker_app" where
  "keyed_endpoint he s handler r body a =
     (if body = BodyNotJson then (payload_invalid (wa_log a), a)
      else
        (case require_subscription (he_closure he) s r (wa_world a) of
           (Inl e, w) \<Rightarrow> (exception_answer (wa_log a) e, a\<lparr>wa_world := w\<rparr>)
         | (Inr sub, w) \<Rightarrow>
             (case body of
                BodyJson (JObj payload) \<Rightarrow>
                  (case handler payload sub (a\<lparr>wa_world := w\<rparr>) of
                     (Inl e, a') \<Rightarrow> (exception_answer (wa_log a') e, a')
                   | (Inr content, a') \<Rightarrow> (success content, a'))
              | _ \<Rightarrow> (payload_invalid (wa_log a), a\<lparr>wa_world := w\<rparr>))))"

datatype worker_call = GetCall string | PostCall string http_body

text \<open>The framework's own answer where no route matches: the path is unknown, or known with another method.\<close>

definition GET_PATHS :: "string list" where
  "GET_PATHS = [''/healthz'', ''/readyz'', ''/metrics'', ''/stats'']"

definition POST_PATHS :: "string list" where
  "POST_PATHS = [''/v1/commands/issue'', ''/v1/interceptor-stub/plan'']"

definition no_route :: "string list \<Rightarrow> string \<Rightarrow> worker_response" where
  "no_route others path =
     \<lparr>rs_status = (if path \<in> set others then 405 else 404), rs_code = [], rs_headers = [], rs_content = None\<rparr>"

definition worker_routes ::
    "http_env \<Rightarrow> settings \<Rightarrow> http_request \<Rightarrow> worker_call \<Rightarrow> worker_app \<Rightarrow> worker_response \<times> worker_app" where
  "worker_routes he s r call a =
     (case call of
        GetCall path \<Rightarrow>
          (if path = ''/healthz'' then (healthz he s a, a)
           else if path = ''/readyz'' then (readyz s a, a)
           else if path = ''/metrics'' then
             (case metrics_endpoint he a of
                Inl e \<Rightarrow> (exception_answer (wa_log a) (OtherExn e), a)
              | Inr resp \<Rightarrow> (resp, a))
           else if path = ''/stats'' then (stats he s a, a)
           else (no_route POST_PATHS path, a))
      | PostCall path body \<Rightarrow>
          (if path = ''/v1/commands/issue'' then keyed_endpoint he s (issue_commands he s r) r body a
           else if path = ''/v1/interceptor-stub/plan'' then keyed_endpoint he s (interceptor_stub he s) r body a
           else (no_route GET_PATHS path, a)))"

section \<open>Start-up and shutdown\<close>

definition start_publisher :: "bool \<Rightarrow> world \<Rightarrow> world raises" where
  "start_publisher reachable w =
     (if reachable then Inr (w\<lparr>w_producer_up := True\<rparr>) else Inl RuntimeErrorExn)"

definition stop_publisher :: "world \<Rightarrow> world" where
  "stop_publisher w = (if w_producer_up w then w\<lparr>w_producer_up := False\<rparr> else w)"

text \<open>
  What the start-up leaves: the application, the event the consumers wait for, whether the preflight
  task was started, and the consumer tasks.  The gate is not read in simulator mode.
\<close>

record started =
  su_app :: worker_app
  su_proceed :: bool
  su_preflight_task :: bool
  su_tasks :: "nat list"

definition initial_world :: "rate_gate \<Rightarrow> gatekeeper \<Rightarrow> world" where
  "initial_world gate g =
     \<lparr>w_gatekeeper = g, w_client = \<lparr>cl_gate = gate, cl_metrics = metrics_init, cl_requests = []\<rparr>,
      w_producer_up = False, w_sends = 0, w_ticks = 0, w_commands = [], w_dlq = []\<rparr>"

definition lifespan_startup :: "settings \<Rightarrow> bool \<Rightarrow> rat \<Rightarrow> gatekeeper \<Rightarrow> started raises" where
  "lifespan_startup s reachable now g =
     (let gate = rate_gate_init (s_interceptor_max_rpm s) (s_interceptor_rate_margin s);
          http = (s_interceptor_mode s = ModeHttp);
          skipped = \<not> http \<or> \<not> s_interceptor_preflight s;
          status = (if skipped then preflight_pending\<lparr>pf_state := PfSkipped\<rparr> else preflight_pending)
      in bind_r (start_publisher reachable (initial_world gate g)) (\<lambda>w.
           Inr \<lparr>su_app = \<lparr>wa_world = w, wa_log = unbound_context, wa_started_at = now, wa_states = [],
                           wa_preflight = status\<rparr>,
                su_proceed = skipped, su_preflight_task = \<not> skipped,
                su_tasks = [0..<nat (s_consumer_workers s)]\<rparr>))"

text \<open>The event after the preflight task has ended: it sets the event exactly when it answers True.\<close>

definition released_after :: "started \<Rightarrow> bool raises \<Rightarrow> bool" where
  "released_after u answer \<longleftrightarrow> su_proceed u \<or> (su_preflight_task u \<and> answer = Inr True)"

definition lifespan_shutdown :: "worker_app \<Rightarrow> worker_app" where
  "lifespan_shutdown a = a\<lparr>wa_world := stop_publisher (wa_world a)\<rparr>"

section \<open>The life of a consumer task\<close>

text \<open>
  \<open>CommandWorker.run\<close> as a step relation: where the task is, what it last wrote about itself, and the
  two events it looks at.  The stop flag is tested when a message arrives, before it is handled, and not
  again before the next: a record in the task's hands is handled, committed, or rewound and paused for,
  whatever the flag says.  \<open>settled\<close> is also the rewind that found its partition revoked.  \<open>Crashed\<close> ends
  are exceptions no handler of the loop names.
\<close>

datatype run_place = AtEntry | Parked | LoopHead | Starting | Polling | Handling | Pausing | BackingOff | Ended

record run_task =
  rt_place :: run_place
  rt_label :: "run_label option"
  rt_proceed :: bool
  rt_stopping :: bool
  rt_restarts :: nat

inductive run_step :: "run_task \<Rightarrow> run_task \<Rightarrow> bool" where
  enter: "rt_place t = AtEntry \<Longrightarrow> rt_proceed t \<Longrightarrow> run_step t (t\<lparr>rt_place := LoopHead\<rparr>)"
| park: "rt_place t = AtEntry \<Longrightarrow> \<not> rt_proceed t \<Longrightarrow>
    run_step t (t\<lparr>rt_place := Parked, rt_label := Some AwaitingPreflight\<rparr>)"
| unpark: "rt_place t = Parked \<Longrightarrow> rt_proceed t \<Longrightarrow> run_step t (t\<lparr>rt_place := LoopHead\<rparr>)"
| connect: "rt_place t = LoopHead \<Longrightarrow> \<not> rt_stopping t \<Longrightarrow>
    run_step t (t\<lparr>rt_place := Starting, rt_label := Some Connecting\<rparr>)"
| finish: "rt_place t = LoopHead \<Longrightarrow> rt_stopping t \<Longrightarrow>
    run_step t (t\<lparr>rt_place := Ended, rt_label := Some Stopped\<rparr>)"
| joined: "rt_place t = Starting \<Longrightarrow> run_step t (t\<lparr>rt_place := Polling, rt_label := Some Consuming\<rparr>)"
| not_joined: "rt_place t = Starting \<Longrightarrow>
    run_step t (t\<lparr>rt_place := BackingOff, rt_label := Some Reconnecting, rt_restarts := Suc (rt_restarts t)\<rparr>)"
| backed_off: "rt_place t = BackingOff \<Longrightarrow> run_step t (t\<lparr>rt_place := LoopHead\<rparr>)"
| received: "rt_place t = Polling \<Longrightarrow> \<not> rt_stopping t \<Longrightarrow> run_step t (t\<lparr>rt_place := Handling\<rparr>)"
| settled: "rt_place t = Handling \<Longrightarrow> run_step t (t\<lparr>rt_place := Polling\<rparr>)"
| pause: "rt_place t = Handling \<Longrightarrow> run_step t (t\<lparr>rt_place := Pausing, rt_label := Some Backpressure\<rparr>)"
| resume: "rt_place t = Pausing \<Longrightarrow> run_step t (t\<lparr>rt_place := Polling, rt_label := Some Consuming\<rparr>)"
| drained: "rt_place t = Polling \<Longrightarrow> \<not> rt_stopping t \<Longrightarrow> run_step t (t\<lparr>rt_place := LoopHead\<rparr>)"
| stopped: "rt_place t = Polling \<Longrightarrow> rt_stopping t \<Longrightarrow>
    run_step t (t\<lparr>rt_place := Ended, rt_label := Some Stopped\<rparr>)"
| loop_failed: "rt_place t \<in> {Polling, Handling} \<Longrightarrow>
    run_step t (t\<lparr>rt_place := BackingOff, rt_restarts := Suc (rt_restarts t)\<rparr>)"
| cancelled: "rt_place t \<in> {Starting, Polling, Handling, Pausing} \<Longrightarrow>
    run_step t (t\<lparr>rt_place := Ended, rt_label := Some Cancelled\<rparr>)"
| cancelled_elsewhere: "rt_place t \<in> {AtEntry, Parked, BackingOff} \<Longrightarrow> run_step t (t\<lparr>rt_place := Ended\<rparr>)"
| crashed: "rt_place t \<in> {Starting, Polling, Handling, Pausing} \<Longrightarrow> run_step t (t\<lparr>rt_place := Ended\<rparr>)"
| proceed_set: "run_step t (t\<lparr>rt_proceed := True\<rparr>)"
| stop_requested: "run_step t (t\<lparr>rt_stopping := True, rt_proceed := True\<rparr>)"

definition task_init :: "bool \<Rightarrow> run_task" where
  "task_init proceed =
     \<lparr>rt_place = AtEntry, rt_label = None, rt_proceed = proceed, rt_stopping = False, rt_restarts = 0\<rparr>"

inductive run_reaches :: "run_task \<Rightarrow> run_task \<Rightarrow> bool" for t where
  here: "run_reaches t t"
| onward: "run_reaches t u \<Longrightarrow> run_step u v \<Longrightarrow> run_reaches t v"

inductive_cases run_stepE: "run_step t u"

text \<open>The dictionary entry of a task, as the probe reads it.\<close>

definition states_of :: "run_task list \<Rightarrow> (nat \<times> run_label) list" where
  "states_of ts =
     concat (map (\<lambda>(i, t). case rt_label t of Some l \<Rightarrow> [(i, l)] | None \<Rightarrow> []) (enumerate 0 ts))"

section \<open>The gate of a caller\<close>

definition gate_serves :: "settings \<Rightarrow> sub_registry \<Rightarrow> gatekeeper \<Rightarrow> bool" where
  "gate_serves gs reg g \<longleftrightarrow>
     license_cache_ok (gk_cache g) \<and> lc_registry (gk_cache g) = reg \<and> gk_settings g = gs"

lemma gate_serves_after [simp]: "gate_serves gs reg (gatekeeper_after gs reg ttl n ops)"
  by (simp add: gate_serves_def gatekeeper_after_ok)

lemma gate_serves_authorize:
  "gate_serves gs reg g \<Longrightarrow> gate_serves gs reg (snd (authorize sha m now payload fb g))"
  using authorize_keeps by (auto simp: gate_serves_def)

text \<open>A subscription that may use the closure loop at a time, found under a key.\<close>

definition entitled :: "(string \<Rightarrow> string) \<Rightarrow> settings \<Rightarrow> sub_registry \<Rightarrow> rat \<Rightarrow> string \<Rightarrow> subscription \<Rightarrow> bool" where
  "entitled sha gs reg now key sub \<longleftrightarrow>
     registry_lookup reg (key_digest sha key) = Some sub \<and> sub_active sub \<and>
     (\<exists>t. sub_expires_at sub = Aware t \<and> now < t) \<and> sub_plan sub \<in> entitled_plans gs"

lemma authorize_entitled:
  assumes "gate_serves gs reg g" and "fst (authorize sha m now (JObj p) fb g) = Inr sub"
  obtains key where "extract_key gs p fb = Some key" "entitled sha gs reg now key sub"
  using assms authorize_spec_agrees [of g sha m now "JObj p" fb]
  by (auto simp: gate_serves_def authorize_spec_def check_subscription_Inr entitled_def split: option.splits)

lemma extract_key_top:
  "str_strip k = k \<Longrightarrow> k \<noteq> [] \<Longrightarrow> j_get p ''license_key'' = JStr k \<Longrightarrow> extract_key gs p fb = Some k"
  by (simp add: extract_key_def key_candidates_def)

lemma extract_key_absent:
  "extract_key gs [(''license_key'', JStr [])] False = None"
  by (simp add: extract_key_def key_candidates_def j_get_def split: option.split)

lemma extract_key_given:
  "extract_key gs [(''license_key'', JStr k)] False = (if str_strip k = [] then None else Some (str_strip k))"
  by (auto simp: extract_key_def key_candidates_def j_get_def split: option.split)

lemma request_key_stripped: "request_presented_key s r = Some k \<Longrightarrow> str_strip k = k \<and> k \<noteq> []"
  by (auto simp: request_presented_key_def Let_def case_prod_beta split: option.splits if_splits)

text \<open>
  The dependency falls back to the declared header where \<open>_presented_key\<close> finds nothing; the two agree
  unless the licence header was renamed and a request sends it with nothing but white space in it, such
  as a no-break space, which servers leave in a header value.
\<close>

definition licence_header_legible :: "settings \<Rightarrow> http_request \<Rightarrow> bool" where
  "licence_header_legible s r \<longleftrightarrow>
     s_license_header s = ''X-License-Key'' \<or>
     (\<forall>v. rq_header r (s_license_header s) = Some v \<longrightarrow> v = [] \<or> str_strip v \<noteq> [])"

lemma dependency_key_presented:
  "licence_header_legible s r \<Longrightarrow> dependency_key s r \<noteq> [] \<Longrightarrow>
   request_presented_key s r = Some (dependency_key s r)"
  by (auto simp: licence_header_legible_def dependency_key_def request_presented_key_def text_or_def Let_def
      case_prod_beta split: option.splits if_splits)

lemma require_subscription_eq:
  "require_subscription env s r w =
     (let x = authorize (x_sha env) (x_mono env (w_ticks w)) (x_wall env (w_ticks w))
                (JObj [(''license_key'', JStr (dependency_key s r))]) False (w_gatekeeper w);
          w' = w\<lparr>w_gatekeeper := snd x, w_ticks := Suc (w_ticks w)\<rparr>
      in (case fst x of Inl (LicenseRejected code) \<Rightarrow> Inl (GateRejected code)
                      | Inl (AuthRaised e) \<Rightarrow> Inl (OtherExn e) | Inr sub \<Rightarrow> Inr sub, w'))"
  by (simp add: require_subscription_def Let_def case_prod_beta split: sum.split auth_error.split)

lemma require_subscription_keeps:
  assumes "require_subscription env s r w = (d, w1)"
  shows "w_commands w1 = w_commands w" "w_dlq w1 = w_dlq w" "w_client w1 = w_client w"
    "w_ticks w1 = Suc (w_ticks w)" "gate_serves gs reg (w_gatekeeper w) \<Longrightarrow> gate_serves gs reg (w_gatekeeper w1)"
  using assms by (auto simp: require_subscription_eq Let_def gate_serves_authorize)

lemma require_subscription_Inr:
  assumes "require_subscription env s r w = (Inr sub, w1)" and "gate_serves gs reg (w_gatekeeper w)"
  shows "dependency_key s r \<noteq> [] \<and>
    entitled (x_sha env) gs reg (x_wall env (w_ticks w)) (str_strip (dependency_key s r)) sub"
proof -
  have "fst (authorize (x_sha env) (x_mono env (w_ticks w)) (x_wall env (w_ticks w))
      (JObj [(''license_key'', JStr (dependency_key s r))]) False (w_gatekeeper w)) = Inr sub"
    using assms(1) by (auto simp: require_subscription_eq Let_def split: sum.splits auth_error.splits)
  then show ?thesis
    by (rule authorize_entitled [OF assms(2)]) (auto simp: extract_key_given split: if_splits)
qed

lemma require_subscription_Inl:
  "require_subscription env s r w = (Inl e, w1) \<Longrightarrow> (\<exists>c. e = GateRejected c) \<or> (\<exists>x. e = OtherExn x)"
  by (auto simp: require_subscription_eq Let_def split: sum.splits auth_error.splits)

section \<open>What a posted mutation does\<close>

definition caller_correlation :: "http_env \<Rightarrow> http_request \<Rightarrow> world \<Rightarrow> string" where
  "caller_correlation he r w =
     (case text_or (rq_header r ''X-Request-ID'') None of
        Some i \<Rightarrow> i | None \<Rightarrow> x_uuid4 (he_closure he) (w_ticks w))"

lemma issue_commands_eq:
  "issue_commands he s r payload sub a =
     (let x = close_loop (he_closure he) s (with_presented_key s r payload) (caller_correlation he r (wa_world a))
                (wa_world a)
      in (map_sum id BatchContent (fst x), a\<lparr>wa_world := snd x\<rparr>))"
  by (simp add: issue_commands_def caller_correlation_def bind_log_context_def reset_log_context_def Let_def
      case_prod_beta)

text \<open>The ways a post to the closure endpoint can end.\<close>

lemma post_issue_cases:
  assumes "worker_routes he s r (PostCall ''/v1/commands/issue'' body) a = (resp, a')"
  obtains
    (unread) "resp = payload_invalid (wa_log a)" "a' = a"
  | (refused) e w1 where "require_subscription (he_closure he) s r (wa_world a) = (Inl e, w1)"
      "resp = exception_answer (wa_log a) e" "a' = a\<lparr>wa_world := w1\<rparr>"
  | (shapeless) sub w1 where "require_subscription (he_closure he) s r (wa_world a) = (Inr sub, w1)"
      "resp = payload_invalid (wa_log a)" "a' = a\<lparr>wa_world := w1\<rparr>"
  | (failed) sub w1 payload e w2 where
      "require_subscription (he_closure he) s r (wa_world a) = (Inr sub, w1)"
      "close_loop (he_closure he) s (with_presented_key s r payload) (caller_correlation he r w1) w1 = (Inl e, w2)"
      "resp = exception_answer (wa_log a) e" "a' = a\<lparr>wa_world := w2\<rparr>"
  | (closed) sub w1 payload b w2 where
      "require_subscription (he_closure he) s r (wa_world a) = (Inr sub, w1)"
      "close_loop (he_closure he) s (with_presented_key s r payload) (caller_correlation he r w1) w1 = (Inr b, w2)"
      "resp = success (BatchContent b)" "a' = a\<lparr>wa_world := w2\<rparr>"
proof -
  have eq: "keyed_endpoint he s (issue_commands he s r) r body a = (resp, a')"
    using assms by (simp add: worker_routes_def)
  show thesis
  proof (cases "body = BodyNotJson")
    case True
    then show thesis using eq by (intro unread) (auto simp: keyed_endpoint_def)
  next
    case False
    obtain d w1 where d: "require_subscription (he_closure he) s r (wa_world a) = (d, w1)" by fastforce
    show thesis
    proof (cases d)
      case (Inl e)
      then show thesis using eq False d by (intro refused [of e w1]) (auto simp: keyed_endpoint_def)
    next
      case (Inr sub)
      show thesis
      proof (cases "\<exists>payload. body = BodyJson (JObj payload)")
        case True
        then obtain payload where b: "body = BodyJson (JObj payload)" by blast
        obtain x w2 where x: "close_loop (he_closure he) s (with_presented_key s r payload)
            (caller_correlation he r w1) w1 = (x, w2)" by fastforce
        note run = eq [unfolded keyed_endpoint_def b d Inr] x
        show thesis
        proof (cases x)
          case (Inl e)
          show thesis by (rule failed [OF d [unfolded \<open>d = Inr sub\<close>] x [unfolded Inl]])
              (use run Inl in \<open>simp_all add: issue_commands_eq Let_def\<close>)
        next
          case (Inr c)
          show thesis by (rule closed [OF d [unfolded \<open>d = Inr sub\<close>] x [unfolded Inr]])
              (use run Inr in \<open>simp_all add: issue_commands_eq Let_def\<close>)
        qed
      next
        case no: False
        then show thesis using eq False d Inr
          by (intro shapeless [of sub w1]) (auto simp: keyed_endpoint_def split: http_body.splits json.splits)
      qed
    qed
  qed
qed

lemma close_loop_ends:
  assumes "close_loop env s p corr w = (x, w')"
  shows "w_dlq w' = w_dlq w \<and> (\<forall>e. x = Inl e \<longrightarrow> (\<forall>i. e \<noteq> InterceptorError i) \<and>
    ((\<exists>c. e = GateRejected c) \<or> (\<exists>r. e = PermanentMessageError r) \<longrightarrow> w_commands w' = w_commands w))"
proof (cases "fst (gate_call env p w)")
  case (Inl d)
  then show ?thesis using assms close_loop_refused [of env p w _ s corr] by (cases d) auto
next
  case (Inr sub)
  from Inr assms show ?thesis
  proof (cases rule: close_loop_admitted_cases)
    case (early e)
    then show ?thesis by auto
  next
    case (planned m plan w1 commands ns w2)
    then show ?thesis using planning_keeps [OF planned(2)] by (auto simp: publishes_def)
  qed
qed

text \<open>A gate that refuses the payload leaves topic and requests alone.\<close>

lemma close_loop_acts:
  assumes "close_loop env s p corr w = (x, w')"
    and "w_commands w' \<noteq> w_commands w \<or> cl_requests (w_client w') \<noteq> cl_requests (w_client w) \<or> x = Inr b"
  obtains sub where "fst (gate_call env p w) = Inr sub" "\<And>b. x = Inr b \<Longrightarrow> cb_tenant b = sub_tenant sub"
proof (cases "fst (gate_call env p w)")
  case (Inl d)
  then show thesis using assms close_loop_refused [of env p w _ s corr] by (cases d) auto
next
  case (Inr sub)
  from Inr assms(1) show thesis
  proof (cases rule: close_loop_admitted_cases)
    case (early e)
    then show thesis using that [OF Inr] by simp
  next
    case (planned m plan w1 commands ns w2)
    show thesis using that [OF Inr] planned(7) by blast
  qed
qed

text \<open>The dictionary entries a task can have, by where it is.\<close>

definition task_ok :: "run_task \<Rightarrow> bool" where
  "task_ok t \<longleftrightarrow>
     (rt_place t \<in> {LoopHead, Starting, Polling, Handling, Pausing, BackingOff} \<longrightarrow> rt_proceed t) \<and>
     (rt_label t \<notin> {None, Some AwaitingPreflight} \<longrightarrow> rt_proceed t) \<and>
     (rt_place t \<in> {Polling, Handling} \<longrightarrow> rt_label t = Some Consuming) \<and>
     (rt_place t = Pausing \<longrightarrow> rt_label t = Some Backpressure)"

lemma run_step_ok: "run_step t u \<Longrightarrow> task_ok t \<Longrightarrow> task_ok u"
  by (induction rule: run_step.induct) (auto simp: task_ok_def)

lemma run_reaches_ok: "run_reaches (task_init p) u \<Longrightarrow> task_ok u"
proof (induction rule: run_reaches.induct)
  case here
  then show ?case by (simp add: task_ok_def task_init_def)
next
  case (onward u v)
  then show ?case using run_step_ok by blast
qed

lemma ended_stays: "run_reaches t u \<Longrightarrow> rt_place t = Ended \<Longrightarrow> rt_place u = Ended \<and> rt_label u = rt_label t"
  by (induction rule: run_reaches.induct) (auto elim!: run_stepE)

text \<open>
  A run of a task: the steps that take it from one place to another are counted, those of the
  environment that only set a flag are not.
\<close>

inductive run_moves :: "run_task \<Rightarrow> nat \<Rightarrow> run_task \<Rightarrow> bool" for t where
  no_move: "run_moves t 0 t"
| quiet: "run_moves t n u \<Longrightarrow> run_step u v \<Longrightarrow> rt_place v = rt_place u \<Longrightarrow> run_moves t n v"
| move: "run_moves t n u \<Longrightarrow> run_step u v \<Longrightarrow> rt_place v \<noteq> rt_place u \<Longrightarrow> run_moves t (Suc n) v"

fun stages_left :: "run_place \<Rightarrow> nat" where
  "stages_left Ended = 0"
| "stages_left LoopHead = 1"
| "stages_left BackingOff = 2"
| "stages_left Parked = 2"
| "stages_left Polling = 3"
| "stages_left AtEntry = 3"
| "stages_left Starting = 4"
| "stages_left Pausing = 4"
| "stages_left Handling = 5"

lemma stopping_step:
  "run_step t u \<Longrightarrow> rt_stopping t \<Longrightarrow>
   rt_stopping u \<and> (rt_place u = rt_place t \<or> stages_left (rt_place u) < stages_left (rt_place t))"
  by (induction rule: run_step.induct) auto

lemma stopping_moves:
  "run_moves t n u \<Longrightarrow> rt_stopping t \<Longrightarrow> rt_stopping u \<and> n + stages_left (rt_place u) \<le> stages_left (rt_place t)"
  by (induction rule: run_moves.induct) (auto dest!: stopping_step)

lemma moves_reach: "run_moves t n u \<Longrightarrow> run_reaches s t \<Longrightarrow> run_reaches s u"
  by (induction rule: run_moves.induct) (auto intro: run_reaches.onward)

lemma stop_sets_proceed: "run_reaches (task_init p) t \<Longrightarrow> rt_stopping t \<longrightarrow> rt_proceed t"
  by (induction rule: run_reaches.induct) (auto simp: task_init_def elim!: run_stepE)

lemma stopping_goes_on:
  assumes "rt_stopping t" and "rt_proceed t" and "rt_place t \<noteq> Ended"
  shows "\<exists>u. run_step t u \<and> rt_place u \<noteq> rt_place t"
proof (cases "rt_place t")
  case AtEntry
  then show ?thesis using run_step.enter [of t] assms by force
next
  case Parked
  then show ?thesis using run_step.unpark [of t] assms by force
next
  case LoopHead
  then show ?thesis using run_step.finish [of t] assms by force
next
  case Starting
  then show ?thesis using run_step.joined [of t] by force
next
  case Polling
  then show ?thesis using run_step.stopped [of t] assms by force
next
  case Handling
  then show ?thesis using run_step.settled [of t] by force
next
  case Pausing
  then show ?thesis using run_step.resume [of t] by force
next
  case BackingOff
  then show ?thesis using run_step.backed_off [of t] by force
qed (use assms in simp)

lemma states_of_label:
  assumes "t \<in> set ts" and "rt_label t = Some l"
  shows "\<exists>i. (i, l) \<in> set (states_of ts)"
proof -
  obtain i where "i < length ts" "ts ! i = t" using assms(1) by (auto simp: in_set_conv_nth)
  then have "(i, t) \<in> set (enumerate 0 ts)" by (simp add: in_set_enumerate_eq)
  then show ?thesis using assms(2) by (force simp: states_of_def)
qed

lemma consuming_count_pos: "0 < consuming_count states \<longleftrightarrow> (\<exists>x \<in> set states. snd x \<in> {Consuming, Backpressure})"
  by (auto simp: consuming_count_def filter_empty_conv)

lemma states_of_labels: "(i, l) \<in> set (states_of ts) \<Longrightarrow> \<exists>t \<in> set ts. rt_label t = Some l"
  by (auto simp: states_of_def in_set_enumerate_eq split: option.splits)

text \<open>The fields of a refusal.\<close>

lemma worker_error_fields:
  "rs_status (worker_error n code ctx headers) = n"
  "rs_content (worker_error n code ctx headers) = None"
  "map_of (rs_headers (worker_error n code ctx headers)) ''X-Request-ID'' = Some (lg_request_id ctx)"
  by (simp_all add: worker_error_def set_header_def current_request_id_def update_conv')

lemma exception_answer_fields:
  "rs_status (exception_answer ctx e) =
     (case e of GateRejected c \<Rightarrow> 401 | PermanentMessageError x \<Rightarrow> 422 | TransientFailure x \<Rightarrow> 503 | _ \<Rightarrow> 500)"
  "rs_content (exception_answer ctx e) = None"
  "map_of (rs_headers (exception_answer ctx e)) ''X-Request-ID'' = Some (lg_request_id ctx)"
  by (simp_all add: exception_answer_def worker_error_fields split: worker_exn.split)

lemma payload_invalid_fields:
  "rs_status (payload_invalid ctx) = 422" "rs_content (payload_invalid ctx) = None"
  "map_of (rs_headers (payload_invalid ctx)) ''X-Request-ID'' = Some (lg_request_id ctx)"
  by (simp_all add: payload_invalid_def worker_error_fields)

section \<open>Properties\<close>

text \<open>
  C8: A caller acts under its own licence only.  If a post to the closure endpoint puts a command on
  the topic, sends a request to the interceptor or answers a batch, then the request presents a key of
  its own, that key belongs to an active, unexpired and entitled subscription, both when the
  dependency checks it and when the pipeline checks it again, and the batch is issued to the tenant
  of that subscription.  The worker's own key, which the pipeline falls back to for records, is never
  used, whatever keys the body carries.  This holds under the default name of the licence header and, where
  it is renamed, for requests whose licence header is absent, empty or not blank; a request that sends
  a renamed one with only white space in it escapes the rule, as the theorem blank_header_escapes shows.
\<close>
theorem posts_use_own_licence:
  assumes "gate_serves gs reg (w_gatekeeper (wa_world a))" and "licence_header_legible s r"
    and "worker_routes he s r (PostCall ''/v1/commands/issue'' body) a = (resp, a')"
    and "w_commands (wa_world a') \<noteq> w_commands (wa_world a) \<or>
      cl_requests (w_client (wa_world a')) \<noteq> cl_requests (w_client (wa_world a)) \<or> rs_status resp = 200"
  shows "\<exists>key sub. request_presented_key s r = Some key \<and>
    entitled (x_sha (he_closure he)) gs reg (x_wall (he_closure he) (w_ticks (wa_world a))) key sub \<and>
    entitled (x_sha (he_closure he)) gs reg (x_wall (he_closure he) (Suc (w_ticks (wa_world a)))) key sub \<and>
    (\<forall>b. rs_content resp = Some (BatchContent b) \<longrightarrow> cb_tenant b = sub_tenant sub)"
proof -
  let ?env = "he_closure he"
  have main: ?thesis
    if req: "require_subscription ?env s r (wa_world a) = (Inr sub, w1)"
      and cl: "close_loop ?env s (with_presented_key s r payload) corr w1 = (x, w2)"
      and acts: "w_commands w2 \<noteq> w_commands w1 \<or> cl_requests (w_client w2) \<noteq> cl_requests (w_client w1) \<or> x = Inr b"
      and answer: "\<And>b. rs_content resp = Some (BatchContent b) \<Longrightarrow> x = Inr b"
    for sub w1 payload corr x w2 b
  proof -
    note keeps = require_subscription_keeps [OF req]
    note first = require_subscription_Inr [OF req assms(1)]
    have pk: "request_presented_key s r = Some (dependency_key s r)"
      using dependency_key_presented assms(2) first by blast
    note stripped = request_key_stripped [OF pk]
    obtain sub2 where sub2: "fst (gate_call ?env (with_presented_key s r payload) w1) = Inr sub2"
      "\<And>b. x = Inr b \<Longrightarrow> cb_tenant b = sub_tenant sub2"
      using close_loop_acts [OF cl acts] by blast
    have "extract_key gs (with_presented_key s r payload) True = Some (dependency_key s r)"
      by (rule extract_key_top) (use stripped in \<open>simp_all add: with_presented_key_def pk j_get_def update_conv'\<close>)
    moreover obtain key where "extract_key gs (with_presented_key s r payload) True = Some key"
      "entitled (x_sha ?env) gs reg (x_wall ?env (w_ticks w1)) key sub2"
      using authorize_entitled [OF keeps(5) [OF assms(1)] sub2(1) [unfolded gate_call_def]] by blast
    ultimately have second: "entitled (x_sha ?env) gs reg (x_wall ?env (Suc (w_ticks (wa_world a)))) (dependency_key s r) sub2"
      using keeps(4) by simp
    moreover have "sub2 = sub" using first second stripped by (simp add: entitled_def)
    ultimately show ?thesis using pk first stripped sub2(2) answer by auto
  qed
  show ?thesis
    using assms(3)
  proof (cases rule: post_issue_cases)
    case unread
    then show ?thesis using assms(4) by (simp add: payload_invalid_fields)
  next
    case (refused e w1)
    then show ?thesis using assms(4) require_subscription_keeps [OF refused(1)]
      by (simp add: exception_answer_fields split: worker_exn.splits)
  next
    case (shapeless sub w1)
    then show ?thesis using assms(4) require_subscription_keeps [OF shapeless(1)]
      by (simp add: payload_invalid_fields)
  next
    case (failed sub w1 payload e w2)
    show ?thesis
      by (rule main [OF failed(1,2)])
        (use failed assms(4) require_subscription_keeps [OF failed(1)]
         in \<open>auto simp: exception_answer_fields split: worker_exn.splits\<close>)
  next
    case (closed sub w1 payload b w2)
    show ?thesis by (rule main [OF closed(1,2)]) (use closed in \<open>auto simp: success_def\<close>)
  qed
qed

text \<open>
  The request that escapes.  If the licence header was renamed and a request sends it with only white
  space in it, and a key in X-License-Key, then the dependency accepts or refuses that key, but nothing is
  copied onto the payload: the pipeline goes by the key the body names or, where it names none, by the
  worker's own.
\<close>
theorem blank_header_escapes:
  assumes "s_license_header s \<noteq> ''X-License-Key''" and "rq_header r (s_license_header s) = Some v"
    and "v \<noteq> []" and "str_strip v = []" and "rq_header r ''X-License-Key'' = Some k" and "str_strip k \<noteq> []"
    and "rq_header r ''Authorization'' = None"
  shows "dependency_key s r = str_strip k \<and> request_presented_key s r = None \<and>
    with_presented_key s r payload = payload \<and>
    extract_key gs (with_presented_key s r []) True =
      (case s_license_key gs of Some own \<Rightarrow> if str_strip own \<noteq> [] then Some (str_strip own) else None | None \<Rightarrow> None)"
proof -
  have "request_presented_key s r = None"
    using assms by (simp add: request_presented_key_def text_or_def partition_space_def)
  moreover have "k \<noteq> []" using assms(6) by (auto simp: str_strip_def)
  ultimately show ?thesis
    using assms by (auto simp: dependency_key_def text_or_def with_presented_key_def extract_key_def
        key_candidates_def j_get_def split: option.split)
qed

text \<open>
  What a post can end in.  The answer is 200, 401, 422, 500 or 503, and it is 200 exactly when a
  batch is returned.  After a 401 or a 422 the topic is as it was, and no post is ever dead-lettered.
  Every refusal carries the request id of the surrounding log context and not that of the caller: the
  endpoint has unbound its own context by the time the exception is answered.
\<close>
theorem post_outcomes:
  assumes "worker_routes he s r (PostCall ''/v1/commands/issue'' body) a = (resp, a')"
  shows "rs_status resp \<in> {200, 401, 422, 500, 503} \<and>
    (rs_status resp = 200 \<longleftrightarrow> (\<exists>b. rs_content resp = Some (BatchContent b))) \<and>
    (rs_status resp \<in> {401, 422} \<longrightarrow> w_commands (wa_world a') = w_commands (wa_world a)) \<and>
    w_dlq (wa_world a') = w_dlq (wa_world a) \<and> wa_log a' = wa_log a \<and>
    (rs_status resp \<noteq> 200 \<longrightarrow>
       map_of (rs_headers resp) ''X-Request-ID'' = Some (lg_request_id (wa_log a)))"
  using assms
proof (cases rule: post_issue_cases)
  case unread
  then show ?thesis by (simp add: payload_invalid_fields)
next
  case (refused e w1)
  then show ?thesis using require_subscription_keeps [OF refused(1)] require_subscription_Inl [OF refused(1)]
    by (elim disjE exE) (simp_all add: exception_answer_fields)
next
  case (shapeless sub w1)
  then show ?thesis using require_subscription_keeps [OF shapeless(1)] by (simp add: payload_invalid_fields)
next
  case (failed sub w1 payload e w2)
  then show ?thesis using require_subscription_keeps [OF failed(1)] close_loop_ends [OF failed(2)]
    by (cases e) (simp_all add: exception_answer_fields)
next
  case (closed sub w1 payload b w2)
  then show ?thesis using require_subscription_keeps [OF closed(1)] close_loop_ends [OF closed(2)]
    by (simp add: success_def)
qed

text \<open>
  No task joins the consumer group before the start-up lets the consumers go.  While the event is
  unset, a task has entered or is parked, has written nothing but that it awaits the preflight, and
  the probe of a worker that is to consume answers 503.
\<close>
theorem parked_until_released:
  assumes "\<forall>t \<in> set ts. run_reaches (task_init False) t \<and> \<not> rt_proceed t"
    and "wa_states a = states_of ts" and "0 < s_consumer_workers s"
  shows "(\<forall>t \<in> set ts. rt_place t \<in> {AtEntry, Parked, Ended} \<and> rt_label t \<in> {None, Some AwaitingPreflight}) \<and>
    rs_status (readyz s a) = 503"
proof -
  have places: "rt_place t \<in> {AtEntry, Parked, Ended} \<and> rt_label t \<in> {None, Some AwaitingPreflight}"
    if "t \<in> set ts" for t
  proof -
    have "task_ok t" "\<not> rt_proceed t" using assms(1) that run_reaches_ok by blast+
    then show ?thesis by (cases "rt_place t") (simp_all add: task_ok_def)
  qed
  have "snd x \<notin> {Consuming, Backpressure}" if mem: "x \<in> set (wa_states a)" for x
  proof -
    obtain i l where x: "x = (i, l)" by fastforce
    then obtain t where "t \<in> set ts" "rt_label t = Some l" using mem states_of_labels assms(2) by fastforce
    then show ?thesis using places [of t] x by auto
  qed
  then have "consuming_count (wa_states a) = 0" using consuming_count_pos [of "wa_states a"] by blast
  then show ?thesis using places assms(3) by (simp add: readyz_def is_ready_def)
qed

text \<open>
  A task that dies of an exception the loop does not name goes on being counted as consuming.  From
  every state in which it polls or handles a record it can end that way; whatever happens afterwards its entry stays, and
  with a started producer the probe answers 200.
\<close>
theorem dead_task_reported_ready:
  assumes "run_reaches (task_init p) t" and "rt_place t \<in> {Polling, Handling}"
  shows "\<exists>u. run_step t u \<and> rt_place u = Ended \<and>
    (\<forall>v ts (a :: worker_app). run_reaches u v \<longrightarrow> v \<in> set ts \<longrightarrow> wa_states a = states_of ts \<longrightarrow> w_producer_up (wa_world a) \<longrightarrow>
       rt_place v = Ended \<and> rs_status (readyz s a) = 200)"
proof (intro exI conjI allI impI)
  let ?u = "t\<lparr>rt_place := Ended\<rparr>"
  show "run_step t ?u" by (rule run_step.crashed) (use assms(2) in auto)
  show "rt_place ?u = Ended" by simp
  have label: "rt_label ?u = Some Consuming" using run_reaches_ok [OF assms(1)] assms(2) by (auto simp: task_ok_def)
  fix v ts and a :: worker_app
  assume v: "run_reaches ?u v" "v \<in> set ts" "wa_states a = states_of ts" "w_producer_up (wa_world a)"
  show "rt_place v = Ended" using ended_stays [OF v(1)] by simp
  have "rt_label v = Some Consuming" using ended_stays [OF v(1)] label by simp
  then obtain i where "(i, Consuming) \<in> set (states_of ts)" using states_of_label [OF v(2)] by blast
  then have "0 < consuming_count (wa_states a)" using consuming_count_pos v(3) by force
  then show "rs_status (readyz s a) = 200" using v(4) by (simp add: readyz_def is_ready_def)
qed

text \<open>
  C26: A stop request ends a consumer task.  From the moment the stop flag is set, whatever the task is
  doing and however its broker behaves, it changes place at most five times before it has ended (the
  longest way is that of a record in hand: it fails, the task pauses, polls, loses the loop, backs
  off and ends), and until then a further step is always open to it.  On that way no new connection is begun,
  no further record is taken up and the task is not parked.
\<close>
theorem stop_request_ends_task:
  assumes "run_reaches (task_init p) t" and "rt_stopping t" and "run_moves t n u"
  shows "n \<le> 5 \<and> (n = 5 \<longrightarrow> rt_place u = Ended) \<and>
    (rt_place u \<noteq> Ended \<longrightarrow> (\<exists>v. run_step u v \<and> rt_place v \<noteq> rt_place u)) \<and>
    (\<forall>v. run_step u v \<and> rt_place v \<in> {Starting, Handling, Parked} \<longrightarrow> rt_place v = rt_place u)"
proof -
  have m: "rt_stopping u" "n + stages_left (rt_place u) \<le> stages_left (rt_place t)"
    using stopping_moves [OF assms(3,2)] by auto
  have "stages_left (rt_place t) \<le> 5" by (cases "rt_place t") auto
  moreover have "stages_left (rt_place u) = 0 \<Longrightarrow> rt_place u = Ended" by (cases "rt_place u") auto
  moreover have p: "rt_proceed u" using stop_sets_proceed [OF moves_reach [OF assms(3,1)]] m(1) by simp
  moreover have "rt_place v = rt_place u" if "run_step u v" "rt_place v \<in> {Starting, Handling, Parked}" for v
    using that m(1) p by (auto elim!: run_stepE)
  ultimately show ?thesis using m stopping_goes_on [OF m(1)] by auto
qed

text \<open>
  The export never fails and leaves nothing out: every name the collector asks for is a counter of
  the snapshot and every counter is exported, once, with its value; the family of the interceptor has
  one sample per cause; no two families share a name.
\<close>
theorem exposition_is_snapshot:
  "\<exists>causes. collect_metrics u m = Inr (GaugeFamily ''openontology_worker_uptime_seconds'' u #
      map (\<lambda>(name, v). CounterFamily (''openontology_worker_'' @ name) v) (metrics_snapshot m) @
      [LabelledFamily ''openontology_worker_interceptor_calls'' ''cause'' causes]) \<and>
    map snd causes = map snd (interceptor_snapshot m) \<and> distinct (map fst causes) \<and>
    distinct (map fst (metrics_snapshot m)) \<and> ''uptime_seconds'' \<notin> set (map fst (metrics_snapshot m)) \<and>
    ''interceptor_calls'' \<notin> set (map fst (metrics_snapshot m))"
  by (simp add: collect_metrics_def metrics_snapshot_def interceptor_snapshot_def COUNTERS_def
      INTERCEPTOR_CAUSES_def subscript_def)

text \<open>
  However many applications the process builds, one collector is registered and it reads the
  counters of the last.
\<close>
theorem one_collector_follows:
  "mr_collectors (fold register_worker_metrics (ms @ [m]) \<lparr>mr_collectors = [], mr_bound = None\<rparr>) = [m]"
proof -
  have "\<exists>k. fold register_worker_metrics ms \<lparr>mr_collectors = [k0], mr_bound = Some 0\<rparr> =
      \<lparr>mr_collectors = [k], mr_bound = Some 0\<rparr>" for ms k0
    by (induction ms arbitrary: k0) (auto simp: register_worker_metrics_def)
  then show ?thesis
    by (cases ms) (auto simp: register_worker_metrics_def, metis (no_types, lifting) option.simps(5) length_Suc_conv
        list.size(3) list_update_code(2) metrics_registry.select_convs(1,2) metrics_registry.update_convs(1))
qed

text \<open>
  The start-up.  Without a reachable broker there is no application.  With one, the consumers are
  let go at once in simulator mode and where the preflight is switched off, and otherwise exactly when
  the preflight task ends with the answer that they may proceed; the worker then serves with a running
  producer, a clean world and one task per configured consumer.
\<close>
theorem startup_releases_consumers:
  "lifespan_startup s False now g = Inl RuntimeErrorExn \<and>
   (\<exists>u. lifespan_startup s True now g = Inr u \<and> w_producer_up (wa_world (su_app u)) \<and>
      w_commands (wa_world (su_app u)) = [] \<and> length (su_tasks u) = nat (s_consumer_workers s) \<and>
      (\<forall>answer. released_after u answer \<longleftrightarrow>
         s_interceptor_mode s = ModeStub \<or> \<not> s_interceptor_preflight s \<or> answer = Inr True) \<and>
      (su_preflight_task u \<longleftrightarrow> pf_state (wa_preflight (su_app u)) = PfPending))"
  by (cases "s_interceptor_mode s")
    (auto simp: lifespan_startup_def start_publisher_def initial_world_def released_after_def preflight_pending_def Let_def)

section \<open>Witnesses\<close>

text \<open>A caller with its own key, in front of a worker in simulator mode on a broker that accepts every send.\<close>

definition demo_call :: http_request where
  "demo_call =
     \<lparr>rq_path = ''/v1/commands/issue'', rq_header = (\<lambda>h. if h = ''X-License-Key'' then Some ''k'' else None)\<rparr>"

definition demo_app :: worker_app where
  "demo_app =
     \<lparr>wa_world = closure_world (Aware 1000), wa_log = unbound_context, wa_started_at = 0, wa_states = [],
      wa_preflight = preflight_pending\<rparr>"

definition demo_http :: http_env where
  "demo_http = \<lparr>he_closure = steady, he_now = 0, he_repr = (\<lambda>j. [])\<rparr>"

abbreviation demo_post :: "worker_response \<times> worker_app" where
  "demo_post \<equiv> worker_routes demo_http simulator_settings demo_call
     (PostCall ''/v1/commands/issue'' (BodyJson (JObj []))) demo_app"

lemma demo_strip: "str_strip ''k'' = ''k''" by code_simp

lemma demo_presented:
  "request_presented_key simulator_settings demo_call = Some ''k''" "dependency_key simulator_settings demo_call = ''k''"
  "licence_header_legible simulator_settings demo_call"
  by (simp_all add: request_presented_key_def dependency_key_def demo_call_def text_or_def simulator_facts
      demo_strip licence_header_legible_def)

lemma demo_serves:
  "gate_serves (keyed_settings None) (registry_of [demo_licensed (Aware 1000)]) (w_gatekeeper (closure_world (Aware 1000)))"
  by (simp add: closure_world_def closure_gate_def demo_licensed_def)

lemma demo_licensed_fields:
  "sub_active (demo_licensed e)" "sub_expires_at (demo_licensed e) = e" "sub_plan (demo_licensed e) = ''ENTERPRISE''"
  by (simp_all add: demo_licensed_def demo_subscription_def)

lemma demo_authorize:
  assumes "gate_serves (keyed_settings None) (registry_of [demo_licensed (Aware 1000)]) g" and "now < 1000"
    and "extract_key (keyed_settings None) p fb = Some ''k''"
  shows "fst (authorize id m now (JObj p) fb g) = Inr (demo_licensed (Aware 1000))"
  using assms authorize_spec_agrees [of g id m now "JObj p" fb]
  by (simp add: gate_serves_def authorize_spec_def demo_registry check_subscription_Inr demo_licensed_fields
      keyed_entitled)

lemma demo_posted: "\<exists>b. rs_status (fst demo_post) = 200 \<and> rs_content (fst demo_post) = Some (BatchContent b)"
proof -
  let ?w = "closure_world (Aware 1000)" and ?m = "demo_mutation SevCritical True"
  have key: "extract_key (keyed_settings None) [(''license_key'', JStr ''k'')] fb = Some ''k''" for fb
    by (rule extract_key_top) (simp_all add: demo_strip j_get_def)
  obtain d w1 where req: "require_subscription steady simulator_settings demo_call ?w = (d, w1)" by fastforce
  note keeps = require_subscription_keeps [OF req]
  have ticks: "w_ticks ?w = 0" "x_wall steady n = of_nat n" for n
    by (simp_all add: closure_world_def demo_closure_def)
  have d: "d = Inr (demo_licensed (Aware 1000))"
    using req demo_authorize [OF demo_serves _ key, of 0 _ False]
    by (auto simp: require_subscription_eq Let_def demo_presented demo_sha ticks)
  have gate: "fst (gate_call steady [(''license_key'', JStr ''k'')] w1) = Inr (demo_licensed (Aware 1000))"
    using demo_authorize [OF keeps(5) [OF demo_serves] _ key, of 1 _ True]
    by (simp add: gate_call_def demo_sha keeps(4) ticks)
  have up: "w_producer_up w1" using req by (auto simp: require_subscription_eq Let_def closure_world_def)
  have m: "mu_asset_id ?m = ''pump-7''" "mu_event_id ?m = ''e1''" by (simp_all add: demo_mutation_def)
  have sub: "sub_tenant (demo_licensed e) = ''acme''" "sub_key_id (demo_licensed e) = ''k1''" for e
    by (simp_all add: demo_licensed_def demo_subscription_def)
  have send: "x_send steady k = SendOk" for k by (simp add: demo_closure_def)
  have corr: "caller_correlation demo_http demo_call w1 = ''c1''"
    by (simp add: caller_correlation_def demo_call_def text_or_def demo_http_def demo_closure_def)
  obtain b w2 where cl: "close_loop steady simulator_settings [(''license_key'', JStr ''k'')] ''c1'' w1 = (Inr b, w2)"
    using close_loop_stub [OF _ simulator_facts(1) up send gate demo_validates, of "''c1''"]
    by (auto simp: simulator_facts m sub demo_strips demo_shape)
  have at: "he_closure demo_http = steady" "wa_world demo_app = ?w"
    "with_presented_key simulator_settings demo_call [] = [(''license_key'', JStr ''k'')]"
    by (simp_all add: demo_http_def demo_app_def with_presented_key_def demo_presented)
  have "fst demo_post = success (BatchContent b)"
    using req d cl by (simp add: worker_routes_def keyed_endpoint_def issue_commands_eq corr Let_def at)
  then show ?thesis by (simp add: success_def)
qed

theorem posts_use_own_licence_witness:
  "\<exists>key sub b. request_presented_key simulator_settings demo_call = Some key \<and>
     entitled id (keyed_settings None) (registry_of [demo_licensed (Aware 1000)]) 0 key sub \<and>
     rs_content (fst demo_post) = Some (BatchContent b) \<and> cb_tenant b = sub_tenant sub"
proof -
  have serves: "gate_serves (keyed_settings None) (registry_of [demo_licensed (Aware 1000)])
      (w_gatekeeper (wa_world demo_app))"
    using demo_serves by (simp add: demo_app_def)
  obtain b where b: "rs_status (fst demo_post) = 200" "rs_content (fst demo_post) = Some (BatchContent b)"
    using demo_posted by blast
  have at: "x_sha (he_closure demo_http) = id" "x_wall (he_closure demo_http) (w_ticks (wa_world demo_app)) = 0"
    by (simp_all add: demo_http_def demo_app_def demo_closure_def closure_world_def)
  from posts_use_own_licence [OF serves demo_presented(3) prod.collapse [of demo_post, symmetric]] b
  show ?thesis unfolding at by blast
qed

theorem blank_header_escapes_witness:
  "extract_key (default_settings\<lparr>s_license_key := Some ''own''\<rparr>)
     (with_presented_key (default_settings\<lparr>s_license_header := ''X-Key''\<rparr>)
       \<lparr>rq_path = ''/v1/commands/issue'',
        rq_header = (\<lambda>h. if h = ''X-Key'' then Some [CHR 0xA0] else if h = ''X-License-Key'' then Some ''k'' else None)\<rparr>
       []) True = Some ''own''"
proof -
  have "str_strip [CHR 0xA0] = []" "str_strip ''k'' = ''k''" "str_strip ''own'' = ''own''" by code_simp+
  then show ?thesis
    using blank_header_escapes [where s = "default_settings\<lparr>s_license_header := ''X-Key''\<rparr>" and v = "[CHR 0xA0]"
        and gs = "default_settings\<lparr>s_license_key := Some ''own''\<rparr>" and k = "''k''" and payload = "[(''a'', JNull)]"
        and r = "\<lparr>rq_path = ''/v1/commands/issue'', rq_header = (\<lambda>h. if h = ''X-Key'' then Some [CHR 0xA0]
          else if h = ''X-License-Key'' then Some ''k'' else None)\<rparr>"]
    by simp
qed

theorem post_outcomes_witness:
  "rs_status (fst (worker_routes demo_http simulator_settings (demo_call\<lparr>rq_header := (\<lambda>h. None)\<rparr>)
      (PostCall ''/v1/commands/issue'' BodyNotJson) demo_app)) \<in> {200, 401, 422, 500, 503}"
  using post_outcomes [OF prod.collapse [symmetric]] by blast

theorem parked_until_released_witness:
  "rs_status (readyz default_settings (demo_app\<lparr>wa_states := states_of [task_init False]\<rparr>)) = 503"
  using parked_until_released [of "[task_init False]" "demo_app\<lparr>wa_states := states_of [task_init False]\<rparr>" default_settings]
  by (simp add: run_reaches.here default_settings_def) (simp add: task_init_def)

theorem dead_task_reported_ready_witness:
  "\<exists>t u. run_reaches (task_init True) t \<and> run_step t u \<and> rt_place u = Ended \<and>
     rs_status (readyz simulator_settings (demo_app\<lparr>wa_states := states_of [u]\<rparr>)) = 200"
proof -
  let ?a = "task_init True"
  let ?b = "?a\<lparr>rt_place := LoopHead\<rparr>"
  let ?c = "?b\<lparr>rt_place := Starting, rt_label := Some Connecting\<rparr>"
  let ?d = "?c\<lparr>rt_place := Polling, rt_label := Some Consuming\<rparr>"
  have "run_step ?a ?b" "run_step ?b ?c" "run_step ?c ?d"
    by (rule run_step.enter run_step.connect run_step.joined; simp add: task_init_def)+
  then have reach: "run_reaches (task_init True) ?d" using run_reaches.here run_reaches.onward by metis
  have up: "w_producer_up (wa_world (demo_app\<lparr>wa_states := x\<rparr>))" for x
    by (simp add: demo_app_def closure_world_def)
  obtain u where u: "run_step ?d u" "rt_place u = Ended"
    "\<forall>v ts (a :: worker_app). run_reaches u v \<longrightarrow> v \<in> set ts \<longrightarrow> wa_states a = states_of ts \<longrightarrow> w_producer_up (wa_world a) \<longrightarrow>
       rt_place v = Ended \<and> rs_status (readyz simulator_settings a) = 200"
    using dead_task_reported_ready [OF reach, of simulator_settings] by auto
  have "rs_status (readyz simulator_settings (demo_app\<lparr>wa_states := states_of [u]\<rparr>)) = 200"
    using u(3) [rule_format, OF run_reaches.here, of "[u]"] up by simp
  then show ?thesis using reach u by blast
qed

theorem stop_request_ends_task_witness:
  "\<exists>t u. run_moves t 5 u \<and> rt_stopping t \<and> rt_place t = Handling \<and> rt_place u = Ended \<and>
     (\<forall>n v. run_moves t n v \<longrightarrow> n \<le> 5)"
proof -
  let ?a = "task_init True"
  let ?b = "?a\<lparr>rt_place := LoopHead\<rparr>"
  let ?c = "?b\<lparr>rt_place := Starting, rt_label := Some Connecting\<rparr>"
  let ?d = "?c\<lparr>rt_place := Polling, rt_label := Some Consuming\<rparr>"
  let ?e = "?d\<lparr>rt_place := Handling\<rparr>"
  let ?t = "?e\<lparr>rt_stopping := True, rt_proceed := True\<rparr>"
  let ?f = "?t\<lparr>rt_place := Pausing, rt_label := Some Backpressure\<rparr>"
  let ?g = "?f\<lparr>rt_place := Polling, rt_label := Some Consuming\<rparr>"
  let ?h = "?g\<lparr>rt_place := BackingOff, rt_restarts := Suc (rt_restarts ?g)\<rparr>"
  let ?i = "?h\<lparr>rt_place := LoopHead\<rparr>"
  let ?u = "?i\<lparr>rt_place := Ended, rt_label := Some Stopped\<rparr>"
  have "run_step ?a ?b" "run_step ?b ?c" "run_step ?c ?d" "run_step ?d ?e" "run_step ?e ?t"
    by (rule run_step.enter run_step.connect run_step.joined run_step.received run_step.stop_requested;
        simp add: task_init_def)+
  then have reach: "run_reaches ?a ?t" by (meson run_reaches.here run_reaches.onward)
  have s: "run_step ?t ?f" "run_step ?f ?g" "run_step ?g ?h" "run_step ?h ?i" "run_step ?i ?u"
    by (rule run_step.pause run_step.resume run_step.loop_failed run_step.backed_off run_step.finish; simp)+
  have "run_moves ?t 1 ?f" using run_moves.move [OF run_moves.no_move s(1)] by simp
  then have "run_moves ?t 2 ?g" using run_moves.move [OF _ s(2), of ?t 1] by (simp add: numeral_2_eq_2)
  then have "run_moves ?t 3 ?h" using run_moves.move [OF _ s(3), of ?t 2] by (simp add: numeral_3_eq_3)
  then have "run_moves ?t 4 ?i" using run_moves.move [OF _ s(4), of ?t 3] by simp
  then have "run_moves ?t 5 ?u" using run_moves.move [OF _ s(5), of ?t 4] by simp
  moreover have "\<forall>n v. run_moves ?t n v \<longrightarrow> n \<le> 5" using stop_request_ends_task [OF reach] by simp
  ultimately show ?thesis by (intro exI [of _ ?t] exI [of _ ?u]) simp
qed

end
