(* ===== verification/Graph_App.thy ===== *)
theory Graph_App
  imports Bridge License_Gate
begin

text \<open>
  The GraphRAG interceptor as a service (create_app of graphrag_interceptor.py and build_service of
  service.py): the request context, the exception handlers, the routes with the remounting of the
  native one, the licence dependency in front of them, and the two middlewares.  The last part joins
  it to the HTTP client of the command worker.

  The web framework is the caller: it reads the body before the dependency of an endpoint runs and
  validates it afterwards, merges the headers a dependency sets into the answers it renders itself
  but not into a response object an endpoint returns, and lets the middleware registered last be the
  outermost.
\<close>

section \<open>Requests and the application state\<close>

datatype graph_request_body = NoBody | NotJson | JsonBody json

record graph_call =
  gl_request :: http_request
  gl_method :: string
  gl_body :: graph_request_body

text \<open>
  The environment of a request: the digest, the clocks, the fresh request id and the elapsed time as it
  is printed, the reading of a native body into raw fields by the validation library, and the
  environment of the engine.
\<close>

record graph_fields =
  gf_event_id :: string
  gf_timestamp :: rat
  gf_asset :: asset_metadata
  gf_context :: graph_context
  gf_telemetry :: "pyfloat option \<times> pyfloat option \<times> pyfloat option \<times> (string \<times> channel_value) list"
  gf_lamport :: int
  gf_degraded :: bool

record graph_world =
  gw_sha :: "string \<Rightarrow> string"
  gw_mono :: rat
  gw_now :: rat
  gw_fresh_id :: string
  gw_elapsed :: string
  gw_read :: "json \<Rightarrow> graph_fields option"
  gw_route :: route_env

definition read_payload :: "graph_world \<Rightarrow> json \<Rightarrow> graph_payload raises" where
  "read_payload w body =
     (case gw_read w (accept_wire_key body) of
        None \<Rightarrow> Inl ValidationErrorExn
      | Some f \<Rightarrow>
          make_payload (br_to_float (re_bridge (gw_route w))) (gf_event_id f) (gf_timestamp f) (gf_asset f)
            (gf_context f) (gf_telemetry f) (gf_lamport f) (gf_degraded f))"

text \<open>
  The state: the quota, the replay cache both intercept routes share, and what the metrics of the
  service recorded, oldest first.
\<close>

record graph_state =
  ga_quota :: window_quota
  ga_cache :: "(command_action \<times> rat) command_cache"
  ga_durations :: "(string \<times> string) list"
  ga_actions :: "(fault_class \<times> graph_action \<times> bool) list"
  ga_guardrails :: "string list"
  ga_trusts :: "rat list"
  ga_rejections :: "py_exn list"

definition graph_startup :: "rat \<Rightarrow> nat \<Rightarrow> graph_state" where
  "graph_startup quota_window cache_size =
     \<lparr>ga_quota = window_quota_init quota_window, ga_cache = \<lparr>cc_max = cache_size, cc_data = []\<rparr>,
      ga_durations = [], ga_actions = [], ga_guardrails = [], ga_trusts = [], ga_rejections = []\<rparr>"

section \<open>The licence dependency\<close>

definition LICENSE_HEADER :: string where "LICENSE_HEADER = ''X-OpenOntology-License''"

text \<open>The bearer scheme of the framework: absent unless scheme and credentials are both there.\<close>

definition bearer_credentials :: "http_request \<Rightarrow> string option" where
  "bearer_credentials r =
     (let (scheme, credentials) =
            partition_space (case rq_header r ''Authorization'' of None \<Rightarrow> [] | Some v \<Rightarrow> v)
      in if scheme = [] \<or> credentials = [] \<or> str_lower scheme \<noteq> ''bearer'' then None else Some credentials)"

definition verify_request ::
    "es_registry \<Rightarrow> graph_world \<Rightarrow> http_request \<Rightarrow> graph_state
      \<Rightarrow> (verify_error + enterprise_subscription \<times> (string \<times> string) list) \<times> graph_state" where
  "verify_request registry w r s =
     (let (answer, quota) = verify_enterprise_subscription (gw_sha w) registry (gw_mono w) (gw_now w)
                              (rq_header r LICENSE_HEADER) (bearer_credentials r) (ga_quota s)
      in (answer, s\<lparr>ga_quota := quota\<rparr>))"

section \<open>Answers\<close>

record subscription_view =
  sv_key_id :: string
  sv_tenant :: string
  sv_tier :: string
  sv_features :: "string list"
  sv_quota_per_minute :: int
  sv_expires_at :: py_datetime
  sv_valid :: bool

datatype graph_content =
    CommandBody "command_action \<times> rat"
  | PlanContent action_plan
  | SubscriptionContent subscription_view
  | HealthContent
  | ReadyContent
  | ExpositionContent

datatype graph_error =
    GeSubscription verify_error
  | GePayload
  | GeModel py_exn
  | GeEngine engine_error

text \<open>What is not named by a handler leaves the routes as an exception.\<close>

definition raised_answer :: "string \<Rightarrow> py_exn \<Rightarrow> graph_content http_response raises" where
  "raised_answer request_id e =
     (if e = ValidationErrorExn then Inr (error_response 502 ''response_invalid'' request_id []) else Inl e)"

definition graph_error_answer :: "string \<Rightarrow> graph_error \<Rightarrow> graph_content http_response raises" where
  "graph_error_answer request_id err =
     (case err of
        GeSubscription (SubscriptionError code reason headers) \<Rightarrow>
          Inr (error_response code reason request_id headers)
      | GeSubscription (VerifyRaised e) \<Rightarrow> raised_answer request_id e
      | GePayload \<Rightarrow> Inr (error_response 422 ''payload_invalid'' request_id [])
      | GeModel e \<Rightarrow> raised_answer request_id e
      | GeEngine (KernelRaised e) \<Rightarrow> raised_answer request_id e
      | GeEngine (AgentFailed _) \<Rightarrow> Inr (error_response 502 ''agent_unavailable'' request_id []))"

definition rendered :: "graph_content \<Rightarrow> (string \<times> string) list \<Rightarrow> graph_content http_response" where
  "rendered c headers = \<lparr>rs_status = 200, rs_code = [], rs_headers = headers, rs_content = Some c\<rparr>"

section \<open>The endpoints\<close>

fun fault_value :: "fault_class \<Rightarrow> string" where
  "fault_value LocalizedComponent = ''LOCALIZED_COMPONENT''"
| "fault_value InheritedCascade = ''INHERITED_CASCADE''"
| "fault_value Indeterminate = ''INDETERMINATE''"
| "fault_value NoFaultDetected = ''NO_FAULT_DETECTED''"

definition introspect_subscription :: "rat \<Rightarrow> enterprise_subscription \<Rightarrow> subscription_view raises" where
  "introspect_subscription now sub =
     bind_r (es_is_expired now sub) (\<lambda>expired.
       Inr \<lparr>sv_key_id = es_key_id sub, sv_tenant = es_tenant sub, sv_tier = es_tier sub,
            sv_features = sort (remdups (es_features sub)), sv_quota_per_minute = es_quota_per_minute sub,
            sv_expires_at = es_expires_at sub, sv_valid = (\<not> expired)\<rparr>)"

text \<open>The native route: the second component of an answer is the headers the endpoint sets.\<close>

definition intercept_native ::
    "route_env \<Rightarrow> enterprise_subscription \<Rightarrow> graph_payload \<Rightarrow> graph_state
      \<Rightarrow> (graph_error + (command_action \<times> rat) \<times> (string \<times> string) list) \<times> graph_state" where
  "intercept_native env sub payload s =
     (let key = (es_tenant sub, gp_event_id payload);
          (cached, c1) = command_cache_get key (ga_cache s)
      in case cached of
           Some stored \<Rightarrow> (Inr (stored, [(''X-Idempotent-Replay'', ''true'')]), s\<lparr>ga_cache := c1\<rparr>)
         | None \<Rightarrow>
             (case run_engine (re_agents env) (re_settings env) payload of
                Inl e \<Rightarrow> (Inl (GeEngine e), s\<lparr>ga_cache := c1\<rparr>)
              | Inr out \<Rightarrow>
                  (let stored = (build_command (re_hex env) payload out (es_tenant sub), re_latency env)
                   in (Inr (stored,
                         [(''X-Idempotent-Replay'', ''false''),
                          (''X-Fault-Classification'', fault_value (ac_fault (fst stored))),
                          (''X-Execution-Priority'', graph_priority_value (ac_priority (fst stored)))]),
                       s\<lparr>ga_cache := command_cache_put key stored c1\<rparr>))))"

text \<open>
  The worker-facing route.  It returns a response object of its own, and it counts a fresh action, its
  guardrails and the trust in the graph.
\<close>

definition count_action :: "route_env \<Rightarrow> command_action \<Rightarrow> graph_state \<Rightarrow> graph_state" where
  "count_action env action s =
     s\<lparr>ga_actions := ga_actions s @ [(ac_fault action, ac_action action, ac_reversible action)],
       ga_guardrails := ga_guardrails s @ map (guardrail_label (ag_format (re_agents env))) (ac_guardrails action),
       ga_trusts := ga_trusts s @ [ca_graph_trust (ac_crdt action)]\<rparr>"

text \<open>The action of a mutation that is planned afresh.\<close>

definition fresh_action :: "route_env \<Rightarrow> string \<Rightarrow> (string \<times> json) list \<Rightarrow> command_action option" where
  "fresh_action env tenant m =
     (case mutation_to_graph_payload (re_bridge env) m of
        Inl e \<Rightarrow> None
      | Inr payload \<Rightarrow>
          (case run_engine (re_agents env) (re_settings env) payload of
             Inl e \<Rightarrow> None
           | Inr out \<Rightarrow> Some (build_command (re_hex env) payload out tenant)))"

definition intercept_worker ::
    "route_env \<Rightarrow> enterprise_subscription \<Rightarrow> (string \<times> json) list \<Rightarrow> graph_state
      \<Rightarrow> (graph_error + graph_content http_response) \<times> graph_state" where
  "intercept_worker env sub m s =
     (let (answer, c) = intercept_mutation env (es_tenant sub) m (ga_cache s); s1 = s\<lparr>ga_cache := c\<rparr> in
      case answer of
        Planned plan replayed \<Rightarrow>
          (Inr (rendered (PlanContent plan) [(''X-Idempotent-Replay'', if replayed then ''true'' else ''false'')]),
           (case if replayed then None else fresh_action env (es_tenant sub) m of
              Some action \<Rightarrow> count_action env action s1 | None \<Rightarrow> s1))
      | NotProjectable \<Rightarrow>
          (Inr \<lparr>rs_status = 422, rs_code = ''mutation_not_projectable'', rs_headers = [], rs_content = None\<rparr>,
           (case mutation_to_graph_payload (re_bridge env) m of
              Inl e \<Rightarrow> s1\<lparr>ga_rejections := ga_rejections s1 @ [e]\<rparr> | Inr p \<Rightarrow> s1))
      | EngineRaised e \<Rightarrow> (Inl (GeEngine e), s1))"

section \<open>The route table\<close>

datatype graph_endpoint = EpHealth | EpSubscription | EpNative | EpExposition | EpReady | EpWorker

record route_entry =
  en_path :: string
  en_method :: string
  en_endpoint :: graph_endpoint

definition route_at :: "string \<Rightarrow> string \<Rightarrow> graph_endpoint \<Rightarrow> route_entry" where
  "route_at path method endpoint = \<lparr>en_path = path, en_method = method, en_endpoint = endpoint\<rparr>"

text \<open>The routes of create_app, and those of the service, which moves the native route out of the way.\<close>

definition native_routes :: "route_entry list" where
  "native_routes =
     [route_at ''/healthz'' ''GET'' EpHealth, route_at ''/v1/subscription'' ''GET'' EpSubscription,
      route_at ''/v1/intercept'' ''POST'' EpNative]"

fun remount :: "route_entry list \<Rightarrow> route_entry list \<Rightarrow> route_entry list" where
  "remount [] table = table"
| "remount (entry # entries) table =
     (if en_path entry \<noteq> ''/v1/intercept'' then remount entries table
      else remount entries (remove1 entry table @ [entry\<lparr>en_path := ''/v1/graphrag/intercept''\<rparr>]))"

definition service_routes :: "route_entry list" where
  "service_routes =
     (let table = native_routes @ [route_at ''/metrics'' ''GET'' EpExposition, route_at ''/readyz'' ''GET'' EpReady]
      in remount table table @ [route_at ''/v1/intercept'' ''POST'' EpWorker])"

text \<open>The first route that matches path and method; one that matches the path only answers 405.\<close>

datatype route_match = Matched route_entry | WrongMethod route_entry | Unmatched

definition match_route :: "route_entry list \<Rightarrow> string \<Rightarrow> string \<Rightarrow> route_match" where
  "match_route table path method =
     (case find (\<lambda>r. en_path r = path \<and> en_method r = method) table of
        Some r \<Rightarrow> Matched r
      | None \<Rightarrow> (case find (\<lambda>r. en_path r = path) table of Some r \<Rightarrow> WrongMethod r | None \<Rightarrow> Unmatched))"

definition route_label :: "route_match \<Rightarrow> string" where
  "route_label m = (case m of Matched r \<Rightarrow> en_path r | WrongMethod r \<Rightarrow> en_path r | Unmatched \<Rightarrow> ''<unmatched>'')"

section \<open>Dispatch\<close>

definition graph_call_id :: "graph_world \<Rightarrow> graph_call \<Rightarrow> string" where
  "graph_call_id w call =
     (case rq_header (gl_request call) ''X-Request-ID'' of
        Some i \<Rightarrow> if i \<noteq> [] then i else gw_fresh_id w | None \<Rightarrow> gw_fresh_id w)"

text \<open>The endpoints behind the dependency: its headers are merged into the answers the framework renders.\<close>

definition licensed_endpoint ::
    "graph_world \<Rightarrow> graph_endpoint \<Rightarrow> enterprise_subscription \<Rightarrow> (string \<times> string) list \<Rightarrow> graph_call \<Rightarrow> graph_state
      \<Rightarrow> (graph_error + graph_content http_response) \<times> graph_state" where
  "licensed_endpoint w endpoint sub headers call s =
     (case endpoint of
        EpSubscription \<Rightarrow>
          (case introspect_subscription (gw_now w) sub of
             Inl e \<Rightarrow> (Inl (GeModel e), s)
           | Inr v \<Rightarrow> (Inr (rendered (SubscriptionContent v) headers), s))
      | EpNative \<Rightarrow>
          (case gl_body call of
             JsonBody j \<Rightarrow>
               (case read_payload w j of
                  Inl e \<Rightarrow> (Inl (if e = ValidationErrorExn then GePayload else GeModel e), s)
                | Inr payload \<Rightarrow>
                    (case intercept_native (gw_route w) sub payload s of
                       (Inl e, s') \<Rightarrow> (Inl e, s')
                     | (Inr (stored, own), s') \<Rightarrow> (Inr (rendered (CommandBody stored) (headers @ own)), s')))
           | _ \<Rightarrow> (Inl GePayload, s))
      | EpWorker \<Rightarrow>
          (case gl_body call of
             JsonBody (JObj m) \<Rightarrow> intercept_worker (gw_route w) sub m s
           | _ \<Rightarrow> (Inl GePayload, s))
      | _ \<Rightarrow> (Inr (rendered HealthContent headers), s))"

definition is_licensed :: "graph_endpoint \<Rightarrow> bool" where
  "is_licensed e \<longleftrightarrow> e \<in> {EpSubscription, EpNative, EpWorker}"

definition endpoint_answer ::
    "es_registry \<Rightarrow> graph_world \<Rightarrow> graph_endpoint \<Rightarrow> graph_call \<Rightarrow> graph_state
      \<Rightarrow> (graph_error + graph_content http_response) \<times> graph_state" where
  "endpoint_answer registry w endpoint call s =
     (if \<not> is_licensed endpoint then
        (Inr (rendered (case endpoint of EpReady \<Rightarrow> ReadyContent | EpExposition \<Rightarrow> ExpositionContent
                                        | _ \<Rightarrow> HealthContent) []), s)
      else if gl_body call = NotJson \<and> endpoint \<noteq> EpSubscription then (Inl GePayload, s)
      else
        (case verify_request registry w (gl_request call) s of
           (Inl e, s') \<Rightarrow> (Inl (GeSubscription e), s')
         | (Inr (sub, headers), s') \<Rightarrow> licensed_endpoint w endpoint sub headers call s'))"

definition graph_routes ::
    "route_entry list \<Rightarrow> es_registry \<Rightarrow> graph_world \<Rightarrow> graph_call \<Rightarrow> graph_state
      \<Rightarrow> graph_content http_response raises \<times> graph_state" where
  "graph_routes table registry w call s =
     (case match_route table (rq_path (gl_request call)) (gl_method call) of
        Matched r \<Rightarrow>
          (case endpoint_answer registry w (en_endpoint r) call s of
             (Inl e, s') \<Rightarrow> (graph_error_answer (graph_call_id w call) e, s')
           | (Inr resp, s') \<Rightarrow> (Inr resp, s'))
      | WrongMethod r \<Rightarrow> (Inr \<lparr>rs_status = 405, rs_code = [], rs_headers = [], rs_content = None\<rparr>, s)
      | Unmatched \<Rightarrow> (Inr \<lparr>rs_status = 404, rs_code = [], rs_headers = [], rs_content = None\<rparr>, s))"

section \<open>The layers\<close>

type_synonym graph_layer =
  "graph_content http_response raises \<times> graph_state \<Rightarrow> graph_content http_response raises \<times> graph_state"

text \<open>The inner middleware, registered by create_app: it stamps an answer, not an exception.\<close>

definition correlate :: "graph_world \<Rightarrow> graph_call \<Rightarrow> graph_layer" where
  "correlate w call answered =
     respond (\<lambda>resp. set_header ''X-Response-Time-ms'' (gw_elapsed w)
                (set_header ''X-Request-ID'' (graph_call_id w call) resp)) answered"

text \<open>The outer one, registered by the service.\<close>

definition observe_duration :: "route_entry list \<Rightarrow> graph_call \<Rightarrow> graph_layer" where
  "observe_duration table call answered =
     (let label = route_label (match_route table (rq_path (gl_request call)) (gl_method call));
          status_code = (case fst answered of Inl _ \<Rightarrow> ''500'' | Inr resp \<Rightarrow> int_str (rs_status resp))
      in (fst answered, (snd answered)\<lparr>ga_durations := ga_durations (snd answered) @ [(label, status_code)]\<rparr>))"

text \<open>
  The service's answer to a request.  What no handler took is answered outside both layers, where the
  request id is no longer bound.
\<close>

definition graph_serve ::
    "es_registry \<Rightarrow> graph_world \<Rightarrow> graph_call \<Rightarrow> graph_state \<Rightarrow> graph_content http_response \<times> graph_state" where
  "graph_serve registry w call s =
     (case observe_duration service_routes call (correlate w call (graph_routes service_routes registry w call s)) of
        (Inl e, s') \<Rightarrow> (error_response 500 ''internal_error'' ''-'' [], s')
      | (Inr resp, s') \<Rightarrow> (resp, s'))"

fun graph_serve_all ::
    "es_registry \<Rightarrow> (graph_world \<times> graph_call) list \<Rightarrow> graph_state
      \<Rightarrow> graph_content http_response list \<times> graph_state" where
  "graph_serve_all registry [] s = ([], s)"
| "graph_serve_all registry ((w, call) # calls) s =
     (let (resp, s1) = graph_serve registry w call s; (resps, s2) = graph_serve_all registry calls s1
      in (resp # resps, s2))"

section \<open>The worker in front of the service\<close>

text \<open>The headers of a planning request, and the lookup of a header by a server, which ignores case.\<close>

definition worker_headers :: "settings \<Rightarrow> string \<Rightarrow> string \<Rightarrow> (string \<times> string) list" where
  "worker_headers s presented request_id =
     [(s_license_header s, presented), (''X-Request-ID'', request_id), (''Content-Type'', ''application/json'')]"

definition header_lookup :: "(string \<times> string) list \<Rightarrow> string \<Rightarrow> string option" where
  "header_lookup headers name = map_of (map (\<lambda>(k, v). (str_lower k, v)) headers) (str_lower name)"

definition worker_call :: "settings \<Rightarrow> string \<Rightarrow> string \<Rightarrow> json \<Rightarrow> graph_call" where
  "worker_call s presented request_id body =
     \<lparr>gl_request = \<lparr>rq_path = ''/v1/intercept'', rq_header = header_lookup (worker_headers s presented request_id)\<rparr>,
      gl_method = ''POST'', gl_body = JsonBody body\<rparr>"

text \<open>The answer of the service as the client reads it.\<close>

definition reply_of :: "(action_plan \<Rightarrow> json) \<Rightarrow> graph_content http_response \<Rightarrow> http_reply" where
  "reply_of dump resp =
     \<lparr>hr_status_code = rs_status resp, hr_header = header_lookup (rs_headers resp),
      hr_json = (case rs_content resp of Some (PlanContent p) \<Rightarrow> Some (dump p) | _ \<Rightarrow> Some (JObj []))\<rparr>"

section \<open>Lemmas\<close>

lemma service_routes_eq:
  "service_routes =
     [route_at ''/healthz'' ''GET'' EpHealth, route_at ''/v1/subscription'' ''GET'' EpSubscription,
      route_at ''/metrics'' ''GET'' EpExposition, route_at ''/readyz'' ''GET'' EpReady,
      route_at ''/v1/graphrag/intercept'' ''POST'' EpNative, route_at ''/v1/intercept'' ''POST'' EpWorker]"
  by (simp add: service_routes_def native_routes_def route_at_def Let_def)

lemma match_label: "route_label (match_route table path method) \<in> insert ''<unmatched>'' (en_path ` set table)"
  by (auto simp: match_route_def route_label_def find_Some_iff split: option.splits)

text \<open>A served request: what the routes gave, and what the layers made of it.\<close>

lemma graph_serve_cases:
  assumes "graph_serve registry w call s = (resp, s')"
  obtains (answered) r s1 where "graph_routes service_routes registry w call s = (Inr r, s1)"
      "resp = set_header ''X-Response-Time-ms'' (gw_elapsed w) (set_header ''X-Request-ID'' (graph_call_id w call) r)"
      "ga_cache s' = ga_cache s1" "ga_quota s' = ga_quota s1"
  | (unhandled) e s1 where "graph_routes service_routes registry w call s = (Inl e, s1)"
      "resp = error_response 500 ''internal_error'' ''-'' []" "ga_cache s' = ga_cache s1" "ga_quota s' = ga_quota s1"
proof -
  obtain a s1 where a: "graph_routes service_routes registry w call s = (a, s1)" by fastforce
  show thesis
  proof (cases a)
    case (Inl e)
    then show thesis using assms a
      by (intro unhandled [of e s1]) (auto simp: graph_serve_def observe_duration_def correlate_def respond_def Let_def)
  next
    case (Inr r)
    then show thesis using assms a
      by (intro answered [of r s1]) (auto simp: graph_serve_def observe_duration_def correlate_def respond_def Let_def)
  qed
qed

lemma graph_serve_durations:
  "\<exists>label code. ga_durations (snd (graph_serve registry w call s)) =
     ga_durations (snd (graph_routes service_routes registry w call s)) @ [(label, code)] \<and>
     label \<in> insert ''<unmatched>'' (en_path ` set service_routes)"
  using match_label [of service_routes "rq_path (gl_request call)" "gl_method call"]
  by (auto simp: graph_serve_def observe_duration_def correlate_def respond_def Let_def split: sum.split)

lemma intercept_durations:
  "ga_durations (snd (intercept_native env sub p s)) = ga_durations s"
  "ga_durations (snd (intercept_worker env sub m s)) = ga_durations s"
  by (simp_all add: intercept_native_def intercept_worker_def count_action_def case_prod_beta Let_def
      split: option.split sum.split route_answer.split)

lemma graph_routes_durations: "ga_durations (snd (graph_routes table registry w call s)) = ga_durations s"
proof -
  have lic: "ga_durations (snd (licensed_endpoint w e sub hs call t)) = ga_durations t" for e sub hs t
    by (cases e) (auto simp: licensed_endpoint_def case_prod_beta intercept_durations
        split: sum.split graph_request_body.split json.split)
  have ep: "ga_durations (snd (endpoint_answer registry w e call s)) = ga_durations s" for e
    using lic by (auto simp: endpoint_answer_def verify_request_def Let_def case_prod_beta split: sum.split)
  show ?thesis using ep
    by (auto simp: graph_routes_def case_prod_beta split: route_match.split sum.split)
qed

lemma set_header_fields [simp]:
  "rs_status (set_header h v r) = rs_status r" "rs_content (set_header h v r) = rs_content r"
  "rs_code (set_header h v r) = rs_code r" "rs_headers (set_header h v r) = AList.update h v (rs_headers r)"
  by (simp_all add: set_header_def)

text \<open>The key a request presents.\<close>

definition graph_key :: "http_request \<Rightarrow> string" where
  "graph_key r =
     (let header_key = (case rq_header r LICENSE_HEADER of None \<Rightarrow> [] | Some k \<Rightarrow> str_strip k);
          bearer_key = (case bearer_credentials r of None \<Rightarrow> [] | Some c \<Rightarrow> str_strip c)
      in if header_key \<noteq> [] then header_key else bearer_key)"

lemma verify_request_Inr:
  assumes "verify_request registry w r s = (Inr (sub, headers), s1)"
  shows "graph_key r \<noteq> [] \<and> es_lookup (gw_sha w) registry (graph_key r) = Some sub \<and>
    (\<exists>t. es_expires_at sub = Aware t \<and> gw_now w < t) \<and> es_has sub FEATURE_GRAPHRAG \<and>
    headers ! 0 = (''X-RateLimit-Limit'', int_str (es_quota_per_minute sub)) \<and> length headers = 3"
proof -
  let ?verify = "verify_enterprise_subscription (gw_sha w) registry (gw_mono w) (gw_now w) (rq_header r LICENSE_HEADER)
      (bearer_credentials r) (ga_quota s)"
  have v: "fst ?verify = Inr (sub, headers)" using assms by (simp add: verify_request_def Let_def split: prod.splits)
  note unfolded = v [unfolded verify_enterprise_subscription_def Let_def, folded graph_key_def [unfolded Let_def]]
  have key: "graph_key r \<noteq> []" using unfolded by (auto split: if_splits)
  show ?thesis
  proof (cases "es_lookup (gw_sha w) registry (graph_key r)")
    case None
    then show ?thesis using unfolded key by simp
  next
    case (Some found)
    obtain t where t: "es_expires_at found = Aware t" "gw_now w < t"
      using unfolded key Some
      by (cases "es_expires_at found") (auto simp: es_is_expired_def datetime_expired_def not_le split: if_splits bool.splits)
    then have "es_is_expired (gw_now w) found = Inr False" by (simp add: es_is_expired_def datetime_expired_def)
    then show ?thesis using unfolded key Some t
      by (auto split: if_splits prod.splits sum.splits)
  qed
qed

lemma verify_request_state:
  "verify_request registry w r s = (x, s1) \<Longrightarrow> ga_cache s1 = ga_cache s"
  by (auto simp: verify_request_def Let_def split: prod.splits)

text \<open>Every stored action is filed under the tenant it was issued to and under the event it answers.\<close>

definition filed :: "event_key \<times> command_action \<times> rat \<Rightarrow> bool" where
  "filed x \<longleftrightarrow>
     ac_tenant (fst (snd x)) = fst (fst x) \<and>
     (ac_event_id (fst (snd x)) = snd (fst x) \<or> ac_event_id (fst (snd x)) = str_strip (snd (fst x)))"

definition cache_filed :: "(command_action \<times> rat) command_cache \<Rightarrow> bool" where
  "cache_filed c \<longleftrightarrow> (\<forall>x \<in> set (cc_data c). filed x)"

lemma cache_filed_get:
  assumes "command_cache_get k c = (r, c1)" and "cache_filed c"
  shows "cache_filed c1 \<and> (\<forall>v. r = Some v \<longrightarrow> filed (k, v))"
  using assms set_move_subset [of k "cc_data c"]
  by (auto simp: command_cache_get_def cache_filed_def dest: map_of_SomeD split: if_splits option.splits)

lemma cache_filed_put: "cache_filed c \<Longrightarrow> filed (k, v) \<Longrightarrow> cache_filed (command_cache_put k v c)"
  using set_delete_subset [of k "cc_data c"]
  by (cases "cc_max c = 0")
    (auto simp: cache_filed_def od_set_then_move od_evict_drop command_cache_put_def dest!: in_set_dropD)

lemma build_command_fields:
  "ac_tenant (build_command hex p out tenant) = tenant" "ac_event_id (build_command hex p out tenant) = gp_event_id p"
  by (simp_all add: build_command_def Let_def)

lemma intercept_native_filed:
  assumes "intercept_native env sub p s = (x, s1)" and "cache_filed (ga_cache s)"
  shows "cache_filed (ga_cache s1) \<and>
    (\<forall>stored own. x = Inr (stored, own) \<longrightarrow> filed ((es_tenant sub, gp_event_id p), stored))"
proof -
  let ?key = "(es_tenant sub, gp_event_id p)"
  obtain r c1 where g: "command_cache_get ?key (ga_cache s) = (r, c1)" by fastforce
  note got = cache_filed_get [OF g assms(2)]
  have new: "filed (?key, build_command (re_hex env) p out (es_tenant sub), l)" for out l
    by (simp add: filed_def build_command_fields)
  show ?thesis
  proof (cases r)
    case (Some v)
    then show ?thesis using assms(1) g got by (auto simp: intercept_native_def Let_def)
  next
    case None
    then show ?thesis using assms(1) g got new cache_filed_put
      by (auto simp: intercept_native_def Let_def split: sum.splits)
  qed
qed

lemma projection_event:
  assumes "mutation_to_graph_payload env m = Inr p"
  shows "\<exists>e. j_get m ''event_id'' = JStr e \<and> gp_event_id p = str_strip e \<and> e \<noteq> []"
proof -
  obtain ctx asset_id status topology chs where v: "validate_projection env m ctx asset_id status topology chs = Inr p"
    using assms by (auto simp: mutation_to_graph_payload_def bind_r_Inr_iff Let_def)
  then obtain e t a c tel l d where e: "field_str (j_get m ''event_id'') = Inr e"
    and mp: "make_payload (br_to_float env) e t a c tel l d = Inr p"
    by (auto simp: validate_projection_def bind_r_Inr_iff Let_def split: prod.splits)
  obtain vi te co ex where tel: "tel = (vi, te, co, ex)" by (cases tel)
  have "gp_event_id p = e" "e \<noteq> []" using make_payload_parts [OF mp [unfolded tel]] by (auto simp: len_within_def)
  then show ?thesis using e by (auto simp: field_str_def split: json.splits)
qed

lemma intercept_mutation_filed:
  assumes "intercept_mutation env tenant m c = (x, c1)" and "cache_filed c"
  shows "cache_filed c1 \<and> (\<forall>plan replayed. x = Planned plan replayed \<longrightarrow> pl_tenant plan = tenant)"
proof -
  let ?key = "route_key env tenant m"
  obtain r c0 where g: "command_cache_get ?key c = (r, c0)" by fastforce
  note got = cache_filed_get [OF g assms(2)]
  have key: "fst ?key = tenant" by (simp add: route_key_def Let_def)
  have plan: "pl_tenant (render env stored) = ac_tenant (fst stored)" for stored
    by (simp add: render_def action_to_plan_def Let_def)
  show ?thesis
  proof (cases r)
    case (Some v)
    then show ?thesis using assms(1) g got key plan
      by (cases v) (auto simp: intercept_mutation_def Let_def filed_def)
  next
    case None
    show ?thesis
    proof (cases "mutation_to_graph_payload (re_bridge env) m")
      case (Inl e)
      then show ?thesis using assms(1) g got None by (auto simp: intercept_mutation_def Let_def)
    next
      case (Inr p)
      then obtain e where "j_get m ''event_id'' = JStr e" "gp_event_id p = str_strip e" "e \<noteq> []"
        using projection_event by blast
      then have "filed (?key, build_command (re_hex env) p out tenant, l)" for out l
        by (simp add: filed_def build_command_fields route_key_def Let_def)
      then have put: "cache_filed (command_cache_put ?key (build_command (re_hex env) p out tenant, l) c0)" for out l
        using cache_filed_put got by blast
      show ?thesis using assms(1) g got None Inr plan put
        by (auto simp: intercept_mutation_def Let_def build_command_fields split: sum.splits)
    qed
  qed
qed

text \<open>The tenant an answer speaks of, where it speaks of one.\<close>

definition content_tenant :: "graph_content \<Rightarrow> string option" where
  "content_tenant c =
     (case c of CommandBody stored \<Rightarrow> Some (ac_tenant (fst stored)) | PlanContent plan \<Rightarrow> Some (pl_tenant plan)
      | SubscriptionContent v \<Rightarrow> Some (sv_tenant v) | _ \<Rightarrow> None)"

lemma licensed_endpoint_filed:
  assumes "licensed_endpoint w e sub hs call s = (x, s1)" and "cache_filed (ga_cache s)"
  shows "cache_filed (ga_cache s1) \<and>
    (\<forall>resp c t. x = Inr resp \<longrightarrow> rs_content resp = Some c \<longrightarrow> content_tenant c = Some t \<longrightarrow> t = es_tenant sub)"
proof (cases e)
  case EpNative
  show ?thesis
  proof (cases "\<exists>j p. gl_body call = JsonBody j \<and> read_payload w j = Inr p")
    case True
    then obtain j p where b: "gl_body call = JsonBody j" "read_payload w j = Inr p" by blast
    obtain y s2 where n: "intercept_native (gw_route w) sub p s = (y, s2)" by fastforce
    show ?thesis using assms(1) EpNative b n intercept_native_filed [OF n assms(2)]
      by (cases y) (auto simp: licensed_endpoint_def rendered_def content_tenant_def filed_def)
  next
    case False
    then show ?thesis using assms EpNative
      by (auto simp: licensed_endpoint_def split: graph_request_body.splits sum.splits)
  qed
next
  case EpWorker
  show ?thesis
  proof (cases "\<exists>m. gl_body call = JsonBody (JObj m)")
    case True
    then obtain m where b: "gl_body call = JsonBody (JObj m)" by blast
    obtain y c where n: "intercept_mutation (gw_route w) (es_tenant sub) m (ga_cache s) = (y, c)" by fastforce
    show ?thesis using assms(1) EpWorker b n intercept_mutation_filed [OF n assms(2)]
      by (cases y) (auto simp: licensed_endpoint_def intercept_worker_def rendered_def content_tenant_def
          count_action_def Let_def split: option.splits sum.splits if_splits)
  next
    case False
    then show ?thesis using assms EpWorker
      by (auto simp: licensed_endpoint_def split: graph_request_body.splits json.splits)
  qed
qed (use assms in \<open>auto simp: licensed_endpoint_def rendered_def content_tenant_def introspect_subscription_def
      bind_r_Inr_iff split: sum.splits\<close>)

lemma endpoint_answer_filed:
  assumes "endpoint_answer registry w e call s = (x, s1)" and "cache_filed (ga_cache s)"
  shows "cache_filed (ga_cache s1) \<and>
    (\<forall>resp c t. x = Inr resp \<longrightarrow> rs_content resp = Some c \<longrightarrow> content_tenant c = Some t \<longrightarrow>
       (\<exists>sub hs s2. verify_request registry w (gl_request call) s = (Inr (sub, hs), s2) \<and> t = es_tenant sub))"
proof (cases "is_licensed e \<and> \<not> (gl_body call = NotJson \<and> e \<noteq> EpSubscription)")
  case False
  then show ?thesis using assms
    by (auto simp: endpoint_answer_def rendered_def content_tenant_def split: if_splits graph_endpoint.splits)
next
  case True
  obtain v s2 where v: "verify_request registry w (gl_request call) s = (v, s2)" by fastforce
  have c: "cache_filed (ga_cache s2)" using verify_request_state [OF v] assms(2) by simp
  have run: "endpoint_answer registry w e call s =
      (case v of Inl err \<Rightarrow> (Inl (GeSubscription err), s2)
       | Inr (sub, hs) \<Rightarrow> licensed_endpoint w e sub hs call s2)"
    using True v by (auto simp: endpoint_answer_def)
  show ?thesis
  proof (cases v)
    case (Inl err)
    then show ?thesis using assms(1) run c by auto
  next
    case (Inr sh)
    obtain sub hs where sh: "sh = (sub, hs)" by (cases sh)
    have l: "licensed_endpoint w e sub hs call s2 = (x, s1)" using assms(1) run Inr sh by simp
    show ?thesis using licensed_endpoint_filed [OF l c] v Inr sh by blast
  qed
qed

lemma graph_routes_filed:
  assumes "graph_routes table registry w call s = (x, s1)" and "cache_filed (ga_cache s)"
  shows "cache_filed (ga_cache s1) \<and>
    (\<forall>resp c t. x = Inr resp \<longrightarrow> rs_content resp = Some c \<longrightarrow> content_tenant c = Some t \<longrightarrow>
       (\<exists>sub hs s2. verify_request registry w (gl_request call) s = (Inr (sub, hs), s2) \<and> t = es_tenant sub))"
proof (cases "match_route table (rq_path (gl_request call)) (gl_method call)")
  case (Matched r)
  obtain y s2 where e: "endpoint_answer registry w (en_endpoint r) call s = (y, s2)" by fastforce
  note ok = endpoint_answer_filed [OF e assms(2)]
  show ?thesis
  proof (cases y)
    case (Inl err)
    have "rs_content resp = None" if "graph_error_answer i err = Inr resp" for i resp
      using that by (auto simp: graph_error_answer_def raised_answer_def error_response_def
          split: graph_error.splits verify_error.splits engine_error.splits if_splits)
    then show ?thesis using assms(1) Matched e ok Inl by (auto simp: graph_routes_def)
  next
    case (Inr resp)
    then have "x = Inr resp \<and> s1 = s2" using assms(1) Matched e by (simp add: graph_routes_def)
    then show ?thesis using ok Inr by blast
  qed
qed (use assms in \<open>auto simp: graph_routes_def\<close>)

lemma graph_serve_filed:
  assumes "graph_serve registry w call s = (resp, s')" and "cache_filed (ga_cache s)"
  shows "cache_filed (ga_cache s') \<and>
    (\<forall>c t. rs_content resp = Some c \<longrightarrow> content_tenant c = Some t \<longrightarrow>
       (\<exists>sub hs s2. verify_request registry w (gl_request call) s = (Inr (sub, hs), s2) \<and> t = es_tenant sub))"
  using assms(1)
proof (cases rule: graph_serve_cases)
  case (answered r s1)
  then show ?thesis using graph_routes_filed [OF answered(1) assms(2)] by simp
next
  case (unhandled e s1)
  then show ?thesis using graph_routes_filed [OF unhandled(1) assms(2)] by (simp add: error_response_def)
qed

lemma graph_serve_all_filed:
  "cache_filed (ga_cache s) \<Longrightarrow> cache_filed (ga_cache (snd (graph_serve_all registry calls s)))"
proof (induction calls arbitrary: s)
  case (Cons x calls)
  obtain w call where x: "x = (w, call)" by (cases x)
  obtain resp s1 where r: "graph_serve registry w call s = (resp, s1)" by fastforce
  have "cache_filed (ga_cache s1)" using graph_serve_filed [OF r Cons.prems] by blast
  then show ?case using Cons.IH [of s1] by (simp add: x r case_prod_beta Let_def)
qed simp

text \<open>Header names as a server compares them.\<close>

lemma lower_names:
  "str_lower LICENSE_HEADER = ''x-openontology-license''" "str_lower ''X-Request-ID'' = ''x-request-id''"
  "str_lower ''Content-Type'' = ''content-type''" "str_lower ''Authorization'' = ''authorization''"
  "str_lower ''X-RateLimit-Limit'' = ''x-ratelimit-limit''" "str_lower ''X-Idempotent-Replay'' = ''x-idempotent-replay''"
  "str_lower ''X-Response-Time-ms'' = ''x-response-time-ms''" "str_lower ''X-License-Key'' = ''x-license-key''"
  by code_simp+

lemma worker_route_matched:
  "match_route service_routes ''/v1/intercept'' ''POST'' = Matched (route_at ''/v1/intercept'' ''POST'' EpWorker)"
  "match_route service_routes ''/v1/graphrag/intercept'' ''POST'' =
     Matched (route_at ''/v1/graphrag/intercept'' ''POST'' EpNative)"
  by (simp_all add: service_routes_eq match_route_def route_at_def)

lemma unread_key:
  assumes "str_lower (s_license_header s) \<notin> {''x-openontology-license'', ''authorization''}"
  shows "graph_key (gl_request (worker_call s key i body)) = []"
    "rq_header (gl_request (worker_call s key i body)) LICENSE_HEADER = None"
    "bearer_credentials (gl_request (worker_call s key i body)) = None"
  using assms
  by (auto simp: graph_key_def bearer_credentials_def worker_call_def header_lookup_def worker_headers_def lower_names
      partition_space_def)

text \<open>A refusal of the gate is never a success, so an answer 200 of a licensed route is its endpoint's.\<close>

lemma verify_request_refusal:
  "verify_request registry w r s = (Inl (SubscriptionError n c h), s1) \<Longrightarrow> n \<in> {401, 402, 403, 429}"
  by (auto simp: verify_request_def verify_enterprise_subscription_def Let_def
      split: if_splits option.splits sum.splits prod.splits bool.splits)

lemma error_answer_status:
  "graph_error_answer i e = Inr r \<Longrightarrow>
   rs_status r \<in> {422, 502} \<or> (\<exists>c h. e = GeSubscription (SubscriptionError (rs_status r) c h))"
  by (auto simp: graph_error_answer_def raised_answer_def error_response_def
      split: graph_error.splits verify_error.splits engine_error.splits if_splits)

lemma licensed_endpoint_error:
  "licensed_endpoint w e sub hs call s = (Inl (GeSubscription x), s1) \<Longrightarrow> False"
  by (auto simp: licensed_endpoint_def intercept_native_def intercept_worker_def Let_def
      split: graph_endpoint.splits sum.splits graph_request_body.splits json.splits route_answer.splits option.splits
        prod.splits if_splits)

lemma endpoint_answer_refusal:
  "endpoint_answer registry w e call s = (Inl (GeSubscription (SubscriptionError n c h)), s1) \<Longrightarrow> n \<in> {401, 402, 403, 429}"
  by (auto simp: endpoint_answer_def dest: verify_request_refusal licensed_endpoint_error split: if_splits sum.splits prod.splits)

lemma licensed_success:
  assumes "graph_routes table registry w call s = (Inr r, s1)" and "rs_status r = 200"
    and "match_route table (rq_path (gl_request call)) (gl_method call) = Matched entry" and "is_licensed (en_endpoint entry)"
  obtains sub hs s2 where "verify_request registry w (gl_request call) s = (Inr (sub, hs), s2)"
    "licensed_endpoint w (en_endpoint entry) sub hs call s2 = (Inr r, s1)"
proof -
  let ?e = "en_endpoint entry"
  obtain x s3 where e: "endpoint_answer registry w ?e call s = (x, s3)" by fastforce
  have x: "(case x of Inl e \<Rightarrow> graph_error_answer (graph_call_id w call) e | Inr resp \<Rightarrow> Inr resp) = Inr r \<and> s3 = s1"
    using assms(1,3) e by (simp add: graph_routes_def split: sum.splits)
  have "x = Inr r"
  proof (cases x)
    case (Inl err)
    then show ?thesis using x error_answer_status [of "graph_call_id w call" err r] assms(2) endpoint_answer_refusal e
      by fastforce
  qed (use x in simp)
  then have run: "endpoint_answer registry w ?e call s = (Inr r, s1)" using e x by simp
  then have body: "\<not> (gl_body call = NotJson \<and> ?e \<noteq> EpSubscription)"
    using assms(4) by (auto simp: endpoint_answer_def split: if_splits)
  obtain v s2 where v: "verify_request registry w (gl_request call) s = (v, s2)" by fastforce
  have "(case v of Inl e \<Rightarrow> (Inl (GeSubscription e), s2) | Inr (sub, headers) \<Rightarrow> licensed_endpoint w ?e sub headers call s2) =
      (Inr r, s1)"
    using run body assms(4) v by (simp add: endpoint_answer_def)
  then show thesis using that v by (cases v) auto
qed

text \<open>The answers of the two intercept routes before the layers.\<close>

lemma worker_route_headers:
  assumes "licensed_endpoint w EpWorker sub hs call s = (Inr r, s1)" and "rs_status r = 200"
  shows "\<exists>v. rs_headers r = [(''X-Idempotent-Replay'', v)]"
  using assms
  by (auto simp: licensed_endpoint_def intercept_worker_def rendered_def Let_def
      split: if_splits sum.splits prod.splits graph_request_body.splits json.splits route_answer.splits)

lemma native_route_headers:
  assumes "licensed_endpoint w EpNative sub hs call s = (Inr r, s1)"
  shows "\<exists>own. rs_headers r = hs @ own"
  using assms
  by (auto simp: licensed_endpoint_def rendered_def split: sum.splits prod.splits graph_request_body.splits)

lemma endpoint_answer_status:
  "endpoint_answer registry w e call s = (Inr r, s1) \<Longrightarrow> rs_status r \<in> {200, 422}"
  by (auto simp: endpoint_answer_def licensed_endpoint_def intercept_worker_def rendered_def Let_def
      split: if_splits sum.splits prod.splits graph_endpoint.splits graph_request_body.splits json.splits route_answer.splits)

lemma graph_routes_status:
  assumes "graph_routes table registry w call s = (Inr r, s1)"
  shows "rs_status r \<in> {200, 401, 402, 403, 404, 405, 422, 429, 502}"
proof (cases "match_route table (rq_path (gl_request call)) (gl_method call)")
  case (Matched entry)
  obtain x s2 where e: "endpoint_answer registry w (en_endpoint entry) call s = (x, s2)" by fastforce
  show ?thesis
  proof (cases x)
    case (Inl err)
    then have "graph_error_answer (graph_call_id w call) err = Inr r" using assms Matched e by (simp add: graph_routes_def)
    from error_answer_status [OF this] show ?thesis using endpoint_answer_refusal e Inl by fastforce
  next
    case (Inr resp)
    then have "resp = r" using assms Matched e by (simp add: graph_routes_def)
    then show ?thesis using endpoint_answer_status e Inr by fastforce
  qed
qed (use assms in \<open>auto simp: graph_routes_def\<close>)

section \<open>Properties\<close>

text \<open>
  C21: A tenant is answered with its own commands only.  After any requests to a fresh service, an answer
  that names a tenant, a command of the native route, a plan of the worker route or an introspection,
  is given to a request whose key belongs to a subscription of that tenant, one that is unexpired and
  licensed for the engine.
\<close>
theorem graph_answers_own_tenant:
  assumes "graph_serve registry w call (snd (graph_serve_all registry calls (graph_startup window cap))) = (resp, s')"
    and "rs_content resp = Some c" and "content_tenant c = Some t"
  shows "\<exists>sub. es_lookup (gw_sha w) registry (graph_key (gl_request call)) = Some sub \<and> es_tenant sub = t \<and>
    (\<exists>e. es_expires_at sub = Aware e \<and> gw_now w < e) \<and> es_has sub FEATURE_GRAPHRAG"
proof -
  have "cache_filed (ga_cache (graph_startup window cap))" by (simp add: graph_startup_def cache_filed_def)
  then have "cache_filed (ga_cache (snd (graph_serve_all registry calls (graph_startup window cap))))"
    by (rule graph_serve_all_filed)
  then show ?thesis using graph_serve_filed [OF assms(1)] assms(2,3) verify_request_Inr by blast
qed

text \<open>
  One observation per request, under a label of the route table: whatever paths are asked for, the
  duration metric has at most one series per registered path and one for all the others.
\<close>
theorem duration_labels_bounded:
  "length (ga_durations (snd (graph_serve_all registry calls s))) = length (ga_durations s) + length calls \<and>
   fst ` set (ga_durations (snd (graph_serve_all registry calls s))) \<subseteq>
     fst ` set (ga_durations s) \<union> insert ''<unmatched>'' (en_path ` set service_routes)"
proof (induction calls arbitrary: s)
  case (Cons x calls)
  obtain w call where x: "x = (w, call)" by (cases x)
  obtain label code where "ga_durations (snd (graph_serve registry w call s)) = ga_durations s @ [(label, code)]"
    "label \<in> insert ''<unmatched>'' (en_path ` set service_routes)"
    using graph_serve_durations [of registry w call s] by (auto simp: graph_routes_durations)
  then show ?case using Cons.IH [of "snd (graph_serve registry w call s)"] by (auto simp: x case_prod_beta Let_def)
qed auto

text \<open>
  C16: The key of the worker does not arrive.  The worker's client sends the key of the enterprise planner
  under its one licence header; the service reads its own header and the bearer scheme.  Unless the
  worker's header is named as one of these, every planning request is refused as one without a key,
  whatever key is configured, and the worker files the refusal neither as the record's fault nor as
  worth a retry, so that the record is redelivered for ever.
\<close>
theorem enterprise_key_never_arrives:
  assumes "str_lower (s_license_header s) \<notin> {''x-openontology-license'', ''authorization''}"
    and "graph_serve registry w (worker_call s key i body) st = (resp, st')"
  shows "rs_status resp = 401 \<and> rs_code resp = ''license_key_missing'' \<and>
    ga_cache st' = ga_cache st \<and> ga_quota st' = ga_quota st \<and>
    \<not> ie_permanent (fst (http_failure env s now (reply_of dump resp) gm)) \<and>
    \<not> should_retry (fst (http_failure env s now (reply_of dump resp) gm))"
proof -
  let ?call = "worker_call s key i body"
  have path: "rq_path (gl_request ?call) = ''/v1/intercept''" "gl_method ?call = ''POST''" "gl_body ?call = JsonBody body"
    by (simp_all add: worker_call_def)
  have "verify_request registry w (gl_request ?call) st =
      (Inl (SubscriptionError 401 ''license_key_missing'' [(''WWW-Authenticate'', ''Bearer'')]), st)"
    using unread_key [OF assms(1), of key i body]
    by (simp add: verify_request_def verify_enterprise_subscription_def Let_def)
  then have routed: "graph_routes service_routes registry w ?call st =
      (Inr (error_response 401 ''license_key_missing'' (graph_call_id w ?call) [(''WWW-Authenticate'', ''Bearer'')]), st)"
    by (simp add: graph_routes_def path worker_route_matched route_at_def endpoint_answer_def is_licensed_def
        graph_error_answer_def)
  from assms(2) have served: "rs_status resp = 401 \<and> rs_code resp = ''license_key_missing'' \<and>
      ga_cache st' = ga_cache st \<and> ga_quota st' = ga_quota st"
    by (cases rule: graph_serve_cases) (use routed in \<open>auto simp: error_response_def\<close>)
  then have "hr_status_code (reply_of dump resp) = 401" by (simp add: reply_of_def)
  then show ?thesis using served by (cases gm) (simp add: http_failure_def should_retry_def Let_def)
qed

text \<open>
  The worker route tells its caller nothing about the quota.  A plan or a replay of POST
  /v1/intercept never changes what the worker's pacer knows, because the headers of the licence
  dependency are not merged into a response object; the same headers do reach a caller of the native
  route.
\<close>
theorem worker_route_hides_quota:
  assumes "graph_serve registry w call s = (resp, s')" and "gl_method call = ''POST''" and "rs_status resp = 200"
  shows "(rq_path (gl_request call) = ''/v1/intercept'' \<longrightarrow> learn_quota st (reply_of dump resp) gate = gate) \<and>
    (rq_path (gl_request call) = ''/v1/graphrag/intercept'' \<longrightarrow>
       (\<exists>sub. es_lookup (gw_sha w) registry (graph_key (gl_request call)) = Some sub \<and>
          header_lookup (rs_headers resp) ''X-RateLimit-Limit'' = Some (int_str (es_quota_per_minute sub))))"
  using assms(1)
proof (cases rule: graph_serve_cases)
  case (unhandled e s1)
  then show ?thesis using assms(3) by (simp add: error_response_def)
next
  case (answered r s1)
  have ok: "rs_status r = 200" using answered(2) assms(3) by simp
  show ?thesis
  proof (intro conjI impI)
    assume "rq_path (gl_request call) = ''/v1/intercept''"
    then have "match_route service_routes (rq_path (gl_request call)) (gl_method call) =
        Matched (route_at ''/v1/intercept'' ''POST'' EpWorker)"
      using assms(2) worker_route_matched by simp
    then obtain sub hs s2 where "licensed_endpoint w EpWorker sub hs call s2 = (Inr r, s1)"
      by (rule licensed_success [OF answered(1) ok]) (simp_all add: route_at_def is_licensed_def)
    then obtain v where "rs_headers r = [(''X-Idempotent-Replay'', v)]"
      using worker_route_headers ok by blast
    then have "hr_header (reply_of dump resp) ''X-RateLimit-Limit'' = None"
      using answered(2) by (simp add: reply_of_def header_lookup_def lower_names)
    then show "learn_quota st (reply_of dump resp) gate = gate" by (simp add: learn_quota_def)
  next
    assume "rq_path (gl_request call) = ''/v1/graphrag/intercept''"
    then have "match_route service_routes (rq_path (gl_request call)) (gl_method call) =
        Matched (route_at ''/v1/graphrag/intercept'' ''POST'' EpNative)"
      using assms(2) worker_route_matched by simp
    then obtain sub hs s2 where v: "verify_request registry w (gl_request call) s = (Inr (sub, hs), s2)"
      and l: "licensed_endpoint w EpNative sub hs call s2 = (Inr r, s1)"
      by (rule licensed_success [OF answered(1) ok]) (simp_all add: route_at_def is_licensed_def)
    note sub = verify_request_Inr [OF v]
    obtain hs' where hs: "hs = (''X-RateLimit-Limit'', int_str (es_quota_per_minute sub)) # hs'"
      using sub by (cases hs) auto
    obtain own where "rs_headers r = hs @ own" using native_route_headers [OF l] by blast
    then have "header_lookup (rs_headers resp) ''X-RateLimit-Limit'' = Some (int_str (es_quota_per_minute sub))"
      using answered(2) hs by (simp add: header_lookup_def lower_names)
    then show "\<exists>sub. es_lookup (gw_sha w) registry (graph_key (gl_request call)) = Some sub \<and>
          header_lookup (rs_headers resp) ''X-RateLimit-Limit'' = Some (int_str (es_quota_per_minute sub))"
      using sub by blast
  qed
qed

text \<open>
  Every answer the service composes carries the caller's request id and a response time; only an
  exception no handler names is answered 500, and that answer has lost the id.
\<close>
theorem graph_answers_identified:
  assumes "graph_serve registry w call s = (resp, s')"
  shows "rs_status resp \<in> {200, 401, 402, 403, 404, 405, 422, 429, 502} \<and>
      map_of (rs_headers resp) ''X-Request-ID'' = Some (graph_call_id w call) \<and>
      map_of (rs_headers resp) ''X-Response-Time-ms'' = Some (gw_elapsed w) \<or>
    rs_status resp = 500 \<and> map_of (rs_headers resp) ''X-Request-ID'' = Some ''-''"
  using assms
proof (cases rule: graph_serve_cases)
  case (answered r s1)
  then show ?thesis using graph_routes_status [OF answered(1)] by (simp add: update_conv')
next
  case (unhandled e s1)
  then show ?thesis by (simp add: error_response_def)
qed

text \<open>
  One event, one command, on both routes.  A command the native route planned for a tenant is the
  one the worker route renders for a mutation of the same event, as a replay and without another
  inference, while the mutations in between name fewer other events than the cache holds.
\<close>
theorem native_command_serves_worker:
  assumes "fst (command_cache_get (es_tenant sub, gp_event_id p) (ga_cache s)) = None"
    and "intercept_native env sub p s = (Inr (stored, own), s1)"
    and "card ((\<lambda>(e, n, x). route_key e n x) ` set reqs - {(es_tenant sub, gp_event_id p)}) < cc_max (ga_cache s)"
    and "es_tenant sub2 = es_tenant sub" and "j_get m ''event_id'' = JStr (gp_event_id p)" and "gp_event_id p \<noteq> []"
  shows "fst (intercept_worker env2 sub2 m (s1\<lparr>ga_cache := serve_all reqs (ga_cache s1)\<rparr>)) =
    Inr (rendered (PlanContent (render env2 stored)) [(''X-Idempotent-Replay'', ''true'')])"
proof -
  let ?k = "(es_tenant sub, gp_event_id p)"
  have "command_cache_get ?k (ga_cache s) = (None, ga_cache s)"
    using assms(1) by (auto simp: command_cache_get_def split: if_splits option.splits)
  then have c1: "ga_cache s1 = command_cache_put ?k stored (ga_cache s)"
    using assms(2) by (auto simp: intercept_native_def Let_def split: sum.splits)
  obtain ops where ops: "serve_all reqs (ga_cache s1) = fold command_lru.apply_op ops (ga_cache s1)"
    "\<forall>x \<in> set ops. \<not> puts_key ?k x" "op_key ` set ops \<subseteq> (\<lambda>(e, n, x). route_key e n x) ` set reqs"
    using serve_all_ops [OF assms(3)] unfolding c1 by blast
  have "card (op_key ` set ops - {?k}) < cc_max (ga_cache s)"
    using ops(3) assms(3) by (meson Diff_mono card_mono finite_Diff finite_imageI finite_set order_le_less_trans subset_refl)
  then have found: "fst (command_cache_get ?k (serve_all reqs (ga_cache s1))) = Some stored"
    unfolding ops(1) unfolding c1 using ops(2) by (intro command_lru.replay_stable) simp_all
  obtain c2 where "command_cache_get ?k (serve_all reqs (ga_cache s1)) = (Some stored, c2)"
    using found by (cases "command_cache_get ?k (serve_all reqs (ga_cache s1))") auto
  moreover have "route_key env2 (es_tenant sub2) m = ?k"
    using assms(4-6) by (simp add: route_key_def Let_def)
  ultimately show ?thesis by (simp add: intercept_worker_def intercept_mutation_def Let_def)
qed

text \<open>
  A payload the kernel cannot assess is answered as the service's own failure.  Where the mutation
  projects but the topology kernel raises a validation error, the answer is 502, nothing is stored,
  and the worker takes it for a passing fault: it is neither the record's fault nor final, so a record
  that can never be planned is retried.
\<close>
theorem kernel_refusal_is_retried:
  assumes "verify_request registry w (gl_request call) s = (Inr (sub, hs), s1)"
    and "rq_path (gl_request call) = ''/v1/intercept''" and "gl_method call = ''POST''"
    and "gl_body call = JsonBody (JObj m)"
    and "fst (command_cache_get (route_key (gw_route w) (es_tenant sub) m) (ga_cache s)) = None"
    and "mutation_to_graph_payload (re_bridge (gw_route w)) m = Inr p"
    and "analyse_topology (ag_format (re_agents (gw_route w))) p (re_settings (gw_route w)) = Inl ValidationErrorExn"
    and "graph_serve registry w call s = (resp, s')"
  shows "rs_status resp = 502 \<and> rs_code resp = ''response_invalid'' \<and> ga_cache s' = ga_cache s \<and>
    \<not> ie_permanent (fst (http_failure env st now (reply_of dump resp) gm)) \<and>
    should_retry (fst (http_failure env st now (reply_of dump resp) gm))"
proof -
  let ?k = "route_key (gw_route w) (es_tenant sub) m"
  have get: "command_cache_get ?k (ga_cache s) = (None, ga_cache s)"
    using assms(5) by (auto simp: command_cache_get_def split: if_splits option.splits)
  note same = verify_request_state [OF assms(1)]
  have "intercept_mutation (gw_route w) (es_tenant sub) m (ga_cache s1) =
      (EngineRaised (KernelRaised ValidationErrorExn), ga_cache s)"
    using get assms(6,7) by (simp add: intercept_mutation_def run_engine_def same Let_def)
  then have "endpoint_answer registry w EpWorker call s =
      (Inl (GeEngine (KernelRaised ValidationErrorExn)), s1\<lparr>ga_cache := ga_cache s\<rparr>)"
    using assms(1,4) by (simp add: endpoint_answer_def is_licensed_def licensed_endpoint_def intercept_worker_def)
  then have routed: "graph_routes service_routes registry w call s =
      (Inr (error_response 502 ''response_invalid'' (graph_call_id w call) []), s1\<lparr>ga_cache := ga_cache s\<rparr>)"
    by (simp add: graph_routes_def assms(2,3) worker_route_matched route_at_def graph_error_answer_def raised_answer_def)
  from assms(8) have served: "rs_status resp = 502 \<and> rs_code resp = ''response_invalid'' \<and> ga_cache s' = ga_cache s"
    by (cases rule: graph_serve_cases) (use routed in \<open>auto simp: error_response_def\<close>)
  then have "hr_status_code (reply_of dump resp) = 502" by (simp add: reply_of_def)
  then show ?thesis using served by (cases gm) (simp add: http_failure_def should_retry_def Let_def)
qed

section \<open>Witnesses\<close>

definition demo_subscriber :: enterprise_subscription where
  "demo_subscriber =
     \<lparr>es_key_id = ''k1'', es_key_digest = license_digest id ''k'', es_tenant = ''acme'', es_tier = ''ENTERPRISE'',
      es_quota_per_minute = 60, es_expires_at = Aware 1000, es_features = [FEATURE_GRAPHRAG]\<rparr>"

definition demo_es :: es_registry where "demo_es = es_registry_of [demo_subscriber]"

definition demo_graph_world :: graph_world where
  "demo_graph_world =
     \<lparr>gw_sha = id, gw_mono = 0, gw_now = 0, gw_fresh_id = ''i'', gw_elapsed = ''1.00'', gw_read = (\<lambda>j. None),
      gw_route = demo_route\<rparr>"

definition demo_graph_call :: "string \<Rightarrow> string \<Rightarrow> (string \<times> json) list \<Rightarrow> graph_call" where
  "demo_graph_call path method m =
     \<lparr>gl_request = \<lparr>rq_path = path, rq_header = header_lookup [(LICENSE_HEADER, ''k'')]\<rparr>, gl_method = method,
      gl_body = JsonBody (JObj m)\<rparr>"

definition demo_broken_mutation :: "(string \<times> json) list" where
  "demo_broken_mutation =
     [(''event_id'', JStr ''evt-2''), (''asset_id'', JStr ''pump-1''), (''severity'', JStr ''CRITICAL''),
      (''telemetry_snapshot'', JObj [(''trigger'',
         JObj [(''sensor_id'', JStr ''crdt_collision_rate''), (''value'', JFloat (-1))])])]"

definition introspected :: "graph_content http_response \<Rightarrow> bool" where
  "introspected r = (case rs_content r of Some (SubscriptionContent v) \<Rightarrow> sv_tenant v = ''acme'' | _ \<Rightarrow> False)"

lemma demo_introspects:
  "introspected (fst (graph_serve demo_es demo_graph_world (demo_graph_call ''/v1/subscription'' ''GET'' [])
     (graph_startup 60 2)))"
  by code_simp

lemma demo_verified:
  assumes "rq_header (gl_request call) = header_lookup [(LICENSE_HEADER, ''k'')]"
  shows "\<exists>hs q. verify_request demo_es demo_graph_world (gl_request call) (graph_startup 60 2) =
    (Inr (demo_subscriber, hs), (graph_startup 60 2)\<lparr>ga_quota := q\<rparr>)"
proof -
  have "(case verify_enterprise_subscription id demo_es 0 0 (Some ''k'') None (window_quota_init 60) of
      (Inr (sub, hs), q) \<Rightarrow> sub = demo_subscriber | _ \<Rightarrow> False)"
    by code_simp
  then obtain hs q where v: "verify_enterprise_subscription id demo_es 0 0 (Some ''k'') None (window_quota_init 60) =
      (Inr (demo_subscriber, hs), q)"
    by (auto split: prod.splits sum.splits)
  have "header_lookup [(LICENSE_HEADER, ''k'')] LICENSE_HEADER = Some ''k''"
    "header_lookup [(LICENSE_HEADER, ''k'')] ''Authorization'' = None"
    by (simp_all add: header_lookup_def lower_names)
  then show ?thesis using assms v
    by (simp add: verify_request_def demo_graph_world_def graph_startup_def bearer_credentials_def partition_space_def)
qed

lemma demo_planned:
  "rs_status (fst (graph_serve demo_es demo_graph_world (demo_graph_call ''/v1/intercept'' ''POST'' demo_bridge_mutation)
     (graph_startup 60 2))) = 200"
proof -
  let ?call = "demo_graph_call ''/v1/intercept'' ''POST'' demo_bridge_mutation"
  obtain hs q where v: "verify_request demo_es demo_graph_world (gl_request ?call) (graph_startup 60 2) =
    (Inr (demo_subscriber, hs), (graph_startup 60 2)\<lparr>ga_quota := q\<rparr>)"
    using demo_verified [of ?call] by (auto simp: demo_graph_call_def)
  obtain pl c where p: "intercept_mutation demo_route ''acme'' demo_bridge_mutation \<lparr>cc_max = 2, cc_data = []\<rparr> = (Planned pl False, c)"
    using demo_route_plans
    by (cases "intercept_mutation demo_route ''acme'' demo_bridge_mutation \<lparr>cc_max = 2, cc_data = []\<rparr>")
      (auto simp: route_planned_def split: route_answer.splits)
  obtain s2 where "endpoint_answer demo_es demo_graph_world EpWorker ?call (graph_startup 60 2) =
      (Inr (rendered (PlanContent pl) [(''X-Idempotent-Replay'', ''false'')]), s2)"
    using v p
    by (auto simp: endpoint_answer_def is_licensed_def licensed_endpoint_def intercept_worker_def demo_graph_call_def
        demo_graph_world_def demo_subscriber_def graph_startup_def Let_def)
  then have "graph_routes service_routes demo_es demo_graph_world ?call (graph_startup 60 2) =
      (Inr (rendered (PlanContent pl) [(''X-Idempotent-Replay'', ''false'')]), s2)"
    by (simp add: graph_routes_def demo_graph_call_def worker_route_matched route_at_def)
  then show ?thesis
    by (simp add: graph_serve_def observe_duration_def correlate_def respond_def Let_def rendered_def)
qed

lemma demo_unassessed:
  "case mutation_to_graph_payload demo_bridge demo_broken_mutation of
     Inl e \<Rightarrow> False
   | Inr p \<Rightarrow> analyse_topology (\<lambda>x. []) p demo_graph_settings = Inl ValidationErrorExn"
  by code_simp

theorem graph_answers_own_tenant_witness:
  "\<exists>c. rs_content (fst (graph_serve demo_es demo_graph_world (demo_graph_call ''/v1/subscription'' ''GET'' [])
       (graph_startup 60 2))) = Some c \<and> content_tenant c = Some ''acme'' \<and>
     (\<exists>sub. es_lookup id demo_es (graph_key (gl_request (demo_graph_call ''/v1/subscription'' ''GET'' []))) = Some sub \<and>
        es_tenant sub = ''acme'')"
proof -
  let ?call = "demo_graph_call ''/v1/subscription'' ''GET'' []"
  obtain c where c: "rs_content (fst (graph_serve demo_es demo_graph_world ?call (graph_startup 60 2))) = Some c"
    "content_tenant c = Some ''acme''"
    using demo_introspects by (auto simp: introspected_def content_tenant_def split: option.splits graph_content.splits)
  obtain resp s' where r: "graph_serve demo_es demo_graph_world ?call (snd (graph_serve_all demo_es [] (graph_startup 60 2))) = (resp, s')"
    by fastforce
  then have "rs_content resp = Some c" using c(1) by simp
  then have "\<exists>sub. es_lookup (gw_sha demo_graph_world) demo_es (graph_key (gl_request ?call)) = Some sub \<and> es_tenant sub = ''acme''"
    using graph_answers_own_tenant [OF r _ c(2)] by blast
  then show ?thesis using c by (simp add: demo_graph_world_def)
qed

theorem enterprise_key_never_arrives_witness:
  "rs_status (fst (graph_serve demo_es demo_graph_world
     (worker_call default_settings ''k'' ''i'' (JObj demo_bridge_mutation)) (graph_startup 60 2))) = 401"
proof -
  have "str_lower (s_license_header default_settings) \<notin> {''x-openontology-license'', ''authorization''}"
    by (simp add: default_settings_def lower_names)
  from enterprise_key_never_arrives [OF this prod.collapse [symmetric]] show ?thesis by blast
qed

theorem worker_route_hides_quota_witness:
  "learn_quota default_settings (reply_of (\<lambda>p. JNull) (fst (graph_serve demo_es demo_graph_world
     (demo_graph_call ''/v1/intercept'' ''POST'' demo_bridge_mutation) (graph_startup 60 2)))) (rate_gate_init 60 1) =
   rate_gate_init 60 1"
proof -
  let ?call = "demo_graph_call ''/v1/intercept'' ''POST'' demo_bridge_mutation"
  have "gl_method ?call = ''POST''" "rq_path (gl_request ?call) = ''/v1/intercept''"
    by (simp_all add: demo_graph_call_def)
  from worker_route_hides_quota [OF prod.collapse [symmetric] this(1) demo_planned] this(2) show ?thesis by blast
qed

theorem graph_answers_identified_witness:
  "rs_status (fst (graph_serve demo_es demo_graph_world (demo_graph_call ''/v1/nowhere'' ''GET'' []) (graph_startup 60 2)))
     \<in> {200, 401, 402, 403, 404, 405, 422, 429, 500, 502}"
  using graph_answers_identified [OF prod.collapse [symmetric], of demo_es demo_graph_world
      "demo_graph_call ''/v1/nowhere'' ''GET'' []" "graph_startup 60 2"]
  by blast

theorem native_command_serves_worker_witness:
  "\<exists>p stored own s1. mutation_to_graph_payload demo_bridge demo_bridge_mutation = Inr p \<and>
     intercept_native demo_route demo_subscriber p (graph_startup 60 2) = (Inr (stored, own), s1) \<and>
     fst (intercept_worker demo_route demo_subscriber demo_bridge_mutation s1) =
       Inr (rendered (PlanContent (render demo_route stored)) [(''X-Idempotent-Replay'', ''true'')])"
proof -
  obtain p out where p: "mutation_to_graph_payload demo_bridge demo_bridge_mutation = Inr p"
    and out: "run_engine demo_agents demo_graph_settings p = Inr out"
    using demo_engine by blast
  have none: "fst (command_cache_get (es_tenant demo_subscriber, gp_event_id p) (ga_cache (graph_startup 60 2))) = None"
    by (simp add: graph_startup_def command_cache_get_def)
  obtain stored own s1 where n: "intercept_native demo_route demo_subscriber p (graph_startup 60 2) = (Inr (stored, own), s1)"
    using out by (auto simp: intercept_native_def Let_def graph_startup_def command_cache_get_def demo_route_def)
  have event: "j_get demo_bridge_mutation ''event_id'' = JStr ''evt-1''" by (simp add: demo_bridge_mutation_def j_get_def)
  moreover have "str_strip ''evt-1'' = ''evt-1''" by code_simp
  ultimately have e: "gp_event_id p = ''evt-1''" using projection_event [OF p] by auto
  have "fst (intercept_worker demo_route demo_subscriber demo_bridge_mutation
      (s1\<lparr>ga_cache := serve_all [] (ga_cache s1)\<rparr>)) =
    Inr (rendered (PlanContent (render demo_route stored)) [(''X-Idempotent-Replay'', ''true'')])"
    by (rule native_command_serves_worker [OF none n]) (simp_all add: event e graph_startup_def)
  then show ?thesis using p n by (intro exI [of _ p] exI [of _ stored] exI [of _ own] exI [of _ s1]) (simp add: serve_all_def)
qed

theorem kernel_refusal_is_retried_witness:
  "rs_status (fst (graph_serve demo_es demo_graph_world
     (demo_graph_call ''/v1/intercept'' ''POST'' demo_broken_mutation) (graph_startup 60 2))) = 502"
proof -
  let ?call = "demo_graph_call ''/v1/intercept'' ''POST'' demo_broken_mutation"
  obtain hs q where v: "verify_request demo_es demo_graph_world (gl_request ?call) (graph_startup 60 2) =
    (Inr (demo_subscriber, hs), (graph_startup 60 2)\<lparr>ga_quota := q\<rparr>)"
    using demo_verified [of ?call] by (auto simp: demo_graph_call_def)
  obtain p where p: "mutation_to_graph_payload demo_bridge demo_broken_mutation = Inr p"
    "analyse_topology (\<lambda>x. []) p demo_graph_settings = Inl ValidationErrorExn"
    using demo_unassessed by (auto split: sum.splits)
  have route: "re_bridge (gw_route demo_graph_world) = demo_bridge" "re_settings (gw_route demo_graph_world) = demo_graph_settings"
    "ag_format (re_agents (gw_route demo_graph_world)) = (\<lambda>x. [])"
    by (simp_all add: demo_graph_world_def demo_route_def demo_agents_def)
  have none: "fst (command_cache_get k (ga_cache (graph_startup 60 2))) = None" for k
    by (simp add: graph_startup_def command_cache_get_def)
  have call: "rq_path (gl_request ?call) = ''/v1/intercept''" "gl_method ?call = ''POST''"
    "gl_body ?call = JsonBody (JObj demo_broken_mutation)"
    by (simp_all add: demo_graph_call_def)
  show ?thesis
    using kernel_refusal_is_retried [OF v call none, of p, unfolded route, OF p prod.collapse [symmetric]] by blast
qed

end
