(* ===== verification/Registry_Files.thy ===== *)
theory Registry_Files
  imports License_Gate
begin

text \<open>
  The loading of a billing export by the two interceptors (LicenseRegistry.from_file of app/security.py
  and SubscriptionRegistry.from_json of graphrag_interceptor.py), and the start of the GraphRAG service,
  which decides what export it reads (get_settings, create_app and build_service).

  An export is a list of entries as the JSON decoder gives them; a field that is absent is None.  The
  fields that the readers copy are text here, as they are in every export the services share.
\<close>

section \<open>Entries\<close>

record export_entry =
  xe_key_id :: "string option"
  xe_key :: "string option"
  xe_key_digest :: "string option"
  xe_tenant :: "string option"
  xe_tier :: "string option"
  xe_plan :: "string option"
  xe_quota_per_minute :: "json option"
  xe_expires_at :: "string option"
  xe_features :: "string list option"

text \<open>\<open>entry[name]\<close>, and \<open>entry.get(name) or other\<close>.\<close>

definition item :: "'a option \<Rightarrow> 'a raises" where
  "item v = (case v of Some x \<Rightarrow> Inr x | None \<Rightarrow> Inl KeyErrorExn)"

definition get_or :: "string option \<Rightarrow> string raises \<Rightarrow> string raises" where
  "get_or v other = (case v of Some x \<Rightarrow> if x \<noteq> [] then Inr x else other | None \<Rightarrow> other)"

definition parsed_expiry :: "(string \<Rightarrow> py_datetime option) \<Rightarrow> export_entry \<Rightarrow> py_datetime raises" where
  "parsed_expiry fromisoformat e =
     bind_r (item (xe_expires_at e)) (\<lambda>t. case fromisoformat t of Some d \<Rightarrow> Inr d | None \<Rightarrow> Inl ValueError)"

section \<open>The two readers\<close>

definition load_license ::
    "(string \<Rightarrow> string) \<Rightarrow> (string \<Rightarrow> py_datetime option) \<Rightarrow> export_entry \<Rightarrow> license raises" where
  "load_license sha fromisoformat e =
     bind_r (get_or (xe_key_digest e) (bind_r (item (xe_key e)) (\<lambda>k. Inr (license_key_digest sha k)))) (\<lambda>digest.
     bind_r (item (xe_key_id e)) (\<lambda>key_id.
     bind_r (item (xe_tenant e)) (\<lambda>tenant.
     bind_r (get_or (xe_tier e) (item (xe_plan e))) (\<lambda>tier.
     bind_r (bind_r (item (xe_quota_per_minute e)) py_int) (\<lambda>quota.
     bind_r (parsed_expiry fromisoformat e) (\<lambda>expires.
       Inr \<lparr>lic_key_id = key_id, lic_key_digest = digest, lic_tenant = tenant, lic_tier = normalise_tier tier,
            lic_quota_per_minute = quota, lic_expires_at = expires,
            lic_features = (case xe_features e of Some fs \<Rightarrow> fs | None \<Rightarrow> [])\<rparr>))))))"

definition licenses_from_file ::
    "(string \<Rightarrow> string) \<Rightarrow> (string \<Rightarrow> py_datetime option) \<Rightarrow> export_entry list \<Rightarrow> license_registry raises" where
  "licenses_from_file sha fromisoformat entries =
     bind_r (map_r (load_license sha fromisoformat) entries) (\<lambda>ls. Inr (license_registry_of ls))"

definition load_enterprise ::
    "(string \<Rightarrow> string) \<Rightarrow> (string \<Rightarrow> py_datetime option) \<Rightarrow> export_entry \<Rightarrow> enterprise_subscription raises" where
  "load_enterprise sha fromisoformat e =
     bind_r (item (xe_key_id e)) (\<lambda>key_id.
     bind_r (get_or (xe_key_digest e) (bind_r (item (xe_key e)) (\<lambda>k. Inr (license_digest sha k)))) (\<lambda>digest.
     bind_r (item (xe_tenant e)) (\<lambda>tenant.
     bind_r (item (xe_tier e)) (\<lambda>tier.
     bind_r (bind_r (item (xe_quota_per_minute e)) py_int) (\<lambda>quota.
     bind_r (parsed_expiry fromisoformat e) (\<lambda>expires.
       Inr \<lparr>es_key_id = key_id, es_key_digest = digest, es_tenant = tenant, es_tier = tier,
            es_quota_per_minute = quota, es_expires_at = expires,
            es_features = (case xe_features e of Some fs \<Rightarrow> fs | None \<Rightarrow> [])\<rparr>))))))"

text \<open>The setting holds the export itself, recognised by its first character, or the path of a file.\<close>

definition enterprise_from_json ::
    "(string \<Rightarrow> string) \<Rightarrow> (string \<Rightarrow> py_datetime option) \<Rightarrow> (string \<Rightarrow> string raises) \<Rightarrow> (string \<Rightarrow> export_entry list raises)
      \<Rightarrow> string \<Rightarrow> es_registry raises" where
  "enterprise_from_json sha fromisoformat read_text loads raw =
     bind_r (if str_startswith (str_strip raw) ''['' then Inr (str_strip raw) else read_text (str_strip raw)) (\<lambda>contents.
     bind_r (loads contents) (\<lambda>entries.
     bind_r (map_r (load_enterprise sha fromisoformat) entries) (\<lambda>subs. Inr (es_registry_of subs))))"

section \<open>The start of the GraphRAG service\<close>

text \<open>
  The process: its environment, and the settings singleton with the one field that matters here.  The
  settings are read from the environment the first time they are asked for.  The environment is all
  that the settings look at: a variable of the .env file counts as set, and a name stands for every
  spelling of it that differs in case only.
\<close>

type_synonym environ = "(string, string) odict"

record process =
  pr_environ :: environ
  pr_settings :: "string option option"

definition REGISTRY_VARIABLE :: string where "REGISTRY_VARIABLE = ''OO_GRAPHRAG_LICENSE_REGISTRY_JSON''"

definition SHARED_VARIABLE :: string where "SHARED_VARIABLE = ''OO_LICENSE_REGISTRY_PATH''"

definition get_graph_settings :: "process \<Rightarrow> string option \<times> process" where
  "get_graph_settings p =
     (case pr_settings p of
        Some s \<Rightarrow> (s, p)
      | None \<Rightarrow>
          (let s = map_of (pr_environ p) REGISTRY_VARIABLE in (s, p\<lparr>pr_settings := Some s\<rparr>)))"

datatype registry_source = DemoRegistry | ExportRegistry string

definition create_graph_app :: "process \<Rightarrow> registry_source \<times> process" where
  "create_graph_app p =
     (let (raw, p') = get_graph_settings p in
      (case raw of Some r \<Rightarrow> if r \<noteq> [] then ExportRegistry r else DemoRegistry | None \<Rightarrow> DemoRegistry, p'))"

text \<open>Importing the module creates an application; then the service reads its settings, then it edits the environment.\<close>

definition import_graph_module :: "process \<Rightarrow> process" where
  "import_graph_module p = snd (create_graph_app p)"

definition share_registry :: "process \<Rightarrow> process" where
  "share_registry p =
     (if (case map_of (pr_environ p) REGISTRY_VARIABLE of Some v \<Rightarrow> v \<noteq> [] | None \<Rightarrow> False) then p
      else (case map_of (pr_environ p) SHARED_VARIABLE of
              Some shared \<Rightarrow>
                if shared \<noteq> [] then p\<lparr>pr_environ := AList.update REGISTRY_VARIABLE shared (pr_environ p)\<rparr> else p
            | None \<Rightarrow> p))"

definition build_service :: "process \<Rightarrow> registry_source \<times> process" where
  "build_service p = create_graph_app (share_registry (snd (get_graph_settings p)))"

definition start_service :: "environ \<Rightarrow> registry_source \<times> process" where
  "start_service env = build_service (import_graph_module \<lparr>pr_environ = env, pr_settings = None\<rparr>)"

section \<open>Lemmas\<close>

definition enterprise_of :: "license \<Rightarrow> string \<Rightarrow> enterprise_subscription" where
  "enterprise_of l tier =
     \<lparr>es_key_id = lic_key_id l, es_key_digest = lic_key_digest l, es_tenant = lic_tenant l, es_tier = tier,
      es_quota_per_minute = lic_quota_per_minute l, es_expires_at = lic_expires_at l, es_features = lic_features l\<rparr>"

lemma load_both:
  assumes "load_license sha f e = Inr l"
  shows "load_enterprise sha f e = (case xe_tier e of None \<Rightarrow> Inl KeyErrorExn | Some tier \<Rightarrow> Inr (enterprise_of l tier))"
  using assms
  by (auto simp: load_license_def load_enterprise_def bind_r_Inr_iff item_def license_key_digest_def license_digest_def
      enterprise_of_def split: option.splits)

lemma load_both_all:
  assumes "map_r (load_license sha f) es = Inr ls"
  shows "map_r (load_enterprise sha f) es =
    (if \<exists>e \<in> set es. xe_tier e = None then Inl KeyErrorExn
     else Inr (map (\<lambda>(l, e). enterprise_of l (the (xe_tier e))) (zip ls es)))"
  using assms
proof (induction es arbitrary: ls)
  case (Cons e es)
  obtain l ls' where l: "load_license sha f e = Inr l" "map_r (load_license sha f) es = Inr ls'" "ls = l # ls'"
    using Cons.prems by (auto simp: bind_r_Inr_iff)
  show ?case
    using Cons.IH [OF l(2)] load_both [OF l(1)] l(3) by (auto split: option.splits)
qed simp

lemma folded_lookup: "map_of (fold (\<lambda>x d. AList.update (k x) x d) xs d0) = fold (\<lambda>x m. m(k x \<mapsto> x)) xs (map_of d0)"
  by (induction xs arbitrary: d0) (simp_all add: update_conv')

text \<open>Two registries of entries that agree pairwise answer alike.\<close>

lemma folded_agree:
  assumes "list_all2 (\<lambda>l s. s = enterprise_of l (es_tier s)) ls ss"
    and "\<forall>d. map_option (\<lambda>l. enterprise_of l []) (m d) = map_option (\<lambda>s. s\<lparr>es_tier := []\<rparr>) (n d)"
  shows "map_option (\<lambda>l. enterprise_of l []) (fold (\<lambda>l m. m(lic_key_digest l \<mapsto> l)) ls m d) =
    map_option (\<lambda>s. s\<lparr>es_tier := []\<rparr>) (fold (\<lambda>s m. m(es_key_digest s \<mapsto> s)) ss n d)"
  using assms
proof (induction arbitrary: m n rule: list_all2_induct)
  case (Cons l ls s ss)
  have "es_key_digest s = lic_key_digest l" "s\<lparr>es_tier := []\<rparr> = enterprise_of l []"
    using Cons.hyps(1) by (metis enterprise_of_def enterprise_subscription.select_convs(2),
        metis enterprise_of_def enterprise_subscription.update_convs(4))
  then have "\<forall>d. map_option (\<lambda>l. enterprise_of l []) ((m(lic_key_digest l \<mapsto> l)) d) =
      map_option (\<lambda>s. s\<lparr>es_tier := []\<rparr>) ((n(es_key_digest s \<mapsto> s)) d)"
    using Cons.prems by simp
  then show ?case by (simp only: fold_simps) (rule Cons.IH)
qed simp

lemma lookup_unfold:
  assumes "\<forall>d l. map_of reg d = Some l \<longrightarrow> lic_key_digest l = d"
  shows "license_lookup sha reg k = map_of reg (license_key_digest sha k)"
  using assms by (auto simp: license_lookup_def Let_def split: option.splits)

lemma es_lookup_unfold:
  assumes "\<forall>d l. map_of reg d = Some l \<longrightarrow> es_key_digest l = d"
  shows "es_lookup sha reg k = map_of reg (license_digest sha k)"
  using assms by (auto simp: es_lookup_def Let_def split: option.splits)

lemma folded_keys:
  "\<forall>d x. m d = Some x \<longrightarrow> k x = d \<Longrightarrow> fold (\<lambda>x m. m(k x \<mapsto> x)) xs m d = Some x \<Longrightarrow> k x = d"
proof (induction xs arbitrary: m)
  case (Cons a xs)
  show ?case
    by (rule Cons.IH [of "m(k a \<mapsto> a)"]) (use Cons.prems in auto)
qed simp

section \<open>Properties\<close>

text \<open>
  One export, two readers.  Where the standard interceptor loads an export, the GraphRAG interceptor
  loads it too if every entry names its level as tier, and then both know the same keys, with the same
  identity, tenant, quota, expiry and features; an entry that spells it plan, which the standard reader
  accepts, stops the GraphRAG reader with a KeyError.
\<close>
theorem export_readers_agree:
  assumes "licenses_from_file sha f entries = Inr reg"
  shows "if \<exists>e \<in> set entries. xe_tier e = None
    then map_r (load_enterprise sha f) entries = Inl KeyErrorExn
    else \<exists>subs. map_r (load_enterprise sha f) entries = Inr subs \<and>
      (\<forall>key. map_option (\<lambda>l. enterprise_of l []) (license_lookup sha reg key) =
         map_option (\<lambda>s. s\<lparr>es_tier := []\<rparr>) (es_lookup sha (es_registry_of subs) key))"
proof -
  obtain ls where ls: "map_r (load_license sha f) entries = Inr ls" "reg = license_registry_of ls"
    using assms by (auto simp: licenses_from_file_def bind_r_Inr_iff)
  note both = load_both_all [OF ls(1)]
  show ?thesis
  proof (cases "\<exists>e \<in> set entries. xe_tier e = None")
    case True
    then show ?thesis using both by simp
  next
    case False
    define subs where "subs = map (\<lambda>(l, e). enterprise_of l (the (xe_tier e))) (zip ls entries)"
    have "length ls = length entries" using map_r_Inr_length [OF ls(1)] .
    then have "list_all2 (\<lambda>l s. s = enterprise_of l (es_tier s)) ls subs"
      by (auto simp: subs_def list_all2_conv_all_nth enterprise_of_def)
    then have agree: "map_option (\<lambda>l. enterprise_of l []) (map_of reg d) =
        map_option (\<lambda>s. s\<lparr>es_tier := []\<rparr>) (map_of (es_registry_of subs) d)" for d
      using folded_agree [of ls subs Map.empty Map.empty d]
      by (simp add: ls(2) license_registry_of_def es_registry_of_def folded_lookup)
    have "license_lookup sha reg key = map_of reg (sha (str_strip key))" for key
      by (subst lookup_unfold)
        (auto simp: ls(2) license_registry_of_def folded_lookup license_key_digest_def
          dest: folded_keys [of Map.empty lic_key_digest, simplified])
    moreover have "es_lookup sha (es_registry_of subs) key = map_of (es_registry_of subs) (sha (str_strip key))" for key
      by (subst es_lookup_unfold)
        (auto simp: es_registry_of_def folded_lookup license_digest_def
          dest: folded_keys [of Map.empty es_key_digest, simplified])
    ultimately show ?thesis using both False agree subs_def by auto
  qed
qed

text \<open>
  C40: The shared export is never read.  Whatever path the shared variable names, the GraphRAG service
  that has no variable of its own starts with the built-in demonstration keys: the settings are read,
  at the latest when the module is imported, before the service copies the shared path into the
  environment.
\<close>
theorem shared_export_ignored:
  assumes "map_of env REGISTRY_VARIABLE \<in> {None, Some []}"
  shows "fst (start_service env) = DemoRegistry"
  using assms
  by (auto simp: start_service_def import_graph_module_def build_service_def create_graph_app_def
      get_graph_settings_def share_registry_def Let_def split: option.splits)

section \<open>Witnesses\<close>

definition demo_entry :: "string option \<Rightarrow> string option \<Rightarrow> export_entry" where
  "demo_entry tier plan =
     \<lparr>xe_key_id = Some ''k1'', xe_key = Some ''k'', xe_key_digest = None, xe_tenant = Some ''acme'', xe_tier = tier,
      xe_plan = plan, xe_quota_per_minute = Some (JInt 60), xe_expires_at = Some ''2030'', xe_features = None\<rparr>"

theorem export_readers_agree_witness:
  "map_r (load_enterprise id (\<lambda>t. Some (Aware 1000))) [demo_entry None (Some ''ENTERPRISE'')] = Inl KeyErrorExn \<and>
   (\<exists>subs. map_r (load_enterprise id (\<lambda>t. Some (Aware 1000))) [demo_entry (Some ''ENTERPRISE'') None] = Inr subs)"
proof -
  have "\<exists>reg. licenses_from_file id (\<lambda>t. Some (Aware 1000)) [demo_entry None (Some ''ENTERPRISE'')] = Inr reg"
    "\<exists>reg. licenses_from_file id (\<lambda>t. Some (Aware 1000)) [demo_entry (Some ''ENTERPRISE'') None] = Inr reg"
    by (simp_all add: licenses_from_file_def load_license_def demo_entry_def get_or_def item_def parsed_expiry_def)
  then show ?thesis
    using export_readers_agree [of id "\<lambda>t. Some (Aware 1000)" "[demo_entry None (Some ''ENTERPRISE'')]"]
      export_readers_agree [of id "\<lambda>t. Some (Aware 1000)" "[demo_entry (Some ''ENTERPRISE'') None]"]
    by (auto simp: demo_entry_def)
qed

theorem shared_export_ignored_witness:
  "fst (start_service [(SHARED_VARIABLE, ''/etc/openontology/licences.json'')]) = DemoRegistry"
  by (rule shared_export_ignored) (simp add: SHARED_VARIABLE_def REGISTRY_VARIABLE_def)

end
