(* ===== verification/Agent_Frames.thy ===== *)
theory Agent_Frames
  imports Rule_Agents Bridge
begin

text \<open>
  What the two agents of the GraphRAG interceptor are told and how they answer: the system prompts, the
  tool schemas, the briefings with the renderings they are made of, the answer models as they are read
  from JSON, the offline client as a reader of its briefing, the live client, and the choice between the
  two (graphrag_interceptor.py, sections 4, 4b and the two agent methods of MultiAgentGraphEngine).

  A briefing is a JSON value.  The float of a telemetry reading may be infinite or not a number, which
  JSON numbers cannot be: how such a float stands in a briefing is an argument, with the law that it is
  read back as it was.  So are the text of a time stamp, the members the payload carries only for the
  briefing, the length of a JSON text and the wire exchange of the live client.
\<close>

section \<open>Reading a JSON value\<close>

text \<open>
  Readers for the member of an object and for its type.  The coercions of the validation library (a number
  in a string, say) are outside: a value of another type is refused.
\<close>

fun as_str :: "json \<Rightarrow> string raises" where
  "as_str (JStr s) = Inr s"
| "as_str _ = Inl TypeErrorExn"

fun as_bool :: "json \<Rightarrow> bool raises" where
  "as_bool (JBool b) = Inr b"
| "as_bool _ = Inl TypeErrorExn"

text \<open>A float without a fraction counts as an integer, and an integer as a float.\<close>

definition whole :: "rat \<Rightarrow> bool" where
  "whole q \<longleftrightarrow> q = of_int \<lfloor>q\<rfloor>"

fun as_int :: "json \<Rightarrow> int raises" where
  "as_int (JInt i) = Inr i"
| "as_int (JFloat q) = (if whole q then Inr \<lfloor>q\<rfloor> else Inl TypeErrorExn)"
| "as_int _ = Inl TypeErrorExn"

fun as_rat :: "json \<Rightarrow> rat raises" where
  "as_rat (JFloat q) = Inr q"
| "as_rat (JInt i) = Inr (of_int i)"
| "as_rat _ = Inl TypeErrorExn"

fun as_list :: "(json \<Rightarrow> 'a raises) \<Rightarrow> json \<Rightarrow> 'a list raises" where
  "as_list rd (JList xs) = map_r rd xs"
| "as_list rd _ = Inl TypeErrorExn"

fun as_optional :: "(json \<Rightarrow> 'a raises) \<Rightarrow> json \<Rightarrow> 'a option raises" where
  "as_optional rd JNull = Inr None"
| "as_optional rd j = bind_r (rd j) (\<lambda>v. Inr (Some v))"

text \<open>An enumeration is read by value: \<open>FaultClassification(text)\<close> raises ValueError.\<close>

definition as_enum :: "('a \<Rightarrow> string) \<Rightarrow> 'a list \<Rightarrow> json \<Rightarrow> 'a raises" where
  "as_enum value_of members j =
     bind_r (as_str j) (\<lambda>s. case find (\<lambda>m. value_of m = s) members of Some m \<Rightarrow> Inr m | None \<Rightarrow> Inl ValueError)"

definition member :: "(string \<times> json) list \<Rightarrow> string \<Rightarrow> (json \<Rightarrow> 'a raises) \<Rightarrow> 'a raises" where
  "member kvs k rd = bind_r (j_item kvs k) rd"

text \<open>A member with a default, and a model that forbids other members.\<close>

definition member_or :: "(string \<times> json) list \<Rightarrow> string \<Rightarrow> 'a \<Rightarrow> (json \<Rightarrow> 'a raises) \<Rightarrow> 'a raises" where
  "member_or kvs k fallback rd = (case map_of kvs k of None \<Rightarrow> Inr fallback | Some j \<Rightarrow> rd j)"

definition as_model :: "string list \<Rightarrow> ((string \<times> json) list \<Rightarrow> 'a raises) \<Rightarrow> json \<Rightarrow> 'a raises" where
  "as_model names rd j =
     (case j of
        JObj kvs \<Rightarrow> if fst ` set kvs \<subseteq> set names then rd kvs else Inl ValidationErrorExn
      | _ \<Rightarrow> Inl ValidationErrorExn)"

section \<open>Enumerations\<close>

fun tie_value :: "tie_breaker \<Rightarrow> string" where
  "tie_value RemovedWins = ''REMOVED_WINS''"
| "tie_value AddWins = ''ADD_WINS''"
| "tie_value NotRequired = ''NOT_REQUIRED''"

definition FAULTS :: "fault_class list" where
  "FAULTS = [LocalizedComponent, InheritedCascade, Indeterminate, NoFaultDetected]"

definition ACTIONS :: "graph_action list" where
  "ACTIONS = [IsolateValve, EmergencyShutdown, DegradeThrottle]"

definition PRIORITIES :: "graph_priority list" where
  "PRIORITIES = [GpCritical, GpHigh, GpRoutine]"

definition ACTORS :: "step_actor list" where
  "ACTORS = [HumanTechnician, HumanSupervisor, RoboticActuator, ControlSystem]"

definition PRESENCES :: "presence list" where
  "PRESENCES = [Live, Tombstoned, Unobserved]"

definition TIE_BREAKERS :: "tie_breaker list" where
  "TIE_BREAKERS = [RemovedWins, AddWins, NotRequired]"

definition BANDS :: "band list" where
  "BANDS = [BandNominal, BandWarn, BandCritical, BandHard, BandUnknown]"

abbreviation "as_fault \<equiv> as_enum fault_text FAULTS"
abbreviation "as_action \<equiv> as_enum graph_action_value ACTIONS"
abbreviation "as_priority \<equiv> as_enum graph_priority_value PRIORITIES"
abbreviation "as_actor \<equiv> as_enum actor_value ACTORS"
abbreviation "as_presence \<equiv> as_enum presence_value PRESENCES"
abbreviation "as_tie \<equiv> as_enum tie_value TIE_BREAKERS"
abbreviation "as_band \<equiv> as_enum band_value BANDS"

section \<open>What the frames take from outside\<close>

record frame_lib =
  fl_number :: "pyfloat \<Rightarrow> json"
  fl_unnumber :: "json \<Rightarrow> pyfloat option"
  fl_format :: "pyfloat \<Rightarrow> string"
  fl_isoformat :: "rat \<Rightarrow> string"
  fl_origin_replica :: "string option"
  fl_last_synced :: "replica_observation \<Rightarrow> json"
  fl_text_length :: "json \<Rightarrow> nat"

definition as_float :: "frame_lib \<Rightarrow> json \<Rightarrow> pyfloat raises" where
  "as_float lib j =
     (case j of JInt i \<Rightarrow> Inr (Fin (of_int i))
      | _ \<Rightarrow> (case fl_unnumber lib j of Some x \<Rightarrow> Inr x | None \<Rightarrow> Inl TypeErrorExn))"

definition number_laws :: "frame_lib \<Rightarrow> bool" where
  "number_laws lib \<longleftrightarrow> (\<forall>q. fl_number lib (Fin q) = JFloat q) \<and> (\<forall>x. as_float lib (fl_number lib x) = Inr x)"

section \<open>The answer models as JSON\<close>

abbreviation "jstrs xs \<equiv> JList (map JStr xs)"

definition opt_json :: "string option \<Rightarrow> json" where
  "opt_json v = (case v of None \<Rightarrow> JNull | Some s \<Rightarrow> JStr s)"

definition assessment_json :: "frame_lib \<Rightarrow> crdt_assessment \<Rightarrow> json" where
  "assessment_json lib a =
     JObj [(''presence'', JStr (presence_value (ca_presence a))),
           (''tie_breaker_rule'', JStr (tie_value (ca_tie_breaker a))),
           (''contested'', JBool (ca_contested a)),
           (''highest_add_stamp'', JInt (ca_highest_add a)),
           (''highest_remove_stamp'', JInt (ca_highest_remove a)),
           (''diverging_replicas'', jstrs (ca_diverging a)),
           (''collision_rate'', fl_number lib (ca_collision_rate a)),
           (''graph_trust'', JFloat (ca_graph_trust a)),
           (''explanation'', JStr (ca_explanation a))]"

definition read_assessment :: "frame_lib \<Rightarrow> json \<Rightarrow> crdt_assessment raises" where
  "read_assessment lib =
     as_model [''presence'', ''tie_breaker_rule'', ''contested'', ''highest_add_stamp'', ''highest_remove_stamp'',
               ''diverging_replicas'', ''collision_rate'', ''graph_trust'', ''explanation'']
     (\<lambda>kvs.
       bind_r (member kvs ''presence'' as_presence) (\<lambda>presence.
       bind_r (member kvs ''tie_breaker_rule'' as_tie) (\<lambda>rule.
       bind_r (member kvs ''contested'' as_bool) (\<lambda>contested.
       bind_r (member kvs ''highest_add_stamp'' as_int) (\<lambda>add.
       bind_r (member kvs ''highest_remove_stamp'' as_int) (\<lambda>removed.
       bind_r (member_or kvs ''diverging_replicas'' [] (as_list as_str)) (\<lambda>diverging.
       bind_r (member_or kvs ''collision_rate'' (Fin 0) (as_float lib)) (\<lambda>rate.
       bind_r (member kvs ''graph_trust'' as_rat) (\<lambda>trust.
       bind_r (member kvs ''explanation'' as_str) (\<lambda>explanation.
         Inr \<lparr>ca_presence = presence, ca_tie_breaker = rule, ca_contested = contested, ca_highest_add = add,
              ca_highest_remove = removed, ca_diverging = diverging, ca_collision_rate = rate,
              ca_graph_trust = trust, ca_explanation = explanation\<rparr>))))))))))"

definition verdict_json :: "frame_lib \<Rightarrow> isolation_verdict \<Rightarrow> json" where
  "verdict_json lib v =
     JObj [(''fault_classification'', JStr (fault_text (iv_fault v))),
           (''root_cause_node'', JStr (iv_root_cause v)),
           (''root_cause_rationale'', JStr (iv_rationale v)),
           (''cascade_path'', jstrs (iv_cascade_path v)),
           (''localized_components'', jstrs (iv_localized v)),
           (''blast_radius'', jstrs (iv_blast_radius v)),
           (''severity_band'', JStr (band_value (iv_severity v))),
           (''crdt_assessment'', assessment_json lib (iv_crdt v)),
           (''containment_hint'', JStr (graph_action_value (iv_containment v))),
           (''irreversible_permitted'', JBool (iv_irreversible_permitted v)),
           (''confidence'', JFloat (iv_confidence v)),
           (''evidence'', jstrs (iv_evidence v))]"

definition read_verdict :: "frame_lib \<Rightarrow> json \<Rightarrow> isolation_verdict raises" where
  "read_verdict lib =
     as_model [''fault_classification'', ''root_cause_node'', ''root_cause_rationale'', ''cascade_path'',
               ''localized_components'', ''blast_radius'', ''severity_band'', ''crdt_assessment'',
               ''containment_hint'', ''irreversible_permitted'', ''confidence'', ''evidence'']
     (\<lambda>kvs.
       bind_r (member kvs ''fault_classification'' as_fault) (\<lambda>fault.
       bind_r (member kvs ''root_cause_node'' as_str) (\<lambda>cause.
       bind_r (member kvs ''root_cause_rationale'' as_str) (\<lambda>rationale.
       bind_r (member_or kvs ''cascade_path'' [] (as_list as_str)) (\<lambda>path.
       bind_r (member_or kvs ''localized_components'' [] (as_list as_str)) (\<lambda>localized.
       bind_r (member_or kvs ''blast_radius'' [] (as_list as_str)) (\<lambda>blast.
       bind_r (member kvs ''severity_band'' as_band) (\<lambda>severity.
       bind_r (member kvs ''crdt_assessment'' (read_assessment lib)) (\<lambda>crdt.
       bind_r (member kvs ''containment_hint'' as_action) (\<lambda>hint.
       bind_r (member kvs ''irreversible_permitted'' as_bool) (\<lambda>permitted.
       bind_r (member kvs ''confidence'' as_rat) (\<lambda>confidence.
       bind_r (member_or kvs ''evidence'' [] (as_list as_str)) (\<lambda>evidence.
         Inr \<lparr>iv_fault = fault, iv_root_cause = cause, iv_rationale = rationale, iv_cascade_path = path,
              iv_localized = localized, iv_blast_radius = blast, iv_severity = severity, iv_crdt = crdt,
              iv_containment = hint, iv_irreversible_permitted = permitted, iv_confidence = confidence,
              iv_evidence = evidence\<rparr>)))))))))))))"

definition step_json :: "isolation_step \<Rightarrow> json" where
  "step_json t =
     JObj [(''sequence'', JInt (st_sequence t)),
           (''actor'', JStr (actor_value (st_actor t))),
           (''instruction'', JStr (st_instruction t)),
           (''target_component'', JStr (st_target t)),
           (''verification'', JStr (st_verification t)),
           (''reversible'', JBool (st_reversible t)),
           (''estimated_seconds'', JInt (st_seconds t)),
           (''manual_reference'', opt_json (st_manual t))]"

definition read_step :: "json \<Rightarrow> isolation_step raises" where
  "read_step =
     as_model [''sequence'', ''actor'', ''instruction'', ''target_component'', ''verification'', ''reversible'',
               ''estimated_seconds'', ''manual_reference'']
     (\<lambda>kvs.
       bind_r (member kvs ''sequence'' as_int) (\<lambda>sequence.
       bind_r (member kvs ''actor'' as_actor) (\<lambda>actor.
       bind_r (member kvs ''instruction'' as_str) (\<lambda>instruction.
       bind_r (member kvs ''target_component'' as_str) (\<lambda>target.
       bind_r (member kvs ''verification'' as_str) (\<lambda>verification.
       bind_r (member_or kvs ''reversible'' True as_bool) (\<lambda>reversible.
       bind_r (member_or kvs ''estimated_seconds'' 120 as_int) (\<lambda>secs.
       bind_r (member_or kvs ''manual_reference'' None (as_optional as_str)) (\<lambda>manual.
         Inr \<lparr>st_sequence = sequence, st_actor = actor, st_instruction = instruction, st_target = target,
              st_verification = verification, st_reversible = reversible, st_seconds = secs,
              st_manual = manual\<rparr>)))))))))"

definition plan_json :: "strategic_plan \<Rightarrow> json" where
  "plan_json p =
     JObj [(''action_type'', JStr (graph_action_value (sp_action p))),
           (''target_asset_id'', JStr (sp_target p)),
           (''execution_priority'', JStr (graph_priority_value (sp_priority p))),
           (''isolation_steps'', JList (map step_json (sp_steps p))),
           (''blast_radius_protection'', jstrs (sp_protection p)),
           (''requires_human_authorization'', JBool (sp_authorization p)),
           (''rationale'', JStr (sp_rationale p)),
           (''manual_references'', jstrs (sp_references p)),
           (''confidence'', JFloat (sp_confidence p))]"

definition read_plan :: "json \<Rightarrow> strategic_plan raises" where
  "read_plan =
     as_model [''action_type'', ''target_asset_id'', ''execution_priority'', ''isolation_steps'',
               ''blast_radius_protection'', ''requires_human_authorization'', ''rationale'', ''manual_references'',
               ''confidence'']
     (\<lambda>kvs.
       bind_r (member kvs ''action_type'' as_action) (\<lambda>action.
       bind_r (member kvs ''target_asset_id'' as_str) (\<lambda>target.
       bind_r (member kvs ''execution_priority'' as_priority) (\<lambda>priority.
       bind_r (member kvs ''isolation_steps'' (as_list read_step)) (\<lambda>steps.
       bind_r (member_or kvs ''blast_radius_protection'' [] (as_list as_str)) (\<lambda>protection.
       bind_r (member_or kvs ''requires_human_authorization'' True as_bool) (\<lambda>authorization.
       bind_r (member kvs ''rationale'' as_str) (\<lambda>rationale.
       bind_r (member_or kvs ''manual_references'' [] (as_list as_str)) (\<lambda>references.
       bind_r (member kvs ''confidence'' as_rat) (\<lambda>confidence.
         Inr \<lparr>sp_action = action, sp_target = target, sp_priority = priority, sp_steps = steps,
              sp_protection = protection, sp_authorization = authorization, sp_rationale = rationale,
              sp_references = references, sp_confidence = confidence\<rparr>))))))))))"

text \<open>\<open>model.model_validate(payload)\<close>, as far as the shape goes.\<close>

definition parsed :: "(json \<Rightarrow> 'a raises) \<Rightarrow> json \<Rightarrow> 'a option" where
  "parsed rd j = (case rd j of Inr a \<Rightarrow> Some a | Inl e \<Rightarrow> None)"

section \<open>The system prompts\<close>

text \<open>Lines ended by a line feed; the dash is written in UTF-8.\<close>

definition text_lines :: "string list \<Rightarrow> string" where
  "text_lines ls = concat (map (\<lambda>l. l @ [CHR 0x0A]) ls)"

definition EM_DASH :: string where "EM_DASH = [CHR 0xE2, CHR 0x80, CHR 0x94]"

definition AGENT_ONE_SYSTEM_PROMPT :: string where
  "AGENT_ONE_SYSTEM_PROMPT =
     text_lines
      [''You are the OpenOntology TOPOLOGY ISOLATOR.'',
       [],
       ''Your sole purpose is attribution: given one localised graph neighbourhood and the'',
       ''telemetry captured at the moment of the mutation, decide whether the failure is a'',
       ''LOCALIZED_COMPONENT fault in the reporting asset or an INHERITED_CASCADE arriving'',
       ''from an upstream dependency. You do not plan work, you do not command equipment,'',
       ''and you do not recommend maintenance. You attribute the fault and you state how'',
       ''far the topology can be trusted.'',
       [],
       ''TRAVERSAL RULES (deterministic, apply in order):'',
       ''1. `upstream_chain_nearest_first` is ordered nearest-first: index 0 feeds the'',
       ''   reporting asset directly, index 1 feeds index 0, and so on. Walk it forwards.'',
       ''2. A node is faulting when its reported status is DEGRADED, ALARM or OFFLINE, or'',
       ''   when telemetry attributed to it breaches a CRITICAL or HARD limit.'',
       ''3. If any upstream node is faulting, the classification is INHERITED_CASCADE and'',
       ''   the root cause is the FURTHEST faulting node in the chain. Every node between'',
       ''   that origin and the reporting asset is a symptom, never the cause.'',
       ''4. If no upstream node is faulting and the reporting asset breaches a physical'',
       ''   limit, the classification is LOCALIZED_COMPONENT and the root cause is the'',
       ''   reporting asset.'',
       ''5. If only context-integrity channels are breached, or the graph cannot be'',
       ''   trusted, the classification is INDETERMINATE. Do not guess an origin.'',
       ''6. If nothing is breached and the graph has converged, return NO_FAULT_DETECTED.'',
       [],
       ''CRDT AND LAMPORT RULES (you must evaluate these explicitly):'',
       ''- The asset vertex is an OR-Set element replicated with per-replica Lamport add'',
       ''  and remove stamps. The join is the pointwise maximum of those stamps.'',
       ''- The vertex is LIVE only when the highest add stamp is STRICTLY GREATER than the'',
       ''  highest remove stamp. Equal stamps are a genuine tie, not liveness.'',
       ''- Break a tie from the topology, not from wall-clock time:'',
       ''  * leaf vertex, nothing live downstream -> REMOVED_WINS (the replication core's'',
       ''    default; a later add always resurrects the vertex);'',
       ''  * live downstream dependents exist -> ADD_WINS, because tombstoning a vertex'',
       ''    that still feeds live consumers erases a physically present asset from the'',
       ''    operator's graph. Record the override and lower your confidence.'',
       ''- Treat these as trust-destroying and reflect them in `graph_trust`: a contested'',
       ''  tie, replicas that disagree with the joined verdict, a non-zero'',
       ''  `crdt_collision_rate`, and a vertex that resolves TOMBSTONED while still'',
       ''  emitting telemetry.'',
       ''- `irreversible_permitted` is false whenever the graph cannot be trusted. An'',
       ''  irreversible field action on an unresolved vertex is never acceptable.'',
       [],
       ''GROUNDING:'',
       ''You are given `derived_analysis`, the deterministic kernel's own traversal. Treat'',
       ''it as the default answer. You may depart from it, but only by citing a specific'',
       ''fact in the briefing that it mis-weighted, and you must say so in'',
       ''`root_cause_rationale`. Every node you name must appear in `permitted_nodes`.'',
       ''Never invent a node, a channel or a replica.'',
       [],
       ''Return your verdict exclusively through the emit_topology_verdict tool.'']"

definition AGENT_TWO_SYSTEM_PROMPT :: string where
  "AGENT_TWO_SYSTEM_PROMPT =
     text_lines
      [''You are the OpenOntology STRATEGIC ACTION PLANNER.'',
       [],
       ''You receive a completed attribution verdict from the Topology Isolator and a set'',
       ''of retrieved technical maintenance manual guidelines. Your purpose is to convert'',
       ''that verdict into one physical command and the exact ordered step sequence that'',
       ''executes it without widening the blast radius. You do not re-attribute the fault:'',
       ''the verdict's `root_cause_node` is where intervention lands, and if the fault was'',
       ''inherited, that node is upstream of the asset that reported it.'',
       [],
       ''COMMAND SELECTION:'',
       ''- ISOLATE_VALVE: the fault is attributed and containable at a single node, and'',
       ''  isolating it stops the disturbance.'',
       ''- EMERGENCY_SHUTDOWN: a hard limit is breached, or a critical breach threatens a'',
       ''  wide blast radius, and continued operation is unsafe. Irreversible.'',
       ''- DEGRADE_THROTTLE: the safe reversible fallback. Use it whenever the verdict is'',
       ''  INDETERMINATE, `irreversible_permitted` is false, or throttling genuinely'',
       ''  resolves the condition.'',
       ''You may only choose EMERGENCY_SHUTDOWN when the verdict permits irreversible'',
       ''action AND the execution priority is CRITICAL.'',
       [],
       ''STEP SEQUENCING (blast-radius discipline):'',
       ''1. Protect downstream consumers BEFORE the supply is interrupted. Consumers cut'',
       ''   out from under load trip on their own protection and turn one isolation into a'',
       ''   unit-wide outage.'',
       ''2. Stabilise before you isolate: reduce speed, load or throughput first.'',
       ''3. Isolate at the attributed root cause, not at the node that noticed.'',
       ''4. Prove the isolation physically '' @ EM_DASH @ '' position feedback, lockout, bled pressure '' @ EM_DASH @ [],
       ''   rather than trusting a command acknowledgement.'',
       ''5. Close by writing the achieved state back to the asset graph and handing over'',
       ''   to the accountable operator.'',
       ''Every step names its actor: HUMAN_TECHNICIAN, HUMAN_SUPERVISOR, ROBOTIC_ACTUATOR'',
       ''or CONTROL_SYSTEM. Mark a step irreversible only when it truly is, and cite the'',
       ''manual reference the step came from.'',
       [],
       ''CONSTRAINTS:'',
       ''- Ground every step in the retrieved guidelines. Do not invent a procedure that'',
       ''  the corpus does not support.'',
       ''- `target_asset_id` and every `target_component` must appear in'',
       ''  `permitted_nodes`.'',
       ''- Sequence numbers start at 1 and are contiguous.'',
       ''- Require human authorisation for any irreversible action, any CRITICAL priority,'',
       ''  and any plan built on a graph the isolator did not fully trust.'',
       ''- State confidence honestly; a degraded graph or a thin retrieval must lower it.'',
       [],
       ''Return your plan exclusively through the emit_action_plan tool.'']"

section \<open>The tool schemas\<close>

text \<open>
  The schemas are JSON values; the helpers write the forms that recur.  In every object of the two
  schemas all properties are required and no others are allowed.
\<close>

definition typed :: "string \<Rightarrow> string \<times> json" where "typed t = (''type'', JStr t)"

definition described :: "string \<Rightarrow> string \<times> json" where "described d = (''description'', JStr d)"

definition enum_schema :: "string list \<Rightarrow> json" where
  "enum_schema vs = JObj [typed ''string'', (''enum'', jstrs vs)]"

definition strings_schema :: "(string \<times> json) list \<Rightarrow> json" where
  "strings_schema extra = JObj (typed ''array'' # extra @ [(''items'', JObj [typed ''string''])])"

definition object_schema :: "(string \<times> json) list \<Rightarrow> json" where
  "object_schema properties =
     JObj [typed ''object'', (''properties'', JObj properties), (''required'', jstrs (map fst properties)),
           (''additionalProperties'', JBool False)]"

definition TOPOLOGY_TOOL_NAME :: string where "TOPOLOGY_TOOL_NAME = ''emit_topology_verdict''"

definition ACTION_TOOL_NAME :: string where "ACTION_TOOL_NAME = ''emit_action_plan''"

definition assessment_properties :: "(string \<times> json) list" where
  "assessment_properties =
     [(''presence'', enum_schema (map presence_value PRESENCES)),
      (''tie_breaker_rule'', enum_schema (map tie_value TIE_BREAKERS)),
      (''contested'', JObj [typed ''boolean'']),
      (''highest_add_stamp'', JObj [typed ''integer'']),
      (''highest_remove_stamp'', JObj [typed ''integer'']),
      (''diverging_replicas'', strings_schema []),
      (''collision_rate'', JObj [typed ''number'']),
      (''graph_trust'', JObj [typed ''number'', described ''0.0 to 1.0.'']),
      (''explanation'', JObj [typed ''string''])]"

definition assessment_schema :: json where
  "assessment_schema = object_schema assessment_properties"

definition verdict_properties :: "(string \<times> json) list" where
  "verdict_properties =
     [(''fault_classification'', enum_schema (map fault_text FAULTS)),
      (''root_cause_node'', JObj [typed ''string'',
         described ''Node requiring attribution; must appear in permitted_nodes.'']),
      (''root_cause_rationale'', JObj [typed ''string'',
         described ''Two to five sentences citing the traversal and the observed values.'']),
      (''cascade_path'', strings_schema [described
         ''Origin-first path from the cascade origin to the reporting asset; empty when localized.'']),
      (''localized_components'', strings_schema [described
         ''Channels or components implicated on the reporting asset.'']),
      (''blast_radius'', strings_schema [described ''Downstream nodes exposed if the fault propagates.'']),
      (''severity_band'', enum_schema (map band_value BANDS)),
      (''crdt_assessment'', assessment_schema),
      (''containment_hint'', enum_schema (map graph_action_value ACTIONS)),
      (''irreversible_permitted'', JObj [typed ''boolean'']),
      (''confidence'', JObj [typed ''number'', described ''0.0 to 1.0.'']),
      (''evidence'', strings_schema [])]"

definition verdict_schema :: json where
  "verdict_schema = object_schema verdict_properties"

definition tool :: "string \<Rightarrow> string \<Rightarrow> json \<Rightarrow> (string \<times> json) list" where
  "tool name description schema =
     [(''name'', JStr name), described description, (''strict'', JBool True), (''input_schema'', schema)]"

definition TOPOLOGY_VERDICT_TOOL :: "(string \<times> json) list" where
  "TOPOLOGY_VERDICT_TOOL = tool TOPOLOGY_TOOL_NAME
     (''Emit the topology isolation verdict for one ontology mutation: where the fault '' @
      ''originates and how far the replicated graph can be trusted. Call this exactly once.'')
     verdict_schema"

definition step_properties :: "(string \<times> json) list" where
  "step_properties =
     [(''sequence'', JObj [typed ''integer'', described ''1-based execution order.'']),
      (''actor'', enum_schema (map actor_value ACTORS)),
      (''instruction'', JObj [typed ''string'']),
      (''target_component'', JObj [typed ''string'']),
      (''verification'', JObj [typed ''string'',
         described ''The observable proof that the step completed.'']),
      (''reversible'', JObj [typed ''boolean'']),
      (''estimated_seconds'', JObj [typed ''integer'']),
      (''manual_reference'', JObj [(''type'', jstrs [''string'', ''null'']),
         described ''Source citation, or null when the step is generic.''])]"

definition step_schema :: json where
  "step_schema = object_schema step_properties"

definition plan_properties :: "(string \<times> json) list" where
  "plan_properties =
     [(''action_type'', enum_schema (map graph_action_value ACTIONS)),
      (''target_asset_id'', JObj [typed ''string'',
         described ''Node requiring physical intervention; must appear in permitted_nodes.'']),
      (''execution_priority'', enum_schema (map graph_priority_value PRIORITIES)),
      (''isolation_steps'', JObj [typed ''array'',
         described ''Ordered instructions, sequence starting at 1.'', (''items'', step_schema)]),
      (''blast_radius_protection'', strings_schema [described
         ''Explicit measures protecting the downstream nodes.'']),
      (''requires_human_authorization'', JObj [typed ''boolean'']),
      (''rationale'', JObj [typed ''string'']),
      (''manual_references'', strings_schema [described
         ''doc_id values of the guidelines this plan relies on.'']),
      (''confidence'', JObj [typed ''number'', described ''0.0 to 1.0.''])]"

definition plan_schema :: json where
  "plan_schema = object_schema plan_properties"

definition ACTION_PLAN_TOOL :: "(string \<times> json) list" where
  "ACTION_PLAN_TOOL = tool ACTION_TOOL_NAME
     ''Emit the physical isolation command and its ordered step sequence. Call this exactly once.''
     plan_schema"

text \<open>
  When a value conforms to a schema, for the keywords the two schemas use.
\<close>

fun has_type :: "string \<Rightarrow> json \<Rightarrow> bool" where
  "has_type t JNull = (t = ''null'')"
| "has_type t (JBool b) = (t = ''boolean'')"
| "has_type t (JInt i) = (t \<in> {''integer'', ''number''})"
| "has_type t (JFloat q) = (t = ''number'' \<or> t = ''integer'' \<and> whole q)"
| "has_type t (JStr s) = (t = ''string'')"
| "has_type t (JList xs) = (t = ''array'')"
| "has_type t (JObj kvs) = (t = ''object'')"

fun type_allows :: "json \<Rightarrow> json \<Rightarrow> bool" where
  "type_allows (JStr t) j = has_type t j"
| "type_allows (JList ts) j = list_ex (\<lambda>t. case t of JStr n \<Rightarrow> has_type n j | _ \<Rightarrow> False) ts"
| "type_allows _ j = True"

definition enum_allows :: "json option \<Rightarrow> json \<Rightarrow> bool" where
  "enum_allows e j = (case e of Some (JList vs) \<Rightarrow> j \<in> set vs | _ \<Rightarrow> True)"

definition requires_of :: "json option \<Rightarrow> string list" where
  "requires_of r = (case r of Some (JList ks) \<Rightarrow> [k. JStr k \<leftarrow> ks] | _ \<Rightarrow> [])"

definition properties_of :: "json option \<Rightarrow> (string \<times> json) list" where
  "properties_of p = (case p of Some (JObj kvs) \<Rightarrow> kvs | _ \<Rightarrow> [])"

lemma item_smaller [termination_simp]: "x \<in> set xs \<Longrightarrow> size x < Suc (size_list size xs)"
  by (induction xs) auto

lemma member_smaller [termination_simp]:
  "(k, x) \<in> set kvs \<Longrightarrow> size x < Suc (size_list (size_prod (\<lambda>x. 0) size) kvs)"
  by (induction kvs) auto

fun conforms :: "json \<Rightarrow> json \<Rightarrow> bool" where
  "conforms (JObj schema) (JList xs) =
     (type_allows (j_get schema ''type'') (JList xs) \<and> enum_allows (map_of schema ''enum'') (JList xs) \<and>
      (\<forall>x \<in> set xs. conforms (j_get_default schema ''items'' (JObj [])) x))"
| "conforms (JObj schema) (JObj kvs) =
     (type_allows (j_get schema ''type'') (JObj kvs) \<and> enum_allows (map_of schema ''enum'') (JObj kvs) \<and>
      set (requires_of (map_of schema ''required'')) \<subseteq> fst ` set kvs \<and>
      (\<forall>(k, x) \<in> set kvs.
         case map_of (properties_of (map_of schema ''properties'')) k of
           Some s \<Rightarrow> conforms s x
         | None \<Rightarrow> j_get schema ''additionalProperties'' \<noteq> JBool False))"
| "conforms (JObj schema) j =
     (type_allows (j_get schema ''type'') j \<and> enum_allows (map_of schema ''enum'') j)"
| "conforms _ j = True"

section \<open>The briefings\<close>

definition exceedance_json :: "frame_lib \<Rightarrow> exceedance \<Rightarrow> json" where
  "exceedance_json lib e =
     JObj [(''node'', JStr (ex_node e)),
           (''channel'', JStr (ex_channel e)),
           (''value'', fl_number lib (ex_value e)),
           (''band'', JStr (band_value (ex_band e))),
           (''unit'', opt_json (map_option lim_unit (ex_limit e))),
           (''critical_limit'', case ex_limit e of Some l \<Rightarrow> JFloat (lim_critical l) | None \<Rightarrow> JNull),
           (''physical'', JBool (ex_physical e))]"

definition analysis_fields :: "frame_lib \<Rightarrow> topology_analysis \<Rightarrow> (string \<times> json) list" where
  "analysis_fields lib t =
     [(''asset_id'', JStr (ta_asset_id t)),
      (''asset_name'', JStr (ta_asset_name t)),
      (''parent_system'', JStr (ta_parent_system t)),
      (''physical_location'', JStr (ta_location t)),
      (''upstream_chain_nearest_first'', jstrs (ta_upstream t)),
      (''downstream_impacts'', jstrs (ta_downstream t)),
      (''faulted_upstream_nodes'', jstrs (ta_faulted_upstream t)),
      (''cascade_path_origin_first'', jstrs (ta_cascade_path t)),
      (''derived_classification'', JStr (fault_text (ta_class t))),
      (''derived_root_cause_node'', JStr (ta_root_cause t)),
      (''localized_components'', jstrs (ta_localized t)),
      (''physical_exceedances'', JList (map (exceedance_json lib) (ta_physical t))),
      (''integrity_exceedances'', JList (map (exceedance_json lib) (ta_integrity t))),
      (''severity_band'', JStr (band_value (ta_severity t))),
      (''crdt_assessment'', assessment_json lib (ta_crdt t)),
      (''blast_radius'', jstrs (ta_downstream t)),
      (''derived_priority'', JStr (graph_priority_value (ta_priority t))),
      (''derived_action'', JStr (graph_action_value (ta_action t))),
      (''irreversible_permitted'', JBool (ta_irreversible_permitted t)),
      (''derived_confidence'', JFloat (ta_confidence t)),
      (''evidence'', jstrs (ta_evidence t)),
      (''permitted_nodes'', jstrs (sorted_list_of_set (ta_known_nodes t)))]"

definition asset_fields :: "asset_metadata \<Rightarrow> (string \<times> json) list" where
  "asset_fields a =
     [(''uuid'', JStr (am_uuid a)), (''name'', JStr (am_name a)), (''model_number'', JStr (am_model_number a)),
      (''current_status'', JStr (status_value (am_status a)))]"

definition observation_json :: "frame_lib \<Rightarrow> replica_observation \<Rightarrow> json" where
  "observation_json lib r =
     JObj [(''replica_id'', JStr (ro_replica_id r)), (''add_stamp'', JInt (ro_add_stamp r)),
           (''remove_stamp'', JInt (ro_remove_stamp r)), (''last_synced_at'', fl_last_synced lib r)]"

definition context_fields :: "frame_lib \<Rightarrow> graph_context \<Rightarrow> (string \<times> json) list" where
  "context_fields lib c =
     [(''parent_system'', JStr (gc_parent_system c)),
      (''physical_location'', JStr (gc_physical_location c)),
      (''upstream_dependencies'', jstrs (gc_upstream c)),
      (''downstream_impacts'', jstrs (gc_downstream c)),
      (''assigned_operator'', JStr (gc_assigned_operator c)),
      (''dependency_health'', JObj (map (\<lambda>(n, s). (n, JStr (status_value s))) (gc_dependency_health c))),
      (''replica_observations'', JList (map (observation_json lib) (gc_replica_observations c))),
      (''criticality'', JStr (gc_criticality c)),
      (''maintenance_window'', opt_json (gc_maintenance_window c))]"

definition channel_fields :: "frame_lib \<Rightarrow> (string, pyfloat) odict \<Rightarrow> json" where
  "channel_fields lib cs = JObj (map (\<lambda>(k, x). (k, fl_number lib x)) cs)"

definition limit_json :: "channel_limit \<Rightarrow> json" where
  "limit_json l =
     JObj [(''unit'', JStr (lim_unit l)), (''warn'', JFloat (lim_warn l)), (''critical'', JFloat (lim_critical l)),
           (''hard'', JFloat (lim_hard l)), (''physical'', JBool (lim_physical l))]"

definition isolator_briefing :: "frame_lib \<Rightarrow> graph_payload \<Rightarrow> topology_analysis \<Rightarrow> (string \<times> json) list" where
  "isolator_briefing lib p t =
     [(''task'', JStr ''Attribute the fault and assess graph trust. Do not plan work.''),
      (''event'', JObj
         [(''event_id'', JStr (gp_event_id p)),
          (''timestamp'', JStr (fl_isoformat lib (gp_timestamp p))),
          (''origin_replica'', opt_json (fl_origin_replica lib)),
          (''lamport_clock'', JInt (gp_lamport_clock p)),
          (''engine_reported_degraded'', JBool (gp_degraded p))]),
      (''asset_metadata'', JObj (asset_fields (gp_asset p))),
      (''ontology_context'', JObj (context_fields lib (gp_context p))),
      (''telemetry_snapshot'', JObj
         [(''local_channels'', channel_fields lib (local_channels (gp_telemetry p))),
          (''attributed_channels'',
             JObj (map (\<lambda>(n, cs). (n, channel_fields lib cs)) (attributed_channels (gp_telemetry p))))]),
      (''channel_limits'', JObj (map (\<lambda>(n, l). (n, limit_json l)) CHANNEL_LIMITS)),
      (''derived_analysis'', JObj (analysis_fields lib t)),
      (''permitted_nodes'', jstrs (sorted_list_of_set (ta_known_nodes t)))]"

definition procedure_json :: "procedure_step \<Rightarrow> json" where
  "procedure_json s =
     JObj [(''actor'', JStr (actor_value (ps_actor s))), (''instruction'', JStr (ps_instruction s)),
           (''verification'', JStr (ps_verification s)), (''reversible'', JBool (ps_reversible s)),
           (''estimated_seconds'', JInt (ps_seconds s))]"

definition serialise_chunk :: "manual_chunk \<times> rat \<Rightarrow> json" where
  "serialise_chunk cs =
     (let c = fst cs in
      JObj [(''doc_id'', JStr (mc_doc_id c)),
            (''title'', JStr (mc_title c)),
            (''source'', JStr (mc_source c)),
            (''revision'', JStr (mc_revision c)),
            (''score'', JFloat (py_round (snd cs) 4)),
            (''body'', JStr (mc_body c)),
            (''tags'', jstrs (mc_tags c)),
            (''model_families'', jstrs (mc_families c)),
            (''applicable_actions'', jstrs (map graph_action_value (mc_actions c))),
            (''classifications'', jstrs (map fault_text (mc_classes c))),
            (''supplementary'', JBool (mc_supplementary c)),
            (''procedure'', JList (map procedure_json (mc_procedure c)))])"

definition planner_briefing ::
    "frame_lib \<Rightarrow> graph_settings \<Rightarrow> graph_payload \<Rightarrow> topology_analysis \<Rightarrow> isolation_verdict
      \<Rightarrow> (manual_chunk \<times> rat) list \<Rightarrow> (string \<times> json) list" where
  "planner_briefing lib s p t v guidelines =
     [(''task'', JStr ''Convert the isolation verdict into one physical command and its step sequence.''),
      (''event_id'', JStr (gp_event_id p)),
      (''verdict'', verdict_json lib v),
      (''topology'', JObj (analysis_fields lib t)),
      (''assigned_operator'', JStr (gc_assigned_operator (gp_context p))),
      (''model_number'', JStr (am_model_number (gp_asset p))),
      (''maintenance_window'', opt_json (gc_maintenance_window (gp_context p))),
      (''retrieved_guidelines'', JList (map serialise_chunk guidelines)),
      (''constraints'', JObj
         [(''max_isolation_steps'', JInt (int (set_max_isolation_steps s))),
          (''permitted_actions'', jstrs (map graph_action_value ACTIONS)),
          (''irreversible_permitted'', JBool (iv_irreversible_permitted v)),
          (''min_graph_trust_for_irreversible'', JFloat (set_min_graph_trust s))]),
      (''permitted_nodes'', jstrs (sorted_list_of_set (ta_known_nodes t)))]"

section \<open>The offline client as a reader of its briefing\<close>

text \<open>
  What the client reads of an analysis, as an analysis whose other members are empty; the limit of a
  reading is known by its unit.
\<close>

definition read_exceedance :: "frame_lib \<Rightarrow> json \<Rightarrow> exceedance raises" where
  "read_exceedance lib j =
     (case j of
        JObj kvs \<Rightarrow>
          bind_r (member kvs ''channel'' as_str) (\<lambda>channel.
          bind_r (member kvs ''value'' (as_float lib)) (\<lambda>x.
          bind_r (member kvs ''band'' as_band) (\<lambda>b.
          bind_r (member kvs ''unit'' (as_optional as_str)) (\<lambda>u.
            Inr \<lparr>ex_channel = channel, ex_value = x, ex_band = b,
                 ex_limit = map_option (\<lambda>n. \<lparr>lim_unit = n, lim_warn = 0, lim_critical = 0, lim_hard = 0,
                                            lim_physical = True\<rparr>) u, ex_node = []\<rparr>))))
      | _ \<Rightarrow> Inl TypeErrorExn)"

definition read_analysis :: "frame_lib \<Rightarrow> json \<Rightarrow> topology_analysis raises" where
  "read_analysis lib j =
     (case j of
        JObj kvs \<Rightarrow>
          bind_r (member kvs ''derived_classification'' as_fault) (\<lambda>class.
          bind_r (member kvs ''cascade_path_origin_first'' (as_list as_str)) (\<lambda>path.
          bind_r (member kvs ''crdt_assessment'' (read_assessment lib)) (\<lambda>crdt.
          bind_r (member kvs ''asset_id'' as_str) (\<lambda>asset.
          bind_r (member kvs ''derived_root_cause_node'' as_str) (\<lambda>cause.
          bind_r (member kvs ''physical_exceedances'' (as_list (read_exceedance lib))) (\<lambda>physical.
          bind_r (member kvs ''faulted_upstream_nodes'' (as_list as_str)) (\<lambda>faulted.
          bind_r (member kvs ''upstream_chain_nearest_first'' (as_list as_str)) (\<lambda>upstream.
          bind_r (member kvs ''localized_components'' (as_list as_str)) (\<lambda>localized.
          bind_r (member kvs ''blast_radius'' (as_list as_str)) (\<lambda>blast.
          bind_r (member kvs ''severity_band'' as_band) (\<lambda>severity.
          bind_r (member kvs ''derived_action'' as_action) (\<lambda>action.
          bind_r (member kvs ''irreversible_permitted'' as_bool) (\<lambda>permitted.
          bind_r (member kvs ''derived_confidence'' as_rat) (\<lambda>confidence.
          bind_r (member kvs ''evidence'' (as_list as_str)) (\<lambda>evidence.
          bind_r (member kvs ''derived_priority'' as_priority) (\<lambda>priority.
          bind_r (member kvs ''asset_name'' as_str) (\<lambda>name.
          bind_r (member kvs ''parent_system'' as_str) (\<lambda>parent.
          bind_r (member kvs ''physical_location'' as_str) (\<lambda>location.
            Inr \<lparr>ta_asset_id = asset, ta_asset_name = name, ta_parent_system = parent, ta_location = location,
                 ta_known_nodes = {}, ta_upstream = upstream, ta_downstream = blast,
                 ta_faulted_upstream = faulted, ta_cascade_path = path, ta_class = class, ta_root_cause = cause,
                 ta_localized = localized, ta_physical = physical, ta_integrity = [], ta_severity = severity,
                 ta_crdt = crdt, ta_priority = priority, ta_action = action,
                 ta_irreversible_permitted = permitted, ta_confidence = confidence,
                 ta_evidence = evidence\<rparr>)))))))))))))))))))
      | _ \<Rightarrow> Inl TypeErrorExn)"

definition framed_verdict :: "frame_lib \<Rightarrow> (string \<times> json) list \<Rightarrow> json raises" where
  "framed_verdict lib briefing =
     bind_r (member briefing ''derived_analysis'' (read_analysis lib)) (\<lambda>t.
       Inr (verdict_json lib (topology_verdict (fl_format lib) t)))"

definition read_procedure :: "json \<Rightarrow> procedure_step raises" where
  "read_procedure j =
     (case j of
        JObj kvs \<Rightarrow>
          bind_r (member kvs ''actor'' as_actor) (\<lambda>actor.
          bind_r (member kvs ''instruction'' as_str) (\<lambda>instruction.
          bind_r (member kvs ''verification'' as_str) (\<lambda>verification.
          bind_r (member kvs ''reversible'' as_bool) (\<lambda>reversible.
          bind_r (member kvs ''estimated_seconds'' as_int) (\<lambda>secs.
            Inr \<lparr>ps_actor = actor, ps_instruction = instruction, ps_verification = verification,
                 ps_reversible = reversible, ps_seconds = secs\<rparr>)))))
      | _ \<Rightarrow> Inl TypeErrorExn)"

definition read_chunk :: "json \<Rightarrow> manual_chunk raises" where
  "read_chunk j =
     (case j of
        JObj kvs \<Rightarrow>
          bind_r (member kvs ''doc_id'' as_str) (\<lambda>doc_id.
          bind_r (member kvs ''source'' as_str) (\<lambda>origin.
          bind_r (member kvs ''tags'' (as_list as_str)) (\<lambda>tags.
          bind_r (member kvs ''applicable_actions'' (as_list as_action)) (\<lambda>actions.
          bind_r (member kvs ''supplementary'' as_bool) (\<lambda>supplementary.
          bind_r (member kvs ''procedure'' (as_list read_procedure)) (\<lambda>procedure.
            Inr \<lparr>mc_doc_id = doc_id, mc_title = [], mc_source = origin, mc_revision = [], mc_body = [],
                 mc_procedure = procedure, mc_families = [], mc_actions = actions, mc_classes = [],
                 mc_tags = tags, mc_supplementary = supplementary\<rparr>))))))
      | _ \<Rightarrow> Inl TypeErrorExn)"

definition read_max_steps :: "json \<Rightarrow> int raises" where
  "read_max_steps j =
     (case j of JObj kvs \<Rightarrow> member_or kvs ''max_isolation_steps'' 12 as_int | _ \<Rightarrow> Inl TypeErrorExn)"

definition framed_plan :: "frame_lib \<Rightarrow> (string \<times> json) list \<Rightarrow> json raises" where
  "framed_plan lib briefing =
     bind_r (member briefing ''verdict'' (read_verdict lib)) (\<lambda>v.
     bind_r (member briefing ''topology'' (read_analysis lib)) (\<lambda>t.
     bind_r (member_or briefing ''retrieved_guidelines'' [] (as_list read_chunk)) (\<lambda>guidelines.
     bind_r (member_or briefing ''constraints'' 12 read_max_steps) (\<lambda>max_steps.
     bind_r (member_or briefing ''assigned_operator'' ''the accountable operator'' as_str) (\<lambda>operator.
     bind_r (member_or briefing ''model_number'' ''the installed model'' as_str) (\<lambda>model_number.
       Inr (plan_json (rule_action_plan (fl_format lib)
         \<lparr>pb_verdict = v, pb_analysis = t, pb_guidelines = guidelines, pb_max_steps = nat max_steps,
          pb_operator = operator, pb_model_number = model_number\<rparr>))))))))"

text \<open>The turn of the offline client, with its estimate of the tokens; an exception is a failed transport.\<close>

definition estimate_tokens :: "frame_lib \<Rightarrow> json \<Rightarrow> nat" where
  "estimate_tokens lib j = max 1 (fl_text_length lib j div 4)"

definition offline_emit :: "frame_lib \<Rightarrow> string \<Rightarrow> (string \<times> json) list \<Rightarrow> (string \<times> json) list \<Rightarrow> emission" where
  "offline_emit lib system briefing the_tool =
     (let name = j_get the_tool ''name'';
          answer = (if name = JStr TOPOLOGY_TOOL_NAME then Some (framed_verdict lib briefing)
                    else if name = JStr ACTION_TOOL_NAME then Some (framed_plan lib briefing) else None)
      in case answer of
           None \<Rightarrow> EmRefused
         | Some (Inl e) \<Rightarrow> EmRaised
         | Some (Inr payload) \<Rightarrow>
             EmAnswer payload (estimate_tokens lib (JObj briefing) + estimate_tokens lib (JStr system))
               (estimate_tokens lib payload))"

section \<open>The live client\<close>

record tool_request =
  tq_model :: string
  tq_max_tokens :: int
  tq_system :: string
  tq_content :: json
  tq_tools :: "json list"
  tq_tool_choice :: json

record reply_block =
  rb_type :: "string option"
  rb_name :: "string option"
  rb_input :: "json option"

record tool_reply =
  tp_content :: "reply_block list"
  tp_input_tokens :: "nat option"
  tp_output_tokens :: "nat option"

datatype wire_outcome = WireTimedOut | WireRaised | WireReply tool_reply

definition tool_call_request ::
    "string \<Rightarrow> int \<Rightarrow> string \<Rightarrow> (string \<times> json) list \<Rightarrow> (string \<times> json) list \<Rightarrow> tool_request" where
  "tool_call_request model max_tokens system briefing the_tool =
     \<lparr>tq_model = model, tq_max_tokens = max_tokens, tq_system = system, tq_content = JObj briefing,
      tq_tools = [JObj the_tool],
      tq_tool_choice = JObj [(''type'', JStr ''tool''), (''name'', j_get the_tool ''name'')]\<rparr>"

definition is_call_of :: "json \<Rightarrow> reply_block \<Rightarrow> bool" where
  "is_call_of name b \<longleftrightarrow> rb_type b = Some ''tool_use'' \<and> map_option JStr (rb_name b) = Some name"

definition cloud_emit ::
    "(tool_request \<Rightarrow> wire_outcome) \<Rightarrow> string \<Rightarrow> int \<Rightarrow> string \<Rightarrow> (string \<times> json) list \<Rightarrow> (string \<times> json) list
      \<Rightarrow> emission" where
  "cloud_emit exchange model max_tokens system briefing the_tool =
     (case exchange (tool_call_request model max_tokens system briefing the_tool) of
        WireTimedOut \<Rightarrow> EmTimeout
      | WireRaised \<Rightarrow> EmRaised
      | WireReply reply \<Rightarrow>
          (case find (is_call_of (j_get the_tool ''name'')) (tp_content reply) of
             None \<Rightarrow> EmRefused
           | Some b \<Rightarrow>
               (case rb_input b of
                  Some (JObj payload) \<Rightarrow>
                    EmAnswer (JObj payload) (case tp_input_tokens reply of Some n \<Rightarrow> n | None \<Rightarrow> 0)
                      (case tp_output_tokens reply of Some n \<Rightarrow> n | None \<Rightarrow> 0)
                | _ \<Rightarrow> EmRefused)))"

text \<open>
  The choice of the client.  Its settings are the provider, the key (an empty one counts as none), the model,
  the token limit and the latency the offline client simulates, which may outlast the time a turn has;
  whether the vendor's package is installed is up to the host.
\<close>

record client_settings =
  cs_cloud :: bool
  cs_api_key :: string
  cs_agent_model :: string
  cs_max_tokens :: int
  cs_latency_ms :: int

type_synonym agent_client =
  "nat \<Rightarrow> string \<Rightarrow> (string \<times> json) list \<Rightarrow> (string \<times> json) list \<Rightarrow> emission"

definition build_agent_client ::
    "frame_lib \<Rightarrow> bool \<Rightarrow> (nat \<Rightarrow> tool_request \<Rightarrow> wire_outcome) \<Rightarrow> graph_settings \<Rightarrow> client_settings
      \<Rightarrow> agent_client option" where
  "build_agent_client lib package_installed exchange s cs =
     (if cs_cloud cs then
        if cs_api_key cs = [] then None
        else if \<not> package_installed then None
        else Some (\<lambda>k system briefing the_tool.
          cloud_emit (exchange k) (cs_agent_model cs) (cs_max_tokens cs) system briefing the_tool)
      else Some (\<lambda>k system briefing the_tool.
        if slow_turn s (cs_latency_ms cs) then EmTimeout
        else offline_emit lib system briefing the_tool))"

section \<open>The engine over a client\<close>

text \<open>
  The agents as the engine runs them: the first is told about the analysis, the second also about the
  verdict that was accepted from the first and the guidelines retrieved for it.
\<close>

definition isolator_agents :: "frame_lib \<Rightarrow> agent_client \<Rightarrow> graph_payload \<Rightarrow> topology_analysis \<Rightarrow> agent_env" where
  "isolator_agents lib client p t =
     \<lparr>ag_emit = (\<lambda>agent k. client k AGENT_ONE_SYSTEM_PROMPT (isolator_briefing lib p t) TOPOLOGY_VERDICT_TOOL),
      ag_parse_verdict = parsed (read_verdict lib), ag_parse_plan = parsed read_plan, ag_format = fl_format lib\<rparr>"

definition framed_agents ::
    "frame_lib \<Rightarrow> agent_client \<Rightarrow> embed_env \<Rightarrow> vector_store \<Rightarrow> graph_settings \<Rightarrow> graph_payload
      \<Rightarrow> topology_analysis \<Rightarrow> agent_env" where
  "framed_agents lib client env store s p t =
     (let first = isolator_agents lib client p t in
      case run_topology_isolator first s t of
        Inl e \<Rightarrow> first
      | Inr (v, trace) \<Rightarrow>
          first\<lparr>ag_emit := (\<lambda>agent k.
            if agent = AGENT_ONE then ag_emit first agent k
            else client k AGENT_TWO_SYSTEM_PROMPT
                   (planner_briefing lib s p t v (retrieve env store s p v)) ACTION_PLAN_TOOL)\<rparr>)"

definition run_framed ::
    "frame_lib \<Rightarrow> agent_client \<Rightarrow> embed_env \<Rightarrow> vector_store \<Rightarrow> graph_settings \<Rightarrow> graph_payload
      \<Rightarrow> engine_error + engine_outcome" where
  "run_framed lib client env store s p =
     (case analyse_topology (fl_format lib) p s of
        Inl e \<Rightarrow> Inl (KernelRaised e)
      | Inr t \<Rightarrow> run_engine (framed_agents lib client env store s p t) s p)"

section \<open>What is written is read back\<close>

named_theorems frame_reads \<open>readers applied to what the frames write\<close>

lemma read_enums [frame_reads]:
  "as_fault (JStr (fault_text f)) = Inr f" "as_action (JStr (graph_action_value a)) = Inr a"
  "as_priority (JStr (graph_priority_value p)) = Inr p" "as_actor (JStr (actor_value c)) = Inr c"
  "as_presence (JStr (presence_value q)) = Inr q" "as_tie (JStr (tie_value b)) = Inr b"
  "as_band (JStr (band_value d)) = Inr d"
  by (cases f, simp_all add: as_enum_def FAULTS_def)
    (cases a, simp_all add: as_enum_def ACTIONS_def, cases p, simp_all add: as_enum_def PRIORITIES_def,
     cases c, simp_all add: as_enum_def ACTORS_def, cases q, simp_all add: as_enum_def PRESENCES_def,
     cases b, simp_all add: as_enum_def TIE_BREAKERS_def, cases d, simp_all add: as_enum_def BANDS_def)

lemma map_r_written: "(\<And>x. x \<in> set xs \<Longrightarrow> rd (wr x) = Inr (g x)) \<Longrightarrow> map_r rd (map wr xs) = Inr (map g xs)"
  by (induction xs) auto

lemma read_strings [frame_reads]: "map_r as_str (map JStr xs) = Inr xs"
  using map_r_written [of xs as_str JStr "\<lambda>x. x"] by simp

lemma read_opt [frame_reads]: "as_optional as_str (opt_json v) = Inr v"
  by (cases v) (simp_all add: opt_json_def)

lemma read_actions [frame_reads]: "map_r as_action (map (JStr \<circ> graph_action_value) as) = Inr as"
  using map_r_written [of as as_action "JStr \<circ> graph_action_value" "\<lambda>a. a"] by (simp add: frame_reads)

lemma read_numbers [frame_reads]:
  assumes "number_laws lib"
  shows "as_float lib (fl_number lib x) = Inr x"
  using assms by (simp add: number_laws_def)

lemma member_found: "map_of kvs k = Some j \<Longrightarrow> member kvs k rd = rd j"
  by (simp add: member_def j_item_def)

lemma member_Cons [simp]:
  "member ((k, j) # kvs) k' rd = (if k' = k then rd j else member kvs k' rd)"
  "member_or ((k, j) # kvs) k' fallback rd = (if k' = k then rd j else member_or kvs k' fallback rd)"
  by (simp_all add: member_def member_or_def j_item_def)

lemma read_written_assessment [frame_reads]:
  "number_laws lib \<Longrightarrow> read_assessment lib (assessment_json lib a) = Inr a"
  by (simp add: read_assessment_def assessment_json_def as_model_def frame_reads)

lemma read_written_verdict [frame_reads]: "number_laws lib \<Longrightarrow> read_verdict lib (verdict_json lib v) = Inr v"
  by (simp add: read_verdict_def verdict_json_def as_model_def frame_reads)

lemma read_written_step [frame_reads]: "read_step (step_json t) = Inr t"
  by (simp add: read_step_def step_json_def as_model_def frame_reads)

lemma read_written_plan [frame_reads]: "read_plan (plan_json p) = Inr p"
  using map_r_written [of "sp_steps p" read_step step_json "\<lambda>t. t"]
  by (simp add: read_plan_def plan_json_def as_model_def frame_reads)

definition exceedance_view :: "exceedance \<Rightarrow> exceedance" where
  "exceedance_view e =
     e\<lparr>ex_node := [],
       ex_limit := map_option (\<lambda>l. \<lparr>lim_unit = lim_unit l, lim_warn = 0, lim_critical = 0, lim_hard = 0,
                                   lim_physical = True\<rparr>) (ex_limit e)\<rparr>"

definition analysis_view :: "topology_analysis \<Rightarrow> topology_analysis" where
  "analysis_view t =
     t\<lparr>ta_known_nodes := {}, ta_physical := map exceedance_view (ta_physical t), ta_integrity := []\<rparr>"

definition chunk_view :: "manual_chunk \<Rightarrow> manual_chunk" where
  "chunk_view c = c\<lparr>mc_title := [], mc_revision := [], mc_body := [], mc_families := [], mc_classes := []\<rparr>"

lemma read_written_exceedance [frame_reads]:
  "number_laws lib \<Longrightarrow> read_exceedance lib (exceedance_json lib e) = Inr (exceedance_view e)"
  by (simp add: read_exceedance_def exceedance_json_def frame_reads exceedance_view_def option.map_comp comp_def)

lemma read_written_exceedances [frame_reads]:
  "number_laws lib \<Longrightarrow>
   map_r (read_exceedance lib) (map (exceedance_json lib) es) = Inr (map exceedance_view es)"
  by (simp add: map_r_written read_written_exceedance)

lemma read_written_analysis [frame_reads]:
  "number_laws lib \<Longrightarrow> read_analysis lib (JObj (analysis_fields lib t)) = Inr (analysis_view t)"
  by (simp add: read_analysis_def analysis_fields_def frame_reads analysis_view_def)

lemma read_written_procedure [frame_reads]: "read_procedure (procedure_json s) = Inr s"
  by (simp add: read_procedure_def procedure_json_def frame_reads)

lemma read_written_chunk [frame_reads]: "read_chunk (serialise_chunk cs) = Inr (chunk_view (fst cs))"
  using map_r_written [of "mc_procedure (fst cs)" read_procedure procedure_json "\<lambda>s. s"]
  by (simp add: read_chunk_def serialise_chunk_def Let_def frame_reads chunk_view_def)

lemma read_written_chunks [frame_reads]:
  "map_r read_chunk (map serialise_chunk css) = Inr (map (chunk_view \<circ> fst) css)"
  by (simp add: map_r_written read_written_chunk)

subsection \<open>The members a client reads are all it needs\<close>

lemma breach_summary_view: "breach_summary fmt (map exceedance_view es) = breach_summary fmt es"
proof -
  have u: "(case map_option (\<lambda>l. \<lparr>lim_unit = lim_unit l, lim_warn = 0, lim_critical = 0, lim_hard = 0,
      lim_physical = True\<rparr>) x of None \<Rightarrow> [] | Some l \<Rightarrow> lim_unit l) = (case x of None \<Rightarrow> [] | Some l \<Rightarrow> lim_unit l)"
    for x :: "channel_limit option"
    by (cases x) simp_all
  show ?thesis
    unfolding breach_summary_def filter_map take_map comp_def map_map exceedance_view_def
    by (simp add: u Let_def comp_def del: case_map_option)
qed

lemma analysis_view_fields [simp]:
  "ta_asset_id (analysis_view t) = ta_asset_id t" "ta_asset_name (analysis_view t) = ta_asset_name t"
  "ta_parent_system (analysis_view t) = ta_parent_system t" "ta_location (analysis_view t) = ta_location t"
  "ta_downstream (analysis_view t) = ta_downstream t" "ta_priority (analysis_view t) = ta_priority t"
  by (simp_all add: analysis_view_def)

lemma topology_verdict_view: "topology_verdict fmt (analysis_view t) = topology_verdict fmt t"
proof -
  have f: "ta_physical (analysis_view t) = map exceedance_view (ta_physical t)"
    "ta_root_cause (analysis_view t) = ta_root_cause t" "ta_crdt (analysis_view t) = ta_crdt t"
    "ta_class (analysis_view t) = ta_class t" "ta_upstream (analysis_view t) = ta_upstream t"
    "ta_faulted_upstream (analysis_view t) = ta_faulted_upstream t" "ta_localized (analysis_view t) = ta_localized t"
    "ta_cascade_path (analysis_view t) = ta_cascade_path t" "ta_severity (analysis_view t) = ta_severity t"
    "ta_action (analysis_view t) = ta_action t" "ta_confidence (analysis_view t) = ta_confidence t"
    "ta_irreversible_permitted (analysis_view t) = ta_irreversible_permitted t"
    "ta_evidence (analysis_view t) = ta_evidence t"
    by (simp_all add: analysis_view_def)
  show ?thesis
    unfolding topology_verdict_def verdict_rationale_def analysis_view_fields f breach_summary_view ..
qed

lemma chunk_view_fields [simp]:
  "mc_doc_id (chunk_view c) = mc_doc_id c" "mc_source (chunk_view c) = mc_source c"
  "mc_tags (chunk_view c) = mc_tags c" "mc_actions (chunk_view c) = mc_actions c"
  "mc_supplementary (chunk_view c) = mc_supplementary c" "mc_procedure (chunk_view c) = mc_procedure c"
  by (simp_all add: chunk_view_def)

lemma find_view: "(\<And>c. P (chunk_view c) = P c) \<Longrightarrow> find P (map chunk_view gs) = map_option chunk_view (find P gs)"
  by (induction gs) auto

lemma find_chunks_view:
  "find_lead action (map chunk_view gs) = map_option chunk_view (find_lead action gs)"
  "find_tagged tag (map chunk_view gs) = map_option chunk_view (find_tagged tag gs)"
  by (simp_all add: find_lead_def find_tagged_def find_view)

lemma steps_from_view: "steps_from ctx target (chunk_view c) = steps_from ctx target c"
  by (simp add: steps_from_def chunk_reference_def)

definition briefing_shown :: "plan_briefing \<Rightarrow> plan_briefing" where
  "briefing_shown b =
     b\<lparr>pb_analysis := analysis_view (pb_analysis b), pb_guidelines := map chunk_view (pb_guidelines b)\<rparr>"

lemma shown_fields [simp]:
  "pb_verdict (briefing_shown b) = pb_verdict b" "pb_max_steps (briefing_shown b) = pb_max_steps b"
  "pb_operator (briefing_shown b) = pb_operator b" "pb_model_number (briefing_shown b) = pb_model_number b"
  "pb_guidelines (briefing_shown b) = map chunk_view (pb_guidelines b)"
  "pb_analysis (briefing_shown b) = analysis_view (pb_analysis b)"
  by (simp_all add: briefing_shown_def)

lemma shown_target: "plan_target (briefing_shown b) = plan_target b"
  by (simp add: plan_target_def)

lemma shown_downstream: "plan_downstream (briefing_shown b) = plan_downstream b"
  by (simp add: plan_downstream_def)

lemma shown_context: "plan_context (briefing_shown b) = plan_context b"
  unfolding plan_context_def shown_target shown_downstream shown_fields Let_def analysis_view_fields ..

lemma shown_body_chunks: "body_chunks (briefing_shown b) = map (map_option chunk_view) (body_chunks b)"
proof -
  have c: "(case map_option chunk_view x of None \<Rightarrow> [] | Some y \<Rightarrow> if w then [Some y] else []) =
      map (map_option chunk_view) (case x of None \<Rightarrow> [] | Some y \<Rightarrow> if w then [Some y] else [])" for w x
    by (cases x) simp_all
  show ?thesis
    unfolding body_chunks_def shown_downstream shown_fields find_chunks_view Let_def c by simp
qed

lemma shown_steps: "plan_steps_of (briefing_shown b) = plan_steps_of b"
proof -
  have s: "(case map_option chunk_view c of None \<Rightarrow> d | Some x \<Rightarrow> steps_from ctx target x) =
      (case c of None \<Rightarrow> d | Some x \<Rightarrow> steps_from ctx target x)" for c d ctx target
    by (cases c) (simp_all add: steps_from_view)
  have "body_steps (briefing_shown b) = body_steps b"
    unfolding body_steps_def shown_body_chunks shown_context shown_target map_map comp_def s ..
  moreover have "closure_steps (briefing_shown b) = closure_steps b"
    unfolding closure_steps_def shown_context shown_target shown_fields find_chunks_view s ..
  ultimately show ?thesis by (simp add: plan_steps_of_def)
qed

lemma shown_cited: "plan_cited (briefing_shown b) = plan_cited b"
proof -
  have m: "map mc_doc_id (List.map_filter id (map (map_option chunk_view) cs)) = map mc_doc_id (List.map_filter id cs)"
    for cs by (induction cs) (auto simp: List.map_filter_def split: option.splits)
  have c: "map mc_doc_id (case map_option chunk_view x of None \<Rightarrow> [] | Some y \<Rightarrow> [y]) =
      map mc_doc_id (case x of None \<Rightarrow> [] | Some y \<Rightarrow> [y])" for x
    by (cases x) simp_all
  show ?thesis unfolding plan_cited_def shown_body_chunks shown_fields find_chunks_view map_append m c ..
qed

lemma rule_action_plan_shown: "rule_action_plan fmt (briefing_shown b) = rule_action_plan fmt b"
proof -
  have "plan_protection (briefing_shown b) = plan_protection b"
    by (simp add: plan_protection_def shown_downstream)
  moreover have "plan_rationale fmt (briefing_shown b) = plan_rationale fmt b"
    by (cases "find_lead (iv_containment (pb_verdict b)) (pb_guidelines b)")
      (simp_all add: plan_rationale_def shown_target shown_downstream find_chunks_view Let_def cong: fault_class.case_cong)
  moreover have "plan_confidence (briefing_shown b) = plan_confidence b"
    by (simp add: plan_confidence_def find_chunks_view)
  moreover have "plan_authorization (briefing_shown b) = plan_authorization b"
    by (simp add: plan_authorization_def shown_steps)
  ultimately show ?thesis
    by (simp add: rule_action_plan_def shown_target shown_steps shown_cited)
qed

lemma framed_verdict_written:
  "number_laws lib \<Longrightarrow>
   framed_verdict lib (isolator_briefing lib p t) = Inr (verdict_json lib (topology_verdict (fl_format lib) t))"
  by (simp add: framed_verdict_def isolator_briefing_def read_written_analysis topology_verdict_view)

lemma framed_plan_written:
  assumes "number_laws lib"
  shows "framed_plan lib (planner_briefing lib s p t v css) =
    Inr (plan_json (rule_action_plan (fl_format lib)
      \<lparr>pb_verdict = v, pb_analysis = t, pb_guidelines = map fst css, pb_max_steps = set_max_isolation_steps s,
       pb_operator = gc_assigned_operator (gp_context p), pb_model_number = am_model_number (gp_asset p)\<rparr>))"
  using rule_action_plan_shown [of "fl_format lib" "\<lparr>pb_verdict = v, pb_analysis = t, pb_guidelines = map fst css,
      pb_max_steps = set_max_isolation_steps s, pb_operator = gc_assigned_operator (gp_context p),
      pb_model_number = am_model_number (gp_asset p)\<rparr>"] assms
  by (simp add: framed_plan_def planner_briefing_def frame_reads read_max_steps_def briefing_shown_def comp_def)

subsection \<open>The engine, up to the tokens\<close>

abbreviation forget_tokens :: "'e + ('a \<times> 'b) \<Rightarrow> 'e + 'a" where
  "forget_tokens \<equiv> map_sum id fst"

lemma invoke_from_agree:
  assumes "\<And>k. forget_tokens (f k) = forget_tokens (g k)"
  shows "forget_tokens (fst (invoke_from agent f m b n e)) = forget_tokens (fst (invoke_from agent g m b n e))"
proof (induction n arbitrary: e)
  case (Suc n)
  show ?case
    using assms [of "m - n"] Suc.IH
    by (cases "f (m - n)"; cases "g (m - n)") (auto simp: Let_def case_prod_beta)
qed simp

lemma invoke_agree:
  "(\<And>k. forget_tokens (f k) = forget_tokens (g k)) \<Longrightarrow>
   forget_tokens (fst (invoke agent f s)) = forget_tokens (fst (invoke agent g s))"
  unfolding invoke_def by (rule invoke_from_agree)

text \<open>Two environments whose turns read as the same answers.\<close>

definition answers_with :: "(json \<Rightarrow> 'a option) \<Rightarrow> (nat \<Rightarrow> emission) \<Rightarrow> 'a \<Rightarrow> bool" where
  "answers_with parse turn a \<longleftrightarrow> (\<forall>k. \<exists>j i t. turn k = EmAnswer j i t \<and> parse j = Some a)"

lemma attempts_agree:
  assumes "answers_with parse1 turn1 a" and "answers_with parse2 turn2 a"
  shows "forget_tokens (fst (invoke agent (\<lambda>k. attempt_turn parse1 ok val (turn1 k)) s)) =
    forget_tokens (fst (invoke agent (\<lambda>k. attempt_turn parse2 ok val (turn2 k)) s))"
proof (rule invoke_agree)
  fix k
  obtain j i t j' i' t' where "turn1 k = EmAnswer j i t" "parse1 j = Some a" "turn2 k = EmAnswer j' i' t'"
    "parse2 j' = Some a"
    using assms unfolding answers_with_def by metis
  then show "forget_tokens (attempt_turn parse1 ok val (turn1 k)) = forget_tokens (attempt_turn parse2 ok val (turn2 k))"
    by (simp add: attempt_turn_def)
qed

lemma isolators_agree:
  "answers_with (ag_parse_verdict e1) (ag_emit e1 AGENT_ONE) v \<Longrightarrow>
   answers_with (ag_parse_verdict e2) (ag_emit e2 AGENT_ONE) v \<Longrightarrow>
   forget_tokens (run_topology_isolator e1 s t) = forget_tokens (run_topology_isolator e2 s t)"
  unfolding run_topology_isolator_def by (rule attempts_agree)

lemma planners_agree:
  "answers_with (ag_parse_plan e1) (ag_emit e1 AGENT_TWO) q \<Longrightarrow>
   answers_with (ag_parse_plan e2) (ag_emit e2 AGENT_TWO) q \<Longrightarrow>
   forget_tokens (run_action_planner e1 s t) = forget_tokens (run_action_planner e2 s t)"
  unfolding run_action_planner_def by (rule attempts_agree)

lemma isolator_answer:
  assumes "answers_with (ag_parse_verdict e) (ag_emit e AGENT_ONE) v"
    and "run_topology_isolator e s t = Inr (v', tr)"
  shows "v' = v"
proof -
  obtain k i o' where "attempt_turn (ag_parse_verdict e) verdict_ok (validate_verdict t) (ag_emit e AGENT_ONE k) =
      Inr (v', i, o')"
    using invoke_sound [OF assms(2) [unfolded run_topology_isolator_def]] by blast
  then obtain j where "ag_emit e AGENT_ONE k = EmAnswer j i o'" "ag_parse_verdict e j = Some v'"
    by (auto simp: attempt_turn_Inr)
  moreover obtain j2 i2 t2 where "ag_emit e AGENT_ONE k = EmAnswer j2 i2 t2" "ag_parse_verdict e j2 = Some v"
    using assms(1) unfolding answers_with_def by blast
  ultimately show ?thesis by simp
qed

definition without_trace :: "engine_error + engine_outcome \<Rightarrow> engine_error + engine_outcome" where
  "without_trace = map_sum id (eo_trace_update (\<lambda>tr. []))"

lemma engines_agree:
  assumes "ag_format e1 = ag_format e2"
    and one: "\<And>t. analyse_topology (ag_format e2) p s = Inr t \<Longrightarrow>
      forget_tokens (run_topology_isolator e1 s t) = forget_tokens (run_topology_isolator e2 s t)"
    and two: "\<And>t v tr. analyse_topology (ag_format e2) p s = Inr t \<Longrightarrow> run_topology_isolator e1 s t = Inr (v, tr) \<Longrightarrow>
      forget_tokens (run_action_planner e1 s t) = forget_tokens (run_action_planner e2 s t)"
  shows "without_trace (run_engine e1 s p) = without_trace (run_engine e2 s p)"
proof (cases "analyse_topology (ag_format e2) p s")
  case (Inl x)
  then show ?thesis by (simp add: run_engine_def assms(1))
next
  case t: (Inr t)
  show ?thesis
  proof (cases "run_topology_isolator e1 s t")
    case (Inl x)
    then show ?thesis
      using one [OF t] by (cases "run_topology_isolator e2 s t") (auto simp: run_engine_def assms(1) t)
  next
    case v: (Inr vt)
    obtain v tr where vt: "vt = (v, tr)" by fastforce
    obtain tr' where v2: "run_topology_isolator e2 s t = Inr (v, tr')"
      using one [OF t] v vt by (cases "run_topology_isolator e2 s t") auto
    show ?thesis
      using two [OF t v [unfolded vt]]
      by (cases "run_action_planner e1 s t"; cases "run_action_planner e2 s t")
        (auto simp: run_engine_def assms(1) t v vt v2 without_trace_def case_prod_beta Let_def)
  qed
qed

section \<open>The schemas and the models\<close>

lemma conforms_typed:
  "j_get schema ''type'' = JStr t \<Longrightarrow> t \<notin> {''array'', ''object''} \<Longrightarrow> map_of schema ''enum'' = None \<Longrightarrow>
   conforms (JObj schema) j \<longleftrightarrow> has_type t j"
  by (cases j) (simp_all add: enum_allows_def)

lemma as_int_type: "(\<exists>i. as_int j = Inr i) \<longleftrightarrow> has_type ''integer'' j"
  by (cases j) simp_all

lemma as_rat_type: "(\<exists>q. as_rat j = Inr q) \<longleftrightarrow> has_type ''number'' j"
  by (cases j) simp_all

lemma string_type: "(\<exists>x. j = JStr x) \<longleftrightarrow> has_type ''string'' j"
  by (cases j) simp_all

lemma boolean_type: "(\<exists>b. j = JBool b) \<longleftrightarrow> has_type ''boolean'' j"
  by (cases j) simp_all

lemma conforms_scalars:
  "conforms (JObj [typed ''string'']) j \<longleftrightarrow> (\<exists>x. j = JStr x)"
  "conforms (JObj [typed ''string'', described d]) j \<longleftrightarrow> (\<exists>x. j = JStr x)"
  "conforms (JObj [typed ''boolean'']) j \<longleftrightarrow> (\<exists>b. j = JBool b)"
  "conforms (JObj [typed ''integer'']) j \<longleftrightarrow> (\<exists>i. as_int j = Inr i)"
  "conforms (JObj [typed ''integer'', described d]) j \<longleftrightarrow> (\<exists>i. as_int j = Inr i)"
  "conforms (JObj [typed ''number'']) j \<longleftrightarrow> (\<exists>q. as_rat j = Inr q)"
  "conforms (JObj [typed ''number'', described d]) j \<longleftrightarrow> (\<exists>q. as_rat j = Inr q)"
  unfolding as_int_type as_rat_type string_type boolean_type
  by (rule conforms_typed; simp add: typed_def described_def j_get_def)+

lemma conforms_optional:
  "conforms (JObj [(''type'', JList [JStr ''string'', JStr ''null'']), described d]) j \<longleftrightarrow> (\<exists>x. as_optional as_str j = Inr x)"
  by (cases j) (simp_all add: described_def j_get_def enum_allows_def)

lemma conforms_enum: "conforms (enum_schema vs) j \<longleftrightarrow> (\<exists>s \<in> set vs. j = JStr s)"
  by (cases j) (auto simp: enum_schema_def typed_def j_get_def enum_allows_def)

lemma conforms_array:
  "j_get schema ''type'' = JStr ''array'' \<Longrightarrow> map_of schema ''enum'' = None \<Longrightarrow> map_of schema ''items'' = Some it \<Longrightarrow>
   conforms (JObj schema) j \<longleftrightarrow> (\<exists>xs. j = JList xs \<and> (\<forall>x \<in> set xs. conforms it x))"
  by (cases j) (simp_all add: enum_allows_def j_get_default_def)

lemma string_items: "(\<exists>ys. j = JList ys \<and> (\<forall>x \<in> set ys. \<exists>a. x = JStr a)) \<longleftrightarrow> (\<exists>xs. j = jstrs xs)"
proof -
  have "(\<forall>x \<in> set ys. \<exists>a. x = JStr a) \<longleftrightarrow> (\<exists>xs. ys = map JStr xs)" for ys
    by (induction ys) (auto simp: Cons_eq_map_conv)
  then show ?thesis by blast
qed

lemma conforms_strings:
  "conforms (strings_schema []) j \<longleftrightarrow> (\<exists>xs. j = jstrs xs)"
  "conforms (strings_schema [described d]) j \<longleftrightarrow> (\<exists>xs. j = jstrs xs)"
  unfolding strings_schema_def string_items [symmetric] conforms_scalars(1) [symmetric]
  by (rule conforms_array; simp add: typed_def described_def j_get_def)+

lemma required_strings: "set (requires_of (Some (jstrs ks))) = set ks"
  by (auto simp: requires_of_def)

lemma conforms_object:
  "conforms (object_schema ps) j \<longleftrightarrow>
     (\<exists>kvs. j = JObj kvs \<and> fst ` set ps \<subseteq> fst ` set kvs \<and>
        (\<forall>(k, x) \<in> set kvs. \<exists>s. map_of ps k = Some s \<and> conforms s x))"
proof (cases j)
  case (JObj kvs)
  let ?S = "[(''type'', JStr ''object''), (''properties'', JObj ps), (''required'', jstrs (map fst ps)),
    (''additionalProperties'', JBool False)]"
  have "(case map_of ps k of None \<Rightarrow> j_get ?S ''additionalProperties'' \<noteq> JBool False | Some s \<Rightarrow> conforms s x) \<longleftrightarrow>
      (\<exists>s. map_of ps k = Some s \<and> conforms s x)" for k x
    by (cases "map_of ps k") (simp_all add: j_get_def)
  moreover have "type_allows (j_get ?S ''type'') (JObj kvs)" "map_of ?S ''enum'' = None"
    "map_of ?S ''required'' = Some (jstrs (map fst ps))" "map_of ?S ''properties'' = Some (JObj ps)"
    by (simp_all add: j_get_def)
  ultimately show ?thesis
    unfolding JObj object_schema_def typed_def conforms.simps enum_allows_def properties_of_def
    by (simp add: required_strings del: map_of.simps map_map)
qed (simp_all add: object_schema_def typed_def j_get_def)

text \<open>A required property of a conforming object is there and conforms; reading it cannot fail.\<close>

lemma field_conforms:
  assumes "conforms (object_schema ps) (JObj kvs)" and "map_of ps k = Some s"
  shows "\<exists>x. map_of kvs k = Some x \<and> conforms s x"
proof -
  have c: "fst ` set ps \<subseteq> fst ` set kvs" "\<And>j x. (j, x) \<in> set kvs \<Longrightarrow> \<exists>s. map_of ps j = Some s \<and> conforms s x"
    using assms(1) unfolding conforms_object by auto
  have "k \<in> fst ` set kvs" using c(1) map_of_SomeD [OF assms(2)] by force
  then obtain x where x: "map_of kvs k = Some x" by (metis map_of_eq_None_iff not_None_eq)
  then show ?thesis using assms(2) c(2) [OF map_of_SomeD [OF x]] by simp
qed

lemma field_total:
  assumes "conforms (object_schema ps) (JObj kvs)" and "map_of ps k = Some s"
    and "\<And>x. conforms s x \<Longrightarrow> \<exists>v. rd x = Inr v"
  shows "\<exists>v. member kvs k rd = Inr v" and "\<exists>v. member_or kvs k fallback rd = Inr v"
  using field_conforms [OF assms(1,2)] assms(3) by (auto simp: member_def j_item_def member_or_def)

lemma bind_total: "\<exists>v. m = Inr v \<Longrightarrow> (\<And>v. \<exists>b. f v = Inr b) \<Longrightarrow> \<exists>b. bind_r m f = Inr b"
  by auto

lemma model_total:
  assumes "conforms (object_schema ps) j" and "map fst ps = names"
    and "\<And>kvs. conforms (object_schema ps) (JObj kvs) \<Longrightarrow> \<exists>a. rd kvs = Inr a"
  shows "\<exists>a. as_model names rd j = Inr a"
proof -
  obtain kvs where j: "j = JObj kvs" using assms(1) by (auto simp: conforms_object)
  have "\<forall>(k, x) \<in> set kvs. \<exists>s. map_of ps k = Some s"
    using assms(1) unfolding conforms_object j by auto
  then have "fst ` set kvs \<subseteq> fst ` set ps" by (force dest: map_of_SomeD)
  then show ?thesis using assms(3) [of kvs] assms(1) by (auto simp: as_model_def j assms(2) [symmetric])
qed

lemma map_r_total: "\<forall>x \<in> set xs. \<exists>v. rd x = Inr v \<Longrightarrow> \<exists>vs. map_r rd xs = Inr vs"
  by (induction xs) auto

lemma enum_total: "conforms (enum_schema (map f ms)) j \<Longrightarrow> \<exists>m. as_enum f ms j = Inr m"
proof -
  assume "conforms (enum_schema (map f ms)) j"
  then obtain m where m: "m \<in> set ms" "j = JStr (f m)" by (auto simp: conforms_enum)
  then obtain m' where "find (\<lambda>n. f n = f m) ms = Some m'" by (cases "find (\<lambda>n. f n = f m) ms") (auto simp: find_None_iff)
  then show ?thesis by (simp add: as_enum_def m)
qed

lemma strings_total: "j = jstrs xs \<Longrightarrow> \<exists>v. as_list as_str j = Inr v"
  by (simp add: read_strings)

lemma conforms_float:
  assumes "number_laws lib" and "conforms (JObj [typed ''number'']) j"
  shows "\<exists>x. as_float lib j = Inr x"
proof (cases j)
  case (JFloat q)
  have "fl_number lib (Fin q) = JFloat q" "as_float lib (fl_number lib (Fin q)) = Inr (Fin q)"
    using assms(1) unfolding number_laws_def by blast+
  then show ?thesis by (simp add: JFloat)
qed (use assms(2) [unfolded conforms_scalars] in \<open>simp_all add: as_float_def\<close>)

lemma reads_total:
  "conforms (JObj [typed ''string'']) j \<Longrightarrow> \<exists>x. as_str j = Inr x"
  "conforms (JObj [typed ''string'', described d]) j \<Longrightarrow> \<exists>x. as_str j = Inr x"
  "conforms (JObj [typed ''boolean'']) j \<Longrightarrow> \<exists>b. as_bool j = Inr b"
  "conforms (JObj [typed ''integer'']) j \<Longrightarrow> \<exists>i. as_int j = Inr i"
  "conforms (JObj [typed ''integer'', described d]) j \<Longrightarrow> \<exists>i. as_int j = Inr i"
  "conforms (JObj [typed ''number'']) j \<Longrightarrow> \<exists>q. as_rat j = Inr q"
  "conforms (JObj [typed ''number'', described d]) j \<Longrightarrow> \<exists>q. as_rat j = Inr q"
  "conforms (JObj [(''type'', JList [JStr ''string'', JStr ''null'']), described d]) j \<Longrightarrow> \<exists>x. as_optional as_str j = Inr x"
  "conforms (strings_schema []) j \<Longrightarrow> \<exists>xs. as_list as_str j = Inr xs"
  "conforms (strings_schema [described d]) j \<Longrightarrow> \<exists>xs. as_list as_str j = Inr xs"
  by (auto simp: conforms_scalars conforms_optional conforms_strings read_strings)

lemma assessment_total:
  assumes "number_laws lib" and "conforms assessment_schema j"
  shows "\<exists>a. read_assessment lib j = Inr a"
  unfolding read_assessment_def
  apply (rule model_total [OF assms(2) [unfolded assessment_schema_def]])
   apply (simp add: assessment_properties_def)
  apply (intro bind_total;
      ((rule field_total, assumption, simp add: assessment_properties_def,
       (erule reads_total enum_total conforms_float [OF assms(1)])) | simp))
  done

lemma verdict_total:
  assumes "number_laws lib" and "conforms verdict_schema j"
  shows "\<exists>v. read_verdict lib j = Inr v"
  unfolding read_verdict_def
  apply (rule model_total [OF assms(2) [unfolded verdict_schema_def]])
   apply (simp add: verdict_properties_def)
  apply (intro bind_total;
      ((rule field_total, assumption, simp add: verdict_properties_def,
       (erule reads_total enum_total assessment_total [OF assms(1)])) | simp))
  done

lemma step_total:
  assumes "conforms step_schema j"
  shows "\<exists>t. read_step j = Inr t"
  unfolding read_step_def
  apply (rule model_total [OF assms [unfolded step_schema_def]])
   apply (simp add: step_properties_def)
  apply (intro bind_total;
      ((rule field_total, assumption, simp add: step_properties_def, (erule reads_total enum_total)) | simp))
  done

lemma steps_total:
  assumes "conforms (JObj [typed ''array'', described d, (''items'', step_schema)]) j"
  shows "\<exists>ts. as_list read_step j = Inr ts"
proof -
  have "conforms (JObj [typed ''array'', described d, (''items'', step_schema)]) j \<longleftrightarrow>
      (\<exists>xs. j = JList xs \<and> (\<forall>x \<in> set xs. conforms step_schema x))"
    by (rule conforms_array) (simp_all add: typed_def described_def j_get_def)
  then obtain xs where "j = JList xs" "\<forall>x \<in> set xs. conforms step_schema x" using assms by auto
  then show ?thesis using map_r_total [of xs read_step] step_total by simp
qed

lemma plan_total:
  assumes "conforms plan_schema j"
  shows "\<exists>p. read_plan j = Inr p"
  unfolding read_plan_def
  apply (rule model_total [OF assms [unfolded plan_schema_def]])
   apply (simp add: plan_properties_def)
  apply (intro bind_total;
      ((rule field_total, assumption, simp add: plan_properties_def, (erule reads_total enum_total steps_total)) | simp))
  done

subsection \<open>What the models write conforms\<close>

lemma enum_written:
  "conforms (enum_schema (map fault_text FAULTS)) (JStr (fault_text f))"
  "conforms (enum_schema (map graph_action_value ACTIONS)) (JStr (graph_action_value a))"
  "conforms (enum_schema (map graph_priority_value PRIORITIES)) (JStr (graph_priority_value p))"
  "conforms (enum_schema (map actor_value ACTORS)) (JStr (actor_value c))"
  "conforms (enum_schema (map presence_value PRESENCES)) (JStr (presence_value q))"
  "conforms (enum_schema (map tie_value TIE_BREAKERS)) (JStr (tie_value b))"
  "conforms (enum_schema (map band_value BANDS)) (JStr (band_value d))"
  unfolding conforms_enum
  by (cases f, simp_all add: FAULTS_def)
    (cases a, simp_all add: ACTIONS_def, cases p, simp_all add: PRIORITIES_def,
     cases c, simp_all add: ACTORS_def, cases q, simp_all add: PRESENCES_def,
     cases b, simp_all add: TIE_BREAKERS_def, cases d, simp_all add: BANDS_def)

declare conforms.simps [simp del]

lemmas written_forms = enum_written conforms_scalars conforms_optional conforms_strings

lemma strings_written: "\<exists>xs. map JStr ys = map JStr xs"
  by blast

lemma assessment_written:
  "number_laws lib \<Longrightarrow> ca_collision_rate a = Fin q \<Longrightarrow> conforms assessment_schema (assessment_json lib a)"
  unfolding assessment_schema_def conforms_object
  by (simp add: assessment_json_def assessment_properties_def written_forms number_laws_def strings_written)

lemma verdict_written:
  "number_laws lib \<Longrightarrow> ca_collision_rate (iv_crdt v) = Fin q \<Longrightarrow> conforms verdict_schema (verdict_json lib v)"
  unfolding verdict_schema_def conforms_object
  by (simp add: verdict_json_def verdict_properties_def written_forms assessment_written strings_written)

lemma step_written: "conforms step_schema (step_json t)"
  unfolding step_schema_def conforms_object
  by (simp add: step_json_def step_properties_def written_forms frame_reads)

lemma steps_written: "conforms (JObj [typed ''array'', described d, (''items'', step_schema)]) (JList (map step_json ts))"
  by (subst conforms_array [where it = step_schema]) (auto simp: typed_def described_def j_get_def step_written)

lemma plan_written: "conforms plan_schema (plan_json p)"
  unfolding plan_schema_def conforms_object
  by (simp add: plan_json_def plan_properties_def written_forms steps_written strings_written)

subsection \<open>The turns of a client\<close>

lemma tool_names [simp]:
  "j_get TOPOLOGY_VERDICT_TOOL ''name'' = JStr TOPOLOGY_TOOL_NAME" "j_get ACTION_PLAN_TOOL ''name'' = JStr ACTION_TOOL_NAME"
  by (simp_all add: TOPOLOGY_VERDICT_TOOL_def ACTION_PLAN_TOOL_def tool_def j_get_def)

lemma tool_names_differ [simp]: "ACTION_TOOL_NAME \<noteq> TOPOLOGY_TOOL_NAME" "TOPOLOGY_TOOL_NAME \<noteq> ACTION_TOOL_NAME"
  by (simp_all add: ACTION_TOOL_NAME_def TOPOLOGY_TOOL_NAME_def)

lemma agents_differ [simp]: "AGENT_TWO \<noteq> AGENT_ONE"
  by (simp add: AGENT_ONE_def AGENT_TWO_def)

lemma known_nodes_finite: "analyse_topology fmt p s = Inr t \<Longrightarrow> finite (ta_known_nodes t)"
  by (drule analyse_topology_Inr) (auto simp: analysis_of_fields known_nodes_def neighbour_ids_def)

text \<open>What the engine runs on: the first agent's turns, then the second's, for the verdict that was accepted.\<close>

lemma framed_agents_first:
  "ag_emit (framed_agents lib client env store s p t) AGENT_ONE = ag_emit (isolator_agents lib client p t) AGENT_ONE"
  "ag_parse_verdict (framed_agents lib client env store s p t) = parsed (read_verdict lib)"
  "ag_parse_plan (framed_agents lib client env store s p t) = parsed read_plan"
  "ag_format (framed_agents lib client env store s p t) = fl_format lib"
  by (auto simp: framed_agents_def isolator_agents_def Let_def split: sum.splits)

lemma framed_isolator:
  "run_topology_isolator (framed_agents lib client env store s p t) s t =
   run_topology_isolator (isolator_agents lib client p t) s t"
  by (simp add: run_topology_isolator_def framed_agents_first) (simp add: isolator_agents_def)

lemma framed_agents_second:
  assumes "run_topology_isolator (isolator_agents lib client p t) s t = Inr (v, tr)"
  shows "ag_emit (framed_agents lib client env store s p t) AGENT_TWO =
    (\<lambda>k. client k AGENT_TWO_SYSTEM_PROMPT (planner_briefing lib s p t v (retrieve env store s p v)) ACTION_PLAN_TOOL)"
  using assms by (simp add: framed_agents_def Let_def)

text \<open>Over an offline client that is too slow every turn of the first agent times out.\<close>

lemma slow_isolator:
  assumes "\<not> cs_cloud cs" and "slow_turn s (cs_latency_ms cs)"
    and "build_agent_client lib installed exchange s cs = Some client"
  shows "run_topology_isolator (framed_agents lib client env store s p t) s t =
    fst (invoke AGENT_ONE (\<lambda>k. Inl AgentTimedOut) s)"
proof -
  have client: "client k sys briefing tl = EmTimeout" for k sys briefing tl
    using assms by (auto simp: build_agent_client_def)
  show ?thesis
    by (simp add: run_topology_isolator_def framed_agents_first) (simp add: isolator_agents_def client attempt_turn_def)
qed

lemma slow_isolator_fails:
  assumes "\<not> cs_cloud cs" and "slow_turn s (cs_latency_ms cs)"
    and "build_agent_client lib installed exchange s cs = Some client"
  shows "\<exists>e. run_topology_isolator (framed_agents lib client env store s p t) s t = Inl e"
  unfolding slow_isolator [OF assms]
  using invoke_answers_iff [of AGENT_ONE "\<lambda>k. Inl AgentTimedOut :: agent_error + (isolation_verdict \<times> nat \<times> nat)" s]
  by (metis isl_def obj_sumE sum.disc(1))

section \<open>Properties\<close>

text \<open>
  C22: The tool schemas and the answer models fit each other.  Whatever an agent answers within the schema of
  its tool is read by the model, so a conforming answer is never refused for its shape; and what a model
  writes conforms to the schema (a verdict, where its collision rate is finite) and is read back unchanged.
\<close>
theorem schemas_fit_models:
  assumes "number_laws lib"
  shows "(conforms verdict_schema j \<longrightarrow> (\<exists>v. read_verdict lib j = Inr v)) \<and>
    (conforms plan_schema j \<longrightarrow> (\<exists>p. read_plan j = Inr p)) \<and>
    read_verdict lib (verdict_json lib v) = Inr v \<and> read_plan (plan_json p) = Inr p \<and>
    conforms plan_schema (plan_json p) \<and>
    (ca_collision_rate (iv_crdt v) = Fin q \<longrightarrow> conforms verdict_schema (verdict_json lib v))"
  using verdict_total [OF assms] plan_total assms
  by (intro conjI impI) (simp_all add: frame_reads plan_written verdict_written)

text \<open>
  C9: The offline agents need nothing but their briefings.  Reading only the JSON it is handed, each answers
  what the rules compose from the analysis, the verdict and the guidelines themselves; so the engine over
  the offline client gives what it gives over those rules under the same simulated latency, on every payload,
  up to the token counts of the trace.
\<close>
theorem offline_agents_read_briefings:
  assumes "number_laws lib" and "\<not> cs_cloud cs"
    and "build_agent_client lib installed exchange s cs = Some client"
    and "analyse_topology (fl_format lib) p s = Inr t"
    and "offline_answers (fl_format lib) env store s p t = (v, plan)"
  shows "without_trace (run_framed lib client env store s p) =
    without_trace (run_engine (offline_agents s (cs_latency_ms cs) (fl_format lib) i o' v plan) s p)"
proof (cases "slow_turn s (cs_latency_ms cs)")
  case True
  let ?B = "offline_agents s (cs_latency_ms cs) (fl_format lib) i o' v plan"
  have "run_topology_isolator ?B s t = fst (invoke AGENT_ONE (\<lambda>k. Inl AgentTimedOut) s)"
    by (simp add: run_topology_isolator_def offline_agents_def True attempt_turn_def)
  then have "run_topology_isolator (framed_agents lib client env store s p t) s t = run_topology_isolator ?B s t"
    using slow_isolator [OF assms(2) True assms(3)] by simp
  moreover obtain e where "run_topology_isolator ?B s t = Inl e"
    using slow_isolator_fails [OF assms(2) True assms(3), of env store p t] calculation by auto
  ultimately show ?thesis
    using assms(4) by (simp add: run_framed_def run_engine_def framed_agents_first offline_agents_def)
next
  case fast: False
  let ?A = "framed_agents lib client env store s p t" and ?B = "offline_agents s (cs_latency_ms cs) (fl_format lib) i o' v plan"
  have client: "client k sys briefing tl = offline_emit lib sys briefing tl" for k sys briefing tl
    using assms(2,3) fast by (auto simp: build_agent_client_def)
  have v: "v = topology_verdict (fl_format lib) t"
    "plan = rule_action_plan (fl_format lib) (engine_briefing env store s p t v)"
    using assms(5) by (auto simp: offline_answers_def Let_def)
  have B: "answers_with (ag_parse_verdict ?B) (ag_emit ?B AGENT_ONE) v"
    "answers_with (ag_parse_plan ?B) (ag_emit ?B AGENT_TWO) plan"
    using fast by (simp_all add: answers_with_def offline_agents_def)
  have A1: "answers_with (ag_parse_verdict ?A) (ag_emit ?A AGENT_ONE) v"
    unfolding framed_agents_first
    by (simp add: answers_with_def isolator_agents_def client offline_emit_def framed_verdict_written [OF assms(1)]
        parsed_def frame_reads assms(1) v(1))
  have A2: "answers_with (ag_parse_plan ?A) (ag_emit ?A AGENT_TWO) plan"
    if "run_topology_isolator ?A s t = Inr (v', tr)" for v' tr
  proof -
    have "v' = v" by (rule isolator_answer [OF A1 that])
    then have "run_topology_isolator (isolator_agents lib client p t) s t = Inr (v, tr)"
      using that unfolding framed_isolator by simp
    from framed_agents_second [OF this] show ?thesis
      by (simp add: answers_with_def framed_agents_first client offline_emit_def framed_plan_written [OF assms(1)]
          parsed_def frame_reads v(2) engine_briefing_def)
  qed
  have "without_trace (run_engine ?A s p) = without_trace (run_engine ?B s p)"
  proof (rule engines_agree)
    show "ag_format ?A = ag_format ?B" by (simp add: framed_agents_first offline_agents_def)
    show "forget_tokens (run_topology_isolator ?A s t') = forget_tokens (run_topology_isolator ?B s t')" for t'
      by (rule isolators_agree [OF A1 B(1)])
    show "forget_tokens (run_action_planner ?A s t') = forget_tokens (run_action_planner ?B s t')"
      if "analyse_topology (ag_format ?B) p s = Inr t'" "run_topology_isolator ?A s t' = Inr (v', tr)" for t' v' tr
    proof -
      have "t' = t" using that(1) assms(4) by (simp add: offline_agents_def)
      then show ?thesis using planners_agree [OF A2 B(2)] that(2) by simp
    qed
  qed
  then show ?thesis by (simp add: run_framed_def assms(4))
qed

text \<open>
  Both agents are told the graph they are checked against.  The permitted nodes of either briefing are
  the nodes of the analysis, each once, and the check of an answer is what the prompt says: a verdict is
  accepted exactly if every node it names is in the list it was given and a cascade comes with its path, a
  plan exactly if its target and the targets of its steps are in the list.
\<close>
theorem agents_know_the_graph:
  assumes "analyse_topology fmt p s = Inr t"
  shows "\<exists>ns. map_of (isolator_briefing lib p t) ''permitted_nodes'' = Some (jstrs ns) \<and>
    map_of (planner_briefing lib s p t v guidelines) ''permitted_nodes'' = Some (jstrs ns) \<and>
    map_of (analysis_fields lib t) ''permitted_nodes'' = Some (jstrs ns) \<and>
    sorted ns \<and> distinct ns \<and>
    (\<forall>u. validate_verdict t u \<longleftrightarrow>
       iv_root_cause u \<in> set ns \<and> set (iv_cascade_path u) \<subseteq> set ns \<and> set (iv_blast_radius u) \<subseteq> set ns \<and>
       (iv_fault u = InheritedCascade \<longrightarrow> iv_cascade_path u \<noteq> [])) \<and>
    (\<forall>q. validate_plan t q \<longleftrightarrow> sp_target q \<in> set ns \<and> st_target ` set (sp_steps q) \<subseteq> set ns)"
proof (intro exI conjI)
  let ?ns = "sorted_list_of_set (ta_known_nodes t)"
  show "map_of (isolator_briefing lib p t) ''permitted_nodes'' = Some (jstrs ?ns)"
    by (simp add: isolator_briefing_def)
  show "map_of (planner_briefing lib s p t v guidelines) ''permitted_nodes'' = Some (jstrs ?ns)"
    by (simp add: planner_briefing_def)
  show "map_of (analysis_fields lib t) ''permitted_nodes'' = Some (jstrs ?ns)"
    by (simp add: analysis_fields_def)
  have f: "finite (ta_known_nodes t)" by (rule known_nodes_finite [OF assms])
  show "\<forall>u. validate_verdict t u \<longleftrightarrow>
       iv_root_cause u \<in> set ?ns \<and> set (iv_cascade_path u) \<subseteq> set ?ns \<and> set (iv_blast_radius u) \<subseteq> set ?ns \<and>
       (iv_fault u = InheritedCascade \<longrightarrow> iv_cascade_path u \<noteq> [])"
    using f by (auto simp: validate_verdict_def)
  show "\<forall>q. validate_plan t q \<longleftrightarrow> sp_target q \<in> set ?ns \<and> st_target ` set (sp_steps q) \<subseteq> set ?ns"
    using f by (simp add: validate_plan_def)
qed simp_all

text \<open>
  C7: Where a live command comes from.  If the engine over the live client answers, its verdict was read from
  the input of a tool call that the provider made in reply to a request with the isolator's prompt, its
  briefing and the one forced tool; and its plan is what the guardrails make of a plan read the same way
  from the reply to the planner's request, whose briefing holds that verdict and the guidelines retrieved for
  it.  Nothing else the provider says, other blocks and other tools included, can reach the command,
  except that the token counts of its replies are noted in the trace.
\<close>
theorem live_command_provenance:
  assumes "build_agent_client lib installed exchange s cs = Some client" and "cs_cloud cs"
    and "run_framed lib client env store s p = Inr out"
  shows "\<exists>t v k1 r1 b1 kvs1 k2 r2 b2 kvs2 q.
    analyse_topology (fl_format lib) p s = Inr t \<and> eo_verdict out = v \<and>
    exchange k1 (tool_call_request (cs_agent_model cs) (cs_max_tokens cs) AGENT_ONE_SYSTEM_PROMPT
      (isolator_briefing lib p t) TOPOLOGY_VERDICT_TOOL) = WireReply r1 \<and>
    find (is_call_of (JStr TOPOLOGY_TOOL_NAME)) (tp_content r1) = Some b1 \<and> rb_input b1 = Some (JObj kvs1) \<and>
    read_verdict lib (JObj kvs1) = Inr v \<and> verdict_ok v \<and> validate_verdict t v \<and>
    exchange k2 (tool_call_request (cs_agent_model cs) (cs_max_tokens cs) AGENT_TWO_SYSTEM_PROMPT
      (planner_briefing lib s p t v (retrieve env store s p v)) ACTION_PLAN_TOOL) = WireReply r2 \<and>
    find (is_call_of (JStr ACTION_TOOL_NAME)) (tp_content r2) = Some b2 \<and> rb_input b2 = Some (JObj kvs2) \<and>
    read_plan (JObj kvs2) = Inr q \<and> plan_ok q \<and> validate_plan t q \<and>
    enforce_safety_invariants s q v t = (eo_plan out, eo_guardrails out)"
proof -
  obtain t where t: "analyse_topology (fl_format lib) p s = Inr t"
    using assms(3) by (cases "analyse_topology (fl_format lib) p s") (auto simp: run_framed_def)
  let ?A = "framed_agents lib client env store s p t"
  have run: "run_engine ?A s p = Inr out" using assms(3) by (simp add: run_framed_def t)
  obtain v q tr1 tr2 where v: "run_topology_isolator ?A s t = Inr (v, tr1)"
    and q: "run_action_planner ?A s t = Inr (q, tr2)"
    and out: "enforce_safety_invariants s q v t = (eo_plan out, eo_guardrails out)" "eo_verdict out = v"
    using run_engine_Inr [OF run] t by (metis framed_agents_first(4) sum.inject(2))
  have client: "client k sys briefing tl =
      cloud_emit (exchange k) (cs_agent_model cs) (cs_max_tokens cs) sys briefing tl" for k sys briefing tl
    using assms(1,2) by (auto simp: build_agent_client_def split: if_splits)
  have call: "\<exists>r b kvs. exch (tool_call_request m n sys briefing tl) = WireReply r \<and>
      find (is_call_of (j_get tl ''name'')) (tp_content r) = Some b \<and> rb_input b = Some (JObj kvs) \<and> j = JObj kvs"
    if "cloud_emit exch m n sys briefing tl = EmAnswer j i o'" for exch m n sys briefing tl j i o'
    using that by (auto simp: cloud_emit_def split: wire_outcome.splits option.splits json.splits)
  obtain k1 i1 o1 j1 where 1: "ag_emit ?A AGENT_ONE k1 = EmAnswer j1 i1 o1" "parsed (read_verdict lib) j1 = Some v"
    "verdict_ok v" "validate_verdict t v"
    using invoke_sound [OF v [unfolded run_topology_isolator_def]] framed_agents_first by (auto simp: attempt_turn_Inr)
  obtain k2 i2 o2 j2 where 2: "ag_emit ?A AGENT_TWO k2 = EmAnswer j2 i2 o2" "parsed read_plan j2 = Some q"
    "plan_ok q" "validate_plan t q"
    using invoke_sound [OF q [unfolded run_action_planner_def]] framed_agents_first by (auto simp: attempt_turn_Inr)
  have e1: "cloud_emit (exchange k1) (cs_agent_model cs) (cs_max_tokens cs) AGENT_ONE_SYSTEM_PROMPT
      (isolator_briefing lib p t) TOPOLOGY_VERDICT_TOOL = EmAnswer j1 i1 o1"
    using 1(1) by (simp add: framed_agents_first isolator_agents_def client)
  have e2: "cloud_emit (exchange k2) (cs_agent_model cs) (cs_max_tokens cs) AGENT_TWO_SYSTEM_PROMPT
      (planner_briefing lib s p t v (retrieve env store s p v)) ACTION_PLAN_TOOL = EmAnswer j2 i2 o2"
    using 2(1) framed_agents_second [OF v [unfolded framed_isolator]] by (simp add: client)
  have r: "read_verdict lib j1 = Inr v" "read_plan j2 = Inr q"
    using 1(2) 2(2) by (simp_all add: parsed_def split: sum.splits)
  obtain r1 b1 kvs1 where c1: "exchange k1 (tool_call_request (cs_agent_model cs) (cs_max_tokens cs)
      AGENT_ONE_SYSTEM_PROMPT (isolator_briefing lib p t) TOPOLOGY_VERDICT_TOOL) = WireReply r1"
    "find (is_call_of (JStr TOPOLOGY_TOOL_NAME)) (tp_content r1) = Some b1" "rb_input b1 = Some (JObj kvs1)"
    "j1 = JObj kvs1"
    using call [OF e1] by auto
  obtain r2 b2 kvs2 where c2: "exchange k2 (tool_call_request (cs_agent_model cs) (cs_max_tokens cs)
      AGENT_TWO_SYSTEM_PROMPT (planner_briefing lib s p t v (retrieve env store s p v)) ACTION_PLAN_TOOL) = WireReply r2"
    "find (is_call_of (JStr ACTION_TOOL_NAME)) (tp_content r2) = Some b2" "rb_input b2 = Some (JObj kvs2)"
    "j2 = JObj kvs2"
    using call [OF e2] by auto
  show ?thesis
    using t out 1(3,4) 2(3,4) r c1 c2 by blast
qed

text \<open>
  A client that simulates a latency as long as a turn may last, or longer, never answers: both settings are
  within their bounds, and every request is refused after the last attempt.
\<close>
theorem slow_client_never_answers:
  assumes "\<not> cs_cloud cs" and "slow_turn s (cs_latency_ms cs)"
    and "build_agent_client lib installed exchange s cs = Some client" and "1 \<le> set_max_attempts s"
    and "analyse_topology (fl_format lib) p s = Inr t"
  shows "run_framed lib client env store s p = Inl (AgentFailed AgentTimedOut)"
proof -
  have "run_topology_isolator (framed_agents lib client env store s p t) s t = Inl AgentTimedOut"
    unfolding slow_isolator [OF assms(1-3)]
    using invoke_outcome [of s "\<lambda>k. Inl AgentTimedOut :: agent_error + (isolation_verdict \<times> nat \<times> nat)" AGENT_ONE]
      assms(4) by auto
  then show ?thesis using assms(5) by (simp add: run_framed_def run_engine_def framed_agents_first)
qed

text \<open>The client is refused exactly when the live one is asked for without a key or on a host without its package.\<close>
theorem agent_client_refused:
  "build_agent_client lib installed exchange s cs = None \<longleftrightarrow>
     cs_cloud cs \<and> (cs_api_key cs = [] \<or> \<not> installed)"
  by (simp add: build_agent_client_def)

section \<open>Witnesses\<close>

definition demo_lib :: frame_lib where
  "demo_lib =
     \<lparr>fl_number = (\<lambda>x. case x of Fin q \<Rightarrow> JFloat q | PInf \<Rightarrow> JStr ''inf'' | MInf \<Rightarrow> JStr ''-inf'' | NaN \<Rightarrow> JStr ''nan''),
      fl_unnumber = (\<lambda>j. case j of JFloat q \<Rightarrow> Some (Fin q)
        | JStr t \<Rightarrow> if t = ''inf'' then Some PInf else if t = ''-inf'' then Some MInf
                   else if t = ''nan'' then Some NaN else None
        | _ \<Rightarrow> None),
      fl_format = (\<lambda>x. []), fl_isoformat = (\<lambda>t. ''2024-01-01T00:00:00Z''), fl_origin_replica = None,
      fl_last_synced = (\<lambda>r. JNull), fl_text_length = (\<lambda>j. 400)\<rparr>"

lemma demo_laws_hold: "number_laws demo_lib"
proof -
  have "as_float demo_lib (fl_number demo_lib x) = Inr x" for x
    by (cases x) (simp_all add: demo_lib_def as_float_def)
  then show ?thesis by (simp add: number_laws_def) (simp add: demo_lib_def)
qed

definition demo_client_settings :: "bool \<Rightarrow> int \<Rightarrow> client_settings" where
  "demo_client_settings cloud latency =
     \<lparr>cs_cloud = cloud, cs_api_key = ''key'', cs_agent_model = ''m'', cs_max_tokens = 4096, cs_latency_ms = latency\<rparr>"

text \<open>A provider that always says the same: some text and both calls.\<close>

definition demo_reply :: tool_reply where
  "demo_reply =
     \<lparr>tp_content =
        [\<lparr>rb_type = Some ''text'', rb_name = None, rb_input = None\<rparr>,
         \<lparr>rb_type = Some ''tool_use'', rb_name = Some TOPOLOGY_TOOL_NAME, rb_input = Some (verdict_json demo_lib demo_verdict)\<rparr>,
         \<lparr>rb_type = Some ''tool_use'', rb_name = Some ACTION_TOOL_NAME,
          rb_input = Some (plan_json (Graph_Engine.demo_plan EmergencyShutdown False 1))\<rparr>],
      tp_input_tokens = Some 100, tp_output_tokens = None\<rparr>"

abbreviation "frames_payload \<equiv> Graph_Topology.demo_payload [''pump-1'', ''tank-2''] (Fin 10)"

lemma demo_frames_analysed: "\<exists>t. analyse_topology (fl_format demo_lib) frames_payload demo_graph_settings = Inr t"
  using demo_analysed by blast

theorem schemas_fit_models_witness:
  "read_plan (plan_json (Graph_Engine.demo_plan EmergencyShutdown False 1)) = Inr (Graph_Engine.demo_plan EmergencyShutdown False 1) \<and>
   conforms verdict_schema (verdict_json demo_lib demo_verdict)"
proof -
  obtain q where "ca_collision_rate (iv_crdt demo_verdict) = Fin q" by (simp add: demo_verdict_def)
  then show ?thesis
    using schemas_fit_models [OF demo_laws_hold, of JNull demo_verdict "Graph_Engine.demo_plan EmergencyShutdown False 1" q] by blast
qed

theorem offline_agents_read_briefings_witness:
  "\<exists>client t v plan.
     build_agent_client demo_lib False (\<lambda>k r. WireRaised) demo_graph_settings (demo_client_settings False 25) = Some client \<and>
     analyse_topology (fl_format demo_lib) frames_payload demo_graph_settings = Inr t \<and>
     without_trace (run_framed demo_lib client demo_embed (vector_store_init demo_embed MAINTENANCE_CORPUS)
       demo_graph_settings frames_payload) =
     without_trace (run_engine (offline_agents demo_graph_settings 25 (fl_format demo_lib) 0 0 v plan)
       demo_graph_settings frames_payload)"
proof -
  obtain t where t: "analyse_topology (fl_format demo_lib) frames_payload demo_graph_settings = Inr t"
    using demo_frames_analysed by blast
  obtain v plan where a: "offline_answers (fl_format demo_lib) demo_embed (vector_store_init demo_embed MAINTENANCE_CORPUS)
      demo_graph_settings frames_payload t = (v, plan)" by (meson surj_pair)
  obtain client where c: "build_agent_client demo_lib False (\<lambda>k r. WireRaised) demo_graph_settings
      (demo_client_settings False 25) = Some client"
    by (simp add: build_agent_client_def demo_client_settings_def)
  have l: "\<not> cs_cloud (demo_client_settings False 25)" "cs_latency_ms (demo_client_settings False 25) = 25"
    by (simp_all add: demo_client_settings_def)
  show ?thesis using offline_agents_read_briefings [OF demo_laws_hold l(1) c t a, unfolded l(2)] c t by blast
qed

theorem agents_know_the_graph_witness:
  "\<exists>t ns. analyse_topology (fl_format demo_lib) frames_payload demo_graph_settings = Inr t \<and>
     map_of (isolator_briefing demo_lib frames_payload t) ''permitted_nodes'' = Some (jstrs ns) \<and> distinct ns"
proof -
  obtain t where t: "analyse_topology (fl_format demo_lib) frames_payload demo_graph_settings = Inr t"
    using demo_frames_analysed by blast
  show ?thesis using agents_know_the_graph [OF t, of demo_lib demo_verdict "[]"] t by blast
qed

theorem live_command_provenance_witness:
  "\<exists>client out. build_agent_client demo_lib True (\<lambda>k r. WireReply demo_reply) demo_graph_settings
       (demo_client_settings True 0) = Some client \<and>
     run_framed demo_lib client demo_embed (vector_store_init demo_embed MAINTENANCE_CORPUS) demo_graph_settings
       frames_payload = Inr out \<and> eo_verdict out = demo_verdict"
proof -
  obtain t where t: "analyse_topology (fl_format demo_lib) frames_payload demo_graph_settings = Inr t"
    using demo_frames_analysed by blast
  let ?store = "vector_store_init demo_embed MAINTENANCE_CORPUS"
  obtain client where c: "build_agent_client demo_lib True (\<lambda>k r. WireReply demo_reply) demo_graph_settings
      (demo_client_settings True 0) = Some client"
    by (simp add: build_agent_client_def demo_client_settings_def)
  have turn: "client k sys b TOPOLOGY_VERDICT_TOOL = EmAnswer (verdict_json demo_lib demo_verdict) 100 0"
    "client k sys b ACTION_PLAN_TOOL = EmAnswer (plan_json (Graph_Engine.demo_plan EmergencyShutdown False 1)) 100 0" for k sys b
    using c by (auto simp: build_agent_client_def demo_client_settings_def cloud_emit_def demo_reply_def is_call_of_def
        verdict_json_def plan_json_def)
  let ?A = "framed_agents demo_lib client demo_embed ?store demo_graph_settings frames_payload t"
  have one: "ag_emit ?A AGENT_ONE k = EmAnswer (verdict_json demo_lib demo_verdict) 100 0" for k
    by (simp add: framed_agents_first) (simp add: isolator_agents_def turn)
  have parse: "ag_parse_verdict ?A (verdict_json demo_lib demo_verdict) = Some demo_verdict"
    "ag_parse_plan ?A (plan_json (Graph_Engine.demo_plan EmergencyShutdown False 1)) = Some (Graph_Engine.demo_plan EmergencyShutdown False 1)"
    by (simp_all add: framed_agents_first parsed_def frame_reads demo_laws_hold)
  have ok: "verdict_ok demo_verdict"
    by (simp add: demo_verdict_def verdict_ok_def assessment_ok_def len_within_def)
  have val: "validate_verdict t demo_verdict" "validate_plan t (Graph_Engine.demo_plan EmergencyShutdown False 1)"
    unfolding validate_verdict_def validate_plan_def analysis_known_nodes [OF t]
    by (simp_all add: demo_verdict_def Graph_Engine.demo_plan_def demo_step_def Graph_Topology.demo_payload_def demo_context_def known_nodes_def neighbour_ids_def)
  have m: "(1 :: nat) \<le> 1" "1 \<le> set_max_attempts demo_graph_settings" by (simp_all add: demo_graph_settings_def)
  have "\<not> isl (run_topology_isolator ?A demo_graph_settings t)"
    unfolding run_topology_isolator_def invoke_answers_iff
    by (intro exI [of _ 1]) (simp add: one attempt_turn_def parse ok val m [simplified])
  then obtain v tr where v: "run_topology_isolator ?A demo_graph_settings t = Inr (v, tr)"
    by (cases "run_topology_isolator ?A demo_graph_settings t") auto
  note two = framed_agents_second [OF v [unfolded framed_isolator], of demo_embed ?store]
  have an: "analyse_topology (ag_format ?A) frames_payload demo_graph_settings = Inr t" by (simp add: framed_agents_first t)
  have e2: "ag_emit ?A AGENT_TWO 1 = EmAnswer (plan_json (Graph_Engine.demo_plan EmergencyShutdown False 1)) 100 0"
    by (simp add: two turn [simplified])
  have "\<not> isl (run_engine ?A demo_graph_settings frames_payload)"
    unfolding engine_returns using an m one [of 1] e2 parse ok val Graph_Engine.demo_plan_ok(1) by blast
  then obtain out where "run_engine ?A demo_graph_settings frames_payload = Inr out"
    by (cases "run_engine ?A demo_graph_settings frames_payload") auto
  then have run: "run_framed demo_lib client demo_embed ?store demo_graph_settings frames_payload = Inr out"
    by (simp add: run_framed_def t)
  have cl: "cs_cloud (demo_client_settings True 0)" by (simp add: demo_client_settings_def)
  have "eo_verdict out = demo_verdict"
    using live_command_provenance [OF c cl run] read_written_verdict [OF demo_laws_hold, of demo_verdict]
    by (auto simp: demo_reply_def is_call_of_def)
  then show ?thesis using c run by blast
qed

end
