(* ===== verification/Console.thy ===== *)
theory Console
  imports Prelude "HOL-Library.Multiset"
begin

text \<open>
  The operator console (services/operator-console/console.py): the activity log that the two topic tails
  fill, the reader of the twin state, the page state that joins them, the event stream of a page, the tail
  of a topic as a state machine, and the probes.

  Redis is a view of what it answers during one refresh; the parsers of the language for floats and
  integers, the broker's messages and the clock are arguments.  A stored value may read as an infinity or as
  no number.
\<close>

section \<open>Comparison of JSON values\<close>

text \<open>Python compares booleans, integers and floats as numbers, and dictionaries without their order.\<close>

fun num_of :: "json \<Rightarrow> rat option" where
  "num_of (JBool b) = Some (if b then 1 else 0)"
| "num_of (JInt i) = Some (of_int i)"
| "num_of (JFloat q) = Some q"
| "num_of _ = None"

fun json_eq :: "json \<Rightarrow> json \<Rightarrow> bool" and all_json_eq :: "json list \<Rightarrow> json list \<Rightarrow> bool"
  and members_json_eq :: "(string \<times> json) list \<Rightarrow> (string \<times> json) list \<Rightarrow> bool" where
  "json_eq (JStr s) b = (b = JStr s)"
| "json_eq JNull b = (b = JNull)"
| "json_eq (JList xs) b = (case b of JList ys \<Rightarrow> all_json_eq xs ys | _ \<Rightarrow> False)"
| "json_eq (JObj kvs) b =
     (case b of JObj lvs \<Rightarrow> fst ` set kvs = fst ` set lvs \<and> members_json_eq kvs lvs | _ \<Rightarrow> False)"
| "json_eq (JBool x) b = (num_of b = Some (if x then 1 else 0))"
| "json_eq (JInt i) b = (num_of b = Some (of_int i))"
| "json_eq (JFloat q) b = (num_of b = Some q)"
| "all_json_eq [] ys = (ys = [])"
| "all_json_eq (x # xs) ys = (case ys of [] \<Rightarrow> False | y # ys' \<Rightarrow> json_eq x y \<and> all_json_eq xs ys')"
| "members_json_eq [] lvs = True"
| "members_json_eq ((k, x) # kvs) lvs =
     ((case map_of lvs k of Some y \<Rightarrow> json_eq x y | None \<Rightarrow> False) \<and> members_json_eq kvs lvs)"

section \<open>The activity log\<close>

type_synonym entry = "(string \<times> json) list"

record activity_log =
  al_capacity :: nat
  al_mutations :: "entry list"
  al_commands :: "entry list"
  al_revision :: int

text \<open>A deque refuses a negative bound.\<close>

definition activity_init :: "int \<Rightarrow> activity_log raises" where
  "activity_init capacity =
     (if capacity < 0 then Inl ValueError
      else Inr \<lparr>al_capacity = nat capacity, al_mutations = [], al_commands = [], al_revision = 0\<rparr>)"

text \<open>Appending on the left of a bounded deque drops what falls off on the right.\<close>

definition append_left :: "nat \<Rightarrow> 'a \<Rightarrow> 'a list \<Rightarrow> 'a list" where
  "append_left bound x xs = take bound (x # xs)"

text \<open>\<open>record.get(name) or {}\<close>, where only a dictionary has the methods that follow.\<close>

definition dict_or_empty :: "json \<Rightarrow> entry raises" where
  "dict_or_empty j =
     (if py_truthy j then (case j of JObj kvs \<Rightarrow> Inr kvs | _ \<Rightarrow> Inl AttributeErrorExn) else Inr [])"

definition get_or_get :: "entry \<Rightarrow> string \<Rightarrow> string \<Rightarrow> json" where
  "get_or_get r k1 k2 = (if py_truthy (j_get r k1) then j_get r k1 else j_get r k2)"

definition mutation_entry :: "entry \<Rightarrow> entry raises" where
  "mutation_entry r =
     bind_r (dict_or_empty (j_get r ''rule'')) (\<lambda>rule.
     bind_r (dict_or_empty (j_get r ''ontology_context'')) (\<lambda>ctx.
       Inr [(''event_id'', j_get r ''event_id''),
            (''asset_id'', j_get r ''asset_id''),
            (''asset_name'', j_get ctx ''asset_name''),
            (''transition'', j_get r ''transition''),
            (''severity'', j_get r ''severity''),
            (''sensor_id'', j_get rule ''sensor_id''),
            (''observed_value'', j_get rule ''observed_value''),
            (''threshold'', j_get rule ''threshold''),
            (''unit'', j_get rule ''unit''),
            (''exceeded_pct'', j_get rule ''exceeded_pct''),
            (''degraded'', j_get_default r ''degraded'' (JBool False)),
            (''degraded_reason'', j_get r ''degraded_reason''),
            (''criticality'', j_get ctx ''criticality''),
            (''site'', j_get ctx ''site''),
            (''source'', j_get ctx ''source''),
            (''emitted_at'', j_get r ''emitted_at'')]))"

definition command_entry :: "entry \<Rightarrow> entry" where
  "command_entry r =
     [(''command_id'', j_get r ''command_id''),
      (''plan_id'', j_get r ''plan_id''),
      (''event_id'', get_or_get r ''source_event_id'' ''event_id''),
      (''asset_id'', get_or_get r ''target_asset_id'' ''asset_id''),
      (''component'', j_get r ''target_component''),
      (''action'', get_or_get r ''action_type'' ''action''),
      (''priority'', get_or_get r ''execution_priority'' ''priority''),
      (''sequence'', j_get r ''sequence''),
      (''assigned_to'', j_get r ''assigned_to''),
      (''requires_human_approval'', j_get r ''requires_human_approval''),
      (''expected_effect'', j_get r ''expected_effect''),
      (''rollback'', j_get r ''rollback''),
      (''confidence'', j_get r ''confidence''),
      (''tenant'', j_get r ''tenant''),
      (''issued_at'', get_or_get r ''issued_at'' ''emitted_at'')]"

text \<open>The handlers of the two topics; a record that is not a dictionary has no \<open>get\<close>.\<close>

definition add_mutation :: "json \<Rightarrow> activity_log \<Rightarrow> activity_log raises" where
  "add_mutation j a =
     (case j of
        JObj r \<Rightarrow>
          bind_r (mutation_entry r) (\<lambda>e.
            Inr (a\<lparr>al_mutations := append_left (al_capacity a) e (al_mutations a), al_revision := al_revision a + 1\<rparr>))
      | _ \<Rightarrow> Inl AttributeErrorExn)"

definition add_command :: "json \<Rightarrow> activity_log \<Rightarrow> activity_log raises" where
  "add_command j a =
     (case j of
        JObj r \<Rightarrow>
          Inr (a\<lparr>al_commands := append_left (al_capacity a) (command_entry r) (al_commands a),
                 al_revision := al_revision a + 1\<rparr>)
      | _ \<Rightarrow> Inl AttributeErrorExn)"

definition recent_mutations :: "activity_log \<Rightarrow> nat \<Rightarrow> entry list" where
  "recent_mutations a n = take n (al_mutations a)"

definition recent_commands :: "activity_log \<Rightarrow> nat \<Rightarrow> entry list" where
  "recent_commands a n = take n (al_commands a)"

text \<open>
  \<open>sorted(matched, key=lambda c: c.get("sequence") or 0)\<close>: numbers are compared with numbers and texts
  with texts; two keys of other kinds raise (arrays,
  which Python would compare element by element, are counted among these: no producer writes one).
\<close>

definition sequence_key :: "entry \<Rightarrow> json" where
  "sequence_key c = (let s = j_get c ''sequence'' in if py_truthy s then s else JInt 0)"

definition text_of :: "json \<Rightarrow> string option" where
  "text_of j = (case j of JStr s \<Rightarrow> Some s | _ \<Rightarrow> None)"

definition in_sequence :: "entry list \<Rightarrow> entry list raises" where
  "in_sequence cs =
     (if length cs \<le> 1 then Inr cs
      else if list_all (\<lambda>c. num_of (sequence_key c) \<noteq> None) cs
      then Inr (sort_key (\<lambda>c. the (num_of (sequence_key c))) cs)
      else if list_all (\<lambda>c. text_of (sequence_key c) \<noteq> None) cs
      then Inr (sort_key (\<lambda>c. the (text_of (sequence_key c))) cs)
      else Inl TypeErrorExn)"

definition plans_for :: "activity_log \<Rightarrow> json \<Rightarrow> entry list raises" where
  "plans_for a event_id =
     (if \<not> py_truthy event_id then Inr []
      else in_sequence (filter (\<lambda>c. json_eq (j_get c ''event_id'') event_id) (al_commands a)))"

fun focus :: "activity_log \<Rightarrow> entry list \<Rightarrow> (entry \<times> entry list) option raises" where
  "focus a [] = Inr None"
| "focus a (m # ms) =
     (if j_get m ''transition'' = JStr ''CLEARED'' then focus a ms
      else bind_r (plans_for a (j_get m ''event_id'')) (\<lambda>plan.
             if plan \<noteq> [] then Inr (Some (m, plan)) else focus a ms))"

section \<open>The twin state\<close>

text \<open>
  What Redis answers in a refresh: the keys a scan finds, the members of a set, and the hashes one pipeline
  fetches for an asset; None when the call fails.  A hash is empty when its key is absent.
\<close>

record redis_view =
  rv_scan :: "string list option"
  rv_members :: "string \<Rightarrow> string list option"
  rv_pipeline :: "string \<Rightarrow> bool"
  rv_hash :: "string \<Rightarrow> (string \<times> string) list"

record parsers =
  ps_float :: "string \<Rightarrow> pyfloat option"
  ps_int :: "string \<Rightarrow> int option"

record alarm_state =
  as_severity :: "string option"
  as_transition :: "string option"
  as_breach_count :: int
  as_active_since :: "string option"
  as_value :: "pyfloat option"

record channel_state =
  ch_sensor_id :: string
  ch_value :: "pyfloat option"
  ch_unit :: string
  ch_observed_at_ms :: pyfloat
  ch_age_seconds :: "pyfloat option"
  ch_alarm :: "alarm_state option"

text \<open>The snapshot of an asset without sensors has no alarm count.\<close>

record asset_state =
  an_asset_id :: string
  an_sensors :: "channel_state list"
  an_alarm :: "(string \<times> alarm_state) option"
  an_alarm_count :: "nat option"

definition as_float_text :: "parsers \<Rightarrow> string option \<Rightarrow> pyfloat option" where
  "as_float_text ps v = (case v of None \<Rightarrow> None | Some t \<Rightarrow> ps_float ps t)"

text \<open>\<open>float(text or 0)\<close> and \<open>int(text or 0)\<close>.\<close>

definition float_or_zero :: "parsers \<Rightarrow> string option \<Rightarrow> pyfloat raises" where
  "float_or_zero ps v =
     (case v of Some t \<Rightarrow> if t = [] then Inr (Fin 0) else (case ps_float ps t of Some x \<Rightarrow> Inr x | None \<Rightarrow> Inl ValueError)
      | None \<Rightarrow> Inr (Fin 0))"

definition int_or_zero :: "parsers \<Rightarrow> string option \<Rightarrow> int raises" where
  "int_or_zero ps v =
     (case v of Some t \<Rightarrow> if t = [] then Inr 0 else (case ps_int ps t of Some n \<Rightarrow> Inr n | None \<Rightarrow> Inl ValueError)
      | None \<Rightarrow> Inr 0)"

text \<open>The age is floored at zero before it is rounded; a reading without a time has none.\<close>

fun age_seconds :: "rat \<Rightarrow> pyfloat \<Rightarrow> pyfloat option" where
  "age_seconds now_ms (Fin x) = (if x = 0 then None else Some (Fin (py_round (max 0 ((now_ms - x) / 1000)) 1)))"
| "age_seconds now_ms PInf = Some (Fin 0)"
| "age_seconds now_ms MInf = Some PInf"
| "age_seconds now_ms NaN = Some (Fin 0)"

definition read_alarm :: "parsers \<Rightarrow> (string \<times> string) list \<Rightarrow> alarm_state option raises" where
  "read_alarm ps h =
     (if h = [] then Inr None
      else bind_r (int_or_zero ps (map_of h ''breach_count'')) (\<lambda>n.
        Inr (Some \<lparr>as_severity = map_of h ''severity'', as_transition = map_of h ''transition'', as_breach_count = n,
                   as_active_since = map_of h ''active_since'', as_value = as_float_text ps (map_of h ''value'')\<rparr>)))"

definition read_channel ::
    "parsers \<Rightarrow> rat \<Rightarrow> string \<Rightarrow> (string \<times> string) list \<Rightarrow> (string \<times> string) list \<Rightarrow> channel_state option raises" where
  "read_channel ps now_ms sensor reading alarm =
     (if reading = [] then Inr None
      else bind_r (float_or_zero ps (map_of reading ''observed_at_ms'')) (\<lambda>observed.
           bind_r (read_alarm ps alarm) (\<lambda>al.
             Inr (Some \<lparr>ch_sensor_id = sensor, ch_value = as_float_text ps (map_of reading ''value''),
                        ch_unit = (case map_of reading ''unit'' of Some u \<Rightarrow> u | None \<Rightarrow> []),
                        ch_observed_at_ms = observed, ch_age_seconds = age_seconds now_ms observed,
                        ch_alarm = al\<rparr>))))"

definition twin_key :: "string \<Rightarrow> string \<Rightarrow> string \<Rightarrow> string" where
  "twin_key kind asset sensor = kind @ '':'' @ asset @ '':'' @ sensor"

definition is_critical :: "alarm_state \<Rightarrow> bool" where
  "is_critical s \<longleftrightarrow> as_severity s = Some ''CRITICAL''"

text \<open>The first of the worst: \<open>max\<close> keeps the earliest of equals.\<close>

definition headline :: "(string \<times> alarm_state) list \<Rightarrow> (string \<times> alarm_state) option" where
  "headline active =
     (case active of [] \<Rightarrow> None
      | x # xs \<Rightarrow> (case find (\<lambda>(s, al). is_critical al) active of Some y \<Rightarrow> Some y | None \<Rightarrow> Some x))"

definition snapshot :: "parsers \<Rightarrow> redis_view \<Rightarrow> rat \<Rightarrow> string \<Rightarrow> asset_state raises" where
  "snapshot ps rv now_ms asset =
     (case rv_members rv (''twinindex:'' @ asset) of
        None \<Rightarrow> Inl OSErrorExn
      | Some members \<Rightarrow>
          (let sensors = sort (remdups members) in
           if sensors = [] then Inr \<lparr>an_asset_id = asset, an_sensors = [], an_alarm = None, an_alarm_count = None\<rparr>
           else if \<not> rv_pipeline rv asset then Inl OSErrorExn
           else bind_r (map_r (\<lambda>s. read_channel ps now_ms s (rv_hash rv (twin_key ''twin'' asset s))
                                     (rv_hash rv (twin_key ''twinalarm'' asset s))) sensors) (\<lambda>found.
             let channels = [c. Some c \<leftarrow> found];
                 active = [(ch_sensor_id c, al). c \<leftarrow> channels, Some al \<leftarrow> [ch_alarm c]]
             in Inr \<lparr>an_asset_id = asset, an_sensors = channels, an_alarm = headline active,
                     an_alarm_count = Some (length active)\<rparr>)))"

definition asset_ids :: "redis_view \<Rightarrow> string list raises" where
  "asset_ids rv =
     (case rv_scan rv of
        None \<Rightarrow> Inl OSErrorExn
      | Some keys \<Rightarrow>
          Inr (sort (remdups (map (drop (length ''twinindex:'')) (filter (\<lambda>k. str_startswith k ''twinindex:'') keys)))))"

section \<open>The page\<close>

text \<open>The assets read before the first failure stay on the page, which is then marked unhealthy.\<close>

fun gather :: "(string \<Rightarrow> asset_state raises) \<Rightarrow> string list \<Rightarrow> asset_state list \<times> bool" where
  "gather read [] = ([], True)"
| "gather read (i # is) =
     (case read i of
        Inl e \<Rightarrow> ([], False)
      | Inr s \<Rightarrow> (let (ss, ok) = gather read is in (s # ss, ok)))"

definition read_assets :: "parsers \<Rightarrow> redis_view \<Rightarrow> rat \<Rightarrow> asset_state list \<times> bool" where
  "read_assets ps rv now_ms =
     (case asset_ids rv of Inl e \<Rightarrow> ([], False) | Inr ids \<Rightarrow> gather (snapshot ps rv now_ms) ids)"

definition page_rank :: "asset_state \<Rightarrow> int \<times> string" where
  "page_rank s =
     (case an_alarm s of
        None \<Rightarrow> (2, an_asset_id s)
      | Some (sensor, al) \<Rightarrow> (if is_critical al then 0 else 1, an_asset_id s))"

record page_state =
  pg_generated_at :: rat
  pg_revision :: int
  pg_healthy :: bool
  pg_assets :: "asset_state list"
  pg_mutations :: "entry list"
  pg_commands :: "entry list"
  pg_focus :: "(entry \<times> entry list) option"
  pg_counts :: "nat \<times> nat \<times> nat \<times> nat"

definition build_state :: "parsers \<Rightarrow> redis_view \<Rightarrow> rat \<Rightarrow> nat \<Rightarrow> activity_log \<Rightarrow> page_state raises" where
  "build_state ps rv now n a =
     (let (found, ok) = read_assets ps rv (now * 1000);
          assets = sort_key page_rank found; ms = recent_mutations a n; cs = recent_commands a n
      in bind_r (focus a ms) (\<lambda>f.
           Inr \<lparr>pg_generated_at = now, pg_revision = al_revision a, pg_healthy = ok, pg_assets = assets,
                pg_mutations = ms, pg_commands = cs, pg_focus = f,
                pg_counts = (length assets, length (filter (\<lambda>s. an_alarm s \<noteq> None) assets), length ms, length cs)\<rparr>))"

text \<open>The JSON response refuses a number that is not finite; the stream's encoder does not.\<close>

definition finite_opt :: "pyfloat option \<Rightarrow> bool" where
  "finite_opt v = (case v of None \<Rightarrow> True | Some x \<Rightarrow> is_finite x)"

definition alarm_finite :: "alarm_state \<Rightarrow> bool" where
  "alarm_finite al = finite_opt (as_value al)"

definition channel_finite :: "channel_state \<Rightarrow> bool" where
  "channel_finite c \<longleftrightarrow>
     finite_opt (ch_value c) \<and> is_finite (ch_observed_at_ms c) \<and> finite_opt (ch_age_seconds c) \<and>
     (case ch_alarm c of None \<Rightarrow> True | Some al \<Rightarrow> alarm_finite al)"

definition page_finite :: "page_state \<Rightarrow> bool" where
  "page_finite p \<longleftrightarrow>
     list_all (\<lambda>s. list_all channel_finite (an_sensors s) \<and>
       (case an_alarm s of None \<Rightarrow> True | Some (sensor, al) \<Rightarrow> alarm_finite al)) (pg_assets p)"

definition api_state :: "parsers \<Rightarrow> redis_view \<Rightarrow> rat \<Rightarrow> activity_log \<Rightarrow> page_state raises" where
  "api_state ps rv now a =
     bind_r (build_state ps rv now 40 a) (\<lambda>p. if page_finite p then Inr p else Inl ValueError)"

section \<open>The event stream\<close>

record stream_state =
  sm_last_revision :: int
  sm_last_push :: rat

definition stream_init :: stream_state where
  "stream_init = \<lparr>sm_last_revision = -1, sm_last_push = 0\<rparr>"

text \<open>One round of the loop while the page is connected: the state, and the clock after it was built.\<close>

definition stream_tick :: "page_state \<Rightarrow> rat \<Rightarrow> stream_state \<Rightarrow> page_state option \<times> stream_state" where
  "stream_tick p now s =
     (if pg_revision p \<noteq> sm_last_revision s \<or> now - sm_last_push s > 15
      then (Some p, \<lparr>sm_last_revision = pg_revision p, sm_last_push = now\<rparr>)
      else (None, s))"

text \<open>A stream ends when the page disconnects, or with the exception of a round.\<close>

fun stream_run :: "(bool \<times> page_state raises \<times> rat) list \<Rightarrow> stream_state \<Rightarrow> page_state list" where
  "stream_run [] s = []"
| "stream_run ((disconnected, built, now) # rounds) s =
     (if disconnected then []
      else case built of
             Inl e \<Rightarrow> []
           | Inr p \<Rightarrow> (let (pushed, s') = stream_tick p now s in
                      (case pushed of Some q \<Rightarrow> [q] | None \<Rightarrow> []) @ stream_run rounds s'))"

section \<open>The tail of a topic\<close>

text \<open>
  A message by what \<open>json.loads\<close> makes of its bytes: a value, bytes that are text but not JSON, no bytes at
  all (a tombstone), or bytes that do not decode as text, whose error is not a JSONDecodeError.  The last case
  also stands for every other exception of the parser, as for text nested too deeply or an integer with
  too many digits: the loop treats them alike.
\<close>

datatype topic_message = JsonMessage json | NotJsonMessage | TombstoneMessage | NotTextMessage

record tail_state =
  tl_connected :: bool
  tl_backoff :: rat
  tl_slept :: "rat list"
  tl_log :: activity_log
  tl_skipped :: nat

type_synonym handler = "json \<Rightarrow> activity_log \<Rightarrow> activity_log raises"

definition tail_init :: "activity_log \<Rightarrow> tail_state" where
  "tail_init a = \<lparr>tl_connected = False, tl_backoff = 1, tl_slept = [], tl_log = a, tl_skipped = 0\<rparr>"

text \<open>The events of the loop: the consumer starts, a message arrives, or either fails.\<close>

datatype tail_event = TailStarted | TailMessage topic_message | TailFailed

definition tail_failed :: "tail_state \<Rightarrow> tail_state" where
  "tail_failed t =
     t\<lparr>tl_connected := False, tl_slept := tl_slept t @ [tl_backoff t], tl_backoff := min (tl_backoff t * 2) 30\<rparr>"

definition tail_message :: "handler \<Rightarrow> topic_message \<Rightarrow> tail_state \<Rightarrow> tail_state" where
  "tail_message handle m t =
     (case m of
        JsonMessage j \<Rightarrow>
          (case handle j (tl_log t) of
             Inr a \<Rightarrow> t\<lparr>tl_log := a\<rparr>
           | Inl e \<Rightarrow> if e \<in> {TypeErrorExn, AttributeErrorExn} then t\<lparr>tl_skipped := Suc (tl_skipped t)\<rparr> else tail_failed t)
      | NotJsonMessage \<Rightarrow> t\<lparr>tl_skipped := Suc (tl_skipped t)\<rparr>
      | TombstoneMessage \<Rightarrow> t\<lparr>tl_skipped := Suc (tl_skipped t)\<rparr>
      | NotTextMessage \<Rightarrow> tail_failed t)"

definition tail_step :: "handler \<Rightarrow> tail_event \<Rightarrow> tail_state \<Rightarrow> tail_state" where
  "tail_step handle e t =
     (case e of
        TailStarted \<Rightarrow> t\<lparr>tl_connected := True, tl_backoff := 1\<rparr>
      | TailMessage m \<Rightarrow> if tl_connected t then tail_message handle m t else t
      | TailFailed \<Rightarrow> tail_failed t)"

definition tail_run :: "handler \<Rightarrow> tail_event list \<Rightarrow> tail_state \<Rightarrow> tail_state" where
  "tail_run handle es t = fold (tail_step handle) es t"

section \<open>The probes\<close>

record readiness =
  rd_status_code :: int
  rd_status :: string
  rd_reachable :: bool
  rd_error :: "string option"
  rd_topics :: "(string \<times> bool) list"
  rd_history_depth :: int

definition console_readyz :: "string option \<Rightarrow> (string \<times> bool) list \<Rightarrow> int \<Rightarrow> readiness" where
  "console_readyz ping_error tails history =
     (let ok = (ping_error = None); ready = ok \<and> list_all snd tails in
      \<lparr>rd_status_code = (if ready then 200 else 503), rd_status = (if ready then ''ready'' else ''degraded''),
       rd_reachable = ok, rd_error = (case ping_error of Some e \<Rightarrow> if e \<noteq> [] then Some e else None | None \<Rightarrow> None),
       rd_topics = tails, rd_history_depth = history\<rparr>)"

definition console_healthz :: "rat \<Rightarrow> rat \<Rightarrow> string \<times> string \<times> rat" where
  "console_healthz now started_at = (''ok'', ''openontology-operator-console'', py_round (now - started_at) 3)"

text \<open>The start: one log for both tails, which begin disconnected; a bad history depth ends the process.\<close>

definition console_start :: "int \<Rightarrow> (activity_log \<times> (string \<times> bool) list) raises" where
  "console_start history =
     bind_r (activity_init history) (\<lambda>a. Inr (a, [(''mutations'', False), (''commands'', False)]))"

section \<open>Lemmas\<close>

text \<open>What the handlers make of a sequence of records of both topics, the flag marking commands.\<close>

definition handled_record :: "bool \<times> json \<Rightarrow> activity_log \<Rightarrow> activity_log" where
  "handled_record r a =
     (case (if fst r then add_command (snd r) a else add_mutation (snd r) a) of Inr a' \<Rightarrow> a' | Inl e \<Rightarrow> a)"

definition mutation_of :: "bool \<times> json \<Rightarrow> entry option" where
  "mutation_of r =
     (case r of (False, JObj kvs) \<Rightarrow> (case mutation_entry kvs of Inr e \<Rightarrow> Some e | Inl x \<Rightarrow> None) | _ \<Rightarrow> None)"

definition command_of :: "bool \<times> json \<Rightarrow> entry option" where
  "command_of r = (case r of (True, JObj kvs) \<Rightarrow> Some (command_entry kvs) | _ \<Rightarrow> None)"

definition history_of :: "nat \<Rightarrow> entry list \<Rightarrow> entry list \<Rightarrow> activity_log" where
  "history_of cap ms cs =
     \<lparr>al_capacity = cap, al_mutations = take cap (rev ms), al_commands = take cap (rev cs),
      al_revision = int (length ms) + int (length cs)\<rparr>"

lemma append_left_take: "append_left n x (take n xs) = take n (x # xs)"
  by (cases n) (simp_all add: append_left_def min_def)

lemma handled_history:
  "handled_record r (history_of cap ms cs) =
   history_of cap (ms @ (case mutation_of r of Some e \<Rightarrow> [e] | None \<Rightarrow> []))
     (cs @ (case command_of r of Some e \<Rightarrow> [e] | None \<Rightarrow> []))"
proof -
  obtain c j where r: "r = (c, j)" by fastforce
  show ?thesis
  proof (cases j)
    case (JObj kvs)
    show ?thesis
      by (cases c; cases "mutation_entry kvs")
        (simp_all add: r JObj handled_record_def add_command_def add_mutation_def mutation_of_def command_of_def
          history_of_def append_left_take)
  qed (cases c; simp add: r handled_record_def add_command_def add_mutation_def mutation_of_def command_of_def)+
qed

lemma fold_history:
  "fold handled_record rs (history_of cap ms cs) =
   history_of cap (ms @ List.map_filter mutation_of rs) (cs @ List.map_filter command_of rs)"
  by (induction rs arbitrary: ms cs) (simp_all add: handled_history List.map_filter_simps split: option.splits)

lemma in_sequence_mset: "in_sequence cs = Inr ds \<Longrightarrow> mset ds = mset cs"
  by (auto simp: in_sequence_def split: if_splits)

lemma in_sequence_sorted:
  "in_sequence cs = Inr ds \<Longrightarrow> \<forall>c \<in> set cs. num_of (sequence_key c) = Some (f c) \<Longrightarrow> sorted (map f ds)"
proof -
  assume ds: "in_sequence cs = Inr ds" and f: "\<forall>c \<in> set cs. num_of (sequence_key c) = Some (f c)"
  show ?thesis
  proof (cases "length cs \<le> 1")
    case True
    then have "ds = cs" using ds by (simp add: in_sequence_def)
    then show ?thesis using True by (cases cs) (auto simp: le_Suc_eq)
  next
    case False
    then have d: "ds = sort_key (\<lambda>c. the (num_of (sequence_key c))) cs"
      using ds f by (auto simp: in_sequence_def list_all_iff)
    have "map f ds = map (\<lambda>c. the (num_of (sequence_key c))) ds" using f by (simp add: d)
    moreover have "sorted (map (\<lambda>c. the (num_of (sequence_key c))) ds)" unfolding d by (rule sorted_sort_key)
    ultimately show ?thesis by (simp only:)
  qed
qed

lemma plans_for_matched:
  "plans_for a e = Inr plan \<Longrightarrow>
   mset plan = (if py_truthy e then mset (filter (\<lambda>c. json_eq (j_get c ''event_id'') e) (al_commands a)) else {#})"
  by (auto simp: plans_for_def in_sequence_mset split: if_splits)

definition in_focus :: "activity_log \<Rightarrow> entry \<Rightarrow> bool" where
  "in_focus a m \<longleftrightarrow> j_get m ''transition'' \<noteq> JStr ''CLEARED'' \<and> plans_for a (j_get m ''event_id'') \<noteq> Inr []"

lemma focus_None: "focus a ms = Inr None \<Longrightarrow> \<forall>u \<in> set ms. \<not> in_focus a u"
  by (induction ms) (auto simp: bind_r_Inr_iff in_focus_def split: if_splits)

lemma focus_Some:
  "focus a ms = Inr (Some (m, plan)) \<Longrightarrow>
   \<exists>above below. ms = above @ m # below \<and> in_focus a m \<and> plans_for a (j_get m ''event_id'') = Inr plan \<and>
     (\<forall>u \<in> set above. \<not> in_focus a u)"
proof (induction ms)
  case (Cons u us)
  show ?case
  proof (cases "in_focus a u")
    case True
    then have "m = u" "plans_for a (j_get u ''event_id'') = Inr plan"
      using Cons.prems by (auto simp: bind_r_Inr_iff in_focus_def split: if_splits)
    then show ?thesis using True by (intro exI [of _ "[]"] exI [of _ us]) simp
  next
    case False
    then have "focus a us = Inr (Some (m, plan))"
      using Cons.prems by (auto simp: bind_r_Inr_iff in_focus_def split: if_splits)
    from Cons.IH [OF this] obtain above below where "us = above @ m # below" "in_focus a m"
      "plans_for a (j_get m ''event_id'') = Inr plan" "\<forall>u \<in> set above. \<not> in_focus a u"
      by blast
    then show ?thesis using False by (intro exI [of _ "u # above"] exI [of _ below]) simp
  qed
qed simp

lemma plan_truthy: "plans_for a e = Inr plan \<Longrightarrow> plan \<noteq> [] \<Longrightarrow> py_truthy e"
  by (auto simp: plans_for_def split: if_splits)

lemma plan_in_sequence:
  assumes "plans_for a e = Inr plan" "\<forall>c \<in> set plan. num_of (sequence_key c) = Some (h c)"
  shows "sorted (map h plan)"
proof (cases "py_truthy e")
  case True
  then have s: "in_sequence (filter (\<lambda>c. json_eq (j_get c ''event_id'') e) (al_commands a)) = Inr plan"
    using assms(1) by (simp add: plans_for_def)
  show ?thesis using in_sequence_sorted [OF s] assms(2) mset_eq_setD [OF in_sequence_mset [OF s]] by simp
next
  case False
  then show ?thesis using assms(1) by (simp add: plans_for_def)
qed

lemma gather_ids:
  "gather read is = (ss, ok) \<Longrightarrow> (\<And>i s. read i = Inr s \<Longrightarrow> an_asset_id s = i) \<Longrightarrow>
   \<exists>rest. is = map an_asset_id ss @ rest \<and> (ok \<longleftrightarrow> rest = []) \<and>
     (\<forall>s \<in> set ss. read (an_asset_id s) = Inr s) \<and> (\<forall>i js. rest = i # js \<longrightarrow> isl (read i))"
proof (induction "is" arbitrary: ss ok)
  case (Cons i js)
  show ?case
  proof (cases "read i")
    case (Inl e)
    then show ?thesis using Cons.prems(1) by auto
  next
    case (Inr s)
    obtain ss' where g: "gather read js = (ss', ok)" "ss = s # ss'"
      using Cons.prems(1) Inr by (auto split: prod.splits)
    show ?thesis using Cons.IH [OF g(1) Cons.prems(2)] g(2) Inr Cons.prems(2) [OF Inr] by auto
  qed
qed auto

lemma snapshot_id: "snapshot ps rv now_ms i = Inr s \<Longrightarrow> an_asset_id s = i"
  by (auto simp: snapshot_def Let_def bind_r_Inr_iff split: option.splits if_splits)

lemma build_state_Inr:
  assumes "build_state ps rv now n a = Inr p"
  obtains found ok f where "read_assets ps rv (now * 1000) = (found, ok)" "focus a (take n (al_mutations a)) = Inr f"
    "p = \<lparr>pg_generated_at = now, pg_revision = al_revision a, pg_healthy = ok, pg_assets = sort_key page_rank found,
          pg_mutations = take n (al_mutations a), pg_commands = take n (al_commands a), pg_focus = f,
          pg_counts = (length found, length (filter (\<lambda>s. an_alarm s \<noteq> None) (sort_key page_rank found)),
                       length (take n (al_mutations a)), length (take n (al_commands a)))\<rparr>"
  using assms by (auto simp: build_state_def recent_mutations_def recent_commands_def Let_def bind_r_Inr_iff
      split: prod.splits)

text \<open>The rounds of a stream that stays connected and whose pages can all be built.\<close>

definition steady :: "(page_state \<times> rat) list \<Rightarrow> (bool \<times> page_state raises \<times> rat) list" where
  "steady ps = map (\<lambda>(p, t). (False, Inr p, t)) ps"

lemma stream_run_steady [simp]:
  "stream_run (steady []) s = []"
  "stream_run (steady ((p, t) # ps)) s =
     (if pg_revision p \<noteq> sm_last_revision s \<or> t - sm_last_push s > 15
      then p # stream_run (steady ps) \<lparr>sm_last_revision = pg_revision p, sm_last_push = t\<rparr>
      else stream_run (steady ps) s)"
  by (simp_all add: steady_def stream_tick_def)

lemma stream_revisions:
  "remdups_adj (sm_last_revision s # map pg_revision (stream_run (steady ps) s)) =
   remdups_adj (sm_last_revision s # map (pg_revision \<circ> fst) ps)"
proof (induction ps arbitrary: s)
  case (Cons x ps)
  obtain p t where x: "x = (p, t)" by fastforce
  show ?case
    using Cons.IH [of s] Cons.IH [of "\<lparr>sm_last_revision = pg_revision p, sm_last_push = t\<rparr>"]
    by (auto simp: x)
qed simp

lemma stream_quiet:
  "\<forall>(p, t) \<in> set ps. pg_revision p = sm_last_revision s \<and> t \<le> sm_last_push s + 15 \<Longrightarrow>
   stream_run (steady ps) s = []"
  by (induction ps) auto

lemma handlers_refuse:
  "add_mutation j a = Inl e \<Longrightarrow> e = AttributeErrorExn"
  "add_command j a = Inl e \<Longrightarrow> e = AttributeErrorExn"
  by (auto simp: add_mutation_def add_command_def mutation_entry_def dict_or_empty_def bind_r_Inl_iff
      split: json.splits if_splits)

definition json_messages :: "topic_message list \<Rightarrow> json list" where
  "json_messages ms = List.map_filter (\<lambda>m. case m of JsonMessage j \<Rightarrow> Some j | _ \<Rightarrow> None) ms"

lemma tail_deaf: "\<not> tl_connected t \<Longrightarrow> tail_run handle (map TailMessage ms) t = t"
  by (induction ms) (simp_all add: tail_run_def tail_step_def)

definition absorb :: "handler \<Rightarrow> json \<Rightarrow> activity_log \<Rightarrow> activity_log" where
  "absorb handle j a = (case handle j a of Inr a' \<Rightarrow> a' | Inl e \<Rightarrow> a)"

lemma absorb_handled:
  "absorb add_mutation = (\<lambda>j. handled_record (False, j))" "absorb add_command = (\<lambda>j. handled_record (True, j))"
  by (simp_all add: fun_eq_iff absorb_def handled_record_def)

text \<open>What a tail needs of its handler: the exception of a refusal is one that the loop skips.\<close>

locale topic_handler =
  fixes handle :: handler
  assumes refuses: "handle j a = Inl e \<Longrightarrow> e = AttributeErrorExn"
begin

lemma run_text:
  "tl_connected t \<Longrightarrow> NotTextMessage \<notin> set ms \<Longrightarrow>
    \<exists>k. tail_run handle (map TailMessage ms) t =
      t\<lparr>tl_log := fold (absorb handle) (json_messages ms) (tl_log t),
        tl_skipped := tl_skipped t + k\<rparr>"
proof (induction ms arbitrary: t)
  case Nil
  show ?case by (rule exI [of _ 0]) (simp add: tail_run_def json_messages_def List.map_filter_simps)
next
  case (Cons m ms)
  have c: "tl_connected t" and ms: "NotTextMessage \<notin> set ms" and m: "m \<noteq> NotTextMessage" using Cons.prems by auto
  have run: "tail_run handle (map TailMessage (m # ms)) t = tail_run handle (map TailMessage ms) (tail_message handle m t)"
    using c by (simp add: tail_run_def tail_step_def)
  obtain l d where one: "tail_message handle m t = t\<lparr>tl_log := l, tl_skipped := tl_skipped t + d\<rparr>"
    "fold (absorb handle) (json_messages (m # ms)) (tl_log t) = fold (absorb handle) (json_messages ms) l"
  proof (cases m)
    case (JsonMessage j)
    show thesis
    proof (cases "handle j (tl_log t)")
      case (Inl e)
      then show thesis using refuses [OF Inl] JsonMessage
        by (intro that [where l = "tl_log t" and d = 1]) (simp_all add: absorb_def tail_message_def json_messages_def List.map_filter_simps)
    next
      case (Inr a)
      then show thesis using JsonMessage
        by (intro that [where l = a and d = 0]) (simp_all add: absorb_def tail_message_def json_messages_def List.map_filter_simps)
    qed
  next
    case NotTextMessage then show thesis using m by simp
  qed (intro that [where l = "tl_log t" and d = 1]; simp add: absorb_def tail_message_def json_messages_def List.map_filter_simps)+
  have "tl_connected (t\<lparr>tl_log := l, tl_skipped := tl_skipped t + d\<rparr>)" using c by simp
  from Cons.IH [OF this ms] obtain k where
    "tail_run handle (map TailMessage ms) (tail_message handle m t) =
     t\<lparr>tl_log := fold (absorb handle) (json_messages ms) l, tl_skipped := tl_skipped t + d + k\<rparr>"
    unfolding one(1) by auto
  then show ?case unfolding run one(2) by (intro exI [of _ "d + k"]) (simp add: add.assoc)
qed

lemma stays_connected:
  assumes "tl_connected t" "NotTextMessage \<notin> set ms"
  shows "tl_connected (tail_run handle (map TailMessage ms) t)"
    "tl_log (tail_run handle (map TailMessage ms) t) = fold (absorb handle) (json_messages ms) (tl_log t)"
  using run_text [OF assms] assms(1) by auto

lemma deaf_after:
  assumes "tl_connected t" "NotTextMessage \<notin> set ms"
  shows "tail_run handle (map TailMessage (ms @ NotTextMessage # lost)) t =
    tail_failed (tail_run handle (map TailMessage ms) t)"
proof -
  let ?t = "tail_run handle (map TailMessage ms) t"
  have "tail_run handle (map TailMessage (ms @ NotTextMessage # lost)) t =
      tail_run handle (map TailMessage lost) (tail_step handle (TailMessage NotTextMessage) ?t)"
    by (simp add: tail_run_def)
  also have "tail_step handle (TailMessage NotTextMessage) ?t = tail_failed ?t"
    using stays_connected(1) [OF assms] by (simp add: tail_step_def tail_message_def)
  also have "tail_run handle (map TailMessage lost) (tail_failed ?t) = tail_failed ?t"
    by (rule tail_deaf) (simp add: tail_failed_def)
  finally show ?thesis .
qed

end

interpretation mutation_topic: topic_handler add_mutation
  by unfold_locales (rule handlers_refuse(1))

interpretation command_topic: topic_handler add_command
  by unfold_locales (rule handlers_refuse(2))

text \<open>The wait before the next connection, from the waits so far.\<close>

definition waits_bounded :: "tail_state \<Rightarrow> bool" where
  "waits_bounded t \<longleftrightarrow> 1 \<le> tl_backoff t \<and> tl_backoff t \<le> 30 \<and> (\<forall>w \<in> set (tl_slept t). 1 \<le> w \<and> w \<le> 30)"

lemma tail_failed_bounded: "waits_bounded t \<Longrightarrow> waits_bounded (tail_failed t)"
  by (auto simp: waits_bounded_def tail_failed_def min_def)

lemma tail_step_bounded: "waits_bounded t \<Longrightarrow> waits_bounded (tail_step handle e t)"
proof (cases e)
  case (TailMessage m)
  assume t: "waits_bounded t"
  show ?thesis
    using t tail_failed_bounded [OF t]
    by (auto simp: TailMessage tail_step_def tail_message_def waits_bounded_def split: topic_message.splits sum.splits)
next
  case TailStarted
  assume "waits_bounded t"
  then show ?thesis by (simp add: TailStarted tail_step_def waits_bounded_def)
next
  case TailFailed
  assume t: "waits_bounded t"
  show ?thesis using tail_failed_bounded [OF t] by (simp add: TailFailed tail_step_def)
qed

lemma tail_run_bounded: "waits_bounded t \<Longrightarrow> waits_bounded (tail_run handle es t)"
  unfolding tail_run_def by (induction es arbitrary: t) (simp_all add: tail_step_bounded)

text \<open>What the order of the page promises of an asset shown above another.\<close>

definition in_critical_alarm :: "asset_state \<Rightarrow> bool" where
  "in_critical_alarm s \<longleftrightarrow> (case an_alarm s of None \<Rightarrow> False | Some (sensor, al) \<Rightarrow> is_critical al)"

definition may_precede :: "asset_state \<Rightarrow> asset_state \<Rightarrow> bool" where
  "may_precede s t \<longleftrightarrow>
     (in_critical_alarm t \<longrightarrow> in_critical_alarm s) \<and> (an_alarm t \<noteq> None \<longrightarrow> an_alarm s \<noteq> None) \<and>
     (in_critical_alarm s = in_critical_alarm t \<and> (an_alarm s = None) = (an_alarm t = None) \<longrightarrow>
        an_asset_id s \<le> an_asset_id t)"

lemma page_rank_precedes: "page_rank s \<le> page_rank t \<Longrightarrow> may_precede s t"
  by (auto simp: page_rank_def may_precede_def in_critical_alarm_def less_eq_prod_def split: option.splits if_splits)

section \<open>Properties\<close>

text \<open>
  C29: The activity log is the recent history.  After any sequence of records of the two topics it holds the
  last accepted mutations and commands up to its capacity, newest first, and its revision counts all that
  were ever accepted; a record that a handler refuses changes nothing.
\<close>
theorem activity_is_recent_history:
  assumes "activity_init capacity = Inr a"
  shows "fold handled_record rs a =
    history_of (nat capacity) (List.map_filter mutation_of rs) (List.map_filter command_of rs)"
proof -
  have "a = history_of (nat capacity) [] []"
    using assms by (auto simp: activity_init_def history_of_def split: if_splits)
  then show ?thesis using fold_history [of rs "nat capacity" "[]" "[]"] by simp
qed

text \<open>
  What the page puts in focus.  It is the newest mutation shown that has not cleared and has commands in
  the log: everything shown above it has cleared or caused no command that is still held.  Its plan is all
  the commands held of that mutation, in their sequence where the sequences are numbers.  Nothing is in focus
  only if no mutation shown qualifies.
\<close>
theorem focus_is_newest_planned:
  "case focus a ms of
     Inl e \<Rightarrow> True
   | Inr None \<Rightarrow> \<forall>u \<in> set ms. \<not> in_focus a u
   | Inr (Some (m, plan)) \<Rightarrow>
       (\<exists>above below. ms = above @ m # below \<and> (\<forall>u \<in> set above. \<not> in_focus a u)) \<and> in_focus a m \<and> plan \<noteq> [] \<and>
       mset plan = mset (filter (\<lambda>c. json_eq (j_get c ''event_id'') (j_get m ''event_id'')) (al_commands a)) \<and>
       (\<forall>h. (\<forall>c \<in> set plan. num_of (sequence_key c) = Some (h c)) \<longrightarrow> sorted (map h plan))"
proof -
  have "\<forall>u \<in> set ms. \<not> in_focus a u" if "focus a ms = Inr None" using focus_None [OF that] .
  moreover have "(\<exists>above below. ms = above @ m # below \<and> (\<forall>u \<in> set above. \<not> in_focus a u)) \<and> in_focus a m \<and> plan \<noteq> [] \<and>
       mset plan = mset (filter (\<lambda>c. json_eq (j_get c ''event_id'') (j_get m ''event_id'')) (al_commands a)) \<and>
       (\<forall>h. (\<forall>c \<in> set plan. num_of (sequence_key c) = Some (h c)) \<longrightarrow> sorted (map h plan))"
    if f: "focus a ms = Inr (Some (m, plan))" for m plan
  proof -
    obtain above below where ab: "ms = above @ m # below" "\<forall>u \<in> set above. \<not> in_focus a u" "in_focus a m"
      and p: "plans_for a (j_get m ''event_id'') = Inr plan"
      using focus_Some [OF f] by blast
    then have ne: "plan \<noteq> []" by (auto simp: in_focus_def)
    show ?thesis
      using ab ne plans_for_matched [OF p] plan_truthy [OF p ne] plan_in_sequence [OF p] by auto
  qed
  ultimately show ?thesis by (auto split: sum.splits option.splits)
qed

text \<open>
  C30: The order of the page, and what it leaves out.  Assets with a critical alarm come first, then the
  other alarming ones, then the quiet ones, each group by name.  A healthy page shows every asset that Redis
  lists; on an unhealthy one the assets shown are those before the first, in the order of their names, that
  could not be read, so one unreadable field hides every asset after it.
\<close>
theorem page_shows_assets:
  assumes "build_state ps rv now n a = Inr p"
  shows "sorted_wrt may_precede (pg_assets p) \<and>
    (pg_healthy p \<longrightarrow> asset_ids rv = Inr (sort (map an_asset_id (pg_assets p)))) \<and>
    (\<forall>ids. asset_ids rv = Inr ids \<longrightarrow> \<not> pg_healthy p \<longrightarrow>
       (\<exists>shown bad hidden e. ids = shown @ bad # hidden \<and> snapshot ps rv (now * 1000) bad = Inl e \<and>
          set shown = an_asset_id ` set (pg_assets p)))"
proof -
  obtain found ok f where b: "read_assets ps rv (now * 1000) = (found, ok)" "pg_assets p = sort_key page_rank found"
    "pg_healthy p = ok"
    using build_state_Inr [OF assms] by force
  have "sorted (map page_rank (pg_assets p))" by (simp add: b)
  then have s: "sorted_wrt may_precede (pg_assets p)"
    by (simp add: sorted_map) (metis (mono_tags, lifting) page_rank_precedes sorted_wrt_mono_rel)
  show ?thesis
  proof (cases "asset_ids rv")
    case (Inl e)
    then have "\<not> ok" using b(1) by (simp add: read_assets_def)
    then show ?thesis using s b(3) Inl by simp
  next
    case (Inr ids)
    have g: "gather (snapshot ps rv (now * 1000)) ids = (found, ok)" using b(1) Inr by (simp add: read_assets_def)
    obtain rest where r: "ids = map an_asset_id found @ rest" "ok \<longleftrightarrow> rest = []"
      "\<forall>i js. rest = i # js \<longrightarrow> isl (snapshot ps rv (now * 1000) i)"
      using gather_ids [OF g] snapshot_id by blast
    have sorted: "sorted ids" using Inr by (auto simp: asset_ids_def split: option.splits)
    have "ok \<longrightarrow> asset_ids rv = Inr (sort (map an_asset_id (pg_assets p)))"
    proof
      assume ok
      then have ids: "ids = map an_asset_id found" using r by simp
      have "mset (map an_asset_id (pg_assets p)) = mset ids" by (simp add: b(2) ids)
      then show "asset_ids rv = Inr (sort (map an_asset_id (pg_assets p)))"
        using Inr sorted properties_for_sort [of ids "map an_asset_id (pg_assets p)"] by simp
    qed
    moreover have "\<exists>shown bad hidden e. ids = shown @ bad # hidden \<and> snapshot ps rv (now * 1000) bad = Inl e \<and>
        set shown = an_asset_id ` set (pg_assets p)" if "\<not> ok"
    proof -
      obtain bad hidden where rest: "rest = bad # hidden" using r(2) \<open>\<not> ok\<close> by (cases rest) auto
      then obtain e where "snapshot ps rv (now * 1000) bad = Inl e" using r(3) by (auto simp: isl_def)
      then show ?thesis using r(1) rest b(2) by (intro exI [of _ "map an_asset_id found"]) auto
    qed
    ultimately show ?thesis using s b(3) Inr by simp
  qed
qed

text \<open>
  The feed does not need Redis.  Whatever Redis answers, and also when it answers nothing, a page is
  built in the same cases, with the same revision, mutations, commands and focus; with no answer it shows no
  asset and is marked unhealthy.
\<close>
theorem feed_survives_redis:
  "build_state ps rv now n a =
     map_sum id (\<lambda>p. p\<lparr>pg_healthy := snd (read_assets ps rv (now * 1000)),
         pg_assets := sort_key page_rank (fst (read_assets ps rv (now * 1000))),
         pg_counts := (let (_, _, m, c) = pg_counts p; found = fst (read_assets ps rv (now * 1000))
                       in (length found, length (filter (\<lambda>s. an_alarm s \<noteq> None) found), m, c))\<rparr>)
       (build_state ps (rv\<lparr>rv_scan := None\<rparr>) now n a) \<and>
   (case build_state ps (rv\<lparr>rv_scan := None\<rparr>) now n a of
      Inl e \<Rightarrow> True | Inr p \<Rightarrow> pg_assets p = [] \<and> \<not> pg_healthy p)"
proof -
  have down: "read_assets ps (rv\<lparr>rv_scan := None\<rparr>) t = ([], False)" for t
    by (simp add: read_assets_def asset_ids_def)
  have f: "length (filter P (sort_key page_rank xs)) = length (filter P xs)" for P :: "asset_state \<Rightarrow> bool" and xs
    by (metis mset_filter mset_sort size_mset)
  show ?thesis
    by (cases "read_assets ps rv (now * 1000)"; cases "focus a (recent_mutations a n)")
      (simp_all add: build_state_def Let_def f down)
qed

text \<open>
  C32: What an open page is told.  While its stream lasts, the revisions it is sent are, up to repetitions,
  those of the rounds: no state of the feed that a round saw is withheld.  But only the revision counts: after
  a push, rounds within fifteen seconds whose revision is the same send nothing, whatever has become of the
  assets and their alarms.
\<close>
theorem stream_follows_feed:
  assumes "\<forall>(p, t) \<in> set (q # quiet). pg_revision p \<ge> 0"
  shows "remdups_adj (map pg_revision (stream_run (steady (q # quiet)) stream_init)) =
      remdups_adj (map (pg_revision \<circ> fst) (q # quiet)) \<and>
    ((\<forall>(p, t) \<in> set quiet. pg_revision p = pg_revision (fst q) \<and> t \<le> snd q + 15) \<longrightarrow>
       stream_run (steady (q # quiet)) stream_init = [fst q])"
proof -
  obtain p t where q: "q = (p, t)" by fastforce
  let ?s = "\<lparr>sm_last_revision = pg_revision p, sm_last_push = t\<rparr>"
  have "pg_revision p \<noteq> -1" using assms by (auto simp: q)
  then have run: "stream_run (steady (q # quiet)) stream_init = p # stream_run (steady quiet) ?s"
    by (simp add: q stream_init_def)
  show ?thesis unfolding run using stream_revisions [of ?s quiet] stream_quiet [of quiet ?s] by (simp add: q)
qed

text \<open>
  C31: Skipping keeps the view alive.  A tail of mutations or of commands that is connected and whose messages
  all decode as text, and meet no limit of the parser, stays connected, and its log holds all those that
  are JSON and that the handler accepts.  One message that does not decode drops the connection: nothing that follows is seen until the tail starts
  again.
\<close>
theorem tail_keeps_view:
  assumes "tl_connected t" "NotTextMessage \<notin> set ms"
  shows "tl_connected (tail_run (if commands then add_command else add_mutation) (map TailMessage ms) t) \<and>
    tl_log (tail_run (if commands then add_command else add_mutation) (map TailMessage ms) t) =
      fold handled_record (map (Pair commands) (json_messages ms)) (tl_log t) \<and>
    tail_run (if commands then add_command else add_mutation) (map TailMessage (ms @ NotTextMessage # lost)) t =
      tail_failed (tail_run (if commands then add_command else add_mutation) (map TailMessage ms) t)"
proof (cases commands)
  case True
  then show ?thesis
    using command_topic.stays_connected [OF assms] command_topic.deaf_after [OF assms]
    by (simp add: fold_map comp_def absorb_handled)
next
  case False
  then show ?thesis
    using mutation_topic.stays_connected [OF assms] mutation_topic.deaf_after [OF assms]
    by (simp add: fold_map comp_def absorb_handled)
qed

text \<open>
  The waits of a tail.  Whatever happens to its connection and whatever it receives, it waits between one
  and thirty seconds before each new connection, and the wait after a connection that started is one second.
\<close>
theorem tail_waits_bounded:
  "waits_bounded (tail_run handle es (tail_init a)) \<and>
   tl_slept (tail_run handle (es @ [TailStarted, TailFailed]) (tail_init a)) =
     tl_slept (tail_run handle es (tail_init a)) @ [1]"
  using tail_run_bounded [of "tail_init a" handle es]
  by (auto simp: waits_bounded_def tail_init_def tail_run_def tail_step_def tail_failed_def)

section \<open>Witnesses\<close>

definition demo_mutation :: "string \<Rightarrow> json" where
  "demo_mutation event = JObj [(''event_id'', JStr event), (''asset_id'', JStr ''P-1''), (''transition'', JStr ''RAISED'')]"

definition demo_command :: "string \<Rightarrow> int \<Rightarrow> json" where
  "demo_command event n = JObj [(''source_event_id'', JStr event), (''sequence'', JInt n)]"

definition demo_log :: activity_log where
  "demo_log = \<lparr>al_capacity = 2, al_mutations = [], al_commands = [], al_revision = 0\<rparr>"

text \<open>Asset A has a critical alarm, asset B a breach count that is no number, asset C is not reached.\<close>

definition demo_parsers :: parsers where
  "demo_parsers = \<lparr>ps_float = (\<lambda>t. if t = ''7'' then Some (Fin 7) else None),
                   ps_int = (\<lambda>t. if t = ''3'' then Some 3 else None)\<rparr>"

definition demo_view :: redis_view where
  "demo_view =
     \<lparr>rv_scan = Some [''twinindex:C'', ''twinindex:A'', ''twinindex:B''], rv_members = (\<lambda>k. Some [''s'']),
      rv_pipeline = (\<lambda>i. True),
      rv_hash = (\<lambda>k. if k = ''twinalarm:A:s'' then [(''severity'', ''CRITICAL''), (''breach_count'', ''3'')]
                     else if k = ''twinalarm:B:s'' then [(''breach_count'', ''many'')]
                     else if take 5 k = ''twin:'' then [(''value'', ''7'')] else [])\<rparr>"

theorem activity_is_recent_history_witness:
  "al_revision (fold handled_record [(False, demo_mutation ''e1''), (False, JNull), (True, demo_command ''e1'' 1),
      (True, demo_command ''e1'' 2), (True, demo_command ''e1'' 3)] demo_log) = 4 \<and>
   map (\<lambda>c. j_get c ''sequence'') (al_commands (fold handled_record [(False, demo_mutation ''e1''), (False, JNull),
      (True, demo_command ''e1'' 1), (True, demo_command ''e1'' 2), (True, demo_command ''e1'' 3)] demo_log)) =
     [JInt 3, JInt 2]"
proof -
  have "activity_init 2 = Inr demo_log" by (simp add: activity_init_def demo_log_def)
  show ?thesis unfolding activity_is_recent_history [OF \<open>activity_init 2 = Inr demo_log\<close>] by code_simp
qed

theorem page_shows_assets_witness:
  "case build_state demo_parsers demo_view 1 40 demo_log of
     Inl e \<Rightarrow> False
   | Inr p \<Rightarrow> \<not> pg_healthy p \<and> map an_asset_id (pg_assets p) = [''A''] \<and> sorted_wrt may_precede (pg_assets p)"
proof -
  have "case build_state demo_parsers demo_view 1 40 demo_log of Inl e \<Rightarrow> False
    | Inr p \<Rightarrow> \<not> pg_healthy p \<and> map an_asset_id (pg_assets p) = [''A'']"
    by code_simp
  then show ?thesis
    using page_shows_assets [of demo_parsers demo_view 1 40 demo_log] by (simp split: sum.splits)
qed

definition demo_page :: "int \<Rightarrow> page_state" where
  "demo_page r = \<lparr>pg_generated_at = 0, pg_revision = r, pg_healthy = True, pg_assets = [], pg_mutations = [],
                  pg_commands = [], pg_focus = None, pg_counts = (0, 0, 0, 0)\<rparr>"

theorem stream_follows_feed_witness:
  "stream_run (steady [(demo_page 0, 100), (demo_page 0, 102)]) stream_init = [demo_page 0]"
  using stream_follows_feed [of "(demo_page 0, 100)" "[(demo_page 0, 102)]"] by (simp add: demo_page_def)

theorem tail_keeps_view_witness:
  "tl_connected (tail_run add_command (map TailMessage [NotJsonMessage, JsonMessage (demo_command ''e1'' 1)])
     ((tail_init demo_log)\<lparr>tl_connected := True\<rparr>))"
  using tail_keeps_view [where commands = True and t = "(tail_init demo_log)\<lparr>tl_connected := True\<rparr>" and
      ms = "[NotJsonMessage, JsonMessage (demo_command ''e1'' 1)]" and lost = "[]"]
  by simp

definition focus_log :: activity_log where
  "focus_log = fold handled_record [(False, demo_mutation ''e1''), (True, demo_command ''e1'' 2),
     (True, demo_command ''e1'' 1), (False, demo_mutation ''e2'')] (demo_log\<lparr>al_capacity := 4\<rparr>)"

theorem focus_is_newest_planned_witness:
  "case focus focus_log (al_mutations focus_log) of
     Inr (Some (m, plan)) \<Rightarrow> j_get m ''event_id'' = JStr ''e1'' \<and>
       map (\<lambda>c. j_get c ''sequence'') plan = [JInt 1, JInt 2] \<and> in_focus focus_log m \<and> plan \<noteq> []
   | _ \<Rightarrow> False"
proof -
  have "case focus focus_log (al_mutations focus_log) of
     Inr (Some (m, plan)) \<Rightarrow> j_get m ''event_id'' = JStr ''e1'' \<and> map (\<lambda>c. j_get c ''sequence'') plan = [JInt 1, JInt 2]
   | _ \<Rightarrow> False"
    by code_simp
  then show ?thesis
    using focus_is_newest_planned [where a = focus_log and ms = "al_mutations focus_log"] by (auto split: sum.splits option.splits)
qed

end
