(* ===== verification/Interceptor_Metrics.thy ===== *)
theory Interceptor_Metrics
  imports Interceptor_App
begin

text \<open>
  The metrics of the AI interceptor (ai-interceptor/app/metrics.py): the collectors with their labels and
  buckets, the series a worker holds after the labels its state has recorded, the check of the multiprocess
  directory, the registry a scrape renders, and what a scrape shows of several worker processes.

  The aggregation of the metrics library over the files of the processes is documented as the sum of the
  samples with equal labels, which is how it is written here.
\<close>

section \<open>The collectors\<close>

datatype collector_kind = HistogramOf "rat list" | CounterOf | GaugeOf

record collector =
  co_kind :: collector_kind
  co_name :: string
  co_help :: string
  co_labels :: "string list"

definition LATENCY_BUCKETS :: "rat list" where
  "LATENCY_BUCKETS = [1/100, 25/1000, 5/100, 1/10, 25/100, 5/10, 1, 25/10, 5, 10, 30, 60]"

definition CONFIDENCE_BUCKETS :: "rat list" where
  "CONFIDENCE_BUCKETS = [1/10, 2/10, 3/10, 4/10, 5/10, 6/10, 7/10, 8/10, 9/10, 95/100, 1]"

definition REQUEST_DURATION :: collector where
  "REQUEST_DURATION =
     \<lparr>co_kind = HistogramOf LATENCY_BUCKETS, co_name = ''openontology_interceptor_request_duration_seconds'',
      co_help = ''Time to serve a request, including the model call.'', co_labels = [''endpoint'', ''status'']\<rparr>"

definition PLAN_CONFIDENCE :: collector where
  "PLAN_CONFIDENCE =
     \<lparr>co_kind = HistogramOf CONFIDENCE_BUCKETS, co_name = ''openontology_interceptor_plan_confidence'',
      co_help = ''Confidence reported on issued command sequences.'', co_labels = [''tier'', ''severity'']\<rparr>"

definition PLANS_ISSUED :: collector where
  "PLANS_ISSUED =
     \<lparr>co_kind = CounterOf, co_name = ''openontology_interceptor_plans_issued_total'',
      co_help = ''Command sequences produced by a model call.'',
      co_labels = [''tenant'', ''tier'', ''severity'', ''degraded'']\<rparr>"

definition PLAN_REPLAYS :: collector where
  "PLAN_REPLAYS =
     \<lparr>co_kind = CounterOf, co_name = ''openontology_interceptor_plan_replays_total'',
      co_help = ''Requests served from the idempotency store instead of a second inference.'',
      co_labels = [''tenant'']\<rparr>"

definition COMMANDS_PLANNED :: collector where
  "COMMANDS_PLANNED =
     \<lparr>co_kind = CounterOf, co_name = ''openontology_interceptor_commands_planned_total'',
      co_help = ''Individual commands emitted across all plans, by action.'', co_labels = [''action'']\<rparr>"

definition LICENSE_REJECTIONS :: collector where
  "LICENSE_REJECTIONS =
     \<lparr>co_kind = CounterOf, co_name = ''openontology_interceptor_license_rejections_total'',
      co_help = ''Requests refused by the licensing middleware, by reason.'', co_labels = [''reason'']\<rparr>"

definition QUOTA_DECISIONS :: collector where
  "QUOTA_DECISIONS =
     \<lparr>co_kind = CounterOf, co_name = ''openontology_interceptor_quota_decisions_total'',
      co_help = ''Sliding-window quota outcomes.'', co_labels = [''tier'', ''outcome'']\<rparr>"

definition STATE_STORE_FAILURES :: collector where
  "STATE_STORE_FAILURES =
     \<lparr>co_kind = CounterOf, co_name = ''openontology_interceptor_state_failures_total'',
      co_help = ''Shared-state operations that could not reach Redis, by store and policy.'',
      co_labels = [''store'', ''policy'']\<rparr>"

definition BUILD_INFO :: collector where
  "BUILD_INFO =
     \<lparr>co_kind = GaugeOf, co_name = ''openontology_interceptor_build_info'',
      co_help = ''Always 1; the labels carry the build and configuration.'',
      co_labels = [''version'', ''llm_provider'', ''llm_model'', ''state_backend'']\<rparr>"

definition LICENSE_REJECTION_REASONS :: "string list" where
  "LICENSE_REJECTION_REASONS =
     [''license_key_missing'', ''license_key_invalid'', ''license_expired'', ''feature_not_licensed'', ''quota_exceeded'']"

section \<open>Series\<close>

text \<open>The series of a collector by their label values, in the order they came to be; \<open>labels\<close> makes one at zero.\<close>

type_synonym series = "(string list \<times> nat) list"

definition series_labels :: "string list \<Rightarrow> series \<Rightarrow> series" where
  "series_labels vs s = (if vs \<in> fst ` set s then s else s @ [(vs, 0)])"

definition series_inc :: "string list \<Rightarrow> series \<Rightarrow> series" where
  "series_inc vs s = map (\<lambda>(k, n). (k, if k = vs then Suc n else n)) (series_labels vs s)"

definition counted :: "string list list \<Rightarrow> series \<Rightarrow> series" where
  "counted vss s = fold series_inc vss s"

text \<open>
  What the import of the module leaves behind, and a worker's series after what it recorded.  No statement of
  the service increments the failures of the state store.
\<close>

definition precreated :: series where
  "precreated = fold (\<lambda>reason. series_labels [reason]) LICENSE_REJECTION_REASONS []"

definition bool_label :: "bool \<Rightarrow> string" where
  "bool_label b = (if b then ''true'' else ''false'')"

definition worker_series :: "app_state \<Rightarrow> (collector \<times> series) list" where
  "worker_series s =
     [(REQUEST_DURATION, counted (map (\<lambda>(endpoint, status). [endpoint, status]) (as_timings s)) []),
      (PLANS_ISSUED, counted (map (\<lambda>(tenant, tier, severity, degraded). [tenant, tier, severity, bool_label degraded])
         (as_issued s)) []),
      (PLAN_CONFIDENCE, counted (map (\<lambda>(tenant, tier, severity, degraded). [tier, severity]) (as_issued s)) []),
      (PLAN_REPLAYS, counted (map (\<lambda>tenant. [tenant]) (as_replays s)) []),
      (COMMANDS_PLANNED, counted (map (\<lambda>action. [action]) (as_planned s)) []),
      (LICENSE_REJECTIONS, counted (map (\<lambda>reason. [reason]) (gs_rejections s)) precreated),
      (QUOTA_DECISIONS, counted (map (\<lambda>(tier, outcome). [tier, outcome]) (gs_decisions s)) []),
      (STATE_STORE_FAILURES, [])]"

text \<open>The gauge that start-up sets.\<close>

definition provider_label :: "llm_provider \<Rightarrow> string" where
  "provider_label p = (case p of ProviderMock \<Rightarrow> ''mock'' | ProviderCloud \<Rightarrow> ''cloud'')"

definition build_info_series :: "string \<Rightarrow> ai_settings \<Rightarrow> series" where
  "build_info_series version settings =
     [([version, provider_label (ais_llm_provider settings), ais_llm_model settings, state_backend settings], 1)]"

definition series_of :: "collector \<Rightarrow> app_state \<Rightarrow> series" where
  "series_of c s = (case map_of (worker_series s) c of Some ss \<Rightarrow> ss | None \<Rightarrow> [])"

section \<open>Worker processes\<close>

text \<open>The directory of the environment, an unset or empty variable being none, and what the file system says.\<close>

record metrics_env =
  me_dir :: string
  me_is_dir :: bool
  me_writable :: bool

datatype metrics_fault = NotADirectory string | NotWritable string

record metrics_status =
  mt_mode :: string
  mt_path :: "string option"
  mt_aggregated :: bool
  mt_error :: "metrics_fault option"

definition verify_multiprocess_ready :: "metrics_env \<Rightarrow> metrics_status" where
  "verify_multiprocess_ready e =
     (if me_dir e = [] then \<lparr>mt_mode = ''single-process'', mt_path = None, mt_aggregated = False, mt_error = None\<rparr>
      else if \<not> me_is_dir e then
        \<lparr>mt_mode = ''multiprocess'', mt_path = Some (me_dir e), mt_aggregated = False,
         mt_error = Some (NotADirectory (me_dir e))\<rparr>
      else if \<not> me_writable e then
        \<lparr>mt_mode = ''multiprocess'', mt_path = Some (me_dir e), mt_aggregated = False,
         mt_error = Some (NotWritable (me_dir e))\<rparr>
      else \<lparr>mt_mode = ''multiprocess'', mt_path = Some (me_dir e), mt_aggregated = True, mt_error = None\<rparr>)"

datatype registry_choice = OwnRegistry | AggregatingRegistry string

definition build_registry :: "metrics_env \<Rightarrow> registry_choice" where
  "build_registry e = (if me_dir e = [] then OwnRegistry else AggregatingRegistry (me_dir e))"

text \<open>The process is reported dead only where there are files of its own; a failure there is swallowed.\<close>

definition mark_worker_exit :: "metrics_env \<Rightarrow> unit raises \<Rightarrow> bool \<times> unit raises" where
  "mark_worker_exit e mark_process_dead =
     (if me_dir e = [] then (False, Inr ())
      else (True, case mark_process_dead of Inl x \<Rightarrow> Inr () | Inr u \<Rightarrow> Inr u))"

text \<open>What a scrape that reaches the given worker shows of one series of a counter.\<close>

definition sample :: "collector \<Rightarrow> string list \<Rightarrow> app_state \<Rightarrow> nat" where
  "sample c vs s = (case map_of (series_of c s) vs of Some n \<Rightarrow> n | None \<Rightarrow> 0)"

definition scraped :: "metrics_env \<Rightarrow> collector \<Rightarrow> string list \<Rightarrow> app_state list \<Rightarrow> app_state \<Rightarrow> nat" where
  "scraped e c vs workers reached =
     (case build_registry e of
        OwnRegistry \<Rightarrow> sample c vs reached
      | AggregatingRegistry dir \<Rightarrow> sum_list (map (sample c vs) workers))"

section \<open>Lemmas\<close>

lemma series_labels_keys: "distinct (map fst s) \<Longrightarrow> distinct (map fst (series_labels vs s))"
  by (auto simp: series_labels_def)

lemma series_inc_keys: "map fst (series_inc vs s) = map fst (series_labels vs s)"
  by (auto simp: series_inc_def)

lemma map_of_bump:
  "map_of (map (\<lambda>(k, n). (k, if k = vs then Suc n else n)) s) k =
   map_option (\<lambda>n. if k = vs then Suc n else n) (map_of s k)"
  by (induction s) auto

lemma map_of_labels: "map_of (series_labels vs s) k = (case map_of s k of Some n \<Rightarrow> Some n | None \<Rightarrow> if k = vs then Some 0 else None)"
  by (auto simp: series_labels_def map_add_def split: option.splits) (metis fst_conv image_eqI map_of_eq_None_iff)

lemma counted_value:
  "map_of (counted vss s) k =
   (case map_of s k of
      Some n \<Rightarrow> Some (n + count_list vss k)
    | None \<Rightarrow> if k \<in> set vss then Some (count_list vss k) else None)"
proof (induction vss arbitrary: s)
  case Nil
  then show ?case by (simp add: counted_def split: option.splits)
next
  case (Cons v vss)
  have "counted (v # vss) s = counted vss (series_inc v s)" by (simp add: counted_def)
  then show ?case
    by (auto simp: Cons.IH series_inc_def map_of_bump map_of_labels count_notin split: option.splits)
qed

lemma counted_closed:
  "\<forall>vs \<in> set vss. vs \<in> fst ` set s \<Longrightarrow> map fst (counted vss s) = map fst s"
proof (induction vss arbitrary: s)
  case Nil
  then show ?case by (simp add: counted_def)
next
  case (Cons v vss)
  have k: "map fst (series_inc v s) = map fst s"
    using Cons.prems by (simp add: series_inc_keys series_labels_def)
  then have "fst ` set (series_inc v s) = fst ` set s" by (metis set_map)
  then have "map fst (counted vss (series_inc v s)) = map fst (series_inc v s)"
    using Cons by simp
  then show ?case using k by (simp add: counted_def)
qed

lemma precreated_keys: "map fst precreated = map (\<lambda>r. [r]) LICENSE_REJECTION_REASONS"
  by (simp add: precreated_def LICENSE_REJECTION_REASONS_def series_labels_def)

lemma precreated_zero: "r \<in> set LICENSE_REJECTION_REASONS \<Longrightarrow> map_of precreated [r] = Some 0"
  by (auto simp: precreated_def LICENSE_REJECTION_REASONS_def series_labels_def)

text \<open>The counters of the gate follow the codes of the answers, if the handler behind it leaves both alone.\<close>

definition refusal_codes :: "'b http_response raises \<Rightarrow> string list" where
  "refusal_codes answer =
     (case answer of Inl e \<Rightarrow> [] | Inr resp \<Rightarrow> filter (\<lambda>c. c \<in> set LICENSE_REJECTION_REASONS) [rs_code resp])"

definition leaves_gate :: "(license option \<Rightarrow> ('l, 'z) gate_state_scheme \<Rightarrow> 'b http_response raises \<times> ('l, 'z) gate_state_scheme) \<Rightarrow> bool" where
  "leaves_gate f \<longleftrightarrow>
     (\<forall>l s. gs_rejections (snd (f l s)) = gs_rejections s \<and> gs_decisions (snd (f l s)) = gs_decisions s \<and>
            refusal_codes (fst (f l s)) = [])"

definition throttled :: "(string \<times> string) list \<Rightarrow> nat" where
  "throttled ds = length (filter (\<lambda>d. snd d = ''throttled'') ds)"

lemma refusal_codes_respond:
  "(\<And>resp. rs_code (g resp) = rs_code resp) \<Longrightarrow> refusal_codes (bind_r m (\<lambda>resp. Inr (g resp))) = refusal_codes m"
  by (cases m) (simp_all add: refusal_codes_def)

lemma code_kept [simp]: "rs_code (finalise i e resp) = rs_code resp" "rs_code (set_header h v resp) = rs_code resp"
  "rs_code (error_response n c i hs) = c"
  by (simp_all add: finalise_def set_header_def error_response_def)

lemma reject_counts:
  assumes "code \<in> set LICENSE_REJECTION_REASONS"
  shows "gs_rejections (snd (gate_reject n code i e hs s)) = gs_rejections s @ [code]"
    "gs_decisions (snd (gate_reject n code i e hs s)) = gs_decisions s"
    "refusal_codes (fst (gate_reject n code i e hs s)) = [code]"
  using assms by (simp_all add: gate_reject_def refusal_codes_def)

lemma respond_counts:
  assumes "leaves_gate f" "\<And>resp. rs_code (g resp) = rs_code resp"
  shows "gs_rejections (snd (respond g (f l s))) = gs_rejections s"
    "gs_decisions (snd (respond g (f l s))) = gs_decisions s"
    "refusal_codes (fst (respond g (f l s))) = []"
  using assms by (simp_all add: respond_def leaves_gate_def refusal_codes_respond)

lemma reasons_listed [simp]:
  "''license_key_missing'' \<in> set LICENSE_REJECTION_REASONS" "''license_key_invalid'' \<in> set LICENSE_REJECTION_REASONS"
  "''license_expired'' \<in> set LICENSE_REJECTION_REASONS" "''feature_not_licensed'' \<in> set LICENSE_REJECTION_REASONS"
  "''quota_exceeded'' \<in> set LICENSE_REJECTION_REASONS"
  by (simp_all add: LICENSE_REJECTION_REASONS_def)

definition gate_counts ::
    "('l, 'z) gate_state_scheme \<Rightarrow> 'b http_response raises \<times> ('l, 'z) gate_state_scheme \<Rightarrow> bool" where
  "gate_counts s x \<longleftrightarrow>
     gs_rejections (snd x) = gs_rejections s @ refusal_codes (fst x) \<and>
     throttled (gs_decisions (snd x)) = throttled (gs_decisions s) + count_list (refusal_codes (fst x)) ''quota_exceeded''"

lemma gate_counts_reject:
  "code \<in> set LICENSE_REJECTION_REASONS \<Longrightarrow> code \<noteq> ''quota_exceeded'' \<Longrightarrow> gate_counts s (gate_reject n code i e hs s)"
  by (simp add: gate_counts_def reject_counts)

lemma gate_counts_respond:
  "leaves_gate f \<Longrightarrow> (\<And>resp. rs_code (g resp) = rs_code resp) \<Longrightarrow> gs_rejections t = gs_rejections s \<Longrightarrow>
   throttled (gs_decisions t) = throttled (gs_decisions s) \<Longrightarrow> gate_counts s (respond g (f l t))"
  by (simp add: gate_counts_def respond_counts)

lemma gate_counts_raise: "gs_rejections t = gs_rejections s \<Longrightarrow> gs_decisions t = gs_decisions s \<Longrightarrow> gate_counts s (Inl e, t)"
  by (simp add: gate_counts_def refusal_codes_def)

lemma gate_counts_throttle:
  "gs_rejections t = gs_rejections s \<Longrightarrow> gs_decisions t = gs_decisions s @ [(tier, ''throttled'')] \<Longrightarrow>
   gate_counts s (gate_reject n ''quota_exceeded'' i e hs t)"
  by (simp add: gate_counts_def reject_counts throttled_def)

lemma throttled_admitted [simp]: "throttled (ds @ [(tier, ''admitted'')]) = throttled ds"
  by (simp add: throttled_def)

lemma dispatch_counts:
  assumes f: "leaves_gate f"
  shows "gate_counts s (dispatch sha m check now fresh_id elapsed f r s)"
  unfolding dispatch_def Let_def
  by (auto split: option.split sum.split bool.split prod.split
      intro!: gate_counts_reject gate_counts_respond [OF f] gate_counts_raise gate_counts_throttle)

section \<open>The application\<close>

lemma error_handler_codes: "refusal_codes (error_handler i err) = []"
  by (cases err) (simp_all add: error_handler_def refusal_codes_def LICENSE_REJECTION_REASONS_def)

lemma plain_codes: "refusal_codes (Inr \<lparr>rs_status = n, rs_code = [], rs_headers = hs, rs_content = b\<rparr>) = []"
  "refusal_codes (Inr (ok_response v hs)) = []" "refusal_codes (Inr ((ok_response v hs)\<lparr>rs_status := n\<rparr>)) = []"
  by (simp_all add: refusal_codes_def ok_response_def LICENSE_REJECTION_REASONS_def)

lemma intercept_route_gate:
  "gs_rejections (snd (intercept_route settings lib w lic p s)) = gs_rejections s \<and>
   gs_decisions (snd (intercept_route settings lib w lic p s)) = gs_decisions s"
  by (auto simp: intercept_route_def Let_def split: prod.splits sum.splits option.splits list.splits store_error.splits)

lemma intercept_app_gate:
  "gs_rejections (snd (intercept_app settings lib w l call s)) = gs_rejections s \<and>
   gs_decisions (snd (intercept_app settings lib w l call s)) = gs_decisions s \<and>
   refusal_codes (fst (intercept_app settings lib w l call s)) = []"
proof -
  have "gs_rejections s' = gs_rejections s \<and> gs_decisions s' = gs_decisions s"
    if "intercept_route settings lib w lic p s = (x, s')" for lic p x s'
    using intercept_route_gate [of settings lib w lic p s] that by simp
  then show ?thesis
    by (auto simp: intercept_app_def error_handler_codes plain_codes split: sum.split prod.split)
qed

lemma routes_leave_gate: "leaves_gate (\<lambda>l. timing_layer (routes settings lib w) l call)"
proof -
  have "gs_rejections (snd (routes settings lib w l call s)) = gs_rejections s \<and>
      gs_decisions (snd (routes settings lib w l call s)) = gs_decisions s \<and>
      refusal_codes (fst (routes settings lib w l call s)) = []" for l s
    by (auto simp: routes_def Let_def intercept_app_gate error_handler_codes plain_codes split: sum.split prod.split)
  then show ?thesis by (simp add: leaves_gate_def timing_layer_def case_prod_beta Let_def)
qed

definition answer_refusals :: "app_content http_response list \<Rightarrow> string list" where
  "answer_refusals resps = filter (\<lambda>c. c \<in> set LICENSE_REJECTION_REASONS) (map rs_code resps)"

lemma serve_counts:
  assumes "later_is_outer stack" "serve stack settings lib registry w call s = (resp, s')"
  shows "gs_rejections s' = gs_rejections s @ answer_refusals [resp] \<and>
    throttled (gs_decisions s') = throttled (gs_decisions s) + count_list (answer_refusals [resp]) ''quota_exceeded''"
proof -
  let ?d = "dispatch (li_sha lib) (gate_of settings registry) (limiter_check w) (aw_wall w) (aw_fresh_id w)
      (aw_elapsed w) (\<lambda>l. timing_layer (routes settings lib w) l call) (call_request call) s"
  have d: "gate_counts s ?d" by (rule dispatch_counts [OF routes_leave_gate])
  have "serve stack settings lib registry w call s =
      (case ?d of (Inl _, s') \<Rightarrow> (error_response 500 ''internal_error'' ''-'' [], s') | (Inr resp, s') \<Rightarrow> (resp, s'))"
    by (simp add: serve_def stack_layers [OF assms(1)] license_layer_dispatch)
  then show ?thesis
    using assms(2) d
    by (cases ?d; cases "fst ?d")
      (auto simp: gate_counts_def refusal_codes_def answer_refusals_def LICENSE_REJECTION_REASONS_def)
qed

lemma serve_calls_counts:
  assumes "later_is_outer stack"
  shows "serve_calls stack settings lib registry calls s = (resps, s') \<Longrightarrow>
    gs_rejections s' = gs_rejections s @ answer_refusals resps \<and>
    throttled (gs_decisions s') = throttled (gs_decisions s) + count_list (answer_refusals resps) ''quota_exceeded''"
proof (induction calls arbitrary: s resps s')
  case Nil
  then show ?case by (simp add: answer_refusals_def)
next
  case (Cons x calls)
  obtain w call where x: "x = (w, call)" by fastforce
  obtain resp t where one: "serve stack settings lib registry w call s = (resp, t)" by fastforce
  obtain rest u where more: "serve_calls stack settings lib registry calls t = (rest, u)" by fastforce
  have eq: "resps = resp # rest" "s' = u" using Cons.prems by (simp_all add: x one more)
  show ?case
    using serve_counts [OF assms one] Cons.IH [OF more] by (simp add: eq answer_refusals_def)
qed

lemma rejections_series: "series_of LICENSE_REJECTIONS s = counted (map (\<lambda>reason. [reason]) (gs_rejections s)) precreated"
  by (simp add: series_of_def worker_series_def REQUEST_DURATION_def PLANS_ISSUED_def PLAN_CONFIDENCE_def PLAN_REPLAYS_def
      COMMANDS_PLANNED_def LICENSE_REJECTIONS_def)

lemma count_singletons: "count_list (map (\<lambda>r. [r]) rs) [r] = count_list rs r"
  by (induction rs) auto

section \<open>Properties\<close>

text \<open>
  C37: The refusals a worker counts are those it answered.  From start-up, after any sequence of requests, the
  series of refused licences are the five that were made at import, whatever the callers sent, each at the
  number of answers that carried its reason; and the quota decisions counted as throttled are the answers
  that said so.
\<close>
theorem refusals_are_counted:
  assumes "later_is_outer stack" "lifespan_start settings ping = Inr s"
    and "serve_calls stack settings lib registry calls s = (resps, s')"
  shows "map fst (series_of LICENSE_REJECTIONS s') = map (\<lambda>r. [r]) LICENSE_REJECTION_REASONS \<and>
    (\<forall>r \<in> set LICENSE_REJECTION_REASONS.
       map_of (series_of LICENSE_REJECTIONS s') [r] = Some (length (filter (\<lambda>resp. rs_code resp = r) resps))) \<and>
    throttled (gs_decisions s') = length (filter (\<lambda>resp. rs_code resp = ''quota_exceeded'') resps)"
proof -
  have start: "gs_rejections s = []" "gs_decisions s = []"
    using assms(2) by (auto simp: lifespan_start_def split: if_splits)
  have c: "count_list (answer_refusals resps) r = length (filter (\<lambda>resp. rs_code resp = r) resps)"
    if "r \<in> set LICENSE_REJECTION_REASONS" for r
    using that by (induction resps) (auto simp: answer_refusals_def)
  have g: "gs_rejections s' = answer_refusals resps"
    "throttled (gs_decisions s') = count_list (answer_refusals resps) ''quota_exceeded''"
    using serve_calls_counts [OF assms(1,3)] start by (simp_all add: throttled_def)
  have "set (answer_refusals resps) \<subseteq> set LICENSE_REJECTION_REASONS" by (auto simp: answer_refusals_def)
  then have closed: "\<forall>vs \<in> set (map (\<lambda>reason. [reason]) (gs_rejections s')). vs \<in> fst ` set precreated"
    using precreated_keys by (metis (no_types, lifting) g(1) image_mono list.set_map subsetD)
  show ?thesis
    using counted_closed [OF closed] c
    by (simp add: rejections_series precreated_keys counted_value precreated_zero g count_singletons)
qed

text \<open>
  When a scrape shows the whole service.  With the directory of the processes set, every sample is the
  sum over the workers; without it a scrape shows the worker it reached, so what it reports of refusals is
  the whole only if no other worker refused anything.  The status on the probe says aggregated exactly if the
  directory is there and writable.
\<close>
theorem scrape_shows_all:
  assumes "workers = before @ reached # after"
  shows "(scraped e c vs workers reached = sum_list (map (sample c vs) workers)) =
      (me_dir e \<noteq> [] \<or> (\<forall>other \<in> set (before @ after). sample c vs other = 0)) \<and>
    (mt_aggregated (verify_multiprocess_ready e) \<longleftrightarrow> me_dir e \<noteq> [] \<and> me_is_dir e \<and> me_writable e) \<and>
    (mt_aggregated (verify_multiprocess_ready e) \<longrightarrow> scraped e c vs workers reached = sum_list (map (sample c vs) workers))"
  by (cases "me_dir e = []") (auto simp: assms scraped_def build_registry_def verify_multiprocess_ready_def)

section \<open>Witnesses\<close>

lemma demo_bad_key:
  "rs_code (fst (serve demo_stack demo_app_settings demo_library demo_registry demo_world (demo_call ''bad'') s)) =
   ''license_key_invalid''"
  by (simp add: serve_def stack_layers [OF demo_stack_law] license_layer_dispatch dispatch_def is_exempt_def gate_of_def
      demo_call_def demo_request_def EXEMPT_PATHS_def request_key_def demo_app_fields demo_library_def license_lookup_def
      license_key_digest_def demo_registry_def str_strip_def is_space_def partition_space_def gate_reject_def Let_def)

theorem refusals_are_counted_witness:
  "map_of (series_of LICENSE_REJECTIONS
     (snd (serve_calls demo_stack demo_app_settings demo_library demo_registry
        [(demo_world, demo_call ''bad''), (demo_world, demo_call ''bad'')] demo_start)))
     [''license_key_invalid''] = Some 2"
proof -
  let ?calls = "[(demo_world, demo_call ''bad''), (demo_world, demo_call ''bad'')]"
  obtain resps s' where run: "serve_calls demo_stack demo_app_settings demo_library demo_registry ?calls demo_start = (resps, s')"
    by fastforce
  then have "map rs_code resps = [''license_key_invalid'', ''license_key_invalid'']"
    using demo_bad_key by (auto split: prod.splits) (metis fst_conv)+
  then have "length (filter (\<lambda>resp. rs_code resp = ''license_key_invalid'') resps) = 2" by auto
  then show ?thesis
    using refusals_are_counted [OF demo_stack_law demo_started run] run by (simp add: LICENSE_REJECTION_REASONS_def)
qed

theorem scrape_shows_all_witness:
  "scraped \<lparr>me_dir = ''/run/prom'', me_is_dir = True, me_writable = True\<rparr> LICENSE_REJECTIONS [''license_expired'']
     [demo_start, demo_start\<lparr>gs_rejections := [''license_expired'']\<rparr>] demo_start = 1"
proof -
  have "sample LICENSE_REJECTIONS [''license_expired''] demo_start = 0"
    "sample LICENSE_REJECTIONS [''license_expired''] (demo_start\<lparr>gs_rejections := [''license_expired'']\<rparr>) = 1"
    by (simp_all add: sample_def rejections_series counted_value precreated_zero demo_start_def)
  then show ?thesis
    using scrape_shows_all [of "[demo_start, demo_start\<lparr>gs_rejections := [''license_expired'']\<rparr>]" "[]" demo_start
        "[demo_start\<lparr>gs_rejections := [''license_expired'']\<rparr>]"
        "\<lparr>me_dir = ''/run/prom'', me_is_dir = True, me_writable = True\<rparr>" LICENSE_REJECTIONS "[''license_expired'']"]
    by simp
qed

end
