(* ===== verification/Log_Records.thy ===== *)
theory Log_Records
  imports Worker_Http
begin

text \<open>
  The log of the three services: what a record becomes as a line of JSON (JsonFormatter of command_worker.py,
  JsonFormatter of ai-interceptor/app/logging_config.py, _JsonLogFormatter of graphrag_interceptor.py), and
  which handlers a record reaches after each configure_logging.

  A line is the JSON object before it is encoded.  A record of the logging library is its attributes in their
  order, of which the standard ones are an argument, and the texts of its time and of its exception.
\<close>

section \<open>Records\<close>

record log_record =
  lr_time :: string
  lr_level :: string
  lr_name :: string
  lr_message :: string
  lr_attributes :: "(string \<times> json) list"
  lr_exception :: "string option"

definition STANDARD_ATTRIBUTES :: "string list" where
  "STANDARD_ATTRIBUTES =
     [''name'', ''msg'', ''args'', ''levelname'', ''levelno'', ''pathname'', ''filename'', ''module'', ''exc_info'',
      ''exc_text'', ''stack_info'', ''lineno'', ''funcName'', ''created'', ''msecs'', ''relativeCreated'', ''thread'',
      ''threadName'', ''processName'', ''process'']"

definition RESERVED :: "string list" where
  "RESERVED = STANDARD_ATTRIBUTES @ [''asctime'', ''message'', ''taskName'']"

text \<open>The library's makeRecord: an extra field may not hide an attribute, nor be message or asctime.\<close>

definition make_record :: "log_record \<Rightarrow> (string \<times> json) list \<Rightarrow> log_record raises" where
  "make_record r extra =
     (if list_ex (\<lambda>k. k \<in> {''message'', ''asctime''} \<union> fst ` set (lr_attributes r)) (map fst extra) then Inl KeyErrorExn
      else Inr (r\<lparr>lr_attributes := lr_attributes r @ extra\<rparr>))"

section \<open>Lines\<close>

definition add_attributes :: "(string \<Rightarrow> bool) \<Rightarrow> (string \<times> json) list \<Rightarrow> (string \<times> json) list \<Rightarrow> (string \<times> json) list" where
  "add_attributes keep attributes line =
     fold (\<lambda>(k, v) l. if keep k then AList.update k v l else l) attributes line"

definition add_exception :: "string option \<Rightarrow> (string \<times> json) list \<Rightarrow> (string \<times> json) list" where
  "add_exception e line = (case e of Some t \<Rightarrow> AList.update ''exception'' (JStr t) line | None \<Rightarrow> line)"

definition public_attribute :: "string \<Rightarrow> bool" where
  "public_attribute k \<longleftrightarrow> k \<notin> set RESERVED \<and> \<not> str_startswith k ''_''"

definition SERVICE :: string where "SERVICE = ''openontology-command-worker''"

definition worker_line :: "log_context \<Rightarrow> log_record \<Rightarrow> (string \<times> json) list" where
  "worker_line ctx r =
     add_exception (lr_exception r) (add_attributes public_attribute (lr_attributes r)
       [(''timestamp'', JStr (lr_time r)), (''level'', JStr (lr_level r)), (''logger'', JStr (lr_name r)),
        (''service'', JStr SERVICE), (''message'', JStr (lr_message r)), (''request_id'', JStr (lg_request_id ctx)),
        (''tenant'', JStr (lg_tenant ctx)), (''event_id'', JStr (lg_event_id ctx))])"

text \<open>The context of the two interceptors, bound for a request and reset by its token.\<close>

record request_context =
  rc_request_id :: string
  rc_tenant :: string

definition unbound_request :: request_context where
  "unbound_request = \<lparr>rc_request_id = ''-'', rc_tenant = ''-''\<rparr>"

definition bind_request_context :: "string \<Rightarrow> string \<Rightarrow> request_context \<Rightarrow> request_context \<times> request_context" where
  "bind_request_context request_id tenant ctx = (ctx, \<lparr>rc_request_id = request_id, rc_tenant = tenant\<rparr>)"

definition reset_request_context :: "request_context \<Rightarrow> request_context \<Rightarrow> request_context" where
  "reset_request_context tokens ctx = tokens"

definition ai_line :: "request_context \<Rightarrow> log_record \<Rightarrow> (string \<times> json) list" where
  "ai_line ctx r =
     add_exception (lr_exception r) (add_attributes public_attribute (lr_attributes r)
       [(''timestamp'', JStr (lr_time r)), (''level'', JStr (lr_level r)), (''logger'', JStr (lr_name r)),
        (''message'', JStr (lr_message r)), (''request_id'', JStr (rc_request_id ctx)), (''tenant'', JStr (rc_tenant ctx))])"

definition graph_line :: "request_context \<Rightarrow> log_record \<Rightarrow> (string \<times> json) list" where
  "graph_line ctx r =
     add_exception (lr_exception r) (add_attributes (\<lambda>k. k \<notin> set RESERVED) (lr_attributes r)
       [(''ts'', JStr (lr_time r)), (''level'', JStr (lr_level r)), (''logger'', JStr (lr_name r)),
        (''message'', JStr (lr_message r)), (''request_id'', JStr (rc_request_id ctx)), (''tenant'', JStr (rc_tenant ctx))])"

section \<open>Loggers\<close>

datatype log_handler = JsonStdout | JsonStderr | OtherHandler nat

record logger_conf =
  lc_handlers :: "log_handler list"
  lc_propagate :: bool
  lc_level :: "string option"

record loggers =
  ls_root :: logger_conf
  ls_named :: "string \<Rightarrow> logger_conf"

definition LEVEL_NAMES :: "string list" where
  "LEVEL_NAMES = [''CRITICAL'', ''FATAL'', ''ERROR'', ''WARN'', ''WARNING'', ''INFO'', ''DEBUG'', ''NOTSET'']"

definition set_level :: "string \<Rightarrow> logger_conf \<Rightarrow> logger_conf raises" where
  "set_level level c = (if level \<in> set LEVEL_NAMES then Inr (c\<lparr>lc_level := Some level\<rparr>) else Inl ValueError)"

definition name_logger :: "(logger_conf \<Rightarrow> logger_conf) \<Rightarrow> string \<Rightarrow> loggers \<Rightarrow> loggers" where
  "name_logger f n ls = ls\<lparr>ls_named := (ls_named ls)(n := f (ls_named ls n))\<rparr>"

text \<open>The level is matched as it is written, but by the GraphRAG interceptor in upper case.\<close>

definition through_root :: "logger_conf \<Rightarrow> logger_conf" where
  "through_root c = c\<lparr>lc_handlers := [], lc_propagate := True\<rparr>"

definition worker_logging :: "string \<Rightarrow> loggers \<Rightarrow> loggers raises" where
  "worker_logging level ls =
     bind_r (set_level level ((ls_root ls)\<lparr>lc_handlers := [JsonStdout]\<rparr>)) (\<lambda>root_conf.
       let ls1 = fold (name_logger through_root) [''uvicorn'', ''uvicorn.error'', ''uvicorn.access'', ''aiokafka'']
                   (ls\<lparr>ls_root := root_conf\<rparr>)
       in Inr (if str_upper level \<noteq> ''DEBUG''
               then name_logger (\<lambda>c. c\<lparr>lc_level := Some ''WARNING''\<rparr>) ''aiokafka'' ls1 else ls1))"

definition ai_logging :: "string \<Rightarrow> loggers \<Rightarrow> loggers raises" where
  "ai_logging level ls =
     bind_r (set_level level ((ls_root ls)\<lparr>lc_handlers := [JsonStdout]\<rparr>)) (\<lambda>root_conf.
       Inr (fold (name_logger through_root) [''uvicorn'', ''uvicorn.error'', ''uvicorn.access''] (ls\<lparr>ls_root := root_conf\<rparr>)))"

definition graph_logging :: "string \<Rightarrow> loggers \<Rightarrow> loggers raises" where
  "graph_logging level ls =
     bind_r (set_level (str_upper level) ((ls_root ls)\<lparr>lc_handlers := [JsonStderr]\<rparr>)) (\<lambda>root_conf.
       Inr (fold (name_logger (\<lambda>c. c\<lparr>lc_handlers := [JsonStderr], lc_propagate := False\<rparr>))
              [''uvicorn.access'', ''uvicorn.error''] (ls\<lparr>ls_root := root_conf\<rparr>)))"

text \<open>The library's walk from a logger to the root, along the dots of its name.\<close>

definition ancestors :: "string \<Rightarrow> string list" where
  "ancestors n = n # map (\<lambda>i. take i n) (filter (\<lambda>i. n ! i = CHR ''.'') (rev [1..<length n]))"

fun reached_from :: "loggers \<Rightarrow> string list \<Rightarrow> log_handler list" where
  "reached_from ls [] = lc_handlers (ls_root ls)"
| "reached_from ls (n # ns) =
     lc_handlers (ls_named ls n) @ (if lc_propagate (ls_named ls n) then reached_from ls ns else [])"

definition handlers_reached :: "loggers \<Rightarrow> string \<Rightarrow> log_handler list" where
  "handlers_reached ls n = reached_from ls (ancestors n)"

section \<open>Lemmas\<close>

lemma add_attributes_lookup:
  assumes "distinct (map fst attributes)"
  shows "map_of (add_attributes keep attributes line) k =
    (if keep k \<and> k \<in> fst ` set attributes then map_of attributes k else map_of line k)"
  using assms
proof (induction attributes arbitrary: line)
  case Nil
  then show ?case by (simp add: add_attributes_def)
next
  case (Cons a attributes)
  obtain j v where a: "a = (j, v)" by fastforce
  have step: "add_attributes keep (a # attributes) line =
      add_attributes keep attributes (if keep j then AList.update j v line else line)"
    by (simp add: add_attributes_def a)
  have j: "j \<notin> fst ` set attributes" using Cons.prems a by auto
  show ?case
    unfolding step using Cons j by (auto simp: a update_conv')
qed

lemma add_attributes_distinct:
  "distinct (map fst line) \<Longrightarrow> distinct (map fst (add_attributes keep attributes line))"
  unfolding add_attributes_def
  by (induction attributes arbitrary: line) (auto simp: distinct_update split: prod.splits)

lemma add_exception_lookup:
  "map_of (add_exception e line) k = (if k = ''exception'' \<and> e \<noteq> None then map_option JStr e else map_of line k)"
  by (auto simp: add_exception_def update_conv' split: option.splits)

lemma add_exception_distinct: "distinct (map fst line) \<Longrightarrow> distinct (map fst (add_exception e line))"
  by (simp add: add_exception_def distinct_update split: option.splits)

text \<open>A record as the library makes it: its own attributes are the standard ones.\<close>

definition library_record :: "log_record \<Rightarrow> bool" where
  "library_record r \<longleftrightarrow>
     distinct (map fst (lr_attributes r)) \<and> fst ` set (lr_attributes r) \<subseteq> set RESERVED"

lemma made_record:
  assumes "library_record r0" "distinct (map fst extra)" "make_record r0 extra = Inr r"
  shows "distinct (map fst (lr_attributes r))" "lr_attributes r = lr_attributes r0 @ extra"
    "lr_exception r = lr_exception r0"
proof -
  have r: "r = r0\<lparr>lr_attributes := lr_attributes r0 @ extra\<rparr>" "\<forall>k \<in> set (map fst extra). k \<notin> fst ` set (lr_attributes r0)"
    using assms(3) by (simp_all add: make_record_def list_ex_iff split: if_splits)
  have "set (map fst (lr_attributes r0)) \<inter> set (map fst extra) = {}" using r(2) by (metis disjoint_iff set_map)
  then show "distinct (map fst (lr_attributes r))"
    using assms(1,2) by (simp only: r library_record_def) simp
  show "lr_attributes r = lr_attributes r0 @ extra" "lr_exception r = lr_exception r0" by (simp_all add: r)
qed

lemma attributes_shown:
  assumes "library_record r0" "distinct (map fst extra)" "make_record r0 extra = Inr r"
    and "\<And>k. keep k \<Longrightarrow> k \<notin> set RESERVED"
  shows "map_of (add_attributes keep (lr_attributes r) line) k =
    (if keep k \<and> k \<in> fst ` set extra then map_of extra k else map_of line k)"
proof -
  have a: "keep k \<Longrightarrow> k \<notin> fst ` set (lr_attributes r0)"
    using assms(1,4) by (auto simp: library_record_def)
  then have m: "keep k \<Longrightarrow> map_of (lr_attributes r0 @ extra) k = map_of extra k"
    by (simp add: map_add_def map_of_eq_None_iff [THEN iffD2] split: option.split)
  show ?thesis
    using add_attributes_lookup [OF made_record(1) [OF assms(1-3)]] made_record(2) [OF assms(1-3)] a m by auto
qed

lemma reached_through:
  "\<forall>n \<in> set ns. lc_handlers (ls_named ls n) = [] \<and> lc_propagate (ls_named ls n) \<Longrightarrow>
   reached_from ls ns = lc_handlers (ls_root ls)"
  by (induction ns) auto

lemma name_logger_root [simp]: "ls_root (name_logger f n ls) = ls_root ls"
  by (simp add: name_logger_def)

lemma name_logger_named: "ls_named (name_logger f n ls) m = (if m = n then f (ls_named ls m) else ls_named ls m)"
  by (simp add: name_logger_def)

definition server_loggers :: "string list" where
  "server_loggers = [''uvicorn'', ''uvicorn.error'', ''uvicorn.access'']"

lemma through_fold:
  "ls_root (fold (name_logger through_root) ns ls) = ls_root ls \<and>
   ls_named (fold (name_logger through_root) ns ls) m = (if m \<in> set ns then through_root (ls_named ls m) else ls_named ls m)"
  by (induction ns arbitrary: ls) (auto simp: name_logger_named through_root_def)

lemma worker_loggers:
  assumes "worker_logging level ls = Inr w"
  shows "lc_handlers (ls_root w) = [JsonStdout]"
    "m = ''aiokafka'' \<or> m \<in> set server_loggers \<or> lc_handlers (ls_named ls m) = [] \<Longrightarrow> lc_handlers (ls_named w m) = []"
    "m = ''aiokafka'' \<or> m \<in> set server_loggers \<or> lc_propagate (ls_named ls m) \<Longrightarrow> lc_propagate (ls_named w m)"
proof -
  let ?names = "[''uvicorn'', ''uvicorn.error'', ''uvicorn.access'', ''aiokafka'']"
  let ?ls = "fold (name_logger through_root) ?names (ls\<lparr>ls_root := (ls_root ls)\<lparr>lc_handlers := [JsonStdout], lc_level := Some level\<rparr>\<rparr>)"
  have w: "w = ?ls \<or> w = name_logger (\<lambda>c. c\<lparr>lc_level := Some ''WARNING''\<rparr>) ''aiokafka'' ?ls"
    using assms unfolding worker_logging_def set_level_def Let_def by (cases "level \<in> set LEVEL_NAMES") (simp_all split: if_splits)
  have same: "lc_handlers (ls_named w m) = lc_handlers (ls_named ?ls m) \<and> lc_propagate (ls_named w m) = lc_propagate (ls_named ?ls m) \<and>
      ls_root w = ls_root ?ls" for m
    using w by (elim disjE; simp only: name_logger_named name_logger_root) simp_all
  show "lc_handlers (ls_root w) = [JsonStdout]" using same through_fold by simp
  show "lc_handlers (ls_named w m) = []" if "m = ''aiokafka'' \<or> m \<in> set server_loggers \<or> lc_handlers (ls_named ls m) = []"
    using that unfolding same [THEN conjunct1] through_fold [THEN conjunct2]
    by (cases "m \<in> set ?names") (simp_all only: if_True if_False, auto simp: server_loggers_def through_root_def)
  show "lc_propagate (ls_named w m)" if "m = ''aiokafka'' \<or> m \<in> set server_loggers \<or> lc_propagate (ls_named ls m)"
    using that unfolding same [THEN conjunct2, THEN conjunct1] through_fold [THEN conjunct2]
    by (cases "m \<in> set ?names") (simp_all only: if_True if_False, auto simp: server_loggers_def through_root_def)
qed

lemma ai_loggers:
  assumes "ai_logging level ls = Inr ai"
  shows "lc_handlers (ls_root ai) = [JsonStdout]"
    "m \<in> set server_loggers \<or> lc_handlers (ls_named ls m) = [] \<Longrightarrow> lc_handlers (ls_named ai m) = []"
    "m \<in> set server_loggers \<or> lc_propagate (ls_named ls m) \<Longrightarrow> lc_propagate (ls_named ai m)"
proof -
  have ai: "ai = fold (name_logger through_root) server_loggers
      (ls\<lparr>ls_root := (ls_root ls)\<lparr>lc_handlers := [JsonStdout], lc_level := Some level\<rparr>\<rparr>)"
    using assms unfolding ai_logging_def set_level_def server_loggers_def by (cases "level \<in> set LEVEL_NAMES") simp_all
  show "lc_handlers (ls_root ai) = [JsonStdout]" by (simp add: ai through_fold)
  show "lc_handlers (ls_named ai m) = []" if "m \<in> set server_loggers \<or> lc_handlers (ls_named ls m) = []"
    using that by (auto simp: ai through_fold through_root_def)
  show "lc_propagate (ls_named ai m)" if "m \<in> set server_loggers \<or> lc_propagate (ls_named ls m)"
    using that by (auto simp: ai through_fold through_root_def)
qed

section \<open>Properties\<close>

text \<open>
  What a line holds.  In each service its members are the fields of the service, the extra fields of the
  call and the exception, each once; an extra field is shown unless its name is reserved or, but for the
  GraphRAG interceptor, begins with an underscore.  An extra field with the name of a field of the service
  takes its place, so a call that names a tenant or an event hides the one of the context.
\<close>
theorem log_line_members:
  assumes "library_record r0" "distinct (map fst extra)" "make_record r0 extra = Inr r"
  shows "distinct (map fst (worker_line ctx r)) \<and> distinct (map fst (ai_line rc r)) \<and> distinct (map fst (graph_line rc r)) \<and>
    map_of (worker_line ctx r) k =
      (if k = ''exception'' \<and> lr_exception r0 \<noteq> None then map_option JStr (lr_exception r0)
       else if public_attribute k \<and> k \<in> fst ` set extra then map_of extra k
       else map_of (worker_line ctx (r0\<lparr>lr_attributes := [], lr_exception := None\<rparr>)) k) \<and>
    map_of (ai_line rc r) k =
      (if k = ''exception'' \<and> lr_exception r0 \<noteq> None then map_option JStr (lr_exception r0)
       else if public_attribute k \<and> k \<in> fst ` set extra then map_of extra k
       else map_of (ai_line rc (r0\<lparr>lr_attributes := [], lr_exception := None\<rparr>)) k) \<and>
    map_of (graph_line rc r) k =
      (if k = ''exception'' \<and> lr_exception r0 \<noteq> None then map_option JStr (lr_exception r0)
       else if k \<notin> set RESERVED \<and> k \<in> fst ` set extra then map_of extra k
       else map_of (graph_line rc (r0\<lparr>lr_attributes := [], lr_exception := None\<rparr>)) k)"
proof -
  have r: "lr_exception r = lr_exception r0" "lr_time r = lr_time r0" "lr_level r = lr_level r0"
    "lr_name r = lr_name r0" "lr_message r = lr_message r0"
    using assms(3) by (auto simp: make_record_def split: if_splits)
  have p: "map_of (add_attributes public_attribute (lr_attributes r) line) k =
      (if public_attribute k \<and> k \<in> fst ` set extra then map_of extra k else map_of line k)" for line
    by (rule attributes_shown [OF assms]) (simp add: public_attribute_def)
  have g: "map_of (add_attributes (\<lambda>k. k \<notin> set RESERVED) (lr_attributes r) line) k =
      (if k \<notin> set RESERVED \<and> k \<in> fst ` set extra then map_of extra k else map_of line k)" for line
    by (rule attributes_shown [OF assms])
  have none: "add_attributes q [] line = line" "add_exception None line = line" for q line
    by (simp_all add: add_attributes_def add_exception_def)
  show ?thesis
    unfolding worker_line_def ai_line_def graph_line_def add_exception_lookup p g r
    by (intro conjI add_exception_distinct add_attributes_distinct; (cases "lr_exception r0")?; simp add: none del: map_of.simps)
qed

text \<open>
  One format per process.  After the worker or the AI interceptor has configured its logging, a record of a
  logger reaches the JSON handler once and no other, if the loggers on its way that were not configured are
  as the library makes them; that covers the server and the Kafka client whatever handlers they came with.
\<close>
theorem log_records_reach_json:
  assumes "worker_logging level ls = Inr worker" "ai_logging level ls = Inr ai"
    and "\<forall>m \<in> set (ancestors n). m \<in> set server_loggers \<or> (lc_handlers (ls_named ls m) = [] \<and> lc_propagate (ls_named ls m))"
  shows "handlers_reached worker n = [JsonStdout] \<and> handlers_reached ai n = [JsonStdout] \<and>
    handlers_reached worker ''aiokafka'' = [JsonStdout]"
proof -
  have "ancestors ''aiokafka'' = [''aiokafka'']" by code_simp
  then have "handlers_reached worker ''aiokafka'' = [JsonStdout]"
    using worker_loggers [OF assms(1)] by (simp add: handlers_reached_def)
  moreover have "reached_from worker (ancestors n) = lc_handlers (ls_root worker)"
    by (rule reached_through) (use assms(3) worker_loggers(2,3) [OF assms(1)] in blast)
  moreover have "reached_from ai (ancestors n) = lc_handlers (ls_root ai)"
    by (rule reached_through) (use assms(3) ai_loggers(2,3) [OF assms(2)] in blast)
  ultimately show ?thesis
    using worker_loggers(1) [OF assms(1)] ai_loggers(1) [OF assms(2)] by (simp add: handlers_reached_def)
qed

text \<open>
  The GraphRAG interceptor gives the server's two loggers its own handler and cuts them off, so their records
  are printed once whatever stands above them; the logger above, uvicorn, keeps the handlers it came with.
\<close>
theorem graph_server_logs:
  assumes "graph_logging level ls = Inr graph"
  shows "handlers_reached graph ''uvicorn.access'' = [JsonStderr] \<and> handlers_reached graph ''uvicorn.error'' = [JsonStderr] \<and>
    ls_named graph ''uvicorn'' = ls_named ls ''uvicorn'' \<and> lc_handlers (ls_root graph) = [JsonStderr]"
proof -
  have "graph = fold (name_logger (\<lambda>c. c\<lparr>lc_handlers := [JsonStderr], lc_propagate := False\<rparr>)) [''uvicorn.access'', ''uvicorn.error'']
      (ls\<lparr>ls_root := (ls_root ls)\<lparr>lc_handlers := [JsonStderr], lc_level := Some (str_upper level)\<rparr>\<rparr>)"
    using assms unfolding graph_logging_def set_level_def by (cases "str_upper level \<in> set LEVEL_NAMES") simp_all
  then show ?thesis by (simp add: name_logger_named handlers_reached_def ancestors_def)
qed

end
