(* ===== verification/Spec2Isabelle.thy ===== *)
theory Spec2Isabelle
  imports Prelude Replay_Store Worker_Settings Licensing Quota License_Gate Retry Contracts
    Interceptor_Client Preflight Closure Graph_Contracts Graph_Crdt Graph_Topology Graph_Engine
    Bridge Manual_Corpus Rule_Agents Json_Text Planner_Contracts Planner_Prompt Planner
    Redis_Limiter Interceptor_Settings Interceptor_App Planner_Worker Worker_Http Graph_App Registry_Files
    Agent_Frames Console Interceptor_Metrics Log_Records
begin

text \<open>
  A model of the Python services of OpenOntology: the command worker that closes the loop from a graph
  mutation to physical commands, the two interceptors that plan for it (the AI interceptor and the GraphRAG
  interceptor with the service wrapped around it), and the operator console that watches both topics.

  How the parts interact.  The resolution engine publishes mutations on a Kafka topic.  The command worker
  (services/command-worker/command_worker.py) takes them one by one: it decodes the envelope, authorises
  the licence key against its registry through a cache, asks an interceptor for a plan (over HTTP, with
  retries, a rate gate and a preflight, or from an in-process simulator), translates the plan into commands
  and publishes them before it commits the offset.  A record it cannot process goes to a dead-letter topic;
  one that meets a broken dependency stays where it is.  The interceptors
  (services/ai-interceptor, services/graphrag-interceptor) check the licence and its quota, replay answers
  they have already given, and plan: the AI interceptor through a prompt to a provider, which may be the
  offline one, the GraphRAG interceptor with a deterministic topology kernel, a retrieval over a maintenance
  corpus, two agents and a set of guardrails over what the agents answer.  The console
  (services/operator-console/console.py) reads mutations, commands and the twin state in Redis.

  Theories, by service.

  Prelude: exceptions as values, Python strings, ordered dictionaries, json values, rounding, and the
  lemmas on them the components share.

  The command worker (command_worker.py).

  Worker_Settings (Settings, key_digest, normalise_plan): configuration, its validators and what they
  establish.

  Licensing (Subscription, SubscriptionRegistry, LicenseCache, LicenseGatekeeper): a subscription is found,
  cached and checked.  The lemmas show that the cache never changes an answer, that a licence is granted
  exactly when it is known, active, unexpired, entitled and has its capability, and which error code each
  refusal carries.

  Retry (retry_async, parse_retry_after, RateGate): the outcome of a retried call, its delays, and the rate
  gate as a state with explicit clock readings.

  Contracts (MutationEnvelope, ActionPlan, CommandPayload, translate_plan): what is read of the wire
  objects, and the translation of a plan into commands with its ids, deadlines and approvals.

  Interceptor_Client (StubInterceptor, HttpInterceptorClient, ActionRouter): the answer of the interceptor
  by status, where a request is sent and what it carries.

  Preflight (InterceptorPreflight, run_preflight_until_ready): agreement of the registries of worker and
  interceptor before consumption begins.

  Closure (CommandPublisher, ClosurePipeline, CommandWorker): one closure with its counters and effects,
  and the consumer of a partition as a step relation, with the reset policy of the group and the other tasks
  of the process; its invariant by rule induction.

  Worker_Http (routes, dependencies, error handlers, Metrics.snapshot and its collector, lifespan,
  CommandWorker.run): every route closes under the licence of its own caller, what the probes report, and
  the life of a consumer task as a step relation, with the termination of a stopped one.

  What the two interceptors share.

  Replay_Store (CommandCache in graphrag_interceptor.py; PlanCache, RedisPlanStore in
  ai-interceptor/app/idempotency.py): least-recently-used stores.  The locale of such a store is
  interpreted for both; the lemmas show capacity, eviction order and that a stored answer is replayed
  unchanged.

  Quota (SlidingWindowLimiter, SlidingWindowQuota): both are interpretations of one locale of a
  sliding window; the lemma bounds the hits of each window.

  License_Gate (LicenseKeyMiddleware.dispatch, verify_enterprise_subscription, the intercept routes): no
  request reaches a handler without a licence with the feature and quota left.

  Registry_Files (LicenseRegistry.from_file, SubscriptionRegistry.from_json, get_settings, create_app,
  build_service): how each reads a billing export, and which export the GraphRAG service ends up with.

  The AI interceptor (ai-interceptor/app).

  Interceptor_Settings (config.py): configuration and what its validators establish.

  Redis_Limiter (redis_state.py): the window as a script over a sorted set, its fallback, and replicas that
  share a server, which meter as the in-memory window does.

  Json_Text, Planner_Contracts, Planner_Prompt, Planner (models.py, llm.py): the text of JSON with its
  parser, the payload and the command sequence with their validators, the prompt and its reading by the
  offline provider, the deterministic plan and the planner around a provider, with its deadline.  The lemmas show the round
  trip of the briefing through the prompt, the policy of the deterministic plan and that it is well formed.

  Interceptor_App (main.py, llm_cloud.py, the middleware of metrics.py, the factories): the application as
  a function on its state, with the middlewares in the order they are registered.

  Interceptor_Metrics (metrics.py): the collectors and the series a worker holds, which processes a scrape
  shows; the refusals counted are those that were answered.

  Planner_Worker: the issued sequence as the worker reads it; every one of them translates.

  The GraphRAG interceptor (graphrag_interceptor.py, bridge.py, service.py).

  Graph_Contracts, Graph_Crdt, Graph_Topology (sections 1 and 2): the payload with its validators, the join
  of the replicas' timelines and the trust in it, and the analysis of the graph: which node is the root
  cause, how urgent it is and whether an irreversible action is permitted.

  Graph_Engine (MultiAgentGraphEngine, build_command_response): agent turns with their retries, the
  checks of their answers, the guardrails and the issued command.

  Manual_Corpus (section 3, _retrieve): the corpus, the embedding, the ranked search.

  Rule_Agents (DeterministicReasoningClient): the rules that play both agents offline, in time unless the
  latency they simulate is as long as a turn; they pass every check and every guardrail.

  Agent_Frames (sections 4 and 4b, _run_topology_isolator, _run_action_planner): prompts, tool schemas,
  briefings as JSON, the answer models as readers of JSON, the offline client over its briefing, the live
  client with its forced tool call, and the engine over a client.  The lemmas show that schemas and models
  fit each other, that the offline client needs nothing but its briefing, and that a live command can come
  only from the forced tool call of each turn.

  Bridge (bridge.py, the mutation route of service.py): the projection of a mutation on the payload, of the
  response on an action plan, and the route that joins them around the engine.

  Graph_App (create_app, build_service): routes, middlewares, error handlers and the remounted routes; and
  the exchange between this service and the worker.

  The operator console.

  Console (console.py): the activity log that the tails of the topics fill (each handler interprets the
  locale of what a tail needs of it), the reader of the twin state, the page, its event stream, the tail as a
  state machine over connection events and messages, and the probes.

  All three services.

  Log_Records (the JSON formatters and configure_logging of command_worker.py, graphrag_interceptor.py and
  ai-interceptor/app/logging_config.py): what a log line holds, and that a record reaches one handler.

  How state and effects are modelled.  A class with mutable fields is a record, a method a function that
  returns the new record; a dictionary that keeps its order is an association list.  Exceptions are the
  left side of a sum.  Clock readings, random numbers, HTTP exchanges, broker outcomes and agent answers
  are functions of the environment, indexed by the call.  Digests, UUIDs, the float format and the
  coercions of the validation library are arguments; what the proofs need of an argument is a named
  hypothesis (the laws of the sorted-set server, of the number format of a briefing, of the plan codec).
  Floats are rationals (with infinities and NaN where the code has to deal with them), rounding is half to
  even.

  Bounds.  Retries and attempts recurse on the number of attempts left, which the settings bound, and
  almost everything else on its data.  The JSON parser of Json_Text has fuel: the length of the text plus
  one, which is enough because every call it makes has consumed a character; the round trip shows that it
  does not run out on what the service writes.  A consumer that never makes progress is a property of its
  step relation.

  Idealisations.  A record, a request and a turn of an agent are handled atomically: requests that overlap
  at an await, such as two deliveries of one mutation that both miss the replay store, are outside, while
  the other tasks of the worker are steps between two records.  A partition keeps its records, and a group
  starts without a commit.  Where a provider simulates a latency it takes exactly that long, and a deadline
  that is reached at the same time wins.  Text is ASCII; white space is recognised in all of Latin-1.

  Not modelled: which statements log what; the exposition text and the histogram buckets of the
  metrics library; the construction of the Redis client and its TLS options; the parsing of
  the environment and the coercions of the validation library; the static page of the console; the quota
  probe and the smoke tests, which are clients of the services; the resolution engine, which is not Python
  and reaches this code through its mutations only.
\<close>

end
